(* ===== verification/Prelude.thy ===== *)
theory Prelude
  imports Main "HOL-Library.Sublist"
begin

text \<open>
  Shared vocabulary of the development: the result type of fallible code, the
  exceptions the service raises, table rows as lists with the SQL operations the
  Django ORM calls stand for (filter, first, exists, count, update, delete), and
  the generic lemmas on lists and options that the component theories use.

  Times are integers counting microseconds since the epoch (UTC), the resolution
  of a Python \<^verbatim>\<open>datetime\<close>; a \<^verbatim>\<open>timedelta\<close> is an integer of the same unit.
\<close>

named_theorems row_simps \<open>rewriting of table operations\<close>
named_theorems py_simps \<open>rewriting of Python string operations\<close>
named_theorems res_simps \<open>unfolding of the result combinators\<close>

type_synonym time = int
type_synonym uuid = string
type_synonym company = int
type_synonym user = int

definition microseconds :: "int \<Rightarrow> time" where
  "microseconds n = n"

definition seconds :: "int \<Rightarrow> time" where
  "seconds n = n * 1000000"

definition minutes :: "int \<Rightarrow> time" where
  "minutes n = seconds (60 * n)"

definition hours :: "int \<Rightarrow> time" where
  "hours n = seconds (3600 * n)"

definition days :: "int \<Rightarrow> time" where
  "days n = seconds (86400 * n)"

lemma seconds_mono [simp]: "seconds a \<le> seconds b \<longleftrightarrow> a \<le> b"
  by (simp add: seconds_def)

lemma seconds_pos [simp]: "0 < seconds a \<longleftrightarrow> 0 < a"
  by (simp add: seconds_def)

lemma seconds_nonneg [simp]: "0 \<le> seconds a \<longleftrightarrow> 0 \<le> a"
  by (simp add: seconds_def)

lemma days_pos [simp]: "0 < days a \<longleftrightarrow> 0 < a"
  by (simp add: days_def)

section \<open>Results\<close>

text \<open>
  An exception is a value: \<^verbatim>\<open>HostingError\<close> keeps its HTTP status and code, the
  message text is not modelled. The other constructors are the exceptions that the
  modelled code raises or lets through.
\<close>

datatype exn =
    Hosting_Error nat string
  | Value_Error
  | Http404
  | Extract_Error
  | Artifact_Too_Large
  | File_Not_Found
  | Does_Not_Exist
  | Integrity_Error
  | Runtime_Error
  | Os_Error
  | Auth_Failed string
  | Attribute_Error
  | Ssrf_Error
  | Validation_Error
  | Database_Error
  | Redis_Error
  | Timeout_Error
  | Network_Error
  | Job_Failed "nat option"
  | Parse_Error

fun bind_res :: "'e + 'a \<Rightarrow> ('a \<Rightarrow> 'e + 'b) \<Rightarrow> 'e + 'b" where
  "bind_res (Inl e) f = Inl e"
| "bind_res (Inr a) f = f a"

fun map_res :: "('a \<Rightarrow> 'b) \<Rightarrow> 'e + 'a \<Rightarrow> 'e + 'b" where
  "map_res f (Inl e) = Inl e"
| "map_res f (Inr a) = Inr (f a)"

lemma bind_res_Inr [res_simps]:
  "bind_res r f = Inr b \<longleftrightarrow> (\<exists>a. r = Inr a \<and> f a = Inr b)"
  by (cases r) auto

lemma bind_res_Inl [res_simps]:
  "bind_res r f = Inl e \<longleftrightarrow> r = Inl e \<or> (\<exists>a. r = Inr a \<and> f a = Inl e)"
  by (cases r) auto

lemma map_res_Inr [res_simps]: "map_res f r = Inr b \<longleftrightarrow> (\<exists>a. r = Inr a \<and> b = f a)"
  by (cases r) auto

section \<open>Table rows\<close>

text \<open>
  A table is the list of its rows in insertion order. \<open>first_row\<close> is
  \<^verbatim>\<open>.filter(p).first()\<close>, \<open>has_row\<close> is \<^verbatim>\<open>.filter(p).exists()\<close>, \<open>count_rows\<close> is
  \<^verbatim>\<open>.filter(p).count()\<close>, \<open>update_rows\<close> is \<^verbatim>\<open>.filter(p).update(...)\<close> (and the
  \<^verbatim>\<open>save\<close> of one row, selected by its key), \<open>delete_rows\<close> is
  \<^verbatim>\<open>.filter(p).delete()\<close>.
\<close>

definition first_row :: "('r \<Rightarrow> bool) \<Rightarrow> 'r list \<Rightarrow> 'r option" where
  "first_row p rs = List.find p rs"

definition has_row :: "('r \<Rightarrow> bool) \<Rightarrow> 'r list \<Rightarrow> bool" where
  "has_row p rs = list_ex p rs"

definition count_rows :: "('r \<Rightarrow> bool) \<Rightarrow> 'r list \<Rightarrow> nat" where
  "count_rows p rs = length (filter p rs)"

definition update_rows :: "('r \<Rightarrow> bool) \<Rightarrow> ('r \<Rightarrow> 'r) \<Rightarrow> 'r list \<Rightarrow> 'r list" where
  "update_rows p f rs = map (\<lambda>r. if p r then f r else r) rs"

definition delete_rows :: "('r \<Rightarrow> bool) \<Rightarrow> 'r list \<Rightarrow> 'r list" where
  "delete_rows p rs = filter (\<lambda>r. \<not> p r) rs"

lemma first_row_Some: "first_row p rs = Some r \<Longrightarrow> r \<in> set rs \<and> p r"
  by (auto simp: first_row_def find_Some_iff)

lemma first_row_None: "first_row p rs = None \<longleftrightarrow> (\<forall>r\<in>set rs. \<not> p r)"
  by (auto simp: first_row_def find_None_iff)

lemma has_row_iff [row_simps]: "has_row p rs \<longleftrightarrow> (\<exists>r\<in>set rs. p r)"
  by (simp add: has_row_def list_ex_iff)

lemma first_row_append [row_simps]:
  "first_row p (xs @ ys) = (case first_row p xs of None \<Rightarrow> first_row p ys | Some r \<Rightarrow> Some r)"
  by (induction xs) (auto simp: first_row_def)

lemma first_row_Nil [simp]: "first_row p [] = None"
  by (simp add: first_row_def)

lemma first_row_Cons [simp]: "first_row p (x # xs) = (if p x then Some x else first_row p xs)"
  by (simp add: first_row_def)

lemma count_rows_append [row_simps]: "count_rows p (xs @ ys) = count_rows p xs + count_rows p ys"
  by (simp add: count_rows_def)

lemma count_rows_Nil [simp]: "count_rows p [] = 0"
  by (simp add: count_rows_def)

lemma count_rows_Cons [simp]:
  "count_rows p (x # xs) = (if p x then Suc (count_rows p xs) else count_rows p xs)"
  by (simp add: count_rows_def)

lemma count_rows_update:
  "(\<And>r. r \<in> set rs \<Longrightarrow> q r \<Longrightarrow> p (f r) = p r) \<Longrightarrow> count_rows p (update_rows q f rs) = count_rows p rs"
  by (induction rs) (auto simp: update_rows_def)

lemma count_rows_delete_le: "count_rows p (delete_rows q rs) \<le> count_rows p rs"
  by (induction rs) (auto simp: delete_rows_def)

lemma set_update_rows [row_simps]:
  "set (update_rows p f rs) = {r \<in> set rs. \<not> p r} \<union> f ` {r \<in> set rs. p r}"
  by (auto simp: update_rows_def)

lemma set_delete_rows [row_simps]: "set (delete_rows p rs) = {r \<in> set rs. \<not> p r}"
  by (auto simp: delete_rows_def)

lemma map_update_rows:
  "(\<And>r. r \<in> set rs \<Longrightarrow> p r \<Longrightarrow> k (f r) = k r) \<Longrightarrow> map k (update_rows p f rs) = map k rs"
  by (auto simp: update_rows_def)

lemma length_update_rows [simp]: "length (update_rows p f rs) = length rs"
  by (simp add: update_rows_def)

lemma update_rows_Nil [simp]: "update_rows p f [] = []"
  by (simp add: update_rows_def)

lemma update_rows_Cons [simp]:
  "update_rows p f (x # xs) = (if p x then f x else x) # update_rows p f xs"
  by (simp add: update_rows_def)

lemma delete_rows_Nil [simp]: "delete_rows p [] = []"
  by (simp add: delete_rows_def)

lemma delete_rows_Cons [simp]:
  "delete_rows p (x # xs) = (if p x then delete_rows p xs else x # delete_rows p xs)"
  by (simp add: delete_rows_def)

lemma distinct_map_delete_rows: "distinct (map k rs) \<Longrightarrow> distinct (map k (delete_rows p rs))"
  by (simp add: delete_rows_def distinct_map_filter)

lemma distinct_map_unique:
  "distinct (map k rs) \<Longrightarrow> r \<in> set rs \<Longrightarrow> r' \<in> set rs \<Longrightarrow> k r = k r' \<Longrightarrow> r = r'"
  by (meson distinct_map inj_onD)

lemma first_row_key:
  "distinct (map k rs) \<Longrightarrow> r \<in> set rs \<Longrightarrow> first_row (\<lambda>x. k x = k r) rs = Some r"
  by (induction rs) (auto simp: image_iff)

lemma first_row_update_key:
  "(\<And>r. k (f r) = k r) \<Longrightarrow>
   first_row (\<lambda>x. k x = i) (update_rows (\<lambda>x. k x = i) f rs)
     = map_option f (first_row (\<lambda>x. k x = i) rs)"
  by (induction rs) auto

lemma first_row_update_other:
  "(\<And>r. k (f r) = k r) \<Longrightarrow> (\<And>r. q r \<Longrightarrow> k r \<noteq> i) \<Longrightarrow>
   first_row (\<lambda>x. k x = i) (update_rows q f rs) = first_row (\<lambda>x. k x = i) rs"
  by (induction rs) auto

lemma count_rows_0: "count_rows p rs = 0 \<longleftrightarrow> (\<forall>r\<in>set rs. \<not> p r)"
  by (simp add: count_rows_def filter_empty_conv)

lemma first_row_delete_other:
  "(\<And>r. q r \<Longrightarrow> \<not> p r) \<Longrightarrow> first_row p (delete_rows q rs) = first_row p rs"
  by (induction rs) auto

lemma filter_update_key:
  "(\<And>r. k (f r) = k r) \<Longrightarrow>
   filter (\<lambda>r. k r = i) (update_rows (\<lambda>r. k r = i) f rs) = map f (filter (\<lambda>r. k r = i) rs)"
  "(\<And>r. k (f r) = k r) \<Longrightarrow>
   filter (\<lambda>r. k r \<noteq> i) (update_rows (\<lambda>r. k r = i) f rs) = filter (\<lambda>r. k r \<noteq> i) rs"
  by (induction rs) auto

end
