(* ===== verification/Py_Regex.thy ===== *)
theory Py_Regex
  imports Py_Strings
begin

text \<open>
  The part of Python's \<^verbatim>\<open>re\<close> that the service uses: character classes,
  concatenation, alternatives, repetition and bounded repetition, decided by
  Brzozowski derivatives. \<open>lang\<close> is the set of strings a pattern denotes;
  \<open>re_fullmatch_iff\<close> shows that the matcher decides membership, and \<open>re_search_iff\<close>
  that a search finds a factor. Patterns in the component theories are written as
  the source writes them, with \<^verbatim>\<open>(?i)\<close> spelled out in the classes.
\<close>

type_synonym char_ranges = "(nat \<times> nat) list"

definition in_ranges :: "char_ranges \<Rightarrow> char \<Rightarrow> bool" where
  "in_ranges rs c = list_ex (\<lambda>(a, b). a \<le> ch c \<and> ch c \<le> b) rs"

datatype rexp =
    Zero
  | One
  | Cls char_ranges
  | Alt rexp rexp
  | Cat rexp rexp
  | Star rexp

inductive_set star_lang :: "string set \<Rightarrow> string set" for A where
  star_Nil: "[] \<in> star_lang A"
| star_app: "u \<in> A \<Longrightarrow> v \<in> star_lang A \<Longrightarrow> u @ v \<in> star_lang A"

fun lang :: "rexp \<Rightarrow> string set" where
  "lang Zero = {}"
| "lang One = {[]}"
| "lang (Cls rs) = {[c] | c. in_ranges rs c}"
| "lang (Alt r s) = lang r \<union> lang s"
| "lang (Cat r s) = {u @ v | u v. u \<in> lang r \<and> v \<in> lang s}"
| "lang (Star r) = star_lang (lang r)"

section \<open>The matcher\<close>

fun nullable :: "rexp \<Rightarrow> bool" where
  "nullable Zero = False"
| "nullable One = True"
| "nullable (Cls rs) = False"
| "nullable (Alt r s) = (nullable r \<or> nullable s)"
| "nullable (Cat r s) = (nullable r \<and> nullable s)"
| "nullable (Star r) = True"

fun mk_alt :: "rexp \<Rightarrow> rexp \<Rightarrow> rexp" where
  "mk_alt Zero s = s"
| "mk_alt r Zero = r"
| "mk_alt r s = (if r = s then r else Alt r s)"

fun mk_cat :: "rexp \<Rightarrow> rexp \<Rightarrow> rexp" where
  "mk_cat Zero s = Zero"
| "mk_cat One s = s"
| "mk_cat r s = Cat r s"

fun deriv :: "char \<Rightarrow> rexp \<Rightarrow> rexp" where
  "deriv c Zero = Zero"
| "deriv c One = Zero"
| "deriv c (Cls rs) = (if in_ranges rs c then One else Zero)"
| "deriv c (Alt r s) = mk_alt (deriv c r) (deriv c s)"
| "deriv c (Cat r s) =
     (if nullable r then mk_alt (mk_cat (deriv c r) s) (deriv c s) else mk_cat (deriv c r) s)"
| "deriv c (Star r) = mk_cat (deriv c r) (Star r)"

fun derivs :: "rexp \<Rightarrow> string \<Rightarrow> rexp" where
  "derivs r [] = r"
| "derivs r (c # cs) = derivs (deriv c r) cs"

definition re_fullmatch :: "rexp \<Rightarrow> string \<Rightarrow> bool" where
  "re_fullmatch r s = nullable (derivs r s)"

definition AnyChar :: rexp where
  "AnyChar = Cls [(0, 255)]"

text \<open>\<^verbatim>\<open>p.match(s)\<close> anchors at the start, \<^verbatim>\<open>p.search(s)\<close> at neither end.\<close>

definition re_match :: "rexp \<Rightarrow> string \<Rightarrow> bool" where
  "re_match r s = re_fullmatch (Cat r (Star AnyChar)) s"

definition re_search :: "rexp \<Rightarrow> string \<Rightarrow> bool" where
  "re_search r s = re_fullmatch (Cat (Star AnyChar) (Cat r (Star AnyChar))) s"

section \<open>Pattern constructors\<close>

definition Lit :: "char \<Rightarrow> rexp" where
  "Lit c = Cls [(ch c, ch c)]"

fun Word :: "string \<Rightarrow> rexp" where
  "Word [] = One"
| "Word [c] = Lit c"
| "Word (c # d # cs) = Cat (Lit c) (Word (d # cs))"

definition Opt :: "rexp \<Rightarrow> rexp" where
  "Opt r = Alt One r"

definition Plus :: "rexp \<Rightarrow> rexp" where
  "Plus r = Cat r (Star r)"

fun UpTo :: "nat \<Rightarrow> rexp \<Rightarrow> rexp" where
  "UpTo 0 r = One"
| "UpTo (Suc n) r = Alt One (Cat r (UpTo n r))"

fun Times :: "nat \<Rightarrow> rexp \<Rightarrow> rexp \<Rightarrow> rexp" where
  "Times 0 r s = s"
| "Times (Suc n) r s = Cat r (Times n r s)"

text \<open>\<open>Rep m n r\<close> is \<^verbatim>\<open>r{m,n}\<close>, \<open>AtLeast m r\<close> is \<^verbatim>\<open>r{m,}\<close>.\<close>

definition Rep :: "nat \<Rightarrow> nat \<Rightarrow> rexp \<Rightarrow> rexp" where
  "Rep m n r = Times m r (UpTo (n - m) r)"

definition AtLeast :: "nat \<Rightarrow> rexp \<Rightarrow> rexp" where
  "AtLeast m r = Times m r (Star r)"

fun AltList :: "rexp list \<Rightarrow> rexp" where
  "AltList [] = Zero"
| "AltList [r] = r"
| "AltList (r # s # rs) = Alt r (AltList (s # rs))"

section \<open>Correctness of the matcher\<close>

lemma nullable_iff: "nullable r \<longleftrightarrow> [] \<in> lang r"
  by (induction r) (auto intro: star_lang.intros)

lemma lang_mk_alt [simp]: "lang (mk_alt r s) = lang r \<union> lang s"
  by (induction r s rule: mk_alt.induct) auto

lemma lang_mk_cat [simp]: "lang (mk_cat r s) = lang (Cat r s)"
  by (cases r) auto

lemma star_lang_Cons:
  "w \<in> star_lang A \<Longrightarrow> w = c # cs \<Longrightarrow> \<exists>u v. cs = u @ v \<and> c # u \<in> A \<and> v \<in> star_lang A"
proof (induction rule: star_lang.induct)
  case star_Nil
  then show ?case by simp
next
  case (star_app u v)
  then show ?case by (cases u) auto
qed

lemma star_lang_ConsI: "c # u \<in> A \<Longrightarrow> v \<in> star_lang A \<Longrightarrow> c # u @ v \<in> star_lang A"
  using star_lang.star_app[of "c # u" A v] by simp

lemma star_lang_Cons_iff:
  "c # cs \<in> star_lang A \<longleftrightarrow> (\<exists>u v. cs = u @ v \<and> c # u \<in> A \<and> v \<in> star_lang A)"
  using star_lang_Cons[of "c # cs" A c cs] star_lang_ConsI[of c _ A] by blast

lemma lang_deriv: "lang (deriv c r) = {w. c # w \<in> lang r}"
proof (induction r)
  case (Cat r s)
  show ?case
  proof (cases "nullable r")
    case True
    with Cat show ?thesis
      by (auto simp: nullable_iff Cons_eq_append_conv)
  next
    case False
    with Cat show ?thesis
      by (auto simp: nullable_iff Cons_eq_append_conv)
  qed
next
  case (Star r)
  then show ?case by (simp add: set_eq_iff star_lang_Cons_iff)
qed auto

lemma lang_derivs: "lang (derivs r s) = {w. s @ w \<in> lang r}"
  by (induction s arbitrary: r) (auto simp: lang_deriv)

theorem re_fullmatch_iff: "re_fullmatch r s \<longleftrightarrow> s \<in> lang r"
  by (simp add: re_fullmatch_def nullable_iff lang_derivs)

section \<open>Languages of the constructors\<close>

lemma in_ranges_single [simp]: "in_ranges [(ch c, ch c)] d \<longleftrightarrow> d = c"
  using ch_inject[of d c] by (auto simp: in_ranges_def simp del: ch_inject)

lemma lang_Lit [simp]: "lang (Lit c) = {[c]}"
  by (auto simp: Lit_def)

lemma lang_Word [simp]: "lang (Word w) = {w}"
  by (induction w rule: Word.induct) auto

lemma lang_Opt [simp]: "lang (Opt r) = insert [] (lang r)"
  by (auto simp: Opt_def)

lemma ch_less: "ch c < 256"
  by (simp add: ch_def)

lemma in_ranges_all: "in_ranges [(0, 255)] c"
  using ch_less[of c] by (simp add: in_ranges_def)

lemma Cat_Cls_iff: "w \<in> lang (Cat (Cls rs) s) \<longleftrightarrow> (\<exists>c v. w = c # v \<and> in_ranges rs c \<and> v \<in> lang s)"
proof
  assume "\<exists>c v. w = c # v \<and> in_ranges rs c \<and> v \<in> lang s"
  then obtain c v where w: "w = [c] @ v" and "in_ranges rs c" and v: "v \<in> lang s" by auto
  then have "[c] \<in> lang (Cls rs)" by simp
  with w v show "w \<in> lang (Cat (Cls rs) s)" unfolding lang.simps(5) by blast
qed auto

lemma Cat_Cls_Cons: "c # v \<in> lang (Cat (Cls rs) s) \<longleftrightarrow> in_ranges rs c \<and> v \<in> lang s"
  by (simp add: Cat_Cls_iff del: lang.simps)

lemma Cat_Cls_Nil: "[] \<notin> lang (Cat (Cls rs) s)"
  by (simp add: Cat_Cls_iff del: lang.simps)

lemma star_class: "w \<in> star_lang {[c] | c. P c} \<longleftrightarrow> (\<forall>c\<in>set w. P c)"
proof
  assume "w \<in> star_lang {[c] | c. P c}"
  then show "\<forall>c\<in>set w. P c" by induction auto
next
  assume "\<forall>c\<in>set w. P c"
  then show "w \<in> star_lang {[c] | c. P c}"
  proof (induction w)
    case Nil
    show ?case by (rule star_lang.star_Nil)
  next
    case (Cons c w)
    then show ?case
      using star_lang.star_app[of "[c]" "{[c] | c. P c}" w] by simp
  qed
qed

lemma lang_Star_Cls [simp]: "w \<in> lang (Star (Cls rs)) \<longleftrightarrow> (\<forall>c\<in>set w. in_ranges rs c)"
  by (simp add: star_class)

lemma lang_Star_Any [simp]: "w \<in> lang (Star AnyChar)"
  unfolding AnyChar_def lang_Star_Cls by (simp add: in_ranges_all)

lemma lang_Plus_Cls:
  "w \<in> lang (Plus (Cls rs)) \<longleftrightarrow> w \<noteq> [] \<and> (\<forall>c\<in>set w. in_ranges rs c)"
  by (cases w) (simp_all add: Plus_def Cat_Cls_Cons Cat_Cls_Nil star_class del: lang.simps(5))

lemma lang_UpTo_Cls:
  "w \<in> lang (UpTo n (Cls rs)) \<longleftrightarrow> length w \<le> n \<and> (\<forall>c\<in>set w. in_ranges rs c)"
proof (induction n arbitrary: w)
  case 0
  then show ?case by auto
next
  case (Suc n)
  then show ?case
    by (cases w) (simp_all add: Cat_Cls_Cons Cat_Cls_Nil conj_ac del: lang.simps(5))
qed

lemma lang_Times_Cls:
  "w \<in> lang (Times m (Cls rs) s) \<longleftrightarrow>
   m \<le> length w \<and> (\<forall>c\<in>set (take m w). in_ranges rs c) \<and> drop m w \<in> lang s"
proof (induction m arbitrary: w)
  case 0
  then show ?case by simp
next
  case (Suc m)
  then show ?case
    by (cases w) (auto simp: Cat_Cls_Cons Cat_Cls_Nil simp del: lang.simps(5))
qed

lemma lang_Rep_Cls:
  assumes "m \<le> n"
  shows "w \<in> lang (Rep m n (Cls rs)) \<longleftrightarrow>
         m \<le> length w \<and> length w \<le> n \<and> (\<forall>c\<in>set w. in_ranges rs c)"
proof -
  have "set w = set (take m w) \<union> set (drop m w)"
    by (metis append_take_drop_id set_append)
  with assms show ?thesis
    by (auto simp: Rep_def lang_Times_Cls lang_UpTo_Cls)
qed

lemma lang_AtLeast_Cls:
  "w \<in> lang (AtLeast m (Cls rs)) \<longleftrightarrow> m \<le> length w \<and> (\<forall>c\<in>set w. in_ranges rs c)"
proof -
  have "set w = set (take m w) \<union> set (drop m w)"
    by (metis append_take_drop_id set_append)
  then show ?thesis
    by (auto simp: AtLeast_def lang_Times_Cls star_class)
qed

lemma lang_AltList: "lang (AltList rs) = (\<Union>r\<in>set rs. lang r)"
  by (induction rs rule: AltList.induct) auto

lemma re_match_iff: "re_match r s \<longleftrightarrow> (\<exists>u v. s = u @ v \<and> u \<in> lang r)"
  by (auto simp: re_match_def re_fullmatch_iff simp del: lang.simps(6))

lemma re_search_iff: "re_search r s \<longleftrightarrow> (\<exists>u v w. s = u @ v @ w \<and> v \<in> lang r)"
  by (auto simp: re_search_def re_fullmatch_iff simp del: lang.simps(6))

end
