(* ===== verification/SemVer.thy ===== *)
theory SemVer
  imports Py_Regex "HOL-Library.Char_ord" "HOL-Library.List_Lexorder" "HOL-Library.Product_Lexorder"
begin

text \<open>
  Semantic versions: \<^verbatim>\<open>apps/hosting/semver.py\<close>. The dataclass is a datatype whose
  order is the field order of \<^verbatim>\<open>@dataclass(order=True)\<close>; \<open>parse\<close> checks the
  pattern of the source and reads its groups. Lemmas: the order is total, the
  canonical text of a version parses back to it, \<open>satisfies\<close> is membership of an
  interval, and a pre-release compares above its release.
\<close>

datatype semver = SemVer (major: nat) (minor: nat) (patch: nat) (prerelease: string)

definition semver_key :: "semver \<Rightarrow> nat \<times> nat \<times> nat \<times> string" where
  "semver_key v = (major v, minor v, patch v, prerelease v)"

lemma semver_key_inject: "semver_key v = semver_key w \<longleftrightarrow> v = w"
  by (cases v; cases w) (simp add: semver_key_def)

instantiation semver :: linorder
begin

definition less_eq_semver :: "semver \<Rightarrow> semver \<Rightarrow> bool" where
  "less_eq_semver v w = (semver_key v \<le> semver_key w)"

definition less_semver :: "semver \<Rightarrow> semver \<Rightarrow> bool" where
  "less_semver v w = (semver_key v < semver_key w)"

instance
proof
  fix x y z :: semver
  show "x < y \<longleftrightarrow> x \<le> y \<and> \<not> y \<le> x"
    by (simp add: less_eq_semver_def less_semver_def less_le_not_le)
  show "x \<le> x" by (simp add: less_eq_semver_def)
  show "x \<le> y \<Longrightarrow> y \<le> z \<Longrightarrow> x \<le> z"
    unfolding less_eq_semver_def by (rule order_trans)
  show "x \<le> y \<Longrightarrow> y \<le> x \<Longrightarrow> x = y"
    unfolding less_eq_semver_def using semver_key_inject[of x y] by (metis order_antisym)
  show "x \<le> y \<or> y \<le> x"
    unfolding less_eq_semver_def by (rule linear)
qed

end

section \<open>Parsing\<close>

text \<open>\<^verbatim>\<open>^v?(\d+)\.(\d+)\.(\d+)(?:-([0-9A-Za-z.-]+))?$\<close>\<close>

definition digit_cls :: rexp where
  "digit_cls = Cls [(48, 57)]"

definition prerelease_cls :: rexp where
  "prerelease_cls = Cls [(48, 57), (65, 90), (97, 122), (46, 46), (45, 45)]"

definition version_body_re :: rexp where
  "version_body_re =
     Cat (Plus digit_cls) (Cat (Lit CHR ''.'')
       (Cat (Plus digit_cls) (Cat (Lit CHR ''.'')
         (Cat (Plus digit_cls) (Opt (Cat (Lit CHR ''-'') (Plus prerelease_cls)))))))"

definition version_re :: rexp where
  "version_re = Cat (Opt (Lit CHR ''v'')) version_body_re"

text \<open>The named groups of a full match: digits are greedy and end at a separator.\<close>

definition after_v :: "string \<Rightarrow> string" where
  "after_v raw = (if startswith raw ''v'' then tl raw else raw)"

definition after_number :: "string \<Rightarrow> string" where
  "after_number s = tl (dropWhile is_digit s)"

definition number_group :: "string \<Rightarrow> nat" where
  "number_group s = digits_val (takeWhile is_digit s)"

definition version_groups :: "string \<Rightarrow> semver" where
  "version_groups raw =
     (let s1 = after_v raw; s2 = after_number s1; s3 = after_number s2
      in SemVer (number_group s1) (number_group s2) (number_group s3) (after_number s3))"

definition parse :: "string \<Rightarrow> exn + semver" where
  "parse value =
     (let raw = strip value
      in if raw = [] then Inl Value_Error
         else if \<not> re_fullmatch version_re raw then Inl Value_Error
         else Inr (version_groups raw))"

text \<open>
  \<^verbatim>\<open>maximum: str | None\<close>: the test \<^verbatim>\<open>not maximum\<close> takes None and the empty string alike.
\<close>

definition satisfies :: "semver \<Rightarrow> string \<Rightarrow> string option \<Rightarrow> exn + bool" where
  "satisfies self minimum maximum =
     bind_res (parse minimum) (\<lambda>lower.
       if self < lower then Inr False
       else case maximum of
         None \<Rightarrow> Inr True
       | Some m \<Rightarrow> if m = [] then Inr True
                  else bind_res (parse m) (\<lambda>upper. Inr (self \<le> upper)))"

definition compare_versions :: "string \<Rightarrow> string \<Rightarrow> exn + int" where
  "compare_versions a b =
     bind_res (parse a) (\<lambda>va. bind_res (parse b) (\<lambda>vb.
       Inr (if va < vb then -1 else if va > vb then 1 else 0)))"

section \<open>The canonical text\<close>

definition semver_str :: "semver \<Rightarrow> string" where
  "semver_str v = nat_digits (major v) @ ''.'' @ nat_digits (minor v) @ ''.'' @ nat_digits (patch v)
     @ (if prerelease v = [] then [] else CHR ''-'' # prerelease v)"

definition prerelease_char :: "char \<Rightarrow> bool" where
  "prerelease_char c \<longleftrightarrow> in_ranges [(48, 57), (65, 90), (97, 122), (46, 46), (45, 45)] c"

lemma digit_in_ranges: "in_ranges [(48, 57)] c \<longleftrightarrow> is_digit c"
  by (simp add: in_ranges_def is_digit_def)

lemma nat_digits_Plus: "nat_digits n \<in> lang (Plus digit_cls)"
  by (auto simp: digit_cls_def lang_Plus_Cls digit_in_ranges nat_digits_ne nat_digits_digit)

lemma dot_not_digit [simp]: "\<not> is_digit CHR ''.''"
  by (simp add: char_class_defs)

lemma dash_not_digit [simp]: "\<not> is_digit CHR ''-''"
  by (simp add: char_class_defs)

lemma v_not_digit [simp]: "\<not> is_digit CHR ''v''"
  by (simp add: char_class_defs)

lemma number_group_digits:
  "s = [] \<or> \<not> is_digit (hd s) \<Longrightarrow> number_group (nat_digits n @ s) = n"
proof -
  assume s: "s = [] \<or> \<not> is_digit (hd s)"
  have "takeWhile is_digit (nat_digits n @ s) = nat_digits n @ takeWhile is_digit s"
    by (rule takeWhile_append2) (rule nat_digits_digit)
  also have "takeWhile is_digit s = []" using s by (cases s) auto
  finally show ?thesis by (simp add: number_group_def)
qed

lemma after_number_digits:
  "s = [] \<or> \<not> is_digit (hd s) \<Longrightarrow> after_number (nat_digits n @ s) = tl s"
proof -
  assume s: "s = [] \<or> \<not> is_digit (hd s)"
  have "dropWhile is_digit (nat_digits n @ s) = dropWhile is_digit s"
    by (rule dropWhile_append2) (rule nat_digits_digit)
  also have "\<dots> = s" using s by (cases s) auto
  finally show ?thesis by (simp add: after_number_def)
qed

lemma nat_digits_hd: "is_digit (hd (nat_digits n))"
  by (rule nat_digits_digit) (rule hd_in_set, rule nat_digits_ne)

lemma digit_not_space: "is_digit c \<Longrightarrow> \<not> is_space c"
  by (simp add: is_digit_def is_space_def)

lemma prerelease_not_space: "prerelease_char c \<Longrightarrow> \<not> is_space c"
  by (auto simp: prerelease_char_def in_ranges_def is_space_def)

lemma lang_CatI: "u \<in> lang r \<Longrightarrow> w \<in> lang s \<Longrightarrow> u @ w \<in> lang (Cat r s)"
  by auto

lemma lang_Lit_CatI: "w \<in> lang s \<Longrightarrow> c # w \<in> lang (Cat (Lit c) s)"
  using lang_CatI[of "[c]" "Lit c" w s] by simp

lemma semver_str_match:
  assumes "\<forall>c\<in>set (prerelease v). prerelease_char c"
  shows "semver_str v \<in> lang version_body_re"
proof -
  let ?p = "if prerelease v = [] then [] else CHR ''-'' # prerelease v"
  have "prerelease v \<noteq> [] \<Longrightarrow> prerelease v \<in> lang (Plus prerelease_cls)"
    using assms by (simp add: prerelease_cls_def lang_Plus_Cls prerelease_char_def)
  then have tail: "?p \<in> lang (Opt (Cat (Lit CHR ''-'') (Plus prerelease_cls)))"
    using lang_Lit_CatI by simp
  have "nat_digits (major v) @ CHR ''.'' # nat_digits (minor v) @ CHR ''.''
      # nat_digits (patch v) @ ?p \<in> lang version_body_re"
    unfolding version_body_re_def
    apply (rule lang_CatI, rule nat_digits_Plus, rule lang_Lit_CatI)
    apply (rule lang_CatI, rule nat_digits_Plus, rule lang_Lit_CatI)
    apply (rule lang_CatI, rule nat_digits_Plus, rule tail)
    done
  then show ?thesis by (simp add: semver_str_def)
qed

lemma semver_str_no_space:
  assumes "\<forall>c\<in>set (prerelease v). prerelease_char c" "c \<in> set (semver_str v)"
  shows "\<not> is_space c"
proof -
  have "is_digit c \<or> c = CHR ''.'' \<or> c = CHR ''-'' \<or> prerelease_char c"
    using assms by (auto simp: semver_str_def dest: nat_digits_digit split: if_splits)
  moreover have "\<not> is_space CHR ''.''" "\<not> is_space CHR ''-''"
    by (simp_all add: char_class_defs)
  ultimately show ?thesis by (auto dest: digit_not_space prerelease_not_space)
qed

lemma version_groups_str: "version_groups (semver_str v) = v"
proof -
  let ?p = "if prerelease v = [] then [] else CHR ''-'' # prerelease v"
  have p: "?p = [] \<or> \<not> is_digit (hd ?p)" by simp
  have nv: "\<not> startswith (semver_str v) ''v''"
  proof
    assume "startswith (semver_str v) ''v''"
    then have "hd (semver_str v) = CHR ''v''" by (auto simp: startswith_iff)
    moreover have "hd (semver_str v) = hd (nat_digits (major v))"
      by (simp add: semver_str_def nat_digits_ne)
    ultimately show False using nat_digits_hd[of "major v"] v_not_digit by metis
  qed
  have s1: "after_v (semver_str v) = nat_digits (major v) @ CHR ''.'' # nat_digits (minor v)
      @ CHR ''.'' # nat_digits (patch v) @ ?p"
    using nv by (simp add: after_v_def semver_str_def)
  show ?thesis
    unfolding version_groups_def Let_def s1
    by (cases v) (simp add: number_group_digits after_number_digits)
qed

lemma parse_canonical:
  assumes "\<forall>c\<in>set (prerelease v). prerelease_char c"
  shows "parse (semver_str v) = Inr v"
proof -
  have "strip (semver_str v) = semver_str v"
    by (rule strip_no_space) (use assms semver_str_no_space in blast)
  moreover have "semver_str v \<noteq> []" by (simp add: semver_str_def nat_digits_ne)
  moreover have "semver_str v \<in> lang version_re"
    unfolding version_re_def
    using lang_CatI[of "[]" "Opt (Lit CHR ''v'')", OF _ semver_str_match[OF assms]] by simp
  ultimately show ?thesis by (simp add: parse_def re_fullmatch_iff version_groups_str)
qed

lemma v_semver_str_match:
  assumes "\<forall>c\<in>set (prerelease v). prerelease_char c"
  shows "CHR ''v'' # semver_str v \<in> lang version_re"
proof -
  have "semver_str v \<in> lang version_body_re" by (rule semver_str_match[OF assms])
  then show ?thesis
    unfolding version_re_def using lang_CatI[of "[CHR ''v'']" "Opt (Lit CHR ''v'')"] by simp
qed

lemma parse_v_canonical:
  assumes "\<forall>c\<in>set (prerelease v). prerelease_char c"
  shows "parse (CHR ''v'' # semver_str v) = Inr v"
proof -
  let ?s = "CHR ''v'' # semver_str v"
  have "\<not> is_space CHR ''v''" by (simp add: char_class_defs)
  then have "strip ?s = ?s"
    by (intro strip_no_space) (use assms semver_str_no_space in auto)
  moreover have "version_groups ?s = v"
  proof -
    have "after_v ?s = semver_str v" by (simp add: after_v_def startswith_def)
    moreover have "after_v (semver_str v) = semver_str v"
    proof -
      have "hd (semver_str v) = hd (nat_digits (major v))"
        by (simp add: semver_str_def nat_digits_ne)
      then have "hd (semver_str v) \<noteq> CHR ''v''" using nat_digits_hd[of "major v"] v_not_digit by metis
      then show ?thesis by (cases "semver_str v") (auto simp: after_v_def startswith_def)
    qed
    ultimately show ?thesis using version_groups_str[of v] by (simp add: version_groups_def)
  qed
  ultimately show ?thesis
    using v_semver_str_match[OF assms] by (simp add: parse_def re_fullmatch_iff)
qed

lemma parse_surrounded:
  assumes "list_all is_space w1" "list_all is_space w2" "strip s = s"
  shows "parse (w1 @ s @ w2) = parse s"
  using strip_surrounded[OF assms(1,2)] assms(3) by (simp add: parse_def)

lemma semver_str_stripped:
  assumes "\<forall>c\<in>set (prerelease v). prerelease_char c" "pre \<in> {[], ''v''}"
  shows "strip (pre @ semver_str v) = pre @ semver_str v"
proof -
  have "\<not> is_space CHR ''v''" by (simp add: char_class_defs)
  then show ?thesis
    by (intro strip_no_space) (use assms semver_str_no_space in auto)
qed

text \<open>Every version whose pre-release uses the characters of the pattern is read back from
  its canonical text, with or without a leading v and with any white space around it.\<close>

theorem parse_semver_str:
  assumes "\<forall>c\<in>set (prerelease v). prerelease_char c"
    and "list_all is_space w1" "list_all is_space w2" "pre \<in> {[], ''v''}"
  shows "parse (w1 @ (pre @ semver_str v) @ w2) = Inr v"
  using parse_surrounded[OF assms(2,3) semver_str_stripped[OF assms(1,4)]] assms(4)
    parse_canonical[OF assms(1)] parse_v_canonical[OF assms(1)] by auto

theorem parse_semver_str_witness:
  "parse ('' '' @ (''v'' @ semver_str (SemVer 1 24 3 ''rc.1'')) @ '' '') = Inr (SemVer 1 24 3 ''rc.1'')"
  by (rule parse_semver_str) (simp_all add: prerelease_char_def in_ranges_def ch_def is_space_def)

text \<open>The order of the dataclass puts a pre-release above its release (semver orders it below):
  for every version number and every pre-release text, \<open>compare_versions\<close> answers 1, so a site
  built with a release candidate does not satisfy a maximum that names the release.\<close>

theorem prerelease_above_release:
  assumes "p \<noteq> []" and "\<forall>c\<in>set p. prerelease_char c"
  shows "compare_versions (semver_str (SemVer a b c p)) (semver_str (SemVer a b c [])) = Inr 1
    \<and> satisfies (SemVer a b c p) (semver_str (SemVer a b c [])) (Some (semver_str (SemVer a b c []))) = Inr False"
proof -
  let ?v = "SemVer a b c p" and ?w = "SemVer a b c []"
  have pv: "parse (semver_str ?v) = Inr ?v" and pw: "parse (semver_str ?w) = Inr ?w"
    by (rule parse_canonical, use assms in simp)+
  have lt: "?w < ?v"
    using assms(1) by (cases p) (auto simp: less_semver_def semver_key_def)
  then have "\<not> ?v < ?w" "\<not> ?v \<le> ?w" by auto
  moreover have "semver_str ?w \<noteq> []" by (simp add: semver_str_def nat_digits_ne)
  ultimately show ?thesis
    using lt by (simp add: compare_versions_def satisfies_def pv pw)
qed

theorem prerelease_above_release_witness:
  "compare_versions ''1.0.0-rc.1'' ''1.0.0'' = Inr 1"
proof -
  have "semver_str (SemVer 1 0 0 ''rc.1'') = ''1.0.0-rc.1''" "semver_str (SemVer 1 0 0 []) = ''1.0.0''"
    by code_simp+
  then show ?thesis
    using prerelease_above_release[of "''rc.1''" 1 0 0]
    by (simp add: prerelease_char_def in_ranges_def ch_def)
qed

end
