(* ===== verification/Slug.thy ===== *)
theory Slug
  imports Py_Regex
begin

text \<open>
  App names and public slugs: \<^verbatim>\<open>apps/hosting/slug.py\<close>. \<open>slug_ok\<close> is the contract of
  both validators; a generated slug always satisfies it.
\<close>

text \<open>\<^verbatim>\<open>^[a-z][a-z0-9-]{2,62}$\<close>\<close>

definition SLUG_PATTERN :: rexp where
  "SLUG_PATTERN = Cat (Cls [(97, 122)]) (Rep 2 62 (Cls [(97, 122), (48, 57), (45, 45)]))"

definition APP_NAME_PATTERN :: rexp where
  "APP_NAME_PATTERN = Cat (Cls [(97, 122)]) (Rep 2 62 (Cls [(97, 122), (48, 57), (45, 45)]))"

definition RESERVED_SLUGS :: "string list" where
  "RESERVED_SLUGS = [''admin'', ''api'', ''apps'', ''health'', ''hosting'', ''stats'', ''access'',
     ''deployments'', ''preview'']"

definition ascii_lowercase :: string where
  "ascii_lowercase = ''abcdefghijklmnopqrstuvwxyz''"

definition PUBLIC_SLUG_ALPHABET :: string where
  "PUBLIC_SLUG_ALPHABET = ''abcdefghijklmnopqrstuvwxyz0123456789''"

definition PUBLIC_SLUG_LENGTH :: nat where
  "PUBLIC_SLUG_LENGTH = 12"

definition validate_app_name :: "string \<Rightarrow> exn + string" where
  "validate_app_name value =
     (let name = lower (strip value)
      in if \<not> re_fullmatch APP_NAME_PATTERN name then Inl Value_Error
         else if name \<in> set RESERVED_SLUGS then Inl Value_Error
         else Inr name)"

definition validate_slug :: "string \<Rightarrow> exn + string" where
  "validate_slug value =
     (let slug = lower (strip value)
      in if \<not> re_fullmatch SLUG_PATTERN slug then Inl Value_Error
         else if slug \<in> set RESERVED_SLUGS then Inl Value_Error
         else Inr slug)"

text \<open>
  \<^verbatim>\<open>secrets.choice(seq)\<close> returns some element of \<open>seq\<close>. The draws are an argument:
  \<open>pick i j\<close> is any number, reduced to an index, for attempt \<open>i\<close> and position \<open>j\<close>,
  so a statement for every \<open>pick\<close> covers every sequence of draws.
\<close>

definition choice :: "string \<Rightarrow> nat \<Rightarrow> char" where
  "choice seq k = seq ! (k mod length seq)"

definition slug_candidate :: "(nat \<Rightarrow> nat \<Rightarrow> nat) \<Rightarrow> nat \<Rightarrow> string" where
  "slug_candidate pick i =
     choice ascii_lowercase (pick i 0) #
     map (\<lambda>j. choice PUBLIC_SLUG_ALPHABET (pick i j)) [1..<PUBLIC_SLUG_LENGTH]"

definition generate_public_slug :: "(string \<Rightarrow> bool) \<Rightarrow> (nat \<Rightarrow> nat \<Rightarrow> nat) \<Rightarrow> exn + string" where
  "generate_public_slug taken pick =
     (case find (\<lambda>candidate. \<not> taken candidate) (map (slug_candidate pick) [0..<32]) of
        Some candidate \<Rightarrow> Inr candidate
      | None \<Rightarrow> Inl Runtime_Error)"

section \<open>The contract of a slug\<close>

definition slug_char :: "char \<Rightarrow> bool" where
  "slug_char c \<longleftrightarrow> is_lower c \<or> is_digit c \<or> c = CHR ''-''"

definition slug_ok :: "string \<Rightarrow> bool" where
  "slug_ok s \<longleftrightarrow> 3 \<le> length s \<and> length s \<le> 63 \<and> is_lower (hd s) \<and> list_all slug_char s
     \<and> s \<notin> set RESERVED_SLUGS"

lemma slug_char_ranges: "in_ranges [(97, 122), (48, 57), (45, 45)] c \<longleftrightarrow> slug_char c"
proof -
  have "c = CHR ''-'' \<longleftrightarrow> ch c = ch CHR ''-''" by simp
  then have "c = CHR ''-'' \<longleftrightarrow> ch c = 45" by (simp add: ch_def)
  then show ?thesis
    by (auto simp: in_ranges_def slug_char_def is_lower_def is_digit_def)
qed

lemma lower_ranges: "in_ranges [(97, 122)] c \<longleftrightarrow> is_lower c"
  by (simp add: in_ranges_def is_lower_def)

lemma is_lower_slug_char: "is_lower c \<Longrightarrow> slug_char c"
  by (simp add: slug_char_def)

lemma SLUG_PATTERN_iff:
  "re_fullmatch SLUG_PATTERN s \<longleftrightarrow>
   3 \<le> length s \<and> length s \<le> 63 \<and> is_lower (hd s) \<and> list_all slug_char s"
proof (cases s)
  case Nil
  then show ?thesis by (simp add: SLUG_PATTERN_def re_fullmatch_iff Cat_Cls_Nil del: lang.simps(5))
next
  case (Cons c v)
  then show ?thesis
    by (auto simp: SLUG_PATTERN_def re_fullmatch_iff Cat_Cls_Cons lang_Rep_Cls slug_char_ranges
        lower_ranges list_all_iff is_lower_slug_char simp del: lang.simps(5))
qed

lemma APP_NAME_PATTERN_eq: "APP_NAME_PATTERN = SLUG_PATTERN"
  by (simp add: APP_NAME_PATTERN_def SLUG_PATTERN_def)

lemma slug_char_not_space: "slug_char c \<Longrightarrow> \<not> is_space c"
  by (auto simp: slug_char_def char_class_defs)

lemma slug_char_not_upper: "slug_char c \<Longrightarrow> \<not> is_upper c"
  by (auto simp: slug_char_def char_class_defs)

lemma slug_normal:
  assumes "list_all slug_char s"
  shows "lower (strip s) = s"
proof -
  have "strip s = s"
    by (rule strip_no_space) (use assms in \<open>auto simp: list_all_iff slug_char_not_space\<close>)
  then show ?thesis
    using assms by (simp add: lower_id list_all_iff slug_char_not_upper)
qed

lemma validate_slug_iff: "validate_slug v = Inr s \<longleftrightarrow> s = lower (strip v) \<and> slug_ok s"
  by (auto simp: validate_slug_def Let_def SLUG_PATTERN_iff slug_ok_def)

lemma validate_app_name_eq: "validate_app_name = validate_slug"
  by (rule ext) (simp add: validate_app_name_def validate_slug_def APP_NAME_PATTERN_eq)

lemma validate_slug_error: "validate_slug v = Inl e \<Longrightarrow> e = Value_Error"
  by (auto simp: validate_slug_def Let_def split: if_splits)

lemma validate_slug_ok: "slug_ok s \<Longrightarrow> validate_slug s = Inr s"
  by (simp add: validate_slug_iff slug_normal slug_ok_def)

section \<open>Generated slugs\<close>

lemma choice_in: "seq \<noteq> [] \<Longrightarrow> choice seq k \<in> set seq"
  by (simp add: choice_def)

lemma lowercase_chars: "c \<in> set ascii_lowercase \<Longrightarrow> is_lower c"
  by (auto simp: ascii_lowercase_def char_class_defs)

lemma alphabet_chars: "c \<in> set PUBLIC_SLUG_ALPHABET \<Longrightarrow> is_lower c \<or> is_digit c"
  by (auto simp: PUBLIC_SLUG_ALPHABET_def char_class_defs)

lemma length_slug_candidate: "length (slug_candidate pick i) = 12"
  by (simp add: slug_candidate_def PUBLIC_SLUG_LENGTH_def)

lemma reserved_length: "s \<in> set RESERVED_SLUGS \<Longrightarrow> length s \<noteq> 12"
  by (auto simp: RESERVED_SLUGS_def)

lemma candidate_chars: "c \<in> set (slug_candidate pick i) \<Longrightarrow> is_lower c \<or> is_digit c"
  using lowercase_chars[OF choice_in, of "pick i 0"] alphabet_chars[OF choice_in]
  by (auto simp: slug_candidate_def ascii_lowercase_def PUBLIC_SLUG_ALPHABET_def)

lemma candidate_hd: "is_lower (hd (slug_candidate pick i))"
  using lowercase_chars[OF choice_in, of "pick i 0"]
  by (simp add: slug_candidate_def ascii_lowercase_def)

lemma slug_candidate_ok: "slug_ok (slug_candidate pick i)"
  using reserved_length[of "slug_candidate pick i"] candidate_chars candidate_hd
  by (auto simp: slug_ok_def length_slug_candidate list_all_iff slug_char_def)

lemma generate_public_slug_Inr:
  "generate_public_slug taken pick = Inr s \<Longrightarrow> \<exists>i<32. s = slug_candidate pick i \<and> \<not> taken s"
  by (auto simp: generate_public_slug_def find_Some_iff split: option.splits)

lemma generate_public_slug_Inl:
  "generate_public_slug taken pick = Inl e \<longleftrightarrow>
   e = Runtime_Error \<and> (\<forall>i<32. taken (slug_candidate pick i))"
proof -
  have "find (\<lambda>c. \<not> taken c) (map (slug_candidate pick) [0..<32]) = None \<longleftrightarrow>
      (\<forall>i<32. taken (slug_candidate pick i))"
    unfolding find_None_iff by (simp del: upt_rec_numeral add: Ball_def)
  then show ?thesis
    by (cases "find (\<lambda>c. \<not> taken c) (map (slug_candidate pick) [0..<32])")
      (auto simp del: upt_rec_numeral simp: generate_public_slug_def)
qed

lemma generated_slug_ok: "generate_public_slug taken pick = Inr s \<Longrightarrow> slug_ok s"
  using generate_public_slug_Inr[of taken pick s] slug_candidate_ok by blast

lemma generated_slug_chars:
  "generate_public_slug taken pick = Inr s \<Longrightarrow> c \<in> set s \<Longrightarrow> is_lower c \<or> is_digit c"
  using generate_public_slug_Inr[of taken pick s] candidate_chars by blast

text \<open>Whatever is drawn, a generated public slug is unused, has 12 characters and passes the
  validation of a redeploy unchanged; generation fails only when all 32 candidates are taken.\<close>

theorem generate_public_slug_correct:
  "case generate_public_slug taken pick of
     Inr s \<Rightarrow> \<not> taken s \<and> length s = 12 \<and> validate_slug s = Inr s
   | Inl e \<Rightarrow> e = Runtime_Error \<and> (\<forall>i<32. taken (slug_candidate pick i))"
proof (cases "generate_public_slug taken pick")
  case (Inl e)
  then show ?thesis using generate_public_slug_Inl[of taken pick e] by simp
next
  case (Inr s)
  then show ?thesis
    using generate_public_slug_Inr[OF Inr] validate_slug_ok[OF generated_slug_ok[OF Inr]]
    by (auto simp: length_slug_candidate)
qed

theorem generate_public_slug_correct_witness:
  "generate_public_slug (\<lambda>s. s = ''aaaaaaaaaaaa'') (\<lambda>i j. i) = Inr ''bbbbbbbbbbbb''
   \<and> validate_slug ''bbbbbbbbbbbb'' = Inr ''bbbbbbbbbbbb''"
proof -
  have g: "generate_public_slug (\<lambda>s. s = ''aaaaaaaaaaaa'') (\<lambda>i j. i) = Inr ''bbbbbbbbbbbb''"
    by code_simp
  show ?thesis
    using generate_public_slug_correct[of "\<lambda>s. s = ''aaaaaaaaaaaa''" "\<lambda>i j. i"] by (simp add: g)
qed

end
