(* ===== verification/Settings.thy ===== *)
theory Settings
  imports Prelude
begin

text \<open>
  The Django settings that the modelled code reads (\<^verbatim>\<open>config/settings.py\<close>), as one
  record passed to the operations. \<open>default_settings\<close> holds the defaults of the
  settings module for a production install on the file system.
\<close>

record settings =
  HOSTING_APP_DOMAIN :: string
  HOSTING_APP_SCHEME :: string
  HOSTING_DEBUG_OPEN :: bool
  HOSTING_PREVIEW_TTL_DAYS :: int
  HOSTING_MAX_APPS_PER_COMPANY :: int
  HOSTING_MAX_DEPLOYMENTS_PER_APP :: int
  HOSTING_MAX_UPLOAD_BYTES :: int
  HOSTING_MAX_EXTRACT_FILES :: int
  HOSTING_MAX_EXTRACT_BYTES :: int
  HOSTING_MAX_EXTRACT_FILE_BYTES :: int
  HOSTING_BACKEND :: string
  HOSTING_KEY_PREFIX :: string
  HOSTING_SERVE_CACHE_TTL_SECONDS :: int
  IDENTITY_SERVICE_URL :: string
  IDENTITY_JWKS_SOURCE :: string
  IDENTITY_JWKS_URL :: string
  ACTIONS_OUTBOX_MAX_ATTEMPTS :: int
  ACTIONS_WEBHOOK_RETRY_LEASE_SECONDS :: int
  EMAIL_SERVICE_API_KEY :: string
  EVENT_LOG_RETENTION_DAYS :: int
  ACTIONS_WEBHOOK_ALLOW_PRIVATE :: bool
  ACTIONS_WEBHOOK_SYNC_DELIVERY :: bool
  EMAIL_SERVICE_URL :: string
  EMAIL_SERVICE_ALLOW_PRIVATE :: bool
  SCHEDULER_ENABLED :: bool
  CELERY_BROKER_URL :: string

definition default_settings :: settings where
  "default_settings =
     \<lparr> HOSTING_APP_DOMAIN = ''shellui.app'', HOSTING_APP_SCHEME = ''https'',
       HOSTING_DEBUG_OPEN = False, HOSTING_PREVIEW_TTL_DAYS = 7,
       HOSTING_MAX_APPS_PER_COMPANY = 5, HOSTING_MAX_DEPLOYMENTS_PER_APP = 20,
       HOSTING_MAX_UPLOAD_BYTES = 104857600, HOSTING_MAX_EXTRACT_FILES = 5000,
       HOSTING_MAX_EXTRACT_BYTES = 524288000, HOSTING_MAX_EXTRACT_FILE_BYTES = 104857600,
       HOSTING_BACKEND = ''filesystem'', HOSTING_KEY_PREFIX = ''hosting'',
       HOSTING_SERVE_CACHE_TTL_SECONDS = 45, IDENTITY_SERVICE_URL = [],
       IDENTITY_JWKS_SOURCE = ''env'', IDENTITY_JWKS_URL = [],
       ACTIONS_OUTBOX_MAX_ATTEMPTS = 8, ACTIONS_WEBHOOK_RETRY_LEASE_SECONDS = 120,
       EMAIL_SERVICE_API_KEY = [], EVENT_LOG_RETENTION_DAYS = 7,
       ACTIONS_WEBHOOK_ALLOW_PRIVATE = False, ACTIONS_WEBHOOK_SYNC_DELIVERY = False,
       EMAIL_SERVICE_URL = ''https://email.shellui.com'', EMAIL_SERVICE_ALLOW_PRIVATE = False, SCHEDULER_ENABLED = True,
       CELERY_BROKER_URL = [] \<rparr>"

end
