(* ===== verification/Hosts.thy ===== *)
theory Hosts
  imports Slug Settings
begin

text \<open>
  Host names and public URLs: \<^verbatim>\<open>apps/hosting/hosts.py\<close> (which slug a request host
  names), \<^verbatim>\<open>apps/hosting/public_urls.py\<close> (the URL of a slug) and
  \<^verbatim>\<open>apps/hosting/identity_redirects.py: app_origin_for_sync\<close> (its origin). The two
  directions are inverse to each other on generated slugs.
\<close>

section \<open>hosts.py\<close>

definition host_RESERVED_HOSTS :: "string list" where
  "host_RESERVED_HOSTS = [''localhost'', ''testserver'']"

definition host_RESERVED_SLUGS :: "string list" where
  "host_RESERVED_SLUGS = [''www'', ''hosting'', ''api'', ''admin'']"

definition normalize_host :: "string \<Rightarrow> string" where
  "normalize_host host =
     lstrip_char CHR ''.'' (rstrip_char CHR ''.'' (lower (strip (before_first CHR '':'' host))))"

text \<open>
  \<^verbatim>\<open>ipaddress.ip_address\<close> on a text without a colon accepts exactly the dotted quads:
  an IPv6 literal has at least two colons, and \<open>normalize_host\<close> cuts at the first one.
\<close>

definition ipv4_octet :: "string \<Rightarrow> bool" where
  "ipv4_octet o8 \<longleftrightarrow> o8 \<noteq> [] \<and> list_all is_digit o8 \<and> length o8 \<le> 3
     \<and> \<not> (o8 \<noteq> ''0'' \<and> hd o8 = CHR ''0'') \<and> digits_val o8 \<le> 255"

definition is_ipv4 :: "string \<Rightarrow> bool" where
  "is_ipv4 s = (let octets = split_on CHR ''.'' s in length octets = 4 \<and> list_all ipv4_octet octets)"

definition slug_from_host :: "settings \<Rightarrow> string \<Rightarrow> string option" where
  "slug_from_host cfg raw_host =
     (let host = normalize_host raw_host in
      if host = [] \<or> host \<in> set host_RESERVED_HOSTS then None
      else let app_domain = normalize_host (HOSTING_APP_DOMAIN cfg) in
      if app_domain \<noteq> [] \<and> (host = app_domain \<or> host = ''www.'' @ app_domain) then None
      else if is_ipv4 host then None
      else let labels = split_on CHR ''.'' host in
      if length labels < 3 then None
      else let slug = strip (hd labels) in
      if slug = [] \<or> slug \<in> set host_RESERVED_SLUGS then None
      else Some slug)"

section \<open>public_urls.py\<close>

definition app_domain :: "settings \<Rightarrow> string" where
  "app_domain cfg = lstrip_char CHR ''.'' (strip (HOSTING_APP_DOMAIN cfg))"

definition app_scheme :: "settings \<Rightarrow> string" where
  "app_scheme cfg =
     (let s = HOSTING_APP_SCHEME cfg; scheme = lower (strip (if s = [] then ''https'' else s))
      in if scheme \<in> set [''http'', ''https''] then scheme else ''https'')"

definition build_app_url :: "settings \<Rightarrow> string \<Rightarrow> exn + string" where
  "build_app_url cfg raw_slug =
     (let slug = strip raw_slug in
      if slug = [] then Inl Value_Error
      else let domain = app_domain cfg in
      if domain = [] then Inl Value_Error
      else Inr (app_scheme cfg @ ''://'' @ slug @ ''.'' @ domain @ ''/''))"

section \<open>Normal forms of host names\<close>

definition host_char :: "char \<Rightarrow> bool" where
  "host_char c \<longleftrightarrow> \<not> is_space c \<and> \<not> is_upper c \<and> c \<noteq> CHR '':''"

text \<open>A domain in normal form: what \<open>normalize_host\<close> leaves unchanged.\<close>

definition domain_ok :: "string \<Rightarrow> bool" where
  "domain_ok d \<longleftrightarrow> d \<noteq> [] \<and> list_all host_char d \<and> hd d \<noteq> CHR ''.'' \<and> last d \<noteq> CHR ''.''"

lemma rstrip_char_id: "s = [] \<or> last s \<noteq> c \<Longrightarrow> rstrip_char c s = s"
  by (cases s rule: rev_cases) (auto simp: rstrip_char_def rstrip_by_def)

lemma lstrip_char_id: "s = [] \<or> hd s \<noteq> c \<Longrightarrow> lstrip_char c s = s"
  by (cases s) (auto simp: lstrip_char_def lstrip_by_def)

lemma before_first_id: "c \<notin> set s \<Longrightarrow> before_first c s = s"
  by (auto simp: before_first_def takeWhile_eq_all_conv)

lemma normalize_host_ok: "domain_ok d \<Longrightarrow> normalize_host d = d"
proof -
  assume d: "domain_ok d"
  then have chars: "\<And>c. c \<in> set d \<Longrightarrow> host_char c"
    by (simp add: domain_ok_def list_all_iff)
  have "before_first CHR '':'' d = d"
    by (rule before_first_id) (use chars in \<open>auto simp: host_char_def\<close>)
  moreover have "strip d = d"
    by (rule strip_no_space) (use chars in \<open>auto simp: host_char_def\<close>)
  moreover have "lower d = d"
    by (rule lower_id) (use chars in \<open>auto simp: host_char_def\<close>)
  ultimately show ?thesis
    using d by (simp add: normalize_host_def domain_ok_def rstrip_char_id lstrip_char_id)
qed

lemma slug_char_host: "slug_char c \<Longrightarrow> host_char c"
  by (auto simp: slug_char_def host_char_def char_class_defs)

lemma slug_ok_no_dot: "slug_ok s \<Longrightarrow> CHR ''.'' \<notin> set s"
  by (auto simp: slug_ok_def list_all_iff slug_char_def char_class_defs)

lemma domain_ok_slug: "slug_ok s \<Longrightarrow> domain_ok d \<Longrightarrow> domain_ok (s @ CHR ''.'' # d)"
proof -
  assume s: "slug_ok s" and d: "domain_ok d"
  then have "s \<noteq> []" by (auto simp: slug_ok_def)
  then have "hd s \<noteq> CHR ''.''"
    using slug_ok_no_dot[OF s] hd_in_set by metis
  moreover have "host_char CHR ''.''" by (simp add: host_char_def char_class_defs)
  moreover from \<open>s \<noteq> []\<close> have "hd (s @ CHR ''.'' # d) = hd s" by (simp add: hd_append)
  ultimately show ?thesis
    using s d by (auto simp: domain_ok_def list_all_iff slug_ok_def slug_char_host simp del: hd_append)
qed

lemma not_ipv4_letter: "is_lower (hd s) \<Longrightarrow> CHR ''.'' \<notin> set s \<Longrightarrow> s \<noteq> [] \<Longrightarrow> \<not> is_ipv4 (s @ CHR ''.'' # d)"
  by (cases s) (auto simp: is_ipv4_def split_on_append ipv4_octet_def Let_def is_lower_def is_digit_def)

lemma length_split_dot: "CHR ''.'' \<in> set d \<Longrightarrow> 2 \<le> length (split_on CHR ''.'' d)"
proof (induction d)
  case (Cons c d)
  then show ?case
    by (cases "split_on CHR ''.'' d") (auto simp: Suc_le_eq)
qed simp

lemma no_dot_reserved: "h \<in> set host_RESERVED_HOSTS \<Longrightarrow> CHR ''.'' \<notin> set h"
  by (auto simp: host_RESERVED_HOSTS_def)

lemma slug_from_host_subdomain:
  assumes s: "slug_ok s" and d: "domain_ok d" and dot: "CHR ''.'' \<in> set d"
    and app: "normalize_host (HOSTING_APP_DOMAIN cfg) = d"
    and res: "s \<notin> set host_RESERVED_SLUGS"
  shows "slug_from_host cfg (s @ CHR ''.'' # d) = Some s"
proof -
  let ?h = "s @ CHR ''.'' # d"
  have n: "normalize_host ?h = ?h" by (rule normalize_host_ok[OF domain_ok_slug[OF s d]])
  have "?h \<notin> set host_RESERVED_HOSTS"
  proof
    assume "?h \<in> set host_RESERVED_HOSTS"
    moreover have "CHR ''.'' \<in> set ?h" by simp
    ultimately show False using no_dot_reserved by blast
  qed
  moreover have "?h \<noteq> d"
  proof
    assume "?h = d"
    then have "length ?h = length d" by (rule arg_cong)
    then show False by simp
  qed
  moreover have "?h \<noteq> ''www.'' @ d"
  proof
    assume "?h = ''www.'' @ d"
    then have "s @ CHR ''.'' # d = ''www'' @ CHR ''.'' # d" by simp
    then have "s = ''www''" by (metis append_same_eq)
    with res show False by (simp add: host_RESERVED_SLUGS_def)
  qed
  moreover have "\<not> is_ipv4 ?h"
    by (rule not_ipv4_letter) (use s slug_ok_no_dot[OF s] in \<open>auto simp: slug_ok_def\<close>)
  moreover have "split_on CHR ''.'' ?h = s # split_on CHR ''.'' d"
    by (rule split_on_append[OF slug_ok_no_dot[OF s]])
  moreover have "strip s = s"
    by (rule strip_no_space) (use s in \<open>auto simp: slug_ok_def list_all_iff slug_char_not_space\<close>)
  ultimately show ?thesis
    using length_split_dot[OF dot] s res
    by (simp add: slug_from_host_def n app Let_def slug_ok_def) (use s in \<open>auto simp: slug_ok_def\<close>)
qed

lemma slug_from_host_sound:
  assumes "slug_from_host cfg host = Some s"
  shows "s \<noteq> [] \<and> s \<notin> set host_RESERVED_SLUGS
     \<and> normalize_host host \<noteq> normalize_host (HOSTING_APP_DOMAIN cfg)
     \<and> \<not> is_ipv4 (normalize_host host) \<and> 3 \<le> length (split_on CHR ''.'' (normalize_host host))"
  using assms by (auto simp: slug_from_host_def Let_def split: if_splits)

section \<open>identity\_redirects.py: the origin of an app\<close>

text \<open>
  \<^verbatim>\<open>urlsplit\<close> on an absolute \<^verbatim>\<open>http(s)\<close> URL: the scheme is the text before the first
  colon, the network location runs from behind \<^verbatim>\<open>://\<close> to the first of \<^verbatim>\<open>/ ? #\<close>. The URL
  comes from \<open>build_app_url\<close>, so it has that form.
\<close>

definition url_scheme :: "string \<Rightarrow> string" where
  "url_scheme url = lower (before_first CHR '':'' url)"

definition url_netloc :: "string \<Rightarrow> string" where
  "url_netloc url =
     takeWhile (\<lambda>c. c \<notin> set ''/?#'') (drop (length (before_first CHR '':'' url) + 3) url)"

definition app_origin_for_sync :: "settings \<Rightarrow> string \<Rightarrow> exn + string" where
  "app_origin_for_sync cfg slug =
     bind_res (build_app_url cfg slug) (\<lambda>url.
       if url_scheme url = [] \<or> url_netloc url = [] then Inl Value_Error
       else Inr (url_scheme url @ ''://'' @ url_netloc url))"

lemma app_scheme_cases: "app_scheme cfg = ''http'' \<or> app_scheme cfg = ''https''"
  by (auto simp: app_scheme_def Let_def)

lemma app_domain_ok: "domain_ok (HOSTING_APP_DOMAIN cfg) \<Longrightarrow> app_domain cfg = HOSTING_APP_DOMAIN cfg"
proof -
  assume d: "domain_ok (HOSTING_APP_DOMAIN cfg)"
  then have "strip (HOSTING_APP_DOMAIN cfg) = HOSTING_APP_DOMAIN cfg"
    by (intro strip_no_space) (auto simp: domain_ok_def list_all_iff host_char_def)
  with d show ?thesis by (simp add: app_domain_def domain_ok_def lstrip_char_id)
qed

lemma slug_ok_strip: "slug_ok s \<Longrightarrow> strip s = s"
  by (rule strip_no_space) (auto simp: slug_ok_def list_all_iff slug_char_not_space)

lemma build_app_url_ok:
  assumes "slug_ok s" "domain_ok (HOSTING_APP_DOMAIN cfg)"
  shows "build_app_url cfg s =
    Inr (app_scheme cfg @ ''://'' @ s @ ''.'' @ HOSTING_APP_DOMAIN cfg @ ''/'')"
  using assms by (auto simp: build_app_url_def Let_def app_domain_ok slug_ok_strip slug_ok_def domain_ok_def)

lemma takeWhile_stop: "(\<And>x. x \<in> set u \<Longrightarrow> p x) \<Longrightarrow> \<not> p c \<Longrightarrow> takeWhile p (u @ c # v) = u"
  by (induction u) auto

lemma url_parts:
  assumes h: "\<And>c. c \<in> set h \<Longrightarrow> c \<notin> set ''/?#''"
  shows "url_scheme (app_scheme cfg @ ''://'' @ h @ ''/'') = app_scheme cfg"
    and "url_netloc (app_scheme cfg @ ''://'' @ h @ ''/'') = h"
proof -
  have b: "before_first CHR '':'' (app_scheme cfg @ ''://'' @ h @ ''/'') = app_scheme cfg"
    using app_scheme_cases[of cfg] by (auto simp: before_first_def)
  show "url_scheme (app_scheme cfg @ ''://'' @ h @ ''/'') = app_scheme cfg"
    unfolding url_scheme_def b
    using app_scheme_cases[of cfg] by (auto simp: lower_def lower_char_def char_class_defs)
  have d: "drop (length (app_scheme cfg) + 3) (app_scheme cfg @ ''://'' @ h @ ''/'') = h @ ''/''"
    using app_scheme_cases[of cfg] by auto
  have t: "takeWhile (\<lambda>c. c \<notin> set ''/?#'') (h @ ''/'') = h"
    by (rule takeWhile_stop) (use h in auto)
  show "url_netloc (app_scheme cfg @ ''://'' @ h @ ''/'') = h"
    unfolding url_netloc_def b d by (rule t)
qed

lemma slug_char_url: "slug_char c \<Longrightarrow> c \<notin> set ''/?#''"
  by (auto simp: slug_char_def char_class_defs)

lemma slug_ok_chars: "slug_ok s \<Longrightarrow> c \<in> set s \<Longrightarrow> slug_char c"
  by (simp add: slug_ok_def list_all_iff)

lemma slug_dot_url: "c \<in> set ''.'' \<Longrightarrow> c \<notin> set ''/?#''"
  by auto

lemma app_origin_ok:
  assumes s: "slug_ok s" and d: "domain_ok (HOSTING_APP_DOMAIN cfg)"
    and c: "\<And>c. c \<in> set (HOSTING_APP_DOMAIN cfg) \<Longrightarrow> c \<notin> set ''/?#''"
  shows "app_origin_for_sync cfg s = Inr (app_scheme cfg @ ''://'' @ s @ ''.'' @ HOSTING_APP_DOMAIN cfg)"
proof -
  let ?h = "s @ ''.'' @ HOSTING_APP_DOMAIN cfg"
  have h: "\<And>c. c \<in> set ?h \<Longrightarrow> c \<notin> set ''/?#''"
    using c slug_char_url slug_ok_chars[OF s] slug_dot_url by (metis Un_iff set_append)
  have u: "build_app_url cfg s = Inr (app_scheme cfg @ ''://'' @ ?h @ ''/'')"
    using build_app_url_ok[OF s d] by simp
  have "url_scheme (app_scheme cfg @ ''://'' @ ?h @ ''/'') = app_scheme cfg"
    and "url_netloc (app_scheme cfg @ ''://'' @ ?h @ ''/'') = ?h"
    by (rule url_parts, rule h, assumption)+
  moreover have "app_scheme cfg \<noteq> []" "?h \<noteq> []" using app_scheme_cases[of cfg] by auto
  ultimately show ?thesis unfolding app_origin_for_sync_def u bind_res.simps by metis
qed

lemma generated_not_host_reserved:
  "generate_public_slug taken pick = Inr s \<Longrightarrow> s \<notin> set host_RESERVED_SLUGS"
  using generate_public_slug_Inr[of taken pick s] length_slug_candidate[of pick]
  by (auto simp: host_RESERVED_SLUGS_def dest!: arg_cong[of _ _ length])

text \<open>C38. The address of a generated slug leads back to it: for a dotted application domain in
  normal form the public URL is scheme, slug and domain, the synchronised origin is that URL
  without its slash, and a request for that host (in any case, with any port or outer dots that
  \<open>normalize_host\<close> removes) is resolved to the slug.\<close>

theorem app_url_roundtrip:
  assumes "generate_public_slug taken pick = Inr slug"
    and "domain_ok (HOSTING_APP_DOMAIN cfg)" and "CHR ''.'' \<in> set (HOSTING_APP_DOMAIN cfg)"
    and "\<forall>c\<in>set (HOSTING_APP_DOMAIN cfg). c \<notin> set ''/?#''"
    and "normalize_host host = slug @ ''.'' @ HOSTING_APP_DOMAIN cfg"
  shows "app_origin_for_sync cfg slug = Inr (app_scheme cfg @ ''://'' @ slug @ ''.'' @ HOSTING_APP_DOMAIN cfg)
    \<and> build_app_url cfg slug = map_res (\<lambda>u. u @ ''/'') (app_origin_for_sync cfg slug)
    \<and> slug_from_host cfg host = Some slug"
proof -
  have s: "slug_ok slug" by (rule generated_slug_ok[OF assms(1)])
  have o1: "app_origin_for_sync cfg slug = Inr (app_scheme cfg @ ''://'' @ slug @ ''.'' @ HOSTING_APP_DOMAIN cfg)"
    by (rule app_origin_ok[OF s assms(2)]) (use assms(4) in blast)
  have "slug_from_host cfg host = slug_from_host cfg (slug @ CHR ''.'' # HOSTING_APP_DOMAIN cfg)"
    using assms(5) normalize_host_ok[OF domain_ok_slug[OF s assms(2)]] by (simp add: slug_from_host_def)
  also have "\<dots> = Some slug"
    by (rule slug_from_host_subdomain[OF s assms(2,3) normalize_host_ok[OF assms(2)]
          generated_not_host_reserved[OF assms(1)]])
  finally show ?thesis using o1 build_app_url_ok[OF s assms(2)] by simp
qed

theorem app_url_roundtrip_witness:
  "slug_from_host (default_settings\<lparr>HOSTING_APP_DOMAIN := ''shellui.app''\<rparr>) ''AAAAAAAAAAAA.Shellui.App:443''
     = Some ''aaaaaaaaaaaa''"
proof -
  have "generate_public_slug (\<lambda>s. False) (\<lambda>i j. i) = Inr ''aaaaaaaaaaaa''" by code_simp
  moreover have "domain_ok ''shellui.app''" by code_simp
  moreover have "normalize_host ''AAAAAAAAAAAA.Shellui.App:443'' = ''aaaaaaaaaaaa.shellui.app''" by code_simp
  ultimately show ?thesis
    using app_url_roundtrip[of "\<lambda>s. False" "\<lambda>i j. i" "''aaaaaaaaaaaa''"
      "default_settings\<lparr>HOSTING_APP_DOMAIN := ''shellui.app''\<rparr>" "''AAAAAAAAAAAA.Shellui.App:443''"]
    by simp
qed

end
