(* ===== verification/Json.thy ===== *)
theory Json
  imports Py_Regex
begin

text \<open>
  JSON values and the secret filter \<^verbatim>\<open>apps/actions/secret_redaction.py\<close>. A dict is the
  association list of its items in insertion order. The lemmas show that a filtered
  value holds no secret at any depth, that filtering is idempotent, and that whatever
  is reached by harmless keys is kept.
\<close>

text \<open>\<open>JTime\<close> is the ISO text of an instant, kept as the instant.\<close>

datatype json =
    JNull
  | JBool bool
  | JInt int
  | JStr string
  | JTime time
  | JList "json list"
  | JDict "(string \<times> json) list"

type_synonym dict = "(string \<times> json) list"

text \<open>\<^verbatim>\<open>d.get(k)\<close>, \<^verbatim>\<open>d[k] = v\<close>, \<^verbatim>\<open>bool(v)\<close>.\<close>

definition dict_get :: "dict \<Rightarrow> string \<Rightarrow> json option" where
  "dict_get d k = map_of d k"

fun dict_set :: "dict \<Rightarrow> string \<Rightarrow> json \<Rightarrow> dict" where
  "dict_set [] k v = [(k, v)]"
| "dict_set ((l, w) # d) k v = (if l = k then (l, v) # d else (l, w) # dict_set d k v)"

definition dict_pop :: "dict \<Rightarrow> string \<Rightarrow> dict" where
  "dict_pop d k = filter (\<lambda>(l, _). l \<noteq> k) d"

fun truthy :: "json \<Rightarrow> bool" where
  "truthy JNull = False"
| "truthy (JBool b) = b"
| "truthy (JInt i) = (i \<noteq> 0)"
| "truthy (JStr s) = (s \<noteq> [])"
| "truthy (JTime t) = True"
| "truthy (JList xs) = (xs \<noteq> [])"
| "truthy (JDict d) = (d \<noteq> [])"

lemma dict_get_set [simp]: "dict_get (dict_set d k v) l = (if l = k then Some v else dict_get d l)"
  by (induction d k v rule: dict_set.induct) (auto simp: dict_get_def)

lemma dict_get_pop [simp]: "dict_get (dict_pop d k) l = (if l = k then None else dict_get d l)"
  by (induction d) (auto simp: dict_get_def dict_pop_def)

section \<open>Keys and strings that carry secrets\<close>

definition SENSITIVE_KEYS :: "string list" where
  "SENSITIVE_KEYS =
     [''magic_link'', ''magic_link_url'', ''token'', ''raw_token'', ''access_token'', ''refresh_token'',
      ''id_token'', ''setup_token'', ''sign_in_url'', ''sign_in_link'', ''signin_url'', ''signin_link'',
      ''password'', ''passwd'', ''pwd'', ''secret'', ''client_secret'', ''api_key'', ''apikey'',
      ''authorization'', ''authorization_header'', ''credential'', ''credentials'', ''private_key'',
      ''signing_secret'']"

text \<open>
  The three alternatives of \<^verbatim>\<open>_SIGN_IN_URL\<close>:
  \<^verbatim>\<open>magic[-_]link\<close>,
  \<^verbatim>\<open>/sign-?in(?:[/?#]|$)\<close>,
  \<^verbatim>\<open>[?&#][a-z0-9_.-]*(?:token|secret|password|api[_-]?key)=\<close>.
  The search ignores case, so the pattern is matched against the lower-case text; the
  end of the text (\<^verbatim>\<open>$\<close>, also before a final line feed) makes the second one a pattern of
  the rest of the text.
\<close>

definition Anything :: rexp where
  "Anything = Star AnyChar"

definition magic_link_re :: rexp where
  "magic_link_re = Cat (Word ''magic'') (Cat (Cls [(45, 45), (95, 95)]) (Cat (Word ''link'') Anything))"

definition sign_in_re :: rexp where
  "sign_in_re =
     Cat (Word ''/sign'') (Cat (Opt (Lit CHR ''-'')) (Cat (Word ''in'')
       (AltList [One, Lit (char_of (10 :: nat)), Cat (Cls [(47, 47), (63, 63), (35, 35)]) Anything])))"

definition credential_param_re :: rexp where
  "credential_param_re =
     Cat (Cls [(63, 63), (38, 38), (35, 35)])
       (Cat (Star (Cls [(97, 122), (48, 57), (95, 95), (46, 46), (45, 45)]))
         (Cat (AltList [Word ''token'', Word ''secret'', Word ''password'',
                 Cat (Word ''api'') (Cat (Opt (Cls [(95, 95), (45, 45)])) (Word ''key''))])
           (Cat (Lit CHR ''='') Anything)))"

definition SIGN_IN_URL :: rexp where
  "SIGN_IN_URL = Cat Anything (AltList [magic_link_re, sign_in_re, credential_param_re])"

definition sensitive_key :: "string \<Rightarrow> bool" where
  "sensitive_key key =
     (let name = replace_char CHR ''-'' CHR ''_'' (lower (strip key)) in
      name \<in> set SENSITIVE_KEYS \<or> endswith name ''_token'' \<or> endswith name ''_tokens''
      \<or> endswith name ''_secret'' \<or> endswith name ''_password'' \<or> endswith name ''_api_key'')"

definition sensitive_string :: "string \<Rightarrow> bool" where
  "sensitive_string value =
     (if \<not> contains value ''://'' then False else re_fullmatch SIGN_IN_URL (lower value))"

section \<open>The filter\<close>

text \<open>\<open>None\<close> is the sentinel \<^verbatim>\<open>_DROP\<close>.\<close>

fun without_secrets :: "json \<Rightarrow> json option"
and without_items :: "(string \<times> json) list \<Rightarrow> (string \<times> json) list"
and without_list :: "json list \<Rightarrow> json list" where
  "without_secrets (JDict d) = Some (JDict (without_items d))"
| "without_secrets (JList xs) = Some (JList (without_list xs))"
| "without_secrets (JStr s) = (if sensitive_string s then None else Some (JStr s))"
| "without_secrets JNull = Some JNull"
| "without_secrets (JBool b) = Some (JBool b)"
| "without_secrets (JInt i) = Some (JInt i)"
| "without_secrets (JTime t) = Some (JTime t)"
| "without_items [] = []"
| "without_items ((key, item) # d) =
     (if sensitive_key key then without_items d
      else case without_secrets item of
             None \<Rightarrow> without_items d
           | Some kept \<Rightarrow> (key, kept) # without_items d)"
| "without_list [] = []"
| "without_list (item # xs) =
     (case without_secrets item of None \<Rightarrow> without_list xs | Some kept \<Rightarrow> kept # without_list xs)"

definition redact_secrets :: "json \<Rightarrow> json" where
  "redact_secrets value =
     (case without_secrets value of
        Some cleaned \<Rightarrow> cleaned
      | None \<Rightarrow> (case value of JDict _ \<Rightarrow> JDict [] | JList _ \<Rightarrow> JList [] | _ \<Rightarrow> JStr []))"

text \<open>\<^verbatim>\<open>redact_secrets(d)\<close> on a dict is a dict.\<close>

definition redact_dict :: "dict \<Rightarrow> dict" where
  "redact_dict d = (case redact_secrets (JDict d) of JDict c \<Rightarrow> c | _ \<Rightarrow> [])"

lemma redact_dict_items: "redact_dict d = without_items d"
  by (simp add: redact_dict_def redact_secrets_def)

section \<open>What is left\<close>

fun no_secrets :: "json \<Rightarrow> bool"
and no_secret_items :: "(string \<times> json) list \<Rightarrow> bool"
and no_secret_list :: "json list \<Rightarrow> bool" where
  "no_secrets (JDict d) = no_secret_items d"
| "no_secrets (JList xs) = no_secret_list xs"
| "no_secrets (JStr s) = (\<not> sensitive_string s)"
| "no_secrets JNull = True"
| "no_secrets (JBool b) = True"
| "no_secrets (JInt i) = True"
| "no_secrets (JTime t) = True"
| "no_secret_items [] = True"
| "no_secret_items ((key, item) # d) = (\<not> sensitive_key key \<and> no_secrets item \<and> no_secret_items d)"
| "no_secret_list [] = True"
| "no_secret_list (item # xs) = (no_secrets item \<and> no_secret_list xs)"

lemma without_no_secrets:
  "without_secrets v = Some w \<Longrightarrow> no_secrets w"
  "no_secret_items (without_items d)"
  "no_secret_list (without_list xs)"
  by (induction v and d and xs arbitrary: w and rule: without_secrets_without_items_without_list.induct)
    (auto split: if_splits option.splits)

lemma without_id:
  "no_secrets v \<Longrightarrow> without_secrets v = Some v"
  "no_secret_items d \<Longrightarrow> without_items d = d"
  "no_secret_list xs \<Longrightarrow> without_list xs = xs"
  by (induction v and d and xs rule: without_secrets_without_items_without_list.induct) auto

lemma without_secrets_None: "without_secrets v = None \<longleftrightarrow> (\<exists>s. v = JStr s \<and> sensitive_string s)"
  by (cases v) auto

lemma not_sensitive_Nil: "\<not> sensitive_string []"
  by (simp add: sensitive_string_def)

text \<open>Walking down a value through the keys of dicts.\<close>

fun value_at :: "string list \<Rightarrow> json \<Rightarrow> json option" where
  "value_at [] v = Some v"
| "value_at (k # ks) v =
     (case v of
        JDict d \<Rightarrow> (case dict_get d k of None \<Rightarrow> None | Some w \<Rightarrow> value_at ks w)
      | _ \<Rightarrow> None)"

lemma without_items_get:
  "dict_get d k = Some w \<Longrightarrow> \<not> sensitive_key k \<Longrightarrow> without_secrets w = Some w' \<Longrightarrow>
   dict_get (without_items d) k = Some w'"
  by (induction d) (auto simp: dict_get_def split: if_splits option.splits)

lemma value_at_without:
  "value_at ks v = Some leaf \<Longrightarrow> \<forall>k\<in>set ks. \<not> sensitive_key k \<Longrightarrow> without_secrets leaf = Some leaf' \<Longrightarrow>
   \<exists>v'. without_secrets v = Some v' \<and> value_at ks v' = Some leaf'"
proof (induction ks arbitrary: v)
  case Nil
  then show ?case by simp
next
  case (Cons k ks)
  then obtain d w where d: "v = JDict d" "dict_get d k = Some w" "value_at ks w = Some leaf"
    by (auto split: json.splits option.splits)
  from Cons.IH[OF d(3)] Cons.prems obtain w' where w': "without_secrets w = Some w'"
      "value_at ks w' = Some leaf'" by auto
  have "dict_get (without_items d) k = Some w'"
    by (rule without_items_get[OF d(2) _ w'(1)]) (use Cons.prems in simp)
  then show ?case using d(1) w'(2) by simp
qed

text \<open>C36. The secret filter: no sensitive key and no sign-in or credential URL is left at any depth
  of the result, a value without secrets comes back unchanged (so filtering twice is filtering
  once), and a value that is reached through harmless keys is still there, filtered itself.\<close>

theorem redact_secrets_correct:
  "no_secrets (redact_secrets v) \<and> redact_secrets (redact_secrets v) = redact_secrets v
   \<and> (no_secrets v \<longrightarrow> redact_secrets v = v)
   \<and> (value_at ks v = Some leaf \<and> (\<forall>k\<in>set ks. \<not> sensitive_key k) \<and> without_secrets leaf = Some leaf'
        \<longrightarrow> value_at ks (redact_secrets v) = Some leaf')"
proof -
  have n: "no_secrets (redact_secrets v)"
    using without_no_secrets(1)[of v] not_sensitive_Nil
    by (cases "without_secrets v") (auto simp: redact_secrets_def without_secrets_None)
  have i: "\<And>u. no_secrets u \<Longrightarrow> redact_secrets u = u"
    by (simp add: redact_secrets_def without_id)
  have "value_at ks (redact_secrets v) = Some leaf'"
    if "value_at ks v = Some leaf" "\<forall>k\<in>set ks. \<not> sensitive_key k" "without_secrets leaf = Some leaf'"
    using value_at_without[OF that] by (auto simp: redact_secrets_def)
  with n i show ?thesis by blast
qed

theorem redact_secrets_correct_witness:
  "redact_secrets (JDict [(''user'', JDict [(''name'', JStr ''a''), (''Api-Key'', JStr ''k'')]),
      (''link'', JStr ''https://x.io/cb?Access_Token=1'')])
     = JDict [(''user'', JDict [(''name'', JStr ''a'')])]
   \<and> value_at [''user'', ''name''] (redact_secrets (JDict [(''user'', JDict [(''name'', JStr ''a''),
      (''Api-Key'', JStr ''k'')]), (''link'', JStr ''https://x.io/cb?Access_Token=1'')])) = Some (JStr ''a'')"
proof -
  let ?v = "JDict [(''user'', JDict [(''name'', JStr ''a''), (''Api-Key'', JStr ''k'')]),
      (''link'', JStr ''https://x.io/cb?Access_Token=1'')]"
  have "redact_secrets ?v = JDict [(''user'', JDict [(''name'', JStr ''a'')])]" by code_simp
  moreover have "value_at [''user'', ''name''] ?v = Some (JStr ''a'')" by code_simp
  moreover have "\<forall>k\<in>set [''user'', ''name'']. \<not> sensitive_key k" by code_simp
  moreover have "without_secrets (JStr ''a'') = Some (JStr ''a'')" by code_simp
  ultimately show ?thesis
    using redact_secrets_correct[of ?v "[''user'', ''name'']" "JStr ''a''" "JStr ''a''"] by blast
qed

end
