(* ===== verification/Models.thy ===== *)
theory Models
  imports Json
begin

text \<open>
  The database: \<^verbatim>\<open>apps/hosting/models.py\<close> and \<^verbatim>\<open>apps/actions/models.py\<close>. One record
  per model, one list of rows per table, and the constraints the database enforces
  (primary keys, unique fields, the cascade and set-null rules of foreign keys) as
  the operations that insert and delete rows. A foreign key is the key of the row it
  points to.
\<close>

section \<open>apps/hosting/models.py\<close>

datatype access_status = PENDING | APPROVED | DENIED

datatype deployment_status = DRAFT | UPLOADING | READY | ACTIVE | SUPERSEDED | FAILED

fun access_status_str :: "access_status \<Rightarrow> string" where
  "access_status_str PENDING = ''pending''"
| "access_status_str APPROVED = ''approved''"
| "access_status_str DENIED = ''denied''"

fun deployment_status_str :: "deployment_status \<Rightarrow> string" where
  "deployment_status_str DRAFT = ''draft''"
| "deployment_status_str UPLOADING = ''uploading''"
| "deployment_status_str READY = ''ready''"
| "deployment_status_str ACTIVE = ''active''"
| "deployment_status_str SUPERSEDED = ''superseded''"
| "deployment_status_str FAILED = ''failed''"

text \<open>\<^verbatim>\<open>status in AccessStatus.values\<close>, with the member it names.\<close>

definition access_status_of :: "string \<Rightarrow> access_status option" where
  "access_status_of s = List.find (\<lambda>v. access_status_str v = s) [PENDING, APPROVED, DENIED]"

record access =
  acc_company_id :: company
  acc_status :: access_status
  acc_requested_by_id :: "user option"
  acc_requested_at :: time
  acc_reviewed_by_id :: "user option"
  acc_reviewed_at :: "time option"
  acc_notes :: string

record app =
  app_id :: uuid
  app_name :: string
  app_slug :: string
  app_company_id :: company
  app_display_name :: string
  app_created_by_id :: "user option"
  app_expires_at :: "time option"
  app_current_deployment :: "uuid option"
  app_created_at :: time
  app_updated_at :: time

record deployment =
  dep_id :: uuid
  dep_app :: uuid
  dep_app_version :: string
  dep_shellui_version :: string
  dep_status :: deployment_status
  dep_pinned :: bool
  dep_storage_prefix :: string
  dep_deployed_by_id :: "user option"
  dep_artifact_size :: int
  dep_created_at :: time
  dep_updated_at :: time
  dep_finalized_at :: "time option"

record deploy_token =
  tok_id :: uuid
  tok_company_id :: company
  tok_name :: string
  tok_prefix :: string
  tok_hash :: string
  tok_created_by_id :: "user option"
  tok_created_at :: time
  tok_last_used_at :: "time option"
  tok_expires_at :: "time option"
  tok_revoked_at :: "time option"

section \<open>apps/actions/models.py\<close>

record action_rule =
  rule_id :: nat
  rule_company_id :: company
  rule_name :: string
  rule_description :: string
  rule_event_type :: string
  rule_enabled :: bool
  rule_action_kind :: string
  rule_config :: dict
  rule_created_at :: time
  rule_updated_at :: time

definition ACTION_WEBHOOK :: string where
  "ACTION_WEBHOOK = ''webhook''"

datatype outbox_status = OB_PENDING | OB_DELIVERED | OB_FAILED | OB_DEAD

fun outbox_status_str :: "outbox_status \<Rightarrow> string" where
  "outbox_status_str OB_PENDING = ''pending''"
| "outbox_status_str OB_DELIVERED = ''delivered''"
| "outbox_status_str OB_FAILED = ''failed''"
| "outbox_status_str OB_DEAD = ''dead''"

datatype delivery_kind = KIND_WEBHOOK | KIND_EMAIL

record outbox =
  ob_id :: uuid
  ob_company_id :: company
  ob_action_rule :: "nat option"
  ob_delivery_kind :: delivery_kind
  ob_event_type :: string
  ob_envelope :: dict
  ob_status :: outbox_status
  ob_attempt_count :: nat
  ob_next_attempt_at :: "time option"
  ob_locked_until :: "time option"
  ob_last_error :: string
  ob_created_at :: time
  ob_updated_at :: time
  ob_delivered_at :: "time option"

datatype attempt_status = ATT_SUCCESS | ATT_FAILURE

datatype attempt_trigger = TRIGGER_DISPATCH | TRIGGER_AUTOMATIC_RETRY

record attempt =
  att_outbox :: uuid
  att_status :: attempt_status
  att_http_status :: "int option"
  att_error_message :: string
  att_number :: nat
  att_duration_ms :: "int option"
  att_trigger :: attempt_trigger
  att_scheduled_job_run_id :: "nat option"
  att_created_at :: time

record event_log_row =
  ev_id :: nat
  ev_company_id :: "company option"
  ev_user_id :: "user option"
  ev_event_type :: string
  ev_data :: dict
  ev_created_at :: time

datatype job_trigger = TRIGGER_CELERY | TRIGGER_COMMAND

datatype run_status = RUNNING | SUCCEEDED | RUN_FAILED | SKIPPED_LOCKED

record job_run =
  run_id :: nat
  run_job :: string
  run_trigger :: job_trigger
  run_status :: run_status
  run_started_at :: time
  run_finished_at :: "time option"
  run_duration_ms :: "int option"
  run_counts :: dict
  run_error_key :: string
  run_error_class :: string
  run_error_message :: string
  run_host :: string
  run_event_log_id :: "nat option"

record job_state =
  js_job :: string
  js_created_at :: time
  js_last_started_at :: "time option"
  js_last_success_at :: "time option"
  js_last_failure_at :: "time option"
  js_last_skipped_at :: "time option"
  js_last_duration_ms :: "int option"

record job_counter =
  jc_job :: string
  jc_name :: string
  jc_value :: int

record company_deletion =
  cd_company_id :: company
  cd_requested_at :: time
  cd_completed_at :: "time option"

section \<open>The database\<close>

text \<open>\<open>next_pk\<close> is the sequence of the big-auto-field tables.\<close>

record db =
  accesses :: "access list"
  apps :: "app list"
  deployments :: "deployment list"
  tokens :: "deploy_token list"
  rules :: "action_rule list"
  outbox_rows :: "outbox list"
  attempts :: "attempt list"
  event_log :: "event_log_row list"
  job_runs :: "job_run list"
  job_states :: "job_state list"
  job_counters :: "job_counter list"
  company_deletions :: "company_deletion list"
  next_pk :: nat

definition empty_db :: db where
  "empty_db = \<lparr> accesses = [], apps = [], deployments = [], tokens = [], rules = [], outbox_rows = [],
     attempts = [], event_log = [], job_runs = [], job_states = [], job_counters = [],
     company_deletions = [], next_pk = 1 \<rparr>"

definition get_app :: "uuid \<Rightarrow> db \<Rightarrow> app option" where
  "get_app i d = first_row (\<lambda>a. app_id a = i) (apps d)"

definition get_deployment :: "uuid \<Rightarrow> db \<Rightarrow> deployment option" where
  "get_deployment i d = first_row (\<lambda>r. dep_id r = i) (deployments d)"

definition app_deployments :: "uuid \<Rightarrow> db \<Rightarrow> deployment list" where
  "app_deployments i d = filter (\<lambda>r. dep_app r = i) (deployments d)"

text \<open>\<^verbatim>\<open>App.objects.create\<close>: primary key, unique slug, unique name per company.\<close>

definition insert_app :: "app \<Rightarrow> db \<Rightarrow> exn + db" where
  "insert_app a d =
     (if has_row (\<lambda>b. app_id b = app_id a \<or> app_slug b = app_slug a
            \<or> (app_company_id b = app_company_id a \<and> app_name b = app_name a)) (apps d)
      then Inl Integrity_Error
      else Inr (d\<lparr>apps := apps d @ [a]\<rparr>))"

text \<open>\<^verbatim>\<open>Deployment.objects.create\<close>: primary key and the foreign key to the app.\<close>

definition insert_deployment :: "deployment \<Rightarrow> db \<Rightarrow> exn + db" where
  "insert_deployment r d =
     (if has_row (\<lambda>b. dep_id b = dep_id r) (deployments d)
         \<or> \<not> has_row (\<lambda>b. app_id b = dep_app r) (apps d)
      then Inl Integrity_Error
      else Inr (d\<lparr>deployments := deployments d @ [r]\<rparr>))"

definition save_app :: "app \<Rightarrow> db \<Rightarrow> db" where
  "save_app a d = d\<lparr>apps := update_rows (\<lambda>b. app_id b = app_id a) (\<lambda>_. a) (apps d)\<rparr>"

definition update_app :: "uuid \<Rightarrow> (app \<Rightarrow> app) \<Rightarrow> db \<Rightarrow> db" where
  "update_app i f d = d\<lparr>apps := update_rows (\<lambda>b. app_id b = i) f (apps d)\<rparr>"

definition update_deployment :: "uuid \<Rightarrow> (deployment \<Rightarrow> deployment) \<Rightarrow> db \<Rightarrow> db" where
  "update_deployment i f d = d\<lparr>deployments := update_rows (\<lambda>b. dep_id b = i) f (deployments d)\<rparr>"

text \<open>
  \<^verbatim>\<open>app.delete()\<close> cascades to its deployments; the \<^verbatim>\<open>current_deployment\<close> of another app that
  points to one of them is set to null.
\<close>

definition delete_app_row :: "uuid \<Rightarrow> db \<Rightarrow> db" where
  "delete_app_row i d =
     d\<lparr>apps := map (\<lambda>a. case app_current_deployment a of
                 None \<Rightarrow> a
               | Some c \<Rightarrow> if c \<in> set (map dep_id (app_deployments i d))
                           then a\<lparr>app_current_deployment := None\<rparr> else a)
             (delete_rows (\<lambda>a. app_id a = i) (apps d)),
       deployments := delete_rows (\<lambda>r. dep_app r = i) (deployments d)\<rparr>"

text \<open>
  Deleting rules cascades to their outbox rows and those to their delivery attempts.
\<close>

definition delete_outbox_rows :: "(outbox \<Rightarrow> bool) \<Rightarrow> db \<Rightarrow> db" where
  "delete_outbox_rows p d =
     d\<lparr>outbox_rows := delete_rows p (outbox_rows d),
       attempts := delete_rows (\<lambda>t. has_row (\<lambda>o1. p o1 \<and> ob_id o1 = att_outbox t) (outbox_rows d)) (attempts d)\<rparr>"

definition delete_rules :: "(action_rule \<Rightarrow> bool) \<Rightarrow> db \<Rightarrow> db" where
  "delete_rules p d =
     (delete_outbox_rows
        (\<lambda>o1. case ob_action_rule o1 of None \<Rightarrow> False
              | Some r \<Rightarrow> has_row (\<lambda>a. p a \<and> rule_id a = r) (rules d)) d)
       \<lparr>rules := delete_rows p (rules d)\<rparr>"

section \<open>Laws\<close>

lemma access_status_of_str [simp]: "access_status_of (access_status_str s) = Some s"
  by (cases s) (simp_all add: access_status_of_def)

lemma access_status_of_Some: "access_status_of s = Some v \<longleftrightarrow> s = access_status_str v"
  by (cases v) (auto simp: access_status_of_def split: if_splits)

lemma get_app_Some: "get_app i d = Some a \<Longrightarrow> a \<in> set (apps d) \<and> app_id a = i"
  by (auto simp: get_app_def dest: first_row_Some)

lemma get_deployment_Some: "get_deployment i d = Some r \<Longrightarrow> r \<in> set (deployments d) \<and> dep_id r = i"
  by (auto simp: get_deployment_def dest: first_row_Some)

lemma insert_app_Inr:
  "insert_app a d = Inr d' \<longleftrightarrow> d' = d\<lparr>apps := apps d @ [a]\<rparr>
     \<and> (\<forall>b\<in>set (apps d). app_id b \<noteq> app_id a \<and> app_slug b \<noteq> app_slug a
         \<and> (app_company_id b = app_company_id a \<longrightarrow> app_name b \<noteq> app_name a))"
  by (auto simp: insert_app_def has_row_iff)

lemma insert_deployment_Inr:
  "insert_deployment r d = Inr d' \<longleftrightarrow> d' = d\<lparr>deployments := deployments d @ [r]\<rparr>
     \<and> (\<forall>b\<in>set (deployments d). dep_id b \<noteq> dep_id r) \<and> (\<exists>a\<in>set (apps d). app_id a = dep_app r)"
  by (auto simp: insert_deployment_def has_row_iff)

lemma update_db_frame [simp]:
  "deployments (update_app i f d) = deployments d"
  "apps (update_deployment i g d) = apps d"
  "accesses (update_app i f d) = accesses d"
  "accesses (update_deployment i g d) = accesses d"
  "outbox_rows (update_app i f d) = outbox_rows d"
  "outbox_rows (update_deployment i g d) = outbox_rows d"
  "event_log (update_app i f d) = event_log d"
  "event_log (update_deployment i g d) = event_log d"
  by (simp_all add: update_app_def update_deployment_def)

end
