(* ===== verification/Events.thy ===== *)
theory Events
  imports Json
begin

text \<open>
  The catalog of domain events: \<^verbatim>\<open>apps/actions/registry.py\<close> and the registrations of
  \<^verbatim>\<open>apps/actions/hosting_events.py\<close>. The registry is the dict of the source as an
  association list in insertion order.
\<close>

record event_field =
  fld_name :: string
  fld_description :: string
  fld_example :: json

record event_type =
  evt_id :: string
  evt_label :: string
  evt_description :: string
  evt_payload_fields :: "event_field list"
  evt_emit_by_default :: bool
  evt_webhook :: bool
  evt_staff_only :: bool

type_synonym registry = "(string \<times> event_type) list"

definition register_event :: "registry \<Rightarrow> event_type \<Rightarrow> exn + registry" where
  "register_event reg event =
     (if map_of reg (evt_id event) \<noteq> None then Inl Value_Error
      else if evt_staff_only event \<and> evt_webhook event then Inl Value_Error
      else Inr (reg @ [(evt_id event, event)]))"

definition get_event_type :: "registry \<Rightarrow> string \<Rightarrow> exn + event_type" where
  "get_event_type reg event_id =
     (case map_of reg event_id of Some e \<Rightarrow> Inr e | None \<Rightarrow> Inl Value_Error)"

definition is_registered_event :: "registry \<Rightarrow> string \<Rightarrow> bool" where
  "is_registered_event reg event_id = (map_of reg event_id \<noteq> None)"

definition is_webhook_event :: "registry \<Rightarrow> string \<Rightarrow> bool" where
  "is_webhook_event reg event_id =
     (case map_of reg event_id of None \<Rightarrow> False | Some e \<Rightarrow> evt_webhook e \<and> \<not> evt_staff_only e)"

text \<open>\<^verbatim>\<open>sorted(..., key=lambda e: e.id)\<close>: strings compare by their characters.\<close>

fun str_le :: "string \<Rightarrow> string \<Rightarrow> bool" where
  "str_le [] t = True"
| "str_le (c # s) [] = False"
| "str_le (c # s) (d # t) = (ch c < ch d \<or> (c = d \<and> str_le s t))"

fun insert_event :: "event_type \<Rightarrow> event_type list \<Rightarrow> event_type list" where
  "insert_event e [] = [e]"
| "insert_event e (f # fs) = (if str_le (evt_id e) (evt_id f) then e # f # fs else f # insert_event e fs)"

definition all_event_types :: "registry \<Rightarrow> event_type list" where
  "all_event_types reg = foldr insert_event (map snd reg) []"

definition webhook_event_types :: "registry \<Rightarrow> event_type list" where
  "webhook_event_types reg = filter (\<lambda>e. evt_webhook e \<and> \<not> evt_staff_only e) (all_event_types reg)"

definition company_event_types :: "registry \<Rightarrow> event_type list" where
  "company_event_types reg = filter (\<lambda>e. \<not> evt_staff_only e) (all_event_types reg)"

definition event_field_doc_dict :: "event_field \<Rightarrow> dict" where
  "event_field_doc_dict f =
     [(''name'', JStr (fld_name f)), (''description'', JStr (fld_description f)), (''example'', fld_example f)]"

text \<open>The dash of the suffix is three bytes of UTF-8.\<close>

definition em_dash :: string where
  "em_dash = [char_of (226 :: nat), char_of (128 :: nat), char_of (148 :: nat)]"

definition event_choices :: "registry \<Rightarrow> (string \<times> string) list" where
  "event_choices reg =
     map (\<lambda>e. (evt_id e, evt_label e @ '' ('' @ evt_id e @ '')''
            @ (if evt_emit_by_default e then [] else '' '' @ em_dash @ '' not emitted yet'')))
       (filter (\<lambda>e. \<not> evt_staff_only e) (all_event_types reg))"

section \<open>The hosting events\<close>

definition field_doc :: "string \<Rightarrow> string \<Rightarrow> json \<Rightarrow> event_field" where
  "field_doc n d e = \<lparr> fld_name = n, fld_description = d, fld_example = e \<rparr>"

definition APP_FIELDS :: "event_field list" where
  "APP_FIELDS =
     [field_doc ''app_id'' ''Hosted app UUID'' (JStr ''550e8400-e29b-41d4-a716-446655440000''),
      field_doc ''name'' ''Company-scoped app name (slug)'' (JStr ''my-app''),
      field_doc ''slug'' ''Public hosting slug (subdomain)'' (JStr ''abc12345''),
      field_doc ''display_name'' ''Human-readable label'' (JStr ''My App''),
      field_doc ''company_id'' ''Identity company id'' (JInt 1)]"

definition DEPLOYMENT_FIELDS :: "event_field list" where
  "DEPLOYMENT_FIELDS = APP_FIELDS @
     [field_doc ''deployment_id'' ''Deployment UUID'' (JStr ''660e8400-e29b-41d4-a716-446655440001''),
      field_doc ''app_version'' ''App semver from the artifact'' (JStr ''1.0.0''),
      field_doc ''shellui_version'' ''Shellui semver from the artifact'' (JStr ''0.4.0''),
      field_doc ''status'' ''Deployment status after the event'' (JStr ''active'')]"

definition ellipsis :: string where
  "ellipsis = [char_of (226 :: nat), char_of (128 :: nat), char_of (166 :: nat)]"

definition SCHEDULED_JOB_FIELDS :: "event_field list" where
  "SCHEDULED_JOB_FIELDS =
     [field_doc ''run_id'' ''ScheduledJobRun id'' (JInt 1234),
      field_doc ''job'' ''Job name: retry_webhooks or purge_expired_data'' (JStr ''retry_webhooks''),
      field_doc ''trigger'' ''celery (in-container beat) or command (external scheduler)'' (JStr ''celery''),
      field_doc ''duration_ms'' ''Run duration in milliseconds'' (JInt 412),
      field_doc ''counts'' ''Items processed, per kind''
        (JDict [(''webhook_deliveries_attempted'', JInt 3), (''webhook_deliveries_succeeded'', JInt 3)]),
      field_doc ''host'' ''Host name and process id that ran the job'' (JStr ''hosting-7f9c:41'')]"

definition company_event :: "string \<Rightarrow> string \<Rightarrow> string \<Rightarrow> event_field list \<Rightarrow> event_type" where
  "company_event i l d fs =
     \<lparr> evt_id = i, evt_label = l, evt_description = d, evt_payload_fields = fs,
       evt_emit_by_default = True, evt_webhook = True, evt_staff_only = False \<rparr>"

definition platform_event :: "string \<Rightarrow> string \<Rightarrow> string \<Rightarrow> event_field list \<Rightarrow> event_type" where
  "platform_event i l d fs =
     \<lparr> evt_id = i, evt_label = l, evt_description = d, evt_payload_fields = fs,
       evt_emit_by_default = True, evt_webhook = False, evt_staff_only = True \<rparr>"

definition hosting_event_list :: "event_type list" where
  "hosting_event_list =
    [company_event ''hosting.app.created'' ''Hosted app created''
       ''A new hosted app record was created for the company.'' APP_FIELDS,
     company_event ''hosting.app.deleted'' ''Hosted app deleted''
       ''A hosted app and its deployments were removed.'' APP_FIELDS,
     company_event ''hosting.deployment.created'' ''Deployment created''
       ''A new deployment row was created (draft, ready for artifact upload).''
       (DEPLOYMENT_FIELDS @ [field_doc ''status'' ''Initial status'' (JStr ''draft'')]),
     company_event ''hosting.deployment.succeeded'' ''Deployment succeeded''
       ''Artifact upload and extract finished; deployment is active and serving traffic.''
       (DEPLOYMENT_FIELDS @ [field_doc ''status'' ''Status after finalize'' (JStr ''active'')]),
     company_event ''hosting.deployment.failed'' ''Deployment failed''
       ''Finalize or extract failed; deployment status is failed.''
       (DEPLOYMENT_FIELDS @ [field_doc ''status'' ''Status after failure'' (JStr ''failed''),
          field_doc ''error'' ''Short failure reason when available'' (JStr ''artifact_extract_failed'')]),
     platform_event ''hosting.scheduled_job.succeeded'' ''Scheduled job succeeded''
       ''A scheduled job run finished without error. Platform event, staff only.'' SCHEDULED_JOB_FIELDS,
     platform_event ''hosting.scheduled_job.failed'' ''Scheduled job failed''
       ''A scheduled job run raised an error. Platform event, staff only.''
       (SCHEDULED_JOB_FIELDS @
         [field_doc ''error_key'' (''Stable error key (database_error, redis_error, '' @ ellipsis @ '')'')
            (JStr ''database_error''),
          field_doc ''error_class'' ''Exception class name'' (JStr ''OperationalError'')])]"

fun register_all :: "registry \<Rightarrow> event_type list \<Rightarrow> exn + registry" where
  "register_all reg [] = Inr reg"
| "register_all reg (e # es) = bind_res (register_event reg e) (\<lambda>reg'. register_all reg' es)"

text \<open>The registry once \<^verbatim>\<open>hosting_events\<close> is imported.\<close>

definition REGISTRY :: registry where
  "REGISTRY = (case register_all [] hosting_event_list of Inr reg \<Rightarrow> reg | Inl _ \<Rightarrow> [])"

section \<open>Laws of the registry\<close>

lemma register_event_Inr:
  "register_event reg e = Inr reg' \<Longrightarrow>
   map_of reg (evt_id e) = None \<and> reg' = reg @ [(evt_id e, e)] \<and> \<not> (evt_staff_only e \<and> evt_webhook e)"
  by (auto simp: register_event_def split: if_splits)

lemma map_of_append_key:
  "map_of (r @ [(j, x)]) i = (case map_of r i of Some y \<Rightarrow> Some y | None \<Rightarrow> if i = j then Some x else None)"
  by (induction r) auto

lemma get_register:
  "register_event reg e = Inr reg' \<Longrightarrow>
   get_event_type reg' i = (if i = evt_id e then Inr e else get_event_type reg i)"
  by (drule register_event_Inr) (auto simp: get_event_type_def map_of_append_key split: option.splits)

lemma set_insert_event [simp]: "set (insert_event e es) = insert e (set es)"
  by (induction es) auto

lemma set_foldr_insert: "set (foldr insert_event es []) = set es"
  by (induction es) auto

lemma set_all_event_types: "set (all_event_types reg) = snd ` set reg"
  by (simp add: all_event_types_def set_foldr_insert)

text \<open>Every key of a registry is the id of its event, and no platform event is a webhook event.\<close>

definition registry_ok :: "registry \<Rightarrow> bool" where
  "registry_ok reg \<longleftrightarrow> distinct (map fst reg)
     \<and> (\<forall>(i, e)\<in>set reg. i = evt_id e \<and> \<not> (evt_staff_only e \<and> evt_webhook e))"

lemma map_of_None_fst: "map_of r i = None \<longleftrightarrow> i \<notin> fst ` set r"
  by (induction r) auto

lemma register_event_ok: "registry_ok reg \<Longrightarrow> register_event reg e = Inr reg' \<Longrightarrow> registry_ok reg'"
  by (drule register_event_Inr) (auto simp: registry_ok_def map_of_None_fst)

lemma register_all_ok: "registry_ok reg \<Longrightarrow> register_all reg es = Inr reg' \<Longrightarrow> registry_ok reg'"
  by (induction es arbitrary: reg) (auto simp: res_simps intro: register_event_ok)

lemma REGISTRY_eq: "REGISTRY = map (\<lambda>e. (evt_id e, e)) hosting_event_list"
  by code_simp

lemma REGISTRY_ok: "registry_ok REGISTRY"
proof -
  have "register_all [] hosting_event_list = Inr REGISTRY"
    unfolding REGISTRY_eq by code_simp
  then show ?thesis by (rule register_all_ok[rotated]) (simp add: registry_ok_def)
qed

lemma get_event_type_id: "registry_ok reg \<Longrightarrow> get_event_type reg i = Inr e \<Longrightarrow> evt_id e = i"
  by (auto simp: get_event_type_def registry_ok_def split: option.splits dest!: map_of_SomeD)

lemma webhook_event_iff:
  assumes "registry_ok reg"
  shows "is_webhook_event reg i \<longleftrightarrow> i \<in> evt_id ` set (webhook_event_types reg)"
proof -
  have mem: "map_of reg i = Some e \<longleftrightarrow> e \<in> snd ` set reg \<and> evt_id e = i" for e
  proof -
    have "map_of reg i = Some e \<longleftrightarrow> (i, e) \<in> set reg"
      using assms by (auto simp: registry_ok_def)
    also have "\<dots> \<longleftrightarrow> e \<in> snd ` set reg \<and> evt_id e = i"
      using assms by (force simp: registry_ok_def)
    finally show ?thesis .
  qed
  have w: "i \<in> evt_id ` set (webhook_event_types reg) \<longleftrightarrow>
      (\<exists>e. map_of reg i = Some e \<and> evt_webhook e \<and> \<not> evt_staff_only e)"
    unfolding mem webhook_event_types_def set_filter set_all_event_types by blast
  show ?thesis
    unfolding w is_webhook_event_def by (cases "map_of reg i") simp_all
qed

end
