(* ===== verification/Emit.thy ===== *)
theory Emit
  imports Models Events Settings
begin

text \<open>
  Emission of domain events: \<^verbatim>\<open>apps/actions/hosting_payloads.py\<close>, \<^verbatim>\<open>event_log.py\<close>,
  \<^verbatim>\<open>envelope.py\<close>, the enqueueing half of \<^verbatim>\<open>email_service.py\<close> and \<^verbatim>\<open>emit.py\<close>. An
  emission is a function on the database and the list of outbox rows whose delivery is
  scheduled for after the commit. The lemmas say which rows an emission adds and that it
  touches nothing else.
\<close>

section \<open>hosting\_payloads.py\<close>

definition app_event_payload :: "app \<Rightarrow> dict" where
  "app_event_payload a =
     [(''app_id'', JStr (app_id a)), (''name'', JStr (app_name a)), (''slug'', JStr (app_slug a)),
      (''display_name'', JStr (app_display_name a)), (''company_id'', JInt (app_company_id a))]"

definition deployment_event_payload ::
    "app \<Rightarrow> deployment \<Rightarrow> deployment_status option \<Rightarrow> string option \<Rightarrow> dict" where
  "deployment_event_payload a r status error =
     (let payload = app_event_payload a @
        [(''deployment_id'', JStr (dep_id r)), (''app_version'', JStr (dep_app_version r)),
         (''shellui_version'', JStr (dep_shellui_version r)),
         (''status'', JStr (deployment_status_str
            (case status of Some s \<Rightarrow> s | None \<Rightarrow> dep_status r)))]
      in case error of
           None \<Rightarrow> payload
         | Some e \<Rightarrow> if e = [] then payload else payload @ [(''error'', JStr e)])"

section \<open>event\_log.py\<close>

text \<open>\<^verbatim>\<open>v not in _EMPTY and v is not False\<close>\<close>

definition empty_value :: "json \<Rightarrow> bool" where
  "empty_value v \<longleftrightarrow> v \<in> set [JNull, JStr [], JList [], JDict [], JBool False]"

definition compact_event_data :: "dict \<Rightarrow> dict option \<Rightarrow> dict" where
  "compact_event_data payload actor =
     (let raw = filter (\<lambda>(k, v). k \<notin> set [''company_id'', ''user_id''] \<and> \<not> empty_value v) payload;
          data = redact_dict raw
      in case dict_get (case actor of None \<Rightarrow> [] | Some a \<Rightarrow> a) ''email'' of
           None \<Rightarrow> data
         | Some email \<Rightarrow> if truthy email then dict_set data ''actor_email'' email else data)"

definition actor_user_id :: "dict option \<Rightarrow> user option" where
  "actor_user_id actor =
     (case dict_get (case actor of None \<Rightarrow> [] | Some a \<Rightarrow> a) ''user_id'' of
        Some (JInt i) \<Rightarrow> if i \<le> 0 then None else Some i
      | _ \<Rightarrow> None)"

text \<open>The new row has the next key of the sequence.\<close>

definition record_event ::
    "time \<Rightarrow> string \<Rightarrow> company option \<Rightarrow> dict \<Rightarrow> dict option \<Rightarrow> db \<Rightarrow> db" where
  "record_event now event_type company_id payload actor d =
     d\<lparr>event_log := event_log d @
         [\<lparr> ev_id = next_pk d, ev_company_id = company_id, ev_user_id = actor_user_id actor,
            ev_event_type = event_type, ev_data = compact_event_data payload actor,
            ev_created_at = now \<rparr>],
       next_pk := next_pk d + 1\<rparr>"

section \<open>envelope.py\<close>

definition build_envelope ::
    "time \<Rightarrow> string \<Rightarrow> company \<Rightarrow> dict \<Rightarrow> dict option \<Rightarrow> uuid \<Rightarrow> dict" where
  "build_envelope now event_type company_id data actor event_id =
     (let envelope = [(''id'', JStr event_id), (''type'', JStr event_type), (''time'', JTime now),
                      (''company'', JDict [(''id'', JInt company_id)]), (''data'', JDict (redact_dict data))]
      in case actor of
           None \<Rightarrow> envelope
         | Some a \<Rightarrow>
             if a = [] then envelope
             else let cleaned_actor = redact_dict a
                  in if cleaned_actor = [] then envelope
                     else envelope @ [(''actor'', JDict cleaned_actor)])"

section \<open>email\_service.py: enqueueing\<close>

definition email_service_api_key :: "settings \<Rightarrow> string" where
  "email_service_api_key cfg = strip (EMAIL_SERVICE_API_KEY cfg)"

definition email_service_configured :: "settings \<Rightarrow> bool" where
  "email_service_configured cfg = (email_service_api_key cfg \<noteq> [])"

text \<open>\<^verbatim>\<open>value.partition('@')\<close> cuts at the first at-sign.\<close>

definition looks_like_email :: "string \<Rightarrow> bool" where
  "looks_like_email value =
     (if value = [] \<or> \<not> contains value ''@'' \<or> list_ex is_space value then False
      else let local_part = before_first CHR ''@'' value; domain = drop (length local_part + 1) value
           in local_part \<noteq> [] \<and> domain \<noteq> [] \<and> contains domain ''.''
              \<and> \<not> startswith domain ''.'' \<and> \<not> endswith domain ''.'')"

text \<open>The email of an actor is text: \<^verbatim>\<open>_action_actor\<close> writes it.\<close>

definition json_text :: "json option \<Rightarrow> string" where
  "json_text v = (case v of Some (JStr s) \<Rightarrow> s | _ \<Rightarrow> [])"

definition recipient_hints :: "dict option \<Rightarrow> json list" where
  "recipient_hints actor =
     (case actor of None \<Rightarrow> [] | Some a \<Rightarrow>
        if a = [] then []
        else let email = strip (json_text (dict_get a ''email'')) in
        if \<not> looks_like_email email then []
        else [JDict ((''email'', JStr email) #
                (case dict_get a ''user_id'' of
                   Some (JInt i) \<Rightarrow> if i > 0 then [(''user_id'', JInt i)] else []
                 | _ \<Rightarrow> []))])"

definition build_event_body ::
    "string \<Rightarrow> company \<Rightarrow> dict \<Rightarrow> dict option \<Rightarrow> string \<Rightarrow> dict" where
  "build_event_body event_type company_id payload actor idempotency_key =
     [(''service'', JStr ''hosting''), (''event_type'', JStr event_type),
      (''company_id'', JInt company_id), (''idempotency_key'', JStr idempotency_key),
      (''payload'', JDict (redact_dict payload)), (''recipients'', JList (recipient_hints actor))]"

text \<open>\<^verbatim>\<open>ActionOutbox.objects.create\<close> with the defaults of the model.\<close>

definition new_outbox ::
    "time \<Rightarrow> uuid \<Rightarrow> company \<Rightarrow> nat option \<Rightarrow> delivery_kind \<Rightarrow> string \<Rightarrow> dict \<Rightarrow> outbox" where
  "new_outbox now i company_id rule kind event_type envelope =
     \<lparr> ob_id = i, ob_company_id = company_id, ob_action_rule = rule, ob_delivery_kind = kind,
       ob_event_type = event_type, ob_envelope = envelope, ob_status = OB_PENDING,
       ob_attempt_count = 0, ob_next_attempt_at = None, ob_locked_until = None,
       ob_last_error = [], ob_created_at = now, ob_updated_at = now, ob_delivered_at = None \<rparr>"

definition enqueue_email_event ::
    "settings \<Rightarrow> time \<Rightarrow> uuid \<Rightarrow> string \<Rightarrow> company \<Rightarrow> dict \<Rightarrow> dict option \<Rightarrow> string \<Rightarrow> db \<Rightarrow> db \<times> uuid option" where
  "enqueue_email_event cfg now row_id event_type company_id payload actor key d =
     (if \<not> email_service_configured cfg then (d, None)
      else (d\<lparr>outbox_rows := outbox_rows d @
               [new_outbox now row_id company_id None KIND_EMAIL event_type
                  (build_event_body event_type company_id payload actor key)]\<rparr>, Some row_id))"

section \<open>emit.py\<close>

text \<open>
  \<open>fresh\<close> is the sequence of the \<^verbatim>\<open>uuid4\<close> values the emission draws: the event id,
  the key of the email row, then one key per webhook row. The second component of the
  result is what \<^verbatim>\<open>schedule_outbox_delivery\<close> hands to the worker after the commit.
\<close>

definition matching_rules :: "string \<Rightarrow> company \<Rightarrow> db \<Rightarrow> action_rule list" where
  "matching_rules event_type company_id d =
     sort_key rule_id (filter (\<lambda>r. rule_company_id r = company_id \<and> rule_event_type r = event_type
        \<and> rule_enabled r \<and> rule_action_kind r = ACTION_WEBHOOK) (rules d))"

definition webhook_rows ::
    "time \<Rightarrow> (nat \<Rightarrow> uuid) \<Rightarrow> string \<Rightarrow> company \<Rightarrow> dict \<Rightarrow> action_rule list \<Rightarrow> outbox list" where
  "webhook_rows now fresh event_type company_id envelope rs =
     map (\<lambda>(n, rule). new_outbox now (fresh (n + 2)) company_id (Some (rule_id rule)) KIND_WEBHOOK
            event_type envelope) (zip [0..<length rs] rs)"

definition emit_event ::
    "settings \<Rightarrow> time \<Rightarrow> (nat \<Rightarrow> uuid) \<Rightarrow> string \<Rightarrow> company \<Rightarrow> dict \<Rightarrow> dict option \<Rightarrow> bool \<Rightarrow> db
      \<Rightarrow> exn + (db \<times> uuid list)" where
  "emit_event cfg now fresh event_type company_id payload actor force d =
     bind_res (get_event_type REGISTRY event_type) (\<lambda>event.
       if evt_staff_only event then Inl Value_Error
       else if \<not> evt_emit_by_default event \<and> \<not> force then Inr (d, [])
       else let d1 = record_event now event_type (Some company_id) payload actor d;
                event_id = fresh 0;
                (d2, email_row) = enqueue_email_event cfg now (fresh 1) event_type company_id payload
                                    actor event_id d1;
                rs = matching_rules event_type company_id d2;
                envelope = build_envelope now event_type company_id payload actor event_id;
                new_rows = webhook_rows now fresh event_type company_id envelope rs;
                d3 = d2\<lparr>outbox_rows := outbox_rows d2 @ new_rows\<rparr>
            in Inr (d3, map ob_id new_rows @ (case email_row of None \<Rightarrow> [] | Some i \<Rightarrow> [i])))"

definition emit_event_if_rules ::
    "settings \<Rightarrow> time \<Rightarrow> (nat \<Rightarrow> uuid) \<Rightarrow> string \<Rightarrow> company \<Rightarrow> dict \<Rightarrow> dict option \<Rightarrow> db
      \<Rightarrow> db \<times> uuid list" where
  "emit_event_if_rules cfg now fresh event_type company_id payload actor d =
     (case emit_event cfg now fresh event_type company_id payload actor False d of
        Inr r \<Rightarrow> r | Inl _ \<Rightarrow> (d, []))"

section \<open>What an emission writes\<close>

definition new_rows_of :: "db \<Rightarrow> db \<Rightarrow> outbox list" where
  "new_rows_of d d' = drop (length (outbox_rows d)) (outbox_rows d')"

lemma matching_rules_mem:
  "r \<in> set (matching_rules ev c d) \<longleftrightarrow> r \<in> set (rules d) \<and> rule_company_id r = c
     \<and> rule_event_type r = ev \<and> rule_enabled r \<and> rule_action_kind r = ACTION_WEBHOOK"
  by (auto simp: matching_rules_def)

lemma emit_event_Inr:
  assumes "emit_event cfg now fresh ev c payload actor force d = Inr (d', ids)"
    and "get_event_type REGISTRY ev = Inr e" "evt_emit_by_default e"
  shows "\<exists>row news. d' = d\<lparr>event_log := event_log d @ [row], next_pk := next_pk d + 1,
            outbox_rows := outbox_rows d @ news\<rparr>"
  using assms
  by (auto simp: emit_event_def Let_def record_event_def enqueue_email_event_def split: if_splits)

lemma emit_if_rules_frame:
  assumes "emit_event_if_rules cfg now fresh ev c payload actor d = (d', ids)"
  shows "apps d' = apps d" "deployments d' = deployments d" "accesses d' = accesses d"
    "tokens d' = tokens d" "rules d' = rules d" "attempts d' = attempts d"
    "job_runs d' = job_runs d" "company_deletions d' = company_deletions d"
    "\<exists>news. outbox_rows d' = outbox_rows d @ news" "\<exists>evs. event_log d' = event_log d @ evs"
  using assms
  by (auto simp: emit_event_if_rules_def emit_event_def Let_def record_event_def
      enqueue_email_event_def bind_res_Inr bind_res_Inl split: if_splits sum.splits prod.splits)

lemma emit_if_rules_apps [simp]:
  "apps (fst (emit_event_if_rules cfg now fresh ev c payload actor d)) = apps d"
  "deployments (fst (emit_event_if_rules cfg now fresh ev c payload actor d)) = deployments d"
  "accesses (fst (emit_event_if_rules cfg now fresh ev c payload actor d)) = accesses d"
  "tokens (fst (emit_event_if_rules cfg now fresh ev c payload actor d)) = tokens d"
  using emit_if_rules_frame[of cfg now fresh ev c payload actor d] by (metis prod.collapse)+

text \<open>A row the emission writes for rule \<open>r\<close>, or for the email service.\<close>

definition secret_free_row :: "outbox \<Rightarrow> bool" where
  "secret_free_row o1 \<longleftrightarrow>
     (case dict_get (ob_envelope o1) (if ob_delivery_kind o1 = KIND_EMAIL then ''payload'' else ''data'') of
        Some v \<Rightarrow> no_secrets v | None \<Rightarrow> False)"

lemma redact_dict_clean: "no_secrets (JDict (redact_dict d))"
  by (simp add: redact_dict_items without_no_secrets)

lemma no_secret_items_filter: "no_secret_items d \<Longrightarrow> no_secret_items (filter p d)"
  by (induction d rule: list.induct) auto

lemma envelope_data: "dict_get (build_envelope now ev c data actor i) ''data'' = Some (JDict (redact_dict data))"
  by (auto simp: build_envelope_def dict_get_def Let_def split: option.split)

lemma webhook_rows_props:
  "o1 \<in> set (webhook_rows now fresh ev c env rs) \<Longrightarrow>
   ob_company_id o1 = c \<and> ob_event_type o1 = ev \<and> ob_status o1 = OB_PENDING \<and> ob_attempt_count o1 = 0
   \<and> ob_delivery_kind o1 = KIND_WEBHOOK \<and> ob_envelope o1 = env
   \<and> (\<exists>r\<in>set rs. ob_action_rule o1 = Some (rule_id r))"
  by (auto simp: webhook_rows_def new_outbox_def dest: set_zip_rightD)

lemma map_rule_webhook_rows:
  "map ob_action_rule (webhook_rows now fresh ev c env rs) = map (\<lambda>r. Some (rule_id r)) rs"
  by (rule nth_equalityI) (simp_all add: webhook_rows_def new_outbox_def)

text \<open>The rows of one emission, email row first.\<close>

definition email_rows_of ::
    "settings \<Rightarrow> time \<Rightarrow> (nat \<Rightarrow> uuid) \<Rightarrow> string \<Rightarrow> company \<Rightarrow> dict \<Rightarrow> dict option \<Rightarrow> outbox list" where
  "email_rows_of cfg now fresh ev c payload actor =
     (if email_service_configured cfg
      then [new_outbox now (fresh 1) c None KIND_EMAIL ev (build_event_body ev c payload actor (fresh 0))]
      else [])"

definition hook_rows_of ::
    "time \<Rightarrow> (nat \<Rightarrow> uuid) \<Rightarrow> string \<Rightarrow> company \<Rightarrow> dict \<Rightarrow> dict option \<Rightarrow> db \<Rightarrow> outbox list" where
  "hook_rows_of now fresh ev c payload actor d =
     webhook_rows now fresh ev c (build_envelope now ev c payload actor (fresh 0)) (matching_rules ev c d)"

definition log_row :: "time \<Rightarrow> string \<Rightarrow> company \<Rightarrow> dict \<Rightarrow> dict option \<Rightarrow> db \<Rightarrow> event_log_row" where
  "log_row now ev c payload actor d =
     \<lparr> ev_id = next_pk d, ev_company_id = Some c, ev_user_id = actor_user_id actor,
       ev_event_type = ev, ev_data = compact_event_data payload actor, ev_created_at = now \<rparr>"

lemma matching_rules_cong: "rules d' = rules d \<Longrightarrow> matching_rules ev c d' = matching_rules ev c d"
  by (simp add: matching_rules_def)

lemma emit_effect:
  assumes "get_event_type REGISTRY ev = Inr t" "evt_emit_by_default t" "\<not> evt_staff_only t"
  shows "emit_event_if_rules cfg now fresh ev c payload actor d =
    (d\<lparr>event_log := event_log d @ [log_row now ev c payload actor d], next_pk := next_pk d + 1,
       outbox_rows := outbox_rows d @ (email_rows_of cfg now fresh ev c payload actor
                                       @ hook_rows_of now fresh ev c payload actor d)\<rparr>,
     map ob_id (hook_rows_of now fresh ev c payload actor d)
       @ map ob_id (email_rows_of cfg now fresh ev c payload actor))"
proof (cases "email_service_configured cfg")
  case True
  have m: "matching_rules ev c (d\<lparr>event_log := x, next_pk := y, outbox_rows := z\<rparr>) = matching_rules ev c d" for x y z
    by (rule matching_rules_cong) simp
  show ?thesis
    using assms True
    by (simp add: emit_event_if_rules_def emit_event_def Let_def record_event_def enqueue_email_event_def
        m log_row_def email_rows_of_def hook_rows_of_def new_outbox_def)
next
  case False
  have m: "matching_rules ev c (d\<lparr>event_log := x, next_pk := y\<rparr>) = matching_rules ev c d" for x y
    by (rule matching_rules_cong) simp
  show ?thesis
    using assms False
    by (simp add: emit_event_if_rules_def emit_event_def Let_def record_event_def enqueue_email_event_def
        m log_row_def email_rows_of_def hook_rows_of_def)
qed

lemma hosting_event_default: "get_event_type REGISTRY ev = Inr t \<Longrightarrow> evt_emit_by_default t"
proof -
  assume "get_event_type REGISTRY ev = Inr t"
  then have "map_of REGISTRY ev = Some t" by (simp add: get_event_type_def split: option.splits)
  then have "t \<in> set hosting_event_list"
    unfolding REGISTRY_eq by (auto dest!: map_of_SomeD)
  then show ?thesis
    by (auto simp: hosting_event_list_def company_event_def platform_event_def)
qed

lemma email_rows_props:
  "o1 \<in> set (email_rows_of cfg now fresh ev c payload actor) \<Longrightarrow>
   ob_delivery_kind o1 = KIND_EMAIL \<and> ob_company_id o1 = c \<and> ob_event_type o1 = ev
   \<and> ob_status o1 = OB_PENDING \<and> ob_attempt_count o1 = 0 \<and> secret_free_row o1"
  using redact_dict_clean[of payload]
  by (auto simp: email_rows_of_def new_outbox_def secret_free_row_def build_event_body_def dict_get_def
      split: if_splits)

lemma hook_rows_props:
  "o1 \<in> set (hook_rows_of now fresh ev c payload actor d) \<Longrightarrow>
   ob_delivery_kind o1 = KIND_WEBHOOK \<and> ob_company_id o1 = c \<and> ob_event_type o1 = ev
   \<and> ob_status o1 = OB_PENDING \<and> ob_attempt_count o1 = 0 \<and> secret_free_row o1"
  using webhook_rows_props[of o1 now fresh ev c "build_envelope now ev c payload actor (fresh 0)"]
    redact_dict_clean[of payload]
  by (auto simp: hook_rows_of_def secret_free_row_def envelope_data)

lemma emitted_kinds:
  "filter (\<lambda>o1. ob_delivery_kind o1 = KIND_EMAIL) (email_rows_of cfg now fresh ev c payload actor
     @ hook_rows_of now fresh ev c payload actor d) = email_rows_of cfg now fresh ev c payload actor"
  "filter (\<lambda>o1. ob_delivery_kind o1 = KIND_WEBHOOK) (email_rows_of cfg now fresh ev c payload actor
     @ hook_rows_of now fresh ev c payload actor d) = hook_rows_of now fresh ev c payload actor d"
proof -
  have h: "\<forall>o1\<in>set (hook_rows_of now fresh ev c payload actor d). ob_delivery_kind o1 = KIND_WEBHOOK"
    and m: "\<forall>o1\<in>set (email_rows_of cfg now fresh ev c payload actor). ob_delivery_kind o1 = KIND_EMAIL"
    using hook_rows_props email_rows_props by blast+
  then have "filter (\<lambda>o1. ob_delivery_kind o1 = KIND_EMAIL) (hook_rows_of now fresh ev c payload actor d) = []"
    "filter (\<lambda>o1. ob_delivery_kind o1 = KIND_WEBHOOK) (email_rows_of cfg now fresh ev c payload actor) = []"
    by (auto simp: filter_empty_conv)
  moreover have "filter (\<lambda>o1. ob_delivery_kind o1 = KIND_WEBHOOK) (hook_rows_of now fresh ev c payload actor d)
      = hook_rows_of now fresh ev c payload actor d"
    "filter (\<lambda>o1. ob_delivery_kind o1 = KIND_EMAIL) (email_rows_of cfg now fresh ev c payload actor)
      = email_rows_of cfg now fresh ev c payload actor"
    by (rule filter_True, use h m in blast)+
  ultimately show
    "filter (\<lambda>o1. ob_delivery_kind o1 = KIND_EMAIL) (email_rows_of cfg now fresh ev c payload actor
     @ hook_rows_of now fresh ev c payload actor d) = email_rows_of cfg now fresh ev c payload actor"
    "filter (\<lambda>o1. ob_delivery_kind o1 = KIND_WEBHOOK) (email_rows_of cfg now fresh ev c payload actor
     @ hook_rows_of now fresh ev c payload actor d) = hook_rows_of now fresh ev c payload actor d"
    by simp_all
qed

text \<open>C37. Emitting a company event of the catalog appends one event-log row of that company, one
  pending webhook row for each enabled webhook rule of that company and event in rule order, and
  one email row when the email service is configured; every appended outbox row belongs to the
  company and its payload is free of secrets; nothing else of the database changes, and exactly the
  appended rows are scheduled. An unknown or staff-only event writes nothing.\<close>

theorem emit_event_if_rules_correct:
  assumes e: "emit_event_if_rules cfg now fresh ev c payload actor d = (d', ids)"
  shows "case get_event_type REGISTRY ev of
     Inl _ \<Rightarrow> d' = d \<and> ids = []
   | Inr t \<Rightarrow>
      if evt_staff_only t then d' = d \<and> ids = []
      else (let email_rows = filter (\<lambda>o1. ob_delivery_kind o1 = KIND_EMAIL) (new_rows_of d d');
                hooks = filter (\<lambda>o1. ob_delivery_kind o1 = KIND_WEBHOOK) (new_rows_of d d')
            in d' = d\<lparr>event_log := event_log d @ [\<lparr> ev_id = next_pk d, ev_company_id = Some c,
                        ev_user_id = actor_user_id actor, ev_event_type = ev,
                        ev_data = compact_event_data payload actor, ev_created_at = now \<rparr>],
                     next_pk := next_pk d + 1, outbox_rows := outbox_rows d @ new_rows_of d d'\<rparr>
               \<and> map ob_action_rule hooks = map (\<lambda>r. Some (rule_id r)) (matching_rules ev c d)
               \<and> length email_rows = (if email_service_configured cfg then 1 else 0)
               \<and> (\<forall>o1\<in>set (new_rows_of d d'). ob_company_id o1 = c \<and> ob_event_type o1 = ev
                    \<and> ob_status o1 = OB_PENDING \<and> ob_attempt_count o1 = 0 \<and> secret_free_row o1)
               \<and> set ids = ob_id ` set (new_rows_of d d'))"
proof (cases "get_event_type REGISTRY ev")
  case (Inl x)
  then show ?thesis using e by (simp add: emit_event_if_rules_def emit_event_def)
next
  case (Inr t)
  show ?thesis
  proof (cases "evt_staff_only t")
    case True
    then show ?thesis using e Inr by (simp add: emit_event_if_rules_def emit_event_def)
  next
    case False
    let ?email = "email_rows_of cfg now fresh ev c payload actor"
    let ?hooks = "hook_rows_of now fresh ev c payload actor d"
    note eff = emit_effect[OF Inr hosting_event_default[OF Inr] False, of cfg now fresh c payload actor d, unfolded e]
    then have news: "new_rows_of d d' = ?email @ ?hooks" by (simp add: new_rows_of_def)
    have d': "d' = d\<lparr>event_log := event_log d @ [log_row now ev c payload actor d], next_pk := next_pk d + 1,
                     outbox_rows := outbox_rows d @ new_rows_of d d'\<rparr>"
      using eff unfolding news by simp
    have ids: "set ids = ob_id ` set (new_rows_of d d')"
      using eff unfolding news by auto
    have len: "length ?email = (if email_service_configured cfg then 1 else 0)"
      by (simp add: email_rows_of_def)
    have hooks: "map ob_action_rule ?hooks = map (\<lambda>r. Some (rule_id r)) (matching_rules ev c d)"
      by (simp add: hook_rows_of_def map_rule_webhook_rows)
    have all: "\<forall>o1\<in>set (new_rows_of d d'). ob_company_id o1 = c \<and> ob_event_type o1 = ev
        \<and> ob_status o1 = OB_PENDING \<and> ob_attempt_count o1 = 0 \<and> secret_free_row o1"
      unfolding news using email_rows_props hook_rows_props by (auto simp only: set_append)
    have f: "filter (\<lambda>o1. ob_delivery_kind o1 = KIND_WEBHOOK) (new_rows_of d d') = ?hooks"
      "filter (\<lambda>o1. ob_delivery_kind o1 = KIND_EMAIL) (new_rows_of d d') = ?email"
      unfolding news by (rule emitted_kinds)+
    show ?thesis
      unfolding Inr sum.case Let_def f if_not_P[OF False]
      using d'[unfolded log_row_def] hooks len all ids by (intro conjI)
  qed
qed

theorem emit_event_if_rules_correct_witness:
  "let rule = \<lparr> rule_id = 7, rule_company_id = 3, rule_name = ''hook'', rule_description = [],
         rule_event_type = ''hosting.app.created'', rule_enabled = True, rule_action_kind = ACTION_WEBHOOK,
         rule_config = [], rule_created_at = 0, rule_updated_at = 0 \<rparr>;
       d = empty_db\<lparr>rules := [rule]\<rparr>;
       d' = fst (emit_event_if_rules default_settings 5 (\<lambda>n. replicate n CHR ''x'') ''hosting.app.created'' 3
              [(''token'', JStr ''t''), (''name'', JStr ''n'')] None d)
   in length (event_log d') = 1
      \<and> map ob_action_rule (filter (\<lambda>o1. ob_delivery_kind o1 = KIND_WEBHOOK) (outbox_rows d')) = [Some 7]"
proof -
  define d where "d = empty_db\<lparr>rules := [\<lparr> rule_id = 7, rule_company_id = 3, rule_name = ''hook'', rule_description = [],
         rule_event_type = ''hosting.app.created'', rule_enabled = True, rule_action_kind = ACTION_WEBHOOK,
         rule_config = [], rule_created_at = 0, rule_updated_at = 0 \<rparr>]\<rparr>"
  define r where "r = emit_event_if_rules default_settings 5 (\<lambda>n. replicate n CHR ''x'') ''hosting.app.created'' 3
              [(''token'', JStr ''t''), (''name'', JStr ''n'')] None d"
  obtain t where t: "get_event_type REGISTRY ''hosting.app.created'' = Inr t" "\<not> evt_staff_only t"
    unfolding REGISTRY_eq by (simp add: hosting_event_list_def company_event_def get_event_type_def)
  have m: "map (\<lambda>r. Some (rule_id r)) (matching_rules ''hosting.app.created'' 3 d) = [Some 7]"
    by (simp add: matching_rules_def d_def)
  have r0: "emit_event_if_rules default_settings 5 (\<lambda>n. replicate n CHR ''x'') ''hosting.app.created'' 3
              [(''token'', JStr ''t''), (''name'', JStr ''n'')] None d = (fst r, snd r)" by (simp add: r_def)
  have n: "new_rows_of d (fst r) = outbox_rows (fst r)" by (simp add: new_rows_of_def d_def empty_db_def)
  have C: "fst r = d\<lparr>event_log := event_log d @ [\<lparr> ev_id = next_pk d, ev_company_id = Some 3,
        ev_user_id = actor_user_id None, ev_event_type = ''hosting.app.created'',
        ev_data = compact_event_data [(''token'', JStr ''t''), (''name'', JStr ''n'')] None, ev_created_at = 5 \<rparr>],
      next_pk := next_pk d + 1, outbox_rows := outbox_rows d @ new_rows_of d (fst r)\<rparr>"
    and H: "map ob_action_rule (filter (\<lambda>o1. ob_delivery_kind o1 = KIND_WEBHOOK) (new_rows_of d (fst r))) = [Some 7]"
    using emit_event_if_rules_correct[OF r0, unfolded t sum.case Let_def if_not_P[OF t(2)] m] by blast+
  have "event_log (fst r) = event_log d @ [\<lparr> ev_id = next_pk d, ev_company_id = Some 3,
        ev_user_id = actor_user_id None, ev_event_type = ''hosting.app.created'',
        ev_data = compact_event_data [(''token'', JStr ''t''), (''name'', JStr ''n'')] None, ev_created_at = 5 \<rparr>]"
    by (subst C) simp
  then have "length (event_log (fst r)) = 1" by (simp add: d_def empty_db_def)
  with H n show ?thesis unfolding Let_def r_def[symmetric] d_def[symmetric] by simp
qed

end
