(* ===== verification/Paths.thy ===== *)
theory Paths
  imports Py_Regex
begin

text \<open>
  Relative path validation: \<^verbatim>\<open>apps/hosting/paths.py\<close>, with the library functions it
  relies on (\<^verbatim>\<open>posixpath.normpath\<close>, \<^verbatim>\<open>urllib.parse.unquote\<close>). The lemmas compare
  the normalisation with a reference on the list of components and show that an
  accepted path names something below the directory it is joined to.
\<close>

section \<open>posixpath.normpath\<close>

text \<open>The loop of \<^verbatim>\<open>normpath\<close> keeps the new components as a stack, newest first.\<close>

definition norm_step :: "bool \<Rightarrow> string list \<Rightarrow> string \<Rightarrow> string list" where
  "norm_step absolute new_comps part =
     (if part = [] \<or> part = ''.'' then new_comps
      else if part \<noteq> ''..'' \<or> (\<not> absolute \<and> new_comps = [])
              \<or> (new_comps \<noteq> [] \<and> hd new_comps = ''..'') then part # new_comps
      else tl new_comps)"

definition initial_slashes :: "string \<Rightarrow> nat" where
  "initial_slashes path =
     (if \<not> startswith path ''/'' then 0
      else if startswith path ''//'' \<and> \<not> startswith path ''///'' then 2 else 1)"

definition normpath :: "string \<Rightarrow> string" where
  "normpath path =
     (if path = [] then ''.''
      else let n = initial_slashes path;
               comps = rev (foldl (norm_step (n > 0)) [] (split_on CHR ''/'' path));
               result = replicate n CHR ''/'' @ join_with ''/'' comps
           in if result = [] then ''.'' else result)"

section \<open>urllib.parse.unquote\<close>

text \<open>
  A percent sign with two hexadecimal digits stands for that byte, any other
  percent sign for itself. Bytes are kept as they are: where they are not valid
  UTF-8 the library puts replacement characters, none of which is a slash or a dot.
\<close>

definition hex_val :: "char \<Rightarrow> nat option" where
  "hex_val c =
     (if is_digit c then Some (ch c - 48)
      else if 97 \<le> ch c \<and> ch c \<le> 102 then Some (ch c - 87)
      else if 65 \<le> ch c \<and> ch c \<le> 70 then Some (ch c - 55)
      else None)"

fun unquote :: "string \<Rightarrow> string" where
  "unquote (c # h # l # s) =
     (if c = CHR ''%'' then
        (case (hex_val h, hex_val l) of
           (Some a, Some b) \<Rightarrow> char_of (16 * a + b) # unquote s
         | _ \<Rightarrow> c # unquote (h # l # s))
      else c # unquote (h # l # s))"
| "unquote s = s"

section \<open>paths.py\<close>

text \<open>
  \<^verbatim>\<open>(?i)(?:^|[/%5c])(?:%2e%2e|\.\.)(?:$|[/%5c])\<close> as a pattern of the whole text. The
  brackets make a class of the four characters \<^verbatim>\<open>/ % 5 c\<close>; \<^verbatim>\<open>$\<close> also matches before a
  final line feed.
\<close>

definition slash_or_5c :: rexp where
  "slash_or_5c = Cls [(47, 47), (37, 37), (53, 53), (99, 99), (67, 67)]"

definition letter_e :: rexp where
  "letter_e = Cls [(101, 101), (69, 69)]"

definition encoded_dot :: rexp where
  "encoded_dot = Cat (Lit CHR ''%'') (Cat (Lit CHR ''2'') letter_e)"

definition ENCODED_DOTDOT :: rexp where
  "ENCODED_DOTDOT =
     Cat (Opt (Cat (Star AnyChar) slash_or_5c))
       (Cat (Alt (Cat encoded_dot encoded_dot) (Word ''..''))
         (AltList [One, Lit (char_of (10 :: nat)), Cat slash_or_5c (Star AnyChar)]))"

text \<open>\<^verbatim>\<open>(?i)^[a-z]:[/\\]\<close>\<close>

definition WINDOWS_ABSOLUTE :: rexp where
  "WINDOWS_ABSOLUTE = Cat (Cls [(97, 122), (65, 90)]) (Cat (Lit CHR '':'') (Cls [(47, 47), (92, 92)]))"

definition backslash :: char where
  "backslash = char_of (92 :: nat)"

definition normalize_relative_path :: "string \<Rightarrow> string option" where
  "normalize_relative_path path =
     (if re_match WINDOWS_ABSOLUTE path then None
      else let slash = strip_char CHR ''/'' (replace_char backslash CHR ''/'' path) in
      if slash = [] then None
      else let parts = split_on CHR ''/'' slash in
      if list_ex (\<lambda>part. part \<in> set [[], ''..'']) parts then None
      else let normalized = normpath slash in
      if normalized = [] \<or> normalized = ''.'' then None
      else if startswith normalized ''../'' \<or> normalized = ''..'' then None
      else if list_ex (\<lambda>part. part = ''..'') (split_on CHR ''/'' normalized) then None
      else Some normalized)"

definition raw_path_has_traversal :: "string \<Rightarrow> bool" where
  "raw_path_has_traversal raw =
     (if contains raw ''..'' then True
      else if re_fullmatch ENCODED_DOTDOT raw then True
      else list_ex (\<lambda>segment. segment \<noteq> [] \<and> unquote segment = ''..'')
             (split_on CHR ''/'' (replace_char backslash CHR ''/'' raw)))"

definition validate_serve_path :: "string \<Rightarrow> exn + string" where
  "validate_serve_path raw =
     (if strip_char CHR ''/'' raw = [] then Inr []
      else if raw_path_has_traversal raw then Inl Http404
      else case normalize_relative_path (unquote raw) of
             None \<Rightarrow> Inl Http404
           | Some rel \<Rightarrow> Inr rel)"

section \<open>Reference on components\<close>

text \<open>A relative path that names something strictly below the directory it is joined to.\<close>

definition rel_path_ok :: "string \<Rightarrow> bool" where
  "rel_path_ok r \<longleftrightarrow>
     list_all (\<lambda>p. p \<noteq> [] \<and> p \<noteq> ''.'' \<and> p \<noteq> ''..'') (split_on CHR ''/'' r) \<and> backslash \<notin> set r"

definition path_parts :: "string \<Rightarrow> string list" where
  "path_parts path = split_on CHR ''/'' (strip_char CHR ''/'' (replace_char backslash CHR ''/'' path))"

lemma foldl_norm_step:
  "(\<forall>p\<in>set ps. p \<noteq> [] \<and> p \<noteq> ''..'') \<Longrightarrow>
   foldl (norm_step a) st ps = rev (filter (\<lambda>p. p \<noteq> ''.'') ps) @ st"
  by (induction ps arbitrary: st) (auto simp: norm_step_def)

lemma split_on_hd_sep: "split_on sep (sep # s) = [] # split_on sep s"
  by simp

lemma no_initial_slash: "[] \<notin> set (split_on CHR ''/'' s) \<Longrightarrow> initial_slashes s = 0"
  by (cases s) (auto simp: initial_slashes_def startswith_iff)

lemma join_with_eq_Nil: "join_with [sep] ws = [] \<longleftrightarrow> ws = [] \<or> ws = [[]]"
proof (cases ws)
  case (Cons w vs)
  then show ?thesis by (cases vs) simp_all
qed simp

lemma parts_ne: "\<forall>p\<in>set (split_on c s). p \<noteq> [] \<and> p \<noteq> w \<Longrightarrow> s \<noteq> []"
  by (cases s) simp_all

lemma normpath_components:
  assumes "\<forall>p\<in>set (split_on CHR ''/'' s). p \<noteq> [] \<and> p \<noteq> ''..''"
  shows "normpath s =
    (let kept = filter (\<lambda>p. p \<noteq> ''.'') (split_on CHR ''/'' s)
     in if kept = [] then ''.'' else join_with ''/'' kept)"
proof -
  let ?ps = "split_on CHR ''/'' s" and ?kept = "filter (\<lambda>p. p \<noteq> ''.'') (split_on CHR ''/'' s)"
  have s: "s \<noteq> []" using assms by (rule parts_ne)
  have i: "initial_slashes s = 0" by (rule no_initial_slash) (use assms in blast)
  have f: "rev (foldl (norm_step False) [] ?ps) = ?kept" using foldl_norm_step[OF assms] by simp
  have "[] \<notin> set ?kept" using assms by (simp only: set_filter mem_Collect_eq) blast
  then have "?kept \<noteq> [[]]" by (metis list.set_intros(1))
  then have j: "?kept \<noteq> [] \<Longrightarrow> join_with ''/'' ?kept \<noteq> []"
    using join_with_eq_Nil by blast
  have "normpath s = (if join_with ''/'' ?kept = [] then ''.'' else join_with ''/'' ?kept)"
    using s unfolding normpath_def Let_def i by (simp only: less_irrefl f replicate_0 append_Nil if_False)
  then show ?thesis using j unfolding Let_def by (cases "?kept = []") simp_all
qed

lemma kept_split:
  assumes "filter p (split_on c s) \<noteq> []"
  shows "split_on c (join_with [c] (filter p (split_on c s))) = filter p (split_on c s)"
  by (rule split_join) (use assms split_on_no_sep[of _ c s] in auto)

lemma not_single: "split_on c n = ks \<Longrightarrow> c \<notin> set w \<Longrightarrow> ks \<noteq> [w] \<Longrightarrow> n \<noteq> w"
  using split_on_word by fastforce

lemma normalize_reference:
  "normalize_relative_path path =
    (let kept = filter (\<lambda>p. p \<noteq> ''.'') (path_parts path)
     in if re_match WINDOWS_ABSOLUTE path \<or> [] \<in> set (path_parts path)
           \<or> ''..'' \<in> set (path_parts path) \<or> kept = [] then None
        else Some (join_with ''/'' kept))"
proof -
  let ?s = "strip_char CHR ''/'' (replace_char backslash CHR ''/'' path)"
  let ?ps = "path_parts path" and ?kept = "filter (\<lambda>p. p \<noteq> ''.'') (path_parts path)"
  show ?thesis
  proof (cases "re_match WINDOWS_ABSOLUTE path \<or> [] \<in> set ?ps \<or> ''..'' \<in> set ?ps")
    case True
    have "normalize_relative_path path = None"
    proof (cases "re_match WINDOWS_ABSOLUTE path")
      case False
      with True have "list_ex (\<lambda>part. part \<in> set [[], ''..'']) (split_on CHR ''/'' ?s)"
        unfolding list_ex_iff path_parts_def by (metis list.set_intros)
      then show ?thesis by (simp add: normalize_relative_path_def Let_def)
    qed (simp add: normalize_relative_path_def)
    with True show ?thesis by (simp only: Let_def) (metis (no_types))
  next
    case False
    then have ok: "\<forall>p\<in>set (split_on CHR ''/'' ?s). p \<noteq> [] \<and> p \<noteq> ''..''"
      by (auto simp: path_parts_def)
    then have ne: "?s \<noteq> []" by (rule parts_ne)
    have ex: "\<not> list_ex (\<lambda>part. part \<in> set [[], ''..'']) (split_on CHR ''/'' ?s)"
      using ok by (auto simp: list_ex_iff)
    show ?thesis
    proof (cases "?kept = []")
      case True
      then have "normpath ?s = ''.''"
        using normpath_components[OF ok] by (simp add: path_parts_def Let_def)
      then show ?thesis
        using False True ne ex unfolding normalize_relative_path_def Let_def by (simp only: if_False if_True) simp
    next
      case k: False
      let ?n = "join_with ''/'' ?kept"
      have n: "normpath ?s = ?n"
        using normpath_components[OF ok] k by (simp add: path_parts_def Let_def)
      have sp: "split_on CHR ''/'' ?n = ?kept"
        using kept_split k by (simp add: path_parts_def)
      have a: "?n \<noteq> []" "?n \<noteq> ''.''" "?n \<noteq> ''..''" "\<not> startswith ?n ''../''"
        "\<not> list_ex (\<lambda>part. part = ''..'') (split_on CHR ''/'' ?n)"
      proof -
        have kept_ok: "\<forall>p\<in>set ?kept. p \<noteq> [] \<and> p \<noteq> ''.'' \<and> p \<noteq> ''..''"
          using ok by (auto simp: path_parts_def)
        have k1: "?kept \<noteq> [[]]" "?kept \<noteq> [''.'']" "?kept \<noteq> [''..'']"
          using kept_ok by (metis list.set_intros(1))+
        show "?n \<noteq> []" by (rule not_single[OF sp _ k1(1)]) simp
        show "?n \<noteq> ''.''" by (rule not_single[OF sp _ k1(2)]) simp
        show "?n \<noteq> ''..''" by (rule not_single[OF sp _ k1(3)]) simp
        show "\<not> list_ex (\<lambda>part. part = ''..'') (split_on CHR ''/'' ?n)"
          unfolding sp list_ex_iff using kept_ok by blast
        show "\<not> startswith ?n ''../''"
        proof
          assume "startswith ?n ''../''"
          then obtain t where "?n = ''..'' @ CHR ''/'' # t" by (auto simp: startswith_iff)
          then have "split_on CHR ''/'' ?n = ''..'' # split_on CHR ''/'' t"
            using split_on_append[of "CHR ''/''" "''..''" t] by simp
          then show False unfolding sp using kept_ok by (metis list.set_intros(1))
        qed
      qed
      show ?thesis
        using False k ne ex a unfolding normalize_relative_path_def Let_def n by (simp only: if_False)  simp
    qed
  qed
qed

section \<open>What an accepted path is\<close>

lemma backslash_ne: "backslash \<noteq> CHR ''/''"
  by code_simp

lemma path_parts_no_backslash: "p \<in> set (path_parts path) \<Longrightarrow> backslash \<notin> set p"
proof -
  assume "p \<in> set (path_parts path)"
  then have "set p \<subseteq> set (replace_char backslash CHR ''/'' path)"
    unfolding path_parts_def strip_char_def using set_split_on set_strip_by by blast
  moreover have "backslash \<notin> set (replace_char backslash CHR ''/'' path)"
    using backslash_ne by (auto simp: replace_char_def)
  ultimately show ?thesis by blast
qed

lemma normalize_Some:
  assumes "normalize_relative_path path = Some r"
  shows "split_on CHR ''/'' r = filter (\<lambda>p. p \<noteq> ''.'') (path_parts path)"
    and "filter (\<lambda>p. p \<noteq> ''.'') (path_parts path) \<noteq> []"
    and "[] \<notin> set (path_parts path)" and "''..'' \<notin> set (path_parts path)"
    and "r = join_with ''/'' (filter (\<lambda>p. p \<noteq> ''.'') (path_parts path))"
proof -
  let ?kept = "filter (\<lambda>p. p \<noteq> ''.'') (path_parts path)"
  have *: "[] \<notin> set (path_parts path) \<and> ''..'' \<notin> set (path_parts path) \<and> ?kept \<noteq> []
      \<and> r = join_with ''/'' ?kept"
    using assms unfolding normalize_reference Let_def by (metis option.distinct(1) option.inject)
  then show "?kept \<noteq> []" "[] \<notin> set (path_parts path)" "''..'' \<notin> set (path_parts path)"
    "r = join_with ''/'' ?kept" by blast+
  show "split_on CHR ''/'' r = ?kept"
    using * kept_split[of _ "CHR ''/''"] unfolding path_parts_def by blast
qed

lemma normalize_rel_path_ok: "normalize_relative_path path = Some r \<Longrightarrow> rel_path_ok r"
proof -
  assume n: "normalize_relative_path path = Some r"
  note N = normalize_Some[OF n]
  have "list_all (\<lambda>p. p \<noteq> [] \<and> p \<noteq> ''.'' \<and> p \<noteq> ''..'') (split_on CHR ''/'' r)"
  proof (unfold N(1) list_all_iff, rule ballI)
    fix p assume "p \<in> set (filter (\<lambda>p. p \<noteq> ''.'') (path_parts path))"
    then have "p \<in> set (path_parts path)" "p \<noteq> ''.''" by simp_all
    with N(3,4) show "p \<noteq> [] \<and> p \<noteq> ''.'' \<and> p \<noteq> ''..''" by blast
  qed
  moreover have "backslash \<notin> set r"
  proof -
    have "set r \<subseteq> set ''/'' \<union> (\<Union>w\<in>set (path_parts path). set w)"
      unfolding N(5) using set_join_with by fastforce
    moreover have "backslash \<notin> set ''/''" using backslash_ne by simp
    ultimately show ?thesis using path_parts_no_backslash by blast
  qed
  ultimately show ?thesis by (simp add: rel_path_ok_def)
qed

lemma rel_path_ok_ne: "rel_path_ok r \<Longrightarrow> r \<noteq> []"
  by (auto simp: rel_path_ok_def)

lemma hd_split_sep: "[] \<notin> set (split_on c r) \<Longrightarrow> hd r \<noteq> c"
  by (cases r) auto

lemma split_on_snoc_sep: "split_on c (r @ [c]) = split_on c r @ [[]]"
  by (induction r) (auto split: list.splits)

lemma last_split_sep: "[] \<notin> set (split_on c r) \<Longrightarrow> last r \<noteq> c"
proof -
  assume a: "[] \<notin> set (split_on c r)"
  then have "r \<noteq> []" by auto
  then show ?thesis using a split_on_snoc_sep[of c "butlast r"]
    by (metis append_butlast_last_id in_set_conv_decomp)
qed

lemma rel_path_ok_parts: "rel_path_ok r \<Longrightarrow> path_parts r = split_on CHR ''/'' r"
proof -
  assume r: "rel_path_ok r"
  then have ne: "[] \<notin> set (split_on CHR ''/'' r)" and b: "backslash \<notin> set r"
    by (auto simp: rel_path_ok_def list_all_iff)
  from b have "replace_char backslash CHR ''/'' r = r"
    by (auto simp: replace_char_def intro!: map_idI)
  moreover have "strip_char CHR ''/'' r = r"
    unfolding strip_char_def by (rule strip_by_id) (use hd_split_sep[OF ne] last_split_sep[OF ne] in simp)
  ultimately show ?thesis by (simp add: path_parts_def)
qed

lemma normalize_rel_path_id:
  assumes "rel_path_ok r" "\<not> re_match WINDOWS_ABSOLUTE r"
  shows "normalize_relative_path r = Some r"
proof -
  let ?ps = "split_on CHR ''/'' r"
  have ps: "\<forall>p\<in>set ?ps. p \<noteq> [] \<and> p \<noteq> ''.'' \<and> p \<noteq> ''..''"
    using assms(1) by (simp add: rel_path_ok_def list_all_iff)
  then have k: "filter (\<lambda>p. p \<noteq> ''.'') ?ps = ?ps" by (meson filter_True)
  have "[] \<notin> set ?ps" "''..'' \<notin> set ?ps" using ps by blast+
  then show ?thesis
    using assms(2) unfolding normalize_reference rel_path_ok_parts[OF assms(1)] k Let_def
    by (simp only: split_on_ne join_split simp_thms if_False)
qed

text \<open>\<open>normalize_relative_path\<close> is the function on components it stands for: after backslashes
  became slashes and outer slashes went, it keeps all components but the single dots, and refuses
  Windows drive paths, empty components, double dots and what has no component left. What it
  accepts names something below the directory it is joined to, and is accepted again unchanged
  unless it reads as a drive path.\<close>

theorem normalize_relative_path_correct:
  "normalize_relative_path path =
    (let parts = split_on CHR ''/'' (strip_char CHR ''/'' (replace_char backslash CHR ''/'' path));
         kept = filter (\<lambda>p. p \<noteq> ''.'') parts
     in if re_match WINDOWS_ABSOLUTE path \<or> [] \<in> set parts \<or> ''..'' \<in> set parts \<or> kept = [] then None
        else Some (join_with ''/'' kept))
   \<and> (case normalize_relative_path path of None \<Rightarrow> True
      | Some r \<Rightarrow> rel_path_ok r \<and> (re_match WINDOWS_ABSOLUTE r \<or> normalize_relative_path r = Some r))"
proof (rule conjI)
  show "normalize_relative_path path =
    (let parts = split_on CHR ''/'' (strip_char CHR ''/'' (replace_char backslash CHR ''/'' path));
         kept = filter (\<lambda>p. p \<noteq> ''.'') parts
     in if re_match WINDOWS_ABSOLUTE path \<or> [] \<in> set parts \<or> ''..'' \<in> set parts \<or> kept = [] then None
        else Some (join_with ''/'' kept))"
    unfolding normalize_reference path_parts_def Let_def by (rule refl)
  show "case normalize_relative_path path of None \<Rightarrow> True
      | Some r \<Rightarrow> rel_path_ok r \<and> (re_match WINDOWS_ABSOLUTE r \<or> normalize_relative_path r = Some r)"
    using normalize_rel_path_ok[of path] normalize_rel_path_id by (auto split: option.split)
qed

theorem normalize_relative_path_correct_witness:
  "normalize_relative_path ''/a/./b.js'' = Some ''a/b.js'' \<and> normalize_relative_path ''a/../b'' = None
   \<and> rel_path_ok ''a/b.js''"
proof -
  have e: "normalize_relative_path ''/a/./b.js'' = Some ''a/b.js''"
    "normalize_relative_path ''a/../b'' = None" by code_simp+
  then show ?thesis
    using conjunct2[OF normalize_relative_path_correct[of "''/a/./b.js''"]] unfolding e by simp
qed

lemma validate_serve_path_Inl: "validate_serve_path raw = Inl e \<Longrightarrow> e = Http404"
  by (auto simp: validate_serve_path_def split: if_splits option.splits)

lemma validate_serve_path_Inr:
  "validate_serve_path raw = Inr rel \<Longrightarrow>
   rel = [] \<or> rel_path_ok rel \<and> normalize_relative_path (unquote raw) = Some rel"
  by (auto simp: validate_serve_path_def normalize_rel_path_ok split: if_splits option.splits)

text \<open>For every request path the serve path is the site root or a path strictly below the
  extracted directory (no empty, dot or dot-dot component, no backslash), whatever is percent-encoded
  in it; the only other answer is 404, and a path with a dot-dot anywhere, or with a component that
  decodes to dot-dot, always gets it.\<close>

theorem validate_serve_path_safe:
  "(case validate_serve_path raw of Inr rel \<Rightarrow> rel = [] \<or> rel_path_ok rel | Inl e \<Rightarrow> e = Http404)
   \<and> (strip_char CHR ''/'' raw \<noteq> [] \<and>
      (contains raw ''..'' \<or> ''..'' \<in> set (map unquote (split_on CHR ''/'' (replace_char backslash CHR ''/'' raw))))
      \<longrightarrow> validate_serve_path raw = Inl Http404)"
proof (intro conjI impI)
  show "case validate_serve_path raw of Inr rel \<Rightarrow> rel = [] \<or> rel_path_ok rel | Inl e \<Rightarrow> e = Http404"
    using validate_serve_path_Inl validate_serve_path_Inr by (auto split: sum.split)
  assume a: "strip_char CHR ''/'' raw \<noteq> [] \<and>
      (contains raw ''..'' \<or> ''..'' \<in> set (map unquote (split_on CHR ''/'' (replace_char backslash CHR ''/'' raw))))"
  have "raw_path_has_traversal raw"
  proof (cases "contains raw ''..''")
    case False
    with a obtain w where w: "w \<in> set (split_on CHR ''/'' (replace_char backslash CHR ''/'' raw))"
        "unquote w = ''..''" by auto
    then have "w \<noteq> []" by (metis list.distinct(1) unquote.simps(2))
    with w have "list_ex (\<lambda>segment. segment \<noteq> [] \<and> unquote segment = ''..'')
        (split_on CHR ''/'' (replace_char backslash CHR ''/'' raw))"
      unfolding list_ex_iff by blast
    then show ?thesis unfolding raw_path_has_traversal_def by (simp only: if_True split: if_split) simp
  qed (simp add: raw_path_has_traversal_def)
  with a show "validate_serve_path raw = Inl Http404" by (simp add: validate_serve_path_def)
qed

theorem validate_serve_path_safe_witness:
  "validate_serve_path ''/a/%2E%2e/secret'' = Inl Http404 \<and> validate_serve_path ''/docs/'' = Inr ''docs''"
proof -
  have "strip_char CHR ''/'' ''/a/%2E%2e/secret'' \<noteq> []"
    "''..'' \<in> set (map unquote (split_on CHR ''/'' (replace_char backslash CHR ''/'' ''/a/%2E%2e/secret'')))"
    by code_simp+
  moreover have "validate_serve_path ''/docs/'' = Inr ''docs''" by code_simp
  ultimately show ?thesis
    using validate_serve_path_safe[of "''/a/%2E%2e/secret''"] by blast
qed

end
