(* ===== verification/Storage.thy ===== *)
theory Storage
  imports Paths Settings
begin

text \<open>
  Artifact storage: \<^verbatim>\<open>apps/hosting/storage.py\<close>. The storage backend is the flat store of
  its objects (key and bytes), which is what S3 holds and what a file system holds below
  the storage root; \<open>object_store\<close> is the interface the service uses. Deletion of a
  subtree is one step on the file system and a recursive listing on S3. The lemmas give
  the exact effect of both, and show that the S3 recursion of
  \<^verbatim>\<open>delete_extracted_prefix\<close> misses the files of subdirectories.
\<close>

type_synonym files = "(string \<times> string) list"

section \<open>The interface of a store\<close>

locale object_store =
  fixes get :: "'s \<Rightarrow> string \<Rightarrow> string option"
    and put :: "string \<Rightarrow> string \<Rightarrow> 's \<Rightarrow> 's"
    and del :: "string \<Rightarrow> 's \<Rightarrow> 's"
  assumes get_put: "get (put k v s) l = (if l = k then Some v else get s l)"
    and get_del: "get (del k s) l = (if l = k then None else get s l)"
begin

definition put_all :: "(string \<times> string) list \<Rightarrow> 's \<Rightarrow> 's" where
  "put_all kvs s = foldl (\<lambda>s (k, v). put k v s) s kvs"

definition del_all :: "string list \<Rightarrow> 's \<Rightarrow> 's" where
  "del_all ks s = foldl (\<lambda>s k. del k s) s ks"

lemma get_put_all: "get (put_all kvs s) l = (case map_of (rev kvs) l of Some v \<Rightarrow> Some v | None \<Rightarrow> get s l)"
  by (induction kvs arbitrary: s rule: rev_induct) (auto simp: put_all_def get_put)

lemma get_put_all_frame: "l \<notin> fst ` set kvs \<Longrightarrow> get (put_all kvs s) l = get s l"
proof -
  assume "l \<notin> fst ` set kvs"
  then have "map_of (rev kvs) l = None" by (simp add: map_of_eq_None_iff)
  then show ?thesis by (simp add: get_put_all)
qed

lemma get_del_all: "get (del_all ks s) l = (if l \<in> set ks then None else get s l)"
  by (induction ks arbitrary: s rule: rev_induct) (auto simp: del_all_def get_del)

lemma replace_get: "get (put k v (del k s)) l = (if l = k then Some v else get s l)"
  by (simp add: get_put get_del)

end

section \<open>The backend\<close>

definition storage_get :: "files \<Rightarrow> string \<Rightarrow> string option" where
  "storage_get fs key = map_of fs key"

definition storage_exists :: "files \<Rightarrow> string \<Rightarrow> bool" where
  "storage_exists fs key = (storage_get fs key \<noteq> None)"

definition storage_delete :: "string \<Rightarrow> files \<Rightarrow> files" where
  "storage_delete key fs = filter (\<lambda>(k, _). k \<noteq> key) fs"

definition storage_save :: "string \<Rightarrow> string \<Rightarrow> files \<Rightarrow> files" where
  "storage_save key data fs = (key, data) # storage_delete key fs"

lemma storage_get_delete: "storage_get (storage_delete k fs) l = (if l = k then None else storage_get fs l)"
  by (induction fs) (auto simp: storage_get_def storage_delete_def)

lemma storage_get_save: "storage_get (storage_save k v fs) l = (if l = k then Some v else storage_get fs l)"
  using storage_get_delete[of k fs l] by (auto simp: storage_get_def storage_save_def)

interpretation st: object_store storage_get storage_save storage_delete
  by unfold_locales (rule storage_get_save storage_get_delete)+

text \<open>
  \<^verbatim>\<open>listdir(path)\<close> of the S3 storage: the names of the objects directly below the path and
  of the next components of the deeper ones.
\<close>

definition below :: "string \<Rightarrow> files \<Rightarrow> string list" where
  "below path fs =
     filter (\<lambda>rest. rest \<noteq> [])
       (map (\<lambda>(k, _). drop (length path + 1) k) (filter (\<lambda>(k, _). startswith k (path @ ''/'')) fs))"

definition listdir :: "string \<Rightarrow> files \<Rightarrow> string list \<times> string list" where
  "listdir path fs =
     (remdups (map (before_first CHR ''/'') (filter (\<lambda>rest. CHR ''/'' \<in> set rest) (below path fs))),
      filter (\<lambda>rest. CHR ''/'' \<notin> set rest) (below path fs))"

section \<open>storage.py\<close>

definition is_s3_backend :: "settings \<Rightarrow> bool" where
  "is_s3_backend cfg = (HOSTING_BACKEND cfg = ''s3'')"

definition build_storage_key :: "settings \<Rightarrow> string \<Rightarrow> string" where
  "build_storage_key cfg relative =
     (let prefix = strip_char CHR ''/'' (strip (HOSTING_KEY_PREFIX cfg));
          rel = strip_char CHR ''/'' (strip relative)
      in if prefix \<noteq> [] then prefix @ ''/'' @ rel else rel)"

definition artifact_key :: "settings \<Rightarrow> string \<Rightarrow> string" where
  "artifact_key cfg storage_prefix = build_storage_key cfg (storage_prefix @ ''artifact.tar.gz'')"

definition extracted_prefix :: "string \<Rightarrow> string" where
  "extracted_prefix storage_prefix = rstrip_char CHR ''/'' storage_prefix @ ''/extracted/''"

definition extracted_file_key :: "settings \<Rightarrow> string \<Rightarrow> string \<Rightarrow> string" where
  "extracted_file_key cfg storage_prefix relative_path =
     build_storage_key cfg (extracted_prefix storage_prefix @ lstrip_char CHR ''/'' relative_path)"

text \<open>Removing a directory of the file system removes every object below it.\<close>

definition delete_filesystem_tree :: "string \<Rightarrow> files \<Rightarrow> files" where
  "delete_filesystem_tree normalized_key fs =
     filter (\<lambda>(k, _). \<not> startswith k (normalized_key @ ''/'')) fs"

text \<open>
  The two recursions over \<^verbatim>\<open>listdir\<close>. The fuel bounds the depth of the recursion; where
  Python runs out of stack, the handler \<^verbatim>\<open>except Exception: return\<close> ends the call as the
  first equation does.
\<close>

fun delete_extracted_s3 :: "nat \<Rightarrow> settings \<Rightarrow> string \<Rightarrow> files \<Rightarrow> files" where
  "delete_extracted_s3 0 cfg storage_prefix fs = fs"
| "delete_extracted_s3 (Suc n) cfg storage_prefix fs =
     (let normalized = build_storage_key cfg (extracted_prefix storage_prefix);
          (dirs, names) = listdir normalized fs;
          fs1 = foldl (\<lambda>fs name. storage_delete (normalized @ ''/'' @ name) fs) fs names
      in foldl (\<lambda>fs name. delete_extracted_s3 n cfg
                  (rstrip_char CHR ''/'' storage_prefix @ ''/extracted/'' @ name) fs) fs1 dirs)"

fun delete_artifact_s3 :: "nat \<Rightarrow> settings \<Rightarrow> string \<Rightarrow> files \<Rightarrow> files" where
  "delete_artifact_s3 0 cfg pfx fs = fs"
| "delete_artifact_s3 (Suc n) cfg pfx fs =
     (let normalized = build_storage_key cfg pfx;
          (dirs, names) = listdir normalized fs;
          fs1 = foldl (\<lambda>fs name. storage_delete (normalized @ ''/'' @ name) fs) fs names
      in foldl (\<lambda>fs name. delete_artifact_s3 n cfg (rstrip_char CHR ''/'' pfx @ ''/'' @ name) fs) fs1 dirs)"

definition depth_fuel :: "files \<Rightarrow> nat" where
  "depth_fuel fs = foldr (\<lambda>(k, _) m. max (length k) m) fs 1"

definition delete_extracted_prefix :: "settings \<Rightarrow> string \<Rightarrow> files \<Rightarrow> files" where
  "delete_extracted_prefix cfg storage_prefix fs =
     (if \<not> is_s3_backend cfg
      then delete_filesystem_tree (build_storage_key cfg (extracted_prefix storage_prefix)) fs
      else delete_extracted_s3 (depth_fuel fs) cfg storage_prefix fs)"

definition delete_artifact_prefix :: "settings \<Rightarrow> string \<Rightarrow> files \<Rightarrow> files" where
  "delete_artifact_prefix cfg pfx fs =
     (if \<not> is_s3_backend cfg then fs else delete_artifact_s3 (depth_fuel fs) cfg pfx fs)"

text \<open>
  Opening a missing object, or a directory of the file system, is None; \<^verbatim>\<open>open\<close> on a name with a
  zero byte raises \<^verbatim>\<open>ValueError\<close>, which is no \<^verbatim>\<open>OSError\<close>. \<^verbatim>\<open>exists\<close> is also true for a directory.
\<close>

definition NUL :: char where
  "NUL = char_of (0 :: nat)"

definition open_extracted_file :: "settings \<Rightarrow> string \<Rightarrow> string \<Rightarrow> files \<Rightarrow> exn + string option" where
  "open_extracted_file cfg storage_prefix relative_path fs =
     (let key = extracted_file_key cfg storage_prefix relative_path
      in if \<not> is_s3_backend cfg \<and> NUL \<in> set key then Inl Value_Error else Inr (storage_get fs key))"

definition extracted_index_exists :: "settings \<Rightarrow> string \<Rightarrow> files \<Rightarrow> bool" where
  "extracted_index_exists cfg storage_prefix fs =
     (let key = extracted_file_key cfg storage_prefix ''index.html''
      in storage_exists fs key \<or> (\<not> is_s3_backend cfg \<and> below key fs \<noteq> []))"

text \<open>
  A stream is the list of what its successive \<^verbatim>\<open>read\<close> calls return; an empty chunk ends it.
  The result is the number of bytes and the bytes, or None once there are too many.
\<close>

fun read_limited :: "int \<Rightarrow> int \<Rightarrow> string \<Rightarrow> string list \<Rightarrow> (int \<times> string) option" where
  "read_limited max_bytes sofar acc [] = Some (sofar, acc)"
| "read_limited max_bytes sofar acc (chunk # chunks) =
     (if chunk = [] then Some (sofar, acc)
      else let sofar' = sofar + int (length chunk)
           in if sofar' > max_bytes then None else read_limited max_bytes sofar' (acc @ chunk) chunks)"

definition save_artifact :: "string \<Rightarrow> string list \<Rightarrow> int \<Rightarrow> files \<Rightarrow> exn + (int \<times> files)" where
  "save_artifact key fileobj max_bytes fs =
     (case read_limited max_bytes 0 [] fileobj of
        None \<Rightarrow> Inl Artifact_Too_Large
      | Some (nbytes, data) \<Rightarrow>
          Inr (nbytes, storage_save key data (if storage_exists fs key then storage_delete key fs else fs)))"

section \<open>Reading with a limit\<close>

definition stream_data :: "string list \<Rightarrow> string" where
  "stream_data chunks = concat (takeWhile (\<lambda>c. c \<noteq> []) chunks)"

lemma read_limited_Some:
  "read_limited m sz acc chunks = Some (n, data) \<Longrightarrow>
   n = sz + int (length (stream_data chunks)) \<and> data = acc @ stream_data chunks"
  by (induction m sz acc chunks rule: read_limited.induct)
    (auto simp: stream_data_def Let_def split: if_splits)

lemma read_limited_iff:
  "sz \<le> m \<Longrightarrow> read_limited m sz acc chunks \<noteq> None \<longleftrightarrow> sz + int (length (stream_data chunks)) \<le> m"
  by (induction m sz acc chunks rule: read_limited.induct)
    (auto simp: stream_data_def Let_def split: if_splits)

lemma read_limited_eq:
  assumes "0 \<le> m"
  shows "read_limited m 0 [] chunks =
    (if int (length (stream_data chunks)) \<le> m
     then Some (int (length (stream_data chunks)), stream_data chunks) else None)"
proof (cases "read_limited m 0 [] chunks")
  case None
  then show ?thesis using read_limited_iff[OF assms, of "[]" chunks] by auto
next
  case (Some p)
  then obtain n data where p: "read_limited m 0 [] chunks = Some (n, data)" by (cases p) auto
  then show ?thesis
    using read_limited_Some[OF p] read_limited_iff[OF assms, of "[]" chunks] by auto
qed

text \<open>Uploading stores exactly the bytes of the stream under the artifact key and reports their
  number when they are at most \<open>max_bytes\<close>, and otherwise fails without touching the storage;
  no other object changes.\<close>

theorem save_artifact_correct:
  assumes "0 \<le> max_bytes"
  shows "case save_artifact key fileobj max_bytes fs of
     Inl e \<Rightarrow> e = Artifact_Too_Large \<and> max_bytes < int (length (stream_data fileobj))
   | Inr (nbytes, fs') \<Rightarrow> nbytes = int (length (stream_data fileobj)) \<and> nbytes \<le> max_bytes
       \<and> storage_get fs' key = Some (stream_data fileobj)
       \<and> (\<forall>k. k \<noteq> key \<longrightarrow> storage_get fs' k = storage_get fs k)"
  unfolding save_artifact_def read_limited_eq[OF assms]
  by (auto simp: storage_get_save storage_get_delete)

theorem save_artifact_correct_witness:
  "save_artifact ''k'' [''ab'', ''c'', [], ''zz''] 3 [(''k'', ''old'')] = Inr (3, [(''k'', ''abc'')])
   \<and> save_artifact ''k'' [''ab'', ''cd''] 3 [] = Inl Artifact_Too_Large"
proof -
  have "save_artifact ''k'' [''ab'', ''c'', [], ''zz''] 3 [(''k'', ''old'')] = Inr (3, [(''k'', ''abc'')])"
    by code_simp
  moreover have "save_artifact ''k'' [''ab'', ''cd''] 3 [] = Inl Artifact_Too_Large"
  proof (cases "save_artifact ''k'' [''ab'', ''cd''] 3 []")
    case (Inl e)
    then show ?thesis using save_artifact_correct[where max_bytes = 3 and key = "''k''" and fileobj = "[''ab'', ''cd'']" and fs = "[]"] by simp
  next
    case (Inr p)
    then show ?thesis
      using save_artifact_correct[where max_bytes = 3 and key = "''k''" and fileobj = "[''ab'', ''cd'']" and fs = "[]"] by (auto simp: stream_data_def)
  qed
  ultimately show ?thesis by blast
qed

section \<open>Keys\<close>

definition key_of :: "settings \<Rightarrow> string \<Rightarrow> string" where
  "key_of cfg r =
     (let pre = strip_char CHR ''/'' (strip (HOSTING_KEY_PREFIX cfg))
      in if pre \<noteq> [] then pre @ ''/'' @ r else r)"

lemma build_storage_key_eq: "build_storage_key cfg rel = key_of cfg (strip_char CHR ''/'' (strip rel))"
  by (simp add: build_storage_key_def key_of_def Let_def)

lemma key_of_append [simp]: "key_of cfg (a @ b) = key_of cfg a @ b"
  by (simp add: key_of_def Let_def)

lemma key_of_inject [simp]: "key_of cfg a = key_of cfg b \<longleftrightarrow> a = b"
  by (simp add: key_of_def Let_def)

text \<open>A storage prefix that starts with a visible character, as every prefix the service makes.\<close>

definition prefix_ok :: "string \<Rightarrow> bool" where
  "prefix_ok sp \<longleftrightarrow> sp \<noteq> [] \<and> \<not> is_space (hd sp) \<and> hd sp \<noteq> CHR ''/''"

definition site_dir :: "settings \<Rightarrow> string \<Rightarrow> string" where
  "site_dir cfg sp = key_of cfg (rstrip_char CHR ''/'' sp @ ''/extracted'')"

lemma rstrip_by_append: "A \<noteq> [] \<Longrightarrow> \<not> p (last A) \<Longrightarrow> rstrip_by p (A @ w) = A @ rstrip_by p w"
proof -
  assume A: "A \<noteq> []" "\<not> p (last A)"
  have r: "dropWhile p (rev A) = rev A"
    using A by (cases A rule: rev_cases) auto
  show ?thesis
  proof (cases "\<exists>x\<in>set w. \<not> p x")
    case True
    then obtain x where "x \<in> set (rev w)" "\<not> p x" by auto
    then have "dropWhile p (rev w @ rev A) = dropWhile p (rev w) @ rev A" by (rule dropWhile_append1)
    then show ?thesis by (simp add: rstrip_by_def)
  next
    case False
    then have "dropWhile p (rev w) = []" by simp
    moreover have "dropWhile p (rev w @ rev A) = dropWhile p (rev A)"
      by (rule dropWhile_append2) (use False in auto)
    ultimately have "dropWhile p (rev w) = []" "dropWhile p (rev w @ rev A) = dropWhile p (rev A)" .
    then show ?thesis using r by (simp add: rstrip_by_def)
  qed
qed

lemma lstrip_by_id: "w \<noteq> [] \<Longrightarrow> \<not> p (hd w) \<Longrightarrow> lstrip_by p w = w"
  by (cases w) (auto simp: lstrip_by_def)

lemma strip_by_append:
  "A \<noteq> [] \<Longrightarrow> \<not> p (hd A) \<Longrightarrow> \<not> p (last A) \<Longrightarrow> strip_by p (A @ w) = A @ rstrip_by p w"
  by (simp add: strip_by_def lstrip_by_id rstrip_by_append)

lemma slash_not_space [simp]: "\<not> is_space CHR ''/''"
  by (simp add: char_class_defs)

lemma rstrip_prefix_hd: "prefix_ok sp \<Longrightarrow>
  rstrip_char CHR ''/'' sp \<noteq> [] \<and> hd (rstrip_char CHR ''/'' sp) = hd sp"
proof -
  assume sp: "prefix_ok sp"
  then obtain c v where c: "sp = [c] @ v" "c \<noteq> CHR ''/''"
    by (cases sp) (auto simp: prefix_ok_def)
  then have "rstrip_char CHR ''/'' sp = [c] @ rstrip_by (\<lambda>x. x = CHR ''/'') v"
    unfolding rstrip_char_def c(1) by (intro rstrip_by_append) auto
  then show ?thesis using c by simp
qed

lemma site_root_edges:
  assumes "prefix_ok sp"
  defines "A \<equiv> rstrip_char CHR ''/'' sp @ ''/extracted''"
  shows "A \<noteq> []" "\<not> is_space (hd A)" "hd A \<noteq> CHR ''/''" "\<not> is_space (last A)" "last A \<noteq> CHR ''/''"
proof -
  show "A \<noteq> []" by (simp add: A_def)
  have h: "hd A = hd sp" using rstrip_prefix_hd[OF assms(1)] by (simp add: A_def)
  then show "\<not> is_space (hd A)" "hd A \<noteq> CHR ''/''" using assms(1) by (simp_all add: prefix_ok_def)
  have "last A = CHR ''d''" by (simp add: A_def)
  then show "\<not> is_space (last A)" "last A \<noteq> CHR ''/''" by (simp_all add: char_class_defs)
qed

lemma site_key:
  assumes "prefix_ok sp"
  shows "build_storage_key cfg (extracted_prefix sp @ w)
    = site_dir cfg sp @ rstrip_char CHR ''/'' (rstrip_by is_space (CHR ''/'' # w))"
proof -
  let ?A = "rstrip_char CHR ''/'' sp @ ''/extracted''"
  note E = site_root_edges[OF assms]
  have "extracted_prefix sp @ w = ?A @ (CHR ''/'' # w)" by (simp add: extracted_prefix_def)
  then have "strip (extracted_prefix sp @ w) = ?A @ rstrip_by is_space (CHR ''/'' # w)"
    unfolding strip_def by (simp only:) (rule strip_by_append[OF E(1,2,4)])
  then have "strip_char CHR ''/'' (strip (extracted_prefix sp @ w))
      = ?A @ rstrip_by (\<lambda>x. x = CHR ''/'') (rstrip_by is_space (CHR ''/'' # w))"
    unfolding strip_char_def by (simp only:) (rule strip_by_append[OF E(1,3,5)])
  then show ?thesis
    unfolding build_storage_key_eq site_dir_def rstrip_char_def by (simp only: key_of_append append_assoc)
qed

lemma rstrip_slash_Nil: "rstrip_char CHR ''/'' (rstrip_by is_space ''/'') = []"
  by (simp add: rstrip_char_def rstrip_by_def)

lemma site_dir_key: "prefix_ok sp \<Longrightarrow> build_storage_key cfg (extracted_prefix sp) = site_dir cfg sp"
  using site_key[of sp cfg "[]"] rstrip_slash_Nil by simp

lemma rstrip_by_prefix: "\<exists>v. w = rstrip_by p w @ v"
proof -
  have "rev w = takeWhile p (rev w) @ dropWhile p (rev w)" by simp
  then have "w = rev (dropWhile p (rev w)) @ rev (takeWhile p (rev w))"
    by (metis rev_append rev_rev_ident)
  then show ?thesis unfolding rstrip_by_def by blast
qed

text \<open>Whatever the relative path, the key of a site file is the site directory or below it.\<close>

lemma site_key_within:
  assumes "prefix_ok sp"
  shows "\<exists>v. build_storage_key cfg (extracted_prefix sp @ w) = site_dir cfg sp @ v \<and> (v = [] \<or> hd v = CHR ''/'')"
proof -
  let ?v = "rstrip_char CHR ''/'' (rstrip_by is_space (CHR ''/'' # w))"
  obtain u where "CHR ''/'' # w = rstrip_by is_space (CHR ''/'' # w) @ u" using rstrip_by_prefix by blast
  moreover obtain u' where "rstrip_by is_space (CHR ''/'' # w) = ?v @ u'"
    unfolding rstrip_char_def using rstrip_by_prefix by blast
  ultimately have "CHR ''/'' # w = ?v @ u' @ u" by (metis append_assoc)
  then have "?v = [] \<or> hd ?v = CHR ''/''" by (cases ?v) auto
  then show ?thesis using site_key[OF assms] by blast
qed

lemma rel_path_ok_edges: "rel_path_ok r \<Longrightarrow> hd r \<noteq> CHR ''/'' \<and> last r \<noteq> CHR ''/''"
proof -
  assume "rel_path_ok r"
  then have "[] \<notin> set (split_on CHR ''/'' r)" by (auto simp: rel_path_ok_def list_all_iff)
  then show ?thesis using hd_split_sep last_split_sep by blast
qed

lemma rstrip_by_snoc_id: "w \<noteq> [] \<Longrightarrow> \<not> p (last w) \<Longrightarrow> rstrip_by p w = w"
  using rstrip_by_append[of w p "[]"] by (simp add: rstrip_by_def)

text \<open>For a relative path without trailing white space it is exactly the joined path.\<close>

lemma site_file_key:
  assumes "prefix_ok sp" "rel_path_ok rel" "\<not> is_space (last rel)"
  shows "extracted_file_key cfg sp rel = site_dir cfg sp @ ''/'' @ rel"
    and "build_storage_key cfg (extracted_prefix sp @ rel) = site_dir cfg sp @ ''/'' @ rel"
proof -
  have ne: "rel \<noteq> []" by (rule rel_path_ok_ne[OF assms(2)])
  note E = rel_path_ok_edges[OF assms(2)]
  have "rstrip_by is_space (CHR ''/'' # rel) = CHR ''/'' # rel"
    by (rule rstrip_by_snoc_id) (use ne assms(3) in simp_all)
  moreover have "rstrip_char CHR ''/'' (CHR ''/'' # rel) = CHR ''/'' # rel"
    unfolding rstrip_char_def by (rule rstrip_by_snoc_id) (use ne E in simp_all)
  ultimately show k: "build_storage_key cfg (extracted_prefix sp @ rel) = site_dir cfg sp @ ''/'' @ rel"
    using site_key[OF assms(1)] by simp
  have "lstrip_char CHR ''/'' rel = rel"
    unfolding lstrip_char_def by (rule lstrip_by_id[OF ne]) (use E in simp)
  then show "extracted_file_key cfg sp rel = site_dir cfg sp @ ''/'' @ rel"
    unfolding extracted_file_key_def using k by simp
qed

section \<open>Deleting subtrees\<close>

lemma storage_get_tree:
  "storage_get (delete_filesystem_tree n fs) k = (if startswith k (n @ ''/'') then None else storage_get fs k)"
  by (induction fs) (auto simp: delete_filesystem_tree_def storage_get_def)

lemma storage_get_None: "storage_get fs k = None \<longleftrightarrow> k \<notin> fst ` set fs"
  by (simp add: storage_get_def map_of_eq_None_iff)

lemma below_mem: "rest \<in> set (below path fs) \<longleftrightarrow> rest \<noteq> [] \<and> storage_get fs (path @ ''/'' @ rest) \<noteq> None"
proof -
  have "rest \<in> set (below path fs) \<longleftrightarrow> rest \<noteq> [] \<and> path @ ''/'' @ rest \<in> fst ` set fs"
    unfolding below_def by (force simp: startswith_iff image_iff)
  then show ?thesis using storage_get_None[of fs "path @ ''/'' @ rest"] by simp
qed

lemma before_first_split:
  "c \<in> set s \<Longrightarrow> s = before_first c s @ c # tl (dropWhile (\<lambda>x. x \<noteq> c) s)"
  by (induction s) (auto simp: before_first_def)

lemma takeWhile_stop_sep: "c \<notin> set u \<Longrightarrow> takeWhile (\<lambda>x. x \<noteq> c) (u @ c # v) = u"
  by (induction u) auto

lemma listdir_names: "name \<in> set (snd (listdir path fs)) \<longleftrightarrow>
   name \<noteq> [] \<and> CHR ''/'' \<notin> set name \<and> storage_get fs (path @ ''/'' @ name) \<noteq> None"
  by (auto simp: listdir_def below_mem)

lemma listdir_dirs: "name \<in> set (fst (listdir path fs)) \<longleftrightarrow>
   CHR ''/'' \<notin> set name \<and> (\<exists>rest. storage_get fs (path @ ''/'' @ name @ ''/'' @ rest) \<noteq> None)"
proof
  assume "name \<in> set (fst (listdir path fs))"
  then have "name \<in> before_first CHR ''/'' ` {r \<in> set (below path fs). CHR ''/'' \<in> set r}"
    by (simp add: listdir_def)
  then obtain rest where r: "rest \<in> set (below path fs)" "CHR ''/'' \<in> set rest"
      "name = before_first CHR ''/'' rest"
    by (elim imageE CollectE conjE)
  then obtain v where v: "rest = name @ CHR ''/'' # v" using before_first_split by blast
  have "storage_get fs (path @ ''/'' @ rest) \<noteq> None" using r(1) unfolding below_mem by blast
  then have "storage_get fs (path @ ''/'' @ name @ ''/'' @ v) \<noteq> None" unfolding v by simp
  moreover have "CHR ''/'' \<notin> set name"
    unfolding r(3) before_first_def by (blast dest: set_takeWhileD)
  ultimately show "CHR ''/'' \<notin> set name \<and> (\<exists>rest. storage_get fs (path @ ''/'' @ name @ ''/'' @ rest) \<noteq> None)"
    by blast
next
  assume a: "CHR ''/'' \<notin> set name \<and> (\<exists>rest. storage_get fs (path @ ''/'' @ name @ ''/'' @ rest) \<noteq> None)"
  then obtain rest where "storage_get fs (path @ ''/'' @ name @ ''/'' @ rest) \<noteq> None" by blast
  then have m: "name @ ''/'' @ rest \<in> set (below path fs)" by (simp add: below_mem)
  have b: "before_first CHR ''/'' (name @ ''/'' @ rest) = name"
    unfolding before_first_def append_Cons append_Nil by (rule takeWhile_stop_sep) (use a in blast)
  have "name @ ''/'' @ rest \<in> {r \<in> set (below path fs). CHR ''/'' \<in> set r}" using m by simp
  then have "before_first CHR ''/'' (name @ ''/'' @ rest)
      \<in> before_first CHR ''/'' ` {r \<in> set (below path fs). CHR ''/'' \<in> set r}" by (rule imageI)
  then have "name \<in> before_first CHR ''/'' ` {r \<in> set (below path fs). CHR ''/'' \<in> set r}" unfolding b .
  then show "name \<in> set (fst (listdir path fs))"
    unfolding listdir_def fst_conv set_remdups set_map set_filter .
qed

lemma get_delete_names:
  "storage_get (foldl (\<lambda>fs name. storage_delete (path @ CHR ''/'' # name) fs) fs names) k
     = (if \<exists>n\<in>set names. k = path @ CHR ''/'' # n then None else storage_get fs k)"
  by (induction names arbitrary: fs) (auto simp: storage_get_delete)

lemma get_foldl_frame:
  "(\<And>name fs. name \<in> set names \<Longrightarrow> storage_get (f fs name) k = storage_get fs k) \<Longrightarrow>
   storage_get (foldl f fs names) k = storage_get fs k"
  by (induction names arbitrary: fs) auto

lemma prefix_ok_sub:
  "prefix_ok sp \<Longrightarrow> prefix_ok (rstrip_char CHR ''/'' sp @ v)"
  using rstrip_prefix_hd[of sp] by (auto simp: prefix_ok_def)

lemma rstrip_sub:
  assumes "prefix_ok sp" "CHR ''/'' \<notin> set name"
  defines "A \<equiv> rstrip_char CHR ''/'' sp @ ''/extracted''"
  shows "rstrip_char CHR ''/'' (A @ ''/'' @ name) = (if name = [] then A else A @ ''/'' @ name)"
proof (cases "name = []")
  case True
  have "rstrip_char CHR ''/'' (A @ ''/'') = A @ rstrip_by (\<lambda>x. x = CHR ''/'') ''/''"
    unfolding rstrip_char_def A_def using site_root_edges[OF assms(1)] by (intro rstrip_by_append) auto
  then show ?thesis using True by (simp add: rstrip_by_def)
next
  case False
  then have "last name \<noteq> CHR ''/''" using assms(2) last_in_set[OF False] by metis
  then have "last (A @ ''/'' @ name) \<noteq> CHR ''/''" using False by simp
  then show ?thesis using False unfolding rstrip_char_def by (simp add: rstrip_by_snoc_id)
qed

lemma site_dir_sub:
  assumes "prefix_ok sp" "CHR ''/'' \<notin> set name"
  shows "site_dir cfg (rstrip_char CHR ''/'' sp @ ''/extracted/'' @ name) =
    site_dir cfg sp @ ''/'' @ (if name = [] then ''extracted'' else name @ ''/extracted'')"
  using rstrip_sub[OF assms] by (auto simp: site_dir_def)

lemma delete_extracted_s3_only:
  "prefix_ok sp \<Longrightarrow> \<nexists>w. k = site_dir cfg sp @ ''/'' @ w \<Longrightarrow>
   storage_get (delete_extracted_s3 n cfg sp fs) k = storage_get fs k"
proof (induction n arbitrary: sp fs)
  case 0
  then show ?case by simp
next
  case (Suc n)
  let ?N = "site_dir cfg sp"
  have top: "storage_get (foldl (\<lambda>fs name. storage_delete (?N @ ''/'' @ name) fs) fs names) k = storage_get fs k"
    for names fs using Suc.prems(2) by (simp add: get_delete_names)
  have "storage_get (foldl (\<lambda>fs name. delete_extracted_s3 n cfg
          (rstrip_char CHR ''/'' sp @ ''/extracted/'' @ name) fs) fs1 (fst (listdir ?N fs))) k = storage_get fs1 k" for fs1
  proof (rule get_foldl_frame)
    fix name fs2
    assume "name \<in> set (fst (listdir ?N fs))"
    then have no: "CHR ''/'' \<notin> set name" by (simp add: listdir_dirs)
    show "storage_get (delete_extracted_s3 n cfg (rstrip_char CHR ''/'' sp @ ''/extracted/'' @ name) fs2) k
        = storage_get fs2 k"
    proof (rule Suc.IH)
      show "prefix_ok (rstrip_char CHR ''/'' sp @ ''/extracted/'' @ name)"
        by (rule prefix_ok_sub[OF Suc.prems(1)])
      show "\<nexists>w. k = site_dir cfg (rstrip_char CHR ''/'' sp @ ''/extracted/'' @ name) @ ''/'' @ w"
        unfolding site_dir_sub[OF Suc.prems(1) no] using Suc.prems(2) by (metis append_assoc)
    qed
  qed
  then show ?case
    using top by (simp add: site_dir_key[OF Suc.prems(1)] Let_def case_prod_beta)
qed

lemma split_eq_components:
  "c \<notin> set a \<Longrightarrow> c \<notin> set b \<Longrightarrow> a @ c # u = b @ c # v \<longleftrightarrow> a = b \<and> u = v"
  by (auto simp: append_eq_append_conv2 append_eq_Cons_conv Cons_eq_append_conv)

text \<open>Cleaning the extracted site of a deployment. On the file system every object below the site
  directory goes and nothing else changes. On S3 the recursion into a subdirectory looks below
  another extracted/ component, so every file of a subdirectory of the site survives.\<close>

theorem delete_extracted_prefix_effect:
  assumes "prefix_ok sp"
  shows "(\<not> is_s3_backend cfg \<longrightarrow> storage_get (delete_extracted_prefix cfg sp fs) k =
            (if startswith k (site_dir cfg sp @ ''/'') then None else storage_get fs k))
    \<and> (is_s3_backend cfg \<and> dir \<notin> set [[], ''extracted''] \<and> CHR ''/'' \<notin> set dir
          \<and> \<not> startswith rest ''extracted/'' \<longrightarrow>
        storage_get (delete_extracted_prefix cfg sp fs) (site_dir cfg sp @ ''/'' @ dir @ ''/'' @ rest)
          = storage_get fs (site_dir cfg sp @ ''/'' @ dir @ ''/'' @ rest))"
proof (intro conjI impI)
  assume "\<not> is_s3_backend cfg"
  then show "storage_get (delete_extracted_prefix cfg sp fs) k =
            (if startswith k (site_dir cfg sp @ ''/'') then None else storage_get fs k)"
    by (simp add: delete_extracted_prefix_def site_dir_key[OF assms] storage_get_tree)
next
  let ?N = "site_dir cfg sp" and ?k = "site_dir cfg sp @ ''/'' @ dir @ ''/'' @ rest"
  assume a: "is_s3_backend cfg \<and> dir \<notin> set [[], ''extracted''] \<and> CHR ''/'' \<notin> set dir
      \<and> \<not> startswith rest ''extracted/''"
  have "storage_get (delete_extracted_s3 n cfg sp fs) ?k = storage_get fs ?k" for n
  proof (cases n)
    case (Suc m)
    have top: "storage_get (foldl (\<lambda>fs name. storage_delete (?N @ ''/'' @ name) fs) fs (snd (listdir ?N fs))) ?k
        = storage_get fs ?k"
      using a by (auto simp: get_delete_names listdir_names)
    have "storage_get (foldl (\<lambda>fs name. delete_extracted_s3 m cfg
          (rstrip_char CHR ''/'' sp @ ''/extracted/'' @ name) fs) fs1 (fst (listdir ?N fs))) ?k = storage_get fs1 ?k" for fs1
    proof (rule get_foldl_frame)
      fix name fs2
      assume "name \<in> set (fst (listdir ?N fs))"
      then have no: "CHR ''/'' \<notin> set name" by (simp add: listdir_dirs)
      show "storage_get (delete_extracted_s3 m cfg (rstrip_char CHR ''/'' sp @ ''/extracted/'' @ name) fs2) ?k
        = storage_get fs2 ?k"
      proof (rule delete_extracted_s3_only[OF prefix_ok_sub[OF assms]])
        show "\<nexists>w. ?k = site_dir cfg (rstrip_char CHR ''/'' sp @ ''/extracted/'' @ name) @ ''/'' @ w"
        proof (rule notI, elim exE)
          fix w
          assume "?k = site_dir cfg (rstrip_char CHR ''/'' sp @ ''/extracted/'' @ name) @ ''/'' @ w"
          then have "dir @ CHR ''/'' # rest = (if name = [] then ''extracted'' else name @ ''/extracted'') @ ''/'' @ w"
            unfolding site_dir_sub[OF assms no] by simp
          then show False
            using a no split_eq_components[of "CHR ''/''" dir name rest "''extracted/'' @ w"]
              split_eq_components[of "CHR ''/''" dir "''extracted''" rest w]
            by (auto simp: startswith_iff split: if_splits)
        qed
      qed
    qed
    then show ?thesis
      using top Suc by (simp add: site_dir_key[OF assms] Let_def case_prod_beta)
  qed simp
  then show "storage_get (delete_extracted_prefix cfg sp fs) ?k = storage_get fs ?k"
    using a by (simp add: delete_extracted_prefix_def)
qed

theorem delete_extracted_prefix_effect_witness:
  "let cfg = default_settings\<lparr>HOSTING_BACKEND := ''s3''\<rparr>;
       key = ''hosting/a/deployments/d/extracted/assets/app.js''
   in storage_get (delete_extracted_prefix cfg ''a/deployments/d/'' [(key, ''x'')]) key = Some ''x''"
proof -
  let ?cfg = "default_settings\<lparr>HOSTING_BACKEND := ''s3''\<rparr>"
  have p: "prefix_ok ''a/deployments/d/''" by code_simp
  have c: "is_s3_backend ?cfg \<and> ''assets'' \<notin> set [[], ''extracted''] \<and> CHR ''/'' \<notin> set ''assets''
      \<and> \<not> startswith ''app.js'' ''extracted/''" by code_simp
  have s: "site_dir ?cfg ''a/deployments/d/'' = ''hosting/a/deployments/d/extracted''" by code_simp
  show ?thesis
    unfolding Let_def
    using conjunct2[OF delete_extracted_prefix_effect[OF p, where cfg = ?cfg and dir = "''assets''"
        and rest = "''app.js''" and fs = "[(''hosting/a/deployments/d/extracted/assets/app.js'', ''x'')]"]] c
    unfolding s by (simp add: storage_get_def)
qed

text \<open>
  The recursion of \<^verbatim>\<open>delete_artifact_prefix\<close> reaches every object below the prefix when the
  components below it are not empty and hold no white space.
\<close>

definition plain_below :: "string \<Rightarrow> nat \<Rightarrow> files \<Rightarrow> bool" where
  "plain_below N n fs \<longleftrightarrow>
     (\<forall>rest. storage_get fs (N @ CHR ''/'' # rest) \<noteq> None \<longrightarrow>
        (\<forall>c\<in>set rest. \<not> is_space c) \<and> [] \<notin> set (split_on CHR ''/'' rest) \<and> length rest < n)"

lemma plain_below_subset:
  "plain_below N n fs \<Longrightarrow> (\<And>k. storage_get fs' k \<noteq> None \<Longrightarrow> storage_get fs k \<noteq> None) \<Longrightarrow> plain_below N n fs'"
  unfolding plain_below_def by blast

lemma plain_below_sub:
  assumes "plain_below N (Suc n) fs" "CHR ''/'' \<notin> set name" "name \<noteq> []"
  shows "plain_below (N @ CHR ''/'' # name) n fs"
proof -
  have "(\<forall>c\<in>set rest. \<not> is_space c) \<and> [] \<notin> set (split_on CHR ''/'' rest) \<and> length rest < n"
    if g: "storage_get fs ((N @ CHR ''/'' # name) @ CHR ''/'' # rest) \<noteq> None" for rest
  proof -
    have "storage_get fs (N @ CHR ''/'' # (name @ CHR ''/'' # rest)) \<noteq> None" using g by simp
    then show ?thesis
      using assms(1) split_on_append[OF assms(2)] unfolding plain_below_def by fastforce
  qed
  then show ?thesis unfolding plain_below_def by blast
qed

definition plain_prefix :: "string \<Rightarrow> bool" where
  "plain_prefix sp \<longleftrightarrow> prefix_ok sp \<and> (\<forall>c\<in>set sp. \<not> is_space c)"

lemma set_rstrip_by: "set (rstrip_by p w) \<subseteq> set w"
  unfolding rstrip_by_def by (auto dest: set_dropWhileD)

lemma plain_prefix_key:
  "plain_prefix sp \<Longrightarrow> build_storage_key cfg sp = key_of cfg (rstrip_char CHR ''/'' sp)"
proof -
  assume p: "plain_prefix sp"
  then have "strip sp = sp" by (intro strip_no_space) (simp add: plain_prefix_def)
  moreover have "lstrip_by (\<lambda>x. x = CHR ''/'') sp = sp"
    by (rule lstrip_by_id) (use p in \<open>auto simp: plain_prefix_def prefix_ok_def\<close>)
  ultimately show ?thesis
    by (simp add: build_storage_key_eq strip_char_def strip_by_def rstrip_char_def)
qed

lemma plain_prefix_sub:
  assumes "plain_prefix sp" "CHR ''/'' \<notin> set name" "name \<noteq> []" "\<forall>c\<in>set name. \<not> is_space c"
  shows "plain_prefix (rstrip_char CHR ''/'' sp @ CHR ''/'' # name)"
    and "rstrip_char CHR ''/'' (rstrip_char CHR ''/'' sp @ CHR ''/'' # name) = rstrip_char CHR ''/'' sp @ CHR ''/'' # name"
proof -
  show "plain_prefix (rstrip_char CHR ''/'' sp @ CHR ''/'' # name)"
    using assms prefix_ok_sub[of sp] set_rstrip_by[of _ sp] slash_not_space
    unfolding plain_prefix_def rstrip_char_def by fastforce
  have "last name \<noteq> CHR ''/''" using assms(2) last_in_set[OF assms(3)] by metis
  then have "last (rstrip_char CHR ''/'' sp @ CHR ''/'' # name) \<noteq> CHR ''/''" using assms(3) by simp
  then show "rstrip_char CHR ''/'' (rstrip_char CHR ''/'' sp @ CHR ''/'' # name) = rstrip_char CHR ''/'' sp @ CHR ''/'' # name"
    unfolding rstrip_char_def[of _ "_ @ _"] by (intro rstrip_by_snoc_id) simp_all
qed

text \<open>The loop over the directories of a level, given what each recursion does.\<close>

lemma get_foldl_dirs:
  assumes "\<And>name fs'. name \<in> set dirs \<Longrightarrow> (\<And>k. storage_get fs' k \<noteq> None \<Longrightarrow> storage_get fs k \<noteq> None) \<Longrightarrow>
      storage_get (f fs' name) k = (if hit name k then None else storage_get fs' k)"
    and "\<And>name fs' k. name \<in> set dirs \<Longrightarrow> (\<And>k. storage_get fs' k \<noteq> None \<Longrightarrow> storage_get fs k \<noteq> None) \<Longrightarrow>
      storage_get (f fs' name) k \<noteq> None \<Longrightarrow> storage_get fs k \<noteq> None"
  shows "storage_get (foldl f fs dirs) k = (if \<exists>name\<in>set dirs. hit name k then None else storage_get fs k)
    \<and> (\<forall>k. storage_get (foldl f fs dirs) k \<noteq> None \<longrightarrow> storage_get fs k \<noteq> None)"
  using assms
proof (induction dirs rule: rev_induct)
  case Nil
  then show ?case by simp
next
  case (snoc name dirs)
  have IH: "storage_get (foldl f fs dirs) k = (if \<exists>name\<in>set dirs. hit name k then None else storage_get fs k)
    \<and> (\<forall>k. storage_get (foldl f fs dirs) k \<noteq> None \<longrightarrow> storage_get fs k \<noteq> None)"
  proof (rule snoc.IH)
    fix nm fs'
    assume a: "nm \<in> set dirs" "\<And>k. storage_get fs' k \<noteq> None \<Longrightarrow> storage_get fs k \<noteq> None"
    have m: "nm \<in> set (dirs @ [name])" using a(1) by simp
    show "storage_get (f fs' nm) k = (if hit nm k then None else storage_get fs' k)"
      by (rule snoc.prems(1)[OF m a(2)])
    show "storage_get (f fs' nm) l \<noteq> None \<Longrightarrow> storage_get fs l \<noteq> None" for l
      by (rule snoc.prems(2)[OF m a(2)])
  qed
  let ?g = "foldl f fs dirs"
  have M: "name \<in> set (dirs @ [name])" by simp
  have sub: "\<And>k. storage_get ?g k \<noteq> None \<Longrightarrow> storage_get fs k \<noteq> None" using IH by blast
  have s1: "storage_get (f ?g name) k = (if hit name k then None else storage_get ?g k)"
    by (rule snoc.prems(1)[OF M sub])
  have s2: "storage_get (f ?g name) l \<noteq> None \<Longrightarrow> storage_get fs l \<noteq> None" for l
    by (rule snoc.prems(2)[OF M sub])
  have fl: "foldl f fs (dirs @ [name]) = f ?g name" by simp
  have ex: "(\<exists>x\<in>set (dirs @ [name]). hit x k) \<longleftrightarrow> hit name k \<or> (\<exists>x\<in>set dirs. hit x k)" by auto
  show ?case
    unfolding fl ex s1 using s2 conjunct1[OF IH] by (cases "hit name k") simp_all
qed

lemma delete_artifact_s3_get:
  "plain_prefix sp \<Longrightarrow> plain_below (key_of cfg (rstrip_char CHR ''/'' sp)) n fs \<Longrightarrow>
   storage_get (delete_artifact_s3 n cfg sp fs) k =
     (if startswith k (key_of cfg (rstrip_char CHR ''/'' sp) @ ''/'') then None else storage_get fs k)"
proof (induction n arbitrary: sp fs k)
  case 0
  then show ?case by (auto simp: plain_below_def startswith_iff)
next
  case (Suc n)
  let ?N = "key_of cfg (rstrip_char CHR ''/'' sp)"
  let ?fs1 = "foldl (\<lambda>fs name. storage_delete (?N @ CHR ''/'' # name) fs) fs (snd (listdir ?N fs))"
  let ?f = "\<lambda>fs name. delete_artifact_s3 n cfg (rstrip_char CHR ''/'' sp @ CHR ''/'' # name) fs"
  let ?dirs = "fst (listdir ?N fs)"
  have g1: "storage_get ?fs1 l = (if \<exists>m. l = ?N @ CHR ''/'' # m \<and> CHR ''/'' \<notin> set m then None else storage_get fs l)" for l
  proof (cases "\<exists>m. l = ?N @ CHR ''/'' # m \<and> CHR ''/'' \<notin> set m")
    case True
    then obtain m where m: "l = ?N @ CHR ''/'' # m" "CHR ''/'' \<notin> set m" by blast
    have "m \<in> set (snd (listdir ?N fs)) \<or> storage_get fs l = None"
      using Suc.prems(2) m unfolding plain_below_def listdir_names by fastforce
    with True m show ?thesis by (auto simp: get_delete_names)
  next
    case False
    then show ?thesis by (auto simp: get_delete_names listdir_names)
  qed
  have sub1: "storage_get ?fs1 l \<noteq> None \<Longrightarrow> storage_get fs l \<noteq> None" for l
    unfolding g1 by (auto split: if_splits)
  have dir: "name \<noteq> [] \<and> CHR ''/'' \<notin> set name \<and> (\<forall>c\<in>set name. \<not> is_space c)" if "name \<in> set ?dirs" for name
  proof -
    have "CHR ''/'' \<notin> set name \<and> (\<exists>rest. storage_get fs (?N @ CHR ''/'' # (name @ CHR ''/'' # rest)) \<noteq> None)"
      using that unfolding listdir_dirs by simp
    then obtain rest where no: "CHR ''/'' \<notin> set name"
      and "storage_get fs (?N @ CHR ''/'' # (name @ CHR ''/'' # rest)) \<noteq> None"
      by blast
    then have "(\<forall>c\<in>set (name @ CHR ''/'' # rest). \<not> is_space c)
        \<and> [] \<notin> set (split_on CHR ''/'' (name @ CHR ''/'' # rest))"
      using Suc.prems(2) unfolding plain_below_def by blast
    then show ?thesis using no split_on_append[OF no, of rest] by auto
  qed
  have rec: "storage_get (?f fs' name) l =
      (if startswith l (?N @ CHR ''/'' # name @ ''/'') then None else storage_get fs' l)"
    if nm: "name \<in> set ?dirs" and sub: "\<And>k. storage_get fs' k \<noteq> None \<Longrightarrow> storage_get ?fs1 k \<noteq> None" for name fs' l
  proof -
    note D = dir[OF nm]
    have "plain_below ?N (Suc n) fs'" by (rule plain_below_subset[OF Suc.prems(2)]) (use sub sub1 in blast)
    then have "plain_below (?N @ CHR ''/'' # name) n fs'" using D by (intro plain_below_sub) auto
    then show ?thesis
      using Suc.IH[OF plain_prefix_sub(1)[OF Suc.prems(1)], of name fs' l] plain_prefix_sub(2)[OF Suc.prems(1), of name] D
      by simp
  qed
  have "storage_get (foldl ?f ?fs1 ?dirs) k =
      (if \<exists>name\<in>set ?dirs. startswith k (?N @ CHR ''/'' # name @ ''/'') then None else storage_get ?fs1 k)"
  proof (rule conjunct1[OF get_foldl_dirs])
    fix name fs' l
    assume a: "name \<in> set ?dirs" "\<And>k. storage_get fs' k \<noteq> None \<Longrightarrow> storage_get ?fs1 k \<noteq> None"
    show "storage_get (?f fs' name) k = (if startswith k (?N @ CHR ''/'' # name @ ''/'') then None else storage_get fs' k)"
      by (rule rec[OF a])
    show "storage_get (?f fs' name) l \<noteq> None \<Longrightarrow> storage_get ?fs1 l \<noteq> None"
      using rec[OF a, where l = l] a(2)[of l] by (auto split: if_splits)
  qed
  also have "\<dots> = (if startswith k (?N @ ''/'') then None else storage_get fs k)"
  proof (cases "\<exists>m. k = ?N @ CHR ''/'' # m")
    case True
    then obtain m where m: "k = ?N @ CHR ''/'' # m" by blast
    show ?thesis
    proof (cases "CHR ''/'' \<in> set m \<and> storage_get fs k \<noteq> None")
      case deep: True
      then obtain name v where nv: "m = name @ CHR ''/'' # v" "CHR ''/'' \<notin> set name"
        by (meson split_list_first)
      then have "name \<in> set ?dirs" using deep m unfolding listdir_dirs by auto
      moreover have "startswith k (?N @ CHR ''/'' # name @ ''/'')" using m nv by (simp add: startswith_iff)
      ultimately show ?thesis using m by (auto simp: startswith_iff)
    next
      case False
      then show ?thesis using m by (auto simp: g1 startswith_iff)
    qed
  next
    case False
    then show ?thesis by (auto simp: g1 startswith_iff)
  qed
  finally show ?case by (simp add: plain_prefix_key[OF Suc.prems(1)] Let_def case_prod_beta)
qed

lemma depth_fuel_ge: "storage_get fs k \<noteq> None \<Longrightarrow> length k \<le> depth_fuel fs"
  by (induction fs) (auto simp: storage_get_def depth_fuel_def split: if_splits)

lemma delete_artifact_prefix_get:
  assumes "is_s3_backend cfg" "plain_prefix sp"
    and "\<And>rest. storage_get fs (key_of cfg (rstrip_char CHR ''/'' sp) @ ''/'' @ rest) \<noteq> None \<Longrightarrow>
        (\<forall>c\<in>set rest. \<not> is_space c) \<and> [] \<notin> set (split_on CHR ''/'' rest)"
  shows "storage_get (delete_artifact_prefix cfg sp fs) k =
    (if startswith k (key_of cfg (rstrip_char CHR ''/'' sp) @ ''/'') then None else storage_get fs k)"
proof -
  have "plain_below (key_of cfg (rstrip_char CHR ''/'' sp)) (depth_fuel fs) fs"
    using assms(3) depth_fuel_ge[of fs] unfolding plain_below_def by fastforce
  then show ?thesis
    using delete_artifact_s3_get[OF assms(2)] assms(1) by (simp add: delete_artifact_prefix_def)
qed

end
