(* ===== verification/Extract.thy ===== *)
theory Extract
  imports Storage
begin

text \<open>
  Extraction of a deployment artifact: \<^verbatim>\<open>apps/hosting/extract.py\<close>. The tar reader is a
  parameter \<open>untar\<close>: it says whether the bytes open as an archive, and with which
  members. An operation returns its result and the store it leaves, since files
  written before an error stay written. The lemmas compare the loop with a reference
  (the accepted members in order, written one after the other), bound what is written,
  and give the effect of a whole extraction on the store. The store is flat, from keys to bytes: what a file
  system refuses beyond that is not modelled (an archive with both a file \<^verbatim>\<open>a\<close> and a file \<^verbatim>\<open>a/b\<close>, or with a name that
  ends in two dots), nor the name checks of Django's storage class.
\<close>

record tar_member =
  mem_name :: string
  mem_isfile :: bool
  mem_size :: int
  mem_stream :: "string list option"

datatype tar_result = Not_A_Tar | Tar_Broken | Tar_Members "tar_member list"

definition safe_member_name :: "string \<Rightarrow> string option" where
  "safe_member_name name = normalize_relative_path name"

definition extract_limits :: "settings \<Rightarrow> int \<times> int \<times> int" where
  "extract_limits cfg =
     (HOSTING_MAX_EXTRACT_FILES cfg, HOSTING_MAX_EXTRACT_BYTES cfg, HOSTING_MAX_EXTRACT_FILE_BYTES cfg)"

definition read_member_limited :: "string list \<Rightarrow> int \<Rightarrow> exn + string" where
  "read_member_limited extracted max_file_bytes =
     (case read_limited max_file_bytes 0 [] extracted of
        None \<Rightarrow> Inl Extract_Error
      | Some (_, content) \<Rightarrow> Inr content)"

fun extract_tar_members ::
    "settings \<Rightarrow> string \<Rightarrow> int \<Rightarrow> int \<Rightarrow> int \<Rightarrow> tar_member list \<Rightarrow> int \<Rightarrow> int \<Rightarrow> files \<Rightarrow> (exn + int) \<times> files" where
  "extract_tar_members cfg pfx max_files max_total_bytes max_file_bytes [] count total_bytes fs = (Inr count, fs)"
| "extract_tar_members cfg pfx max_files max_total_bytes max_file_bytes (member # ms) count total_bytes fs =
     (if \<not> mem_isfile member
      then extract_tar_members cfg pfx max_files max_total_bytes max_file_bytes ms count total_bytes fs
      else case safe_member_name (mem_name member) of
        None \<Rightarrow> extract_tar_members cfg pfx max_files max_total_bytes max_file_bytes ms count total_bytes fs
      | Some rel \<Rightarrow>
         if count \<ge> max_files then (Inl Extract_Error, fs)
         else if mem_size member > max_file_bytes then (Inl Extract_Error, fs)
         else case mem_stream member of
           None \<Rightarrow> extract_tar_members cfg pfx max_files max_total_bytes max_file_bytes ms count total_bytes fs
         | Some extracted \<Rightarrow>
            (case read_member_limited extracted max_file_bytes of
               Inl e \<Rightarrow> (Inl e, fs)
             | Inr content \<Rightarrow>
                let next_total = total_bytes + int (length content)
                in if next_total > max_total_bytes then (Inl Extract_Error, fs)
                   else let dest = build_storage_key cfg (pfx @ rel);
                            fs1 = (if storage_exists fs dest then storage_delete dest fs else fs)
                        in extract_tar_members cfg pfx max_files max_total_bytes max_file_bytes ms
                             (count + 1) next_total (storage_save dest content fs1)))"

definition extract_deployment_artifact ::
    "settings \<Rightarrow> (string \<Rightarrow> tar_result) \<Rightarrow> string \<Rightarrow> files \<Rightarrow> (exn + int) \<times> files" where
  "extract_deployment_artifact cfg untar storage_prefix fs =
     (let key = artifact_key cfg storage_prefix in
      case storage_get fs key of
        None \<Rightarrow> (Inl File_Not_Found, fs)
      | Some _ \<Rightarrow>
         (let fs1 = delete_extracted_prefix cfg storage_prefix fs;
              pfx = extracted_prefix storage_prefix;
              (max_files, max_total_bytes, max_file_bytes) = extract_limits cfg
          in case storage_get fs1 key of
               None \<Rightarrow> (Inl File_Not_Found, fs1)
             | Some data \<Rightarrow>
                if data = [] then (Inr 0, fs1)
                else case untar data of
                  Not_A_Tar \<Rightarrow> (Inr 0, fs1)
                | Tar_Broken \<Rightarrow> (Inl Os_Error, fs1)
                | Tar_Members ms \<Rightarrow>
                   (case extract_tar_members cfg pfx max_files max_total_bytes max_file_bytes ms 0 0 fs1 of
                      (r, fs2) \<Rightarrow>
                        (r, if r = Inl Extract_Error then delete_extracted_prefix cfg storage_prefix fs2 else fs2))))"

section \<open>The members that are written\<close>

definition member_content :: "tar_member \<Rightarrow> string" where
  "member_content m = (case mem_stream m of None \<Rightarrow> [] | Some chunks \<Rightarrow> stream_data chunks)"

fun accepted :: "settings \<Rightarrow> string \<Rightarrow> tar_member list \<Rightarrow> (string \<times> string) list" where
  "accepted cfg pfx [] = []"
| "accepted cfg pfx (m # ms) =
     (if \<not> mem_isfile m then accepted cfg pfx ms
      else case safe_member_name (mem_name m) of
        None \<Rightarrow> accepted cfg pfx ms
      | Some rel \<Rightarrow> (case mem_stream m of
            None \<Rightarrow> accepted cfg pfx ms
          | Some _ \<Rightarrow> (build_storage_key cfg (pfx @ rel), member_content m) # accepted cfg pfx ms))"

definition total_length :: "(string \<times> string) list \<Rightarrow> int" where
  "total_length kvs = sum_list (map (\<lambda>(_, v). int (length v)) kvs)"

lemma total_length_simps [simp]:
  "total_length [] = 0" "total_length ((k, v) # kvs) = int (length v) + total_length kvs"
  by (simp_all add: total_length_def)

lemma total_length_nonneg: "0 \<le> total_length kvs"
  by (induction kvs) auto

text \<open>Writing the accepted members in order; an overwritten object is replaced.\<close>

definition write_all :: "(string \<times> string) list \<Rightarrow> files \<Rightarrow> files" where
  "write_all kvs fs = foldl (\<lambda>fs (k, v). storage_save k v fs) fs kvs"

lemma storage_save_delete: "storage_save k v (storage_delete k fs) = storage_save k v fs"
  by (simp add: storage_save_def storage_delete_def)

lemma get_write_all:
  "storage_get (write_all kvs fs) k = (case map_of (rev kvs) k of Some v \<Rightarrow> Some v | None \<Rightarrow> storage_get fs k)"
  using st.get_put_all[of kvs fs k] by (simp add: write_all_def st.put_all_def)

lemma get_write_all_frame: "k \<notin> fst ` set kvs \<Longrightarrow> storage_get (write_all kvs fs) k = storage_get fs k"
  using st.get_put_all_frame[of k kvs fs] by (simp add: write_all_def st.put_all_def)

lemma accepted_keys:
  "k \<in> fst ` set (accepted cfg pfx ms) \<Longrightarrow>
   \<exists>m\<in>set ms. \<exists>rel. safe_member_name (mem_name m) = Some rel \<and> k = build_storage_key cfg (pfx @ rel)"
  by (induction ms) (auto split: if_splits option.splits)

lemma read_member_limited_eq:
  "0 \<le> m \<Longrightarrow> read_member_limited chunks m =
    (if int (length (stream_data chunks)) \<le> m then Inr (stream_data chunks) else Inl Extract_Error)"
  by (simp add: read_member_limited_def read_limited_eq)

text \<open>A successful loop has written exactly the accepted members, within the limits.\<close>

lemma extract_members_Inr:
  assumes "0 \<le> mfb"
  shows "extract_tar_members cfg pfx mf mt mfb ms count tot fs = (Inr n, fs') \<Longrightarrow> tot \<le> mt \<Longrightarrow>
    fs' = write_all (accepted cfg pfx ms) fs \<and> n = count + int (length (accepted cfg pfx ms))
    \<and> (accepted cfg pfx ms \<noteq> [] \<longrightarrow> n \<le> mf) \<and> tot + total_length (accepted cfg pfx ms) \<le> mt
    \<and> (\<forall>(k, v)\<in>set (accepted cfg pfx ms). int (length v) \<le> mfb)"
proof (induction ms arbitrary: count tot fs)
  case Nil
  then show ?case by (simp add: write_all_def)
next
  case (Cons m ms)
  show ?case
  proof (cases "mem_isfile m")
    case False
    then show ?thesis using Cons by simp
  next
    case isf: True
    show ?thesis
    proof (cases "safe_member_name (mem_name m)")
      case None
      then show ?thesis using Cons isf by simp
    next
      case rel: (Some rel)
      show ?thesis
      proof (cases "mem_stream m")
        case None
        then show ?thesis using Cons isf rel by (auto split: if_splits)
      next
        case str: (Some chunks)
        let ?v = "stream_data chunks" and ?k = "build_storage_key cfg (pfx @ rel)"
        have lim: "count < mf" "int (length ?v) \<le> mfb" "tot + int (length ?v) \<le> mt"
          and step: "extract_tar_members cfg pfx mf mt mfb ms (count + 1) (tot + int (length ?v))
              (storage_save ?k ?v fs) = (Inr n, fs')"
          using Cons.prems(1) isf rel str
          by (auto simp: read_member_limited_eq[OF assms] Let_def storage_save_delete split: if_splits)
        have acc: "accepted cfg pfx (m # ms) = (?k, ?v) # accepted cfg pfx ms"
          using isf rel str by (simp add: member_content_def)
        from Cons.IH[OF step lim(3)] show ?thesis
          using lim unfolding acc by (cases "accepted cfg pfx ms = []") (auto simp: write_all_def)
      qed
    qed
  qed
qed

text \<open>Whatever the result, only keys of accepted members change.\<close>

lemma extract_members_frame:
  "extract_tar_members cfg pfx mf mt mfb ms count tot fs = (r, fs') \<Longrightarrow>
   k \<notin> fst ` set (accepted cfg pfx ms) \<Longrightarrow> storage_get fs' k = storage_get fs k"
proof (induction ms arbitrary: count tot fs)
  case Nil
  then show ?case by simp
next
  case (Cons m ms)
  have IH: "\<And>count tot fs. extract_tar_members cfg pfx mf mt mfb ms count tot fs = (r, fs') \<Longrightarrow>
      storage_get fs' k = storage_get fs k"
    by (rule Cons.IH) (use Cons.prems(2) in \<open>auto split: if_splits option.splits\<close>)
  show ?case
    using Cons.prems
    by (auto simp: Let_def storage_get_save storage_get_delete storage_save_delete
        split: if_splits option.splits sum.splits dest!: IH)
qed

lemma extract_members_error:
  "extract_tar_members cfg pfx mf mt mfb ms count tot fs = (Inl e, fs') \<Longrightarrow> e = Extract_Error"
  by (induction ms arbitrary: count tot fs)
    (auto simp: Let_def read_member_limited_def split: if_splits option.splits sum.splits)

section \<open>A whole extraction\<close>

lemma artifact_not_site:
  assumes "prefix_ok sp" "last sp = CHR ''/''"
  shows "artifact_key cfg sp \<noteq> site_dir cfg sp \<and> \<not> startswith (artifact_key cfg sp) (site_dir cfg sp @ ''/'')"
proof -
  let ?A = "rstrip_char CHR ''/'' sp"
  have sp: "sp \<noteq> []" "\<not> is_space (hd sp)" "hd sp \<noteq> CHR ''/''" using assms(1) by (auto simp: prefix_ok_def)
  let ?s = "sp @ ''artifact.tar.gz''"
  have l: "last ?s = CHR ''z''" by simp
  have nz: "\<not> is_space CHR ''z''" "CHR ''z'' \<noteq> CHR ''/''" by (simp_all add: char_class_defs)
  have "strip ?s = ?s" unfolding strip_def by (rule strip_by_id) (use sp l nz in simp)
  moreover have "strip_char CHR ''/'' ?s = ?s"
    unfolding strip_char_def by (rule strip_by_id) (use sp l nz in simp)
  ultimately have k: "artifact_key cfg sp = key_of cfg ?s"
    unfolding artifact_key_def build_storage_key_eq by simp
  obtain v where v: "sp = ?A @ v" using rstrip_by_prefix[of sp] unfolding rstrip_char_def by blast
  have vn: "v \<noteq> []"
  proof
    assume "v = []"
    then have "last ?A = CHR ''/''" using v assms(2) by simp
    moreover have "?A = [] \<or> last ?A \<noteq> CHR ''/''"
      unfolding rstrip_char_def rstrip_by_def
      by (metis (mono_tags, lifting) hd_dropWhile last_rev rev_is_Nil_conv)
    ultimately show False using rstrip_prefix_hd[OF assms(1)] by blast
  qed
  have "\<forall>c\<in>set v. c = CHR ''/''"
  proof -
    have "v = rev (takeWhile (\<lambda>x. x = CHR ''/'') (rev sp))"
      using v unfolding rstrip_char_def rstrip_by_def
      by (metis append_same_eq rev_append rev_rev_ident same_append_eq takeWhile_dropWhile_id)
    then show ?thesis by (auto dest: set_takeWhileD)
  qed
  then obtain u where u: "v = CHR ''/'' # u" "\<forall>c\<in>set u. c = CHR ''/''"
    using vn by (cases v) auto
  have ne: "\<nexists>w. u @ ''artifact.tar.gz'' = ''extracted'' @ w"
    using u(2) by (cases u) auto
  have s: "?s = ?A @ CHR ''/'' # u @ ''artifact.tar.gz''" using v u(1) by (metis append.assoc append_Cons)
  have "key_of cfg ?s \<noteq> site_dir cfg sp"
    unfolding site_dir_def s using ne by auto
  moreover have "\<not> startswith (key_of cfg ?s) (site_dir cfg sp @ ''/'')"
    unfolding site_dir_def startswith_iff s using ne by auto
  ultimately show ?thesis using k by simp
qed

text \<open>The files an artifact stands for.\<close>

definition site_files :: "settings \<Rightarrow> (string \<Rightarrow> tar_result) \<Rightarrow> string \<Rightarrow> string \<Rightarrow> (string \<times> string) list" where
  "site_files cfg untar sp data =
     (if data = [] then []
      else case untar data of Tar_Members ms \<Rightarrow> accepted cfg (extracted_prefix sp) ms | _ \<Rightarrow> [])"

definition in_site :: "settings \<Rightarrow> string \<Rightarrow> string \<Rightarrow> bool" where
  "in_site cfg sp k = startswith k (site_dir cfg sp @ ''/'')"

lemma accepted_in_site:
  assumes "prefix_ok sp" "k \<in> fst ` set (accepted cfg (extracted_prefix sp) ms)"
  shows "k = site_dir cfg sp \<or> in_site cfg sp k"
proof -
  obtain rel where "k = build_storage_key cfg (extracted_prefix sp @ rel)"
    using accepted_keys[OF assms(2)] by blast
  then obtain v where "k = site_dir cfg sp @ v" "v = [] \<or> hd v = CHR ''/''"
    using site_key_within[OF assms(1)] by metis
  then show ?thesis by (cases v) (auto simp: in_site_def startswith_iff)
qed

lemma get_deleted_site:
  assumes "prefix_ok sp" "\<not> is_s3_backend cfg"
  shows "storage_get (delete_extracted_prefix cfg sp fs) k = (if in_site cfg sp k then None else storage_get fs k)"
  using assms by (simp add: delete_extracted_prefix_def site_dir_key storage_get_tree in_site_def)

text \<open>The cases of a whole extraction.\<close>

lemma extract_cases:
  assumes x: "extract_deployment_artifact cfg untar sp fs = (r, fs')"
    and sp: "prefix_ok sp" "last sp = CHR ''/''" and s3: "\<not> is_s3_backend cfg"
  defines "fs1 \<equiv> delete_extracted_prefix cfg sp fs"
  obtains (missing) "storage_get fs (artifact_key cfg sp) = None" "r = Inl File_Not_Found" "fs' = fs"
  | (none) data where "storage_get fs (artifact_key cfg sp) = Some data" "r = Inr 0" "fs' = fs1"
      "site_files cfg untar sp data = []"
  | (broken) data where "storage_get fs (artifact_key cfg sp) = Some data" "r = Inl Os_Error" "fs' = fs1"
      "untar data = Tar_Broken"
  | (members) data ms fs2 mf mt mfb where "storage_get fs (artifact_key cfg sp) = Some data" "data \<noteq> []"
      "untar data = Tar_Members ms" "extract_limits cfg = (mf, mt, mfb)"
      "extract_tar_members cfg (extracted_prefix sp) mf mt mfb ms 0 0 fs1 = (r, fs2)"
      "fs' = (if r = Inl Extract_Error then delete_extracted_prefix cfg sp fs2 else fs2)"
proof (cases "storage_get fs (artifact_key cfg sp)")
  case None
  then show thesis using x by (intro missing) (simp_all add: extract_deployment_artifact_def Let_def)
next
  case (Some data)
  have k: "storage_get fs1 (artifact_key cfg sp) = Some data"
    using Some artifact_not_site[OF sp] by (simp add: fs1_def get_deleted_site[OF sp(1) s3] in_site_def)
  obtain mf mt mfb where l: "extract_limits cfg = (mf, mt, mfb)" by (cases "extract_limits cfg")
  note X = x[unfolded extract_deployment_artifact_def Let_def, folded fs1_def, unfolded Some k l prod.case option.case]
  show thesis
  proof (cases "data = []")
    case True
    then show thesis using X Some by (intro none) (auto simp: site_files_def)
  next
    case ne: False
    show thesis
    proof (cases "untar data")
      case Not_A_Tar
      then show thesis using X Some ne by (intro none) (auto simp: site_files_def)
    next
      case Tar_Broken
      then show thesis using X Some ne by (intro broken) simp_all
    next
      case (Tar_Members ms)
      obtain r2 fs2 where e: "extract_tar_members cfg (extracted_prefix sp) mf mt mfb ms 0 0 fs1 = (r2, fs2)"
        by (cases "extract_tar_members cfg (extracted_prefix sp) mf mt mfb ms 0 0 fs1")
      have "r = r2" "fs' = (if r = Inl Extract_Error then delete_extracted_prefix cfg sp fs2 else fs2)"
        using X ne Tar_Members e by auto
      then show thesis using members[OF Some ne Tar_Members l] e by metis
    qed
  qed
qed

lemma extract_effect:
  assumes x: "extract_deployment_artifact cfg untar sp fs = (r, fs')"
    and sp: "prefix_ok sp" "last sp = CHR ''/''" and s3: "\<not> is_s3_backend cfg"
    and lim: "0 \<le> HOSTING_MAX_EXTRACT_BYTES cfg" "0 \<le> HOSTING_MAX_EXTRACT_FILE_BYTES cfg"
  shows "(\<forall>k. k \<noteq> site_dir cfg sp \<and> \<not> in_site cfg sp k \<longrightarrow> storage_get fs' k = storage_get fs k)
    \<and> (r = Inl Extract_Error \<longrightarrow> (\<forall>k. in_site cfg sp k \<longrightarrow> storage_get fs' k = None))
    \<and> (\<forall>n. r = Inr n \<longrightarrow> (\<exists>data kvs. storage_get fs (artifact_key cfg sp) = Some data
          \<and> kvs = site_files cfg untar sp data \<and> n = int (length kvs)
          \<and> (kvs \<noteq> [] \<longrightarrow> n \<le> HOSTING_MAX_EXTRACT_FILES cfg)
          \<and> total_length kvs \<le> HOSTING_MAX_EXTRACT_BYTES cfg
          \<and> (\<forall>(k, v)\<in>set kvs. int (length v) \<le> HOSTING_MAX_EXTRACT_FILE_BYTES cfg)
          \<and> (\<forall>k. in_site cfg sp k \<longrightarrow> storage_get fs' k = map_of (rev kvs) k)))"
proof -
  let ?fs1 = "delete_extracted_prefix cfg sp fs"
  note D = get_deleted_site[OF sp(1) s3]
  from x sp s3 show ?thesis
  proof (cases rule: extract_cases)
    case missing
    then show ?thesis by simp
  next
    case (none data)
    then show ?thesis using lim by (auto simp: D)
  next
    case (broken data)
    then show ?thesis by (auto simp: D)
  next
    case (members data ms fs2 mf mt mfb)
    let ?kvs = "accepted cfg (extracted_prefix sp) ms"
    have L: "mf = HOSTING_MAX_EXTRACT_FILES cfg" "mt = HOSTING_MAX_EXTRACT_BYTES cfg"
        "mfb = HOSTING_MAX_EXTRACT_FILE_BYTES cfg"
      using members(4) by (simp_all add: extract_limits_def)
    have frame: "storage_get fs2 k = storage_get fs k" if "k \<noteq> site_dir cfg sp" "\<not> in_site cfg sp k" for k
      using extract_members_frame[OF members(5), of k] accepted_in_site[OF sp(1), of k cfg ms] that
      by (auto simp: D)
    have succ: "fs2 = write_all ?kvs ?fs1" "n = int (length ?kvs)" "?kvs \<noteq> [] \<longrightarrow> n \<le> mf"
        "total_length ?kvs \<le> mt" "\<forall>(k, v)\<in>set ?kvs. int (length v) \<le> mfb" if "r = Inr n" for n
      using extract_members_Inr[of mfb cfg "extracted_prefix sp" mf mt ms 0 0 ?fs1 n fs2] members(5) lim L that
      by auto
    have sf: "site_files cfg untar sp data = ?kvs" using members(2,3) by (simp add: site_files_def)
    have "storage_get fs2 k = map_of (rev ?kvs) k" if "r = Inr n" "in_site cfg sp k" for n k
      unfolding succ(1)[OF that(1)] get_write_all using that(2) by (simp add: D split: option.split)
    then show ?thesis
      using frame succ sf members(1,6) L by (auto simp: D)
  qed
qed

text \<open>C17. An extraction on the file system, for any archive reader. Nothing outside the site directory
  changes, whatever the outcome and whatever the member names are. After a rejected archive the
  site is empty. After a success the site holds exactly the accepted members of the artifact (the
  last one of each name), their number is the result, and the limits on the number of files, on
  each file and on the total hold.\<close>

theorem extract_deployment_artifact_correct:
  assumes x: "extract_deployment_artifact cfg untar sp fs = (r, fs')"
    and sp: "prefix_ok sp" "last sp = CHR ''/''" and s3: "\<not> is_s3_backend cfg"
    and lim: "0 \<le> HOSTING_MAX_EXTRACT_BYTES cfg" "0 \<le> HOSTING_MAX_EXTRACT_FILE_BYTES cfg"
  shows "(\<forall>k. k \<noteq> site_dir cfg sp \<and> \<not> in_site cfg sp k \<longrightarrow> storage_get fs' k = storage_get fs k)
    \<and> (r = Inl Extract_Error \<longrightarrow> (\<forall>k. in_site cfg sp k \<longrightarrow> storage_get fs' k = None))
    \<and> (\<forall>n. r = Inr n \<longrightarrow> (\<exists>data kvs. storage_get fs (artifact_key cfg sp) = Some data
          \<and> kvs = site_files cfg untar sp data \<and> n = int (length kvs)
          \<and> (kvs \<noteq> [] \<longrightarrow> n \<le> HOSTING_MAX_EXTRACT_FILES cfg)
          \<and> total_length kvs \<le> HOSTING_MAX_EXTRACT_BYTES cfg
          \<and> (\<forall>(k, v)\<in>set kvs. int (length v) \<le> HOSTING_MAX_EXTRACT_FILE_BYTES cfg)
          \<and> (\<forall>k. in_site cfg sp k \<longrightarrow> storage_get fs' k = map_of (rev kvs) k)))"
  by (rule extract_effect[OF assms])

theorem extract_deployment_artifact_correct_witness:
  "let m = \<lparr> mem_name = ''./index.html'', mem_isfile = True, mem_size = 2, mem_stream = Some [''hi''] \<rparr>;
       untar = (\<lambda>d. Tar_Members [m]);
       fs = [(''hosting/a/deployments/d/artifact.tar.gz'', ''tgz'')];
       r = extract_deployment_artifact default_settings untar ''a/deployments/d/'' fs
   in storage_get (snd r) ''hosting/a/deployments/d/extracted/index.html'' = Some ''hi''"
proof -
  define m where "m = \<lparr> mem_name = ''./index.html'', mem_isfile = True, mem_size = 2, mem_stream = Some [''hi''] \<rparr>"
  define r where "r = extract_deployment_artifact default_settings (\<lambda>d. Tar_Members [m]) ''a/deployments/d/''
      [(''hosting/a/deployments/d/artifact.tar.gz'', ''tgz'')]"
  have x: "extract_deployment_artifact default_settings (\<lambda>d. Tar_Members [m]) ''a/deployments/d/''
      [(''hosting/a/deployments/d/artifact.tar.gz'', ''tgz'')] = (fst r, snd r)" by (simp add: r_def)
  have p: "prefix_ok ''a/deployments/d/''" "last ''a/deployments/d/'' = CHR ''/''"
    "\<not> is_s3_backend default_settings" "0 \<le> HOSTING_MAX_EXTRACT_BYTES default_settings"
    "0 \<le> HOSTING_MAX_EXTRACT_FILE_BYTES default_settings" by code_simp+
  have f: "fst r = Inr 1" unfolding r_def m_def by code_simp
  have k: "site_files default_settings (\<lambda>d. Tar_Members [m]) ''a/deployments/d/'' ''tgz''
      = [(''hosting/a/deployments/d/extracted/index.html'', ''hi'')]" unfolding m_def by code_simp
  have a: "storage_get [(''hosting/a/deployments/d/artifact.tar.gz'', ''tgz'')]
      (artifact_key default_settings ''a/deployments/d/'') = Some ''tgz''" by code_simp
  have s: "in_site default_settings ''a/deployments/d/'' ''hosting/a/deployments/d/extracted/index.html''"
    by code_simp
  have "storage_get (snd r) ''hosting/a/deployments/d/extracted/index.html'' = Some ''hi''"
    using extract_deployment_artifact_correct[OF x p] f k a s by auto
  then show ?thesis by (simp add: Let_def r_def m_def)
qed

text \<open>Trailing white space defeats the path check: the member name (or request path) made of two
  dots and a space is accepted as a relative path, and the storage key built from it ends in the
  parent directory; a name of one space yields the key of the site directory itself.\<close>

theorem trailing_space_key:
  assumes "prefix_ok sp"
  shows "safe_member_name ''.. '' = Some ''.. ''
    \<and> build_storage_key cfg (extracted_prefix sp @ ''.. '') = site_dir cfg sp @ ''/..''
    \<and> validate_serve_path ''.%2e%20'' = Inr ''.. '' \<and> extracted_file_key cfg sp ''.. '' = site_dir cfg sp @ ''/..''
    \<and> safe_member_name '' '' = Some '' '' \<and> build_storage_key cfg (extracted_prefix sp @ '' '') = site_dir cfg sp"
proof -
  have n: "safe_member_name ''.. '' = Some ''.. ''" "safe_member_name '' '' = Some '' ''"
    "validate_serve_path ''.%2e%20'' = Inr ''.. ''" "lstrip_char CHR ''/'' ''.. '' = ''.. ''" by code_simp+
  have r: "rstrip_char CHR ''/'' (rstrip_by is_space (CHR ''/'' # ''.. '')) = ''/..''"
    "rstrip_char CHR ''/'' (rstrip_by is_space (CHR ''/'' # '' '')) = []" by code_simp+
  show ?thesis
    using n site_key[OF assms, of cfg "''.. ''"] site_key[OF assms, of cfg "'' ''"] r
    by (simp add: extracted_file_key_def)
qed

theorem trailing_space_key_witness:
  "build_storage_key default_settings (extracted_prefix ''a/deployments/d/'' @ ''.. '')
     = ''hosting/a/deployments/d/extracted/..''"
proof -
  have "prefix_ok ''a/deployments/d/''" by code_simp
  from trailing_space_key[OF this, of default_settings]
  have "build_storage_key default_settings (extracted_prefix ''a/deployments/d/'' @ ''.. '')
     = site_dir default_settings ''a/deployments/d/'' @ ''/..''" by blast
  moreover have "site_dir default_settings ''a/deployments/d/'' = ''hosting/a/deployments/d/extracted''" by code_simp
  ultimately show ?thesis by simp
qed

end
