(* ===== verification/Redirects.thy ===== *)
theory Redirects
  imports Hosts Models
begin

text \<open>
  Synchronisation of app origins with the identity service:
  \<^verbatim>\<open>apps/hosting/identity_redirects.py\<close>. The identity service is a parameter: its answer
  to the \<open>n\<close>-th attempt of a request. A call returns its outcome together with the list of
  attempts it made. The lemmas bound the attempts and say when an origin counts as
  registered.
\<close>

definition JWKS_SUFFIX :: string where
  "JWKS_SUFFIX = ''/.well-known/jwks.json''"

definition PLACEHOLDER_ORIGINS :: "string list" where
  "PLACEHOLDER_ORIGINS = [''http://localhost:8000'', ''http://127.0.0.1:8000'']"

definition SYNC_ATTEMPTS :: nat where
  "SYNC_ATTEMPTS = 3"

record redirect_sync_result =
  rs_registered :: bool
  rs_origin :: string
  rs_warning :: bool

text \<open>The warning text is not modelled: \<open>rs_warning\<close> says whether there is one.\<close>

definition as_api :: "redirect_sync_result \<Rightarrow> (string \<times> json) list" where
  "as_api r =
     [(''oauth_redirect_registered'', JBool (rs_registered r)), (''oauth_redirect_origin'', JStr (rs_origin r))]
     @ (if rs_warning r then [(''oauth_redirect_warning'', JStr ''warning'')] else [])"

definition identity_base_url :: "settings \<Rightarrow> string option" where
  "identity_base_url cfg =
     (let base = rstrip_char CHR ''/'' (strip (IDENTITY_SERVICE_URL cfg)) in
      if base \<noteq> [] then Some base
      else if IDENTITY_JWKS_SOURCE cfg \<notin> set [''env'', ''file''] then None
      else let jwks = rstrip_char CHR ''/'' (strip (IDENTITY_JWKS_URL cfg)) in
      if \<not> endswith jwks JWKS_SUFFIX then None
      else let origin = rstrip_char CHR ''/'' (take (length jwks - length JWKS_SUFFIX) jwks) in
      if origin = [] \<or> origin \<in> set PLACEHOLDER_ORIGINS then None
      else Some origin)"

section \<open>Requests\<close>

datatype http_method = PUT | DELETE

record sync_request =
  sr_method :: http_method
  sr_url :: string
  sr_token :: string
  sr_origin :: string
  sr_label :: string

text \<open>\<open>None\<close> is a \<^verbatim>\<open>requests.RequestException\<close>, \<open>Some s\<close> a response with status \<open>s\<close>.\<close>

type_synonym identity = "sync_request \<Rightarrow> nat \<Rightarrow> int option"

text \<open>
  The loop from attempt \<open>k\<close> on: \<open>None\<close> raises the exception of the last attempt. The
  second component is the number of requests sent.
\<close>

fun sync_attempts :: "identity \<Rightarrow> sync_request \<Rightarrow> nat \<Rightarrow> nat \<Rightarrow> int option \<times> nat" where
  "sync_attempts identity req k 0 = (None, 0)"
| "sync_attempts identity req k (Suc left) =
     (case identity req k of
        None \<Rightarrow>
          if k = SYNC_ATTEMPTS then (None, 1)
          else (case sync_attempts identity req (k + 1) left of (r, n) \<Rightarrow> (r, n + 1))
      | Some status \<Rightarrow>
          if status < 500 \<or> k = SYNC_ATTEMPTS then (Some status, 1)
          else (case sync_attempts identity req (k + 1) left of (r, n) \<Rightarrow> (r, n + 1)))"

definition do_sync_request :: "identity \<Rightarrow> sync_request \<Rightarrow> int option \<times> nat" where
  "do_sync_request identity req = sync_attempts identity req 1 SYNC_ATTEMPTS"

definition sync_url :: "string \<Rightarrow> string" where
  "sync_url base = base @ ''/api/v1/hosting-oauth-redirects''"

text \<open>The result, and the request with the number of times it was sent when it was.\<close>

definition upsert_hosting_oauth_redirect ::
    "settings \<Rightarrow> identity \<Rightarrow> app \<Rightarrow> string option \<Rightarrow> redirect_sync_result \<times> (sync_request \<times> nat) option" where
  "upsert_hosting_oauth_redirect cfg identity a access_token =
     (let base = identity_base_url cfg;
          token = strip (case access_token of None \<Rightarrow> [] | Some t \<Rightarrow> t)
      in case app_origin_for_sync cfg (app_slug a) of
           Inl _ \<Rightarrow> (\<lparr> rs_registered = False, rs_origin = [], rs_warning = True \<rparr>, None)
         | Inr origin \<Rightarrow>
             (case base of
                None \<Rightarrow> (\<lparr> rs_registered = False, rs_origin = origin, rs_warning = True \<rparr>, None)
              | Some b \<Rightarrow>
                  if token = [] then (\<lparr> rs_registered = False, rs_origin = origin, rs_warning = True \<rparr>, None)
                  else let label = take 150 (if app_display_name a \<noteq> [] then app_display_name a else app_slug a);
                           req = \<lparr> sr_method = PUT, sr_url = sync_url b, sr_token = token,
                                   sr_origin = origin, sr_label = label \<rparr>
                       in case do_sync_request identity req of
                            (None, n) \<Rightarrow>
                              (\<lparr> rs_registered = False, rs_origin = origin, rs_warning = True \<rparr>, Some (req, n))
                          | (Some status, n) \<Rightarrow>
                              if status \<ge> 400
                              then (\<lparr> rs_registered = False, rs_origin = origin, rs_warning = True \<rparr>, Some (req, n))
                              else (\<lparr> rs_registered = True, rs_origin = origin, rs_warning = False \<rparr>, Some (req, n))))"

definition delete_hosting_oauth_redirect_origin ::
    "settings \<Rightarrow> identity \<Rightarrow> string \<Rightarrow> string option \<Rightarrow> bool \<times> (sync_request \<times> nat) option" where
  "delete_hosting_oauth_redirect_origin cfg identity origin access_token =
     (let token = strip (case access_token of None \<Rightarrow> [] | Some t \<Rightarrow> t)
      in case identity_base_url cfg of
           None \<Rightarrow> (False, None)
         | Some b \<Rightarrow>
             if token = [] then (False, None)
             else let req = \<lparr> sr_method = DELETE, sr_url = sync_url b, sr_token = token,
                              sr_origin = origin, sr_label = [] \<rparr>
                  in case do_sync_request identity req of
                       (None, n) \<Rightarrow> (False, Some (req, n))
                     | (Some status, n) \<Rightarrow> (\<not> status \<ge> 400, Some (req, n)))"

section \<open>Retries\<close>

text \<open>An answer the loop retries: no response, or a server error.\<close>

definition retryable :: "int option \<Rightarrow> bool" where
  "retryable r = (case r of None \<Rightarrow> True | Some s \<Rightarrow> s \<ge> 500)"

lemma sync_attempts_spec:
  assumes "left = Suc SYNC_ATTEMPTS - k" "1 \<le> k" "k \<le> SYNC_ATTEMPTS"
  shows "\<exists>n. 1 \<le> n \<and> k + n \<le> Suc SYNC_ATTEMPTS
     \<and> sync_attempts identity req k left = (identity req (k + n - 1), n)
     \<and> (\<forall>i<n - 1. retryable (identity req (k + i)))
     \<and> (retryable (identity req (k + n - 1)) \<longrightarrow> k + n = Suc SYNC_ATTEMPTS)"
  using assms
proof (induction left arbitrary: k)
  case 0
  then show ?case by simp
next
  case (Suc left)
  show ?case
  proof (cases "retryable (identity req k) \<and> k \<noteq> SYNC_ATTEMPTS")
    case False
    then have "sync_attempts identity req k (Suc left) = (identity req k, 1)"
      by (auto simp: retryable_def split: option.splits)
    then show ?thesis using False Suc.prems by (intro exI[of _ 1]) auto
  next
    case True
    then have step: "sync_attempts identity req k (Suc left)
        = (case sync_attempts identity req (k + 1) left of (r, n) \<Rightarrow> (r, n + 1))"
      by (auto simp: retryable_def split: option.splits)
    have l: "left = Suc SYNC_ATTEMPTS - (k + 1)" "1 \<le> k + 1" "k + 1 \<le> SYNC_ATTEMPTS"
      using Suc.prems True by auto
    obtain n where n: "1 \<le> n" "k + 1 + n \<le> Suc SYNC_ATTEMPTS"
        "sync_attempts identity req (k + 1) left = (identity req (k + 1 + n - 1), n)"
        "\<forall>i<n - 1. retryable (identity req (k + 1 + i))"
        "retryable (identity req (k + 1 + n - 1)) \<longrightarrow> k + 1 + n = Suc SYNC_ATTEMPTS"
      using Suc.IH[OF l] by (metis le_add2)
    have "retryable (identity req (k + i))" if "i < n" for i
      using n(4) True that by (cases i) auto
    then show ?thesis using n step by (intro exI[of _ "Suc n"]) auto
  qed
qed

lemma do_sync_request_spec:
  "\<exists>n. 1 \<le> n \<and> n \<le> 3 \<and> do_sync_request identity req = (identity req n, n)
     \<and> (\<forall>i. 1 \<le> i \<and> i < n \<longrightarrow> retryable (identity req i)) \<and> (retryable (identity req n) \<longrightarrow> n = 3)"
proof -
  obtain n where n: "1 \<le> n" "1 + n \<le> Suc SYNC_ATTEMPTS"
     "do_sync_request identity req = (identity req (1 + n - 1), n)"
     "\<forall>i<n - 1. retryable (identity req (1 + i))" "retryable (identity req (1 + n - 1)) \<longrightarrow> 1 + n = Suc SYNC_ATTEMPTS"
    using sync_attempts_spec[of SYNC_ATTEMPTS 1 identity req] by (auto simp: do_sync_request_def SYNC_ATTEMPTS_def)
  have "retryable (identity req i)" if "1 \<le> i" "i < n" for i
    using n(4)[rule_format, of "i - 1"] that by simp
  then show ?thesis using n by (intro exI[of _ n]) (auto simp: SYNC_ATTEMPTS_def)
qed

text \<open>A synchronisation sends its request at least once and at most three times: it stops at the
  first answer below 500, goes on exactly after network errors and server errors, and its result is
  the answer to the last attempt.\<close>

theorem sync_request_attempts:
  "let (r, n) = do_sync_request identity req
   in 1 \<le> n \<and> n \<le> 3 \<and> r = identity req n \<and> list_all (\<lambda>i. retryable (identity req i)) [1..<n]
      \<and> (if retryable r then n = 3 else True)"
proof -
  obtain n where "1 \<le> n" "n \<le> 3" "do_sync_request identity req = (identity req n, n)"
     "\<forall>i. 1 \<le> i \<and> i < n \<longrightarrow> retryable (identity req i)" "retryable (identity req n) \<longrightarrow> n = 3"
    using do_sync_request_spec by blast
  then show ?thesis by (auto simp: Let_def list_all_iff)
qed

text \<open>Registering the origin of an app: without an identity address or a caller token nothing is
  sent and the origin is reported unregistered with a warning; otherwise one PUT for exactly the
  origin of the slug is sent with the caller's token, and the origin counts as registered if and only
  if the last answer is below 400.\<close>

theorem upsert_redirect_correct:
  assumes "app_origin_for_sync cfg (app_slug a) = Inr origin"
  shows "case identity_base_url cfg of
     None \<Rightarrow> upsert_hosting_oauth_redirect cfg identity a tok
               = (\<lparr> rs_registered = False, rs_origin = origin, rs_warning = True \<rparr>, None)
   | Some base \<Rightarrow>
       if strip (case tok of None \<Rightarrow> [] | Some t \<Rightarrow> t) = []
       then upsert_hosting_oauth_redirect cfg identity a tok
               = (\<lparr> rs_registered = False, rs_origin = origin, rs_warning = True \<rparr>, None)
       else (\<exists>req n. upsert_hosting_oauth_redirect cfg identity a tok
               = (\<lparr> rs_registered = (case identity req n of None \<Rightarrow> False | Some s \<Rightarrow> s < 400),
                    rs_origin = origin,
                    rs_warning = (case identity req n of None \<Rightarrow> True | Some s \<Rightarrow> s \<ge> 400) \<rparr>, Some (req, n))
             \<and> n \<le> 3 \<and> sr_method req = PUT \<and> sr_url req = base @ ''/api/v1/hosting-oauth-redirects''
             \<and> sr_origin req = origin \<and> sr_token req = strip (case tok of None \<Rightarrow> [] | Some t \<Rightarrow> t))"
proof (cases "identity_base_url cfg")
  case None
  then show ?thesis using assms by (simp add: upsert_hosting_oauth_redirect_def Let_def)
next
  case (Some base)
  let ?tok = "strip (case tok of None \<Rightarrow> [] | Some t \<Rightarrow> t)"
  show ?thesis
  proof (cases "?tok = []")
    case True
    then show ?thesis using Some assms by (simp add: upsert_hosting_oauth_redirect_def Let_def)
  next
    case False
    let ?req = "\<lparr> sr_method = PUT, sr_url = sync_url base, sr_token = ?tok, sr_origin = origin,
        sr_label = take 150 (if app_display_name a \<noteq> [] then app_display_name a else app_slug a) \<rparr>"
    obtain n where n: "n \<le> 3" "do_sync_request identity ?req = (identity ?req n, n)"
      using do_sync_request_spec by blast
    have "upsert_hosting_oauth_redirect cfg identity a tok
               = (\<lparr> rs_registered = (case identity ?req n of None \<Rightarrow> False | Some s \<Rightarrow> s < 400),
                    rs_origin = origin,
                    rs_warning = (case identity ?req n of None \<Rightarrow> True | Some s \<Rightarrow> s \<ge> 400) \<rparr>, Some (?req, n))"
      using assms Some False n(2)
      by (simp add: upsert_hosting_oauth_redirect_def Let_def split: option.split)
    then show ?thesis
      unfolding Some option.case if_not_P[OF False] using n(1)
      by (intro exI[of _ ?req] exI[of _ n]) (simp add: sync_url_def)
  qed
qed

theorem upsert_redirect_correct_witness:
  "rs_registered (fst (upsert_hosting_oauth_redirect
      (default_settings\<lparr>IDENTITY_SERVICE_URL := ''https://id.io''\<rparr>) (\<lambda>_ n. if n = 1 then Some 503 else Some 200)
      \<lparr> app_id = ''a'', app_name = ''n'', app_slug = ''abc'', app_company_id = 1, app_display_name = [],
        app_created_by_id = None, app_expires_at = None, app_current_deployment = None,
        app_created_at = 0, app_updated_at = 0 \<rparr> (Some ''jwt'')))"
proof -
  let ?cfg = "default_settings\<lparr>IDENTITY_SERVICE_URL := ''https://id.io''\<rparr>"
  let ?a = "\<lparr> app_id = ''a'', app_name = ''n'', app_slug = ''abc'', app_company_id = 1, app_display_name = [],
        app_created_by_id = None, app_expires_at = None, app_current_deployment = None,
        app_created_at = 0, app_updated_at = 0 \<rparr>"
  let ?id = "\<lambda>(_::sync_request) (n::nat). if n = 1 then Some (503::int) else Some 200"
  have o1: "app_origin_for_sync ?cfg (app_slug ?a) = Inr ''https://abc.shellui.app''" by code_simp
  have b: "identity_base_url ?cfg = Some ''https://id.io''" by code_simp
  have t: "strip (case Some ''jwt'' of None \<Rightarrow> [] | Some t \<Rightarrow> t) \<noteq> []" by code_simp
  have "snd (upsert_hosting_oauth_redirect ?cfg ?id ?a (Some ''jwt'')) \<noteq> None
      \<and> snd (the (snd (upsert_hosting_oauth_redirect ?cfg ?id ?a (Some ''jwt'')))) = 2" by code_simp
  then show ?thesis
    using upsert_redirect_correct[OF o1, of ?id "Some ''jwt''", unfolded b option.case if_not_P[OF t[unfolded option.case]]]
    by auto
qed

end
