(* ===== verification/Auth.thy ===== *)
theory Auth
  imports Models
begin

text \<open>
  Principals and permissions: \<^verbatim>\<open>apps/authapi/principal.py\<close>, \<^verbatim>\<open>apps/authapi/permissions.py\<close>,
  \<^verbatim>\<open>apps/actions/permissions.py\<close>, \<^verbatim>\<open>apps/actions/admin_scope.py\<close> and the deploy tokens of
  \<^verbatim>\<open>apps/hosting/deploy_tokens.py\<close>. The hash of a token is a parameter.
\<close>

record principal =
  pr_user_id :: user
  pr_company_id :: "company option"
  pr_email :: string
  pr_username :: string
  pr_is_staff :: bool
  pr_is_company_owner :: bool
  pr_access_global_metrics :: bool
  pr_deploy_token_id :: "uuid option"
  pr_claims :: dict

section \<open>principal.py\<close>

text \<open>
  \<^verbatim>\<open>int(s)\<close> on text: an optional sign and decimal digits, white space around it
  (underscores between digits, which Python also takes, are not covered).
\<close>

definition parse_int :: "string \<Rightarrow> int option" where
  "parse_int text =
     (let s = strip text;
          neg = startswith s ''-'';
          body = (if neg \<or> startswith s ''+'' then tl s else s)
      in if body = [] \<or> \<not> list_all is_digit body then None
         else Some (if neg then - int (digits_val body) else int (digits_val body)))"

text \<open>\<^verbatim>\<open>int(v)\<close>: None stands for TypeError and ValueError.\<close>

fun to_int :: "json \<Rightarrow> int option" where
  "to_int (JInt i) = Some i"
| "to_int (JBool b) = Some (if b then 1 else 0)"
| "to_int (JStr s) = parse_int s"
| "to_int _ = None"

text \<open>\<^verbatim>\<open>str(a or b or '')\<close> where the values are text or absent.\<close>

definition str_or :: "json option \<Rightarrow> json option \<Rightarrow> string" where
  "str_or a b =
     (case a of Some (JStr (c # s)) \<Rightarrow> c # s
      | _ \<Rightarrow> (case b of Some (JStr s) \<Rightarrow> s | _ \<Rightarrow> []))"

definition truthy_opt :: "json option \<Rightarrow> bool" where
  "truthy_opt v = (case v of None \<Rightarrow> False | Some w \<Rightarrow> truthy w)"

definition principal_from_claims :: "dict \<Rightarrow> exn + principal" where
  "principal_from_claims claims =
     (let user_metadata = (case dict_get claims ''user_metadata'' of Some (JDict m) \<Rightarrow> m | _ \<Rightarrow> []);
          raw_uid = (case dict_get claims ''user_id'' of Some v \<Rightarrow> Some v | None \<Rightarrow> dict_get claims ''sub'')
      in case (case raw_uid of None \<Rightarrow> None | Some v \<Rightarrow> to_int v) of
           None \<Rightarrow> Inl Value_Error
         | Some user_id \<Rightarrow>
             bind_res
               (case dict_get claims ''company_id'' of
                  None \<Rightarrow> Inr None
                | Some v \<Rightarrow>
                    if v = JNull \<or> v = JStr [] then Inr None
                    else (case to_int v of None \<Rightarrow> Inl Value_Error | Some c \<Rightarrow> Inr (Some c)))
               (\<lambda>company_id. Inr
                 \<lparr> pr_user_id = user_id, pr_company_id = company_id,
                   pr_email = str_or (dict_get claims ''email'') (dict_get user_metadata ''email''),
                   pr_username = str_or (dict_get claims ''username'') (dict_get user_metadata ''username''),
                   pr_is_staff = truthy_opt (dict_get user_metadata ''is_staff''),
                   pr_is_company_owner = truthy_opt (dict_get user_metadata ''is_company_owner''),
                   pr_access_global_metrics = truthy_opt (dict_get claims ''pat_agm''),
                   pr_deploy_token_id = None, pr_claims = claims \<rparr>))"

section \<open>Permissions\<close>

text \<open>An anonymous request has no principal. \<open>methods\<close> is \<^verbatim>\<open>deploy_token_methods\<close> of the view.\<close>

definition IsAuthenticatedPrincipal :: "principal option \<Rightarrow> string \<Rightarrow> string list \<Rightarrow> bool" where
  "IsAuthenticatedPrincipal user http_method methods =
     (case user of None \<Rightarrow> False
      | Some p \<Rightarrow> if pr_deploy_token_id p \<notin> set [None, Some []] then http_method \<in> set methods else True)"

definition IsStaffOrCompanyOwner :: "principal option \<Rightarrow> bool" where
  "IsStaffOrCompanyOwner user =
     (case user of None \<Rightarrow> False | Some p \<Rightarrow> pr_is_staff p \<or> pr_is_company_owner p)"

definition SAFE_METHODS :: "string list" where
  "SAFE_METHODS = [''GET'', ''HEAD'', ''OPTIONS'']"

definition ActionsAdminPermission :: "principal option \<Rightarrow> string \<Rightarrow> bool" where
  "ActionsAdminPermission user http_method =
     (case user of None \<Rightarrow> False
      | Some p \<Rightarrow>
          if dict_get (pr_claims p) ''pat_ro'' = Some (JBool True) \<and> http_method \<notin> set SAFE_METHODS
          then False else True)"

text \<open>The error is the status of the response; the success is the company in scope.\<close>

definition require_staff_or_company_owner :: "principal option \<Rightarrow> string \<Rightarrow> nat + company" where
  "require_staff_or_company_owner user query_param =
     (case user of None \<Rightarrow> Inl 401
      | Some p \<Rightarrow>
         bind_res
           (let query_company = strip query_param in
            if query_company \<noteq> [] then
              (case parse_int query_company of
                 None \<Rightarrow> Inl 400
               | Some c \<Rightarrow> if Some c \<noteq> pr_company_id p \<and> \<not> pr_is_staff p then Inl 403 else Inr c)
            else (case pr_company_id p of None \<Rightarrow> Inl 400 | Some c \<Rightarrow> Inr c))
           (\<lambda>c. if pr_is_staff p \<or> pr_is_company_owner p then Inr c else Inl 403))"

section \<open>deploy\_tokens.py\<close>

definition TOKEN_PREFIX :: string where
  "TOKEN_PREFIX = ''shellui_dt_''"

definition LOOKUP_LEN :: nat where
  "LOOKUP_LEN = length TOKEN_PREFIX + 8"

definition TOUCH_EVERY :: time where
  "TOUCH_EVERY = minutes 1"

definition insert_token :: "deploy_token \<Rightarrow> db \<Rightarrow> exn + db" where
  "insert_token t d =
     (if has_row (\<lambda>u. tok_id u = tok_id t \<or> tok_hash u = tok_hash t) (tokens d) then Inl Integrity_Error
      else Inr (d\<lparr>tokens := tokens d @ [t]\<rparr>))"

text \<open>\<open>urlsafe\<close> is what \<^verbatim>\<open>secrets.token_urlsafe(32)\<close> drew. The raw token is returned once.\<close>

definition create_deploy_token ::
    "(string \<Rightarrow> string) \<Rightarrow> time \<Rightarrow> uuid \<Rightarrow> string \<Rightarrow> company \<Rightarrow> string \<Rightarrow> user option \<Rightarrow> int option \<Rightarrow> db
      \<Rightarrow> exn + (deploy_token \<times> string \<times> db)" where
  "create_deploy_token hash_token now i urlsafe company_id name created_by_id expires_in_days d =
     (let label = take 100 (strip name) in
      if label = [] then Inl Value_Error
      else bind_res
        (case expires_in_days of
           None \<Rightarrow> Inr None
         | Some n \<Rightarrow> if n < 1 \<or> n > 366 then Inl Value_Error else Inr (Some (now + days n)))
        (\<lambda>expires_at.
           let raw = TOKEN_PREFIX @ urlsafe;
               token = \<lparr> tok_id = i, tok_company_id = company_id, tok_name = label,
                         tok_prefix = take LOOKUP_LEN raw, tok_hash = hash_token raw,
                         tok_created_by_id = created_by_id, tok_created_at = now,
                         tok_last_used_at = None, tok_expires_at = expires_at, tok_revoked_at = None \<rparr>
           in map_res (\<lambda>d'. (token, raw, d')) (insert_token token d)))"

definition update_token :: "uuid \<Rightarrow> (deploy_token \<Rightarrow> deploy_token) \<Rightarrow> db \<Rightarrow> db" where
  "update_token i f d = d\<lparr>tokens := update_rows (\<lambda>t. tok_id t = i) f (tokens d)\<rparr>"

definition revoke_deploy_token :: "time \<Rightarrow> deploy_token \<Rightarrow> db \<Rightarrow> deploy_token \<times> db" where
  "revoke_deploy_token now token d =
     (if tok_revoked_at token = None
      then (token\<lparr>tok_revoked_at := Some now\<rparr>,
            update_token (tok_id token) (\<lambda>t. t\<lparr>tok_revoked_at := Some now\<rparr>) d)
      else (token, d))"

text \<open>
  The result and the database, since a use may be recorded. The error carries the code of
  the 401 answer.
\<close>

definition resolve_deploy_token ::
    "(string \<Rightarrow> string) \<Rightarrow> time \<Rightarrow> string \<Rightarrow> db \<Rightarrow> (exn + deploy_token) \<times> db" where
  "resolve_deploy_token hash_token now raw d =
     (let digest = hash_token raw;
          candidates = filter (\<lambda>t. tok_prefix t = take LOOKUP_LEN raw) (tokens d)
      in case first_row (\<lambda>t. tok_hash t = digest) candidates of
           None \<Rightarrow> (Inl (Auth_Failed ''deploy_token_invalid''), d)
         | Some t \<Rightarrow>
             if tok_revoked_at t \<noteq> None then (Inl (Auth_Failed ''deploy_token_revoked''), d)
             else if (case tok_expires_at t of None \<Rightarrow> False | Some e \<Rightarrow> e \<le> now)
               then (Inl (Auth_Failed ''deploy_token_expired''), d)
             else (Inr t,
               if (case tok_last_used_at t of None \<Rightarrow> True | Some u \<Rightarrow> now - u > TOUCH_EVERY)
               then update_token (tok_id t) (\<lambda>x. x\<lparr>tok_last_used_at := Some now\<rparr>) d else d))"

text \<open>\<^verbatim>\<open>header.split()\<close>: the words between white space.\<close>

fun words_acc :: "string \<Rightarrow> string \<Rightarrow> string list" where
  "words_acc w [] = (if w = [] then [] else [rev w])"
| "words_acc w (c # s) =
     (if is_space c then (if w = [] then words_acc [] s else rev w # words_acc [] s)
      else words_acc (c # w) s)"

definition words_of :: "string \<Rightarrow> string list" where
  "words_of s = words_acc [] s"

text \<open>\<^verbatim>\<open>DeployTokenAuthentication.authenticate\<close>: \<open>Inr None\<close> leaves the request to the JWT scheme.\<close>

definition deploy_token_authenticate ::
    "(string \<Rightarrow> string) \<Rightarrow> time \<Rightarrow> string \<Rightarrow> db \<Rightarrow> (exn + principal option) \<times> db" where
  "deploy_token_authenticate hash_token now header d =
     (case words_of header of
        [scheme, raw] \<Rightarrow>
          if scheme \<noteq> ''Bearer'' \<or> \<not> startswith raw TOKEN_PREFIX then (Inr None, d)
          else (case resolve_deploy_token hash_token now raw d of
                  (Inl e, d') \<Rightarrow> (Inl e, d')
                | (Inr t, d') \<Rightarrow>
                    (Inr (Some \<lparr> pr_user_id = (case tok_created_by_id t of None \<Rightarrow> 0 | Some u \<Rightarrow> u),
                       pr_company_id = Some (tok_company_id t), pr_email = [], pr_username = [],
                       pr_is_staff = False, pr_is_company_owner = False,
                       pr_access_global_metrics = False, pr_deploy_token_id = Some (tok_id t),
                       pr_claims = [] \<rparr>), d'))
      | _ \<Rightarrow> (Inr None, d))"

section \<open>Laws\<close>

lemma digit_no_space: "is_digit c \<Longrightarrow> \<not> is_space c"
  by (auto simp: is_digit_def is_space_def)

lemma parse_int_nat: "parse_int (nat_digits n) = Some (int n)"
proof -
  have d: "\<And>c. c \<in> set (nat_digits n) \<Longrightarrow> is_digit c" by (rule nat_digits_digit)
  have s: "strip (nat_digits n) = nat_digits n"
    by (rule strip_no_space) (use d digit_no_space in blast)
  have h: "is_digit (hd (nat_digits n))" by (rule d) (rule hd_in_set, rule nat_digits_ne)
  have "\<not> startswith (nat_digits n) ''-''" "\<not> startswith (nat_digits n) ''+''"
    using h by (auto simp: startswith_iff char_class_defs)
  then show ?thesis
    using d by (simp add: parse_int_def s nat_digits_ne list_all_iff)
qed

lemma words_acc_word: "\<forall>c\<in>set w. \<not> is_space c \<Longrightarrow> words_acc v w = (if v = [] \<and> w = [] then [] else [rev v @ w])"
  by (induction v w rule: words_acc.induct) auto

lemma words_of_bearer:
  assumes "\<forall>c\<in>set w. \<not> is_space c" "w \<noteq> []"
  shows "words_of (''Bearer '' @ w) = [''Bearer'', w]"
  using assms words_acc_word[OF assms(1), of "[]"] by (simp add: words_of_def char_class_defs)

lemma first_token:
  "\<forall>x\<in>set ts. tok_hash x \<noteq> digest \<Longrightarrow> tok_hash t = digest \<Longrightarrow> tok_prefix t = pfx \<Longrightarrow>
   first_row (\<lambda>t. tok_hash t = digest) (filter (\<lambda>t. tok_prefix t = pfx) (ts @ [t])) = Some t"
  by (induction ts) auto

lemma create_deploy_token_Inr:
  assumes "create_deploy_token h now i u c n b ttl d = Inr (t, raw, d')"
  shows "raw = TOKEN_PREFIX @ u \<and> tokens d' = tokens d @ [t] \<and> tok_id t = i \<and> tok_hash t = h raw
     \<and> tok_prefix t = take LOOKUP_LEN raw \<and> tok_company_id t = c \<and> tok_revoked_at t = None
     \<and> tok_last_used_at t = None \<and> (\<forall>x\<in>set (tokens d). tok_id x \<noteq> i \<and> tok_hash x \<noteq> h raw)
     \<and> tok_expires_at t = map_option (\<lambda>k. now + days k) ttl
     \<and> (\<forall>k. ttl = Some k \<longrightarrow> 1 \<le> k \<and> k \<le> 366)"
  using assms
  by (auto simp: create_deploy_token_def insert_token_def Let_def res_simps has_row_iff
      split: if_splits option.splits)

lemma update_token_append:
  "\<forall>x\<in>set ts. tok_id x \<noteq> tok_id t \<Longrightarrow>
   update_rows (\<lambda>x. tok_id x = tok_id t) f (ts @ [t]) = ts @ [f t]"
  by (induction ts) auto

lemma raw_token_words:
  assumes "\<forall>x\<in>set u. \<not> is_space x"
  shows "words_of (''Bearer '' @ (TOKEN_PREFIX @ u)) = [''Bearer'', TOKEN_PREFIX @ u]"
  by (rule words_of_bearer) (use assms in \<open>auto simp: TOKEN_PREFIX_def char_class_defs\<close>)

lemma starts_with_own_prefix [simp]: "startswith (p @ s) p"
  by (simp add: startswith_iff)

text \<open>C39. The life of a deploy token, for any hash function: the raw token that creation returns
  authenticates as its company with token rights only (neither staff nor owner) strictly before
  its expiry, is refused from the expiry instant on, and is refused for ever once revoked. Its
  lifetime is between 1 and 366 days when it has one.\<close>

theorem deploy_token_lifecycle:
  assumes cr: "create_deploy_token h now i u c n b ttl d = Inr (t, raw, d')"
    and ns: "\<forall>x\<in>set u. \<not> is_space x"
  shows "fst (deploy_token_authenticate h later (''Bearer '' @ raw) d') =
      (case ttl of
         Some k \<Rightarrow> if now + days k \<le> later then Inl (Auth_Failed ''deploy_token_expired'')
           else Inr (Some \<lparr> pr_user_id = (case tok_created_by_id t of None \<Rightarrow> 0 | Some x \<Rightarrow> x),
                 pr_company_id = Some c, pr_email = [], pr_username = [], pr_is_staff = False,
                 pr_is_company_owner = False, pr_access_global_metrics = False,
                 pr_deploy_token_id = Some i, pr_claims = [] \<rparr>)
       | None \<Rightarrow> Inr (Some \<lparr> pr_user_id = (case tok_created_by_id t of None \<Rightarrow> 0 | Some x \<Rightarrow> x),
                 pr_company_id = Some c, pr_email = [], pr_username = [], pr_is_staff = False,
                 pr_is_company_owner = False, pr_access_global_metrics = False,
                 pr_deploy_token_id = Some i, pr_claims = [] \<rparr>))
    \<and> fst (deploy_token_authenticate h later (''Bearer '' @ raw) (snd (revoke_deploy_token r t d')))
        = Inl (Auth_Failed ''deploy_token_revoked'')
    \<and> (case ttl of None \<Rightarrow> True | Some k \<Rightarrow> 1 \<le> k \<and> k \<le> 366)"
proof -
  note C = create_deploy_token_Inr[OF cr]
  then have raw: "raw = TOKEN_PREFIX @ u" by blast
  have f: "first_row (\<lambda>t. tok_hash t = h raw) (filter (\<lambda>t. tok_prefix t = take LOOKUP_LEN raw) (tokens d')) = Some t"
    using first_token[of "tokens d" "h raw" t "take LOOKUP_LEN raw"] C by auto
  let ?t' = "t\<lparr>tok_revoked_at := Some r\<rparr>"
  have "tokens (snd (revoke_deploy_token r t d')) = tokens d @ [?t']"
    using C update_token_append[of "tokens d" t "\<lambda>t. t\<lparr>tok_revoked_at := Some r\<rparr>"]
    by (auto simp: revoke_deploy_token_def update_token_def)
  then have g: "first_row (\<lambda>t. tok_hash t = h raw) (filter (\<lambda>t. tok_prefix t = take LOOKUP_LEN raw)
      (tokens (snd (revoke_deploy_token r t d')))) = Some ?t'"
    using first_token[of "tokens d" "h raw" ?t' "take LOOKUP_LEN raw"] C by auto
  have w: "words_of (''Bearer '' @ raw) = [''Bearer'', raw]" "startswith raw TOKEN_PREFIX"
    unfolding raw using raw_token_words[OF ns] by simp_all
  have 1: "fst (resolve_deploy_token h later raw d') =
      (case ttl of Some k \<Rightarrow> if now + days k \<le> later then Inl (Auth_Failed ''deploy_token_expired'') else Inr t
        | None \<Rightarrow> Inr t)"
    using C unfolding resolve_deploy_token_def Let_def f by (auto split: option.splits)
  have 2: "fst (resolve_deploy_token h later raw (snd (revoke_deploy_token r t d'))) = Inl (Auth_Failed ''deploy_token_revoked'')"
    unfolding resolve_deploy_token_def Let_def g by simp
  have auth: "fst (deploy_token_authenticate h later (''Bearer '' @ raw) x) =
      map_res (\<lambda>t. Some \<lparr> pr_user_id = (case tok_created_by_id t of None \<Rightarrow> 0 | Some x \<Rightarrow> x),
                 pr_company_id = Some (tok_company_id t), pr_email = [], pr_username = [], pr_is_staff = False,
                 pr_is_company_owner = False, pr_access_global_metrics = False,
                 pr_deploy_token_id = Some (tok_id t), pr_claims = [] \<rparr>)
        (fst (resolve_deploy_token h later raw x))" for x
    unfolding deploy_token_authenticate_def w(1) using w(2)
    by (cases "resolve_deploy_token h later raw x"; cases "fst (resolve_deploy_token h later raw x)") auto
  show ?thesis
    unfolding auth 1 2 using C by (auto split: option.splits)
qed

theorem deploy_token_lifecycle_witness:
  "case create_deploy_token (\<lambda>s. s) 0 ''id'' ''secret00token'' 4 ''ci'' (Some 9) (Some 1) empty_db of
     Inr (t, raw, d') \<Rightarrow>
       fst (deploy_token_authenticate (\<lambda>s. s) (days 1) (''Bearer '' @ raw) d') = Inl (Auth_Failed ''deploy_token_expired'')
   | Inl _ \<Rightarrow> False"
proof -
  have s: "strip ''ci'' = ''ci''" by code_simp
  obtain t raw d' where c: "create_deploy_token (\<lambda>s. s) 0 ''id'' ''secret00token'' 4 ''ci'' (Some 9) (Some 1) empty_db
      = Inr (t, raw, d')"
    by (simp add: create_deploy_token_def insert_token_def s has_row_def empty_db_def Let_def)
  have "\<forall>x\<in>set ''secret00token''. \<not> is_space x" by (simp add: char_class_defs)
  from deploy_token_lifecycle[OF c this, of "days 1"] show ?thesis by (simp add: c)
qed

section \<open>Who may do what\<close>

text \<open>The company scope of the administration endpoints: a caller without staff rights only ever gets
  the company of its own token, and only as an owner of it; staff get the company they ask for; an
  anonymous caller gets 401.\<close>

theorem admin_scope_isolation:
  "case require_staff_or_company_owner user q of
     Inr c \<Rightarrow> (\<exists>p. user = Some p \<and> (pr_is_staff p \<or> (pr_is_company_owner p \<and> pr_company_id p = Some c)))
   | Inl s \<Rightarrow> s \<in> {400, 401, 403} \<and> (user = None \<longleftrightarrow> s = 401)"
  by (auto simp: require_staff_or_company_owner_def res_simps Let_def split: option.splits if_splits sum.splits)

lemma metadata_flag:
  "truthy_opt (dict_get (case x of Some (JDict m) \<Rightarrow> m | _ \<Rightarrow> []) k)
     = (case x of Some (JDict m) \<Rightarrow> truthy_opt (dict_get m k) | _ \<Rightarrow> False)"
  by (cases x; cases "the x") (auto simp: dict_get_def truthy_opt_def)

text \<open>A principal made from the claims of a token never is a deploy-token principal, takes its rights
  from the claims alone (staff and owner flags from the user metadata only), and any claims without a
  numeric user id or with a company id that is no number are refused.\<close>

theorem principal_from_claims_correct:
  "case principal_from_claims claims of
     Inr p \<Rightarrow> pr_deploy_token_id p = None \<and> pr_claims p = claims
       \<and> pr_is_staff p = (case dict_get claims ''user_metadata'' of
             Some (JDict m) \<Rightarrow> truthy_opt (dict_get m ''is_staff'') | _ \<Rightarrow> False)
       \<and> Some (pr_user_id p) = (case dict_get claims ''user_id'' of
             Some v \<Rightarrow> to_int v | None \<Rightarrow> (case dict_get claims ''sub'' of None \<Rightarrow> None | Some v \<Rightarrow> to_int v))
       \<and> (pr_company_id p = None \<longleftrightarrow> dict_get claims ''company_id'' \<in> {None, Some JNull, Some (JStr [])})
   | Inl e \<Rightarrow> e = Value_Error"
proof -
  let ?uid = "case (case dict_get claims ''user_id'' of Some v \<Rightarrow> Some v | None \<Rightarrow> dict_get claims ''sub'') of
      None \<Rightarrow> None | Some v \<Rightarrow> to_int v"
  have uid: "?uid = (case dict_get claims ''user_id'' of
      Some v \<Rightarrow> to_int v | None \<Rightarrow> (case dict_get claims ''sub'' of None \<Rightarrow> None | Some v \<Rightarrow> to_int v))"
    by (simp split: option.split)
  show ?thesis
  proof (cases ?uid)
    case None
    then show ?thesis by (simp add: principal_from_claims_def)
  next
    case (Some i)
    consider (absent) "dict_get claims ''company_id'' \<in> {None, Some JNull, Some (JStr [])}"
      | (bad) v where "dict_get claims ''company_id'' = Some v" "v \<noteq> JNull" "v \<noteq> JStr []" "to_int v = None"
      | (good) v c where "dict_get claims ''company_id'' = Some v" "v \<noteq> JNull" "v \<noteq> JStr []" "to_int v = Some c"
      by (metis insertCI option.exhaust)
    then show ?thesis
    proof cases
      case absent
      then show ?thesis
        using Some unfolding principal_from_claims_def Let_def
        by (auto simp: metadata_flag uid[symmetric])
    next
      case bad
      then show ?thesis using Some by (simp add: principal_from_claims_def Let_def)
    next
      case good
      then show ?thesis
        using Some unfolding principal_from_claims_def Let_def
        by (simp add: metadata_flag uid[symmetric])
    qed
  qed
qed

end
