(* ===== verification/Services.thy ===== *)
theory Services
  imports Emit Extract Redirects Auth Slug SemVer
begin

text \<open>
  The core operations: \<^verbatim>\<open>apps/hosting/services.py\<close>, with the serve cache of
  \<^verbatim>\<open>apps/hosting/serve.py\<close> that they invalidate. The world is the database, the artifact
  store, the serve cache, the outbox rows handed to the delivery worker and the requests
  sent to the identity service. A block under \<^verbatim>\<open>transaction.atomic\<close> that raises restores the
  database (and drops the scheduled deliveries) but not the store.

  Each operation reads the clock once (\<open>env_now\<close>) and draws its UUIDs from \<open>env_fresh\<close>:
  stream 0 for the rows it creates, stream 1 and 2 for the events it emits.
\<close>

section \<open>The world\<close>

text \<open>A cached app is the snapshot \<^verbatim>\<open>select_related('current_deployment')\<close> loaded.\<close>

type_synonym serve_cache = "string \<Rightarrow> (time \<times> app \<times> deployment option) option"

record world =
  w_db :: db
  w_files :: files
  w_cache :: serve_cache
  w_scheduled :: "uuid list"
  w_identity :: "(sync_request \<times> nat) list"

record env =
  env_cfg :: settings
  env_now :: time
  env_fresh :: "nat \<Rightarrow> nat \<Rightarrow> uuid"
  env_pick :: "nat \<Rightarrow> nat \<Rightarrow> nat"
  env_untar :: "string \<Rightarrow> tar_result"
  env_identity :: identity

definition invalidate_serve_cache :: "string option \<Rightarrow> serve_cache \<Rightarrow> serve_cache" where
  "invalidate_serve_cache slug cache = (case slug of None \<Rightarrow> (\<lambda>_. None) | Some s \<Rightarrow> cache(s := None))"

text \<open>\<^verbatim>\<open>transaction.atomic\<close> around a block.\<close>

definition atomic :: "(world \<Rightarrow> (exn + 'a) \<times> world) \<Rightarrow> world \<Rightarrow> (exn + 'a) \<times> world" where
  "atomic block w =
     (case block w of
        (Inr r, w') \<Rightarrow> (Inr r, w')
      | (Inl e, w') \<Rightarrow> (Inl e, w'\<lparr>w_db := w_db w, w_scheduled := w_scheduled w\<rparr>))"

definition emit_w ::
    "env \<Rightarrow> nat \<Rightarrow> string \<Rightarrow> company \<Rightarrow> dict \<Rightarrow> dict option \<Rightarrow> world \<Rightarrow> world" where
  "emit_w env stream event_type company_id payload actor w =
     (let (d, ids) = emit_event_if_rules (env_cfg env) (env_now env) (env_fresh env stream) event_type
                       company_id payload actor (w_db w)
      in w\<lparr>w_db := d, w_scheduled := w_scheduled w @ ids\<rparr>)"

definition send_identity :: "(sync_request \<times> nat) option \<Rightarrow> world \<Rightarrow> world" where
  "send_identity req w = (case req of None \<Rightarrow> w | Some r \<Rightarrow> w\<lparr>w_identity := w_identity w @ [r]\<rparr>)"

section \<open>Actors, companies, serialisation\<close>

definition action_actor :: "user option \<Rightarrow> string \<Rightarrow> dict option" where
  "action_actor user_id email =
     (case user_id of None \<Rightarrow> None
      | Some u \<Rightarrow> Some ((''user_id'', JInt u) # (if email \<noteq> [] then [(''email'', JStr email)] else [])))"

definition require_company_id :: "principal \<Rightarrow> exn + company" where
  "require_company_id p =
     (case pr_company_id p of None \<Rightarrow> Inl (Hosting_Error 403 ''missing_company'') | Some c \<Rightarrow> Inr c)"

definition iso :: "time option \<Rightarrow> json" where
  "iso v = (case v of None \<Rightarrow> JNull | Some t \<Rightarrow> JTime t)"

definition opt_int :: "int option \<Rightarrow> json" where
  "opt_int v = (case v of None \<Rightarrow> JNull | Some i \<Rightarrow> JInt i)"

definition opt_str :: "string option \<Rightarrow> json" where
  "opt_str v = (case v of None \<Rightarrow> JNull | Some s \<Rightarrow> JStr s)"

definition serialize_access :: "access option \<Rightarrow> company \<Rightarrow> dict" where
  "serialize_access r company_id =
     (case r of
        None \<Rightarrow>
          [(''company_id'', JInt company_id), (''status'', JStr ''none''), (''requested_at'', JNull),
           (''requested_by_id'', JNull), (''reviewed_at'', JNull), (''reviewed_by_id'', JNull),
           (''notes'', JStr [])]
      | Some a \<Rightarrow>
          [(''company_id'', JInt (acc_company_id a)), (''status'', JStr (access_status_str (acc_status a))),
           (''requested_at'', JTime (acc_requested_at a)), (''requested_by_id'', opt_int (acc_requested_by_id a)),
           (''reviewed_at'', iso (acc_reviewed_at a)), (''reviewed_by_id'', opt_int (acc_reviewed_by_id a)),
           (''notes'', JStr (acc_notes a))])"

definition serialize_app :: "settings \<Rightarrow> app \<Rightarrow> dict" where
  "serialize_app cfg a =
     [(''id'', JStr (app_id a)), (''name'', JStr (app_name a)), (''slug'', JStr (app_slug a)),
      (''company_id'', JInt (app_company_id a)), (''display_name'', JStr (app_display_name a)),
      (''expires_at'', iso (app_expires_at a)),
      (''current_deployment_id'', opt_str (app_current_deployment a)),
      (''created_at'', JTime (app_created_at a)), (''updated_at'', JTime (app_updated_at a))]
     @ (if app_current_deployment a \<noteq> None
        then (case build_app_url cfg (app_slug a) of
                Inr url \<Rightarrow> [(''urls'', JDict [(''url'', JStr url)])] | Inl _ \<Rightarrow> [])
        else [])"

definition serialize_deployment :: "settings \<Rightarrow> app \<Rightarrow> deployment \<Rightarrow> string option \<Rightarrow> dict" where
  "serialize_deployment cfg a r slug_arg =
     (let slug = (case slug_arg of Some s \<Rightarrow> if s = [] then app_slug a else s | None \<Rightarrow> app_slug a);
          payload =
            [(''id'', JStr (dep_id r)), (''app_id'', JStr (dep_app r)), (''app_version'', JStr (dep_app_version r)),
             (''shellui_version'', JStr (dep_shellui_version r)),
             (''status'', JStr (deployment_status_str (dep_status r))), (''pinned'', JBool (dep_pinned r)),
             (''storage_prefix'', JStr (dep_storage_prefix r)), (''deployed_by_id'', opt_int (dep_deployed_by_id r)),
             (''artifact_size'', JInt (dep_artifact_size r)), (''created_at'', JTime (dep_created_at r)),
             (''updated_at'', JTime (dep_updated_at r)), (''finalized_at'', iso (dep_finalized_at r))]
      in if app_current_deployment a = Some (dep_id r)
         then payload @
           [(''urls'', case build_app_url cfg slug of Inr url \<Rightarrow> JDict [(''url'', JStr url)] | Inl _ \<Rightarrow> JDict []),
            (''expires_at'', iso (app_expires_at a))]
         else payload)"

section \<open>Company access\<close>

definition get_access :: "company \<Rightarrow> db \<Rightarrow> access option" where
  "get_access company_id d = first_row (\<lambda>a. acc_company_id a = company_id) (accesses d)"

definition assert_hosting_access :: "settings \<Rightarrow> company \<Rightarrow> db \<Rightarrow> exn + unit" where
  "assert_hosting_access cfg company_id d =
     (if HOSTING_DEBUG_OPEN cfg then Inr ()
      else case get_access company_id d of
        None \<Rightarrow> Inl (Hosting_Error 403 ''hosting_access_denied'')
      | Some r \<Rightarrow> if acc_status r \<noteq> APPROVED then Inl (Hosting_Error 403 ''hosting_access_denied'') else Inr ())"

definition new_access :: "time \<Rightarrow> company \<Rightarrow> user \<Rightarrow> access" where
  "new_access now company_id user_id =
     \<lparr> acc_company_id = company_id, acc_status = PENDING, acc_requested_by_id = Some user_id,
       acc_requested_at = now, acc_reviewed_by_id = None, acc_reviewed_at = None, acc_notes = [] \<rparr>"

definition save_access :: "access \<Rightarrow> db \<Rightarrow> db" where
  "save_access a d =
     d\<lparr>accesses := update_rows (\<lambda>b. acc_company_id b = acc_company_id a) (\<lambda>_. a) (accesses d)\<rparr>"

definition request_access :: "time \<Rightarrow> company \<Rightarrow> user \<Rightarrow> db \<Rightarrow> access \<times> db" where
  "request_access now company_id user_id d =
     (case get_access company_id d of
        None \<Rightarrow> (let r = new_access now company_id user_id in (r, d\<lparr>accesses := accesses d @ [r]\<rparr>))
      | Some r \<Rightarrow>
          if acc_status r = DENIED
          then (let r' = r\<lparr>acc_status := PENDING, acc_requested_by_id := Some user_id, acc_requested_at := now,
                           acc_reviewed_by_id := None, acc_reviewed_at := None\<rparr>
                in (r', save_access r' d))
          else (r, d))"

definition update_access :: "time \<Rightarrow> company \<Rightarrow> string \<Rightarrow> user \<Rightarrow> string \<Rightarrow> db \<Rightarrow> exn + (access \<times> db)" where
  "update_access now company_id status_text reviewer_id notes d =
     (case access_status_of status_text of
        None \<Rightarrow> Inl (Hosting_Error 400 ''invalid_status'')
      | Some s \<Rightarrow>
          (let (r, d1) = (case get_access company_id d of
                  Some r \<Rightarrow> (r, d)
                | None \<Rightarrow> (let r = new_access now company_id reviewer_id in (r, d\<lparr>accesses := accesses d @ [r]\<rparr>)));
               r' = r\<lparr>acc_status := s, acc_reviewed_by_id := Some reviewer_id, acc_reviewed_at := Some now,
                      acc_notes := (if notes \<noteq> [] then notes else acc_notes r)\<rparr>
           in Inr (r', save_access r' d1)))"

section \<open>Preview expiry\<close>

definition preview_expires_at :: "settings \<Rightarrow> time \<Rightarrow> time" where
  "preview_expires_at cfg now =
     (let n = (if HOSTING_PREVIEW_TTL_DAYS cfg = 0 then 7 else HOSTING_PREVIEW_TTL_DAYS cfg)
      in now + days (max n 1))"

definition is_preview_expired :: "time \<Rightarrow> app \<Rightarrow> bool" where
  "is_preview_expired now a = (case app_expires_at a of None \<Rightarrow> False | Some e \<Rightarrow> e \<le> now)"

definition is_preview_app :: "app \<Rightarrow> bool" where
  "is_preview_app a \<longleftrightarrow> app_created_by_id a \<noteq> None \<or> app_expires_at a \<noteq> None"

definition set_expiry :: "settings \<Rightarrow> time \<Rightarrow> app \<Rightarrow> app" where
  "set_expiry cfg now a = a\<lparr>app_expires_at := Some (preview_expires_at cfg now), app_updated_at := now\<rparr>"

definition renew_preview_expiry :: "settings \<Rightarrow> time \<Rightarrow> app \<Rightarrow> db \<Rightarrow> db" where
  "renew_preview_expiry cfg now a d =
     (if app_created_by_id a = None then d else update_app (app_id a) (set_expiry cfg now) d)"

definition renew_app_expiry :: "settings \<Rightarrow> time \<Rightarrow> app \<Rightarrow> db \<Rightarrow> exn + (app \<times> db)" where
  "renew_app_expiry cfg now a d =
     (if app_created_by_id a = None \<and> app_expires_at a = None then Inl (Hosting_Error 409 ''not_preview'')
      else if is_preview_expired now a then Inl (Hosting_Error 409 ''preview_expired'')
      else Inr (set_expiry cfg now a, update_app (app_id a) (set_expiry cfg now) d))"

definition active_app_count :: "time \<Rightarrow> company \<Rightarrow> db \<Rightarrow> nat" where
  "active_app_count now company_id d =
     count_rows (\<lambda>a. app_company_id a = company_id
       \<and> (case app_expires_at a of None \<Rightarrow> True | Some e \<Rightarrow> e > now)) (apps d)"

section \<open>Resolving apps\<close>

text \<open>
  \<^verbatim>\<open>uuid.UUID(ref)\<close>: urn and uuid prefixes, braces and hyphens are dropped; what is left must be
  32 hexadecimal digits. The result is the canonical text.
\<close>

fun remove_sub :: "string \<Rightarrow> string \<Rightarrow> string" where
  "remove_sub p [] = []"
| "remove_sub p (c # s) =
     (if p \<noteq> [] \<and> startswith (c # s) p then remove_sub p (drop (length p) (c # s)) else c # remove_sub p s)"

definition canonical_uuid :: "string \<Rightarrow> uuid" where
  "canonical_uuid h =
     take 8 h @ ''-'' @ take 4 (drop 8 h) @ ''-'' @ take 4 (drop 12 h) @ ''-'' @ take 4 (drop 16 h) @ ''-'' @ drop 20 h"

definition parse_uuid :: "string \<Rightarrow> uuid option" where
  "parse_uuid ref =
     (let h = filter (\<lambda>c. c \<noteq> CHR ''-'')
                (strip_by (\<lambda>c. c \<in> set ''{}'') (remove_sub ''uuid:'' (remove_sub ''urn:'' ref)))
      in if length h = 32 \<and> list_all (\<lambda>c. hex_val c \<noteq> None) h then Some (canonical_uuid (lower h)) else None)"

definition resolve_app_ref :: "string \<Rightarrow> company option \<Rightarrow> db \<Rightarrow> exn + app" where
  "resolve_app_ref app_ref company_id d =
     (let ref = strip app_ref in
      if ref = [] then Inl (Hosting_Error 404 ''app_not_found'')
      else let query = filter (\<lambda>a. case company_id of None \<Rightarrow> True | Some c \<Rightarrow> app_company_id a = c) (apps d);
               found = (case parse_uuid ref of
                          Some i \<Rightarrow> first_row (\<lambda>a. app_id a = i) query
                        | None \<Rightarrow> (case first_row (\<lambda>a. app_name a = ref) query of
                                     Some a \<Rightarrow> Some a
                                   | None \<Rightarrow> first_row (\<lambda>a. app_slug a = ref) query))
           in case found of None \<Rightarrow> Inl (Hosting_Error 404 ''app_not_found'') | Some a \<Rightarrow> Inr a)"

definition resolve_preview_app :: "string \<Rightarrow> company \<Rightarrow> user \<Rightarrow> bool \<Rightarrow> db \<Rightarrow> exn + app" where
  "resolve_preview_app slug company_id user_id any_user d =
     bind_res (validate_slug slug) (\<lambda>normalized.
       case first_row (\<lambda>a. app_slug a = normalized) (apps d) of
         None \<Rightarrow> Inl (Hosting_Error 404 ''preview_not_found'')
       | Some a \<Rightarrow>
           if app_company_id a \<noteq> company_id then Inl (Hosting_Error 403 ''preview_forbidden'')
           else if any_user \<and> \<not> is_preview_app a then Inl (Hosting_Error 403 ''deploy_token_preview_only'')
           else if \<not> any_user \<and> app_created_by_id a \<notin> {None, Some user_id}
             then Inl (Hosting_Error 403 ''preview_forbidden'')
           else Inr a)"

definition assert_deploy_token_preview :: "principal \<Rightarrow> app \<Rightarrow> exn + unit" where
  "assert_deploy_token_preview p a =
     (if pr_deploy_token_id p \<notin> {None, Some []} \<and> \<not> is_preview_app a
      then Inl (Hosting_Error 403 ''deploy_token_preview_only'') else Inr ())"

section \<open>Creating apps and deployments\<close>

definition slug_taken :: "db \<Rightarrow> string \<Rightarrow> bool" where
  "slug_taken d slug = has_row (\<lambda>a. app_slug a = slug) (apps d)"

definition new_app :: "time \<Rightarrow> uuid \<Rightarrow> string \<Rightarrow> string \<Rightarrow> company \<Rightarrow> string \<Rightarrow> user option \<Rightarrow> app" where
  "new_app now i name slug company_id label created_by =
     \<lparr> app_id = i, app_name = name, app_slug = slug, app_company_id = company_id,
       app_display_name = label, app_created_by_id = created_by, app_expires_at = None,
       app_current_deployment = None, app_created_at = now, app_updated_at = now \<rparr>"

definition create_preview_app ::
    "env \<Rightarrow> company \<Rightarrow> user \<Rightarrow> string \<Rightarrow> string \<Rightarrow> world \<Rightarrow> exn + (app \<times> world)" where
  "create_preview_app env company_id user_id display_name actor_email w =
     bind_res (assert_hosting_access (env_cfg env) company_id (w_db w)) (\<lambda>_.
       if int (active_app_count (env_now env) company_id (w_db w)) \<ge> HOSTING_MAX_APPS_PER_COMPANY (env_cfg env)
       then Inl (Hosting_Error 403 ''app_quota_exceeded'')
       else bind_res (generate_public_slug (slug_taken (w_db w)) (env_pick env)) (\<lambda>public_slug.
         let label = (if strip display_name \<noteq> [] then strip display_name else public_slug);
             a = new_app (env_now env) (env_fresh env 0 0) public_slug public_slug company_id label (Some user_id)
         in bind_res (insert_app a (w_db w)) (\<lambda>d.
              Inr (a, emit_w env 1 ''hosting.app.created'' company_id (app_event_payload a)
                        (action_actor (Some user_id) actor_email) (w\<lparr>w_db := d\<rparr>)))))"

definition create_app ::
    "env \<Rightarrow> company \<Rightarrow> string \<Rightarrow> string \<Rightarrow> string option \<Rightarrow> user option \<Rightarrow> string \<Rightarrow> world \<Rightarrow> exn + (app \<times> world)" where
  "create_app env company_id name display_name access_token user_id actor_email w =
     bind_res (assert_hosting_access (env_cfg env) company_id (w_db w)) (\<lambda>_.
       if int (count_rows (\<lambda>a. app_company_id a = company_id) (apps (w_db w)))
            \<ge> HOSTING_MAX_APPS_PER_COMPANY (env_cfg env)
       then Inl (Hosting_Error 403 ''app_quota_exceeded'')
       else bind_res (validate_app_name name) (\<lambda>normalized_name.
         if has_row (\<lambda>a. app_company_id a = company_id \<and> app_name a = normalized_name) (apps (w_db w))
         then Inl (Hosting_Error 409 ''app_name_taken'')
         else bind_res (generate_public_slug (slug_taken (w_db w)) (env_pick env)) (\<lambda>public_slug.
           let label = (if strip display_name \<noteq> [] then strip display_name else normalized_name);
               a = new_app (env_now env) (env_fresh env 0 0) normalized_name public_slug company_id label None
           in bind_res (insert_app a (w_db w)) (\<lambda>d.
                let req = snd (upsert_hosting_oauth_redirect (env_cfg env) (env_identity env) a access_token)
                in Inr (a, emit_w env 1 ''hosting.app.created'' company_id (app_event_payload a)
                             (action_actor user_id actor_email) (send_identity req (w\<lparr>w_db := d\<rparr>)))))))"

definition create_deployment ::
    "env \<Rightarrow> app \<Rightarrow> string \<Rightarrow> string \<Rightarrow> user option \<Rightarrow> bool \<Rightarrow> string \<Rightarrow> world \<Rightarrow> exn + (deployment \<times> world)" where
  "create_deployment env a app_version shellui_version deployed_by_id pinned actor_email w =
     bind_res (assert_hosting_access (env_cfg env) (app_company_id a) (w_db w)) (\<lambda>_.
       if int (length (app_deployments (app_id a) (w_db w))) \<ge> HOSTING_MAX_DEPLOYMENTS_PER_APP (env_cfg env)
       then Inl (Hosting_Error 403 ''deployment_quota_exceeded'')
       else bind_res (parse app_version) (\<lambda>_. bind_res (parse shellui_version) (\<lambda>_.
         let i = env_fresh env 0 1;
             r = \<lparr> dep_id = i, dep_app = app_id a, dep_app_version = strip app_version,
                   dep_shellui_version = strip shellui_version, dep_status = DRAFT, dep_pinned = pinned,
                   dep_storage_prefix = app_id a @ ''/deployments/'' @ i @ ''/'',
                   dep_deployed_by_id = deployed_by_id, dep_artifact_size = 0, dep_created_at = env_now env,
                   dep_updated_at = env_now env, dep_finalized_at = None \<rparr>
         in bind_res (insert_deployment r (w_db w)) (\<lambda>d.
              Inr (r, emit_w env 2 ''hosting.deployment.created'' (app_company_id a)
                        (deployment_event_payload a r (Some DRAFT) None)
                        (action_actor deployed_by_id actor_email) (w\<lparr>w_db := d\<rparr>))))))"

definition prepare_preview_deploy_atomic ::
    "env \<Rightarrow> company \<Rightarrow> user \<Rightarrow> string option \<Rightarrow> string \<Rightarrow> string \<Rightarrow> string \<Rightarrow> string \<Rightarrow> bool \<Rightarrow> world
      \<Rightarrow> exn + ((app \<times> deployment) \<times> world)" where
  "prepare_preview_deploy_atomic env company_id user_id slug display_name app_version shellui_version
       actor_email any_user w =
     bind_res
       (case slug of
          Some s \<Rightarrow>
            if strip s \<noteq> []
            then map_res (\<lambda>a. (a, w)) (resolve_preview_app (strip s) company_id user_id any_user (w_db w))
            else create_preview_app env company_id user_id display_name actor_email w
        | None \<Rightarrow> create_preview_app env company_id user_id display_name actor_email w)
       (\<lambda>(a, w1). map_res (\<lambda>(r, w2). ((a, r), w2))
          (create_deployment env a app_version shellui_version (Some user_id) False actor_email w1))"

definition prepare_preview_deploy ::
    "env \<Rightarrow> company \<Rightarrow> user \<Rightarrow> string option \<Rightarrow> string \<Rightarrow> string \<Rightarrow> string \<Rightarrow> string option \<Rightarrow> string \<Rightarrow> bool \<Rightarrow> world
      \<Rightarrow> exn + (app \<times> deployment \<times> redirect_sync_result \<times> world)" where
  "prepare_preview_deploy env company_id user_id slug display_name app_version shellui_version access_token
       actor_email any_user w =
     map_res (\<lambda>((a, r), w1).
        let (sync, req) = upsert_hosting_oauth_redirect (env_cfg env) (env_identity env) a access_token
        in (a, r, sync, send_identity req w1))
       (prepare_preview_deploy_atomic env company_id user_id slug display_name app_version shellui_version
          actor_email any_user w)"

section \<open>Uploading\<close>

definition upload_deployment_artifact ::
    "env \<Rightarrow> deployment \<Rightarrow> string list \<Rightarrow> int option \<Rightarrow> world \<Rightarrow> exn + (deployment \<times> world)" where
  "upload_deployment_artifact env r fileobj content_length w =
     (if dep_status r \<notin> {DRAFT, UPLOADING, FAILED} then Inl (Hosting_Error 409 ''invalid_deployment_status'')
      else let max_bytes = HOSTING_MAX_UPLOAD_BYTES (env_cfg env) in
      if (case content_length of None \<Rightarrow> False | Some n \<Rightarrow> n > max_bytes)
      then Inl (Hosting_Error 413 ''upload_too_large'')
      else bind_res (save_artifact (artifact_key (env_cfg env) (dep_storage_prefix r)) fileobj max_bytes (w_files w))
        (\<lambda>(nbytes, fs).
           let f = (\<lambda>x. x\<lparr>dep_status := UPLOADING, dep_artifact_size := nbytes, dep_updated_at := env_now env\<rparr>)
           in Inr (f r, w\<lparr>w_files := fs, w_db := update_deployment (dep_id r) f (w_db w)\<rparr>)))"

section \<open>Activating\<close>

text \<open>\<^verbatim>\<open>Deployment.objects.filter(app=app, status=ACTIVE).exclude(id=...).update(...)\<close>\<close>

definition supersede_others :: "time \<Rightarrow> uuid \<Rightarrow> uuid \<Rightarrow> db \<Rightarrow> db" where
  "supersede_others now app_key dep_key d =
     d\<lparr>deployments := update_rows (\<lambda>x. dep_app x = app_key \<and> dep_status x = ACTIVE \<and> dep_id x \<noteq> dep_key)
         (\<lambda>x. x\<lparr>dep_status := SUPERSEDED, dep_updated_at := now\<rparr>) (deployments d)\<rparr>"

definition set_current :: "time \<Rightarrow> uuid \<Rightarrow> app \<Rightarrow> app" where
  "set_current now dep_key a = a\<lparr>app_current_deployment := Some dep_key, app_updated_at := now\<rparr>"

definition mark_active :: "time \<Rightarrow> time option \<Rightarrow> deployment \<Rightarrow> deployment" where
  "mark_active now finalized x =
     x\<lparr>dep_status := ACTIVE, dep_finalized_at := finalized, dep_updated_at := now\<rparr>"

definition activate_body :: "env \<Rightarrow> app \<Rightarrow> deployment \<Rightarrow> dict option \<Rightarrow> world \<Rightarrow> (exn + deployment) \<times> world" where
  "activate_body env a r actor w =
     (if dep_status r \<notin> {UPLOADING, READY, DRAFT}
      then (Inl (Hosting_Error 409 ''invalid_deployment_status''), w)
      else if dep_artifact_size r \<le> 0 then (Inl (Hosting_Error 400 ''artifact_missing''), w)
      else case extract_deployment_artifact (env_cfg env) (env_untar env) (dep_storage_prefix r) (w_files w) of
        (Inl e, fs) \<Rightarrow>
          (Inl (if e = File_Not_Found then Hosting_Error 400 ''artifact_missing'' else e), w\<lparr>w_files := fs\<rparr>)
      | (Inr _, fs) \<Rightarrow>
          (let now = env_now env;
               r' = mark_active now (Some now) r;
               d1 = supersede_others now (app_id a) (dep_id r) (w_db w);
               d2 = update_deployment (dep_id r) (mark_active now (Some now)) d1;
               d3 = renew_preview_expiry (env_cfg env) now a d2;
               d4 = update_app (app_id a) (set_current now (dep_id r)) d3;
               w1 = w\<lparr>w_files := fs, w_db := d4,
                      w_cache := invalidate_serve_cache (Some (app_slug a)) (w_cache w)\<rparr>
           in (Inr r', emit_w env 1 ''hosting.deployment.succeeded'' (app_company_id a)
                         (deployment_event_payload a r' (Some ACTIVE) None) actor w1)))"

definition activate_deployment :: "env \<Rightarrow> app \<Rightarrow> deployment \<Rightarrow> dict option \<Rightarrow> world \<Rightarrow> (exn + deployment) \<times> world" where
  "activate_deployment env a r actor w = atomic (activate_body env a r actor) w"

definition mark_deployment_failed :: "env \<Rightarrow> app \<Rightarrow> deployment \<Rightarrow> dict option \<Rightarrow> world \<Rightarrow> world" where
  "mark_deployment_failed env a r actor w =
     (let f = (\<lambda>x. x\<lparr>dep_status := FAILED, dep_updated_at := env_now env\<rparr>)
      in emit_w env 2 ''hosting.deployment.failed'' (app_company_id a)
           (deployment_event_payload a (f r) (Some FAILED) (Some ''artifact_extract_failed'')) actor
           (w\<lparr>w_db := update_deployment (dep_id r) f (w_db w)\<rparr>))"

definition finalize_deployment ::
    "env \<Rightarrow> app \<Rightarrow> deployment \<Rightarrow> user option \<Rightarrow> string \<Rightarrow> string option \<Rightarrow> world
      \<Rightarrow> (exn + (deployment \<times> redirect_sync_result)) \<times> world" where
  "finalize_deployment env a r user_id actor_email access_token w =
     (let actor = (case user_id of Some u \<Rightarrow> action_actor (Some u) actor_email
                   | None \<Rightarrow> action_actor (dep_deployed_by_id r) [])
      in case activate_deployment env a r actor w of
           (Inl e, w1) \<Rightarrow>
             if e = Extract_Error
             then (Inl (Hosting_Error 400 ''artifact_extract_failed''), mark_deployment_failed env a r actor w1)
             else (Inl e, w1)
         | (Inr r', w1) \<Rightarrow>
             (let (sync, req) = upsert_hosting_oauth_redirect (env_cfg env) (env_identity env) a access_token
              in (Inr (r', sync), send_identity req w1)))"

definition rollback_deployment :: "env \<Rightarrow> app \<Rightarrow> deployment \<Rightarrow> world \<Rightarrow> exn + (deployment \<times> world)" where
  "rollback_deployment env a r w =
     (if dep_status r \<notin> {READY, ACTIVE, SUPERSEDED} then Inl (Hosting_Error 409 ''invalid_deployment_status'')
      else if dep_artifact_size r \<le> 0 then Inl (Hosting_Error 400 ''artifact_missing'')
      else let now = env_now env;
               finalized = (case dep_finalized_at r of Some t \<Rightarrow> Some t | None \<Rightarrow> Some now);
               d1 = supersede_others now (app_id a) (dep_id r) (w_db w);
               d2 = update_deployment (dep_id r) (mark_active now finalized) d1;
               d3 = update_app (app_id a) (set_current now (dep_id r)) d2
           in Inr (mark_active now finalized r,
                w\<lparr>w_db := d3, w_cache := invalidate_serve_cache (Some (app_slug a)) (w_cache w)\<rparr>))"

section \<open>Deleting\<close>

definition delete_deployment_artifacts :: "settings \<Rightarrow> deployment \<Rightarrow> files \<Rightarrow> files" where
  "delete_deployment_artifacts cfg r fs =
     (let sp = dep_storage_prefix r;
          fs1 = delete_extracted_prefix cfg sp fs;
          key = artifact_key cfg sp;
          fs2 = (if storage_exists fs1 key then storage_delete key fs1 else fs1)
      in if is_s3_backend cfg then delete_artifact_prefix cfg sp fs2
         else delete_filesystem_tree (build_storage_key cfg (rstrip_char CHR ''/'' sp)) fs2)"

definition delete_app_artifacts :: "settings \<Rightarrow> app \<Rightarrow> db \<Rightarrow> files \<Rightarrow> files" where
  "delete_app_artifacts cfg a d fs =
     foldl (\<lambda>fs r. delete_deployment_artifacts cfg r fs) fs (app_deployments (app_id a) d)"

definition delete_app ::
    "env \<Rightarrow> app \<Rightarrow> string option \<Rightarrow> user option \<Rightarrow> string \<Rightarrow> world \<Rightarrow> world" where
  "delete_app env a access_token user_id actor_email w =
     (let payload = app_event_payload a;
          origin = (case app_origin_for_sync (env_cfg env) (app_slug a) of Inr o1 \<Rightarrow> Some o1 | Inl _ \<Rightarrow> None);
          w1 = w\<lparr>w_files := delete_app_artifacts (env_cfg env) a (w_db w) (w_files w),
                 w_db := delete_app_row (app_id a) (w_db w)\<rparr>;
          w2 = emit_w env 1 ''hosting.app.deleted'' (app_company_id a) payload (action_actor user_id actor_email) w1
      in case origin of
           None \<Rightarrow> w2
         | Some o1 \<Rightarrow>
             if o1 = [] then w2
             else send_identity
                (snd (delete_hosting_oauth_redirect_origin (env_cfg env) (env_identity env) o1 access_token)) w2)"

end
