(* ===== verification/Lifecycle.thy ===== *)
theory Lifecycle
  imports Services
begin

text \<open>
  The invariant of the hosting tables and the lifecycle of deployments. \<open>wf_db\<close> says that
  the constraints of the models hold and that a deployment is active exactly when its
  app points to it. Every operation of \<open>Services\<close> preserves it; \<open>service_step\<close> is the step
  relation of the service (each step loads its rows from the database, as the views do)
  and \<open>reachable\<close> its reachable worlds.
\<close>

section \<open>The invariant\<close>

text \<open>The text of a UUID (and of any key without slashes, spaces and upper-case letters).\<close>

definition uuid_ok :: "uuid \<Rightarrow> bool" where
  "uuid_ok i \<longleftrightarrow> i \<noteq> [] \<and> list_all slug_char i"

definition app_key :: "app \<Rightarrow> company \<times> string" where
  "app_key a = (app_company_id a, app_name a)"

definition keys_ok :: "db \<Rightarrow> bool" where
  "keys_ok d \<longleftrightarrow> distinct (map app_id (apps d)) \<and> distinct (map app_slug (apps d))
     \<and> distinct (map app_key (apps d)) \<and> distinct (map dep_id (deployments d))
     \<and> distinct (map acc_company_id (accesses d))"

definition deployment_ok :: "deployment \<Rightarrow> bool" where
  "deployment_ok r \<longleftrightarrow> uuid_ok (dep_app r) \<and> uuid_ok (dep_id r)
     \<and> dep_storage_prefix r = dep_app r @ ''/deployments/'' @ dep_id r @ ''/''
     \<and> 0 \<le> dep_artifact_size r \<and> (dep_status r = ACTIVE \<longrightarrow> 0 < dep_artifact_size r)"

definition owned :: "app list \<Rightarrow> deployment \<Rightarrow> bool" where
  "owned as r \<longleftrightarrow> (\<exists>a\<in>set as. app_id a = dep_app r)"

definition lifecycle_ok :: "db \<Rightarrow> bool" where
  "lifecycle_ok d \<longleftrightarrow>
     (\<forall>a\<in>set (apps d). \<forall>r\<in>set (deployments d). dep_app r = app_id a \<longrightarrow>
        (dep_status r = ACTIVE \<longleftrightarrow> app_current_deployment a = Some (dep_id r)))
     \<and> (\<forall>a\<in>set (apps d). \<forall>c. app_current_deployment a = Some c \<longrightarrow>
        (\<exists>r\<in>set (deployments d). dep_id r = c \<and> dep_app r = app_id a))"

definition wf_db :: "db \<Rightarrow> bool" where
  "wf_db d \<longleftrightarrow> keys_ok d \<and> (\<forall>r\<in>set (deployments d). deployment_ok r \<and> owned (apps d) r)
     \<and> (\<forall>a\<in>set (apps d). uuid_ok (app_id a)) \<and> lifecycle_ok d"

lemma wf_db_cong:
  "apps d' = apps d \<Longrightarrow> deployments d' = deployments d \<Longrightarrow> accesses d' = accesses d \<Longrightarrow> wf_db d' = wf_db d"
  by (simp add: wf_db_def keys_ok_def lifecycle_ok_def)

lemma lifecycle_ok_code [code]:
  "lifecycle_ok d \<longleftrightarrow>
     (\<forall>a\<in>set (apps d). (\<forall>r\<in>set (deployments d). dep_app r = app_id a \<longrightarrow>
        (dep_status r = ACTIVE \<longleftrightarrow> app_current_deployment a = Some (dep_id r)))
      \<and> (case app_current_deployment a of None \<Rightarrow> True
         | Some c \<Rightarrow> \<exists>r\<in>set (deployments d). dep_id r = c \<and> dep_app r = app_id a))"
  unfolding lifecycle_ok_def by (auto split: option.split)

text \<open>Rows and a database for the examples.\<close>

definition demo_app :: "uuid \<Rightarrow> company \<Rightarrow> user option \<Rightarrow> uuid option \<Rightarrow> app" where
  "demo_app i c u cur =
     \<lparr> app_id = i, app_name = i @ ''-site'', app_slug = i @ ''slug'', app_company_id = c, app_display_name = i,
       app_created_by_id = u, app_expires_at = None, app_current_deployment = cur,
       app_created_at = 0, app_updated_at = 0 \<rparr>"

definition demo_deployment :: "uuid \<Rightarrow> uuid \<Rightarrow> deployment_status \<Rightarrow> int \<Rightarrow> deployment" where
  "demo_deployment a i st n =
     \<lparr> dep_id = i, dep_app = a, dep_app_version = ''1.0.0'', dep_shellui_version = ''1.0.0'', dep_status = st,
       dep_pinned = False, dep_storage_prefix = a @ ''/deployments/'' @ i @ ''/'', dep_deployed_by_id = Some 7,
       dep_artifact_size = n, dep_created_at = 0, dep_updated_at = 0, dep_finalized_at = None \<rparr>"

definition demo_db :: db where
  "demo_db = empty_db\<lparr>
     accesses := [\<lparr>acc_company_id = 1, acc_status = APPROVED, acc_requested_by_id = Some 7, acc_requested_at = 0,
        acc_reviewed_by_id = Some 1, acc_reviewed_at = Some 0, acc_notes = []\<rparr>],
     apps := [demo_app ''a1'' 1 None (Some ''d1''), demo_app ''a2'' 2 None (Some ''d3'')],
     deployments := [demo_deployment ''a1'' ''d1'' ACTIVE 3, demo_deployment ''a1'' ''d2'' UPLOADING 3,
        demo_deployment ''a2'' ''d3'' ACTIVE 2]\<rparr>"

lemma wf_demo_db: "wf_db demo_db"
  by code_simp

lemma wf_empty: "wf_db empty_db"
  by (simp add: wf_db_def keys_ok_def lifecycle_ok_def empty_db_def)

lemma emit_w_frame [simp]:
  "apps (w_db (emit_w env n ev c pl act w)) = apps (w_db w)"
  "deployments (w_db (emit_w env n ev c pl act w)) = deployments (w_db w)"
  "accesses (w_db (emit_w env n ev c pl act w)) = accesses (w_db w)"
  "tokens (w_db (emit_w env n ev c pl act w)) = tokens (w_db w)"
  "w_files (emit_w env n ev c pl act w) = w_files w"
  "w_cache (emit_w env n ev c pl act w) = w_cache w"
  "w_identity (emit_w env n ev c pl act w) = w_identity w"
  using emit_if_rules_apps[of "env_cfg env" "env_now env" "env_fresh env n" ev c pl act "w_db w"]
  by (simp_all add: emit_w_def Let_def case_prod_beta)

lemma wf_emit_w [simp]: "wf_db (w_db (emit_w env n ev c pl act w)) = wf_db (w_db w)"
  by (rule wf_db_cong) simp_all

lemma send_identity_frame [simp]:
  "w_db (send_identity q w) = w_db w" "w_files (send_identity q w) = w_files w"
  "w_cache (send_identity q w) = w_cache w" "w_scheduled (send_identity q w) = w_scheduled w"
  by (simp_all add: send_identity_def split: option.split)

section \<open>Tables that change row by row\<close>

definition same_app :: "app \<Rightarrow> app \<Rightarrow> bool" where
  "same_app a b \<longleftrightarrow> app_id b = app_id a \<and> app_slug b = app_slug a \<and> app_name b = app_name a
     \<and> app_company_id b = app_company_id a"

definition same_deployment :: "deployment \<Rightarrow> deployment \<Rightarrow> bool" where
  "same_deployment x y \<longleftrightarrow> dep_id y = dep_id x \<and> dep_app y = dep_app x \<and> dep_storage_prefix y = dep_storage_prefix x"

lemma keys_ok_map:
  assumes "keys_ok d" "apps d' = map g (apps d)" "deployments d' = map h (deployments d)" "accesses d' = accesses d"
    and "\<And>a. same_app a (g a)" "\<And>x. same_deployment x (h x)"
  shows "keys_ok d'"
proof -
  have "map app_id (map g xs) = map app_id xs" "map app_slug (map g xs) = map app_slug xs"
    "map app_key (map g xs) = map app_key xs" for xs
    using assms(5) by (auto simp: same_app_def app_key_def)
  moreover have "map dep_id (map h xs) = map dep_id xs" for xs
    using assms(6) by (auto simp: same_deployment_def)
  ultimately show ?thesis using assms(1-4) by (simp add: keys_ok_def del: map_map)
qed

lemma wf_map:
  assumes wf: "wf_db d"
    and a: "apps d' = map g (apps d)" and r: "deployments d' = map h (deployments d)"
    and acc: "accesses d' = accesses d"
    and g: "\<And>a. same_app a (g a)" and h: "\<And>x. same_deployment x (h x)"
    and sz: "\<And>x. x \<in> set (deployments d) \<Longrightarrow> 0 \<le> dep_artifact_size (h x)
        \<and> (dep_status (h x) = ACTIVE \<longrightarrow> 0 < dep_artifact_size (h x))"
    and life: "lifecycle_ok d'"
  shows "wf_db d'"
proof -
  have "keys_ok d'" by (rule keys_ok_map[OF _ a r acc g h]) (use wf in \<open>simp add: wf_db_def\<close>)
  moreover have "deployment_ok (h x) \<and> owned (apps d') (h x)" if "x \<in> set (deployments d)" for x
  proof -
    have x: "deployment_ok x" "owned (apps d) x" using wf that by (auto simp: wf_db_def)
    have "owned (apps d') (h x)"
      using x(2) g h[of x] by (auto simp: owned_def a same_app_def same_deployment_def)
    then show ?thesis using x(1) h[of x] sz[OF that] by (auto simp: deployment_ok_def same_deployment_def)
  qed
  moreover have "uuid_ok (app_id (g b))" if "b \<in> set (apps d)" for b
    using wf that g[of b] by (auto simp: wf_db_def same_app_def)
  ultimately show ?thesis using life by (auto simp: wf_db_def a r)
qed

text \<open>Changes that leave the active deployment of every app alone.\<close>

lemma lifecycle_map_same:
  assumes "lifecycle_ok d" "apps d' = map g (apps d)" "deployments d' = map h (deployments d)"
    and "\<And>a. same_app a (g a) \<and> app_current_deployment (g a) = app_current_deployment a"
    and "\<And>x. x \<in> set (deployments d) \<Longrightarrow> same_deployment x (h x) \<and> (dep_status (h x) = ACTIVE \<longleftrightarrow> dep_status x = ACTIVE)"
  shows "lifecycle_ok d'"
  using assms(1,4,5) unfolding lifecycle_ok_def same_app_def same_deployment_def assms(2,3) by auto

text \<open>Changes that make \<open>r\<close> the active deployment of its app.\<close>

lemma lifecycle_activate:
  assumes wf: "wf_db d" and r: "r \<in> set (deployments d)" "dep_app r = app_id a"
    and g: "\<And>b. app_id (g b) = app_id b \<and> app_current_deployment (g b)
        = (if app_id b = app_id a then Some (dep_id r) else app_current_deployment b)"
    and h: "\<And>x. same_deployment x (h x) \<and> dep_status (h x)
        = (if dep_id x = dep_id r then ACTIVE
           else if dep_app x = app_id a \<and> dep_status x = ACTIVE then SUPERSEDED else dep_status x)"
    and "apps d' = map g (apps d)" "deployments d' = map h (deployments d)"
  shows "lifecycle_ok d'"
proof -
  have L: "lifecycle_ok d" and dk: "distinct (map dep_id (deployments d))"
    using wf by (auto simp: wf_db_def keys_ok_def)
  have uniq: "x = r" if "x \<in> set (deployments d)" "dep_id x = dep_id r" for x
    by (rule distinct_map_unique[OF dk that(1) r(1) that(2)])
  have one: "dep_status (h x) = ACTIVE \<longleftrightarrow> app_current_deployment (g b) = Some (dep_id (h x))"
    if m: "b \<in> set (apps d)" "x \<in> set (deployments d)" "dep_app (h x) = app_id (g b)" for b x
  proof -
    have xb: "dep_app x = app_id b" "dep_id (h x) = dep_id x"
      using m(3) g[of b] h[of x] by (auto simp: same_deployment_def)
    have "dep_status x = ACTIVE \<longleftrightarrow> app_current_deployment b = Some (dep_id x)"
      using L m(1,2) xb(1) by (auto simp: lifecycle_ok_def)
    then show ?thesis using g[of b] h[of x] xb uniq[OF m(2)] r(2) by auto
  qed
  have two: "\<exists>x\<in>set (deployments d). dep_id (h x) = c \<and> dep_app (h x) = app_id (g b)"
    if m: "b \<in> set (apps d)" "app_current_deployment (g b) = Some c" for b c
  proof (cases "app_id b = app_id a")
    case True
    then show ?thesis using r g[of b] h[of r] m(2) by (auto simp: same_deployment_def)
  next
    case False
    then have "app_current_deployment b = Some c" using g[of b] m(2) by simp
    then obtain x where "x \<in> set (deployments d)" "dep_id x = c" "dep_app x = app_id b"
      using L m(1) unfolding lifecycle_ok_def by blast
    then show ?thesis using g[of b] h[of x] by (auto simp: same_deployment_def)
  qed
  show ?thesis
    unfolding lifecycle_ok_def assms(6,7) using one two by auto
qed

section \<open>Each operation preserves the invariant\<close>

lemma wf_update_app_same:
  assumes "wf_db d" "\<And>a. same_app a (f a) \<and> app_current_deployment (f a) = app_current_deployment a"
  shows "wf_db (update_app i f d)"
proof (rule wf_map[OF assms(1), where g = "\<lambda>b. if app_id b = i then f b else b" and h = id])
  show "lifecycle_ok (update_app i f d)"
    by (rule lifecycle_map_same[where d = d and g = "\<lambda>b. if app_id b = i then f b else b" and h = id])
      (use assms in \<open>auto simp: wf_db_def update_app_def update_rows_def same_app_def same_deployment_def\<close>)
qed (use assms in \<open>auto simp: wf_db_def deployment_ok_def update_app_def update_rows_def same_app_def same_deployment_def\<close>)

lemma set_expiry_same: "same_app a (set_expiry cfg now a) \<and> app_current_deployment (set_expiry cfg now a) = app_current_deployment a"
  by (simp add: set_expiry_def same_app_def)

lemma wf_update_deployment_same:
  assumes "wf_db d" "\<And>x. same_deployment x (f x) \<and> 0 \<le> dep_artifact_size (f x) \<and> dep_status (f x) \<noteq> ACTIVE"
    and "\<And>x. x \<in> set (deployments d) \<Longrightarrow> dep_id x = i \<Longrightarrow> dep_status x \<noteq> ACTIVE"
  shows "wf_db (update_deployment i f d)"
proof (rule wf_map[OF assms(1), where g = id and h = "\<lambda>x. if dep_id x = i then f x else x"])
  show "lifecycle_ok (update_deployment i f d)"
    by (rule lifecycle_map_same[where d = d and g = id and h = "\<lambda>x. if dep_id x = i then f x else x"])
      (use assms in \<open>auto simp: wf_db_def update_deployment_def update_rows_def same_app_def same_deployment_def\<close>)
qed (use assms in \<open>auto simp: wf_db_def deployment_ok_def update_deployment_def update_rows_def same_app_def same_deployment_def\<close>)

lemma status_of_row:
  "keys_ok d \<Longrightarrow> r \<in> set (deployments d) \<Longrightarrow> x \<in> set (deployments d) \<Longrightarrow> dep_id x = dep_id r \<Longrightarrow> x = r"
  unfolding keys_ok_def using distinct_map_unique by metis

text \<open>The rows after an activation, by finalize or by rollback.\<close>

lemma wf_activation:
  assumes wf: "wf_db d" and r: "r \<in> set (deployments d)" "dep_app r = app_id a" "0 < dep_artifact_size r"
    and f: "\<And>b. same_app b (f b) \<and> app_current_deployment (f b) = app_current_deployment b"
  shows "wf_db (update_app (app_id a) (set_current now (dep_id r)) (update_app (app_id a) f
     (update_deployment (dep_id r) (mark_active now fin) (supersede_others now (app_id a) (dep_id r) d))))"
    (is "wf_db ?d")
proof -
  let ?g = "\<lambda>b. if app_id b = app_id a then set_current now (dep_id r) (f b) else b"
  let ?s = "\<lambda>x. if dep_app x = app_id a \<and> dep_status x = ACTIVE \<and> dep_id x \<noteq> dep_id r
      then x\<lparr>dep_status := SUPERSEDED, dep_updated_at := now\<rparr> else x"
  let ?h = "\<lambda>x. if dep_id x = dep_id r then mark_active now fin (?s x) else ?s x"
  have A: "apps ?d = map ?g (apps d)"
    using f by (auto simp: update_app_def update_deployment_def supersede_others_def update_rows_def same_app_def)
  have D: "deployments ?d = map ?h (deployments d)"
    by (auto simp: update_app_def update_deployment_def supersede_others_def update_rows_def)
  have C: "accesses ?d = accesses d"
    by (simp add: update_app_def update_deployment_def supersede_others_def)
  have G: "same_app b (?g b)" for b using f[of b] by (auto simp: same_app_def set_current_def)
  have H: "same_deployment x (?h x)" for x by (auto simp: same_deployment_def mark_active_def)
  have G2: "app_id (?g b) = app_id b \<and> app_current_deployment (?g b)
      = (if app_id b = app_id a then Some (dep_id r) else app_current_deployment b)" for b
    using f[of b] by (auto simp: set_current_def same_app_def)
  have H2: "same_deployment x (?h x) \<and> dep_status (?h x)
      = (if dep_id x = dep_id r then ACTIVE
         else if dep_app x = app_id a \<and> dep_status x = ACTIVE then SUPERSEDED else dep_status x)" for x
    using H[of x] by (auto simp: mark_active_def)
  have L: "lifecycle_ok ?d" by (rule lifecycle_activate[OF wf r(1,2) G2 H2 A D])
  have S: "0 \<le> dep_artifact_size (?h x) \<and> (dep_status (?h x) = ACTIVE \<longrightarrow> 0 < dep_artifact_size (?h x))"
    if x: "x \<in> set (deployments d)" for x
  proof -
    have "deployment_ok x" "keys_ok d" using wf x by (auto simp: wf_db_def)
    then show ?thesis
      using status_of_row[OF _ r(1) x] r(3) by (auto simp: deployment_ok_def mark_active_def)
  qed
  show ?thesis by (rule wf_map[OF wf A D C G H S L])
qed

lemma update_app_id: "update_app i (\<lambda>a. a) d = d"
  by (simp add: update_app_def update_rows_def)

lemma renew_preview_cases:
  "renew_preview_expiry cfg now a d = update_app (app_id a)
     (if app_created_by_id a = None then (\<lambda>b. b) else set_expiry cfg now) d"
  by (simp add: renew_preview_expiry_def update_app_id)

lemma expiry_or_id_same:
  "same_app b ((if c then (\<lambda>b. b) else set_expiry cfg now) b)
   \<and> app_current_deployment ((if c then (\<lambda>b. b) else set_expiry cfg now) b) = app_current_deployment b"
  using set_expiry_same by (auto simp: same_app_def)

lemma wf_activate_deployment:
  assumes "wf_db (w_db w)" "r \<in> set (deployments (w_db w))" "dep_app r = app_id a"
    and "activate_deployment env a r actor w = (res, w')"
  shows "wf_db (w_db w')"
proof (cases res)
  case (Inl e)
  then show ?thesis using assms(1,4) by (auto simp: activate_deployment_def atomic_def split: prod.splits sum.splits)
next
  case (Inr r')
  then have b: "activate_body env a r actor w = (Inr r', w')"
    using assms(4) by (auto simp: activate_deployment_def atomic_def split: prod.splits sum.splits)
  then have sz: "0 < dep_artifact_size r"
    by (auto simp: activate_body_def Let_def split: if_splits prod.splits sum.splits)
  have "wf_db (w_db w') = wf_db (update_app (app_id a) (set_current (env_now env) (dep_id r))
      (renew_preview_expiry (env_cfg env) (env_now env) a
        (update_deployment (dep_id r) (mark_active (env_now env) (Some (env_now env)))
          (supersede_others (env_now env) (app_id a) (dep_id r) (w_db w)))))"
    using b by (auto simp: activate_body_def Let_def split: if_splits prod.splits sum.splits)
  then show ?thesis
    unfolding renew_preview_cases using wf_activation[OF assms(1-3) sz expiry_or_id_same] by simp
qed

lemma activate_body_row_status:
  "activate_body env a r actor w = (Inl Extract_Error, w') \<Longrightarrow> dep_status r \<noteq> ACTIVE \<and> deployments (w_db w') = deployments (w_db w)"
  by (auto simp: activate_body_def Let_def split: if_splits prod.splits sum.splits)

lemma wf_mark_failed:
  assumes "wf_db (w_db w)" "r \<in> set (deployments (w_db w))" "dep_status r \<noteq> ACTIVE"
  shows "wf_db (w_db (mark_deployment_failed env a r actor w))"
proof -
  let ?f = "\<lambda>x. x\<lparr>dep_status := FAILED, dep_updated_at := env_now env\<rparr>"
  have k: "keys_ok (w_db w)" using assms(1) by (simp add: wf_db_def)
  have "wf_db (update_deployment (dep_id r) ?f (w_db w))"
  proof (rule wf_map[OF assms(1), where g = id and h = "\<lambda>x. if dep_id x = dep_id r then ?f x else x"])
    show "lifecycle_ok (update_deployment (dep_id r) ?f (w_db w))"
      by (rule lifecycle_map_same[where d = "w_db w" and g = id and h = "\<lambda>x. if dep_id x = dep_id r then ?f x else x"])
        (use assms status_of_row[OF k assms(2)] in
          \<open>auto simp: wf_db_def update_deployment_def update_rows_def same_app_def same_deployment_def\<close>)
  qed (use assms in \<open>auto simp: wf_db_def deployment_ok_def update_deployment_def update_rows_def same_app_def same_deployment_def\<close>)
  then show ?thesis by (simp add: mark_deployment_failed_def Let_def)
qed

lemma wf_finalize:
  assumes "wf_db (w_db w)" "r \<in> set (deployments (w_db w))" "dep_app r = app_id a"
    and "finalize_deployment env a r u em tok w = (res, w')"
  shows "wf_db (w_db w')"
proof -
  let ?actor = "case u of Some u \<Rightarrow> action_actor (Some u) em | None \<Rightarrow> action_actor (dep_deployed_by_id r) []"
  obtain res1 w1 where a: "activate_deployment env a r ?actor w = (res1, w1)"
    by (cases "activate_deployment env a r ?actor w")
  have w1: "wf_db (w_db w1)" by (rule wf_activate_deployment[OF assms(1-3) a])
  show ?thesis
  proof (cases "res1 = Inl Extract_Error")
    case True
    then obtain w2 where b: "activate_body env a r ?actor w = (Inl Extract_Error, w2)" "w_db w1 = w_db w"
      using a by (auto simp: activate_deployment_def atomic_def split: prod.splits sum.splits)
    then have "dep_status r \<noteq> ACTIVE" using activate_body_row_status by blast
    then have "wf_db (w_db (mark_deployment_failed env a r ?actor w1))"
      using wf_mark_failed w1 assms(2) b(2) by metis
    then show ?thesis using assms(4) a True by (auto simp: finalize_deployment_def Let_def)
  next
    case False
    then show ?thesis
      using assms(4) a w1 by (auto simp: finalize_deployment_def Let_def split: sum.splits prod.splits if_splits)
  qed
qed

lemma wf_rollback:
  assumes "wf_db (w_db w)" "r \<in> set (deployments (w_db w))" "dep_app r = app_id a"
    and "rollback_deployment env a r w = Inr (r', w')"
  shows "wf_db (w_db w')"
proof -
  have sz: "0 < dep_artifact_size r" using assms(4) by (auto simp: rollback_deployment_def split: if_splits)
  have "\<exists>fin. w_db w' = update_app (app_id a) (set_current (env_now env) (dep_id r))
      (update_app (app_id a) (\<lambda>b. b) (update_deployment (dep_id r) (mark_active (env_now env) fin)
        (supersede_others (env_now env) (app_id a) (dep_id r) (w_db w))))"
    using assms(4) by (auto simp: rollback_deployment_def Let_def update_app_id split: if_splits)
  then show ?thesis using wf_activation[OF assms(1-3) sz, of "\<lambda>b. b"] by (auto simp: same_app_def)
qed

end
