(* ===== verification/Steps.thy ===== *)
theory Steps
  imports Lifecycle
begin

text \<open>
  The operations of \<open>Services\<close> as the steps of one system: each step loads its rows from the
  database as the views do and runs one operation. The reachable worlds satisfy \<open>wf_db\<close>.
\<close>

section \<open>Operations that insert and delete rows\<close>

definition env_ok :: "env \<Rightarrow> bool" where
  "env_ok env \<longleftrightarrow> uuid_ok (env_fresh env 0 0) \<and> uuid_ok (env_fresh env 0 1)"

lemma wf_accesses:
  "wf_db d \<Longrightarrow> distinct (map acc_company_id as) \<Longrightarrow> wf_db (d\<lparr>accesses := as\<rparr>)"
  by (simp add: wf_db_def keys_ok_def lifecycle_ok_def)

lemma get_access_fresh: "get_access c d = None \<Longrightarrow> c \<notin> acc_company_id ` set (accesses d)"
  by (auto simp: get_access_def first_row_None)

lemma save_access_keys:
  "map acc_company_id (accesses (save_access a d)) = map acc_company_id (accesses d)"
  by (auto simp: save_access_def intro!: map_update_rows)

lemma wf_save_access: "wf_db d \<Longrightarrow> wf_db (save_access a d)"
  using wf_accesses[of d "accesses (save_access a d)"] save_access_keys[of a d]
  by (simp add: wf_db_def keys_ok_def save_access_def)

lemma wf_new_access:
  "wf_db d \<Longrightarrow> get_access (acc_company_id r) d = None \<Longrightarrow> wf_db (d\<lparr>accesses := accesses d @ [r]\<rparr>)"
  using get_access_fresh[of "acc_company_id r" d] by (intro wf_accesses) (auto simp: wf_db_def keys_ok_def)

lemma wf_request_access: "wf_db d \<Longrightarrow> request_access now c u d = (r, d') \<Longrightarrow> wf_db d'"
  using wf_new_access[of d "new_access now c u"]
  by (auto simp: request_access_def Let_def new_access_def wf_save_access split: option.splits if_splits)

lemma wf_update_access: "wf_db d \<Longrightarrow> update_access now c s u n d = Inr (r, d') \<Longrightarrow> wf_db d'"
  using wf_new_access[of d "new_access now c u"]
  by (auto simp: update_access_def Let_def new_access_def wf_save_access split: option.splits)

lemma wf_insert_app:
  assumes wf: "wf_db d" and i: "insert_app a d = Inr d'" and a: "app_current_deployment a = None" "uuid_ok (app_id a)"
  shows "wf_db d'"
proof -
  have new: "app_id a \<notin> app_id ` set (apps d)" "app_slug a \<notin> app_slug ` set (apps d)"
    "app_key a \<notin> app_key ` set (apps d)"
    using i by (auto simp: insert_app_Inr app_key_def)
  have d': "d' = d\<lparr>apps := apps d @ [a]\<rparr>" using i by (simp add: insert_app_Inr)
  have k: "keys_ok d'" using wf new by (auto simp: wf_db_def keys_ok_def d')
  have own: "dep_app r \<noteq> app_id a" if "r \<in> set (deployments d)" for r
    using wf that new(1) unfolding wf_db_def owned_def by (metis imageI)
  have "lifecycle_ok d'" using wf own a(1) unfolding wf_db_def lifecycle_ok_def d' by auto
  then show ?thesis using wf k a(2) by (auto simp: wf_db_def d' owned_def)
qed

lemma wf_insert_deployment:
  assumes wf: "wf_db d" and i: "insert_deployment r d = Inr d'" and r: "deployment_ok r" "dep_status r \<noteq> ACTIVE"
  shows "wf_db d'"
proof -
  have new: "dep_id r \<notin> dep_id ` set (deployments d)"
    using i by (auto simp: insert_deployment_Inr)
  have d': "d' = d\<lparr>deployments := deployments d @ [r]\<rparr>" and o: "owned (apps d) r"
    using i by (auto simp: insert_deployment_Inr owned_def)
  have k: "keys_ok d'" using wf new by (auto simp: wf_db_def keys_ok_def d')
  have cur: "app_current_deployment a \<noteq> Some (dep_id r)" if "a \<in> set (apps d)" for a
    using wf that new unfolding wf_db_def lifecycle_ok_def by (metis imageI)
  have "lifecycle_ok d'" using wf cur r(2) unfolding wf_db_def lifecycle_ok_def d' by auto
  then show ?thesis using wf k r(1) o by (auto simp: wf_db_def d')
qed

text \<open>In a well-formed database no other app points to a deployment of the deleted one.\<close>

lemma delete_app_row_tables:
  assumes wf: "wf_db d"
  shows "delete_app_row i d = d\<lparr>apps := delete_rows (\<lambda>a. app_id a = i) (apps d),
     deployments := delete_rows (\<lambda>r. dep_app r = i) (deployments d)\<rparr>"
proof -
  have cur: "dep_app r = app_id a" if "a \<in> set (apps d)" "app_current_deployment a = Some (dep_id r)"
    "r \<in> set (deployments d)" for a r
    using wf that status_of_row[of d r] unfolding wf_db_def lifecycle_ok_def by metis
  have keep: "(case app_current_deployment a of None \<Rightarrow> a
      | Some c \<Rightarrow> if c \<in> set (map dep_id (app_deployments i d)) then a\<lparr>app_current_deployment := None\<rparr> else a) = a"
    if "a \<in> set (apps d)" "app_id a \<noteq> i" for a
    using cur[OF that(1)] that(2) by (auto simp: app_deployments_def split: option.split)
  have "map (\<lambda>a. case app_current_deployment a of None \<Rightarrow> a
      | Some c \<Rightarrow> if c \<in> set (map dep_id (app_deployments i d)) then a\<lparr>app_current_deployment := None\<rparr> else a)
      (delete_rows (\<lambda>a. app_id a = i) (apps d)) = delete_rows (\<lambda>a. app_id a = i) (apps d)"
    by (rule map_idI) (rule keep, simp_all add: delete_rows_def)
  then show ?thesis unfolding delete_app_row_def by (simp only:)
qed

lemma wf_delete_app_row:
  assumes wf: "wf_db d"
  shows "wf_db (delete_app_row i d)"
proof -
  have A: "apps (delete_app_row i d) = delete_rows (\<lambda>a. app_id a = i) (apps d)"
    and D: "deployments (delete_app_row i d) = delete_rows (\<lambda>r. dep_app r = i) (deployments d)"
    and C: "accesses (delete_app_row i d) = accesses d"
    using delete_app_row_tables[OF wf, of i] by simp_all
  have k: "keys_ok (delete_app_row i d)"
    using wf by (simp add: wf_db_def keys_ok_def A C D distinct_map_delete_rows)
  have "lifecycle_ok (delete_app_row i d)"
    using wf unfolding wf_db_def lifecycle_ok_def A D by (auto simp: delete_rows_def) metis
  moreover have "owned (apps (delete_app_row i d)) r" if "r \<in> set (deployments (delete_app_row i d))" for r
    using wf that unfolding wf_db_def A D owned_def delete_rows_def by (simp, metis)
  ultimately show ?thesis using wf k by (auto simp: wf_db_def A D delete_rows_def)
qed

section \<open>The remaining operations\<close>

lemma wf_create_app:
  assumes "wf_db (w_db w)" "env_ok env" "create_app env c n dn tok u em w = Inr (a, w')"
  shows "wf_db (w_db w')"
  using assms wf_insert_app
  by (auto simp: create_app_def res_simps Let_def new_app_def env_ok_def split: if_splits)

lemma wf_create_preview_app:
  assumes "wf_db (w_db w)" "env_ok env" "create_preview_app env c u dn em w = Inr (a, w')"
  shows "wf_db (w_db w')"
  using assms wf_insert_app
  by (auto simp: create_preview_app_def res_simps Let_def new_app_def env_ok_def split: if_splits)

lemma wf_create_deployment:
  assumes "wf_db (w_db w)" "env_ok env" "create_deployment env a av sv u p em w = Inr (r, w')"
  shows "wf_db (w_db w')"
proof -
  obtain d where i: "insert_deployment r (w_db w) = Inr d" "wf_db (w_db w') = wf_db d"
    and r: "dep_id r = env_fresh env 0 1" "dep_app r = app_id a" "dep_status r = DRAFT"
      "dep_storage_prefix r = app_id a @ ''/deployments/'' @ env_fresh env 0 1 @ ''/''" "dep_artifact_size r = 0"
    using assms(3) by (auto simp: create_deployment_def res_simps Let_def split: if_splits)
  have "uuid_ok (dep_app r)"
    using i(1) assms(1) by (auto simp: insert_deployment_Inr wf_db_def)
  then have "deployment_ok r" using r assms(2) by (simp add: deployment_ok_def env_ok_def)
  then show ?thesis using wf_insert_deployment[OF assms(1) i(1)] r(3) i(2) by simp
qed

lemma wf_prepare:
  assumes "wf_db (w_db w)" "env_ok env" "prepare_preview_deploy env c u s dn av sv tok em any w = Inr (a, r, res, w')"
  shows "wf_db (w_db w')"
proof -
  obtain a1 r1 w1 where p: "prepare_preview_deploy_atomic env c u s dn av sv em any w = Inr ((a1, r1), w1)"
      "w_db w' = w_db w1"
    using assms(3) by (auto simp: prepare_preview_deploy_def res_simps case_prod_beta)
  then obtain a2 w2 where "create_deployment env a2 av sv (Some u) False em w2 = Inr (r1, w1)"
      "w2 = w \<or> create_preview_app env c u dn em w = Inr (a2, w2)"
    by (auto simp: prepare_preview_deploy_atomic_def res_simps split: option.splits if_splits)
  then show ?thesis
    using wf_create_preview_app[OF assms(1,2)] wf_create_deployment[OF _ assms(2)] assms(1) p(2) by metis
qed

lemma save_artifact_nbytes: "save_artifact key f m fs = Inr (n, fs') \<Longrightarrow> 0 \<le> n"
  by (auto simp: save_artifact_def dest!: read_limited_Some split: option.splits)

lemma wf_upload:
  assumes "wf_db (w_db w)" "r \<in> set (deployments (w_db w))"
    and "upload_deployment_artifact env r f cl w = Inr (r', w')"
  shows "wf_db (w_db w')"
proof -
  obtain n where "0 \<le> n" and w': "w_db w' = update_deployment (dep_id r)
      (\<lambda>x. x\<lparr>dep_status := UPLOADING, dep_artifact_size := n, dep_updated_at := env_now env\<rparr>) (w_db w)"
    and st: "dep_status r \<noteq> ACTIVE"
    using assms(3) save_artifact_nbytes
    by (fastforce simp: upload_deployment_artifact_def Let_def res_simps split: if_splits)
  have k: "keys_ok (w_db w)" using assms(1) by (simp add: wf_db_def)
  show ?thesis unfolding w'
    by (rule wf_update_deployment_same[OF assms(1)])
      (use \<open>0 \<le> n\<close> st status_of_row[OF k assms(2)] in \<open>auto simp: same_deployment_def\<close>)
qed

lemma wf_renew: "wf_db d \<Longrightarrow> renew_app_expiry cfg now a d = Inr (a', d') \<Longrightarrow> wf_db d'"
  using wf_update_app_same[OF _ set_expiry_same] by (auto simp: renew_app_expiry_def split: if_splits)

lemma wf_delete_app: "wf_db (w_db w) \<Longrightarrow> wf_db (w_db (delete_app env a tok u em w))"
  using wf_delete_app_row by (auto simp: delete_app_def Let_def split: sum.split)

end
