(* ===== verification/Company_Deletion.thy ===== *)
theory Company_Deletion
  imports Steps "HOL-Library.Multiset"
begin

text \<open>
  Deletion of a company: \<^verbatim>\<open>apps/actions/company_deletion.py\<close> and its blob hook
  \<^verbatim>\<open>apps/hosting/company_deletion.py\<close>. The two JWT decoders are arguments: given the
  options of \<^verbatim>\<open>jwt.decode\<close> they return the claims of a token that they accept under these options.
\<close>

definition DELETION_AUDIENCE :: string where
  "DELETION_AUDIENCE = ''shellui-company-deletion''"

definition DELETION_SCOPE :: string where
  "DELETION_SCOPE = ''company.delete''"

definition MAX_LIFETIME :: int where
  "MAX_LIFETIME = 120"

definition SWEEP_WINDOW :: time where
  "SWEEP_WINDOW = hours 1"

section \<open>The assertion\<close>

text \<open>
  \<open>rs256\<close> is None when the key lookup or the decoder raises and \<open>Some None\<close> when there is no
  signing key; \<open>hs256\<close> is the decoder with the fallback secret, called only where the code
  allows it. The error is the \<^verbatim>\<open>DeletionAssertionError\<close>.
\<close>

record deletion_options =
  dl_algorithms :: "string list"
  dl_audience :: string
  dl_require :: "string list"
  dl_verify_iss :: bool
  dl_issuer :: "string option"

definition deletion_options_for :: "string option \<Rightarrow> string \<Rightarrow> deletion_options" where
  "deletion_options_for identity_issuer algorithm =
     (let issuer = (if identity_issuer = Some [] then None else identity_issuer)
      in \<lparr> dl_algorithms = [algorithm], dl_audience = DELETION_AUDIENCE,
           dl_require = [''exp'', ''iat'', ''aud'', ''company_id''], dl_verify_iss = (issuer \<noteq> None), dl_issuer = issuer \<rparr>)"

datatype deletion_error = Rejected | Wrong_Scope | Too_Long | No_Company | Int_Error

definition verify_deletion_assertion ::
    "bool \<Rightarrow> string option \<Rightarrow> (deletion_options \<Rightarrow> string \<Rightarrow> dict option option)
      \<Rightarrow> (deletion_options \<Rightarrow> string \<Rightarrow> dict option) \<Rightarrow> string \<Rightarrow> deletion_error + company" where
  "verify_deletion_assertion fallback_allowed identity_issuer rs256 hs256 raw =
     bind_res
       (case rs256 (deletion_options_for identity_issuer ''RS256'') raw of
          Some (Some claims) \<Rightarrow> Inr claims
        | Some None \<Rightarrow> Inl Rejected
        | None \<Rightarrow> if \<not> fallback_allowed then Inl Rejected
                  else (case hs256 (deletion_options_for identity_issuer ''HS256'') raw of
                          None \<Rightarrow> Inl Rejected | Some claims \<Rightarrow> Inr claims))
       (\<lambda>claims.
          if dict_get claims ''scope'' \<noteq> Some (JStr DELETION_SCOPE) then Inl Wrong_Scope
          else case (dict_get claims ''exp'', dict_get claims ''iat'') of
            (Some e, Some i) \<Rightarrow>
              (case (to_int e, to_int i) of
                 (Some exp, Some iat) \<Rightarrow>
                   if exp - iat > MAX_LIFETIME then Inl Too_Long
                   else (case dict_get claims ''company_id'' of
                           Some (JInt c) \<Rightarrow> if c \<le> 0 then Inl No_Company else Inr c
                         | _ \<Rightarrow> Inl No_Company)
               | _ \<Rightarrow> Inl Int_Error)
          | _ \<Rightarrow> Inl Int_Error)"

definition flag_company_deletion :: "time \<Rightarrow> company \<Rightarrow> db \<Rightarrow> db" where
  "flag_company_deletion now company_id d =
     (case first_row (\<lambda>r. cd_company_id r = company_id) (company_deletions d) of
        None \<Rightarrow> d\<lparr>company_deletions := company_deletions d @
                   [\<lparr>cd_company_id = company_id, cd_requested_at = now, cd_completed_at = None\<rparr>]\<rparr>
      | Some r \<Rightarrow>
          if cd_completed_at r \<noteq> None
          then d\<lparr>company_deletions := update_rows (\<lambda>r. cd_company_id r = company_id)
                   (\<lambda>r. r\<lparr>cd_completed_at := None\<rparr>) (company_deletions d)\<rparr>
          else d)"

text \<open>The internal endpoint: the status of the answer and the database.\<close>

definition CompanyDeletionView_post ::
    "bool \<Rightarrow> string option \<Rightarrow> (deletion_options \<Rightarrow> string \<Rightarrow> dict option option)
      \<Rightarrow> (deletion_options \<Rightarrow> string \<Rightarrow> dict option) \<Rightarrow> time \<Rightarrow> string \<Rightarrow> db \<Rightarrow> exn + (nat \<times> db)" where
  "CompanyDeletionView_post fallback_allowed identity_issuer rs256 hs256 now header d =
     (if \<not> startswith (lower header) ''bearer '' then Inr (401, d)
      else case verify_deletion_assertion fallback_allowed identity_issuer rs256 hs256 (strip (drop 7 header)) of
        Inl Int_Error \<Rightarrow> Inl Value_Error
      | Inl _ \<Rightarrow> Inr (401, d)
      | Inr c \<Rightarrow> Inr (202, flag_company_deletion now c d))"

section \<open>Deleting the rows\<close>

text \<open>The models with a \<^verbatim>\<open>company_id\<close> column, in the order of the app registry.\<close>

datatype company_table = T_ACCESS | T_APP | T_TOKEN | T_RULE | T_OUTBOX | T_EVENT_LOG

definition company_scoped_models :: "company_table list" where
  "company_scoped_models = [T_ACCESS, T_APP, T_TOKEN, T_RULE, T_OUTBOX, T_EVENT_LOG]"

definition delete_company_apps :: "company \<Rightarrow> db \<Rightarrow> db" where
  "delete_company_apps c d =
     foldl (\<lambda>d a. delete_app_row (app_id a) d) d (filter (\<lambda>a. app_company_id a = c) (apps d))"

fun clear_table :: "company_table \<Rightarrow> company \<Rightarrow> db \<Rightarrow> db" where
  "clear_table T_ACCESS c d = d\<lparr>accesses := delete_rows (\<lambda>r. acc_company_id r = c) (accesses d)\<rparr>"
| "clear_table T_APP c d = delete_company_apps c d"
| "clear_table T_TOKEN c d = d\<lparr>tokens := delete_rows (\<lambda>r. tok_company_id r = c) (tokens d)\<rparr>"
| "clear_table T_RULE c d = delete_rules (\<lambda>r. rule_company_id r = c) d"
| "clear_table T_OUTBOX c d = delete_outbox_rows (\<lambda>r. ob_company_id r = c) d"
| "clear_table T_EVENT_LOG c d = d\<lparr>event_log := delete_rows (\<lambda>r. ev_company_id r = Some c) (event_log d)\<rparr>"

definition row_total :: "db \<Rightarrow> nat" where
  "row_total d = length (accesses d) + length (apps d) + length (deployments d) + length (tokens d)
     + length (rules d) + length (outbox_rows d) + length (attempts d) + length (event_log d)"

text \<open>
  The passes of \<^verbatim>\<open>delete_company_rows\<close> over any per-table deletion \<open>del\<close>, whose None is
  \<^verbatim>\<open>ProtectedError\<close>. No foreign key of these models is declared PROTECT, so the deletion of
  this schema (\<open>delete_table\<close>) always succeeds.
\<close>

fun delete_pass ::
    "('t \<Rightarrow> 'd \<Rightarrow> (nat \<times> 'd) option) \<Rightarrow> 't list \<Rightarrow> nat \<Rightarrow> 'd \<Rightarrow> 't list \<times> nat \<times> 'd" where
  "delete_pass del [] n d = ([], n, d)"
| "delete_pass del (t # ts) n d =
     (case del t d of
        Some (k, d') \<Rightarrow> delete_pass del ts (n + k) d'
      | None \<Rightarrow> (let (blocked, m, d') = delete_pass del ts n d in (t # blocked, m, d')))"

fun delete_passes ::
    "('t \<Rightarrow> 'd \<Rightarrow> (nat \<times> 'd) option) \<Rightarrow> nat \<Rightarrow> 't list \<Rightarrow> nat \<Rightarrow> 'd \<Rightarrow> (exn + nat) \<times> 'd" where
  "delete_passes del 0 remaining n d = (Inl Runtime_Error, d)"
| "delete_passes del (Suc k) remaining n d =
     (let (blocked, m, d') = delete_pass del remaining n d
      in if blocked = [] then (Inr m, d') else delete_passes del k blocked m d')"

definition delete_table :: "company \<Rightarrow> company_table \<Rightarrow> db \<Rightarrow> (nat \<times> db) option" where
  "delete_table c t d = (let d' = clear_table t c d in Some (row_total d - row_total d', d'))"

definition delete_company_rows :: "company \<Rightarrow> db \<Rightarrow> (exn + nat) \<times> db" where
  "delete_company_rows c d =
     delete_passes (delete_table c) (length company_scoped_models + 1) company_scoped_models 0 d"

section \<open>Purging\<close>

text \<open>The blob hook that the settings name: \<^verbatim>\<open>delete_company_artifacts\<close>.\<close>

definition delete_company_artifacts :: "settings \<Rightarrow> company \<Rightarrow> world \<Rightarrow> world" where
  "delete_company_artifacts cfg company_id w =
     foldl (\<lambda>w a. w\<lparr>w_files := delete_app_artifacts cfg a (w_db w) (w_files w),
                    w_cache := invalidate_serve_cache (Some (app_slug a)) (w_cache w),
                    w_db := delete_app_row (app_id a) (w_db w)\<rparr>)
       w (filter (\<lambda>a. app_company_id a = company_id) (apps (w_db w)))"

type_synonym blob_hook = "company \<Rightarrow> world \<Rightarrow> (exn + unit) \<times> world"

definition default_hook :: "settings \<Rightarrow> blob_hook" where
  "default_hook cfg c w = (Inr (), delete_company_artifacts cfg c w)"

definition purge_company :: "blob_hook option \<Rightarrow> company \<Rightarrow> world \<Rightarrow> (exn + nat) \<times> world" where
  "purge_company hook company_id w =
     (case (case hook of None \<Rightarrow> (Inr (), w) | Some h \<Rightarrow> h company_id w) of
        (Inl e, w1) \<Rightarrow> (Inl e, w1)
      | (Inr _, w1) \<Rightarrow> (let (r, d) = delete_company_rows company_id (w_db w1) in (r, w1\<lparr>w_db := d\<rparr>)))"

text \<open>\<open>clock\<close> is the sequence of the readings of \<^verbatim>\<open>time.monotonic\<close>.\<close>

fun purge_loop ::
    "blob_hook option \<Rightarrow> time \<Rightarrow> time \<Rightarrow> (nat \<Rightarrow> time) \<Rightarrow> nat \<Rightarrow> company_deletion list \<Rightarrow> nat \<times> nat \<times> nat \<Rightarrow> world
      \<Rightarrow> (nat \<times> nat \<times> nat) \<times> world" where
  "purge_loop hook now deadline clock i [] counts w = (counts, w)"
| "purge_loop hook now deadline clock i (row # rows) (purged, failed, released) w =
     (if clock i > deadline then ((purged, failed, released), w)
      else if (case cd_completed_at row of None \<Rightarrow> False | Some t \<Rightarrow> t < now - SWEEP_WINDOW)
      then purge_loop hook now deadline clock (i + 1) rows (purged, failed, released + 1)
             (w\<lparr>w_db := (w_db w)\<lparr>company_deletions :=
                delete_rows (\<lambda>r. cd_company_id r = cd_company_id row) (company_deletions (w_db w))\<rparr>\<rparr>)
      else case purge_company hook (cd_company_id row) w of
        (Inl _, w1) \<Rightarrow> purge_loop hook now deadline clock (i + 1) rows (purged, failed + 1, released) w1
      | (Inr _, w1) \<Rightarrow>
          if cd_completed_at row = None
          then purge_loop hook now deadline clock (i + 1) rows (purged + 1, failed, released)
                 (w1\<lparr>w_db := (w_db w1)\<lparr>company_deletions :=
                    update_rows (\<lambda>r. cd_company_id r = cd_company_id row) (\<lambda>r. r\<lparr>cd_completed_at := Some now\<rparr>)
                      (company_deletions (w_db w1))\<rparr>\<rparr>)
          else purge_loop hook now deadline clock (i + 1) rows (purged, failed, released) w1)"

definition purge_deleted_companies ::
    "blob_hook option \<Rightarrow> time \<Rightarrow> time \<Rightarrow> (nat \<Rightarrow> time) \<Rightarrow> world \<Rightarrow> (nat \<times> nat \<times> nat) \<times> world" where
  "purge_deleted_companies hook now max_time clock w =
     purge_loop hook now (clock 0 + max_time) clock 1
       (sort_key cd_requested_at (company_deletions (w_db w))) (0, 0, 0) w"

section \<open>The objects of a deployment\<close>

definition deployment_root :: "settings \<Rightarrow> deployment \<Rightarrow> string" where
  "deployment_root cfg r = key_of cfg (dep_app r @ ''/deployments/'' @ dep_id r)"

definition object_of :: "settings \<Rightarrow> deployment \<Rightarrow> string \<Rightarrow> bool" where
  "object_of cfg r k \<longleftrightarrow> startswith k (deployment_root cfg r @ ''/'')"

text \<open>On S3 the recursion of \<^verbatim>\<open>delete_artifact_prefix\<close> needs names without white space and
  without empty components.\<close>

definition plain_objects :: "settings \<Rightarrow> deployment \<Rightarrow> files \<Rightarrow> bool" where
  "plain_objects cfg r fs \<longleftrightarrow> (is_s3_backend cfg \<longrightarrow>
     (\<forall>rest. storage_get fs (deployment_root cfg r @ ''/'' @ rest) \<noteq> None \<longrightarrow>
        (\<forall>c\<in>set rest. \<not> is_space c) \<and> [] \<notin> set (split_on CHR ''/'' rest)))"

lemma uuid_ok_chars: "uuid_ok i \<Longrightarrow> c \<in> set i \<Longrightarrow> \<not> is_space c \<and> c \<noteq> CHR ''/''"
  by (auto simp: uuid_ok_def list_all_iff slug_char_def char_class_defs)

lemma plain_key:
  assumes "s \<noteq> []" "\<forall>c\<in>set s. \<not> is_space c" "hd s \<noteq> CHR ''/''" "last s \<noteq> CHR ''/''"
  shows "build_storage_key cfg s = key_of cfg s"
proof -
  have "strip s = s" using assms(2) by (intro strip_no_space) blast
  moreover have "strip_char CHR ''/'' s = s"
    unfolding strip_char_def using assms by (intro strip_by_id) auto
  ultimately show ?thesis by (simp add: build_storage_key_eq)
qed

lemma deployment_prefix:
  assumes "deployment_ok r"
  shows "plain_prefix (dep_storage_prefix r)"
    and "rstrip_char CHR ''/'' (dep_storage_prefix r) = dep_app r @ ''/deployments/'' @ dep_id r"
    and "artifact_key cfg (dep_storage_prefix r) = deployment_root cfg r @ ''/artifact.tar.gz''"
    and "site_dir cfg (dep_storage_prefix r) = deployment_root cfg r @ ''/extracted''"
    and "build_storage_key cfg (dep_app r @ ''/deployments/'' @ dep_id r) = deployment_root cfg r"
proof -
  let ?B = "dep_app r @ ''/deployments/'' @ dep_id r"
  have u: "uuid_ok (dep_app r)" "uuid_ok (dep_id r)" and sp: "dep_storage_prefix r = ?B @ ''/''"
    using assms by (auto simp: deployment_ok_def)
  have ne: "dep_app r \<noteq> []" "dep_id r \<noteq> []" using u by (auto simp: uuid_ok_def)
  have lits: "\<forall>c\<in>set ''/deployments/''. \<not> is_space c" "\<forall>c\<in>set ''/artifact.tar.gz''. \<not> is_space c" by code_simp+
  have ns: "\<not> is_space c" if "c \<in> set ?B" for c
    using that uuid_ok_chars[OF u(1)] uuid_ok_chars[OF u(2)] lits(1) by (metis UnE set_append)
  have h: "hd ?B = hd (dep_app r)" "last ?B = last (dep_id r)" using ne by simp_all
  have ends: "hd ?B \<noteq> CHR ''/''" "last ?B \<noteq> CHR ''/''"
    unfolding h using ne uuid_ok_chars[OF u(1)] uuid_ok_chars[OF u(2)] hd_in_set last_in_set by blast+
  have nil: "?B \<noteq> []" using ne by simp
  show "plain_prefix (dep_storage_prefix r)"
    unfolding plain_prefix_def prefix_ok_def sp
    using ns ends(1) nil lits by (auto simp: hd_append simp del: append_assoc)
  show "rstrip_char CHR ''/'' (dep_storage_prefix r) = ?B"
    unfolding sp rstrip_char_def
    using rstrip_by_append[of ?B "\<lambda>x. x = CHR ''/''" "''/''"] nil ends(2) by (simp add: rstrip_by_def)
  then show "site_dir cfg (dep_storage_prefix r) = deployment_root cfg r @ ''/extracted''"
    by (simp add: site_dir_def deployment_root_def)
  show "build_storage_key cfg ?B = deployment_root cfg r"
    unfolding deployment_root_def by (rule plain_key) (use nil ends ns in blast)+
  show "artifact_key cfg (dep_storage_prefix r) = deployment_root cfg r @ ''/artifact.tar.gz''"
  proof -
    have "build_storage_key cfg (?B @ ''/artifact.tar.gz'') = key_of cfg (?B @ ''/artifact.tar.gz'')"
      by (rule plain_key) (use nil ends(1) ns lits(2) in \<open>auto simp: hd_append simp del: append_assoc\<close>)
    then show ?thesis by (simp add: artifact_key_def deployment_root_def sp)
  qed
qed

lemma get_foldl_sub:
  "(\<And>name fs. storage_get (f fs name) k \<in> {None, storage_get fs k}) \<Longrightarrow>
   storage_get (foldl f fs names) k \<in> {None, storage_get fs k}"
proof (induction names arbitrary: fs)
  case (Cons x xs)
  have "storage_get (foldl f (f fs x) xs) k \<in> {None, storage_get (f fs x) k}" by (rule Cons.IH[OF Cons.prems])
  then show ?case using Cons.prems[of fs x] by auto
qed simp

lemma delete_extracted_s3_sub: "storage_get (delete_extracted_s3 n cfg sp fs) k \<in> {None, storage_get fs k}"
proof (induction n arbitrary: sp fs)
  case 0
  then show ?case by simp
next
  case (Suc n)
  let ?N = "build_storage_key cfg (extracted_prefix sp)"
  let ?fs1 = "foldl (\<lambda>fs name. storage_delete (?N @ ''/'' @ name) fs) fs (snd (listdir ?N fs))"
  have "storage_get ?fs1 k \<in> {None, storage_get fs k}"
    by (rule get_foldl_sub) (simp add: storage_get_delete)
  moreover have "storage_get (delete_extracted_s3 (Suc n) cfg sp fs) k \<in> {None, storage_get ?fs1 k}"
    unfolding delete_extracted_s3.simps Let_def case_prod_beta by (rule get_foldl_sub) (rule Suc.IH)
  ultimately show ?case by auto
qed

lemma delete_deployment_artifacts_get:
  assumes r: "deployment_ok r" and pl: "plain_objects cfg r fs"
  shows "storage_get (delete_deployment_artifacts cfg r fs) k = (if object_of cfg r k then None else storage_get fs k)"
proof -
  note P = deployment_prefix[OF r]
  let ?sp = "dep_storage_prefix r" and ?R = "deployment_root cfg r"
  let ?fs1 = "delete_extracted_prefix cfg ?sp fs"
  let ?fs2 = "if storage_exists ?fs1 (artifact_key cfg ?sp) then storage_delete (artifact_key cfg ?sp) ?fs1 else ?fs1"
  have pp: "prefix_ok ?sp" using P(1) by (simp add: plain_prefix_def)
  have fs1: "storage_get ?fs1 l = (if object_of cfg r l then storage_get ?fs1 l else storage_get fs l)
      \<and> (storage_get ?fs1 l \<noteq> None \<longrightarrow> storage_get fs l \<noteq> None)" for l
  proof (cases "is_s3_backend cfg")
    case True
    have "storage_get ?fs1 l = storage_get fs l" if "\<not> object_of cfg r l"
      using that True delete_extracted_s3_only[OF pp, of l cfg "depth_fuel fs" fs]
      by (auto simp: delete_extracted_prefix_def object_of_def startswith_iff P(4))
    then show ?thesis
      using True delete_extracted_s3_sub[of "depth_fuel fs" cfg ?sp fs l] by (auto simp: delete_extracted_prefix_def)
  next
    case False
    then show ?thesis
      by (auto simp: delete_extracted_prefix_def storage_get_tree site_dir_key[OF pp] P(4) object_of_def startswith_iff)
  qed
  have art: "object_of cfg r (artifact_key cfg ?sp)" by (simp add: object_of_def P(3) startswith_iff)
  have fs2: "storage_get ?fs2 l = (if object_of cfg r l then storage_get ?fs2 l else storage_get fs l)
      \<and> (storage_get ?fs2 l \<noteq> None \<longrightarrow> storage_get fs l \<noteq> None)" for l
    using fs1[of l] art by (auto simp: storage_get_delete)
  show ?thesis
  proof (cases "is_s3_backend cfg")
    case True
    have "storage_get (delete_artifact_prefix cfg ?sp ?fs2) k =
        (if startswith k (key_of cfg (rstrip_char CHR ''/'' ?sp) @ ''/'') then None else storage_get ?fs2 k)"
    proof (rule delete_artifact_prefix_get[OF True P(1)])
      fix rest
      assume "storage_get ?fs2 (key_of cfg (rstrip_char CHR ''/'' ?sp) @ ''/'' @ rest) \<noteq> None"
      then have "storage_get fs (?R @ ''/'' @ rest) \<noteq> None"
        using fs2 unfolding P(2) deployment_root_def[symmetric] by blast
      then show "(\<forall>c\<in>set rest. \<not> is_space c) \<and> [] \<notin> set (split_on CHR ''/'' rest)"
        using pl True unfolding plain_objects_def by blast
    qed
    then show ?thesis
      using True fs2[of k] unfolding P(2) deployment_root_def[symmetric] object_of_def[symmetric]
        delete_deployment_artifacts_def Let_def by (auto split: if_splits)
  next
    case False
    have "build_storage_key cfg (rstrip_char CHR ''/'' ?sp) = ?R"
      unfolding P(2) by (rule P(5))
    then show ?thesis
      using False fs2[of k] unfolding delete_deployment_artifacts_def Let_def object_of_def
      by (auto simp: storage_get_tree split: if_splits)
  qed
qed

lemma delete_deployment_artifacts_sub:
  "deployment_ok r \<Longrightarrow> plain_objects cfg r fs \<Longrightarrow> plain_objects cfg r' fs \<Longrightarrow>
   plain_objects cfg r' (delete_deployment_artifacts cfg r fs)"
  using delete_deployment_artifacts_get unfolding plain_objects_def by metis

text \<open>The objects of two deployments are apart.\<close>

lemma object_of_unique:
  assumes "deployment_ok r" "deployment_ok r'" "object_of cfg r k" "object_of cfg r' k"
  shows "dep_app r' = dep_app r \<and> dep_id r' = dep_id r"
proof -
  have no: "CHR ''/'' \<notin> set (dep_app x)" "CHR ''/'' \<notin> set (dep_id x)" if "x \<in> {r, r'}" for x
    using that assms(1,2) uuid_ok_chars by (auto simp: deployment_ok_def)
  obtain u v where k: "key_of cfg (dep_app r @ ''/deployments/'' @ dep_id r @ ''/'' @ u) = k"
      "key_of cfg (dep_app r' @ ''/deployments/'' @ dep_id r' @ ''/'' @ v) = k"
    using assms(3,4) by (auto simp: object_of_def startswith_iff deployment_root_def)
  have "dep_app r @ ''/deployments/'' @ dep_id r @ ''/'' @ u = dep_app r' @ ''/deployments/'' @ dep_id r' @ ''/'' @ v"
    by (rule iffD1[OF key_of_inject trans[OF k(1) k(2)[symmetric]]])
  then have "dep_app r @ CHR ''/'' # (''deployments/'' @ dep_id r @ CHR ''/'' # u)
      = dep_app r' @ CHR ''/'' # (''deployments/'' @ dep_id r' @ CHR ''/'' # v)"
    by simp
  then have "dep_app r = dep_app r'" "dep_id r @ CHR ''/'' # u = dep_id r' @ CHR ''/'' # v"
    using no split_eq_components[of "CHR ''/''" "dep_app r" "dep_app r'"] by simp_all
  then show ?thesis using no split_eq_components[of "CHR ''/''" "dep_id r" "dep_id r'" u v] by simp
qed

lemma delete_app_artifacts_get:
  assumes "\<forall>r\<in>set (deployments d). deployment_ok r" "\<forall>r\<in>set (app_deployments (app_id a) d). plain_objects cfg r fs"
  shows "storage_get (delete_app_artifacts cfg a d fs) k =
    (if \<exists>r\<in>set (app_deployments (app_id a) d). object_of cfg r k then None else storage_get fs k)"
proof -
  have "storage_get (foldl (\<lambda>fs r. delete_deployment_artifacts cfg r fs) fs rs) k =
      (if \<exists>r\<in>set rs. object_of cfg r k then None else storage_get fs k)"
    if "\<forall>r\<in>set rs. deployment_ok r \<and> plain_objects cfg r fs" for rs fs
    using that
  proof (induction rs arbitrary: fs)
    case (Cons r rs)
    have "\<forall>x\<in>set rs. deployment_ok x \<and> plain_objects cfg x (delete_deployment_artifacts cfg r fs)"
      using Cons.prems delete_deployment_artifacts_sub by auto
    then show ?case
      using Cons.IH[of "delete_deployment_artifacts cfg r fs"] delete_deployment_artifacts_get[of r cfg fs k] Cons.prems
      by auto
  qed simp
  then show ?thesis using assms by (auto simp: delete_app_artifacts_def app_deployments_def)
qed

section \<open>Purging leaves nothing of the company and touches nobody else\<close>

lemma delete_rows_delete_rows: "delete_rows p (delete_rows q rs) = delete_rows (\<lambda>r. p r \<or> q r) rs"
  by (induction rs) auto

lemma delete_rows_cong:
  "(\<And>r. r \<in> set rs \<Longrightarrow> p r = q r) \<Longrightarrow> delete_rows p rs = delete_rows q rs"
  by (induction rs) auto

lemma delete_apps_tables:
  assumes "wf_db d"
  shows "foldl (\<lambda>d a. delete_app_row (app_id a) d) d as =
      d\<lparr>apps := delete_rows (\<lambda>a. app_id a \<in> app_id ` set as) (apps d),
        deployments := delete_rows (\<lambda>r. dep_app r \<in> app_id ` set as) (deployments d)\<rparr>
    \<and> wf_db (foldl (\<lambda>d a. delete_app_row (app_id a) d) d as)"
proof (induction as rule: rev_induct)
  case Nil
  then show ?case using assms by (simp add: delete_rows_def)
next
  case (snoc a as)
  have eq: "delete_app_row (app_id a) (foldl (\<lambda>d a. delete_app_row (app_id a) d) d as)
      = d\<lparr>apps := delete_rows (\<lambda>b. app_id b \<in> app_id ` set (as @ [a])) (apps d),
          deployments := delete_rows (\<lambda>r. dep_app r \<in> app_id ` set (as @ [a])) (deployments d)\<rparr>"
    unfolding delete_app_row_tables[OF conjunct2[OF snoc.IH]] unfolding conjunct1[OF snoc.IH]
    by (simp add: delete_rows_delete_rows)
  have "wf_db (delete_app_row (app_id a) (foldl (\<lambda>d a. delete_app_row (app_id a) d) d as))"
    by (rule wf_delete_app_row[OF conjunct2[OF snoc.IH]])
  then show ?case using eq by (simp only: foldl_append foldl.simps)
qed

definition company_app :: "company \<Rightarrow> db \<Rightarrow> uuid \<Rightarrow> bool" where
  "company_app c d i \<longleftrightarrow> (\<exists>a\<in>set (apps d). app_id a = i \<and> app_company_id a = c)"

definition doomed_outbox :: "company \<Rightarrow> db \<Rightarrow> outbox \<Rightarrow> bool" where
  "doomed_outbox c d o1 \<longleftrightarrow> ob_company_id o1 = c
     \<or> (\<exists>r\<in>set (rules d). rule_company_id r = c \<and> ob_action_rule o1 = Some (rule_id r))"

definition without_company :: "company \<Rightarrow> db \<Rightarrow> db" where
  "without_company c d =
     d\<lparr>accesses := delete_rows (\<lambda>r. acc_company_id r = c) (accesses d),
       apps := delete_rows (\<lambda>a. app_company_id a = c) (apps d),
       deployments := delete_rows (\<lambda>r. company_app c d (dep_app r)) (deployments d),
       tokens := delete_rows (\<lambda>r. tok_company_id r = c) (tokens d),
       rules := delete_rows (\<lambda>r. rule_company_id r = c) (rules d),
       outbox_rows := delete_rows (doomed_outbox c d) (outbox_rows d),
       attempts := delete_rows (\<lambda>t. \<exists>o1\<in>set (outbox_rows d). doomed_outbox c d o1 \<and> ob_id o1 = att_outbox t) (attempts d),
       event_log := delete_rows (\<lambda>r. ev_company_id r = Some c) (event_log d)\<rparr>"

lemma delete_company_apps_tables:
  assumes "wf_db d"
  shows "delete_company_apps c d = d\<lparr>apps := delete_rows (\<lambda>a. app_company_id a = c) (apps d),
       deployments := delete_rows (\<lambda>r. company_app c d (dep_app r)) (deployments d)\<rparr>
    \<and> wf_db (delete_company_apps c d)"
proof -
  let ?as = "filter (\<lambda>a. app_company_id a = c) (apps d)"
  have k: "distinct (map app_id (apps d))" using assms by (simp add: wf_db_def keys_ok_def)
  note B = delete_apps_tables[OF assms, of ?as]
  have e1: "delete_rows (\<lambda>a. app_id a \<in> app_id ` set ?as) (apps d) = delete_rows (\<lambda>a. app_company_id a = c) (apps d)"
    by (rule delete_rows_cong) (use distinct_map_unique[OF k] in fastforce)
  have e2: "delete_rows (\<lambda>r. dep_app r \<in> app_id ` set ?as) (deployments d)
      = delete_rows (\<lambda>r. company_app c d (dep_app r)) (deployments d)"
    by (rule delete_rows_cong) (force simp: company_app_def image_iff)
  show ?thesis unfolding delete_company_apps_def using B unfolding e1 e2 .
qed

lemma delete_rules_tables:
  "delete_rules p d = d\<lparr>rules := delete_rows p (rules d),
     outbox_rows := delete_rows (\<lambda>o1. \<exists>r\<in>set (rules d). p r \<and> ob_action_rule o1 = Some (rule_id r)) (outbox_rows d),
     attempts := delete_rows (\<lambda>t. \<exists>o1\<in>set (outbox_rows d).
        (\<exists>r\<in>set (rules d). p r \<and> ob_action_rule o1 = Some (rule_id r)) \<and> ob_id o1 = att_outbox t) (attempts d)\<rparr>"
proof -
  have q: "(\<lambda>o1. case ob_action_rule o1 of None \<Rightarrow> False | Some r \<Rightarrow> has_row (\<lambda>a. p a \<and> rule_id a = r) (rules d))
      = (\<lambda>o1. \<exists>r\<in>set (rules d). p r \<and> ob_action_rule o1 = Some (rule_id r))"
    by (rule ext) (auto simp: has_row_iff split: option.splits)
  show ?thesis unfolding delete_rules_def delete_outbox_rows_def q by (simp add: has_row_iff)
qed

text \<open>No table of the schema is protected: the first pass deletes everything.\<close>

lemma delete_company_rows_first_pass:
  "\<exists>n. delete_company_rows c d = (Inr n, fold (\<lambda>t. clear_table t c) company_scoped_models d)"
proof -
  have "\<exists>m. delete_pass (delete_table c) ts n d = ([], m, fold (\<lambda>t. clear_table t c) ts d)" for ts n d
    by (induction ts arbitrary: n d) (simp_all add: delete_table_def Let_def)
  then obtain m where "delete_pass (delete_table c) company_scoped_models 0 d
      = ([], m, fold (\<lambda>t. clear_table t c) company_scoped_models d)" by blast
  then show ?thesis by (simp add: delete_company_rows_def)
qed

lemma clear_all_tables:
  assumes "wf_db d"
  shows "fold (\<lambda>t. clear_table t c) company_scoped_models d = without_company c d"
proof -
  let ?d1 = "d\<lparr>accesses := delete_rows (\<lambda>r. acc_company_id r = c) (accesses d)\<rparr>"
  have w1: "wf_db ?d1"
    by (rule wf_accesses[OF assms]) (use assms in \<open>simp add: wf_db_def keys_ok_def distinct_map_delete_rows\<close>)
  show ?thesis
    using conjunct1[OF delete_company_apps_tables[OF w1, of c]]
    by (intro db.equality)
      (simp_all add: company_scoped_models_def delete_rules_tables delete_outbox_rows_def has_row_iff
        without_company_def delete_rows_delete_rows company_app_def doomed_outbox_def,
       auto simp: set_delete_rows doomed_outbox_def intro!: delete_rows_cong)
qed

lemma wf_without_company: "wf_db d \<Longrightarrow> wf_db (without_company c d)"
proof -
  assume wf: "wf_db d"
  have "wf_db (delete_company_apps c d)" using delete_company_apps_tables[OF wf] by blast
  then have "wf_db ((delete_company_apps c d)\<lparr>accesses := delete_rows (\<lambda>r. acc_company_id r = c) (accesses d)\<rparr>)"
    by (rule wf_accesses) (use wf in \<open>simp add: wf_db_def keys_ok_def distinct_map_delete_rows\<close>)
  then show ?thesis
    using delete_company_apps_tables[OF wf, of c]
    by (subst wf_db_cong[symmetric]) (simp_all add: without_company_def)
qed

lemma without_company_idem:
  assumes "wf_db d" shows "without_company c (delete_company_apps c d) = without_company c d"
proof -
  have D: "delete_company_apps c d = d\<lparr>apps := delete_rows (\<lambda>a. app_company_id a = c) (apps d),
       deployments := delete_rows (\<lambda>r. company_app c d (dep_app r)) (deployments d)\<rparr>"
    using delete_company_apps_tables[OF assms] by blast
  have "\<not> company_app c (delete_company_apps c d) i" for i
    unfolding D by (auto simp: company_app_def delete_rows_def)
  moreover have "doomed_outbox c (delete_company_apps c d) = doomed_outbox c d"
    unfolding D by (simp add: fun_eq_iff doomed_outbox_def)
  ultimately show ?thesis
    by (intro db.equality) (simp_all add: without_company_def D delete_rows_delete_rows)
qed

definition purge_app :: "settings \<Rightarrow> world \<Rightarrow> app \<Rightarrow> world" where
  "purge_app cfg w a = w\<lparr>w_files := delete_app_artifacts cfg a (w_db w) (w_files w),
     w_cache := invalidate_serve_cache (Some (app_slug a)) (w_cache w), w_db := delete_app_row (app_id a) (w_db w)\<rparr>"

lemma delete_company_artifacts_fold:
  "delete_company_artifacts cfg c w = foldl (purge_app cfg) w (filter (\<lambda>a. app_company_id a = c) (apps (w_db w)))"
proof -
  have "(\<lambda>w a. w\<lparr>w_files := delete_app_artifacts cfg a (w_db w) (w_files w),
     w_cache := invalidate_serve_cache (Some (app_slug a)) (w_cache w), w_db := delete_app_row (app_id a) (w_db w)\<rparr>)
     = purge_app cfg" by (intro ext) (simp add: purge_app_def)
  then show ?thesis by (simp add: delete_company_artifacts_def)
qed

lemma purge_apps_db:
  "w_db (foldl (purge_app cfg) w as) = foldl (\<lambda>d a. delete_app_row (app_id a) d) (w_db w) as"
  by (induction as arbitrary: w) (simp_all add: purge_app_def)

lemma purge_apps_cache:
  "w_cache (foldl (purge_app cfg) w as) s = (if s \<in> app_slug ` set as then None else w_cache w s)"
  by (induction as arbitrary: w) (auto simp: purge_app_def invalidate_serve_cache_def)

lemma purge_app_files:
  assumes "wf_db (w_db w)" "\<forall>r\<in>set (deployments (w_db w)). plain_objects cfg r (w_files w)"
  shows "storage_get (w_files (purge_app cfg w a)) k =
    (if \<exists>r\<in>set (deployments (w_db w)). dep_app r = app_id a \<and> object_of cfg r k then None else storage_get (w_files w) k)"
  using delete_app_artifacts_get[of "w_db w" a cfg "w_files w" k] assms
  by (auto simp: purge_app_def app_deployments_def wf_db_def)

lemma purge_apps_files:
  "wf_db (w_db w) \<Longrightarrow> \<forall>r\<in>set (deployments (w_db w)). plain_objects cfg r (w_files w) \<Longrightarrow>
   storage_get (w_files (foldl (purge_app cfg) w as)) k =
     (if \<exists>r\<in>set (deployments (w_db w)). dep_app r \<in> app_id ` set as \<and> object_of cfg r k
      then None else storage_get (w_files w) k)"
proof (induction as arbitrary: w)
  case Nil
  then show ?case by simp
next
  case (Cons a as)
  let ?w = "purge_app cfg w a"
  have D: "deployments (w_db ?w) = delete_rows (\<lambda>r. dep_app r = app_id a) (deployments (w_db w))"
    using delete_app_row_tables[OF Cons.prems(1), of "app_id a"] by (simp add: purge_app_def)
  have "storage_get (w_files ?w) l \<noteq> None \<Longrightarrow> storage_get (w_files w) l \<noteq> None" for l
    using purge_app_files[OF Cons.prems, of a l] by (auto split: if_splits)
  then have pl: "\<forall>r\<in>set (deployments (w_db ?w)). plain_objects cfg r (w_files ?w)"
    using Cons.prems(2) unfolding D plain_objects_def by (fastforce simp: set_delete_rows)
  have wf: "wf_db (w_db ?w)" using wf_delete_app_row[OF Cons.prems(1)] by (simp add: purge_app_def)
  show ?case
    using Cons.IH[OF wf pl] purge_app_files[OF Cons.prems, of a k] unfolding D
    by (auto simp: set_delete_rows)
qed

definition company_object :: "settings \<Rightarrow> company \<Rightarrow> db \<Rightarrow> string \<Rightarrow> bool" where
  "company_object cfg c d k \<longleftrightarrow> (\<exists>r\<in>set (deployments d). company_app c d (dep_app r) \<and> object_of cfg r k)"

lemma hook_effect:
  fixes c :: company
  assumes wf: "wf_db (w_db w)" and pl: "\<forall>r\<in>set (deployments (w_db w)). plain_objects cfg r (w_files w)"
  defines "w' \<equiv> delete_company_artifacts cfg c w"
  shows "w_db w' = delete_company_apps c (w_db w)"
    and "storage_get (w_files w') k = (if company_object cfg c (w_db w) k then None else storage_get (w_files w) k)"
    and "w_cache w' s = (if \<exists>a\<in>set (apps (w_db w)). app_company_id a = c \<and> app_slug a = s then None else w_cache w s)"
proof -
  note F = delete_company_artifacts_fold[of cfg c w]
  show "w_db w' = delete_company_apps c (w_db w)"
    by (simp add: w'_def F purge_apps_db delete_company_apps_def)
  have "company_object cfg c (w_db w) k \<longleftrightarrow> (\<exists>r\<in>set (deployments (w_db w)).
      dep_app r \<in> app_id ` set (filter (\<lambda>a. app_company_id a = c) (apps (w_db w))) \<and> object_of cfg r k)"
    by (force simp: company_object_def company_app_def image_iff)
  then show "storage_get (w_files w') k = (if company_object cfg c (w_db w) k then None else storage_get (w_files w) k)"
    unfolding w'_def F purge_apps_files[OF wf pl] by simp
  show "w_cache w' s = (if \<exists>a\<in>set (apps (w_db w)). app_company_id a = c \<and> app_slug a = s then None else w_cache w s)"
    by (auto simp: w'_def F purge_apps_cache image_iff)
qed

lemma purge_effect:
  assumes wf: "wf_db (w_db w)" and pl: "\<forall>r\<in>set (deployments (w_db w)). plain_objects cfg r (w_files w)"
  shows "\<exists>n. purge_company (Some (default_hook cfg)) c w
    = (Inr n, (delete_company_artifacts cfg c w)\<lparr>w_db := without_company c (w_db w)\<rparr>)"
proof -
  have "wf_db (delete_company_apps c (w_db w))" using delete_company_apps_tables[OF wf] by blast
  then obtain n where "delete_company_rows c (delete_company_apps c (w_db w)) = (Inr n, without_company c (w_db w))"
    using delete_company_rows_first_pass clear_all_tables without_company_idem[OF wf] by metis
  then show ?thesis
    by (simp add: purge_company_def default_hook_def hook_effect(1)[OF wf pl])
qed

text \<open>C15. Purging a company with the configured blob hook succeeds; what is left is the database
  without every row of the company (its apps with their deployments, its rules with their outbox
  rows and delivery attempts, its access, tokens and log), no object of its deployments is left
  in the store and no cached site. The rows of every other company and the objects of every
  deployment that stays are unchanged, and the invariant still holds.\<close>

theorem purge_company_complete:
  assumes "wf_db (w_db w)" and "\<forall>r\<in>set (deployments (w_db w)). plain_objects cfg r (w_files w)"
  shows "\<exists>n w'. purge_company (Some (default_hook cfg)) c w = (Inr n, w')
    \<and> w_db w' = without_company c (w_db w) \<and> wf_db (w_db w')
    \<and> (\<forall>k. company_object cfg c (w_db w) k \<longrightarrow> storage_get (w_files w') k = None)
    \<and> (\<forall>r\<in>set (deployments (w_db w')). \<forall>k. object_of cfg r k \<longrightarrow> storage_get (w_files w') k = storage_get (w_files w) k)
    \<and> (\<forall>a\<in>set (apps (w_db w)). app_company_id a = c \<longrightarrow> w_cache w' (app_slug a) = None)"
proof -
  let ?w = "(delete_company_artifacts cfg c w)\<lparr>w_db := without_company c (w_db w)\<rparr>"
  obtain n where n: "purge_company (Some (default_hook cfg)) c w = (Inr n, ?w)"
    using purge_effect[OF assms] by blast
  note H = hook_effect[OF assms, of c]
  have "storage_get (w_files ?w) k = storage_get (w_files w) k"
    if r: "r \<in> set (deployments (w_db ?w))" "object_of cfg r k" for r k
  proof -
    have r': "r \<in> set (deployments (w_db w))" "\<not> company_app c (w_db w) (dep_app r)"
      using r(1) by (auto simp: without_company_def set_delete_rows)
    then have "\<not> company_object cfg c (w_db w) k"
      using object_of_unique[of r] assms(1) r(2) unfolding company_object_def wf_db_def by metis
    then show ?thesis by (simp add: H)
  qed
  then show ?thesis using n H wf_without_company[OF assms(1)] by auto
qed

definition demo_files :: files where
  "demo_files =
     [(''hosting/a1/deployments/d1/artifact.tar.gz'', ''x''), (''hosting/a1/deployments/d1/extracted/index.html'', ''y''),
      (''hosting/a2/deployments/d3/extracted/index.html'', ''z'')]"

definition demo_world :: world where
  "demo_world = \<lparr> w_db = demo_db, w_files = demo_files, w_cache = (\<lambda>_. None), w_scheduled = [], w_identity = [] \<rparr>"

lemma purge_company_complete_witness:
  "\<exists>n w'. purge_company (Some (default_hook default_settings)) 1 demo_world = (Inr n, w')
     \<and> apps (w_db w') = [demo_app ''a2'' 2 None (Some ''d3'')] \<and> accesses (w_db w') = []
     \<and> storage_get (w_files w') ''hosting/a1/deployments/d1/extracted/index.html'' = None
     \<and> storage_get (w_files w') ''hosting/a2/deployments/d3/extracted/index.html'' = Some ''z''"
proof -
  have wf: "wf_db (w_db demo_world)" by (simp add: demo_world_def wf_demo_db)
  have pl: "\<forall>r\<in>set (deployments (w_db demo_world)). plain_objects default_settings r (w_files demo_world)"
    by (simp add: plain_objects_def is_s3_backend_def default_settings_def)
  have apps: "apps (without_company 1 (w_db demo_world)) = [demo_app ''a2'' 2 None (Some ''d3'')]"
    and acc: "accesses (without_company 1 (w_db demo_world)) = []"
    and obj: "company_object default_settings 1 (w_db demo_world) ''hosting/a1/deployments/d1/extracted/index.html''"
    and dep: "demo_deployment ''a2'' ''d3'' ACTIVE 2 \<in> set (deployments (without_company 1 (w_db demo_world)))"
    and obj2: "object_of default_settings (demo_deployment ''a2'' ''d3'' ACTIVE 2)
        ''hosting/a2/deployments/d3/extracted/index.html''"
    and get: "storage_get (w_files demo_world) ''hosting/a2/deployments/d3/extracted/index.html'' = Some ''z''"
    by code_simp+
  from purge_company_complete[OF wf pl, of 1] show ?thesis
    using apps acc obj dep obj2 get by (elim exE conjE) (intro exI conjI, assumption, simp_all)
qed

section \<open>The task\<close>

definition company_free :: "company \<Rightarrow> db \<Rightarrow> bool" where
  "company_free c d \<longleftrightarrow>
     (\<forall>r\<in>set (accesses d). acc_company_id r \<noteq> c) \<and> (\<forall>a\<in>set (apps d). app_company_id a \<noteq> c)
     \<and> (\<forall>r\<in>set (tokens d). tok_company_id r \<noteq> c) \<and> (\<forall>r\<in>set (rules d). rule_company_id r \<noteq> c)
     \<and> (\<forall>r\<in>set (outbox_rows d). ob_company_id r \<noteq> c) \<and> (\<forall>r\<in>set (event_log d). ev_company_id r \<noteq> Some c)"

lemma company_free_without: "company_free c d \<Longrightarrow> company_free c (without_company c' d)"
  by (auto simp: company_free_def without_company_def set_delete_rows)

lemma company_free_self: "company_free c (without_company c d)"
  by (auto simp: company_free_def without_company_def set_delete_rows doomed_outbox_def)

lemma company_free_flags [simp]: "company_free c (d\<lparr>company_deletions := x\<rparr>) = company_free c d"
  by (simp add: company_free_def)

lemma wf_flags [simp]: "wf_db (d\<lparr>company_deletions := x\<rparr>) = wf_db d"
  by (rule wf_db_cong) simp_all

definition purgeable :: "settings \<Rightarrow> world \<Rightarrow> bool" where
  "purgeable cfg w \<longleftrightarrow> wf_db (w_db w) \<and> (\<forall>r\<in>set (deployments (w_db w)). plain_objects cfg r (w_files w))"

lemma purgeable_purge:
  assumes "purgeable cfg w" "purge_company (Some (default_hook cfg)) c w = (res, w')"
  shows "purgeable cfg w' \<and> w_db w' = without_company c (w_db w) \<and> (\<exists>n. res = Inr n)"
proof -
  have A: "wf_db (w_db w)" "\<forall>r\<in>set (deployments (w_db w)). plain_objects cfg r (w_files w)"
    using assms(1) by (auto simp: purgeable_def)
  obtain n where n: "purge_company (Some (default_hook cfg)) c w
      = (Inr n, (delete_company_artifacts cfg c w)\<lparr>w_db := without_company c (w_db w)\<rparr>)"
    using purge_effect[OF A] by blast
  have "storage_get (w_files w') k \<noteq> None \<Longrightarrow> storage_get (w_files w) k \<noteq> None" for k
    using n assms(2) hook_effect(2)[OF A, of c k] by (auto split: if_splits)
  moreover have "set (deployments (w_db w')) \<subseteq> set (deployments (w_db w))"
    using n assms(2) by (auto simp: without_company_def set_delete_rows)
  ultimately have "\<forall>r\<in>set (deployments (w_db w')). plain_objects cfg r (w_files w')"
    using A(2) unfolding plain_objects_def by fastforce
  then show ?thesis using n assms(2) wf_without_company[OF A(1)] by (auto simp: purgeable_def)
qed

definition expired_flag :: "time \<Rightarrow> company_deletion \<Rightarrow> bool" where
  "expired_flag now row \<longleftrightarrow> (case cd_completed_at row of None \<Rightarrow> False | Some t \<Rightarrow> t < now - SWEEP_WINDOW)"

definition swept :: "time \<Rightarrow> company_deletion list \<Rightarrow> company_deletion list \<Rightarrow> company_deletion list" where
  "swept now rows flags = fold (\<lambda>row fs.
      if expired_flag now row then delete_rows (\<lambda>r. cd_company_id r = cd_company_id row) fs
      else if cd_completed_at row = None
      then update_rows (\<lambda>r. cd_company_id r = cd_company_id row) (\<lambda>r. r\<lparr>cd_completed_at := Some now\<rparr>) fs else fs)
    rows flags"

lemma flags_without [simp]: "company_deletions (without_company c d) = company_deletions d"
  by (simp add: without_company_def)

lemma purge_loop_result:
  assumes "\<forall>j. clock j \<le> deadline" "purgeable cfg w"
    and "purge_loop (Some (default_hook cfg)) now deadline clock i rows (p, f, r) w = ((p', f', r'), w')"
  shows "f' = f \<and> p' = p + length (filter (\<lambda>x. cd_completed_at x = None) rows)
    \<and> r' = r + length (filter (expired_flag now) rows)
    \<and> purgeable cfg w' \<and> company_deletions (w_db w') = swept now rows (company_deletions (w_db w))
    \<and> (\<forall>c. company_free c (w_db w) \<longrightarrow> company_free c (w_db w'))
    \<and> (\<forall>x\<in>set rows. \<not> expired_flag now x \<longrightarrow> company_free (cd_company_id x) (w_db w'))"
  using assms(2,3)
proof (induction rows arbitrary: i p f r w)
  case Nil
  then show ?case by (simp add: swept_def)
next
  case (Cons row rows)
  have inT: "\<not> deadline < clock i" using assms(1) by (meson not_le)
  show ?case
  proof (cases "expired_flag now row")
    case True
    let ?w = "w\<lparr>w_db := (w_db w)\<lparr>company_deletions :=
        delete_rows (\<lambda>r. cd_company_id r = cd_company_id row) (company_deletions (w_db w))\<rparr>\<rparr>"
    have run: "purge_loop (Some (default_hook cfg)) now deadline clock (i + 1) rows (p, f, r + 1) ?w = ((p', f', r'), w')"
      using Cons.prems(2) inT True by (simp add: expired_flag_def)
    have "purgeable cfg ?w" using Cons.prems(1) by (simp add: purgeable_def)
    moreover have "cd_completed_at row \<noteq> None" using True by (auto simp: expired_flag_def split: option.splits)
    ultimately show ?thesis using Cons.IH[OF _ run] True by (simp add: swept_def)
  next
    case False
    obtain res w1 where pc: "purge_company (Some (default_hook cfg)) (cd_company_id row) w = (res, w1)"
      by (cases "purge_company (Some (default_hook cfg)) (cd_company_id row) w")
    note P = purgeable_purge[OF Cons.prems(1) pc]
    obtain n where res: "res = Inr n" using P by blast
    have fr: "company_free (cd_company_id row) (w_db w1)" "\<And>c. company_free c (w_db w) \<Longrightarrow> company_free c (w_db w1)"
      using P company_free_self company_free_without by auto
    show ?thesis
    proof (cases "cd_completed_at row = None")
      case True
      let ?w = "w1\<lparr>w_db := (w_db w1)\<lparr>company_deletions :=
          update_rows (\<lambda>r. cd_company_id r = cd_company_id row) (\<lambda>r. r\<lparr>cd_completed_at := Some now\<rparr>)
            (company_deletions (w_db w1))\<rparr>\<rparr>"
      have run: "purge_loop (Some (default_hook cfg)) now deadline clock (i + 1) rows (p + 1, f, r) ?w = ((p', f', r'), w')"
        using Cons.prems(2) inT True pc res by simp
      have "purgeable cfg ?w" using conjunct1[OF P] by (simp add: purgeable_def)
      then show ?thesis using Cons.IH[OF _ run] True False P fr by (simp add: swept_def)
    next
      case old: False
      have run: "purge_loop (Some (default_hook cfg)) now deadline clock (i + 1) rows (p, f, r) w1 = ((p', f', r'), w')"
        using Cons.prems(2) inT old False pc res by (simp add: expired_flag_def split: option.splits)
      show ?thesis using Cons.IH[OF _ run] P old False fr by (simp add: swept_def)
    qed
  qed
qed

text \<open>A run of the purge task that is not cut off by its time limit purges every flagged company:
  no row of a company whose flag is still inside the sweep window is left, no purge fails, the
  flags completed longer ago than the window (and only those) are released, and the invariant of the
  hosting tables holds again.\<close>

theorem purge_task_complete:
  assumes "\<forall>j. clock j \<le> clock 0 + max_time" and "purgeable cfg w"
  shows "\<exists>p r w'. purge_deleted_companies (Some (default_hook cfg)) now max_time clock w = ((p, 0, r), w')
    \<and> p = length (filter (\<lambda>x. cd_completed_at x = None) (company_deletions (w_db w)))
    \<and> r = length (filter (expired_flag now) (company_deletions (w_db w)))
    \<and> wf_db (w_db w')
    \<and> (\<forall>x\<in>set (company_deletions (w_db w)). \<not> expired_flag now x \<longrightarrow> company_free (cd_company_id x) (w_db w'))"
proof -
  let ?rows = "sort_key cd_requested_at (company_deletions (w_db w))"
  obtain p f r w' where run: "purge_deleted_companies (Some (default_hook cfg)) now max_time clock w = ((p, f, r), w')"
    by (cases "purge_deleted_companies (Some (default_hook cfg)) now max_time clock w") auto
  have len: "length (filter P ?rows) = length (filter P (company_deletions (w_db w)))" for P
    by (metis mset_filter mset_sort size_mset)
  show ?thesis
    using purge_loop_result[OF assms run[unfolded purge_deleted_companies_def]] run len
    by (auto simp: purgeable_def)
qed

lemma purge_task_complete_witness:
  "\<exists>w'. purge_deleted_companies (Some (default_hook default_settings)) 100 (seconds 50) (\<lambda>_. 0)
       (demo_world\<lparr>w_db := demo_db\<lparr>company_deletions := [\<lparr>cd_company_id = 1, cd_requested_at = 5, cd_completed_at = None\<rparr>]\<rparr>\<rparr>)
     = ((1, 0, 0), w') \<and> company_free 1 (w_db w')"
proof -
  let ?row = "\<lparr>cd_company_id = 1, cd_requested_at = 5, cd_completed_at = None\<rparr>"
  let ?w = "demo_world\<lparr>w_db := demo_db\<lparr>company_deletions := [?row]\<rparr>\<rparr>"
  have p: "purgeable default_settings ?w"
    by (simp add: purgeable_def wf_demo_db plain_objects_def is_s3_backend_def default_settings_def)
  have t: "\<forall>j::nat. (\<lambda>_. 0 :: time) j \<le> (\<lambda>_. 0) (0::nat) + seconds 50" by simp
  from purge_task_complete[OF t p, of 100] show ?thesis
    by (auto simp: expired_flag_def)
qed

section \<open>The endpoint\<close>

text \<open>What a verified assertion says.\<close>

definition assertion_ok :: "dict \<Rightarrow> company \<Rightarrow> bool" where
  "assertion_ok claims c \<longleftrightarrow> dict_get claims ''scope'' = Some (JStr ''company.delete'')
     \<and> dict_get claims ''company_id'' = Some (JInt c) \<and> 0 < c
     \<and> (case (dict_get claims ''exp'', dict_get claims ''iat'') of
          (Some e, Some i) \<Rightarrow> (case (to_int e, to_int i) of (Some exp, Some iat) \<Rightarrow> exp - iat \<le> 120 | _ \<Rightarrow> False)
        | _ \<Rightarrow> False)"

definition assertion_source ::
    "bool \<Rightarrow> string option \<Rightarrow> (deletion_options \<Rightarrow> string \<Rightarrow> dict option option)
      \<Rightarrow> (deletion_options \<Rightarrow> string \<Rightarrow> dict option) \<Rightarrow> string \<Rightarrow> dict \<Rightarrow> bool" where
  "assertion_source fallback issuer rs256 hs256 raw claims \<longleftrightarrow>
     rs256 (deletion_options_for issuer ''RS256'') raw = Some (Some claims)
     \<or> rs256 (deletion_options_for issuer ''RS256'') raw = None \<and> fallback
       \<and> hs256 (deletion_options_for issuer ''HS256'') raw = Some claims"

lemma verify_Inr:
  assumes "verify_deletion_assertion fallback issuer rs256 hs256 raw = Inr c"
  shows "\<exists>claims. assertion_source fallback issuer rs256 hs256 raw claims \<and> assertion_ok claims c"
proof -
  let ?src = "case rs256 (deletion_options_for issuer ''RS256'') raw of Some (Some claims) \<Rightarrow> Inr claims | Some None \<Rightarrow> Inl Rejected
      | None \<Rightarrow> if \<not> fallback then Inl Rejected
                else (case hs256 (deletion_options_for issuer ''HS256'') raw of None \<Rightarrow> Inl Rejected | Some claims \<Rightarrow> Inr claims)"
  let ?rest = "\<lambda>claims. (if dict_get claims ''scope'' \<noteq> Some (JStr DELETION_SCOPE) then Inl Wrong_Scope
          else case (dict_get claims ''exp'', dict_get claims ''iat'') of
            (Some e, Some i) \<Rightarrow>
              (case (to_int e, to_int i) of
                 (Some exp, Some iat) \<Rightarrow>
                   if exp - iat > MAX_LIFETIME then Inl Too_Long
                   else (case dict_get claims ''company_id'' of
                           Some (JInt c) \<Rightarrow> if c \<le> 0 then Inl No_Company else Inr c
                         | _ \<Rightarrow> Inl No_Company)
               | _ \<Rightarrow> Inl Int_Error)
          | _ \<Rightarrow> Inl Int_Error) = Inr c"
  obtain claims where src: "assertion_source fallback issuer rs256 hs256 raw claims" and rest: "?rest claims"
    using assms unfolding verify_deletion_assertion_def bind_res_Inr
  proof (elim exE conjE)
    fix cl
    assume that: "\<And>claims. assertion_source fallback issuer rs256 hs256 raw claims \<Longrightarrow> ?rest claims \<Longrightarrow> thesis"
      and s: "?src = Inr cl" and rest: "?rest cl"
    have "assertion_source fallback issuer rs256 hs256 raw cl"
      using s by (auto simp: assertion_source_def split: option.splits if_splits)
    then show thesis using rest by (rule that)
  qed
  have "dict_get claims ''scope'' = Some (JStr DELETION_SCOPE)" using rest by (auto split: if_splits)
  moreover obtain e i where ei: "dict_get claims ''exp'' = Some e" "dict_get claims ''iat'' = Some i"
    using rest by (auto split: if_splits option.splits)
  moreover obtain ex ia where xi: "to_int e = Some ex" "to_int i = Some ia"
    using rest ei by (auto split: if_splits option.splits)
  moreover have "ex - ia \<le> MAX_LIFETIME" using rest ei xi by (auto split: if_splits)
  moreover have "dict_get claims ''company_id'' = Some (JInt c) \<and> 0 < c"
    using rest ei xi by (auto split: if_splits option.splits json.splits)
  ultimately have "assertion_ok claims c" by (simp add: assertion_ok_def DELETION_SCOPE_def MAX_LIFETIME_def)
  then show ?thesis using src by blast
qed

definition only_flags :: "company \<Rightarrow> db \<Rightarrow> db \<Rightarrow> bool" where
  "only_flags c d d' \<longleftrightarrow> d'\<lparr>company_deletions := []\<rparr> = d\<lparr>company_deletions := []\<rparr>
     \<and> filter (\<lambda>r. cd_company_id r \<noteq> c) (company_deletions d') = filter (\<lambda>r. cd_company_id r \<noteq> c) (company_deletions d)
     \<and> (\<exists>r\<in>set (company_deletions d'). cd_company_id r = c \<and> cd_completed_at r = None)"

lemma flag_only: "only_flags c d (flag_company_deletion now c d)"
proof -
  have f: "filter (\<lambda>r. cd_company_id r \<noteq> c) (update_rows (\<lambda>r. cd_company_id r = c) (\<lambda>r. r\<lparr>cd_completed_at := None\<rparr>) rs)
      = filter (\<lambda>r. cd_company_id r \<noteq> c) rs" for rs
    by (induction rs) auto
  show ?thesis
  proof (cases "first_row (\<lambda>r. cd_company_id r = c) (company_deletions d)")
    case None
    then show ?thesis by (simp add: only_flags_def flag_company_deletion_def)
  next
    case (Some r)
    then have "r \<in> set (company_deletions d)" "cd_company_id r = c" by (auto dest: first_row_Some)
    moreover from this have "r\<lparr>cd_completed_at := None\<rparr> \<in> set (update_rows (\<lambda>r. cd_company_id r = c)
        (\<lambda>r. r\<lparr>cd_completed_at := None\<rparr>) (company_deletions d))"
      by (auto simp: set_update_rows)
    ultimately show ?thesis
      using Some unfolding only_flags_def flag_company_deletion_def
      by (cases "cd_completed_at r") (auto simp: f intro: bexI[of _ r] bexI[of _ "r\<lparr>cd_completed_at := None\<rparr>"])
  qed
qed



end
