(* ===== verification/Reachable.thy ===== *)
theory Reachable
  imports Company_Deletion
begin

text \<open>
  The service as a state machine: \<open>service_step\<close> runs one operation of \<open>Services\<close> or
  \<open>Company_Deletion\<close> on rows that are in the database, as the views load them, and
  \<open>reachable\<close> closes the empty database under it. A step is one request that runs alone; requests that
  interleave inside an operation are not covered.
\<close>

section \<open>The steps\<close>

inductive service_step :: "world \<Rightarrow> world \<Rightarrow> bool" where
  request_access: "request_access now c u (w_db w) = (r, d') \<Longrightarrow> service_step w (w\<lparr>w_db := d'\<rparr>)"
| update_access: "update_access now c st u n (w_db w) = Inr (r, d') \<Longrightarrow> service_step w (w\<lparr>w_db := d'\<rparr>)"
| create_app: "env_ok env \<Longrightarrow> create_app env c n dn tok u em w = Inr (a, w') \<Longrightarrow> service_step w w'"
| prepare: "env_ok env \<Longrightarrow> prepare_preview_deploy env c u s dn av sv tok em any w = Inr (a, r, res, w') \<Longrightarrow>
    service_step w w'"
| create_deployment: "env_ok env \<Longrightarrow> a \<in> set (apps (w_db w)) \<Longrightarrow>
    create_deployment env a av sv u p em w = Inr (r, w') \<Longrightarrow> service_step w w'"
| upload: "r \<in> set (deployments (w_db w)) \<Longrightarrow> upload_deployment_artifact env r f cl w = Inr (r', w') \<Longrightarrow>
    service_step w w'"
| finalize: "r \<in> set (deployments (w_db w)) \<Longrightarrow> a \<in> set (apps (w_db w)) \<Longrightarrow> dep_app r = app_id a \<Longrightarrow>
    finalize_deployment env a r u em tok w = (res, w') \<Longrightarrow> service_step w w'"
| rollback: "r \<in> set (deployments (w_db w)) \<Longrightarrow> a \<in> set (apps (w_db w)) \<Longrightarrow> dep_app r = app_id a \<Longrightarrow>
    rollback_deployment env a r w = Inr (r', w') \<Longrightarrow> service_step w w'"
| renew: "a \<in> set (apps (w_db w)) \<Longrightarrow> renew_app_expiry cfg now a (w_db w) = Inr (a', d') \<Longrightarrow>
    service_step w (w\<lparr>w_db := d'\<rparr>)"
| delete_app: "a \<in> set (apps (w_db w)) \<Longrightarrow> w' = delete_app env a tok u em w \<Longrightarrow> service_step w w'"
| flag_company: "service_step w (w\<lparr>w_db := flag_company_deletion now c (w_db w)\<rparr>)"
| purge_company: "purge_company (Some (default_hook cfg)) c w = (res, w') \<Longrightarrow> service_step w w'"

inductive reachable :: "world \<Rightarrow> bool" where
  start: "w_db w = empty_db \<Longrightarrow> reachable w"
| step: "reachable w \<Longrightarrow> service_step w w' \<Longrightarrow> reachable w'"

inductive_cases service_stepE: "service_step w w'"

section \<open>The invariant\<close>

lemma purge_db:
  assumes "wf_db (w_db w)" "purge_company (Some (default_hook cfg)) c w = (res, w')"
  shows "w_db w' = without_company c (w_db w)"
proof -
  have w1: "w_db (delete_company_artifacts cfg c w) = delete_company_apps c (w_db w)"
    by (simp add: delete_company_artifacts_fold purge_apps_db delete_company_apps_def)
  have "wf_db (delete_company_apps c (w_db w))" using delete_company_apps_tables[OF assms(1)] by blast
  then obtain n where "delete_company_rows c (delete_company_apps c (w_db w)) = (Inr n, without_company c (w_db w))"
    using delete_company_rows_first_pass clear_all_tables without_company_idem[OF assms(1)] by metis
  then show ?thesis using assms(2) by (auto simp: purge_company_def default_hook_def w1)
qed

lemma step_wf: "service_step w w' \<Longrightarrow> wf_db (w_db w) \<Longrightarrow> wf_db (w_db w')"
proof (induction rule: service_step.induct)
  case (flag_company w now c)
  then show ?case by (auto simp: flag_company_deletion_def split: option.split)
next
  case (purge_company cfg c w res w')
  then show ?case using purge_db wf_without_company by metis
qed (auto intro: wf_request_access wf_update_access wf_create_app wf_prepare wf_create_deployment wf_upload
    wf_finalize wf_rollback wf_renew wf_delete_app)

lemma reachable_wf: "reachable w \<Longrightarrow> wf_db (w_db w)"
  by (induction rule: reachable.induct) (simp_all add: wf_empty step_wf)

section \<open>How a deployment evolves\<close>

fun status_edge :: "deployment_status \<Rightarrow> deployment_status \<Rightarrow> bool" where
  "status_edge DRAFT t \<longleftrightarrow> t \<in> {DRAFT, UPLOADING}"
| "status_edge UPLOADING t \<longleftrightarrow> t \<in> {UPLOADING, ACTIVE, FAILED}"
| "status_edge READY t \<longleftrightarrow> t \<in> {READY, ACTIVE, FAILED}"
| "status_edge ACTIVE t \<longleftrightarrow> t \<in> {ACTIVE, SUPERSEDED}"
| "status_edge SUPERSEDED t \<longleftrightarrow> t \<in> {SUPERSEDED, ACTIVE}"
| "status_edge FAILED t \<longleftrightarrow> t \<in> {FAILED, UPLOADING}"

definition draft_empty :: "db \<Rightarrow> bool" where
  "draft_empty d \<longleftrightarrow> (\<forall>r\<in>set (deployments d). dep_status r = DRAFT \<longrightarrow> dep_artifact_size r = 0)"

definition evolves :: "db \<Rightarrow> db \<Rightarrow> bool" where
  "evolves d d' \<longleftrightarrow> (\<forall>x\<in>set (deployments d').
     (\<exists>r\<in>set (deployments d). same_deployment r x \<and> status_edge (dep_status r) (dep_status x)
        \<and> (dep_status x = DRAFT \<longrightarrow> dep_artifact_size x = dep_artifact_size r))
     \<or> dep_status x = DRAFT \<and> dep_artifact_size x = 0 \<and> dep_id x \<notin> dep_id ` set (deployments d))"

lemma status_edge_refl [simp]: "status_edge s s"
  by (cases s) simp_all

lemma same_deployment_refl [simp]: "same_deployment r r"
  by (simp add: same_deployment_def)

lemma evolves_subset: "set (deployments d') \<subseteq> set (deployments d) \<Longrightarrow> evolves d d'"
  unfolding evolves_def using status_edge_refl same_deployment_refl by blast

lemma evolves_map:
  assumes "deployments d' = map h (deployments d)"
    and "\<And>r. r \<in> set (deployments d) \<Longrightarrow> same_deployment r (h r) \<and> status_edge (dep_status r) (dep_status (h r))
        \<and> (dep_status (h r) = DRAFT \<longrightarrow> dep_artifact_size (h r) = dep_artifact_size r)"
  shows "evolves d d'"
  using assms by (auto simp: evolves_def)

lemma evolves_same: "deployments d' = deployments d \<Longrightarrow> evolves d d'"
  by (rule evolves_subset) simp

lemma evolves_insert: "insert_deployment r d = Inr d' \<Longrightarrow> dep_status r = DRAFT \<Longrightarrow> dep_artifact_size r = 0 \<Longrightarrow> evolves d d'"
  using evolves_same[of d d] by (force simp: insert_deployment_Inr evolves_def)

lemma evolves_activation:
  assumes wf: "wf_db d" and r: "r \<in> set (deployments d)" "status_edge (dep_status r) ACTIVE"
    and d': "deployments d' = deployments (update_deployment (dep_id r) (mark_active now fin)
        (supersede_others now i (dep_id r) d))"
  shows "evolves d d'"
proof -
  let ?s = "\<lambda>x. if dep_app x = i \<and> dep_status x = ACTIVE \<and> dep_id x \<noteq> dep_id r
      then x\<lparr>dep_status := SUPERSEDED, dep_updated_at := now\<rparr> else x"
  let ?h = "\<lambda>x. if dep_id x = dep_id r then mark_active now fin (?s x) else ?s x"
  have k: "keys_ok d" using wf by (simp add: wf_db_def)
  have D: "deployments d' = map ?h (deployments d)"
    by (auto simp: d' update_deployment_def supersede_others_def update_rows_def)
  show ?thesis
    by (rule evolves_map[OF D]) (use status_of_row[OF k r(1)] r(2) in \<open>auto simp: same_deployment_def mark_active_def\<close>)
qed

lemma activate_body_cases:
  assumes "activate_body env a r actor w = (res, w')"
  shows "deployments (w_db w') = deployments (w_db w) \<and> (res = Inl Extract_Error \<longrightarrow>
        dep_status r \<in> {UPLOADING, READY, DRAFT} \<and> 0 < dep_artifact_size r)
    \<or> (\<exists>r'. res = Inr r') \<and> dep_status r \<in> {UPLOADING, READY, DRAFT} \<and> 0 < dep_artifact_size r
      \<and> deployments (w_db w') = deployments (update_deployment (dep_id r) (mark_active (env_now env) (Some (env_now env)))
          (supersede_others (env_now env) (app_id a) (dep_id r) (w_db w)))"
  using assms by (auto simp: activate_body_def renew_preview_cases Let_def split: if_splits prod.splits sum.splits)

lemma startable: "draft_empty d \<Longrightarrow> r \<in> set (deployments d) \<Longrightarrow> 0 < dep_artifact_size r \<Longrightarrow>
   dep_status r \<in> {UPLOADING, READY, DRAFT} \<Longrightarrow> dep_status r \<in> {UPLOADING, READY}"
  by (auto simp: draft_empty_def)

lemma evolves_finalize:
  assumes wf: "wf_db (w_db w)" "draft_empty (w_db w)" and r: "r \<in> set (deployments (w_db w))"
    and f: "finalize_deployment env a r u em tok w = (res, w')"
  shows "evolves (w_db w) (w_db w')"
proof -
  let ?actor = "case u of Some u \<Rightarrow> action_actor (Some u) em | None \<Rightarrow> action_actor (dep_deployed_by_id r) []"
  obtain r1 w1 where b: "activate_body env a r ?actor w = (r1, w1)" by (cases "activate_body env a r ?actor w")
  note B = activate_body_cases[OF b]
  have k: "keys_ok (w_db w)" using wf by (simp add: wf_db_def)
  show ?thesis
  proof (cases r1)
    case (Inr x)
    then have D: "deployments (w_db w') = deployments (w_db w1)"
      using f b by (auto simp: finalize_deployment_def activate_deployment_def atomic_def Let_def case_prod_beta)
    from B Inr show ?thesis
    proof (elim disjE conjE exE)
      assume "deployments (w_db w1) = deployments (w_db w)"
      then show ?thesis using D by (intro evolves_same) simp
    next
      assume "dep_status r \<in> {UPLOADING, READY, DRAFT}" "0 < dep_artifact_size r"
      then have e: "status_edge (dep_status r) ACTIVE" using startable[OF wf(2) r] by auto
      assume "deployments (w_db w1) = deployments (update_deployment (dep_id r)
          (mark_active (env_now env) (Some (env_now env))) (supersede_others (env_now env) (app_id a) (dep_id r) (w_db w)))"
      then show ?thesis using D by (intro evolves_activation[OF wf(1) r e]) simp
    qed
  next
    case (Inl e)
    let ?f = "\<lambda>x. x\<lparr>dep_status := FAILED, dep_updated_at := env_now env\<rparr>"
    show ?thesis
    proof (cases "e = Extract_Error")
      case True
      have st: "dep_status r \<in> {UPLOADING, READY}"
        using B Inl True startable[OF wf(2) r] by auto
      have D: "deployments (w_db w') = map (\<lambda>x. if dep_id x = dep_id r then ?f x else x) (deployments (w_db w))"
        using f b Inl True
        by (auto simp: finalize_deployment_def activate_deployment_def atomic_def Let_def mark_deployment_failed_def
            update_deployment_def update_rows_def)
      show ?thesis
        by (rule evolves_map[OF D]) (use st in \<open>auto simp: same_deployment_def dest: status_of_row[OF k r]\<close>)
    next
      case False
      then have "deployments (w_db w') = deployments (w_db w)"
        using f b Inl by (auto simp: finalize_deployment_def activate_deployment_def atomic_def Let_def)
      then show ?thesis by (rule evolves_same)
    qed
  qed
qed

lemma evolves_upload:
  assumes wf: "wf_db (w_db w)" and r: "r \<in> set (deployments (w_db w))"
    and f: "upload_deployment_artifact env r fo cl w = Inr (r', w')"
  shows "evolves (w_db w) (w_db w')"
proof -
  have k: "keys_ok (w_db w)" using wf by (simp add: wf_db_def)
  obtain n where D: "deployments (w_db w') = map (\<lambda>x. if dep_id x = dep_id r then x\<lparr>dep_status := UPLOADING,
      dep_artifact_size := n, dep_updated_at := env_now env\<rparr> else x) (deployments (w_db w))"
    and st: "dep_status r \<in> {DRAFT, UPLOADING, FAILED}"
    using f unfolding upload_deployment_artifact_def Let_def
    by (force simp: res_simps update_deployment_def update_rows_def simp del: map_eq_conv split: if_splits)
  show ?thesis
    by (rule evolves_map[OF D]) (use st in \<open>auto simp: same_deployment_def dest: status_of_row[OF k r]\<close>)
qed

lemma evolves_rollback:
  assumes wf: "wf_db (w_db w)" and r: "r \<in> set (deployments (w_db w))"
    and f: "rollback_deployment env a r w = Inr (r', w')"
  shows "evolves (w_db w) (w_db w')"
proof -
  have st: "status_edge (dep_status r) ACTIVE" using f by (auto simp: rollback_deployment_def split: if_splits)
  obtain fin where "deployments (w_db w') = deployments (update_deployment (dep_id r) (mark_active (env_now env) fin)
      (supersede_others (env_now env) (app_id a) (dep_id r) (w_db w)))"
    using f by (auto simp: rollback_deployment_def Let_def split: if_splits)
  then show ?thesis by (rule evolves_activation[OF wf r st])
qed

lemma create_deployment_row:
  assumes "create_deployment env a av sv u p em w = Inr (r, w')"
  shows "\<exists>d. insert_deployment r (w_db w) = Inr d \<and> deployments (w_db w') = deployments d
    \<and> dep_status r = DRAFT \<and> dep_artifact_size r = 0"
  using assms by (auto simp: create_deployment_def res_simps Let_def split: if_splits)

lemma evolves_create_deployment:
  "create_deployment env a av sv u p em w = Inr (r, w') \<Longrightarrow> evolves (w_db w) (w_db w')"
  using create_deployment_row evolves_insert unfolding evolves_def by metis

lemma create_apps_deployments:
  "create_app env c n dn tok u em w = Inr (a, w') \<Longrightarrow> deployments (w_db w') = deployments (w_db w)"
  "create_preview_app env c v dn em w = Inr (a, w') \<Longrightarrow> deployments (w_db w') = deployments (w_db w)"
  by (auto simp: create_app_def create_preview_app_def res_simps Let_def insert_app_Inr split: if_splits)

lemma evolves_prepare:
  assumes "prepare_preview_deploy env c u s dn av sv tok em any w = Inr (a, r, res, w')"
  shows "evolves (w_db w) (w_db w')"
proof -
  obtain a1 r1 w1 where p: "prepare_preview_deploy_atomic env c u s dn av sv em any w = Inr ((a1, r1), w1)"
      "w_db w' = w_db w1"
    using assms by (auto simp: prepare_preview_deploy_def res_simps case_prod_beta)
  then obtain a2 w2 where "create_deployment env a2 av sv (Some u) False em w2 = Inr (r1, w1)"
      "w2 = w \<or> create_preview_app env c u dn em w = Inr (a2, w2)"
    by (auto simp: prepare_preview_deploy_atomic_def res_simps split: option.splits if_splits)
  then have "evolves (w_db w2) (w_db w1)" "deployments (w_db w2) = deployments (w_db w)"
    using evolves_create_deployment create_apps_deployments(2) by auto
  then show ?thesis using p(2) by (simp add: evolves_def)
qed

lemma step_evolves:
  assumes "service_step w w'" "wf_db (w_db w)" "draft_empty (w_db w)"
  shows "evolves (w_db w) (w_db w')"
  using assms
proof (induction rule: service_step.induct)
  case (request_access now c u w r d')
  then show ?case
    by (intro evolves_same) (auto simp: request_access_def save_access_def Let_def split: option.splits if_splits)
next
  case (update_access now c st u n w r d')
  then show ?case
    by (intro evolves_same) (auto simp: update_access_def save_access_def Let_def split: option.splits)
next
  case (create_app env c n dn tok u em w a w')
  then show ?case using create_apps_deployments(1) by (intro evolves_same)
next
  case (renew a w cfg now a' d')
  then show ?case by (intro evolves_same) (auto simp: renew_app_expiry_def split: if_splits)
next
  case (delete_app a w w' env tok u em)
  then show ?case
    by (intro evolves_subset) (auto simp: delete_app_def Let_def delete_app_row_def set_delete_rows split: sum.split)
next
  case (flag_company w now c)
  then show ?case by (intro evolves_same) (auto simp: flag_company_deletion_def split: option.split)
next
  case (purge_company cfg c w res w')
  then show ?case using purge_db by (intro evolves_subset) (auto simp: without_company_def set_delete_rows)
qed (auto intro: evolves_create_deployment evolves_finalize evolves_upload evolves_rollback evolves_prepare)

lemma evolves_draft: "evolves d d' \<Longrightarrow> draft_empty d \<Longrightarrow> draft_empty d'"
proof -
  assume e: "evolves d d'" and de: "draft_empty d"
  have "status_edge s DRAFT \<Longrightarrow> s = DRAFT" for s by (cases s) auto
  then show ?thesis using e de unfolding evolves_def draft_empty_def by metis
qed

definition no_ready :: "db \<Rightarrow> bool" where
  "no_ready d \<longleftrightarrow> (\<forall>r\<in>set (deployments d). dep_status r \<noteq> READY)"

lemma evolves_no_ready: "evolves d d' \<Longrightarrow> no_ready d \<Longrightarrow> no_ready d'"
proof -
  assume e: "evolves d d'" and n: "no_ready d"
  have "status_edge s READY \<Longrightarrow> s = READY" for s by (cases s) auto
  then show ?thesis using e n unfolding evolves_def no_ready_def by (metis deployment_status.distinct(3))
qed

lemma reachable_inv: "reachable w \<Longrightarrow> wf_db (w_db w) \<and> draft_empty (w_db w) \<and> no_ready (w_db w)"
proof (induction rule: reachable.induct)
  case (start w)
  have "deployments empty_db = []" by (simp add: empty_db_def)
  then show ?case using start wf_empty by (simp add: draft_empty_def no_ready_def)
next
  case (step w w')
  then show ?case using step_wf step_evolves evolves_draft evolves_no_ready by metis
qed

section \<open>A run\<close>

definition demo_env :: env where
  "demo_env = \<lparr> env_cfg = default_settings\<lparr>HOSTING_DEBUG_OPEN := True\<rparr>, env_now = 5,
     env_fresh = (\<lambda>s n. if n = 0 then ''a1'' else ''d1''), env_pick = (\<lambda>_ _. 0),
     env_untar = (\<lambda>_. Tar_Members [\<lparr>mem_name = ''index.html'', mem_isfile = True, mem_size = 2,
        mem_stream = Some [''hi'']\<rparr>]),
     env_identity = (\<lambda>_ _. Some 200) \<rparr>"

definition run0 :: world where
  "run0 = \<lparr> w_db = empty_db, w_files = [], w_cache = (\<lambda>_. None), w_scheduled = [], w_identity = [] \<rparr>"

definition run_app :: app where
  "run_app = new_app 5 ''a1'' ''site'' ''aaaaaaaaaaaa'' 1 ''site'' None"

definition run_dep :: "deployment_status \<Rightarrow> int \<Rightarrow> deployment" where
  "run_dep st n =
     \<lparr> dep_id = ''d1'', dep_app = ''a1'', dep_app_version = ''1.0.0'', dep_shellui_version = ''1.0.0'',
       dep_status = st, dep_pinned = False, dep_storage_prefix = ''a1/deployments/d1/'', dep_deployed_by_id = Some 7,
       dep_artifact_size = n, dep_created_at = 5, dep_updated_at = 5, dep_finalized_at = None \<rparr>"

lemma demo_env_ok: "env_ok demo_env"
  by code_simp

lemma run_parts:
  "validate_app_name ''site'' = Inr ''site''"
  "generate_public_slug (slug_taken empty_db) (env_pick demo_env) = Inr ''aaaaaaaaaaaa''"
  "isl (parse ''1.0.0'') = False"
  "strip ''1.0.0'' = ''1.0.0''" "strip [] = []"
  by code_simp+

lemma run_create:
  "\<exists>w. create_app demo_env 1 ''site'' [] None (Some 7) [] run0 = Inr (run_app, w)
     \<and> apps (w_db w) = [run_app] \<and> deployments (w_db w) = [] \<and> w_files w = []"
proof -
  have e: "env_cfg demo_env = default_settings\<lparr>HOSTING_DEBUG_OPEN := True\<rparr>" "env_now demo_env = 5"
    "env_fresh demo_env 0 0 = ''a1''"
    by (simp_all add: demo_env_def)
  have g: "w_db run0 = empty_db" "w_files run0 = []" "apps empty_db = []" "deployments empty_db = []"
    by (simp_all add: run0_def empty_db_def)
  show ?thesis
    by (simp add: create_app_def assert_hosting_access_def g run_parts e count_rows_def has_row_def insert_app_def
        run_app_def Let_def default_settings_def)
qed

lemma run_draft:
  assumes "apps (w_db w) = [run_app]" "deployments (w_db w) = []"
  shows "\<exists>w'. create_deployment demo_env run_app ''1.0.0'' ''1.0.0'' (Some 7) False [] w = Inr (run_dep DRAFT 0, w')
     \<and> apps (w_db w') = [run_app] \<and> deployments (w_db w') = [run_dep DRAFT 0] \<and> w_files w' = w_files w"
proof -
  have e: "env_cfg demo_env = default_settings\<lparr>HOSTING_DEBUG_OPEN := True\<rparr>" "env_now demo_env = 5"
    "env_fresh demo_env 0 (Suc 0) = ''d1''" "app_id run_app = ''a1''" "app_company_id run_app = 1"
    by (simp_all add: demo_env_def run_app_def new_app_def)
  obtain v where v: "parse ''1.0.0'' = Inr v" using run_parts(3) by (cases "parse ''1.0.0''") auto
  show ?thesis
    by (simp add: create_deployment_def assert_hosting_access_def v run_parts e has_row_def insert_deployment_def
        app_deployments_def run_dep_def Let_def default_settings_def assms)
qed

lemma run_upload:
  assumes "apps (w_db w) = [run_app]" "deployments (w_db w) = [run_dep DRAFT 0]" "w_files w = []"
  shows "\<exists>w'. upload_deployment_artifact demo_env (run_dep DRAFT 0) [''tar''] None w = Inr (run_dep UPLOADING 3, w')
     \<and> apps (w_db w') = [run_app] \<and> deployments (w_db w') = [run_dep UPLOADING 3]
     \<and> w_files w' = [(''hosting/a1/deployments/d1/artifact.tar.gz'', ''tar'')]"
proof -
  have "save_artifact (artifact_key (env_cfg demo_env) ''a1/deployments/d1/'') [''tar''] (HOSTING_MAX_UPLOAD_BYTES (env_cfg demo_env)) []
      = Inr (3, [(''hosting/a1/deployments/d1/artifact.tar.gz'', ''tar'')])"
    by code_simp
  moreover have "env_now demo_env = 5" by (simp add: demo_env_def)
  ultimately show ?thesis
    using assms by (simp add: upload_deployment_artifact_def run_dep_def Let_def update_deployment_def)
qed

lemma run_finalize:
  assumes "apps (w_db w) = [run_app]" "deployments (w_db w) = [run_dep UPLOADING 3]"
    "w_files w = [(''hosting/a1/deployments/d1/artifact.tar.gz'', ''tar'')]"
  shows "\<exists>res w'. finalize_deployment demo_env run_app (run_dep UPLOADING 3) (Some 7) [] None w = (Inr res, w')
     \<and> apps (w_db w') = [set_current 5 ''d1'' run_app]
     \<and> deployments (w_db w') = [mark_active 5 (Some 5) (run_dep UPLOADING 3)]
     \<and> storage_get (w_files w') ''hosting/a1/deployments/d1/extracted/index.html'' = Some ''hi''"
proof -
  have "storage_get (snd (extract_deployment_artifact (env_cfg demo_env) (env_untar demo_env) ''a1/deployments/d1/''
      [(''hosting/a1/deployments/d1/artifact.tar.gz'', ''tar'')])) ''hosting/a1/deployments/d1/extracted/index.html'' = Some ''hi''"
    by code_simp
  moreover have "isl (fst (extract_deployment_artifact (env_cfg demo_env) (env_untar demo_env) ''a1/deployments/d1/''
      [(''hosting/a1/deployments/d1/artifact.tar.gz'', ''tar'')])) = False"
    by code_simp
  ultimately obtain n fs where x: "extract_deployment_artifact (env_cfg demo_env) (env_untar demo_env) ''a1/deployments/d1/''
      [(''hosting/a1/deployments/d1/artifact.tar.gz'', ''tar'')] = (Inr n, fs)"
      and hi: "storage_get fs ''hosting/a1/deployments/d1/extracted/index.html'' = Some ''hi''"
    by (metis isl_def prod.collapse sum.exhaust snd_conv)
  have e: "env_now demo_env = 5" "app_id run_app = ''a1''" "app_created_by_id run_app = None"
    by (simp_all add: demo_env_def run_app_def new_app_def)
  show ?thesis
    by (simp add: finalize_deployment_def activate_deployment_def atomic_def activate_body_def run_dep_def x hi Let_def e
        assms renew_preview_expiry_def update_app_def update_deployment_def supersede_others_def case_prod_beta
        mark_active_def set_current_def)
qed

lemma run_reachable:
  "\<exists>w3 w4. reachable w3 \<and> service_step w3 w4 \<and> deployments (w_db w3) = [run_dep UPLOADING 3]
     \<and> apps (w_db w4) = [set_current 5 ''d1'' run_app]
     \<and> deployments (w_db w4) = [mark_active 5 (Some 5) (run_dep UPLOADING 3)]
     \<and> storage_get (w_files w4) ''hosting/a1/deployments/d1/extracted/index.html'' = Some ''hi''"
proof -
  obtain w1 where c: "create_app demo_env 1 ''site'' [] None (Some 7) [] run0 = Inr (run_app, w1)"
    and w1: "apps (w_db w1) = [run_app]" "deployments (w_db w1) = []" "w_files w1 = []"
    using run_create by blast
  obtain w2 where d: "create_deployment demo_env run_app ''1.0.0'' ''1.0.0'' (Some 7) False [] w1 = Inr (run_dep DRAFT 0, w2)"
    and w2: "apps (w_db w2) = [run_app]" "deployments (w_db w2) = [run_dep DRAFT 0]" "w_files w2 = []"
    using run_draft[OF w1(1,2)] w1(3) by auto
  obtain w3 where u: "upload_deployment_artifact demo_env (run_dep DRAFT 0) [''tar''] None w2 = Inr (run_dep UPLOADING 3, w3)"
    and w3: "apps (w_db w3) = [run_app]" "deployments (w_db w3) = [run_dep UPLOADING 3]"
      "w_files w3 = [(''hosting/a1/deployments/d1/artifact.tar.gz'', ''tar'')]"
    using run_upload[OF w2] by auto
  obtain res w4 where f: "finalize_deployment demo_env run_app (run_dep UPLOADING 3) (Some 7) [] None w3 = (Inr res, w4)"
    and w4: "apps (w_db w4) = [set_current 5 ''d1'' run_app]"
      "deployments (w_db w4) = [mark_active 5 (Some 5) (run_dep UPLOADING 3)]"
      "storage_get (w_files w4) ''hosting/a1/deployments/d1/extracted/index.html'' = Some ''hi''"
    using run_finalize[OF w3] by auto
  have "reachable run0" by (rule reachable.start) (simp add: run0_def)
  then have "reachable w1" by (rule reachable.step) (rule service_step.create_app[OF demo_env_ok c])
  then have "reachable w2"
    by (rule reachable.step) (rule service_step.create_deployment[OF demo_env_ok _ d], simp add: w1)
  then have "reachable w3" by (rule reachable.step) (rule service_step.upload[OF _ u], simp add: w2)
  moreover have "service_step w3 w4"
    by (rule service_step.finalize[OF _ _ _ f]) (simp_all add: w3 run_dep_def run_app_def new_app_def)
  ultimately show ?thesis using w3 w4 by blast
qed

section \<open>The properties\<close>

text \<open>C1. In every reachable world an app has at most one active deployment, the one it points to as its
  current deployment; an active deployment has a non-empty artifact, a draft has none, no deployment
  is ever in the status ready, and every deployment keeps the storage prefix made of its app and its id.\<close>

theorem one_active_deployment:
  assumes "reachable w" "a \<in> set (apps (w_db w))"
  shows "length (filter (\<lambda>r. dep_status r = ACTIVE) (app_deployments (app_id a) (w_db w))) \<le> 1
    \<and> (\<forall>r\<in>set (app_deployments (app_id a) (w_db w)).
        (dep_status r = ACTIVE \<longleftrightarrow> app_current_deployment a = Some (dep_id r))
        \<and> (dep_status r = ACTIVE \<longrightarrow> 0 < dep_artifact_size r) \<and> (dep_status r = DRAFT \<longrightarrow> dep_artifact_size r = 0)
        \<and> dep_status r \<noteq> READY \<and> dep_storage_prefix r = app_id a @ ''/deployments/'' @ dep_id r @ ''/'')"
proof -
  let ?rs = "filter (\<lambda>r. dep_status r = ACTIVE) (app_deployments (app_id a) (w_db w))"
  have inv: "wf_db (w_db w)" "draft_empty (w_db w)" "no_ready (w_db w)" using reachable_inv[OF assms(1)] by auto
  have cur: "dep_status r = ACTIVE \<longleftrightarrow> app_current_deployment a = Some (dep_id r)"
    if "r \<in> set (app_deployments (app_id a) (w_db w))" for r
    using inv(1) assms(2) that by (auto simp: wf_db_def lifecycle_ok_def app_deployments_def)
  have "distinct (map dep_id ?rs)"
    using inv(1) by (auto simp: wf_db_def keys_ok_def app_deployments_def intro: distinct_map_filter)
  moreover have "card (set (map dep_id ?rs)) \<le> 1"
  proof (cases "app_current_deployment a")
    case None
    then have "?rs = []" using cur by (auto simp: filter_empty_conv)
    then show ?thesis by simp
  next
    case (Some c)
    then have "set (map dep_id ?rs) \<subseteq> {c}" using cur by auto
    then show ?thesis using card_mono[of "{c}"] by simp
  qed
  ultimately have "length ?rs \<le> 1" by (metis distinct_card length_map)
  then show ?thesis
    using cur inv by (auto simp: wf_db_def deployment_ok_def app_deployments_def draft_empty_def no_ready_def)
qed

theorem one_active_deployment_witness:
  "\<exists>w a. reachable w \<and> a \<in> set (apps (w_db w))
     \<and> length (filter (\<lambda>r. dep_status r = ACTIVE) (app_deployments (app_id a) (w_db w))) \<le> 1
     \<and> map dep_status (deployments (w_db w)) = [ACTIVE]"
proof -
  obtain w4 where w4: "reachable w4" "apps (w_db w4) = [set_current 5 ''d1'' run_app]"
      "deployments (w_db w4) = [mark_active 5 (Some 5) (run_dep UPLOADING 3)]"
    using run_reachable reachable.step by blast
  then have "set_current 5 ''d1'' run_app \<in> set (apps (w_db w4))" by simp
  from one_active_deployment[OF w4(1) this] this show ?thesis
    using w4 by (intro exI[of _ w4] exI[of _ "set_current 5 ''d1'' run_app"]) (simp add: mark_active_def)
qed

text \<open>C16. The life of a deployment, over every step of the service: a draft becomes uploading, an upload
  becomes active or failed, a failed one can be uploaded again (and never becomes active directly), an
  active one is only ever superseded, and a superseded one can be made active again; its app and its
  storage prefix never change.\<close>

theorem deployment_state_machine:
  assumes "reachable w" "service_step w w'"
    and "r \<in> set (deployments (w_db w))" "r' \<in> set (deployments (w_db w'))" "dep_id r' = dep_id r"
  shows "status_edge (dep_status r) (dep_status r') \<and> dep_app r' = dep_app r
    \<and> dep_storage_prefix r' = dep_storage_prefix r"
proof -
  have inv: "wf_db (w_db w)" "draft_empty (w_db w)" using reachable_inv[OF assms(1)] by auto
  then have k: "keys_ok (w_db w)" by (simp add: wf_db_def)
  have "\<exists>x\<in>set (deployments (w_db w)). same_deployment x r' \<and> status_edge (dep_status x) (dep_status r')"
    using step_evolves[OF assms(2) inv] assms(3-5) unfolding evolves_def by force
  then show ?thesis
    using status_of_row[OF k assms(3)] assms(5) by (auto simp: same_deployment_def)
qed

theorem deployment_state_machine_witness:
  "\<exists>w w' r r'. reachable w \<and> service_step w w' \<and> r \<in> set (deployments (w_db w)) \<and> r' \<in> set (deployments (w_db w'))
     \<and> status_edge UPLOADING (dep_status r') \<and> dep_status r' = ACTIVE"
proof -
  let ?r = "run_dep UPLOADING 3" and ?r' = "mark_active 5 (Some 5) (run_dep UPLOADING 3)"
  obtain w3 w4 where w: "reachable w3" "service_step w3 w4" "deployments (w_db w3) = [?r]" "deployments (w_db w4) = [?r']"
    using run_reachable by blast
  have "?r \<in> set (deployments (w_db w3))" "?r' \<in> set (deployments (w_db w4))" "dep_id ?r' = dep_id ?r"
    "dep_status ?r = UPLOADING" "dep_status ?r' = ACTIVE"
    using w by (simp_all add: mark_active_def run_dep_def)
  then show ?thesis using deployment_state_machine[OF w(1,2)] w(1,2) by metis
qed

end
