(* ===== verification/Serve.thy ===== *)
theory Serve
  imports Services
begin

text \<open>
  Serving a published site: \<^verbatim>\<open>apps/hosting/serve.py\<close>. A request reads the app through the serve
  cache, takes its current deployment, resolves the path to one of the extracted files and answers
  with the content, or with the friendly 404 page. The monotonic clock of the cache is a second
  clock beside the wall clock; the table of MIME types of the machine is the argument
  \<open>guess_type\<close>. An opened file is its path and its bytes.
\<close>

section \<open>File names\<close>

definition ASSET_EXTENSIONS :: "string list" where
  "ASSET_EXTENSIONS =
     [''js'', ''mjs'', ''cjs'', ''css'', ''map'', ''json'', ''svg'', ''png'', ''jpg'', ''jpeg'', ''gif'', ''webp'', ''ico'',
      ''woff'', ''woff2'', ''ttf'', ''otf'', ''eot'', ''txt'', ''xml'', ''wasm'', ''mp4'', ''webm'', ''mp3'', ''wav'']"

text \<open>\<^verbatim>\<open>PurePosixPath(p).name\<close> and \<^verbatim>\<open>name.rsplit('.', 1)[-1]\<close> of a name with a dot.\<close>

definition posix_name :: "string \<Rightarrow> string" where
  "posix_name p = (let parts = filter (\<lambda>c. c \<noteq> [] \<and> c \<noteq> ''.'') (split_on CHR ''/'' p)
                   in if parts = [] then [] else last parts)"

definition after_last_dot :: "string \<Rightarrow> string" where
  "after_last_dot name = last (split_on CHR ''.'' name)"

definition looks_like_static_asset :: "string \<Rightarrow> bool" where
  "looks_like_static_asset relative_path =
     (let name = posix_name relative_path
      in if CHR ''.'' \<notin> set name then False else lower (after_last_dot name) \<in> set ASSET_EXTENSIONS)"

definition alnum :: rexp where
  "alnum = Cls [(65, 90), (97, 122), (48, 57)]"

text \<open>\<open>HASHED_FILENAME\<close> is the pattern up to its \<^verbatim>\<open>$\<close>, which also matches before a final line break.\<close>

definition HASHED_FILENAME :: rexp where
  "HASHED_FILENAME =
     Cat (Plus (Cls [(0, 9), (11, 255)])) (Cat (Lit CHR ''-'') (Cat (AtLeast 6 alnum)
       (Cat (Lit CHR ''.'') (Cat (Plus alnum) (Opt (Lit (char_of (10 :: nat))))))))"

definition is_immutable_asset :: "string \<Rightarrow> bool" where
  "is_immutable_asset relative_path =
     (if \<not> looks_like_static_asset relative_path then False
      else re_fullmatch HASHED_FILENAME (posix_name relative_path))"

definition cache_control_for :: "string \<Rightarrow> string" where
  "cache_control_for relative_path =
     (if endswith relative_path ''.html'' then ''no-cache''
      else if is_immutable_asset relative_path then ''public, max-age=31536000, immutable''
      else ''public, max-age=86400'')"

section \<open>The serve cache\<close>

definition serve_cache_ttl :: "settings \<Rightarrow> time" where
  "serve_cache_ttl cfg = seconds (HOSTING_SERVE_CACHE_TTL_SECONDS cfg)"

definition cache_get_app :: "settings \<Rightarrow> time \<Rightarrow> string \<Rightarrow> serve_cache \<Rightarrow> (app \<times> deployment option) option \<times> serve_cache" where
  "cache_get_app cfg tick slug cache =
     (if serve_cache_ttl cfg \<le> 0 then (None, cache)
      else case cache slug of
             None \<Rightarrow> (None, cache)
           | Some (expires, hit) \<Rightarrow>
               if expires \<le> tick then (None, cache(slug := None)) else (Some hit, cache))"

definition cache_set_app :: "settings \<Rightarrow> time \<Rightarrow> string \<Rightarrow> app \<times> deployment option \<Rightarrow> serve_cache \<Rightarrow> serve_cache" where
  "cache_set_app cfg tick slug hit cache =
     (if serve_cache_ttl cfg \<le> 0 then cache else cache(slug \<mapsto> (tick + serve_cache_ttl cfg, hit)))"

text \<open>\<^verbatim>\<open>App.objects.select_related('current_deployment').filter(slug=slug).first()\<close>\<close>

definition app_by_slug :: "string \<Rightarrow> db \<Rightarrow> (app \<times> deployment option) option" where
  "app_by_slug slug d =
     (case first_row (\<lambda>a. app_slug a = slug) (apps d) of
        None \<Rightarrow> None
      | Some a \<Rightarrow> Some (a, case app_current_deployment a of
                            None \<Rightarrow> None
                          | Some i \<Rightarrow> first_row (\<lambda>r. dep_id r = i) (deployments d)))"

definition load_app :: "settings \<Rightarrow> time \<Rightarrow> string \<Rightarrow> db \<Rightarrow> serve_cache \<Rightarrow> (app \<times> deployment option) option \<times> serve_cache" where
  "load_app cfg tick slug d cache =
     (case cache_get_app cfg tick slug cache of
        (Some hit, cache1) \<Rightarrow> (Some hit, cache1)
      | (None, cache1) \<Rightarrow>
          (case app_by_slug slug d of
             None \<Rightarrow> (None, cache1)
           | Some hit \<Rightarrow> (Some hit, cache_set_app cfg tick slug hit cache1)))"

definition resolve_deployment :: "deployment option \<Rightarrow> deployment option" where
  "resolve_deployment deployment =
     (case deployment of
        None \<Rightarrow> None
      | Some r \<Rightarrow> if dep_status r \<in> {ACTIVE, READY, SUPERSEDED} then Some r else None)"

section \<open>Picking the file\<close>

definition serve_candidates :: "string \<Rightarrow> string list" where
  "serve_candidates rel =
     (if rel = [] \<or> endswith rel ''/'' then [if rel \<noteq> [] then rel @ ''index.html'' else ''index.html'']
      else rel # (if looks_like_static_asset rel then [] else [rstrip_char CHR ''/'' rel @ ''/index.html'']))
     @ (if rel \<noteq> [] \<and> looks_like_static_asset rel then [] else [''404.html'', ''index.html''])"

fun open_first :: "settings \<Rightarrow> string \<Rightarrow> files \<Rightarrow> string list \<Rightarrow> string list \<Rightarrow> exn + (string \<times> string)" where
  "open_first cfg sp fs seen [] = Inl Http404"
| "open_first cfg sp fs seen (c # cs) =
     (if c = [] \<or> c \<in> set seen then open_first cfg sp fs seen cs
      else case open_extracted_file cfg sp c fs of
             Inl e \<Rightarrow> Inl e
           | Inr None \<Rightarrow> open_first cfg sp fs (c # seen) cs
           | Inr (Some handle) \<Rightarrow> Inr (c, handle))"

definition pick_file :: "settings \<Rightarrow> string \<Rightarrow> string \<Rightarrow> files \<Rightarrow> exn + (string \<times> string)" where
  "pick_file cfg sp path fs =
     bind_res (validate_serve_path path) (\<lambda>rel. open_first cfg sp fs [] (serve_candidates rel))"

section \<open>Responses\<close>

datatype body =
    File_Body string string
  | Site_Page string string string string
  | Plain_Body string
  | Json_Body dict
  | Error_Page nat string string

text \<open>
  A response of Django: the status, the headers that are set on it, the cookies with the
  \<^verbatim>\<open>domain\<close> attribute of their morsel, the mark of \<^verbatim>\<open>xframe_options_exempt\<close>, and the body.
\<close>

record response =
  rs_status :: nat
  rs_content_type :: string
  rs_headers :: "(string \<times> string) list"
  rs_cookies :: "(string \<times> string) list"
  rs_xframe_exempt :: bool
  rs_body :: body

text \<open>Header names do not distinguish case.\<close>

definition header_is :: "string \<Rightarrow> string \<times> string \<Rightarrow> bool" where
  "header_is name h = (lower (fst h) = lower name)"

definition get_header :: "string \<Rightarrow> response \<Rightarrow> string option" where
  "get_header name rs = map_option snd (List.find (header_is name) (rs_headers rs))"

definition del_header :: "string \<Rightarrow> response \<Rightarrow> response" where
  "del_header name rs = rs\<lparr>rs_headers := filter (\<lambda>h. \<not> header_is name h) (rs_headers rs)\<rparr>"

definition set_header :: "string \<Rightarrow> string \<Rightarrow> response \<Rightarrow> response" where
  "set_header name v rs = rs\<lparr>rs_headers := filter (\<lambda>h. \<not> header_is name h) (rs_headers rs) @ [(name, v)]\<rparr>"

definition setdefault_header :: "string \<Rightarrow> string \<Rightarrow> response \<Rightarrow> response" where
  "setdefault_header name v rs = (if get_header name rs = None then set_header name v rs else rs)"

definition new_response :: "nat \<Rightarrow> string \<Rightarrow> body \<Rightarrow> response" where
  "new_response st content_type b =
     \<lparr>rs_status = st, rs_content_type = content_type, rs_headers = [], rs_cookies = [],
      rs_xframe_exempt = False, rs_body = b\<rparr>"

definition file_response :: "(string \<Rightarrow> string option) \<Rightarrow> string \<Rightarrow> string \<Rightarrow> response" where
  "file_response guess_type relative_path handle =
     (let content_type = (case guess_type relative_path of
                            Some t \<Rightarrow> if t = [] then ''application/octet-stream'' else t
                          | None \<Rightarrow> ''application/octet-stream'');
          rs = set_header ''Cache-Control'' (cache_control_for relative_path)
                 (new_response 200 content_type (File_Body relative_path handle))
      in del_header ''X-Frame-Options'' (rs\<lparr>rs_xframe_exempt := True\<rparr>))"

definition SITE_MESSAGES :: "string \<Rightarrow> (string \<times> string) option" where
  "SITE_MESSAGES = map_of
     [(''not_found'', (''This site is unavailable'',
        ''No hosted app exists for this address. It may have been deleted, or the link may be incorrect.'')),
      (''expired'', (''This site has expired'',
        ''The preview for this address has expired and is no longer available. Deploy again to create a new site.'')),
      (''unavailable'', (''This site is unavailable'',
        ''Nothing is published at this address yet, or the deployment is no longer available.''))]"

definition site_unavailable_response :: "string \<Rightarrow> string \<Rightarrow> response" where
  "site_unavailable_response get_host reason =
     (let (headline, message) = (case SITE_MESSAGES reason of Some m \<Rightarrow> m | None \<Rightarrow> the (SITE_MESSAGES ''not_found''));
          host = before_first CHR '':'' get_host;
          rs = set_header ''Cache-Control'' ''no-cache''
                 (new_response 404 ''text/html; charset=utf-8'' (Site_Page headline message host reason))
      in del_header ''X-Frame-Options'' (rs\<lparr>rs_xframe_exempt := True\<rparr>))"

section \<open>The view\<close>

definition serve_deployment ::
    "(string \<Rightarrow> string option) \<Rightarrow> settings \<Rightarrow> string \<Rightarrow> string \<Rightarrow> files \<Rightarrow> string \<Rightarrow> exn + response" where
  "serve_deployment guess_type cfg get_host path fs sp =
     bind_res (validate_serve_path path) (\<lambda>rel_path.
       if rel_path \<noteq> [] \<and> looks_like_static_asset rel_path
       then bind_res (open_extracted_file cfg sp rel_path fs) (\<lambda>f.
              case f of None \<Rightarrow> Inl Http404 | Some handle \<Rightarrow> Inr (file_response guess_type rel_path handle))
       else if \<not> extracted_index_exists cfg sp fs then Inr (site_unavailable_response get_host ''unavailable'')
       else map_res (\<lambda>(rel, handle). file_response guess_type rel handle) (pick_file cfg sp path fs))"

definition serve_app ::
    "(string \<Rightarrow> string option) \<Rightarrow> settings \<Rightarrow> time \<Rightarrow> string \<Rightarrow> string \<Rightarrow> files
      \<Rightarrow> (app \<times> deployment option) option \<Rightarrow> exn + response" where
  "serve_app guess_type cfg now get_host path fs found =
     (case found of
        None \<Rightarrow> Inr (site_unavailable_response get_host ''not_found'')
      | Some (a, current) \<Rightarrow>
          if is_preview_expired now a then Inr (site_unavailable_response get_host ''expired'')
          else (case resolve_deployment current of
                  None \<Rightarrow> Inr (site_unavailable_response get_host ''unavailable'')
                | Some r \<Rightarrow> serve_deployment guess_type cfg get_host path fs (dep_storage_prefix r)))"

definition AppServeView_get ::
    "(string \<Rightarrow> string option) \<Rightarrow> settings \<Rightarrow> time \<Rightarrow> time \<Rightarrow> string \<Rightarrow> string \<Rightarrow> world \<Rightarrow> (exn + response) \<times> world" where
  "AppServeView_get guess_type cfg now tick get_host path w =
     (case slug_from_host cfg get_host of
        None \<Rightarrow> (Inl Http404, w)
      | Some slug \<Rightarrow>
          (let (found, cache) = load_app cfg tick slug (w_db w) (w_cache w)
           in (serve_app guess_type cfg now get_host path (w_files w) found, w\<lparr>w_cache := cache\<rparr>)))"

section \<open>What a lookup through the cache returns\<close>

text \<open>
  The interface of a cache whose entries carry the moment they expire: a hit returns a live entry,
  a lookup adds nothing, and storing adds the entry that lives for \<open>ttl\<close>. The client reads through
  it from a source that changes over time. \<open>past\<close> holds the sources that were current, each with the
  last moment it was known to be.
\<close>

locale read_through =
  fixes lookup :: "time \<Rightarrow> 'k \<Rightarrow> 'c \<Rightarrow> 'v option \<times> 'c"
    and store :: "time \<Rightarrow> 'k \<Rightarrow> 'v \<Rightarrow> 'c \<Rightarrow> 'c"
    and entry :: "'c \<Rightarrow> 'k \<Rightarrow> (time \<times> 'v) option"
    and ttl :: time
  assumes lookup_hit: "lookup t k c = (Some v, c') \<Longrightarrow> \<exists>e. entry c k = Some (e, v) \<and> t < e"
    and lookup_keeps: "lookup t k c = (r, c') \<Longrightarrow> entry c' l = Some y \<Longrightarrow> entry c l = Some y"
    and store_entry: "entry (store t k v c) l = Some (e, x) \<Longrightarrow>
      (l = k \<and> x = v \<and> e = t + ttl) \<or> entry c l = Some (e, x)"
begin

definition load :: "time \<Rightarrow> 'k \<Rightarrow> ('k \<Rightarrow> 'v option) \<Rightarrow> 'c \<Rightarrow> 'v option \<times> 'c" where
  "load t k src c =
     (case lookup t k c of
        (Some v, c1) \<Rightarrow> (Some v, c1)
      | (None, c1) \<Rightarrow> (case src k of None \<Rightarrow> (None, c1) | Some v \<Rightarrow> (Some v, store t k v c1)))"

definition vouched :: "(time \<times> ('k \<Rightarrow> 'v option)) set \<Rightarrow> 'c \<Rightarrow> bool" where
  "vouched past c \<longleftrightarrow> (\<forall>k e v. entry c k = Some (e, v) \<longrightarrow> (\<exists>(t, src)\<in>past. src k = Some v \<and> e \<le> t + ttl))"

lemma vouched_less: "(\<And>k x. entry c' k = Some x \<Longrightarrow> entry c k = Some x) \<Longrightarrow> vouched past c \<Longrightarrow> vouched past c'"
  unfolding vouched_def by blast

lemma vouched_more: "vouched past c \<Longrightarrow> past \<subseteq> past' \<Longrightarrow> vouched past' c"
  unfolding vouched_def by blast

lemma vouched_later: "vouched (insert (t, src) past) c \<Longrightarrow> t \<le> t' \<Longrightarrow> vouched (insert (t', src) past) c"
  unfolding vouched_def by fastforce

lemma load_vouched:
  assumes "vouched past c" "(t, src) \<in> past" "load t k src c = (r, c')"
  shows "vouched past c'"
proof -
  obtain h c1 where l: "lookup t k c = (h, c1)" by (cases "lookup t k c")
  have v1: "vouched past c1" using vouched_less[OF _ assms(1)] lookup_keeps[OF l] by blast
  consider "c' = c1" | v where "src k = Some v" "c' = store t k v c1"
    using assms(3) by (auto simp: load_def l split: option.splits)
  then show ?thesis
  proof cases
    case 2
    have "\<exists>(t, src)\<in>past. src l = Some x \<and> e \<le> t + ttl" if c': "entry c' l = Some (e, x)" for l e x
    proof -
      consider "l = k" "x = v" "e = t + ttl" | "entry c1 l = Some (e, x)"
        using store_entry c' unfolding 2(2) by blast
      then show ?thesis using v1 assms(2) 2(1) unfolding vouched_def by cases blast+
    qed
    then show ?thesis unfolding vouched_def by blast
  qed (simp add: v1)
qed

lemma load_recent:
  assumes "vouched past c" "load t k src c = (r, c')"
  shows "r = src k \<or> (\<exists>(t0, src0)\<in>past. t < t0 + ttl \<and> src0 k = r)"
proof (cases "lookup t k c")
  case (Pair h c1)
  show ?thesis
  proof (cases h)
    case None
    then show ?thesis using assms(2) Pair by (auto simp: load_def split: option.splits)
  next
    case (Some v)
    then obtain e where "entry c k = Some (e, v)" "t < e" using lookup_hit Pair by blast
    then show ?thesis using assms Pair Some unfolding vouched_def load_def by fastforce
  qed
qed

end

interpretation cached: read_through "cache_get_app cfg" "cache_set_app cfg" "\<lambda>c. c" "serve_cache_ttl cfg" for cfg
  by unfold_locales (auto simp: cache_get_app_def cache_set_app_def split: if_splits option.splits)

lemma load_app_cached: "load_app cfg t slug d c = cached.load cfg t slug (\<lambda>s. app_by_slug s d) c"
  by (simp add: load_app_def cached.load_def split: prod.split option.split)

section \<open>What a site may answer\<close>

lemma rel_path_ok_join:
  assumes "rel_path_ok rel" "rel_path_ok name"
  shows "rel_path_ok (rel @ ''/'' @ name)"
proof -
  have "split_on CHR ''/'' (rel @ ''/'' @ name) = split_on CHR ''/'' rel @ split_on CHR ''/'' name"
    by (induction rel) (auto split: list.splits)
  moreover have "backslash \<noteq> CHR ''/''" by (rule backslash_ne)
  ultimately show ?thesis using assms by (auto simp: rel_path_ok_def)
qed

lemma rel_path_ok_names: "rel_path_ok ''index.html''" "rel_path_ok ''404.html''"
  by code_simp+

lemma candidates_ok:
  assumes "rel = [] \<or> rel_path_ok rel" "c \<in> set (serve_candidates rel)"
  shows "rel_path_ok c"
proof (cases "rel = []")
  case True
  then show ?thesis using assms(2) rel_path_ok_names by (auto simp: serve_candidates_def split: if_splits)
next
  case False
  then have ok: "rel_path_ok rel" using assms(1) by blast
  have "last rel \<noteq> CHR ''/''" using rel_path_ok_edges[OF ok] by blast
  then have "\<not> endswith rel ''/''" "rstrip_char CHR ''/'' rel = rel"
    using False by (auto simp: endswith_iff rstrip_char_id)
  then show ?thesis
    using assms(2) False ok rel_path_ok_names rel_path_ok_join[OF ok] by (auto simp: serve_candidates_def split: if_splits)
qed

text \<open>The file that is opened is the first candidate that does not come back as missing.\<close>

lemma open_first_find:
  "[] \<notin> set cs \<Longrightarrow> \<forall>c\<in>set seen. open_extracted_file cfg sp c fs = Inr None \<Longrightarrow>
   open_first cfg sp fs seen cs =
     (case List.find (\<lambda>c. open_extracted_file cfg sp c fs \<noteq> Inr None) cs of
        None \<Rightarrow> Inl Http404
      | Some c \<Rightarrow> map_res (\<lambda>f. (c, the f)) (open_extracted_file cfg sp c fs))"
  by (induction cs arbitrary: seen) (auto split: sum.splits option.splits)

lemma candidates_ne: "rel = [] \<or> rel_path_ok rel \<Longrightarrow> [] \<notin> set (serve_candidates rel)"
  using candidates_ok rel_path_ok_ne by blast

lemma open_first_Inr:
  "open_first cfg sp fs seen cs = Inr (c, h) \<Longrightarrow> c \<in> set cs \<and> open_extracted_file cfg sp c fs = Inr (Some h)"
  by (induction cs arbitrary: seen) (auto split: if_splits sum.splits option.splits)

lemma open_extracted_Some: "open_extracted_file cfg sp c fs = Inr (Some h) \<Longrightarrow>
  storage_get fs (extracted_file_key cfg sp c) = Some h"
  by (simp add: open_extracted_file_def Let_def split: if_splits)

lemma file_response_simps [simp]:
  "rs_status (file_response gt rel data) = 200" "rs_body (file_response gt rel data) = File_Body rel data"
  "rs_cookies (file_response gt rel data) = []"
  "rs_headers (file_response gt rel data) = [(''Cache-Control'', cache_control_for rel)]"
proof -
  have "lower ''Cache-Control'' \<noteq> lower ''X-Frame-Options''" by code_simp
  then show "rs_headers (file_response gt rel data) = [(''Cache-Control'', cache_control_for rel)]"
    by (simp add: file_response_def new_response_def set_header_def del_header_def header_is_def)
qed (simp_all add: file_response_def new_response_def set_header_def del_header_def Let_def)

lemma site_unavailable_simps [simp]:
  "rs_status (site_unavailable_response h reason) = 404" "rs_cookies (site_unavailable_response h reason) = []"
  "rs_headers (site_unavailable_response h reason) = [(''Cache-Control'', ''no-cache'')]"
  "rs_body (site_unavailable_response h reason) \<noteq> File_Body rel data"
proof -
  have "lower ''Cache-Control'' \<noteq> lower ''X-Frame-Options''" by code_simp
  then show "rs_headers (site_unavailable_response h reason) = [(''Cache-Control'', ''no-cache'')]"
    by (simp add: site_unavailable_response_def new_response_def set_header_def del_header_def header_is_def case_prod_beta)
qed (simp_all add: site_unavailable_response_def new_response_def set_header_def del_header_def Let_def case_prod_beta)

lemma serve_deployment_file:
  assumes "serve_deployment gt cfg host path fs sp = Inr rs" "rs_body rs = File_Body rel data"
  obtains p where "validate_serve_path path = Inr p" "rel \<in> set (serve_candidates p)" "rel_path_ok rel"
    "storage_get fs (extracted_file_key cfg sp rel) = Some data" "rs = file_response gt rel data"
proof -
  obtain p where p: "validate_serve_path path = Inr p"
    using assms(1) by (auto simp: serve_deployment_def res_simps)
  then have ok: "p = [] \<or> rel_path_ok p" using validate_serve_path_Inr by blast
  have "rel \<in> set (serve_candidates p) \<and> open_extracted_file cfg sp rel fs = Inr (Some data) \<and> rs = file_response gt rel data"
  proof (cases "p \<noteq> [] \<and> looks_like_static_asset p")
    case True
    then have "p \<in> set (serve_candidates p)"
      using rel_path_ok_edges[of p] ok by (auto simp: serve_candidates_def endswith_iff)
    moreover have "open_extracted_file cfg sp p fs = Inr (Some data) \<and> rel = p \<and> rs = file_response gt p data"
      using assms True by (auto simp: serve_deployment_def p res_simps split: option.splits)
    ultimately show ?thesis by simp
  next
    case False
    then have "map_res (\<lambda>(rel, handle). file_response gt rel handle) (pick_file cfg sp path fs) = Inr rs"
      using assms by (auto simp: serve_deployment_def p split: if_splits)
    then obtain c h where "pick_file cfg sp path fs = Inr (c, h)" "rs = file_response gt c h"
      by (auto simp: res_simps)
    then show ?thesis using open_first_Inr[of cfg sp fs "[]" "serve_candidates p"] assms(2)
      by (auto simp: pick_file_def p)
  qed
  then show thesis using that[OF p] candidates_ok[OF ok] open_extracted_Some by blast
qed

end
