(* ===== verification/Service_Laws.thy ===== *)
theory Service_Laws
  imports Reachable
begin

text \<open>
  What the operations of \<open>Services\<close> promise their callers: finalising (success, rejected archive,
  unreadable archive), deleting, the access gate, the quotas and the isolation of companies.
\<close>

section \<open>Finalising\<close>

lemma deployment_ok_prefix_ok:
  "deployment_ok r \<Longrightarrow> prefix_ok (dep_storage_prefix r) \<and> last (dep_storage_prefix r) = CHR ''/''"
  using deployment_prefix(1)[of r] by (simp add: plain_prefix_def deployment_ok_def)

lemma in_set_map: "x \<in> set xs \<Longrightarrow> f x = y \<Longrightarrow> y \<in> set (map f xs)"
  by auto

lemma activate_body_Inr:
  assumes "activate_body env a r actor w = (Inr r', w')"
  shows "dep_status r \<in> {UPLOADING, READY, DRAFT}" "0 < dep_artifact_size r"
    and "r' = mark_active (env_now env) (Some (env_now env)) r"
    and "\<exists>n. extract_deployment_artifact (env_cfg env) (env_untar env) (dep_storage_prefix r) (w_files w) = (Inr n, w_files w')"
    and "w_cache w' = (w_cache w)(app_slug a := None)"
    and "deployments (w_db w') = deployments (update_deployment (dep_id r) (mark_active (env_now env) (Some (env_now env)))
          (supersede_others (env_now env) (app_id a) (dep_id r) (w_db w)))"
    and "apps (w_db w') = map (\<lambda>b. if app_id b = app_id a then set_current (env_now env) (dep_id r)
           (if app_created_by_id a = None then b else set_expiry (env_cfg env) (env_now env) b) else b) (apps (w_db w))"
  using assms
  by (auto simp: activate_body_def Let_def renew_preview_cases update_app_def supersede_others_def update_deployment_def
      invalidate_serve_cache_def update_rows_def set_expiry_def split: if_splits prod.splits sum.splits)

lemma finalize_Inr:
  assumes "finalize_deployment env a r u em tok w = (Inr (r', sync), w')"
  shows "\<exists>w1. activate_body env a r (case u of Some u \<Rightarrow> action_actor (Some u) em | None \<Rightarrow> action_actor (dep_deployed_by_id r) []) w
      = (Inr r', w1) \<and> w_db w' = w_db w1 \<and> w_files w' = w_files w1 \<and> w_cache w' = w_cache w1"
proof -
  let ?actor = "case u of Some u \<Rightarrow> action_actor (Some u) em | None \<Rightarrow> action_actor (dep_deployed_by_id r) []"
  obtain res w1 where b: "activate_body env a r ?actor w = (res, w1)" by (cases "activate_body env a r ?actor w")
  then show ?thesis
    using assms by (cases res)
      (auto simp: finalize_deployment_def activate_deployment_def atomic_def Let_def case_prod_beta split: if_splits)
qed

text \<open>A finalisation that succeeds: what it leaves in the files and the cache, and in the tables.\<close>

lemma finalize_effects:
  assumes wf: "wf_db (w_db w)" and r: "r \<in> set (deployments (w_db w))" and a: "a \<in> set (apps (w_db w))" "dep_app r = app_id a"
    and fin: "finalize_deployment env a r u em tok w = (Inr (r', sync), w')"
    and cfg: "\<not> is_s3_backend (env_cfg env)" "0 \<le> HOSTING_MAX_EXTRACT_BYTES (env_cfg env)"
      "0 \<le> HOSTING_MAX_EXTRACT_FILE_BYTES (env_cfg env)"
  shows "w_cache w' (app_slug a) = None"
    and "\<exists>data kvs. storage_get (w_files w) (artifact_key (env_cfg env) (dep_storage_prefix r)) = Some data
         \<and> kvs = site_files (env_cfg env) (env_untar env) (dep_storage_prefix r) data
         \<and> total_length kvs \<le> HOSTING_MAX_EXTRACT_BYTES (env_cfg env)
         \<and> (\<forall>k. in_site (env_cfg env) (dep_storage_prefix r) k \<longrightarrow> storage_get (w_files w') k = map_of (rev kvs) k)"
    and "\<not> in_site (env_cfg env) (dep_storage_prefix r) k \<Longrightarrow> k \<noteq> site_dir (env_cfg env) (dep_storage_prefix r) \<Longrightarrow>
         storage_get (w_files w') k = storage_get (w_files w) k"
proof -
  let ?sp = "dep_storage_prefix r" and ?cfg = "env_cfg env"
  obtain w1 where "activate_body env a r
      (case u of Some u \<Rightarrow> action_actor (Some u) em | None \<Rightarrow> action_actor (dep_deployed_by_id r) []) w = (Inr r', w1)"
    and w1: "w_files w' = w_files w1" "w_cache w' = w_cache w1"
    using finalize_Inr[OF fin] by blast
  note B = activate_body_Inr[OF this(1)]
  have "deployment_ok r" using wf r by (simp add: wf_db_def)
  note P = deployment_ok_prefix_ok[OF this]
  obtain n where x: "extract_deployment_artifact ?cfg (env_untar env) ?sp (w_files w) = (Inr n, w_files w')"
    using B(4) unfolding w1 by blast
  note X = extract_effect[OF x conjunct1[OF P] conjunct2[OF P] cfg]
  show "w_cache w' (app_slug a) = None" unfolding w1(2) B(5) by simp
  show "\<exists>data kvs. storage_get (w_files w) (artifact_key ?cfg ?sp) = Some data
         \<and> kvs = site_files ?cfg (env_untar env) ?sp data \<and> total_length kvs \<le> HOSTING_MAX_EXTRACT_BYTES ?cfg
         \<and> (\<forall>k. in_site ?cfg ?sp k \<longrightarrow> storage_get (w_files w') k = map_of (rev kvs) k)"
    using mp[OF spec[OF conjunct2[OF conjunct2[OF X]], of n] refl] by (elim exE conjE) (intro exI conjI)
  show "\<not> in_site ?cfg ?sp k \<Longrightarrow> k \<noteq> site_dir ?cfg ?sp \<Longrightarrow> storage_get (w_files w') k = storage_get (w_files w) k"
    using spec[OF conjunct1[OF X], of k] by simp
qed

lemma finalize_rows:
  assumes wf: "wf_db (w_db w)" and r: "r \<in> set (deployments (w_db w))" and a: "a \<in> set (apps (w_db w))" "dep_app r = app_id a"
    and fin: "finalize_deployment env a r u em tok w = (Inr (r', sync), w')"
  shows "dep_status r \<in> {UPLOADING, READY, DRAFT}" "0 < dep_artifact_size r" "dep_status r' = ACTIVE" "dep_id r' = dep_id r"
    and "r' \<in> set (deployments (w_db w'))"
    and "b \<in> set (apps (w_db w')) \<Longrightarrow> app_id b = app_id a \<Longrightarrow> app_current_deployment b = Some (dep_id r)"
    and "x \<in> set (deployments (w_db w)) \<Longrightarrow> dep_app x = app_id a \<Longrightarrow> dep_status x = ACTIVE \<Longrightarrow> x \<noteq> r \<Longrightarrow>
         x\<lparr>dep_status := SUPERSEDED, dep_updated_at := env_now env\<rparr> \<in> set (deployments (w_db w'))"
    and "filter (\<lambda>b. app_id b \<noteq> app_id a) (apps (w_db w')) = filter (\<lambda>b. app_id b \<noteq> app_id a) (apps (w_db w))"
    and "filter (\<lambda>x. dep_app x \<noteq> app_id a) (deployments (w_db w')) = filter (\<lambda>x. dep_app x \<noteq> app_id a) (deployments (w_db w))"
proof -
  let ?now = "env_now env" and ?cfg = "env_cfg env"
  obtain w1 where "activate_body env a r
      (case u of Some u \<Rightarrow> action_actor (Some u) em | None \<Rightarrow> action_actor (dep_deployed_by_id r) []) w = (Inr r', w1)"
    and w1: "w_db w' = w_db w1"
    using finalize_Inr[OF fin] by blast
  note B = activate_body_Inr[OF this(1)]
  have k: "keys_ok (w_db w)" using wf by (simp add: wf_db_def)
  let ?s = "\<lambda>x. if dep_app x = app_id a \<and> dep_status x = ACTIVE \<and> dep_id x \<noteq> dep_id r
      then x\<lparr>dep_status := SUPERSEDED, dep_updated_at := ?now\<rparr> else x"
  let ?h = "\<lambda>x. if dep_id x = dep_id r then mark_active ?now (Some ?now) (?s x) else ?s x"
  let ?g = "\<lambda>b. if app_id b = app_id a then set_current ?now (dep_id r)
      (if app_created_by_id a = None then b else set_expiry ?cfg ?now b) else b"
  have D: "deployments (w_db w') = map ?h (deployments (w_db w))"
    unfolding w1 B(6) by (simp add: update_deployment_def supersede_others_def update_rows_def)
  have A: "apps (w_db w') = map ?g (apps (w_db w))" unfolding w1 by (rule B(7))
  show "dep_status r \<in> {UPLOADING, READY, DRAFT}" "0 < dep_artifact_size r" "dep_status r' = ACTIVE" "dep_id r' = dep_id r"
    using B(1,2) unfolding B(3) by (simp_all add: mark_active_def)
  have "?h r = r'" unfolding B(3) by simp
  then show "r' \<in> set (deployments (w_db w'))" unfolding D by (rule in_set_map[OF r])
  show "b \<in> set (apps (w_db w')) \<Longrightarrow> app_id b = app_id a \<Longrightarrow> app_current_deployment b = Some (dep_id r)"
    unfolding A by (auto simp: set_current_def split: if_splits)
  show "x\<lparr>dep_status := SUPERSEDED, dep_updated_at := ?now\<rparr> \<in> set (deployments (w_db w'))"
    if x: "x \<in> set (deployments (w_db w))" "dep_app x = app_id a" "dep_status x = ACTIVE" "x \<noteq> r"
  proof -
    have "dep_id x \<noteq> dep_id r" using status_of_row[OF k r x(1)] x(4) by blast
    then have "?h x = x\<lparr>dep_status := SUPERSEDED, dep_updated_at := ?now\<rparr>" using x by simp
    then show ?thesis unfolding D by (rule in_set_map[OF x(1)])
  qed
  have fa: "filter (\<lambda>b. app_id b \<noteq> app_id a) (map ?g as) = filter (\<lambda>b. app_id b \<noteq> app_id a) as" for as
    by (induction as) (auto simp: set_current_def set_expiry_def)
  show "filter (\<lambda>b. app_id b \<noteq> app_id a) (apps (w_db w')) = filter (\<lambda>b. app_id b \<noteq> app_id a) (apps (w_db w))"
    unfolding A fa by (rule refl)
  have fd: "filter (\<lambda>x. dep_app x \<noteq> app_id a) (map ?h rs) = filter (\<lambda>x. dep_app x \<noteq> app_id a) rs"
    if "\<forall>x\<in>set rs. dep_id x = dep_id r \<longrightarrow> dep_app x = app_id a" for rs
    using that by (induction rs) (auto simp: mark_active_def)
  have "\<forall>x\<in>set (deployments (w_db w)). dep_id x = dep_id r \<longrightarrow> dep_app x = app_id a"
    using a(2) by (auto dest: status_of_row[OF k r])
  then show "filter (\<lambda>x. dep_app x \<noteq> app_id a) (deployments (w_db w')) = filter (\<lambda>x. dep_app x \<noteq> app_id a) (deployments (w_db w))"
    unfolding D by (rule fd)
qed

text \<open>C4. A finalisation that succeeds on the file system backend: the deployment was uploaded and is now
  the active one of its app, its app points to it, the deployment that was active is superseded and no
  cached site of the app is left. The site holds exactly the accepted members of the uploaded archive,
  within the limits. No other app, no deployment of another app and no object outside the site changes.\<close>

theorem finalize_success:
  assumes wf: "wf_db (w_db w)" and r: "r \<in> set (deployments (w_db w))" and a: "a \<in> set (apps (w_db w))" "dep_app r = app_id a"
    and fin: "finalize_deployment env a r u em tok w = (Inr (r', sync), w')"
    and cfg: "\<not> is_s3_backend (env_cfg env)" "0 \<le> HOSTING_MAX_EXTRACT_BYTES (env_cfg env)"
      "0 \<le> HOSTING_MAX_EXTRACT_FILE_BYTES (env_cfg env)"
  shows "dep_status r \<in> {UPLOADING, READY, DRAFT} \<and> 0 < dep_artifact_size r
    \<and> dep_status r' = ACTIVE \<and> dep_id r' = dep_id r \<and> r' \<in> set (deployments (w_db w'))
    \<and> (\<forall>b\<in>set (apps (w_db w')). app_id b = app_id a \<longrightarrow> app_current_deployment b = Some (dep_id r))
    \<and> (\<forall>x\<in>set (deployments (w_db w)). dep_app x = app_id a \<and> dep_status x = ACTIVE \<and> x \<noteq> r \<longrightarrow>
         x\<lparr>dep_status := SUPERSEDED, dep_updated_at := env_now env\<rparr> \<in> set (deployments (w_db w')))
    \<and> filter (\<lambda>b. app_id b \<noteq> app_id a) (apps (w_db w')) = filter (\<lambda>b. app_id b \<noteq> app_id a) (apps (w_db w))
    \<and> filter (\<lambda>x. dep_app x \<noteq> app_id a) (deployments (w_db w')) = filter (\<lambda>x. dep_app x \<noteq> app_id a) (deployments (w_db w))
    \<and> w_cache w' (app_slug a) = None
    \<and> (\<exists>data kvs. storage_get (w_files w) (artifact_key (env_cfg env) (dep_storage_prefix r)) = Some data
         \<and> kvs = site_files (env_cfg env) (env_untar env) (dep_storage_prefix r) data
         \<and> total_length kvs \<le> HOSTING_MAX_EXTRACT_BYTES (env_cfg env)
         \<and> (\<forall>k. in_site (env_cfg env) (dep_storage_prefix r) k \<longrightarrow> storage_get (w_files w') k = map_of (rev kvs) k))
    \<and> (\<forall>k. \<not> in_site (env_cfg env) (dep_storage_prefix r) k \<and> k \<noteq> site_dir (env_cfg env) (dep_storage_prefix r) \<longrightarrow>
         storage_get (w_files w') k = storage_get (w_files w) k)"
proof (intro conjI ballI allI impI)
  note R = finalize_rows[OF wf r a fin]
  note F = finalize_effects[OF wf r a fin cfg]
  show "dep_status r \<in> {UPLOADING, READY, DRAFT}" "0 < dep_artifact_size r" "dep_status r' = ACTIVE"
    "dep_id r' = dep_id r" "r' \<in> set (deployments (w_db w'))" "w_cache w' (app_slug a) = None"
    "filter (\<lambda>b. app_id b \<noteq> app_id a) (apps (w_db w')) = filter (\<lambda>b. app_id b \<noteq> app_id a) (apps (w_db w))"
    "filter (\<lambda>x. dep_app x \<noteq> app_id a) (deployments (w_db w')) = filter (\<lambda>x. dep_app x \<noteq> app_id a) (deployments (w_db w))"
    "\<exists>data kvs. storage_get (w_files w) (artifact_key (env_cfg env) (dep_storage_prefix r)) = Some data
         \<and> kvs = site_files (env_cfg env) (env_untar env) (dep_storage_prefix r) data
         \<and> total_length kvs \<le> HOSTING_MAX_EXTRACT_BYTES (env_cfg env)
         \<and> (\<forall>k. in_site (env_cfg env) (dep_storage_prefix r) k \<longrightarrow> storage_get (w_files w') k = map_of (rev kvs) k)"
    by (fact R F)+
qed (use finalize_rows(6,7)[OF wf r a fin] finalize_effects(3)[OF wf r a fin cfg] in blast)+

definition upload_world :: world where
  "upload_world = run0\<lparr>w_db := empty_db\<lparr>apps := [run_app], deployments := [run_dep UPLOADING 3]\<rparr>,
     w_files := [(''hosting/a1/deployments/d1/artifact.tar.gz'', ''tar'')]\<rparr>"

lemma wf_upload_world: "wf_db (w_db upload_world)"
  by code_simp

lemma upload_world_rows:
  "apps (w_db upload_world) = [run_app]" "deployments (w_db upload_world) = [run_dep UPLOADING 3]"
  "w_files upload_world = [(''hosting/a1/deployments/d1/artifact.tar.gz'', ''tar'')]"
  "dep_app (run_dep s n) = app_id run_app" "dep_id (run_dep s n) = ''d1''" "dep_status (run_dep s n) = s"
  "dep_artifact_size (run_dep s n) = n" "dep_storage_prefix (run_dep s n) = ''a1/deployments/d1/''"
  by (simp_all add: upload_world_def run_dep_def run_app_def new_app_def)

lemma demo_env_cfg:
  "\<not> is_s3_backend (env_cfg demo_env)" "0 \<le> HOSTING_MAX_EXTRACT_BYTES (env_cfg demo_env)"
  "0 \<le> HOSTING_MAX_EXTRACT_FILE_BYTES (env_cfg demo_env)"
  by code_simp+

theorem finalize_success_witness:
  "\<exists>r' sync w'. finalize_deployment demo_env run_app (run_dep UPLOADING 3) (Some 7) [] None upload_world = (Inr (r', sync), w')
     \<and> dep_status r' = ACTIVE
     \<and> storage_get (w_files w') ''hosting/a1/deployments/d1/extracted/index.html'' = Some ''hi''"
proof -
  obtain res w' where f: "finalize_deployment demo_env run_app (run_dep UPLOADING 3) (Some 7) [] None upload_world = (Inr res, w')"
    using run_finalize[OF upload_world_rows(1-3)] by blast
  obtain r' sync where f': "finalize_deployment demo_env run_app (run_dep UPLOADING 3) (Some 7) [] None upload_world
      = (Inr (r', sync), w')"
    using f by (cases res) auto
  let ?k = "''hosting/a1/deployments/d1/extracted/index.html''"
  have m: "run_dep UPLOADING 3 \<in> set (deployments (w_db upload_world))" "run_app \<in> set (apps (w_db upload_world))"
    by (simp_all add: upload_world_rows)
  have "storage_get (w_files upload_world) (artifact_key (env_cfg demo_env) ''a1/deployments/d1/'') = Some ''tar''"
    "in_site (env_cfg demo_env) ''a1/deployments/d1/'' ?k"
    "map_of (rev (site_files (env_cfg demo_env) (env_untar demo_env) ''a1/deployments/d1/'' ''tar'')) ?k = Some ''hi''"
    by code_simp+
  then have "dep_status r' = ACTIVE \<and> storage_get (w_files w') ?k = Some ''hi''"
    using finalize_success[OF wf_upload_world m upload_world_rows(4) f' demo_env_cfg] by (auto simp: upload_world_rows(8))
  then show ?thesis using f' by blast
qed

definition site_empty :: "settings \<Rightarrow> string \<Rightarrow> files \<Rightarrow> bool" where
  "site_empty cfg sp fs \<longleftrightarrow> (\<forall>k. in_site cfg sp k \<longrightarrow> storage_get fs k = None)"

text \<open>C35. What finalising an uploaded deployment does with each kind of archive (file system backend). An archive
  that is rejected (too many files, too large) marks the deployment failed and answers
  \<open>artifact_extract_failed\<close>; it does not replace the current site: every app with its current deployment,
  every other deployment, every object outside the site of the rejected one and the serve cache stay as they
  were, and nothing of the rejected site is left. The documentation and the docstring of
  \<^verbatim>\<open>finalize_deployment\<close> promise this for every bad archive, and two kinds escape it (recorded as findings):
  data that is no gzip tar at all is not rejected, the deployment becomes active with an empty site; and an archive
  that breaks off while it is read raises the error of the reader, so that the current site stays but
  the deployment is not marked failed.\<close>

theorem finalize_archive_outcome:
  assumes wf: "wf_db (w_db w)" and r: "r \<in> set (deployments (w_db w))"
    and st: "dep_status r \<in> {UPLOADING, READY}" "0 < dep_artifact_size r"
    and cfg: "\<not> is_s3_backend (env_cfg env)" "0 \<le> HOSTING_MAX_EXTRACT_BYTES (env_cfg env)"
      "0 \<le> HOSTING_MAX_EXTRACT_FILE_BYTES (env_cfg env)"
    and data: "storage_get (w_files w) (artifact_key (env_cfg env) (dep_storage_prefix r)) = Some data" "data \<noteq> []"
    and fin: "finalize_deployment env a r u em tok w = (res, w')"
  shows "case env_untar env data of
      Not_A_Tar \<Rightarrow> (\<exists>r' sync. res = Inr (r', sync) \<and> dep_status r' = ACTIVE)
         \<and> site_empty (env_cfg env) (dep_storage_prefix r) (w_files w')
    | Tar_Broken \<Rightarrow> res = Inl Os_Error \<and> w_db w' = w_db w \<and> site_empty (env_cfg env) (dep_storage_prefix r) (w_files w')
    | Tar_Members ms \<Rightarrow> (case res of
          Inr (r', sync) \<Rightarrow> dep_status r' = ACTIVE
        | Inl e \<Rightarrow> e = Hosting_Error 400 ''artifact_extract_failed'' \<and> apps (w_db w') = apps (w_db w)
            \<and> deployments (w_db w') = map (\<lambda>x. if dep_id x = dep_id r
                then x\<lparr>dep_status := FAILED, dep_updated_at := env_now env\<rparr> else x) (deployments (w_db w))
            \<and> w_cache w' = w_cache w \<and> site_empty (env_cfg env) (dep_storage_prefix r) (w_files w')
            \<and> (\<forall>k. k \<noteq> site_dir (env_cfg env) (dep_storage_prefix r) \<and> \<not> in_site (env_cfg env) (dep_storage_prefix r) k
                 \<longrightarrow> storage_get (w_files w') k = storage_get (w_files w) k))"
proof -
  let ?cfg = "env_cfg env" and ?sp = "dep_storage_prefix r"
  let ?actor = "case u of Some u \<Rightarrow> action_actor (Some u) em | None \<Rightarrow> action_actor (dep_deployed_by_id r) []"
  have ok: "deployment_ok r" using wf r by (auto simp: wf_db_def)
  note P = deployment_ok_prefix_ok[OF ok]
  obtain x fs where x: "extract_deployment_artifact ?cfg (env_untar env) ?sp (w_files w) = (x, fs)"
    by (cases "extract_deployment_artifact ?cfg (env_untar env) ?sp (w_files w)")
  note X = extract_effect[OF x conjunct1[OF P] conjunct2[OF P] cfg]
  have del: "storage_get (delete_extracted_prefix ?cfg ?sp (w_files w)) k = (if in_site ?cfg ?sp k then None else storage_get (w_files w) k)" for k
    by (rule get_deleted_site[OF conjunct1[OF P] cfg(1)])
  have key: "storage_get (delete_extracted_prefix ?cfg ?sp (w_files w)) (artifact_key ?cfg ?sp) = Some data"
    using data(1) artifact_not_site[OF conjunct1[OF P] conjunct2[OF P], of ?cfg] by (simp add: del in_site_def)
  have errs: "e = Extract_Error \<or> e = Os_Error \<and> env_untar env data = Tar_Broken \<and> site_empty ?cfg ?sp fs" if "x = Inl e" for e
    using x that data key extract_members_error
    by (auto simp: extract_deployment_artifact_def Let_def site_empty_def del split: tar_result.splits prod.splits)
  have okx: "\<exists>r' sync. res = Inr (r', sync) \<and> dep_status r' = ACTIVE \<and> w_files w' = fs" if "x = Inr n" for n
    using fin st x that
    by (auto simp: finalize_deployment_def activate_deployment_def atomic_def activate_body_def Let_def case_prod_beta
        mark_active_def)
  have broken: "res = Inl Os_Error \<and> w_db w' = w_db w \<and> w_files w' = fs" if "x = Inl Os_Error"
    using fin st x that
    by (auto simp: finalize_deployment_def activate_deployment_def atomic_def activate_body_def Let_def)
  have rejected: "res = Inl (Hosting_Error 400 ''artifact_extract_failed'') \<and> apps (w_db w') = apps (w_db w)
      \<and> deployments (w_db w') = map (\<lambda>x. if dep_id x = dep_id r
          then x\<lparr>dep_status := FAILED, dep_updated_at := env_now env\<rparr> else x) (deployments (w_db w))
      \<and> w_cache w' = w_cache w \<and> w_files w' = fs" if "x = Inl Extract_Error"
    using fin st x that
    by (auto simp: finalize_deployment_def activate_deployment_def atomic_def activate_body_def Let_def
        mark_deployment_failed_def update_deployment_def update_rows_def)
  show ?thesis
  proof (cases "env_untar env data")
    case Not_A_Tar
    then have "x = Inr 0" "fs = delete_extracted_prefix ?cfg ?sp (w_files w)"
      using x data key by (auto simp: extract_deployment_artifact_def Let_def extract_limits_def)
    then show ?thesis using Not_A_Tar okx by (auto simp: site_empty_def del)
  next
    case Tar_Broken
    then have "x = Inl Os_Error" "fs = delete_extracted_prefix ?cfg ?sp (w_files w)"
      using x data key by (auto simp: extract_deployment_artifact_def Let_def extract_limits_def)
    then show ?thesis using Tar_Broken broken by (auto simp: site_empty_def del)
  next
    case (Tar_Members ms)
    show ?thesis
    proof (cases x)
      case (Inr n)
      then show ?thesis using Tar_Members okx by auto
    next
      case (Inl e)
      then have "e = Extract_Error" using errs Tar_Members by auto
      moreover have "site_empty ?cfg ?sp fs" if "x = Inl Extract_Error" using X that by (simp add: site_empty_def)
      moreover have "\<forall>k. k \<noteq> site_dir ?cfg ?sp \<and> \<not> in_site ?cfg ?sp k \<longrightarrow> storage_get fs k = storage_get (w_files w) k"
        using X by blast
      ultimately show ?thesis using Tar_Members Inl rejected by auto
    qed
  qed
qed

theorem finalize_archive_outcome_witness:
  "(\<exists>r' sync w'. finalize_deployment (demo_env\<lparr>env_untar := \<lambda>_. Not_A_Tar\<rparr>) run_app (run_dep UPLOADING 3) (Some 7) [] None
       upload_world = (Inr (r', sync), w') \<and> site_empty default_settings ''a1/deployments/d1/'' (w_files w'))
   \<and> fst (finalize_deployment (demo_env\<lparr>env_untar := \<lambda>_. Tar_Broken\<rparr>) run_app (run_dep UPLOADING 3) (Some 7) [] None upload_world)
       = Inl Os_Error"
proof -
  let ?e = "\<lambda>x. demo_env\<lparr>env_untar := \<lambda>_. x\<rparr>"
  have c: "env_cfg (?e x) = env_cfg demo_env" "env_untar (?e x) d = x" for x d by simp_all
  have m: "run_dep UPLOADING 3 \<in> set (deployments (w_db upload_world))" by (simp add: upload_world_rows)
  have s: "dep_status (run_dep UPLOADING 3) \<in> {UPLOADING, READY}" "0 < dep_artifact_size (run_dep UPLOADING 3)"
    by (simp_all add: upload_world_rows)
  have d: "storage_get (w_files upload_world) (artifact_key (env_cfg demo_env) (dep_storage_prefix (run_dep UPLOADING 3))) = Some ''tar''"
    by code_simp
  have site: "in_site (env_cfg demo_env) sp k = in_site default_settings sp k" for sp k
    by (simp add: demo_env_def in_site_def site_dir_def key_of_def default_settings_def)
  obtain r1 w1 where f1: "finalize_deployment (?e Not_A_Tar) run_app (run_dep UPLOADING 3) (Some 7) [] None upload_world = (r1, w1)"
    by (rule prod.exhaust)
  obtain r2 w2 where f2: "finalize_deployment (?e Tar_Broken) run_app (run_dep UPLOADING 3) (Some 7) [] None upload_world = (r2, w2)"
    by (rule prod.exhaust)
  have "(\<exists>r' sync. r1 = Inr (r', sync)) \<and> site_empty default_settings ''a1/deployments/d1/'' w1f" if "w1f = w_files w1" for w1f
    using finalize_archive_outcome[where env = "?e Not_A_Tar", unfolded c, OF wf_upload_world m s demo_env_cfg d list.simps(3) f1] that
    by (auto simp: upload_world_rows(8) site_empty_def site)
  moreover have "r2 = Inl Os_Error"
    using finalize_archive_outcome[where env = "?e Tar_Broken", unfolded c, OF wf_upload_world m s demo_env_cfg d list.simps(3) f2]
    by simp
  ultimately show ?thesis unfolding f1 f2 by auto
qed

section \<open>Deleting an app\<close>

lemma delete_app_effect:
  "apps (w_db (delete_app env a tok u em w)) = apps (delete_app_row (app_id a) (w_db w))"
  "deployments (w_db (delete_app env a tok u em w)) = deployments (delete_app_row (app_id a) (w_db w))"
  "accesses (w_db (delete_app env a tok u em w)) = accesses (w_db w)"
  "tokens (w_db (delete_app env a tok u em w)) = tokens (w_db w)"
  "w_files (delete_app env a tok u em w) = delete_app_artifacts (env_cfg env) a (w_db w) (w_files w)"
  "w_cache (delete_app env a tok u em w) = w_cache w"
  by (auto simp: delete_app_def Let_def delete_app_row_def split: sum.split)

text \<open>C30. Deleting an app removes its row, its deployments and every object of them from the store, on both
  backends (on S3 for object names without white space or empty components). Other apps, their
  deployments and their objects, the access rows and the tokens stay as they are; so does the serve
  cache, which keeps a cached copy of the app.\<close>

theorem delete_app_complete:
  fixes tok u em
  assumes wf: "wf_db (w_db w)" and pl: "\<forall>r\<in>set (app_deployments (app_id a) (w_db w)). plain_objects (env_cfg env) r (w_files w)"
  defines "w' \<equiv> delete_app env a tok u em w"
  shows "apps (w_db w') = filter (\<lambda>b. app_id b \<noteq> app_id a) (apps (w_db w))
    \<and> deployments (w_db w') = filter (\<lambda>r. dep_app r \<noteq> app_id a) (deployments (w_db w))
    \<and> accesses (w_db w') = accesses (w_db w) \<and> tokens (w_db w') = tokens (w_db w) \<and> w_cache w' = w_cache w
    \<and> (\<forall>r\<in>set (app_deployments (app_id a) (w_db w)). \<forall>k. object_of (env_cfg env) r k \<longrightarrow> storage_get (w_files w') k = None)
    \<and> (\<forall>r\<in>set (deployments (w_db w')). \<forall>k. object_of (env_cfg env) r k \<longrightarrow> storage_get (w_files w') k = storage_get (w_files w) k)"
proof -
  note T = delete_app_row_tables[OF wf, of "app_id a"]
  have ok: "\<forall>r\<in>set (deployments (w_db w)). deployment_ok r" using wf by (auto simp: wf_db_def)
  note G = delete_app_artifacts_get[OF ok pl]
  have D: "deployments (w_db w') = filter (\<lambda>r. dep_app r \<noteq> app_id a) (deployments (w_db w))"
    by (simp add: w'_def delete_app_effect T delete_rows_def)
  have keep: "storage_get (w_files w') k = storage_get (w_files w) k"
    if "r \<in> set (deployments (w_db w'))" "object_of (env_cfg env) r k" for r k
  proof -
    have r: "r \<in> set (deployments (w_db w))" "dep_app r \<noteq> app_id a" using that(1) by (auto simp: D)
    have "\<not> object_of (env_cfg env) x k" if "x \<in> set (app_deployments (app_id a) (w_db w))" for x
      using object_of_unique[of r x] ok r that \<open>object_of (env_cfg env) r k\<close> by (auto simp: app_deployments_def)
    then show ?thesis by (auto simp: w'_def delete_app_effect G)
  qed
  have gone: "storage_get (w_files w') k = None"
    if "r \<in> set (app_deployments (app_id a) (w_db w))" "object_of (env_cfg env) r k" for r k
    using that by (auto simp: w'_def delete_app_effect G)
  show ?thesis
    using keep gone by (simp add: D) (simp add: w'_def delete_app_effect T delete_rows_def)
qed

theorem delete_app_complete_witness:
  "storage_get (w_files (delete_app demo_env (demo_app ''a1'' 1 None (Some ''d1'')) None (Some 7) [] demo_world))
     ''hosting/a1/deployments/d1/extracted/index.html'' = None
   \<and> deployments (w_db (delete_app demo_env (demo_app ''a1'' 1 None (Some ''d1'')) None (Some 7) [] demo_world))
       = [demo_deployment ''a2'' ''d3'' ACTIVE 2]"
proof -
  let ?a = "demo_app ''a1'' 1 None (Some ''d1'')"
  have wf: "wf_db (w_db demo_world)" by (simp add: demo_world_def wf_demo_db)
  have pl: "\<forall>r\<in>set (app_deployments (app_id ?a) (w_db demo_world)). plain_objects (env_cfg demo_env) r (w_files demo_world)"
    using demo_env_cfg(1) by (simp add: plain_objects_def)
  have m: "demo_deployment ''a1'' ''d1'' ACTIVE 3 \<in> set (app_deployments (app_id ?a) (w_db demo_world))"
    and o: "object_of (env_cfg demo_env) (demo_deployment ''a1'' ''d1'' ACTIVE 3) ''hosting/a1/deployments/d1/extracted/index.html''"
    and d: "filter (\<lambda>r. dep_app r \<noteq> app_id ?a) (deployments (w_db demo_world)) = [demo_deployment ''a2'' ''d3'' ACTIVE 2]"
    by code_simp+
  note T = delete_app_complete[OF wf pl, of None "Some 7" "[]"]
  have "deployments (w_db (delete_app demo_env ?a None (Some 7) [] demo_world)) = [demo_deployment ''a2'' ''d3'' ACTIVE 2]"
    using T d by (elim conjE) (simp only:)
  moreover have "storage_get (w_files (delete_app demo_env ?a None (Some 7) [] demo_world))
      ''hosting/a1/deployments/d1/extracted/index.html'' = None"
    using T m o by (elim conjE) (drule (1) bspec, drule spec, drule (1) mp)
  ultimately show ?thesis by blast
qed

section \<open>Access and quotas\<close>

definition access_open :: "settings \<Rightarrow> company \<Rightarrow> db \<Rightarrow> bool" where
  "access_open cfg c d \<longleftrightarrow> assert_hosting_access cfg c d = Inr ()"

text \<open>C24. Creating an app. It succeeds only for a company whose access is open and that is below its quota;
  then exactly one row is added, with a fresh slug, a name no other app of the company has, and no
  deployment, so the company is still within its quota. A preview app (which has an owner) counts only the apps
  that have not expired.\<close>

theorem app_creation_gated:
  "(\<forall>a w'. create_app env c n dn tok u em w = Inr (a, w') \<longrightarrow>
      access_open (env_cfg env) c (w_db w) \<and> apps (w_db w') = apps (w_db w) @ [a] \<and> app_company_id a = c
      \<and> app_current_deployment a = None \<and> app_created_by_id a = None
      \<and> validate_app_name n = Inr (app_name a) \<and> \<not> slug_taken (w_db w) (app_slug a)
      \<and> (\<forall>b\<in>set (apps (w_db w)). app_company_id b = c \<longrightarrow> app_name b \<noteq> app_name a)
      \<and> int (count_rows (\<lambda>b. app_company_id b = c) (apps (w_db w'))) \<le> HOSTING_MAX_APPS_PER_COMPANY (env_cfg env))
   \<and> (\<forall>a w'. create_preview_app env c v dn em w = Inr (a, w') \<longrightarrow>
      access_open (env_cfg env) c (w_db w) \<and> apps (w_db w') = apps (w_db w) @ [a] \<and> app_company_id a = c
      \<and> app_current_deployment a = None \<and> app_created_by_id a = Some v \<and> app_name a = app_slug a
      \<and> \<not> slug_taken (w_db w) (app_slug a)
      \<and> int (active_app_count (env_now env) c (w_db w')) \<le> HOSTING_MAX_APPS_PER_COMPANY (env_cfg env))"
  by (auto simp: create_app_def create_preview_app_def res_simps Let_def access_open_def new_app_def insert_app_Inr
      slug_taken_def has_row_iff count_rows_append active_app_count_def split: if_splits)

theorem app_creation_gated_witness:
  "\<exists>w. create_app demo_env 1 ''site'' [] None (Some 7) [] run0 = Inr (run_app, w)
     \<and> access_open (env_cfg demo_env) 1 (w_db run0) \<and> apps (w_db w) = [run_app]"
proof -
  obtain w where "create_app demo_env 1 ''site'' [] None (Some 7) [] run0 = Inr (run_app, w)" "apps (w_db w) = [run_app]"
    using run_create by blast
  then show ?thesis using app_creation_gated[of demo_env 1 "''site''" "[]" None "Some 7" "[]" run0] by blast
qed

section \<open>Isolation of companies\<close>

lemma first_row_filter: "first_row p (filter q xs) = first_row (\<lambda>x. q x \<and> p x) xs"
  by (induction xs) auto

text \<open>Looking up an app for a company only ever returns an app of that company, whose id, name or slug is
  the given reference (white space around it aside); what the tables of other companies hold makes no
  difference. A name of 32 hexadecimal digits is read as an id, so it never finds the app of that name
  unless its id is that number as well.\<close>

theorem resolve_app_ref_isolated:
  "(\<forall>a. resolve_app_ref ref (Some c) d = Inr a \<longrightarrow> a \<in> set (apps d) \<and> app_company_id a = c
       \<and> (parse_uuid (strip ref) = Some (app_id a) \<or> app_name a = strip ref \<or> app_slug a = strip ref))
   \<and> resolve_app_ref ref (Some c) d = resolve_app_ref ref (Some c) (d\<lparr>apps := filter (\<lambda>a. app_company_id a = c) (apps d)\<rparr>)
   \<and> (\<forall>i a. parse_uuid (strip ref) = Some i \<and> resolve_app_ref ref (Some c) d = Inr a \<longrightarrow> app_id a = i)"
proof -
  let ?q = "filter (\<lambda>a. app_company_id a = c) (apps d)"
  have row: "a \<in> set (apps d) \<and> app_company_id a = c
       \<and> (parse_uuid (strip ref) = Some (app_id a) \<or> app_name a = strip ref \<or> app_slug a = strip ref)
       \<and> (\<forall>i. parse_uuid (strip ref) = Some i \<longrightarrow> app_id a = i)"
    if f: "resolve_app_ref ref (Some c) d = Inr a" for a
  proof (cases "parse_uuid (strip ref)")
    case None
    then have "first_row (\<lambda>a. app_name a = strip ref) ?q = Some a \<or> first_row (\<lambda>a. app_slug a = strip ref) ?q = Some a"
      using f by (auto simp: resolve_app_ref_def Let_def split: if_splits option.splits)
    then show ?thesis using None by (auto dest: first_row_Some)
  next
    case (Some i)
    then have "first_row (\<lambda>a. app_id a = i) ?q = Some a"
      using f by (auto simp: resolve_app_ref_def Let_def split: if_splits option.splits)
    then show ?thesis using Some by (auto dest: first_row_Some)
  qed
  have "resolve_app_ref ref (Some c) d = resolve_app_ref ref (Some c) (d\<lparr>apps := ?q\<rparr>)"
    by (simp add: resolve_app_ref_def Let_def)
  then show ?thesis using row by blast
qed

theorem resolve_app_ref_isolated_witness:
  "validate_app_name ''deadbeefdeadbeefdeadbeefdeadbeef'' = Inr ''deadbeefdeadbeefdeadbeefdeadbeef''
   \<and> resolve_app_ref ''deadbeefdeadbeefdeadbeefdeadbeef'' (Some 1)
       (empty_db\<lparr>apps := [(demo_app ''a1'' 1 None None)\<lparr>app_name := ''deadbeefdeadbeefdeadbeefdeadbeef''\<rparr>]\<rparr>)
     = Inl (Hosting_Error 404 ''app_not_found'')
   \<and> (\<exists>a. resolve_app_ref ''a1-site'' (Some 1) demo_db = Inr a \<and> app_company_id a = 1)"
proof -
  have 1: "validate_app_name ''deadbeefdeadbeefdeadbeefdeadbeef'' = Inr ''deadbeefdeadbeefdeadbeefdeadbeef''" by code_simp
  have 2: "resolve_app_ref ''deadbeefdeadbeefdeadbeefdeadbeef'' (Some 1)
       (empty_db\<lparr>apps := [(demo_app ''a1'' 1 None None)\<lparr>app_name := ''deadbeefdeadbeefdeadbeefdeadbeef''\<rparr>]\<rparr>)
     = Inl (Hosting_Error 404 ''app_not_found'')" by code_simp
  have "isl (resolve_app_ref ''a1-site'' (Some 1) demo_db) = False" by code_simp
  then obtain a where "resolve_app_ref ''a1-site'' (Some 1) demo_db = Inr a"
    by (cases "resolve_app_ref ''a1-site'' (Some 1) demo_db") auto
  then show ?thesis using 1 2 resolve_app_ref_isolated[of "''a1-site''" 1 demo_db] by blast
qed

lemma prepare_atomic_parts:
  assumes "prepare_preview_deploy_atomic env c u s dn av sv em any w = Inr ((a, r), w2)"
  obtains w1 where "create_deployment env a av sv (Some u) False em w1 = Inr (r, w2)"
    "(\<exists>t. s = Some t \<and> strip t \<noteq> [] \<and> resolve_preview_app (strip t) c u any (w_db w) = Inr a \<and> w1 = w)
      \<or> (\<forall>t. s = Some t \<longrightarrow> strip t = []) \<and> create_preview_app env c u dn em w = Inr (a, w1)"
proof -
  let ?new = "create_preview_app env c u dn em w"
  let ?src = "case s of Some t \<Rightarrow> if strip t \<noteq> [] then map_res (\<lambda>a. (a, w)) (resolve_preview_app (strip t) c u any (w_db w))
        else ?new | None \<Rightarrow> ?new"
  obtain x y where x: "?src = Inr x" and y: "create_deployment env (fst x) av sv (Some u) False em (snd x) = Inr y"
    and q: "((a, r), w2) = ((fst x, fst y), snd y)"
    using assms unfolding prepare_preview_deploy_atomic_def bind_res_Inr map_res_Inr case_prod_beta by (elim exE conjE)
  have e: "x = (a, snd x)" "y = (r, w2)" using q by (simp_all add: prod_eq_iff)
  show thesis
  proof (rule that)
    show "create_deployment env a av sv (Some u) False em (snd x) = Inr (r, w2)" using y e(2) q by simp
    have "?src = Inr (a, snd x)" by (rule trans[OF x]) (simp only: e(1)[symmetric])
    then show "(\<exists>t. s = Some t \<and> strip t \<noteq> [] \<and> resolve_preview_app (strip t) c u any (w_db w) = Inr a \<and> snd x = w)
        \<or> (\<forall>t. s = Some t \<longrightarrow> strip t = []) \<and> ?new = Inr (a, snd x)"
      by (auto simp: map_res_Inr split: option.splits if_splits)
  qed
qed

lemma resolve_preview_app_Inr:
  assumes "resolve_preview_app t c u any_user (w_db w) = Inr a"
  shows "app_company_id a = c \<and> a \<in> set (apps (w_db w)) \<and> validate_slug t = Inr (app_slug a)
      \<and> (if any_user then is_preview_app a else app_created_by_id a \<in> {None, Some u})"
proof -
  obtain n where n: "validate_slug t = Inr n" using assms by (cases "validate_slug t") (auto simp: resolve_preview_app_def)
  then have f: "first_row (\<lambda>a. app_slug a = n) (apps (w_db w)) = Some a" "app_company_id a = c"
      "any_user \<longrightarrow> is_preview_app a" "\<not> any_user \<longrightarrow> app_created_by_id a \<in> {None, Some u}"
    using assms by (auto simp: resolve_preview_app_def split: option.splits if_splits)
  then show ?thesis using first_row_Some[OF f(1)] n by auto
qed

text \<open>The preview a deploy may be prepared for: with a slug, the app has that slug and belongs to the
  caller's company; a user reaches only ownerless apps and previews of their own, a deploy token (which
  acts for any user) only previews. Without a slug a new preview of the caller is made. The new
  deployment belongs to that app and is a draft.\<close>

theorem prepare_preview_reach:
  assumes "prepare_preview_deploy env c u s dn av sv tok em any_user w = Inr (a, r, res, w')"
  shows "app_company_id a = c \<and> dep_app r = app_id a \<and> dep_status r = DRAFT \<and> dep_deployed_by_id r = Some u
    \<and> r \<in> set (deployments (w_db w'))
    \<and> (case s of Some t \<Rightarrow> if strip t \<noteq> [] then a \<in> set (apps (w_db w)) \<and> validate_slug (strip t) = Inr (app_slug a)
            \<and> (if any_user then is_preview_app a else app_created_by_id a \<in> {None, Some u})
          else app_created_by_id a = Some u
        | None \<Rightarrow> app_created_by_id a = Some u)"
proof -
  obtain w2 where at: "prepare_preview_deploy_atomic env c u s dn av sv em any_user w = Inr ((a, r), w2)" "w_db w' = w_db w2"
    using assms by (auto simp: prepare_preview_deploy_def res_simps case_prod_beta)
  obtain w1 where p: "create_deployment env a av sv (Some u) False em w1 = Inr (r, w2)"
    and src: "(\<exists>t. s = Some t \<and> strip t \<noteq> [] \<and> resolve_preview_app (strip t) c u any_user (w_db w) = Inr a \<and> w1 = w)
      \<or> (\<forall>t. s = Some t \<longrightarrow> strip t = []) \<and> create_preview_app env c u dn em w = Inr (a, w1)"
    by (rule prepare_atomic_parts[OF at(1)])
  have row: "dep_app r = app_id a \<and> dep_status r = DRAFT \<and> dep_deployed_by_id r = Some u \<and> r \<in> set (deployments (w_db w'))"
    using p at(2) by (auto simp: create_deployment_def res_simps Let_def insert_deployment_Inr split: if_splits)
  have new: "app_company_id a = c \<and> app_created_by_id a = Some u" if "create_preview_app env c u dn em w = Inr (a, w1)"
    using that by (auto simp: create_preview_app_def res_simps Let_def new_app_def split: if_splits)
  show ?thesis
  proof (cases "\<exists>t. s = Some t \<and> strip t \<noteq> []")
    case True
    then obtain t where t: "s = Some t" "strip t \<noteq> []" "resolve_preview_app (strip t) c u any_user (w_db w) = Inr a"
      using src by auto
    show ?thesis using row resolve_preview_app_Inr[OF t(3)] t(1,2) by (cases any_user) auto
  next
    case False
    then show ?thesis using row new src by (auto split: option.split)
  qed
qed

theorem prepare_preview_reach_witness:
  "\<exists>a r res w'. prepare_preview_deploy demo_env 2 7 (Some ''preview-site'') [] ''1.0.0'' ''1.0.0'' None [] False
       (demo_world\<lparr>w_db := demo_db\<lparr>apps := [(demo_app ''a2'' 2 (Some 7) None)\<lparr>app_slug := ''preview-site''\<rparr>], deployments := []\<rparr>\<rparr>)
       = Inr (a, r, res, w') \<and> app_company_id a = 2 \<and> dep_status r = DRAFT"
proof -
  let ?w = "demo_world\<lparr>w_db := demo_db\<lparr>apps := [(demo_app ''a2'' 2 (Some 7) None)\<lparr>app_slug := ''preview-site''\<rparr>], deployments := []\<rparr>\<rparr>"
  have "isl (prepare_preview_deploy demo_env 2 7 (Some ''preview-site'') [] ''1.0.0'' ''1.0.0'' None [] False ?w) = False"
    by code_simp
  then obtain a r res w' where p: "prepare_preview_deploy demo_env 2 7 (Some ''preview-site'') [] ''1.0.0'' ''1.0.0'' None [] False ?w
      = Inr (a, r, res, w')"
    by (metis isl_def prod.exhaust sum.exhaust)
  then show ?thesis using prepare_preview_reach[OF p] by blast
qed

end
