(* ===== verification/Serve_Site.thy ===== *)
theory Serve_Site
  imports Serve Service_Laws
begin

text \<open>
  Visitors and the service together. A site is the world of the service, the monotonic clock of the
  web process and, for the theorems, the databases that were replaced with the moment each was last
  current. A web process starts with an empty cache on a database and files the service has left. A
  step is a request to the service, a visit of a hosted page, or time that passes. Every
  page that is served was published in the database at most the life of a cache entry ago, and comes
  from the site of the active deployment of the app that the host names.
\<close>

section \<open>The service only removes cache entries\<close>

lemma create_cache:
  "create_app env c n dn tok u em w = Inr (a, w') \<Longrightarrow> w_cache w' = w_cache w"
  "create_deployment env a av sv u p em w = Inr (r, w') \<Longrightarrow> w_cache w' = w_cache w"
  "create_preview_app env c i dn em w = Inr (a, w') \<Longrightarrow> w_cache w' = w_cache w"
  "upload_deployment_artifact env r f cl w = Inr (r', w') \<Longrightarrow> w_cache w' = w_cache w"
  by (auto simp: create_app_def create_deployment_def create_preview_app_def upload_deployment_artifact_def
      res_simps Let_def split: if_splits option.splits prod.splits sum.splits)

lemma prepare_cache:
  "prepare_preview_deploy env c u s dn av sv tok em any w = Inr (a, r, res, w') \<Longrightarrow> w_cache w' = w_cache w"
  by (auto simp: prepare_preview_deploy_def prepare_preview_deploy_atomic_def res_simps case_prod_beta create_cache
      split: if_splits option.splits)

lemma finalize_cache:
  assumes "finalize_deployment env a r u em tok w = (res, w')"
  shows "w_cache w' s = Some x \<Longrightarrow> w_cache w s = Some x"
  using assms
  by (auto simp: finalize_deployment_def activate_deployment_def atomic_def activate_body_def mark_deployment_failed_def
      invalidate_serve_cache_def Let_def case_prod_beta split: prod.splits sum.splits if_splits option.splits)

lemma purge_cache:
  assumes "wf_db (w_db w)" "purge_company (Some (default_hook cfg)) c w = (res, w')"
  shows "w_cache w' s = Some x \<Longrightarrow> w_cache w s = Some x"
proof -
  have "w_cache w' s = w_cache (delete_company_artifacts cfg c w) s"
    using assms(2) by (auto simp: purge_company_def default_hook_def Let_def split: sum.splits prod.splits)
  then show "w_cache w' s = Some x \<Longrightarrow> w_cache w s = Some x"
    by (simp add: delete_company_artifacts_fold purge_apps_cache split: if_splits)
qed

lemma step_cache:
  assumes "service_step w w'" "wf_db (w_db w)" "w_cache w' s = Some x"
  shows "w_cache w s = Some x"
  using assms
proof (induction rule: service_step.induct)
  case (rollback r w a env r' w')
  then show ?case by (auto simp: rollback_deployment_def invalidate_serve_cache_def Let_def split: if_splits)
next
  case (delete_app a w w' env tok u em)
  then show ?case by (simp add: delete_app_effect)
next
  case (finalize r w a env u em tok res w')
  then show ?case using finalize_cache by metis
next
  case (purge_company cfg c w res w')
  then show ?case using purge_cache by metis
qed (simp_all add: create_cache prepare_cache)

section \<open>The steps\<close>

record site =
  st_world :: world
  st_clock :: time
  st_past :: "(time \<times> db) list"

inductive site_step :: "settings \<Rightarrow> site \<Rightarrow> site \<Rightarrow> bool" for cfg where
  change: "service_step (st_world s) w' \<Longrightarrow>
    site_step cfg s (s\<lparr>st_world := w', st_past := (st_clock s, w_db (st_world s)) # st_past s\<rparr>)"
| visit: "AppServeView_get gt cfg now (st_clock s) host path (st_world s) = (res, w') \<Longrightarrow>
    site_step cfg s (s\<lparr>st_world := w'\<rparr>)"
| wait: "st_clock s \<le> t \<Longrightarrow> site_step cfg s (s\<lparr>st_clock := t\<rparr>)"

inductive site_reachable :: "settings \<Rightarrow> site \<Rightarrow> bool" for cfg where
  start: "reachable w \<Longrightarrow> w_db (st_world s) = w_db w \<Longrightarrow> w_files (st_world s) = w_files w \<Longrightarrow> w_cache (st_world s) = (\<lambda>_. None) \<Longrightarrow> st_past s = [] \<Longrightarrow>
    site_reachable cfg s"
| step: "site_reachable cfg s \<Longrightarrow> site_step cfg s s' \<Longrightarrow> site_reachable cfg s'"

text \<open>The databases that were current at some moment later than the life of a cache entry ago.\<close>

definition recent :: "settings \<Rightarrow> site \<Rightarrow> db set" where
  "recent cfg s = insert (w_db (st_world s))
     {d. \<exists>t. (t, d) \<in> set (st_past s) \<and> st_clock s < t + serve_cache_ttl cfg}"

definition sources :: "site \<Rightarrow> (time \<times> (string \<Rightarrow> (app \<times> deployment option) option)) set" where
  "sources s = (\<lambda>(t, d). (t, \<lambda>slug. app_by_slug slug d)) ` insert (st_clock s, w_db (st_world s)) (set (st_past s))"

definition site_inv :: "settings \<Rightarrow> site \<Rightarrow> bool" where
  "site_inv cfg s \<longleftrightarrow> wf_db (w_db (st_world s)) \<and> (\<forall>(t, d)\<in>set (st_past s). wf_db d \<and> t \<le> st_clock s)
     \<and> cached.vouched cfg (sources s) (w_cache (st_world s))"

lemma view_world:
  assumes "AppServeView_get gt cfg now t host path w = (res, w')"
  shows "w_db w' = w_db w" "w_files w' = w_files w"
  using assms by (auto simp: AppServeView_get_def case_prod_beta split: option.splits)

lemma site_inv_step:
  assumes "site_step cfg s s'" "site_inv cfg s"
  shows "site_inv cfg s'"
  using assms
proof (cases rule: site_step.cases)
  case (change w')
  have wf: "wf_db (w_db (st_world s))" and v: "cached.vouched cfg (sources s) (w_cache (st_world s))"
    using assms(2) by (auto simp: site_inv_def)
  have "cached.vouched cfg (sources s) (w_cache w')"
    by (rule cached.vouched_less[OF _ v]) (rule step_cache[OF change(2) wf])
  then have "cached.vouched cfg (sources s') (w_cache w')"
    by (rule cached.vouched_more) (auto simp: change(1) sources_def)
  then show ?thesis using assms(2) step_wf[OF change(2) wf] wf by (auto simp: site_inv_def change(1))
next
  case (visit gt now host path res w')
  note W = view_world[OF visit(2)]
  have v: "cached.vouched cfg (sources s) (w_cache (st_world s))" using assms(2) by (simp add: site_inv_def)
  have "cached.vouched cfg (sources s) (w_cache w')"
  proof (cases "slug_from_host cfg host")
    case None
    then show ?thesis using visit(2) v by (simp add: AppServeView_get_def)
  next
    case (Some slug)
    obtain f c' where l: "load_app cfg (st_clock s) slug (w_db (st_world s)) (w_cache (st_world s)) = (f, c')"
      by (cases "load_app cfg (st_clock s) slug (w_db (st_world s)) (w_cache (st_world s))")
    have "w_cache w' = c'" using visit(2) by (auto simp: AppServeView_get_def Some l)
    moreover have "(st_clock s, \<lambda>slug. app_by_slug slug (w_db (st_world s))) \<in> sources s" by (simp add: sources_def)
    ultimately show ?thesis using cached.load_vouched[OF v] l unfolding load_app_cached by blast
  qed
  moreover have "sources s' = sources s" by (simp add: sources_def visit(1) W)
  ultimately show ?thesis using assms(2) by (simp add: site_inv_def visit(1) W)
next
  case (wait t)
  have "cached.vouched cfg (sources s') (w_cache (st_world s))"
    using assms(2) cached.vouched_later[OF _ wait(2)] by (simp add: site_inv_def sources_def wait(1))
  then show ?thesis using assms(2) wait(2) by (fastforce simp: site_inv_def wait(1))
qed

lemma site_inv_reachable: "site_reachable cfg s \<Longrightarrow> site_inv cfg s"
proof (induction rule: site_reachable.induct)
  case (start w s)
  then show ?case by (simp add: site_inv_def reachable_wf cached.vouched_def)
qed (rule site_inv_step)

lemma recent_wf: "site_inv cfg s \<Longrightarrow> d \<in> recent cfg s \<Longrightarrow> wf_db d"
  by (auto simp: site_inv_def recent_def)

lemma load_app_recent:
  assumes "site_inv cfg s" "load_app cfg (st_clock s) slug (w_db (st_world s)) (w_cache (st_world s)) = (f, c')"
  shows "\<exists>d\<in>recent cfg s. f = app_by_slug slug d"
proof -
  have "cached.vouched cfg (sources s) (w_cache (st_world s))" using assms(1) by (simp add: site_inv_def)
  from cached.load_recent[OF this] assms(2) consider "f = app_by_slug slug (w_db (st_world s))"
    | t src where "(t, src) \<in> sources s" "st_clock s < t + serve_cache_ttl cfg" "src slug = f"
    unfolding load_app_cached by blast
  then show ?thesis
  proof cases
    case 2
    then obtain d where d: "(t, d) \<in> insert (st_clock s, w_db (st_world s)) (set (st_past s))"
        "src = (\<lambda>slug. app_by_slug slug d)" by (auto simp: sources_def)
    then have "d \<in> recent cfg s" using 2(2) by (auto simp: recent_def)
    then show ?thesis using d(2) 2(3) by blast
  qed (auto simp: recent_def)
qed

section \<open>What visitors see\<close>

lemma recent_current: "site_inv cfg s \<Longrightarrow> HOSTING_SERVE_CACHE_TTL_SECONDS cfg \<le> 0 \<Longrightarrow> recent cfg s = {w_db (st_world s)}"
proof -
  assume i: "site_inv cfg s" and z: "HOSTING_SERVE_CACHE_TTL_SECONDS cfg \<le> 0"
  have "serve_cache_ttl cfg \<le> 0" using z by (simp add: serve_cache_ttl_def seconds_def)
  then have "\<not> st_clock s < t + serve_cache_ttl cfg" if "(t, d) \<in> set (st_past s)" for t d
    using i that by (fastforce simp: site_inv_def)
  then show ?thesis by (auto simp: recent_def)
qed

lemma serve_cache_step:
  assumes "site_reachable cfg s"
    and "AppServeView_get gt cfg now (st_clock s) host path (st_world s) = (res, w')"
    and "slug_from_host cfg host = Some slug"
  shows "\<exists>d\<in>recent cfg s. res = serve_app gt cfg now host path (w_files (st_world s)) (app_by_slug slug d)"
proof -
  obtain f c' where l: "load_app cfg (st_clock s) slug (w_db (st_world s)) (w_cache (st_world s)) = (f, c')"
    by (cases "load_app cfg (st_clock s) slug (w_db (st_world s)) (w_cache (st_world s))")
  have "res = serve_app gt cfg now host path (w_files (st_world s)) f"
    using assms(2) by (simp add: AppServeView_get_def assms(3) l)
  then show ?thesis using load_app_recent[OF site_inv_reachable[OF assms(1)] l] by auto
qed

text \<open>C11. The cached view refines the view without a cache, up to the life of an entry: in every reachable state,
  under every interleaving of requests to the service, visits and waiting, the answer to a visit is what
  the view computes from the app row, and the deployment row it points to, of a database that was current
  less than the time to live ago; with the time to live switched off it is the current database. A host
  that names no app is a 404, and a visit changes neither the database nor the files.\<close>

theorem serve_cache_refines:
  assumes "site_reachable cfg s"
    and "AppServeView_get gt cfg now (st_clock s) host path (st_world s) = (res, w')"
  shows "w_db w' = w_db (st_world s) \<and> w_files w' = w_files (st_world s)
    \<and> (case slug_from_host cfg host of
         None \<Rightarrow> res = Inl Http404
       | Some slug \<Rightarrow> \<exists>d\<in>recent cfg s.
           res = serve_app gt cfg now host path (w_files (st_world s)) (app_by_slug slug d))
    \<and> (HOSTING_SERVE_CACHE_TTL_SECONDS cfg \<le> 0 \<longrightarrow> recent cfg s = {w_db (st_world s)})"
proof -
  have n: "slug_from_host cfg host = None \<Longrightarrow> res = Inl Http404" using assms(2) by (simp add: AppServeView_get_def)
  have "case slug_from_host cfg host of None \<Rightarrow> res = Inl Http404
     | Some slug \<Rightarrow> \<exists>d\<in>recent cfg s. res = serve_app gt cfg now host path (w_files (st_world s)) (app_by_slug slug d)"
  proof (cases "slug_from_host cfg host")
    case (Some slug)
    show ?thesis unfolding Some option.case by (rule serve_cache_step[OF assms Some])
  qed (simp add: n)
  then show ?thesis
    by (intro conjI impI view_world[OF assms(2)] recent_current[OF site_inv_reachable[OF assms(1)]])
qed

lemma app_by_slug_rows:
  assumes "wf_db d" "app_by_slug slug d = Some (a, Some r)"
  shows "a \<in> set (apps d)" "app_slug a = slug" "r \<in> set (deployments d)" "app_current_deployment a = Some (dep_id r)"
    "dep_app r = app_id a" "dep_status r = ACTIVE"
proof -
  have f: "first_row (\<lambda>a. app_slug a = slug) (apps d) = Some a"
    and c: "\<exists>i. app_current_deployment a = Some i \<and> first_row (\<lambda>r. dep_id r = i) (deployments d) = Some r"
    using assms(2) unfolding app_by_slug_def by (auto split: option.splits)
  show a: "a \<in> set (apps d)" "app_slug a = slug" using first_row_Some[OF f] by blast+
  show r: "r \<in> set (deployments d)" "app_current_deployment a = Some (dep_id r)"
    using c first_row_Some by fastforce+
  have L: "lifecycle_ok d" using assms(1) by (simp add: wf_db_def)
  obtain q where q: "q \<in> set (deployments d)" "dep_id q = dep_id r" "dep_app q = app_id a"
    using L a(1) r(2) unfolding lifecycle_ok_def by blast
  have "distinct (map dep_id (deployments d))" using assms(1) by (simp add: wf_db_def keys_ok_def)
  then have "q = r" using distinct_map_unique q(1,2) r(1) by metis
  then show "dep_app r = app_id a" using q(3) by simp
  then show "dep_status r = ACTIVE" using L a(1) r unfolding lifecycle_ok_def by blast
qed

lemma site_key_cases:
  assumes "prefix_ok sp"
  shows "extracted_file_key cfg sp rel = site_dir cfg sp \<or> in_site cfg sp (extracted_file_key cfg sp rel)"
proof -
  obtain v where "extracted_file_key cfg sp rel = site_dir cfg sp @ v" "v = [] \<or> hd v = CHR ''/''"
    using site_key_within[OF assms] unfolding extracted_file_key_def by metis
  then show ?thesis by (cases v) (auto simp: in_site_def startswith_iff)
qed

text \<open>C10. Only published files are served. In every reachable state a visit that is answered with a file gets a
  file of the site of the active deployment of the app whose slug the host names, as the database had them
  less than the time to live of the cache ago: the app is no expired preview, the path is one of the
  candidates of a request path that passed validation, the object lies in the extracted directory of that
  deployment and its bytes are sent unchanged with status 200.\<close>

theorem serve_only_published:
  assumes "site_reachable cfg s"
    and "AppServeView_get gt cfg now (st_clock s) host path (st_world s) = (Inr rs, w')"
    and "rs_body rs = File_Body rel data"
  shows "\<exists>slug d a r p. slug_from_host cfg host = Some slug \<and> d \<in> recent cfg s
    \<and> a \<in> set (apps d) \<and> app_slug a = slug \<and> r \<in> set (deployments d) \<and> dep_app r = app_id a
    \<and> app_current_deployment a = Some (dep_id r) \<and> dep_status r = ACTIVE \<and> \<not> is_preview_expired now a
    \<and> validate_serve_path path = Inr p \<and> rel \<in> set (serve_candidates p) \<and> rel_path_ok rel
    \<and> (let key = extracted_file_key cfg (dep_storage_prefix r) rel
       in (key = site_dir cfg (dep_storage_prefix r) \<or> in_site cfg (dep_storage_prefix r) key)
          \<and> storage_get (w_files (st_world s)) key = Some data)
    \<and> rs = file_response gt rel data"
proof -
  note I = site_inv_reachable[OF assms(1)]
  obtain slug where slug: "slug_from_host cfg host = Some slug"
    using assms(2) by (auto simp: AppServeView_get_def split: option.splits)
  obtain d where d: "d \<in> recent cfg s"
    and app: "serve_app gt cfg now host path (w_files (st_world s)) (app_by_slug slug d) = Inr rs"
    using serve_cache_step[OF assms(1,2) slug] by metis
  obtain a cur where f: "app_by_slug slug d = Some (a, cur)" and e: "\<not> is_preview_expired now a"
    using app assms(3) by (auto simp: serve_app_def split: option.splits if_splits)
  obtain r where r: "cur = Some r" "serve_deployment gt cfg host path (w_files (st_world s)) (dep_storage_prefix r) = Inr rs"
    using app assms(3) e by (auto simp: serve_app_def f resolve_deployment_def split: option.splits if_splits)
  note R = app_by_slug_rows[OF recent_wf[OF I d] f[unfolded r(1)]]
  have "deployment_ok r" using recent_wf[OF I d] R(3) by (simp add: wf_db_def)
  note K = site_key_cases[OF conjunct1[OF deployment_ok_prefix_ok[OF this]], of cfg rel]
  show ?thesis
    by (rule serve_deployment_file[OF r(2) assms(3)])
      (intro exI[of _ slug] exI[of _ d] exI[of _ a] exI[of _ r] exI, use slug d R e K in \<open>simp add: Let_def\<close>)
qed

lemma finalize_row:
  assumes wf: "wf_db (w_db w)" and r: "r \<in> set (deployments (w_db w))" and a: "a \<in> set (apps (w_db w))" "dep_app r = app_id a"
    and fin: "finalize_deployment env a r u em tok w = (Inr (r', sync), w')"
  obtains b where "app_by_slug (app_slug a) (w_db w') = Some (b, Some r')" "app_id b = app_id a"
    "dep_status r' = ACTIVE" "dep_storage_prefix r' = dep_storage_prefix r"
proof -
  let ?now = "env_now env"
  obtain w1 where "activate_body env a r (case u of Some u \<Rightarrow> action_actor (Some u) em | None \<Rightarrow> action_actor (dep_deployed_by_id r) []) w
      = (Inr r', w1)" and w1: "w_db w' = w_db w1"
    using finalize_Inr[OF fin] by blast
  note B = activate_body_Inr[OF this(1), folded w1]
  let ?f = "\<lambda>b. set_current ?now (dep_id r) (if app_created_by_id a = None then b else set_expiry (env_cfg env) ?now b)"
  have wf': "wf_db (w_db w')" using wf_finalize[OF wf r a(2) fin] .
  have b: "?f a \<in> set (apps (w_db w'))" using a(1) unfolding B(7) by force
  have sl: "app_slug (?f a) = app_slug a" "app_id (?f a) = app_id a" "app_current_deployment (?f a) = Some (dep_id r)"
    by (simp_all add: set_current_def set_expiry_def)
  have r': "dep_id r' = dep_id r" "dep_status r' = ACTIVE" "dep_storage_prefix r' = dep_storage_prefix r"
    unfolding B(3) by (simp_all add: mark_active_def)
  have "r \<in> set (deployments (supersede_others ?now (app_id a) (dep_id r) (w_db w)))"
    using r by (auto simp: supersede_others_def set_update_rows)
  then have "r' \<in> set (deployments (w_db w'))"
    unfolding B(3,6) update_deployment_def by (auto simp: set_update_rows)
  moreover have "distinct (map dep_id (deployments (w_db w')))" "distinct (map app_slug (apps (w_db w')))"
    using wf' by (simp_all add: wf_db_def keys_ok_def)
  ultimately have "first_row (\<lambda>x. dep_id x = dep_id r) (deployments (w_db w')) = Some r'"
    "first_row (\<lambda>x. app_slug x = app_slug a) (apps (w_db w')) = Some (?f a)"
    using first_row_key[of dep_id _ r'] first_row_key[of app_slug _ "?f a"] b r'(1) sl(1) by auto
  then show thesis using that sl r'(2,3) by (simp add: app_by_slug_def)
qed

lemma serve_file_exact:
  assumes "validate_serve_path path = Inr rel" "rel \<noteq> []" "open_extracted_file cfg sp rel fs = Inr (Some data)"
    and "looks_like_static_asset rel \<or> extracted_index_exists cfg sp fs"
  shows "serve_deployment gt cfg host path fs sp = Inr (file_response gt rel data)"
proof (cases "looks_like_static_asset rel")
  case True
  then show ?thesis using assms by (simp add: serve_deployment_def)
next
  case False
  have ok: "rel_path_ok rel" using validate_serve_path_Inr[OF assms(1)] assms(2) by blast
  have "\<not> endswith rel ''/''" using rel_path_ok_edges[OF ok] by (auto simp: endswith_iff)
  then have "\<exists>cs. serve_candidates rel = rel # cs" using assms(2) by (simp add: serve_candidates_def)
  then show ?thesis using False assms by (auto simp: serve_deployment_def pick_file_def)
qed

lemma serve_missing_asset:
  assumes "validate_serve_path path = Inr rel" "looks_like_static_asset rel" "rel \<noteq> []"
    "open_extracted_file cfg sp rel fs = Inr None"
  shows "serve_deployment gt cfg host path fs sp = Inl Http404"
  using assms by (simp add: serve_deployment_def)

lemma serve_root:
  assumes "validate_serve_path path = Inr []" "open_extracted_file cfg sp ''index.html'' fs = Inr (Some data)"
    and "extracted_index_exists cfg sp fs"
  shows "serve_deployment gt cfg host path fs sp = Inr (file_response gt ''index.html'' data)"
  using assms by (simp add: serve_deployment_def pick_file_def serve_candidates_def)


section \<open>A published page\<close>

abbreviation demo_host :: string where
  "demo_host \<equiv> ''aaaaaaaaaaaa.shellui.app''"

abbreviation demo_index :: string where
  "demo_index \<equiv> ''hosting/a1/deployments/d1/extracted/index.html''"

lemma demo_page:
  "slug_from_host (env_cfg demo_env) demo_host = Some ''aaaaaaaaaaaa''"
  "validate_serve_path ''index.html'' = Inr ''index.html''"
  "extracted_file_key (env_cfg demo_env) ''a1/deployments/d1/'' ''index.html'' = demo_index"
  "in_site (env_cfg demo_env) ''a1/deployments/d1/'' demo_index" "NUL \<notin> set demo_index"
  by code_simp+

lemma demo_open:
  assumes "storage_get fs demo_index = Some ''hi''"
  shows "open_extracted_file (env_cfg demo_env) ''a1/deployments/d1/'' ''index.html'' fs = Inr (Some ''hi'')"
    and "extracted_index_exists (env_cfg demo_env) ''a1/deployments/d1/'' fs"
  using assms demo_page(5) by (simp_all add: open_extracted_file_def extracted_index_exists_def demo_page(3) storage_exists_def)

lemma run_app_slug: "app_slug run_app = ''aaaaaaaaaaaa''" "app_expires_at run_app = None"
  by (simp_all add: run_app_def new_app_def)

lemma demo_visit:
  "\<exists>s w'. site_reachable (env_cfg demo_env) s
     \<and> AppServeView_get gt (env_cfg demo_env) now (st_clock s) demo_host ''index.html'' (st_world s)
         = (Inr (file_response gt ''index.html'' ''hi''), w')"
proof -
  obtain w3 w4 where w: "reachable w3" "service_step w3 w4" "apps (w_db w4) = [set_current 5 ''d1'' run_app]"
      "deployments (w_db w4) = [mark_active 5 (Some 5) (run_dep UPLOADING 3)]" "storage_get (w_files w4) demo_index = Some ''hi''"
    using run_reachable by blast
  define s where "s = \<lparr>st_world = w4\<lparr>w_cache := \<lambda>_. None\<rparr>, st_clock = 0, st_past = []\<rparr>"
  have "site_reachable (env_cfg demo_env) s"
    by (rule site_reachable.start[OF reachable.step[OF w(1,2)]]) (simp_all add: s_def)
  moreover have "app_by_slug ''aaaaaaaaaaaa'' (w_db w4)
      = Some (set_current 5 ''d1'' run_app, Some (mark_active 5 (Some 5) (run_dep UPLOADING 3)))"
    by (simp add: app_by_slug_def w set_current_def run_app_slug mark_active_def upload_world_rows)
  moreover have "\<not> is_preview_expired now (set_current 5 ''d1'' run_app)"
    by (simp add: is_preview_expired_def set_current_def run_app_slug)
  moreover have "serve_deployment gt (env_cfg demo_env) demo_host ''index.html'' (w_files w4) ''a1/deployments/d1/''
      = Inr (file_response gt ''index.html'' ''hi'')"
    by (rule serve_file_exact[OF demo_page(2) _ demo_open(1)[OF w(5)]]) (simp_all add: demo_open(2)[OF w(5)])
  ultimately show ?thesis
    by (intro exI[of _ s]) (simp add: AppServeView_get_def demo_page(1) load_app_def cache_get_app_def s_def serve_app_def
        resolve_deployment_def case_prod_beta mark_active_def upload_world_rows)
qed

theorem serve_cache_refines_witness:
  "\<exists>s d. site_reachable (env_cfg demo_env) s \<and> d \<in> recent (env_cfg demo_env) s
     \<and> serve_app (\<lambda>_. None) (env_cfg demo_env) 9 demo_host ''index.html'' (w_files (st_world s)) (app_by_slug ''aaaaaaaaaaaa'' d)
         = Inr (file_response (\<lambda>_. None) ''index.html'' ''hi'')"
proof -
  obtain s w' where s: "site_reachable (env_cfg demo_env) s"
    "AppServeView_get (\<lambda>_. None) (env_cfg demo_env) 9 (st_clock s) demo_host ''index.html'' (st_world s)
       = (Inr (file_response (\<lambda>_. None) ''index.html'' ''hi''), w')"
    using demo_visit by blast
  from serve_cache_refines[OF s] obtain d where d: "d \<in> recent (env_cfg demo_env) s"
    "Inr (file_response (\<lambda>_. None) ''index.html'' ''hi'')
      = serve_app (\<lambda>_. None) (env_cfg demo_env) 9 demo_host ''index.html'' (w_files (st_world s)) (app_by_slug ''aaaaaaaaaaaa'' d)"
    unfolding demo_page(1) option.case by blast
  show ?thesis by (intro exI conjI) (fact s(1) d(1) d(2)[symmetric])+
qed

theorem serve_only_published_witness:
  "\<exists>s a. site_reachable (env_cfg demo_env) s \<and> app_slug a = ''aaaaaaaaaaaa''
     \<and> (\<exists>d\<in>recent (env_cfg demo_env) s. a \<in> set (apps d)) \<and> (\<exists>k. storage_get (w_files (st_world s)) k = Some ''hi'')"
proof -
  obtain s w' where s: "site_reachable (env_cfg demo_env) s"
    "AppServeView_get (\<lambda>_. None) (env_cfg demo_env) 9 (st_clock s) demo_host ''index.html'' (st_world s)
       = (Inr (file_response (\<lambda>_. None) ''index.html'' ''hi''), w')"
    using demo_visit by blast
  have b: "rs_body (file_response (\<lambda>_. None) ''index.html'' ''hi'') = File_Body ''index.html'' ''hi''" by simp
  show ?thesis
    using serve_only_published[OF s b] s(1) unfolding demo_page(1) Let_def option.inject by blast
qed


end
