(* ===== verification/Front.thy ===== *)
theory Front
  imports Serve
begin

text \<open>
  The way of a request to a hosted site: \<^verbatim>\<open>apps/hosting/middleware.py\<close>,
  \<^verbatim>\<open>config/health.py\<close>, \<^verbatim>\<open>config/request_context.py\<close> and the error pages of
  \<^verbatim>\<open>config/errors.py\<close>, composed in the order of \<^verbatim>\<open>MIDDLEWARE\<close> in \<^verbatim>\<open>config/settings.py\<close>.
  Django turns an exception below a middleware into a response before the middleware sees it. The
  security middleware of Django, its default error pages and everything below the hosted-app
  middleware (the platform: admin, API, documentation) are arguments.
\<close>

section \<open>Requests\<close>

text \<open>\<open>rq_get_host\<close> is \<^verbatim>\<open>request.get_host()\<close>; None is its exception \<^verbatim>\<open>DisallowedHost\<close>.\<close>

record http_request =
  rq_method :: string
  rq_get_host :: "string option"
  rq_path :: string
  rq_headers :: "(string \<times> string) list"
  rq_request_id :: "string option"

datatype raised = Disallowed_Host | Raised exn

type_synonym handler = "http_request \<Rightarrow> world \<Rightarrow> response \<times> world"

section \<open>config/errors.py\<close>

definition API_PREFIXES :: "string list" where
  "API_PREFIXES = [''/api/'', ''/hosting/v1/'']"

fun error_json :: "nat \<Rightarrow> string" where
  "error_json n =
     (if n = 400 then ''Bad request.''
      else if n = 403 then ''You do not have permission to perform this action.''
      else if n = 404 then ''Not found.'' else ''Server error.'')"

definition CSRF_JSON :: string where
  "CSRF_JSON = ''CSRF check failed. Reload the page and try again.''"

text \<open>The titles of \<^verbatim>\<open>_COPY\<close>; None is the entry of a failed CSRF check.\<close>

fun error_title :: "nat option \<Rightarrow> string" where
  "error_title None = ''This form has expired''"
| "error_title (Some n) =
     (if n = 400 then ''This request didn't work''
      else if n = 403 then ''You can't open this page''
      else if n = 404 then ''This page doesn't exist'' else ''Something went wrong'')"

fun error_message :: "nat option \<Rightarrow> string" where
  "error_message None = ''Reload the page, then send the form again.''"
| "error_message (Some n) =
     (if n = 400 then ''The page got a request it could not read. Go back to home and try again.''
      else if n = 403 then ''Your account does not have access to this page.''
      else if n = 404 then ''The link may be wrong, or the page has moved.''
      else ''The service could not finish your request. Try again in a moment.'')"

definition is_api_path :: "http_request \<Rightarrow> bool" where
  "is_api_path rq = list_ex (startswith (rq_path rq)) API_PREFIXES"

definition is_hosted_site :: "settings \<Rightarrow> http_request \<Rightarrow> bool" where
  "is_hosted_site cfg rq =
     (case rq_get_host rq of None \<Rightarrow> False | Some host \<Rightarrow> slug_from_host cfg host \<noteq> None)"

definition json_body :: "http_request \<Rightarrow> string \<Rightarrow> dict" where
  "json_body rq message =
     (case rq_request_id rq of
        Some i \<Rightarrow> if i \<noteq> [] then [(''detail'', JStr message), (''request_id'', JStr i)] else [(''detail'', JStr message)]
      | None \<Rightarrow> [(''detail'', JStr message)])"

definition error_response :: "http_request \<Rightarrow> nat \<Rightarrow> bool \<Rightarrow> response" where
  "error_response rq st csrf =
     (if is_api_path rq
      then new_response st ''application/json''
             (Json_Body (json_body rq (if csrf then CSRF_JSON else error_json st)))
      else let page = (if csrf then None else Some st)
           in new_response st ''text/html; charset=utf-8'' (Error_Page st (error_title page) (error_message page)))"

text \<open>The handlers of \<^verbatim>\<open>config/urls.py\<close>; \<open>default_page\<close> stands for \<^verbatim>\<open>django.views.defaults\<close>.\<close>

definition error_handler :: "settings \<Rightarrow> (nat \<Rightarrow> response) \<Rightarrow> nat \<Rightarrow> http_request \<Rightarrow> response" where
  "error_handler cfg default_page st rq =
     (if is_hosted_site cfg rq then default_page st else error_response rq st False)"

definition csrf_failure :: "settings \<Rightarrow> response \<Rightarrow> http_request \<Rightarrow> response" where
  "csrf_failure cfg django_csrf rq =
     (if is_hosted_site cfg rq then django_csrf else error_response rq 403 True)"

text \<open>\<^verbatim>\<open>convert_exception_to_response\<close> around a layer.\<close>

definition status_of_exn :: "raised \<Rightarrow> nat" where
  "status_of_exn e = (case e of Disallowed_Host \<Rightarrow> 400 | Raised Http404 \<Rightarrow> 404 | Raised _ \<Rightarrow> 500)"

definition converted ::
    "settings \<Rightarrow> (nat \<Rightarrow> response) \<Rightarrow> (http_request \<Rightarrow> world \<Rightarrow> (raised + response) \<times> world) \<Rightarrow> handler" where
  "converted cfg default_page layer rq w =
     (case layer rq w of
        (Inr rs, w1) \<Rightarrow> (rs, w1)
      | (Inl e, w1) \<Rightarrow> (error_handler cfg default_page (status_of_exn e) rq, w1))"

section \<open>apps/hosting/middleware.py\<close>

definition COOP :: string where
  "COOP = ''Cross-Origin-Opener-Policy''"

definition apply_hosted_navigation_policy :: "response \<Rightarrow> response" where
  "apply_hosted_navigation_policy rs = setdefault_header COOP ''unsafe-none'' rs"

definition set_cookie_has_domain :: "string \<Rightarrow> bool" where
  "set_cookie_has_domain v =
     list_ex (\<lambda>part. lower (strip (before_first CHR ''='' part)) = ''domain'') (tl (split_on CHR '';'' v))"

definition strip_parent_domain_cookies :: "response \<Rightarrow> response" where
  "strip_parent_domain_cookies rs =
     (let rs1 = rs\<lparr>rs_cookies := filter (\<lambda>(key, domain). domain = []) (rs_cookies rs)\<rparr>
      in case get_header ''Set-Cookie'' rs1 of
           None \<Rightarrow> rs1
         | Some raw \<Rightarrow> if raw \<noteq> [] \<and> set_cookie_has_domain raw then del_header ''Set-Cookie'' rs1 else rs1)"

definition on_app_host ::
    "settings \<Rightarrow> (response \<Rightarrow> response) \<Rightarrow> handler \<Rightarrow> http_request \<Rightarrow> world \<Rightarrow> (raised + response) \<times> world" where
  "on_app_host cfg f get_response rq w =
     (let (rs, w1) = get_response rq w
      in case rq_get_host rq of
           None \<Rightarrow> (Inl Disallowed_Host, w1)
         | Some host \<Rightarrow> (Inr (if slug_from_host cfg host \<noteq> None then f rs else rs), w1))"

definition HostedAppCookieScopeMiddleware ::
    "settings \<Rightarrow> handler \<Rightarrow> http_request \<Rightarrow> world \<Rightarrow> (raised + response) \<times> world" where
  "HostedAppCookieScopeMiddleware cfg get_response = on_app_host cfg strip_parent_domain_cookies get_response"

definition HostedAppNavigationPolicyMiddleware ::
    "settings \<Rightarrow> handler \<Rightarrow> http_request \<Rightarrow> world \<Rightarrow> (raised + response) \<times> world" where
  "HostedAppNavigationPolicyMiddleware cfg get_response = on_app_host cfg apply_hosted_navigation_policy get_response"

text \<open>
  \<^verbatim>\<open>AppServeView.as_view()\<close>: \<^verbatim>\<open>View\<close> answers HEAD with \<^verbatim>\<open>get\<close>, OPTIONS itself and the other methods
  with 405; the decorator marks whatever \<^verbatim>\<open>dispatch\<close> returns.
\<close>

record machine =
  mc_guess_type :: "string \<Rightarrow> string option"
  mc_now :: time
  mc_clock :: time
  mc_fresh_id :: string

definition AppServeView_dispatch ::
    "settings \<Rightarrow> machine \<Rightarrow> string \<Rightarrow> string \<Rightarrow> string \<Rightarrow> world \<Rightarrow> (exn + response) \<times> world" where
  "AppServeView_dispatch cfg mc host path meth w =
     (let (res, w1) =
        (if lower meth \<in> set [''get'', ''head'']
         then AppServeView_get (mc_guess_type mc) cfg (mc_now mc) (mc_clock mc) host path w
         else if lower meth = ''options''
         then (Inr (set_header ''Allow'' ''GET, HEAD, OPTIONS'' (new_response 200 ''text/html; charset=utf-8'' (Plain_Body []))), w)
         else (Inr (set_header ''Allow'' ''GET, HEAD, OPTIONS'' (new_response 405 ''text/html; charset=utf-8'' (Plain_Body []))), w))
      in (map_res (\<lambda>rs. rs\<lparr>rs_xframe_exempt := True\<rparr>) res, w1))"

definition HostedAppServeMiddleware ::
    "settings \<Rightarrow> machine \<Rightarrow> handler \<Rightarrow> http_request \<Rightarrow> world \<Rightarrow> (raised + response) \<times> world" where
  "HostedAppServeMiddleware cfg mc get_response rq w =
     (case rq_get_host rq of
        None \<Rightarrow> (Inl Disallowed_Host, w)
      | Some host \<Rightarrow>
          if slug_from_host cfg host = None
          then (let (rs, w1) = get_response rq w in (Inr rs, w1))
          else (let (res, w1) = AppServeView_dispatch cfg mc host (lstrip_char CHR ''/'' (rq_path rq)) (rq_method rq) w
                in (case res of Inl e \<Rightarrow> Inl (Raised e) | Inr rs \<Rightarrow> Inr rs, w1)))"

section \<open>config/health.py and config/request_context.py\<close>

definition LIVENESS_PATH :: string where
  "LIVENESS_PATH = ''/health/live''"

definition is_liveness :: "http_request \<Rightarrow> bool" where
  "is_liveness rq \<longleftrightarrow> rq_method rq = ''GET'' \<and> rstrip_char CHR ''/'' (rq_path rq) = LIVENESS_PATH"

definition LivenessMiddleware :: "handler \<Rightarrow> handler" where
  "LivenessMiddleware get_response rq w =
     (if is_liveness rq then (new_response 200 ''text/plain'' (Plain_Body ''ok''), w) else get_response rq w)"

definition request_id_of :: "machine \<Rightarrow> http_request \<Rightarrow> string" where
  "request_id_of mc rq =
     (let incoming = strip (case List.find (header_is ''X-Request-ID'') (rq_headers rq) of None \<Rightarrow> [] | Some h \<Rightarrow> snd h)
      in if incoming \<noteq> [] then take 64 incoming else take 12 (mc_fresh_id mc))"

definition RequestIdMiddleware :: "machine \<Rightarrow> handler \<Rightarrow> handler" where
  "RequestIdMiddleware mc get_response rq w =
     (let request_id = request_id_of mc rq;
          (rs, w1) = get_response (rq\<lparr>rq_request_id := Some request_id\<rparr>) w
      in (set_header ''X-Request-ID'' request_id rs, w1))"

section \<open>The order of the middleware\<close>

text \<open>
  \<^verbatim>\<open>SecurityMiddleware\<close>: a redirect to https or None, and the headers it adds on the way back.
\<close>

record django =
  dj_redirect :: "http_request \<Rightarrow> response option"
  dj_secure :: "http_request \<Rightarrow> response \<Rightarrow> response"
  dj_default_page :: "nat \<Rightarrow> response"

definition SecurityMiddleware :: "django \<Rightarrow> handler \<Rightarrow> http_request \<Rightarrow> world \<Rightarrow> (raised + response) \<times> world" where
  "SecurityMiddleware dj get_response rq w =
     (case dj_redirect dj rq of
        Some rs \<Rightarrow> (Inr (dj_secure dj rq rs), w)
      | None \<Rightarrow> (let (rs, w1) = get_response rq w in (Inr (dj_secure dj rq rs), w1)))"

definition front :: "settings \<Rightarrow> machine \<Rightarrow> django \<Rightarrow> handler \<Rightarrow> handler" where
  "front cfg mc dj platform =
     (let wrap = converted cfg (dj_default_page dj);
          serve = wrap (HostedAppServeMiddleware cfg mc platform);
          navigation = wrap (HostedAppNavigationPolicyMiddleware cfg serve);
          secured = wrap (SecurityMiddleware dj navigation);
          scoped = wrap (HostedAppCookieScopeMiddleware cfg secured)
      in RequestIdMiddleware mc (LivenessMiddleware scoped))"

section \<open>What leaves the service\<close>

text \<open>\<^verbatim>\<open>SecurityMiddleware\<close> as documented: it sets headers that are not set yet, and nothing else.\<close>

definition django_ok :: "django \<Rightarrow> bool" where
  "django_ok dj \<longleftrightarrow>
     (\<forall>rq rs. rs_status (dj_secure dj rq rs) = rs_status rs \<and> rs_body (dj_secure dj rq rs) = rs_body rs
        \<and> get_header COOP (dj_secure dj rq rs) = Some (case get_header COOP rs of None \<Rightarrow> ''same-origin'' | Some v \<Rightarrow> v))
     \<and> (\<forall>n. get_header COOP (dj_default_page dj n) = None)"

definition host_only_cookies :: "response \<Rightarrow> bool" where
  "host_only_cookies rs \<longleftrightarrow> (\<forall>(key, domain)\<in>set (rs_cookies rs). domain = [])
     \<and> (case get_header ''Set-Cookie'' rs of None \<Rightarrow> True | Some raw \<Rightarrow> raw = [] \<or> \<not> set_cookie_has_domain raw)"

lemma header_names:
  "lower ''X-Request-ID'' \<noteq> lower ''Set-Cookie''" "lower ''X-Request-ID'' \<noteq> lower COOP"
  "lower ''Set-Cookie'' \<noteq> lower COOP" "lower ''Cache-Control'' \<noteq> lower COOP" "lower ''Allow'' \<noteq> lower COOP"
  by code_simp+

lemma find_filter: "(\<And>x. p x \<Longrightarrow> q x) \<Longrightarrow> List.find p (filter q xs) = List.find p xs"
  by (induction xs) auto

lemma find_append: "List.find p (xs @ ys) = (case List.find p xs of None \<Rightarrow> List.find p ys | Some x \<Rightarrow> Some x)"
  by (induction xs) auto

lemma get_set_other: "lower n \<noteq> lower m \<Longrightarrow> get_header m (set_header n v rs) = get_header m rs"
proof -
  assume "lower n \<noteq> lower m"
  then have "List.find (header_is m) (filter (\<lambda>h. \<not> header_is n h) hs) = List.find (header_is m) hs"
    "List.find (header_is m) [(n, v)] = None" for hs
    by (auto intro: find_filter simp: header_is_def)
  then show ?thesis by (simp add: get_header_def set_header_def find_append split: option.split)
qed

lemma get_set_same: "get_header n (set_header n v rs) = Some v"
proof -
  have "List.find (header_is n) (filter (\<lambda>h. \<not> header_is n h) hs) = None" for hs by (induction hs) auto
  then show ?thesis by (simp add: get_header_def set_header_def find_append header_is_def)
qed

lemma get_del_same: "get_header n (del_header n rs) = None"
  by (auto simp: get_header_def del_header_def find_None_iff)

lemma strip_cookies_clean: "host_only_cookies (strip_parent_domain_cookies rs)"
proof -
  let ?rs = "rs\<lparr>rs_cookies := filter (\<lambda>(key, domain). domain = []) (rs_cookies rs)\<rparr>"
  have c: "\<forall>(key, domain)\<in>set (rs_cookies ?rs). domain = []" by auto
  show ?thesis
    using c get_del_same[of "''Set-Cookie''" ?rs]
    by (auto simp: host_only_cookies_def strip_parent_domain_cookies_def Let_def del_header_def split: option.split)
qed

lemma request_id_bounds: "mc_fresh_id mc \<noteq> [] \<Longrightarrow> request_id_of mc rq \<noteq> [] \<and> length (request_id_of mc rq) \<le> 64"
  by (auto simp: request_id_of_def Let_def min_def)

lemma serve_no_coop:
  assumes "serve_app gt cfg now host path fs found = Inr rs"
  shows "get_header COOP rs = None"
proof -
  have "rs_headers rs = [(''Cache-Control'', v)] \<Longrightarrow> get_header COOP rs = None" for v
    using header_names(4) by (simp add: get_header_def header_is_def)
  moreover have "\<exists>v. rs_headers rs = [(''Cache-Control'', v)]"
    using assms
    by (auto simp: serve_app_def serve_deployment_def res_simps split: option.splits if_splits)
  ultimately show ?thesis by blast
qed

lemma dispatch_no_coop:
  assumes "AppServeView_dispatch cfg mc host path meth w = (Inr rs, w')"
  shows "get_header COOP rs = None"
proof -
  have x: "get_header COOP (rs\<lparr>rs_xframe_exempt := b\<rparr>) = get_header COOP rs" for rs b by (simp add: get_header_def)
  have a: "get_header COOP (set_header ''Allow'' v (new_response st ct b)) = None" for v st ct b
    using get_set_other[OF header_names(5)] by (simp add: get_header_def new_response_def)
  have s: "get_header COOP rs = None" if "fst (AppServeView_get gt cfg now t host path w) = Inr rs" for gt now t rs
    using that serve_no_coop by (auto simp: AppServeView_get_def case_prod_beta split: option.splits)
  show ?thesis
    using assms by (auto simp: AppServeView_dispatch_def case_prod_beta res_simps x a s split: if_splits)
qed

lemma wrapped_layers:
  assumes "rq_get_host rq = Some host"
  shows "converted cfg dp (HostedAppCookieScopeMiddleware cfg h) rq w =
      (if slug_from_host cfg host \<noteq> None then strip_parent_domain_cookies (fst (h rq w)) else fst (h rq w), snd (h rq w))"
    and "converted cfg dp (HostedAppNavigationPolicyMiddleware cfg h) rq w =
      (if slug_from_host cfg host \<noteq> None then apply_hosted_navigation_policy (fst (h rq w)) else fst (h rq w), snd (h rq w))"
    and "converted cfg dp (SecurityMiddleware dj h) rq w =
      (case dj_redirect dj rq of Some rs \<Rightarrow> (dj_secure dj rq rs, w) | None \<Rightarrow> (dj_secure dj rq (fst (h rq w)), snd (h rq w)))"
  by (simp_all add: converted_def HostedAppCookieScopeMiddleware_def HostedAppNavigationPolicyMiddleware_def on_app_host_def
      SecurityMiddleware_def assms case_prod_beta split: option.split)

text \<open>What the hosted-app middleware and the conversion around it answer on an app host.\<close>

definition site_answer :: "settings \<Rightarrow> machine \<Rightarrow> django \<Rightarrow> string \<Rightarrow> handler" where
  "site_answer cfg mc dj host rq w =
     (case AppServeView_dispatch cfg mc host (lstrip_char CHR ''/'' (rq_path rq)) (rq_method rq) w of
        (Inr rs, w1) \<Rightarrow> (rs, w1)
      | (Inl e, w1) \<Rightarrow> (dj_default_page dj (status_of_exn (Raised e)), w1))"

lemma serve_layer:
  assumes "rq_get_host rq = Some host"
  shows "slug_from_host cfg host = Some slug \<Longrightarrow>
      converted cfg (dj_default_page dj) (HostedAppServeMiddleware cfg mc p) rq w = site_answer cfg mc dj host rq w"
    and "slug_from_host cfg host = None \<Longrightarrow>
      converted cfg (dj_default_page dj) (HostedAppServeMiddleware cfg mc p) rq w = p rq w"
  by (simp_all add: converted_def HostedAppServeMiddleware_def site_answer_def assms case_prod_beta error_handler_def
      is_hosted_site_def split: prod.split sum.split)

lemma front_layers:
  fixes rq :: http_request and mc :: machine and cfg :: settings and dj :: django and p :: handler and w :: world and host :: string
  assumes "rq_get_host rq = Some host" "\<not> is_liveness rq"
  defines "r \<equiv> rq\<lparr>rq_request_id := Some (request_id_of mc rq)\<rparr>"
  defines "sx \<equiv> converted cfg (dj_default_page dj) (HostedAppServeMiddleware cfg mc p) r w"
  defines "hosted \<equiv> slug_from_host cfg host \<noteq> None"
  defines "secured \<equiv> (case dj_redirect dj r of Some rs \<Rightarrow> (dj_secure dj r rs, w)
      | None \<Rightarrow> (dj_secure dj r (if hosted then apply_hosted_navigation_policy (fst sx) else fst sx), snd sx))"
  shows "front cfg mc dj p rq w =
    (set_header ''X-Request-ID'' (request_id_of mc rq) (if hosted then strip_parent_domain_cookies (fst secured) else fst secured),
     snd secured)"
proof -
  have h: "rq_get_host r = Some host" "\<not> is_liveness r" using assms(1,2) by (simp_all add: r_def is_liveness_def)
  show ?thesis
    by (simp add: front_def RequestIdMiddleware_def LivenessMiddleware_def h wrapped_layers[OF h(1)] Let_def sx_def[symmetric]
        r_def[symmetric] secured_def hosted_def case_prod_beta split: option.split)
qed

lemma set_header_keeps [simp]:
  "rs_status (set_header n v rs) = rs_status rs" "rs_body (set_header n v rs) = rs_body rs"
  "rs_cookies (set_header n v rs) = rs_cookies rs"
  "rs_status (strip_parent_domain_cookies rs) = rs_status rs" "rs_body (strip_parent_domain_cookies rs) = rs_body rs"
  "rs_status (apply_hosted_navigation_policy rs) = rs_status rs" "rs_body (apply_hosted_navigation_policy rs) = rs_body rs"
  by (simp_all add: set_header_def strip_parent_domain_cookies_def del_header_def apply_hosted_navigation_policy_def
      setdefault_header_def Let_def split: option.split)

lemma strip_keeps_coop: "get_header COOP (strip_parent_domain_cookies rs) = get_header COOP rs"
proof -
  have "List.find (header_is COOP) (filter (\<lambda>h. \<not> header_is ''Set-Cookie'' h) hs) = List.find (header_is COOP) hs" for hs
    using header_names(3) by (auto intro: find_filter simp: header_is_def)
  then show ?thesis
    by (simp add: strip_parent_domain_cookies_def get_header_def del_header_def Let_def split: option.split)
qed

lemma clean_request_id: "host_only_cookies rs \<Longrightarrow> host_only_cookies (set_header ''X-Request-ID'' v rs)"
  using get_set_other[OF header_names(1)] by (simp add: host_only_cookies_def)

lemma site_answer_coop: "django_ok dj \<Longrightarrow> get_header COOP (fst (site_answer cfg mc dj host rq w)) = None"
  using dispatch_no_coop by (fastforce simp: site_answer_def django_ok_def split: prod.split sum.split)

lemma liveness_answer:
  "is_liveness rq \<Longrightarrow> front cfg mc dj p rq w
     = (set_header ''X-Request-ID'' (request_id_of mc rq) (new_response 200 ''text/plain'' (Plain_Body ''ok'')), w)"
  by (simp add: front_def RequestIdMiddleware_def LivenessMiddleware_def is_liveness_def Let_def)

text \<open>C31. What happens on an app host, for every platform below the middleware: the platform is never asked (the answer
  does not depend on it) and no cookie with a \<open>Domain\<close> attribute leaves the service. One path is not the
  site's: on every host a GET of \<^verbatim>\<open>/health/live\<close>, with or without trailing slashes, is answered 200 \<^verbatim>\<open>ok\<close> as plain
  text by the liveness probe, with no other change. For every other request, unless Django redirects to
  https, the response on an app host is the answer of the site with the opener policy \<open>unsafe-none\<close>, and on any other
  host the platform answers. Every response carries the request id, which is not empty and has at most 64
  characters.\<close>

theorem hosted_front:
  fixes p q :: handler and w :: world and rq :: http_request
  assumes "rq_get_host rq = Some host" "django_ok dj" "mc_fresh_id mc \<noteq> []"
    and "r = rq\<lparr>rq_request_id := Some (request_id_of mc rq)\<rparr>" "a = front cfg mc dj p rq w"
  shows "(is_liveness rq \<longrightarrow> rs_status (fst a) = 200 \<and> rs_body (fst a) = Plain_Body ''ok''
        \<and> rs_content_type (fst a) = ''text/plain'' \<and> rs_cookies (fst a) = [] \<and> snd a = w)
    \<and> (slug_from_host cfg host \<noteq> None \<longrightarrow>
      a = front cfg mc dj q rq w \<and> host_only_cookies (fst a)
      \<and> (\<not> is_liveness rq \<and> dj_redirect dj r = None \<longrightarrow>
           get_header COOP (fst a) = Some ''unsafe-none'' \<and> rs_status (fst a) = rs_status (fst (site_answer cfg mc dj host rq w))
           \<and> rs_body (fst a) = rs_body (fst (site_answer cfg mc dj host rq w)) \<and> snd a = snd (site_answer cfg mc dj host rq w)))
    \<and> (slug_from_host cfg host = None \<and> \<not> is_liveness rq \<and> dj_redirect dj r = None \<longrightarrow>
         rs_status (fst a) = rs_status (fst (p r w)) \<and> rs_body (fst a) = rs_body (fst (p r w)) \<and> snd a = snd (p r w))
    \<and> get_header ''X-Request-ID'' (fst a) = Some (request_id_of mc rq)
    \<and> request_id_of mc rq \<noteq> [] \<and> length (request_id_of mc rq) \<le> 64"
proof (cases "is_liveness rq")
  case True
  have "host_only_cookies (new_response 200 ''text/plain'' (Plain_Body ''ok''))"
    by (simp add: host_only_cookies_def new_response_def get_header_def)
  then show ?thesis
    using True request_id_bounds[OF assms(3)] 
    by (simp add: assms(5) liveness_answer get_set_same clean_request_id) (simp add: new_response_def set_header_def)
next
  case False
  note F = front_layers[OF assms(1) False, where mc = mc and cfg = cfg and dj = dj and w = w, folded assms(4)]
  have h: "rq_get_host r = Some host" using assms(1,4) by simp
  have s: "site_answer cfg mc dj host r w = site_answer cfg mc dj host rq w" by (simp add: site_answer_def assms(4))
  have L: "slug_from_host cfg host = Some slug \<Longrightarrow>
      converted cfg (dj_default_page dj) (HostedAppServeMiddleware cfg mc f) r w = site_answer cfg mc dj host rq w"
    "slug_from_host cfg host = None \<Longrightarrow> converted cfg (dj_default_page dj) (HostedAppServeMiddleware cfg mc f) r w = f r w" for f slug
    using serve_layer[OF h] s by auto
  have coop: "get_header COOP (apply_hosted_navigation_policy (fst (site_answer cfg mc dj host rq w))) = Some ''unsafe-none''"
    using site_answer_coop[OF assms(2)]
    by (simp add: apply_hosted_navigation_policy_def setdefault_header_def get_set_same)
  have sec: "rs_status (dj_secure dj q rs) = rs_status rs" "rs_body (dj_secure dj q rs) = rs_body rs"
    "get_header COOP (dj_secure dj q rs) = Some (case get_header COOP rs of None \<Rightarrow> ''same-origin'' | Some v \<Rightarrow> v)" for q rs
    using assms(2) by (simp_all add: django_ok_def)
  show ?thesis
    using request_id_bounds[OF assms(3)]
    by (cases "dj_redirect dj r") (auto simp: False assms(5) F L sec coop get_set_same get_set_other[OF header_names(2)] strip_keeps_coop
        clean_request_id strip_cookies_clean)
qed

definition demo_django :: django where
  "demo_django = \<lparr>dj_redirect = (\<lambda>_. None),
     dj_secure = (\<lambda>_ rs. setdefault_header COOP ''same-origin'' rs),
     dj_default_page = (\<lambda>n. new_response n ''text/html'' (Plain_Body []))\<rparr>"

definition demo_machine :: machine where
  "demo_machine = \<lparr>mc_guess_type = (\<lambda>_. None), mc_now = 0, mc_clock = 0, mc_fresh_id = ''0123456789abcdef''\<rparr>"

lemma demo_django_ok: "django_ok demo_django"
proof -
  have "get_header COOP (set_header COOP v rs) = Some v" for v rs by (rule get_set_same)
  then show ?thesis
    by (auto simp: django_ok_def demo_django_def setdefault_header_def new_response_def get_header_def split: option.split)
qed

theorem hosted_front_witness:
  "\<exists>rs w'. front default_settings demo_machine demo_django (\<lambda>_ w. (new_response 200 ''text/html'' (Plain_Body ''admin''), w))
       \<lparr>rq_method = ''GET'', rq_get_host = Some ''abc.shellui.app'', rq_path = ''/admin'', rq_headers = [], rq_request_id = None\<rparr>
       \<lparr>w_db = empty_db, w_files = [], w_cache = (\<lambda>_. None), w_scheduled = [], w_identity = []\<rparr> = (rs, w')
     \<and> rs_status rs = 404 \<and> get_header COOP rs = Some ''unsafe-none''
     \<and> get_header ''X-Request-ID'' rs = Some ''0123456789ab''"
proof -
  let ?rq = "\<lparr>rq_method = ''GET'', rq_get_host = Some ''abc.shellui.app'', rq_path = ''/admin'', rq_headers = [], rq_request_id = None\<rparr>"
  let ?w = "\<lparr>w_db = empty_db, w_files = [], w_cache = (\<lambda>_. None), w_scheduled = [], w_identity = []\<rparr>"
  let ?p = "\<lambda>_ w. (new_response 200 ''text/html'' (Plain_Body ''admin''), w)"
  have i: "request_id_of demo_machine ?rq = ''0123456789ab''" "\<not> is_liveness ?rq" "slug_from_host default_settings ''abc.shellui.app'' \<noteq> None"
    "rs_status (fst (site_answer default_settings demo_machine demo_django ''abc.shellui.app'' ?rq ?w)) = 404"
    by code_simp+
  have "mc_fresh_id demo_machine \<noteq> []" "rq_get_host ?rq = Some ''abc.shellui.app''" by (simp_all add: demo_machine_def)
  note H = hosted_front[OF this(2) demo_django_ok this(1) refl refl, of default_settings ?p ?w ?p]
  have "dj_redirect demo_django r = None" for r by (simp add: demo_django_def)
  then have "get_header COOP (fst (front default_settings demo_machine demo_django ?p ?rq ?w)) = Some ''unsafe-none''"
    "rs_status (fst (front default_settings demo_machine demo_django ?p ?rq ?w)) = 404"
    "get_header ''X-Request-ID'' (fst (front default_settings demo_machine demo_django ?p ?rq ?w)) = Some ''0123456789ab''"
    using H i by simp_all
  then show ?thesis by (metis prod.collapse)
qed

end
