(* ===== verification/Net.thy ===== *)
theory Net
  imports Hosts Paths "HOL-Library.Word"
begin

text \<open>
  What the outgoing HTTP code uses of the standard library: \<^verbatim>\<open>urllib.parse.urlparse\<close> with the
  \<^verbatim>\<open>hostname\<close> and \<^verbatim>\<open>port\<close> properties of its result (ASCII text), and the text form and the
  classification of addresses of \<^verbatim>\<open>ipaddress\<close> (Python 3.14). An IPv4 address is a 32-bit word, an
  IPv6 address a 128-bit word.
\<close>

unbundle bit_operations_syntax

section \<open>partition\<close>

definition after_first :: "char \<Rightarrow> string \<Rightarrow> string" where
  "after_first c s = tl (dropWhile (\<lambda>x. x \<noteq> c) s)"

definition after_last :: "char \<Rightarrow> string \<Rightarrow> string" where
  "after_last c s = rev (takeWhile (\<lambda>x. x \<noteq> c) (rev s))"

definition before_last :: "char \<Rightarrow> string \<Rightarrow> string" where
  "before_last c s = rev (tl (dropWhile (\<lambda>x. x \<noteq> c) (rev s)))"

section \<open>ipaddress\<close>

definition dec_val :: "string \<Rightarrow> int" where
  "dec_val s = foldl (\<lambda>n c. 10 * n + int (ch c - 48)) 0 s"

datatype ip = V4 "32 word" | V6 "128 word"

definition parse_ipv4 :: "string \<Rightarrow> 32 word option" where
  "parse_ipv4 s =
     (if is_ipv4 s then Some (foldl (\<lambda>n o8. n * 256 + of_int (dec_val o8)) 0 (split_on CHR ''.'' s)) else None)"

definition hex_digits_val :: "string \<Rightarrow> int" where
  "hex_digits_val h = foldl (\<lambda>n c. 16 * n + (case hex_val c of None \<Rightarrow> 0 | Some v \<Rightarrow> int v)) 0 h"

definition hextet :: "string \<Rightarrow> 128 word option" where
  "hextet h = (if h \<noteq> [] \<and> length h \<le> 4 \<and> list_all (\<lambda>c. hex_val c \<noteq> None) h
     then Some (of_int (hex_digits_val h)) else None)"

fun join_hextets :: "128 word \<Rightarrow> string list \<Rightarrow> 128 word option" where
  "join_hextets acc [] = Some acc"
| "join_hextets acc (h # hs) =
     (case hextet h of None \<Rightarrow> None | Some v \<Rightarrow> join_hextets (acc * 65536 + v) hs)"

text \<open>\<open>None\<close> as \<^verbatim>\<open>AddressValueError\<close>. The last part may be a dotted quad; \<open>%zone\<close> is split off.\<close>

definition ipv6_parts :: "string \<Rightarrow> (string list \<times> 32 word option) option" where
  "ipv6_parts s =
     (let parts = split_on CHR '':'' s in
      if length parts < 3 then None
      else if CHR ''.'' \<in> set (last parts)
      then (case parse_ipv4 (last parts) of None \<Rightarrow> None | Some v \<Rightarrow> Some (butlast parts, Some v))
      else Some (parts, None))"

definition empty_inside :: "string list \<Rightarrow> nat list" where
  "empty_inside parts = filter (\<lambda>i. parts ! i = []) [1..<length parts - 1]"

definition zero_hex :: string where
  "zero_hex = ''0''"

text \<open>
  The dotted quad stands for two groups; the groups after \<open>::\<close> follow the zero groups. \<open>n\<close> is the
  number of groups of the text, the quad counted as two.
\<close>

definition assemble_ipv6 :: "string list \<Rightarrow> 32 word option \<Rightarrow> 128 word option" where
  "assemble_ipv6 parts quad =
     (let all_parts = parts @ (case quad of None \<Rightarrow> [] | Some _ \<Rightarrow> [zero_hex, zero_hex]);
          n = length all_parts
      in if n > 9 then None
         else case empty_inside all_parts of
           [] \<Rightarrow>
             if n \<noteq> 8 \<or> hd all_parts = [] \<or> last all_parts = [] then None
             else join_hextets 0 all_parts
         | [k] \<Rightarrow>
             (let lead = hd all_parts = [];
                  trail = last all_parts = [];
                  hi = k - (if lead then 1 else 0);
                  lo = (n - k - 1) - (if trail then 1 else 0)
              in if lead \<and> hi \<noteq> 0 then None
                 else if trail \<and> lo \<noteq> 0 then None
                 else if hi + lo > 7 then None
                 else join_hextets 0
                   (take hi all_parts @ replicate (8 - (hi + lo)) zero_hex @ drop (n - lo) all_parts))
         | _ \<Rightarrow> None)"

definition parse_ipv6 :: "string \<Rightarrow> 128 word option" where
  "parse_ipv6 text =
     (let addr = before_first CHR ''%'' text; zone = after_first CHR ''%'' text
      in if CHR ''%'' \<in> set text \<and> (zone = [] \<or> CHR ''%'' \<in> set zone) then None
         else if CHR ''/'' \<in> set text then None
         else case ipv6_parts addr of
           None \<Rightarrow> None
         | Some (parts, quad) \<Rightarrow>
             map_option (\<lambda>w. case quad of None \<Rightarrow> w | Some v \<Rightarrow> w + ucast v) (assemble_ipv6 parts quad))"

definition ip_address :: "string \<Rightarrow> ip option" where
  "ip_address s =
     (case parse_ipv4 s of Some v \<Rightarrow> Some (V4 v) | None \<Rightarrow> map_option V6 (parse_ipv6 s))"

definition quad4 :: "int \<Rightarrow> int \<Rightarrow> int \<Rightarrow> int \<Rightarrow> 32 word" where
  "quad4 a b c d = of_int (((a * 256 + b) * 256 + c) * 256 + d)"

text \<open>\<open>ip in network\<close>: the leading \<open>len\<close> bits agree.\<close>

definition in_net4 :: "32 word \<Rightarrow> 32 word \<times> nat \<Rightarrow> bool" where
  "in_net4 x net = (drop_bit (32 - snd net) x = drop_bit (32 - snd net) (fst net))"

definition in_net6 :: "128 word \<Rightarrow> 128 word \<times> nat \<Rightarrow> bool" where
  "in_net6 x net = (drop_bit (128 - snd net) x = drop_bit (128 - snd net) (fst net))"

definition private4 :: "(32 word \<times> nat) list" where
  "private4 =
     [(quad4 0 0 0 0, 8), (quad4 10 0 0 0, 8), (quad4 127 0 0 0, 8), (quad4 169 254 0 0, 16), (quad4 172 16 0 0, 12),
      (quad4 192 0 0 0, 24), (quad4 192 0 0 170, 31), (quad4 192 0 2 0, 24), (quad4 192 168 0 0, 16),
      (quad4 198 18 0 0, 15), (quad4 198 51 100 0, 24), (quad4 203 0 113 0, 24), (quad4 240 0 0 0, 4),
      (quad4 255 255 255 255, 32)]"

definition private4_exceptions :: "(32 word \<times> nat) list" where
  "private4_exceptions = [(quad4 192 0 0 9, 32), (quad4 192 0 0 10, 32)]"

definition is_global4 :: "32 word \<Rightarrow> bool" where
  "is_global4 x \<longleftrightarrow> \<not> in_net4 x (quad4 100 64 0 0, 10)
     \<and> \<not> (list_ex (in_net4 x) private4 \<and> \<not> list_ex (in_net4 x) private4_exceptions)"

text \<open>An IPv6 network by its leading groups.\<close>

definition net6 :: "int list \<Rightarrow> nat \<Rightarrow> 128 word \<times> nat" where
  "net6 groups len = (of_int (foldl (\<lambda>n g. n * 65536 + g) 0 (groups @ replicate (8 - length groups) 0)), len)"

definition private6 :: "(128 word \<times> nat) list" where
  "private6 =
     [net6 [0, 0, 0, 0, 0, 0, 0, 1] 128, net6 [] 128, net6 [0, 0, 0, 0, 0, 0xffff] 96, net6 [0x64, 0xff9b, 1] 48,
      net6 [0x100] 64, net6 [0x2001] 23, net6 [0x2001, 0xdb8] 32, net6 [0x2002] 16, net6 [0x3fff] 20,
      net6 [0xfc00] 7, net6 [0xfe80] 10]"

definition private6_exceptions :: "(128 word \<times> nat) list" where
  "private6_exceptions =
     [net6 [0x2001, 1, 0, 0, 0, 0, 0, 1] 128, net6 [0x2001, 1, 0, 0, 0, 0, 0, 2] 128, net6 [0x2001, 3] 32,
      net6 [0x2001, 4, 0x112] 48, net6 [0x2001, 0x20] 28, net6 [0x2001, 0x30] 28]"

definition ipv4_mapped :: "128 word \<Rightarrow> 32 word option" where
  "ipv4_mapped x = (if drop_bit 32 x = 0xffff then Some (ucast x) else None)"

definition is_global6 :: "128 word \<Rightarrow> bool" where
  "is_global6 x =
     (case ipv4_mapped x of
        Some v \<Rightarrow> is_global4 v
      | None \<Rightarrow> \<not> (list_ex (in_net6 x) private6 \<and> \<not> list_ex (in_net6 x) private6_exceptions))"

section \<open>urlparse\<close>

record parsed_url =
  pu_scheme :: string
  pu_netloc :: string
  pu_path :: string
  pu_query :: string

definition scheme_char :: "char \<Rightarrow> bool" where
  "scheme_char c \<longleftrightarrow> is_lower c \<or> is_upper c \<or> is_digit c \<or> c \<in> set ''+-.''"

definition split_scheme :: "string \<Rightarrow> string \<times> string" where
  "split_scheme url =
     (let s = before_first CHR '':'' url
      in if CHR '':'' \<in> set url \<and> s \<noteq> [] \<and> (is_lower (hd s) \<or> is_upper (hd s)) \<and> list_all scheme_char s
         then (lower s, drop (length s + 1) url) else ([], url))"

text \<open>A bracketed host: an IPv6 address, or an \<open>IPvFuture\<close> address that starts with \<open>v\<close>.\<close>

definition bracketed_ok :: "string \<Rightarrow> bool" where
  "bracketed_ok host =
     (if startswith host ''v''
      then (let h = before_first CHR ''.'' (drop 1 host) in
            h \<noteq> [] \<and> list_all (\<lambda>c. hex_val c \<noteq> None) h \<and> after_first CHR ''.'' host \<noteq> [])
      else (case ip_address host of Some (V6 _) \<Rightarrow> True | _ \<Rightarrow> False))"

definition check_netloc :: "string \<Rightarrow> bool" where
  "check_netloc netloc =
     (let open_br = CHR ''['' \<in> set netloc; close_br = CHR '']'' \<in> set netloc in
      if open_br \<noteq> close_br then False
      else if \<not> open_br then True
      else let hp = after_last CHR ''@'' netloc in
      if CHR ''['' \<in> set hp
      then (let bracketed = after_first CHR ''['' hp;
                port = (if CHR '']'' \<in> set bracketed then after_first CHR '']'' bracketed else [])
            in before_first CHR ''['' hp = [] \<and> (port = [] \<or> startswith port '':'')
               \<and> bracketed_ok (before_first CHR '']'' bracketed))
      else bracketed_ok (before_first CHR '':'' hp))"

text \<open>The path loses the \<open>;parameters\<close> of its last segment, as \<^verbatim>\<open>urlparse\<close> splits them off.\<close>

definition split_params :: "string \<Rightarrow> string" where
  "split_params path =
     (let last_seg = after_last CHR ''/'' path
      in take (length path - length last_seg) path @ before_first CHR '';'' last_seg)"

text \<open>\<open>None\<close> is the \<^verbatim>\<open>ValueError\<close> of an invalid bracketed host.\<close>

definition urlparse :: "string \<Rightarrow> parsed_url option" where
  "urlparse raw =
     (let url0 = filter (\<lambda>c. c \<notin> {CHR 0x09, CHR 0x0A, CHR 0x0D}) (dropWhile (\<lambda>c. ch c \<le> 32) raw);
          (scheme, rest) = split_scheme url0;
          has_net = startswith rest ''//'';
          netloc = (if has_net then takeWhile (\<lambda>c. c \<notin> set ''/?#'') (drop 2 rest) else []);
          rest2 = (if has_net then drop (2 + length netloc) rest else rest);
          rest3 = before_first CHR ''#'' rest2;
          path = before_first CHR ''?'' rest3;
          query = after_first CHR ''?'' rest3
      in if check_netloc netloc
         then Some \<lparr> pu_scheme = scheme, pu_netloc = netloc,
                     pu_path = (if scheme \<in> set [[], ''http'', ''https''] then split_params path else path),
                     pu_query = query \<rparr>
         else None)"

text \<open>\<^verbatim>\<open>_hostinfo\<close>, \<^verbatim>\<open>hostname\<close> and \<^verbatim>\<open>port\<close>; an invalid port is \<open>None\<close>, an absent one \<open>Some None\<close>.\<close>

definition host_port :: "parsed_url \<Rightarrow> string \<times> string" where
  "host_port p =
     (let hostinfo = after_last CHR ''@'' (pu_netloc p)
      in if CHR ''['' \<in> set hostinfo
         then (let bracketed = after_first CHR ''['' hostinfo
               in (before_first CHR '']'' bracketed, after_first CHR '':'' (after_first CHR '']'' bracketed)))
         else (before_first CHR '':'' hostinfo, after_first CHR '':'' hostinfo))"

definition url_hostname :: "parsed_url \<Rightarrow> string" where
  "url_hostname p =
     (let h = fst (host_port p)
      in lower (before_first CHR ''%'' h) @ dropWhile (\<lambda>c. c \<noteq> CHR ''%'') h)"

definition url_port :: "parsed_url \<Rightarrow> int option option" where
  "url_port p =
     (let t = snd (host_port p)
      in if t = [] then Some None
         else if list_all is_digit t \<and> dec_val t \<le> 65535 then Some (Some (dec_val t)) else None)"

section \<open>Text of addresses\<close>

definition byte_at :: "nat \<Rightarrow> 32 word \<Rightarrow> int" where
  "byte_at k x = uint (drop_bit (8 * k) x) mod 256"

definition ipv4_str :: "32 word \<Rightarrow> string" where
  "ipv4_str x = join_with ''.'' (map (\<lambda>k. int_str (byte_at k x)) [3, 2, 1, 0])"

definition hextet_at :: "nat \<Rightarrow> 128 word \<Rightarrow> int" where
  "hextet_at k x = uint (drop_bit (16 * k) x) mod 65536"

definition hex_digit :: "int \<Rightarrow> char" where
  "hex_digit n = (if n < 10 then char_of (48 + nat n) else char_of (87 + nat n))"

text \<open>\<^verbatim>\<open>'%x' % n\<close> for a group of 16 bits.\<close>

definition hex_str :: "int \<Rightarrow> string" where
  "hex_str n =
     (let digits = map (\<lambda>d. hex_digit (n div d mod 16)) [4096, 256, 16, 1];
          significant = dropWhile (\<lambda>c. c = CHR ''0'') digits
      in if significant = [] then ''0'' else significant)"

text \<open>\<^verbatim>\<open>_compress_hextets\<close>: the first longest run of zero groups, as its start and its length.\<close>

fun zero_run :: "nat \<Rightarrow> nat \<times> nat \<Rightarrow> nat \<times> nat \<Rightarrow> string list \<Rightarrow> nat \<times> nat" where
  "zero_run i best current [] = best"
| "zero_run i best current (h # hs) =
     (if h = ''0''
      then let current' = (if snd current = 0 then (i, 1) else (fst current, snd current + 1))
           in zero_run (Suc i) (if snd current' > snd best then current' else best) current' hs
      else zero_run (Suc i) best (0, 0) hs)"

definition compress_hextets :: "string list \<Rightarrow> string list" where
  "compress_hextets hs =
     (let (start, len) = zero_run 0 (0, 0) (0, 0) hs
      in if len > 1
         then (if start = 0 then [[]] else []) @ take start hs @ [[]] @ drop (start + len) hs
              @ (if start + len = length hs then [[]] else [])
         else hs)"

definition ipv6_int_str :: "128 word \<Rightarrow> string" where
  "ipv6_int_str x = join_with '':'' (compress_hextets (map (\<lambda>k. hex_str (hextet_at k x)) [7, 6, 5, 4, 3, 2, 1, 0]))"

text \<open>\<^verbatim>\<open>IPv6Address.compressed\<close>, which is \<^verbatim>\<open>str\<close>.\<close>

definition compressed6 :: "128 word \<Rightarrow> string" where
  "compressed6 x =
     (case ipv4_mapped x of
        Some v \<Rightarrow> ipv6_int_str (drop_bit 32 x) @ '':'' @ ipv4_str v
      | None \<Rightarrow> ipv6_int_str x)"

end
