(* ===== verification/Rate_Limits.thy ===== *)
theory Rate_Limits
  imports Net Auth
begin

text \<open>
  Who a request is counted for, and the limits: \<^verbatim>\<open>config/client_ip.py\<close> and
  \<^verbatim>\<open>config/throttling.py\<close>. The text form of addresses is that of \<^verbatim>\<open>ipaddress\<close>. A throttle
  keeps the times of the accepted requests of a bucket in the shared cache of Django, newest first;
  times are those of the wall clock. The lemmas compare the throttle with a reference that looks at
  all accepted requests, and show that a client cannot choose the address it is counted for.
\<close>

section \<open>Addresses of hops and networks\<close>

text \<open>An address of a hop is the address with its zone (empty when there is none).\<close>

type_synonym hop_ip = "ip \<times> string"

definition ip_str :: "hop_ip \<Rightarrow> string" where
  "ip_str a =
     (case a of
        (V4 x, _) \<Rightarrow> ipv4_str x
      | (V6 x, zone) \<Rightarrow>
          compressed6 x
          @ (if zone \<noteq> [] then CHR ''%'' # zone else []))"

definition hop_address :: "string \<Rightarrow> hop_ip option" where
  "hop_address s =
     (case ip_address s of
        None \<Rightarrow> None
      | Some (V4 x) \<Rightarrow> Some (V4 x, [])
      | Some (V6 x) \<Rightarrow> Some (V6 x, after_first CHR ''%'' s))"

text \<open>
  \<^verbatim>\<open>ip_network(entry, strict=False)\<close>: the address and the length of the prefix, which for IPv4 may be
  written as a netmask or a host mask.
\<close>

definition prefix_digits :: "nat \<Rightarrow> string \<Rightarrow> nat option" where
  "prefix_digits width s =
     (if s \<noteq> [] \<and> list_all is_digit s \<and> digits_val s \<le> width then Some (digits_val s) else None)"

definition mask_prefix :: "string \<Rightarrow> nat option" where
  "mask_prefix s =
     (case parse_ipv4 s of
        None \<Rightarrow> None
      | Some m \<Rightarrow>
          (case List.find (\<lambda>n. push_bit (32 - n) (mask n) = m) [0..<33] of
             Some n \<Rightarrow> Some n
           | None \<Rightarrow> List.find (\<lambda>n. mask (32 - n) = m) [0..<33]))"

definition ip_network :: "string \<Rightarrow> (ip \<times> nat) option" where
  "ip_network entry =
     (case split_on CHR ''/'' entry of
        [addr, len] \<Rightarrow>
          (case (parse_ipv4 addr, if prefix_digits 32 len \<noteq> None then prefix_digits 32 len else mask_prefix len) of
             (Some x, Some n) \<Rightarrow> Some (V4 x, n)
           | _ \<Rightarrow>
               (case (parse_ipv6 addr, prefix_digits 128 len) of
                  (Some x, Some n) \<Rightarrow> Some (V6 x, n)
                | _ \<Rightarrow> None))
      | _ \<Rightarrow> None)"

fun in_network :: "ip \<Rightarrow> ip \<times> nat \<Rightarrow> bool" where
  "in_network (V4 x) (V4 n, len) = in_net4 x (n, len)"
| "in_network (V6 x) (V6 n, len) = in_net6 x (n, len)"
| "in_network _ _ = False"

section \<open>config/client_ip.py\<close>

definition parse_ip_hop :: "string \<Rightarrow> hop_ip option" where
  "parse_ip_hop hop =
     (let raw = strip hop in
      if raw = [] then None
      else if startswith raw ''[''
      then (if CHR '']'' \<notin> set raw then None
            else hop_address (strip (before_first CHR '']'' (drop 1 raw))))
      else if count_list raw CHR '':'' = 1 \<and> CHR ''.'' \<in> set raw
      then hop_address (strip (before_first CHR '':'' raw))
      else hop_address raw)"

definition addr_for_trusted_match :: "hop_ip \<Rightarrow> hop_ip" where
  "addr_for_trusted_match a =
     (case a of
        (V6 x, _) \<Rightarrow> (case ipv4_mapped x of Some v \<Rightarrow> (V4 v, []) | None \<Rightarrow> a)
      | _ \<Rightarrow> a)"

definition trusted_entry :: "hop_ip \<Rightarrow> string \<Rightarrow> bool" where
  "trusted_entry addr raw =
     (let entry = strip raw in
      if entry = [] then False
      else if CHR ''/'' \<in> set entry
      then (case ip_network entry of None \<Rightarrow> False | Some net \<Rightarrow> in_network (fst addr) net)
      else hop_address entry = Some addr)"

definition ip_in_trusted_proxies :: "string \<Rightarrow> string list \<Rightarrow> bool" where
  "ip_in_trusted_proxies ip trusted =
     (case parse_ip_hop ip of
        None \<Rightarrow> False
      | Some parsed \<Rightarrow> list_ex (trusted_entry (addr_for_trusted_match parsed)) trusted)"

definition xff_hops :: "string \<Rightarrow> string list" where
  "xff_hops xff = filter (\<lambda>part. part \<noteq> []) (map strip (split_on CHR '','' xff))"

fun first_untrusted :: "string list \<Rightarrow> string list \<Rightarrow> string option" where
  "first_untrusted trusted [] = None"
| "first_untrusted trusted (hop # hops) =
     (case parse_ip_hop hop of
        None \<Rightarrow> first_untrusted trusted hops
      | Some parsed \<Rightarrow>
          if ip_in_trusted_proxies hop trusted then first_untrusted trusted hops else Some (ip_str parsed))"

definition client_ip_from_xff :: "string \<Rightarrow> string list \<Rightarrow> string option" where
  "client_ip_from_xff xff trusted = first_untrusted trusted (rev (xff_hops xff))"

definition client_ip_rate_limit_key :: "string option \<Rightarrow> string" where
  "client_ip_rate_limit_key ip =
     (case ip of
        None \<Rightarrow> ''unknown''
      | Some s \<Rightarrow>
          if strip s = [] then ''unknown''
          else (case hop_address (strip s) of
                  None \<Rightarrow> strip s
                | Some a \<Rightarrow>
                    (case addr_for_trusted_match a of
                       (V4 x, _) \<Rightarrow> ipv4_str x
                     | (V6 x, _) \<Rightarrow> ip_str (V6 (push_bit 64 (drop_bit 64 x)), []) @ ''/64'')))"

text \<open>\<open>remote\<close> and \<open>xff\<close> are the values of \<^verbatim>\<open>REMOTE_ADDR\<close> and \<^verbatim>\<open>HTTP_X_FORWARDED_FOR\<close>.\<close>

definition get_client_ip :: "string list \<Rightarrow> string option \<Rightarrow> string option \<Rightarrow> string option" where
  "get_client_ip trusted remote xff =
     (let remote_addr =
            (case remote of
               None \<Rightarrow> None
             | Some r \<Rightarrow> (case parse_ip_hop r of
                            Some parsed \<Rightarrow> Some (ip_str parsed)
                          | None \<Rightarrow> if strip r \<noteq> [] then Some (strip r) else None))
      in case remote_addr of
           None \<Rightarrow> None
         | Some addr \<Rightarrow>
             if trusted \<noteq> [] \<and> ip_in_trusted_proxies addr trusted
             then (case xff of
                     Some x \<Rightarrow>
                       if strip x \<noteq> []
                       then (case client_ip_from_xff (strip x) trusted of
                               Some i \<Rightarrow> Some i
                             | None \<Rightarrow> Some addr)
                       else Some addr
                   | None \<Rightarrow> Some addr)
             else Some addr)"

section \<open>config/throttling.py\<close>

record rate_limits =
  HOSTING_RATE_LIMIT_ENABLED :: bool
  HOSTING_RATE_LIMITS :: "string \<Rightarrow> (int \<times> int) option"

definition default_rate_limits :: rate_limits where
  "default_rate_limits =
     \<lparr> HOSTING_RATE_LIMIT_ENABLED = True,
       HOSTING_RATE_LIMITS = map_of [(''default'', (60, 60)), (''deploy'', (30, 60)), (''upload'', (20, 60)),
         (''destructive'', (10, 60)), (''access_request'', (10, 300))] \<rparr>"

definition limits_for_scope :: "rate_limits \<Rightarrow> string \<Rightarrow> int \<times> int" where
  "limits_for_scope rl scope = (case HOSTING_RATE_LIMITS rl scope of Some spec \<Rightarrow> spec | None \<Rightarrow> (60, 60))"

text \<open>\<open>who\<close> is the authenticated principal, \<open>scope\<close> the \<^verbatim>\<open>rate_limit_scope\<close> of the view.\<close>

definition get_cache_key ::
    "rate_limits \<Rightarrow> string option \<Rightarrow> principal option \<Rightarrow> string option \<Rightarrow> string option" where
  "get_cache_key rl scope who client_ip =
     (if \<not> HOSTING_RATE_LIMIT_ENABLED rl then None
      else case scope of
             None \<Rightarrow> None
           | Some s \<Rightarrow>
               if s = [] then None
               else let ident = (case who of
                                   Some p \<Rightarrow> ''user_'' @ int_str (pr_user_id p)
                                 | None \<Rightarrow> ''ip_'' @ client_ip_rate_limit_key client_ip)
                    in Some (''hosting_throttle_'' @ s @ ''_'' @ ident))"

text \<open>
  The cache of Django: an entry is gone once its time is over. \<^verbatim>\<open>throttle_success\<close> of the REST
  framework puts the time in front of the history and stores it for the duration.
\<close>

type_synonym throttle_cache = "string \<Rightarrow> (time \<times> time list) option"

definition cached_history :: "throttle_cache \<Rightarrow> time \<Rightarrow> string \<Rightarrow> time list" where
  "cached_history c now key =
     (case c key of Some (expires, history) \<Rightarrow> if now < expires then history else [] | None \<Rightarrow> [])"

definition drop_old :: "time \<Rightarrow> time list \<Rightarrow> time list" where
  "drop_old bound history = rev (dropWhile (\<lambda>t. t \<le> bound) (rev history))"

definition throttle_key :: "time \<Rightarrow> int \<Rightarrow> time \<Rightarrow> string \<Rightarrow> throttle_cache \<Rightarrow> bool \<times> throttle_cache" where
  "throttle_key now limit duration key c =
     (let history = drop_old (now - duration) (cached_history c now key)
      in if int (length history) \<ge> limit then (False, c)
         else (True, c(key \<mapsto> (now + duration, now # history))))"

definition allow_request ::
    "rate_limits \<Rightarrow> string option \<Rightarrow> principal option \<Rightarrow> string option \<Rightarrow> time \<Rightarrow> throttle_cache \<Rightarrow> bool \<times> throttle_cache" where
  "allow_request rl scope who client_ip now c =
     (if \<not> HOSTING_RATE_LIMIT_ENABLED rl then (True, c)
      else let (limit, window) = limits_for_scope rl (case scope of Some s \<Rightarrow> s | None \<Rightarrow> ''default'')
           in case get_cache_key rl scope who client_ip of
                None \<Rightarrow> (True, c)
              | Some key \<Rightarrow> throttle_key now limit (seconds window) key c)"

section \<open>The throttle is a sliding window\<close>

text \<open>Requests of several buckets in the order they arrive, each with its answer.\<close>

fun throttle_all :: "int \<Rightarrow> time \<Rightarrow> (string \<times> time) list \<Rightarrow> throttle_cache \<Rightarrow> bool list" where
  "throttle_all limit d [] c = []"
| "throttle_all limit d ((key, now) # rs) c =
     (let (ok, c1) = throttle_key now limit d key c in ok # throttle_all limit d rs c1)"

text \<open>
  The reference: a bucket remembers every request it accepted, and a request is accepted while fewer
  than \<open>limit\<close> of them are younger than \<open>d\<close>. The second result is what the buckets accepted.
\<close>

fun sliding :: "int \<Rightarrow> time \<Rightarrow> (string \<times> time) list \<Rightarrow> (string \<Rightarrow> time list) \<Rightarrow> bool list \<times> (string \<Rightarrow> time list)" where
  "sliding limit d [] acc = ([], acc)"
| "sliding limit d ((key, now) # rs) acc =
     (let ok = int (length (filter (\<lambda>t. now - d < t) (acc key))) < limit;
          (oks, acc1) = sliding limit d rs (if ok then acc(key := now # acc key) else acc)
      in (ok # oks, acc1))"

definition newest_first :: "time \<Rightarrow> time list \<Rightarrow> bool" where
  "newest_first now ts \<longleftrightarrow> sorted_wrt (\<ge>) ts \<and> (\<forall>t\<in>set ts. t \<le> now)"

definition bucket_ok :: "time \<Rightarrow> throttle_cache \<Rightarrow> (string \<Rightarrow> time list) \<Rightarrow> bool" where
  "bucket_ok d c acc \<longleftrightarrow> (\<forall>key. c key = (case acc key of [] \<Rightarrow> None
     | a # _ \<Rightarrow> Some (a + d, filter (\<lambda>t. a - d < t) (acc key))))"

lemma dropWhile_sorted: "sorted_wrt (\<le>) ts \<Longrightarrow> dropWhile (\<lambda>t. t \<le> (b::int)) ts = filter (\<lambda>t. b < t) ts"
proof (induction ts)
  case (Cons t ts)
  show ?case
  proof (cases "t \<le> b")
    case False
    then have "filter (\<lambda>t. b < t) ts = ts" using Cons.prems by (auto simp: filter_id_conv)
    then show ?thesis using False by simp
  qed (use Cons in simp)
qed simp

lemma drop_old_filter: "sorted_wrt (\<ge>) ts \<Longrightarrow> drop_old b ts = filter (\<lambda>t. b < t) ts"
  unfolding drop_old_def by (subst dropWhile_sorted) (simp_all add: sorted_wrt_rev rev_filter)

lemma effective_history:
  assumes "bucket_ok d c acc" "newest_first now (acc key)" "0 < d"
  shows "drop_old (now - d) (cached_history c now key) = filter (\<lambda>t. now - d < t) (acc key)"
proof (cases "acc key")
  case Nil
  then have "c key = None" using assms(1) by (simp add: bucket_ok_def)
  then show ?thesis using Nil by (simp add: cached_history_def drop_old_def)
next
  case (Cons a as)
  have c: "c key = Some (a + d, filter (\<lambda>t. a - d < t) (acc key))"
    using spec[OF assms(1)[unfolded bucket_ok_def], of key] Cons by simp
  have le: "\<forall>t\<in>set (acc key). t \<le> a" "a \<le> now" "sorted_wrt (\<ge>) (acc key)"
    using assms(2) Cons by (auto simp: newest_first_def)
  show ?thesis
  proof (cases "now < a + d")
    case True
    have "sorted_wrt (\<ge>) (filter (\<lambda>t. a - d < t) (acc key))" using le(3) by (rule sorted_wrt_filter)
    moreover have "filter (\<lambda>t. now - d < t) (filter (\<lambda>t. a - d < t) (acc key)) = filter (\<lambda>t. now - d < t) (acc key)"
      using le(2) by (auto intro: filter_cong)
    ultimately show ?thesis using True c by (simp add: cached_history_def drop_old_filter)
  next
    case False
    then have "filter (\<lambda>t. now - d < t) (acc key) = []" using le(1) by (auto simp: filter_empty_conv)
    then show ?thesis using False c by (simp add: cached_history_def drop_old_def)
  qed
qed

lemma throttle_step:
  assumes "bucket_ok d c acc" "newest_first now (acc key)" "0 < d"
  shows "\<exists>c1. throttle_key now limit d key c = (int (length (filter (\<lambda>t. now - d < t) (acc key))) < limit, c1)
    \<and> bucket_ok d c1 (if int (length (filter (\<lambda>t. now - d < t) (acc key))) < limit then acc(key := now # acc key) else acc)"
  using assms(1,3) by (auto simp: throttle_key_def effective_history[OF assms] bucket_ok_def split: list.split)

lemma throttle_all_sliding:
  assumes "sorted (map snd rs)" "\<forall>key. \<forall>r\<in>set rs. newest_first (snd r) (acc key)" "bucket_ok d c acc" "0 < d"
  shows "throttle_all limit d rs c = fst (sliding limit d rs acc)"
  using assms(1-3)
proof (induction rs arbitrary: c acc)
  case (Cons r rs)
  obtain key now where r: "r = (key, now)" by (cases r)
  let ?ok = "int (length (filter (\<lambda>t. now - d < t) (acc key))) < limit"
  let ?acc = "if ?ok then acc(key := now # acc key) else acc"
  have "newest_first now (acc key)" using Cons.prems(2) r by simp
  from throttle_step[OF Cons.prems(3) this assms(4)] obtain c1 where
    c1: "throttle_key now limit d key c = (?ok, c1)" "bucket_ok d c1 ?acc" by blast
  have "\<forall>key'. \<forall>s\<in>set rs. newest_first (snd s) (?acc key')"
    using Cons.prems(1,2) r by (auto simp: newest_first_def)
  then have "throttle_all limit d rs c1 = fst (sliding limit d rs ?acc)"
    using Cons.IH[OF _ _ c1(2)] Cons.prems(1) by simp
  then show ?case using c1(1) by (simp add: r case_prod_beta)
qed simp

lemma sliding_bound:
  assumes "sorted (map snd rs)" "\<forall>key. \<forall>r\<in>set rs. \<forall>t\<in>set (acc key). t \<le> snd r" "0 < d"
    and "\<forall>key T. int (length (filter (\<lambda>t. T - d < t \<and> t \<le> T) (acc key))) \<le> max 0 limit"
  shows "int (length (filter (\<lambda>t. T - d < t \<and> t \<le> T) (snd (sliding limit d rs acc) key))) \<le> max 0 limit"
  using assms(1,2,4)
proof (induction rs arbitrary: acc)
  case (Cons r rs)
  obtain k now where r: "r = (k, now)" by (cases r)
  let ?ok = "int (length (filter (\<lambda>t. now - d < t) (acc k))) < limit"
  let ?acc = "if ?ok then acc(k := now # acc k) else acc"
  have "int (length (filter (\<lambda>t. T - d < t \<and> t \<le> T) (?acc key))) \<le> max 0 limit" for T key
  proof (cases "?ok \<and> key = k \<and> T - d < now \<and> now \<le> T")
    case True
    have "length (filter (\<lambda>t. T - d < t \<and> t \<le> T) ts) \<le> length (filter (\<lambda>t. now - d < t) ts)" for ts
      using True by (induction ts) auto
    from this[of "acc k"] show ?thesis using True by auto
  next
    case False
    then show ?thesis using Cons.prems(3) by auto
  qed
  moreover have "\<forall>key. \<forall>s\<in>set rs. \<forall>t\<in>set (?acc key). t \<le> snd s" using Cons.prems(1,2) r by auto
  ultimately have "int (length (filter (\<lambda>t. T - d < t \<and> t \<le> T) (snd (sliding limit d rs ?acc) key))) \<le> max 0 limit"
    using Cons.IH[of ?acc] Cons.prems(1) by auto
  then show ?case by (simp add: r case_prod_beta Let_def)
qed simp

section \<open>Forwarded addresses\<close>

lemma split_on_app: "split_on c (a @ c # b) = split_on c a @ split_on c b"
  by (induction a) (auto split: list.split)

lemma split_on_tail: "c \<notin> set w \<Longrightarrow> split_on c (s @ w) = butlast (split_on c s) @ [last (split_on c s) @ w]"
proof (induction s)
  case Nil
  then show ?case by (simp add: split_on_word)
next
  case (Cons a s)
  obtain p ps where "split_on c s = p # ps" by (cases "split_on c s") auto
  then show ?case using Cons by (cases ps) auto
qed

lemma space_not_comma: "is_space c \<Longrightarrow> c \<noteq> CHR '',''"
  by (auto simp: is_space_def ch_def)

lemma strip_parts: "\<exists>w1 w2. x = w1 @ strip x @ w2 \<and> list_all is_space w1 \<and> list_all is_space w2"
proof -
  let ?y = "dropWhile is_space x"
  have "rev ?y = takeWhile is_space (rev ?y) @ dropWhile is_space (rev ?y)" by simp
  then have "?y = strip x @ rev (takeWhile is_space (rev ?y))"
    unfolding strip_def strip_by_def lstrip_by_def rstrip_by_def by (metis rev_append rev_rev_ident)
  moreover have "x = takeWhile is_space x @ ?y" by simp
  moreover have "list_all is_space (takeWhile is_space x)" "list_all is_space (rev (takeWhile is_space (rev ?y)))"
    by (auto simp: list_all_iff dest: set_takeWhileD)
  ultimately show ?thesis by metis
qed

lemma strip_lead: "is_space c \<Longrightarrow> strip (c # p) = strip p"
  using strip_surrounded[of "[c]" "[]" p] by simp

lemma hops_lead: "list_all is_space w \<Longrightarrow> map strip (split_on CHR '','' (w @ s)) = map strip (split_on CHR '','' s)"
proof (induction w)
  case (Cons c w)
  obtain p ps where "split_on CHR '','' (w @ s) = p # ps" by (cases "split_on CHR '','' (w @ s)") auto
  then show ?case using Cons space_not_comma[of c] by (simp add: strip_lead)
qed simp

lemma hops_trail:
  assumes "list_all is_space w"
  shows "map strip (split_on CHR '','' (s @ w)) = map strip (split_on CHR '','' s)"
proof -
  have "CHR '','' \<notin> set w" using assms space_not_comma by (auto simp: list_all_iff)
  then have "map strip (split_on CHR '','' (s @ w))
      = map strip (butlast (split_on CHR '','' s)) @ [strip (last (split_on CHR '','' s) @ w)]"
    by (simp add: split_on_tail)
  also have "\<dots> = map strip (butlast (split_on CHR '','' s) @ [last (split_on CHR '','' s)])"
    using strip_surrounded[of "[]" w] assms by (simp del: append_butlast_last_id)
  also have "butlast (split_on CHR '','' s) @ [last (split_on CHR '','' s)] = split_on CHR '','' s" by simp
  finally show ?thesis .
qed

lemma xff_hops_strip: "xff_hops (strip x) = xff_hops x"
proof -
  obtain w1 w2 where x: "x = w1 @ strip x @ w2" "list_all is_space w1" "list_all is_space w2"
    using strip_parts by blast
  have "map strip (split_on CHR '','' x) = map strip (split_on CHR '','' (strip x))"
    using hops_lead[OF x(2), of "strip x @ w2"] hops_trail[OF x(3), of "strip x"] x(1) by simp
  then show ?thesis by (simp add: xff_hops_def)
qed

lemma xff_hops_app: "xff_hops (a @ '','' @ b) = xff_hops a @ xff_hops b"
  using split_on_app[of "CHR '',''" a b] by (simp add: xff_hops_def)

lemma first_untrusted_app:
  "first_untrusted trusted (a @ b) = (case first_untrusted trusted a of Some i \<Rightarrow> Some i | None \<Rightarrow> first_untrusted trusted b)"
  by (induction a) (auto split: option.split)

lemma first_untrusted_Some:
  "first_untrusted trusted hops = Some i \<Longrightarrow>
   \<exists>hop\<in>set hops. \<exists>parsed. parse_ip_hop hop = Some parsed \<and> i = ip_str parsed \<and> \<not> ip_in_trusted_proxies hop trusted"
  by (induction hops) (auto split: option.splits if_splits)

lemma from_xff_forged:
  "client_ip_from_xff h trusted = Some i \<Longrightarrow> client_ip_from_xff (forged @ '','' @ h) trusted = Some i"
  by (simp only: client_ip_from_xff_def xff_hops_app rev_append first_untrusted_app option.case)

lemma from_xff_strip: "client_ip_from_xff (strip h) trusted = client_ip_from_xff h trusted"
  by (simp add: client_ip_from_xff_def xff_hops_strip)

lemma from_xff_ne: "client_ip_from_xff h trusted = Some i \<Longrightarrow> strip h \<noteq> []"
proof
  assume "client_ip_from_xff h trusted = Some i" "strip h = []"
  moreover have "xff_hops [] = []" by (simp add: xff_hops_def strip_def strip_by_def lstrip_by_def rstrip_by_def)
  ultimately show False using xff_hops_strip[of h] by (simp add: client_ip_from_xff_def)
qed

lemma forged_ne: "client_ip_from_xff h trusted = Some i \<Longrightarrow> strip (forged @ '','' @ h) \<noteq> []"
  by (rule from_xff_ne[OF from_xff_forged])

text \<open>C32. A client cannot choose the address it is counted for. When the connection does not come from a trusted proxy
  the forwarding header is ignored. When it does, and the part of the header that the proxies wrote names an
  untrusted address, that address is taken whatever the client put in front of it; an address taken from the
  header is never one of a trusted proxy.\<close>

theorem client_ip_not_forged:
  assumes "remote = Some r" "parse_ip_hop r = Some parsed"
  shows "(trusted = [] \<or> \<not> ip_in_trusted_proxies (ip_str parsed) trusted \<longrightarrow>
      get_client_ip trusted remote xff = Some (ip_str parsed))
    \<and> (trusted \<noteq> [] \<and> ip_in_trusted_proxies (ip_str parsed) trusted \<and> client_ip_from_xff h trusted = Some i \<longrightarrow>
      get_client_ip trusted remote (Some (forged @ '','' @ h)) = Some i
      \<and> get_client_ip trusted remote (Some h) = Some i
      \<and> (\<exists>hop\<in>set (xff_hops h). \<exists>p. parse_ip_hop hop = Some p \<and> i = ip_str p \<and> \<not> ip_in_trusted_proxies hop trusted))"
proof (intro conjI impI)
  assume "trusted = [] \<or> \<not> ip_in_trusted_proxies (ip_str parsed) trusted"
  then show "get_client_ip trusted remote xff = Some (ip_str parsed)"
    by (auto simp: get_client_ip_def assms)
next
  assume t: "trusted \<noteq> [] \<and> ip_in_trusted_proxies (ip_str parsed) trusted \<and> client_ip_from_xff h trusted = Some i"
  then have s: "client_ip_from_xff h trusted = Some i" by blast
  show "get_client_ip trusted remote (Some (forged @ '','' @ h)) = Some i"
    using t from_xff_forged[OF s] forged_ne[OF s] by (simp add: get_client_ip_def assms from_xff_strip)
  show "get_client_ip trusted remote (Some h) = Some i"
    using t from_xff_ne[OF s] by (simp add: get_client_ip_def assms from_xff_strip)
  show "\<exists>hop\<in>set (xff_hops h). \<exists>p. parse_ip_hop hop = Some p \<and> i = ip_str p \<and> \<not> ip_in_trusted_proxies hop trusted"
    using first_untrusted_Some s by (fastforce simp: client_ip_from_xff_def)
qed

theorem client_ip_not_forged_witness:
  "get_client_ip [''10.0.0.0/8''] (Some ''10.1.2.3'') (Some ''1.1.1.1,6.6.6.6, 203.0.113.7:4711, 10.9.9.9'') = Some ''203.0.113.7''"
proof -
  have f: "parse_ip_hop ''10.1.2.3'' = Some (V4 (quad4 10 1 2 3), [])" by code_simp
  have f2: "ip_str (V4 (quad4 10 1 2 3), []) = ''10.1.2.3''" by code_simp
  have f3: "ip_in_trusted_proxies ''10.1.2.3'' [''10.0.0.0/8'']" by code_simp
  have f4: "client_ip_from_xff ''6.6.6.6, 203.0.113.7:4711, 10.9.9.9'' [''10.0.0.0/8''] = Some ''203.0.113.7''"
    by code_simp
  have "''1.1.1.1,6.6.6.6, 203.0.113.7:4711, 10.9.9.9'' = ''1.1.1.1'' @ '','' @ ''6.6.6.6, 203.0.113.7:4711, 10.9.9.9''" by simp
  then show ?thesis
    using client_ip_not_forged[OF refl f, of "[''10.0.0.0/8'']" None "''6.6.6.6, 203.0.113.7:4711, 10.9.9.9''" "''203.0.113.7''" "''1.1.1.1''"]
    unfolding f2 using f3 f4 by (metis list.distinct(1))
qed

text \<open>C40. The throttle is an exact sliding window: for requests in the order of time, whatever the interleaving of the
  buckets, it accepts exactly the requests that find fewer than \<open>limit\<close> accepted requests of their own bucket
  within the window before them (what the cache has forgotten never matters); so no window of that length
  ever holds more than \<open>limit\<close> accepted requests of one bucket.\<close>

theorem throttle_sliding_window:
  assumes "sorted (map snd rs)" "0 < d"
  shows "throttle_all limit d rs (\<lambda>_. None) = fst (sliding limit d rs (\<lambda>_. []))
    \<and> int (length (filter (\<lambda>t. T - d < t \<and> t \<le> T) (snd (sliding limit d rs (\<lambda>_. [])) key))) \<le> max 0 limit"
  using throttle_all_sliding[OF assms(1) _ _ assms(2), of "\<lambda>_. []" "\<lambda>_. None" limit]
    sliding_bound[OF assms(1) _ assms(2), of "\<lambda>_. []" limit T key]
  by (simp add: newest_first_def bucket_ok_def)

theorem throttle_sliding_window_witness:
  "throttle_all 2 10 [(''a'', 0), (''a'', 1), (''b'', 2), (''a'', 3), (''a'', 11)] (\<lambda>_. None) = [True, True, True, False, True]"
proof -
  let ?rs = "[(''a'', 0), (''a'', 1), (''b'', 2), (''a'', 3), (''a'', 11 :: int)]"
  have s: "sorted (map snd ?rs)" by simp
  have "fst (sliding 2 10 ?rs (\<lambda>_. [])) = [True, True, True, False, True]" by code_simp
  then show ?thesis by (rule trans[OF conjunct1[OF throttle_sliding_window[OF s]], rotated]) simp
qed

end
