(* ===== verification/Identity_Auth.thy ===== *)
theory Identity_Auth
  imports Auth "HOL-Library.AList"
begin

text \<open>
  Authentication with the tokens of the identity service: \<^verbatim>\<open>apps/authapi/jwks_client.py\<close> and
  \<^verbatim>\<open>apps/authapi/authentication.py\<close>, after the deploy tokens of the theory before. The JWT
  library (the header of a token, the decoding with a key, the parsing of a JWK) and the HTTP answers
  of the identity service are arguments; what is logged and the wording of errors are left out.
\<close>

section \<open>jwks\_client.py\<close>

text \<open>
  The answer to one attempt to fetch the document: its entries, or the failure with the status of the
  response if there was one.
\<close>

datatype fetched = Fetched "dict list" | Fetch_Failed "nat option"

record jwks_client =
  jw_ttl :: time
  jw_retries :: nat
  jw_static :: "dict list option"
  jw_fetched_at :: time
  jw_keys :: "(string \<times> string) list"

definition is_retryable :: "nat option \<Rightarrow> bool" where
  "is_retryable st = (case st of None \<Rightarrow> True | Some s \<Rightarrow> s \<ge> 500 \<or> s \<in> {408, 429})"

text \<open>The keys of a document, by their id; \<open>parse_jwk\<close> is \<^verbatim>\<open>PyJWK.from_dict\<close>, None its exception.\<close>

definition kid_text :: "json option \<Rightarrow> string option" where
  "kid_text v = (case v of Some (JStr (c # s)) \<Rightarrow> Some (c # s) | Some (JInt i) \<Rightarrow> if i = 0 then None else Some (int_str i) | _ \<Rightarrow> None)"

fun document_keys :: "(dict \<Rightarrow> string option) \<Rightarrow> dict list \<Rightarrow> (string \<times> string) list \<Rightarrow> (string \<times> string) list" where
  "document_keys parse_jwk [] keys = keys"
| "document_keys parse_jwk (e # es) keys =
     (case parse_jwk e of
        None \<Rightarrow> document_keys parse_jwk es keys
      | Some jwk \<Rightarrow>
          let name = (case kid_text (dict_get e ''kid'') of
                        Some kid \<Rightarrow> kid
                      | None \<Rightarrow> ''_anon_'' @ nat_digits (length keys))
          in document_keys parse_jwk es (AList.update name jwk keys))"

definition apply_document :: "(dict \<Rightarrow> string option) \<Rightarrow> time \<Rightarrow> dict list \<Rightarrow> jwks_client \<Rightarrow> jwks_client" where
  "apply_document parse_jwk tick document c =
     c\<lparr>jw_keys := document_keys parse_jwk document [], jw_fetched_at := tick\<rparr>"

definition new_client :: "(dict \<Rightarrow> string option) \<Rightarrow> time \<Rightarrow> time \<Rightarrow> int \<Rightarrow> dict list option \<Rightarrow> jwks_client" where
  "new_client parse_jwk tick ttl retries static_document =
     (let c = \<lparr>jw_ttl = ttl, jw_retries = nat (max 0 retries), jw_static = static_document, jw_fetched_at = 0, jw_keys = []\<rparr>
      in case static_document of None \<Rightarrow> c | Some document \<Rightarrow> apply_document parse_jwk tick document c)"

definition clear_client :: "(dict \<Rightarrow> string option) \<Rightarrow> time \<Rightarrow> jwks_client \<Rightarrow> jwks_client" where
  "clear_client parse_jwk tick c =
     (case jw_static c of
        Some document \<Rightarrow> apply_document parse_jwk tick document c
      | None \<Rightarrow> c\<lparr>jw_fetched_at := 0, jw_keys := []\<rparr>)"

text \<open>
  \<open>fetch n\<close> is the answer to the \<open>n\<close>-th attempt. The result is the document, or None for the exception of the
  last attempt, and the number of attempts made.
\<close>

fun fetch_attempts :: "(nat \<Rightarrow> fetched) \<Rightarrow> nat \<Rightarrow> nat \<Rightarrow> dict list option \<times> nat" where
  "fetch_attempts fetch attempt 0 = (None, 0)"
| "fetch_attempts fetch attempt (Suc left) =
     (case fetch attempt of
        Fetched document \<Rightarrow> (Some document, 1)
      | Fetch_Failed st \<Rightarrow>
          if left > 0 \<and> is_retryable st
          then (let (r, n) = fetch_attempts fetch (attempt + 1) left in (r, n + 1))
          else (None, 1))"

definition fetch_document :: "(nat \<Rightarrow> fetched) \<Rightarrow> jwks_client \<Rightarrow> dict list option \<times> nat" where
  "fetch_document fetch c = fetch_attempts fetch 1 (jw_retries c + 1)"

text \<open>The boolean says whether \<^verbatim>\<open>_refresh\<close> returns (it raises when it has no key and the fetch fails).\<close>

definition refresh ::
    "(dict \<Rightarrow> string option) \<Rightarrow> (nat \<Rightarrow> fetched) \<Rightarrow> time \<Rightarrow> bool \<Rightarrow> jwks_client \<Rightarrow> bool \<times> jwks_client \<times> nat" where
  "refresh parse_jwk fetch tick force c =
     (case jw_static c of
        Some document \<Rightarrow> (True, if jw_keys c = [] then apply_document parse_jwk tick document c else c, 0)
      | None \<Rightarrow>
          if \<not> force \<and> jw_keys c \<noteq> [] \<and> tick - jw_fetched_at c < jw_ttl c then (True, c, 0)
          else (case fetch_document fetch c of
                  (Some document, n) \<Rightarrow> (True, apply_document parse_jwk tick document c, n)
                | (None, n) \<Rightarrow> (jw_keys c \<noteq> [], c, n)))"

datatype jwt_exn = Expired_Signature | Invalid_Token | Other_Error

text \<open>\<open>header\<close> is what \<^verbatim>\<open>jwt.get_unverified_header\<close> returns for the token, None its exception.\<close>

definition get_signing_key ::
    "(dict \<Rightarrow> string option) \<Rightarrow> (nat \<Rightarrow> fetched) \<Rightarrow> (nat \<Rightarrow> fetched) \<Rightarrow> time \<Rightarrow> dict option \<Rightarrow> jwks_client
      \<Rightarrow> (jwt_exn + string option) \<times> jwks_client \<times> nat" where
  "get_signing_key parse_jwk fetch1 fetch2 tick header c =
     (case header of
        None \<Rightarrow> (Inl Invalid_Token, c, 0)
      | Some h \<Rightarrow>
          let kid = (case dict_get h ''kid'' of Some (JStr s) \<Rightarrow> if s \<noteq> [] then Some s else None | _ \<Rightarrow> None)
          in case refresh parse_jwk fetch1 tick False c of
               (False, c1, n) \<Rightarrow> (Inl Other_Error, c1, n)
             | (True, c1, n) \<Rightarrow>
                 (case (case kid of None \<Rightarrow> None | Some k \<Rightarrow> map_of (jw_keys c1) k) of
                    Some key \<Rightarrow> (Inr (Some key), c1, n)
                  | None \<Rightarrow>
                      (case (case kid of None \<Rightarrow> (True, c1, 0) | Some k \<Rightarrow> refresh parse_jwk fetch2 tick True c1) of
                         (False, c2, m) \<Rightarrow> (Inl Other_Error, c2, n + m)
                       | (True, c2, m) \<Rightarrow>
                           (case (case kid of None \<Rightarrow> None | Some k \<Rightarrow> map_of (jw_keys c2) k) of
                              Some key \<Rightarrow> (Inr (Some key), c2, n + m)
                            | None \<Rightarrow> (if jw_keys c2 = [] then Inr None else Inl Invalid_Token, c2, n + m)))))"

section \<open>authentication.py\<close>

record auth_settings =
  au_DEBUG :: bool
  JWT_ALGORITHMS :: "string list"
  IDENTITY_AUDIENCE :: "string option"
  IDENTITY_ISSUER :: "string option"
  JWT_HS256_FALLBACK_SECRET :: "string option"
  ALLOW_JWT_HS256_FALLBACK :: bool

text \<open>What is asked of \<^verbatim>\<open>jwt.decode\<close> besides the key: the expiry is always required.\<close>

record decode_options =
  do_algorithms :: "string list"
  do_require_exp :: bool
  do_audience :: "string option"
  do_issuer :: "string option"

text \<open>The JWT library and the identity service, as a request sees them.\<close>

record jwt_env =
  jx_parse_jwk :: "dict \<Rightarrow> string option"
  jx_fetch1 :: "nat \<Rightarrow> fetched"
  jx_fetch2 :: "nat \<Rightarrow> fetched"
  jx_clock :: time
  jx_header :: "string \<Rightarrow> dict option"
  jx_decode :: "string \<Rightarrow> string \<Rightarrow> decode_options \<Rightarrow> jwt_exn + dict"

definition allow_hs256 :: "auth_settings \<Rightarrow> bool" where
  "allow_hs256 au = (JWT_HS256_FALLBACK_SECRET au \<notin> {None, Some []} \<and> (au_DEBUG au \<or> ALLOW_JWT_HS256_FALLBACK au))"

definition decode_options_for :: "auth_settings \<Rightarrow> string list \<Rightarrow> decode_options" where
  "decode_options_for au algorithms =
     \<lparr>do_algorithms = algorithms, do_require_exp = True,
      do_audience = (if IDENTITY_AUDIENCE au = Some [] then None else IDENTITY_AUDIENCE au),
      do_issuer = (if IDENTITY_ISSUER au = Some [] then None else IDENTITY_ISSUER au)\<rparr>"

definition decode_hs256 :: "jwt_env \<Rightarrow> auth_settings \<Rightarrow> string \<Rightarrow> exn + dict" where
  "decode_hs256 jx au raw =
     (case JWT_HS256_FALLBACK_SECRET au of
        None \<Rightarrow> Inl (Auth_Failed ''invalid_token'')
      | Some secret \<Rightarrow>
          if \<not> allow_hs256 au then Inl (Auth_Failed ''invalid_token'')
          else (case jx_decode jx raw secret (decode_options_for au [''HS256'']) of
                  Inr claims \<Rightarrow> Inr claims
                | Inl Expired_Signature \<Rightarrow> Inl (Auth_Failed ''token_expired'')
                | Inl Invalid_Token \<Rightarrow> Inl (Auth_Failed ''invalid_token'')
                | Inl Other_Error \<Rightarrow> Inl Runtime_Error))"

definition decode_token :: "jwt_env \<Rightarrow> auth_settings \<Rightarrow> string \<Rightarrow> jwks_client \<Rightarrow> (exn + dict) \<times> jwks_client" where
  "decode_token jx au raw c =
     (let (r, c1, n) = get_signing_key (jx_parse_jwk jx) (jx_fetch1 jx) (jx_fetch2 jx) (jx_clock jx) (jx_header jx raw) c;
          verified = (case r of
                        Inr (Some key) \<Rightarrow> map_res Some (jx_decode jx raw key (decode_options_for au (JWT_ALGORITHMS au)))
                      | Inr None \<Rightarrow> Inr None
                      | Inl e \<Rightarrow> Inl e)
      in (case verified of
            Inr (Some claims) \<Rightarrow> Inr claims
          | Inl Expired_Signature \<Rightarrow> Inl (Auth_Failed ''token_expired'')
          | _ \<Rightarrow> decode_hs256 jx au raw, c1))"

definition authenticate_credentials ::
    "jwt_env \<Rightarrow> auth_settings \<Rightarrow> string \<Rightarrow> jwks_client \<Rightarrow> (exn + principal) \<times> jwks_client" where
  "authenticate_credentials jx au raw c =
     (let (r, c1) = decode_token jx au raw c
      in (bind_res r (\<lambda>claims. case principal_from_claims claims of
            Inr p \<Rightarrow> Inr p | Inl e \<Rightarrow> Inl (Auth_Failed ''invalid_claims'')), c1))"

text \<open>Strict UTF-8, as \<^verbatim>\<open>bytes.decode('utf-8')\<close> takes it.\<close>

definition continuation :: "char \<Rightarrow> bool" where
  "continuation c \<longleftrightarrow> 128 \<le> ch c \<and> ch c \<le> 191"

fun utf8_valid :: "string \<Rightarrow> bool" where
  "utf8_valid [] = True"
| "utf8_valid (a # s) =
     (if ch a < 128 then utf8_valid s
      else (case s of
              [] \<Rightarrow> False
            | b # t \<Rightarrow>
                if 194 \<le> ch a \<and> ch a \<le> 223 then continuation b \<and> utf8_valid t
                else (case t of
                        [] \<Rightarrow> False
                      | d # u \<Rightarrow>
                          if 224 \<le> ch a \<and> ch a \<le> 239
                          then continuation b \<and> continuation d \<and> (ch a = 224 \<longrightarrow> 160 \<le> ch b)
                               \<and> (ch a = 237 \<longrightarrow> ch b \<le> 159) \<and> utf8_valid u
                          else (case u of
                                  [] \<Rightarrow> False
                                | e # v \<Rightarrow>
                                    240 \<le> ch a \<and> ch a \<le> 244 \<and> continuation b \<and> continuation d \<and> continuation e
                                    \<and> (ch a = 240 \<longrightarrow> 144 \<le> ch b) \<and> (ch a = 244 \<longrightarrow> ch b \<le> 143) \<and> utf8_valid v))))"

text \<open>
  \<open>Inr None\<close> is an anonymous request; the text beside the principal is \<^verbatim>\<open>request.auth\<close>. A header that is no
  UTF-8 raises \<^verbatim>\<open>UnicodeDecodeError\<close>, a \<^verbatim>\<open>ValueError\<close>.
\<close>

definition jwt_authenticate ::
    "jwt_env \<Rightarrow> auth_settings \<Rightarrow> string \<Rightarrow> jwks_client \<Rightarrow> (exn + (principal \<times> string) option) \<times> jwks_client" where
  "jwt_authenticate jx au header c =
     (if \<not> utf8_valid header then (Inl Value_Error, c)
      else if header = [] then (Inr None, c)
      else let credentials = (\<lambda>raw. let (r, c1) = authenticate_credentials jx au raw c in (map_res (\<lambda>p. Some (p, raw)) r, c1))
           in case words_of header of
                [] \<Rightarrow> (Inr None, c)
              | scheme # rest \<Rightarrow>
                  if scheme \<noteq> ''Bearer''
                  then (if rest = [] \<and> count_list scheme CHR ''.'' = 2 then credentials scheme else (Inr None, c))
                  else (case rest of
                          [raw] \<Rightarrow> credentials raw
                        | _ \<Rightarrow> (Inl (Auth_Failed ''invalid_header''), c)))"

text \<open>\<^verbatim>\<open>DEFAULT_AUTHENTICATION_CLASSES\<close>: the first scheme that answers decides.\<close>

definition authenticate_request ::
    "(string \<Rightarrow> string) \<Rightarrow> time \<Rightarrow> jwt_env \<Rightarrow> auth_settings \<Rightarrow> string \<Rightarrow> db \<Rightarrow> jwks_client
      \<Rightarrow> (exn + (principal \<times> string option) option) \<times> db \<times> jwks_client" where
  "authenticate_request hash_token now jx au header d c =
     (case deploy_token_authenticate hash_token now header d of
        (Inl e, d1) \<Rightarrow> (Inl e, d1, c)
      | (Inr (Some p), d1) \<Rightarrow> (Inr (Some (p, None)), d1, c)
      | (Inr None, d1) \<Rightarrow>
          (let (r, c1) = jwt_authenticate jx au header c
           in (map_res (map_option (\<lambda>(p, raw). (p, Some raw))) r, d1, c1)))"

declare utf8_valid.simps [simp del]

section \<open>Keys come from the documents\<close>

text \<open>
  The key that a document publishes under an id: of an entry with that id, or of an entry without id,
  which the client files under \<^verbatim>\<open>_anon_\<close> and a number.
\<close>

definition key_of_document :: "(dict \<Rightarrow> string option) \<Rightarrow> dict list \<Rightarrow> string \<Rightarrow> string \<Rightarrow> bool" where
  "key_of_document parse_jwk document kid key \<longleftrightarrow> (\<exists>e\<in>set document. parse_jwk e = Some key
     \<and> (case kid_text (dict_get e ''kid'') of Some k \<Rightarrow> kid = k | None \<Rightarrow> \<exists>n. kid = ''_anon_'' @ nat_digits n))"

lemma document_keys_from:
  "(k, key) \<in> set (document_keys parse_jwk es keys) \<Longrightarrow>
   (k, key) \<in> set keys \<or> key_of_document parse_jwk es k key"
proof (induction es arbitrary: keys)
  case (Cons e es)
  show ?case
  proof (cases "parse_jwk e")
    case None
    then show ?thesis using Cons by (auto simp: key_of_document_def)
  next
    case (Some jwk)
    have upd: "(k, key) \<in> set (AList.update n jwk keys) \<Longrightarrow> (k, key) \<in> set keys \<or> (k = n \<and> key = jwk)" for n
      by (induction keys) (auto split: if_splits)
    define n where "n = (case kid_text (dict_get e ''kid'') of Some kid \<Rightarrow> kid | None \<Rightarrow> ''_anon_'' @ nat_digits (length keys))"
    have "document_keys parse_jwk (e # es) keys = document_keys parse_jwk es (AList.update n jwk keys)"
      by (simp add: Some n_def)
    then have "(k, key) \<in> set (AList.update n jwk keys) \<or> key_of_document parse_jwk es k key"
      using Cons.IH Cons.prems by metis
    moreover have "key_of_document parse_jwk (e # es) n jwk"
      by (auto simp: key_of_document_def Some n_def split: option.split)
    moreover have "key_of_document parse_jwk es k key \<Longrightarrow> key_of_document parse_jwk (e # es) k key"
      by (auto simp: key_of_document_def)
    ultimately show ?thesis using upd by blast
  qed
qed simp

lemma map_of_document: "map_of (document_keys parse_jwk es []) k = Some key \<Longrightarrow> key_of_document parse_jwk es k key"
  using document_keys_from[of k key parse_jwk es "[]"] map_of_SomeD by fastforce

definition client_ok :: "(dict \<Rightarrow> string option) \<Rightarrow> dict list set \<Rightarrow> jwks_client \<Rightarrow> bool" where
  "client_ok parse_jwk docs c \<longleftrightarrow>
     (\<forall>k key. map_of (jw_keys c) k = Some key \<longrightarrow> (\<exists>document\<in>docs. key_of_document parse_jwk document k key))
     \<and> (\<forall>document. jw_static c = Some document \<longrightarrow> document \<in> docs)"

text \<open>The documents a request may load: in the static mode nothing is fetched.\<close>

definition documents :: "jwks_client \<Rightarrow> (nat \<Rightarrow> fetched) \<Rightarrow> (nat \<Rightarrow> fetched) \<Rightarrow> dict list set" where
  "documents c fetch1 fetch2 =
     (case jw_static c of Some document \<Rightarrow> {document}
      | None \<Rightarrow> {document. \<exists>n. fetch1 n = Fetched document \<or> fetch2 n = Fetched document})"

lemma fetch_attempts_from:
  "fetch_attempts fetch i m = (Some document, n) \<Longrightarrow> \<exists>j. fetch j = Fetched document"
  by (induction fetch i m arbitrary: n rule: fetch_attempts.induct) (auto split: fetched.splits if_splits prod.splits)

lemma fetch_attempts_bound: "fetch_attempts fetch i m = (r, n) \<Longrightarrow> n \<le> m"
  by (induction fetch i m arbitrary: r n rule: fetch_attempts.induct) (fastforce split: fetched.splits if_splits prod.splits)+

lemma refresh_facts:
  assumes "refresh parse_jwk fetch tick force c = (ok, c', n)" "client_ok parse_jwk docs c"
    and "jw_static c = None \<Longrightarrow> \<forall>j document. fetch j = Fetched document \<longrightarrow> document \<in> docs"
  shows "client_ok parse_jwk docs c'" "jw_static c' = jw_static c" "jw_retries c' = jw_retries c" "n \<le> jw_retries c + 1"
    "jw_static c \<noteq> None \<Longrightarrow> n = 0"
proof -
  have doc: "client_ok parse_jwk docs (apply_document parse_jwk t document c)" if "document \<in> docs" for t document
    using assms(2) that map_of_document by (fastforce simp: client_ok_def apply_document_def)
  have keep: "jw_static (apply_document parse_jwk t document c) = jw_static c"
    "jw_retries (apply_document parse_jwk t document c) = jw_retries c" for t document
    by (simp_all add: apply_document_def)
  show "jw_static c' = jw_static c" "jw_retries c' = jw_retries c" "jw_static c \<noteq> None \<Longrightarrow> n = 0"
    using assms(1) keep by (auto simp: refresh_def split: option.splits if_splits prod.splits)
  show "n \<le> jw_retries c + 1"
    using assms(1) fetch_attempts_bound
    by (fastforce simp: refresh_def fetch_document_def split: option.splits if_splits prod.splits)
  show "client_ok parse_jwk docs c'"
  proof (cases "jw_static c")
    case (Some document)
    then have "document \<in> docs" using assms(2) by (simp add: client_ok_def)
    then show ?thesis using assms(1,2) doc Some by (auto simp: refresh_def split: if_splits)
  next
    case None
    obtain got m where g: "fetch_document fetch c = (got, m)" by (cases "fetch_document fetch c")
    consider "c' = c" | document where "got = Some document" "c' = apply_document parse_jwk tick document c"
      using assms(1) None by (cases got) (auto simp: refresh_def g split: if_splits)
    then show ?thesis
    proof cases
      case 2
      have "\<exists>j. fetch j = Fetched document"
        by (rule fetch_attempts_from[OF g[unfolded fetch_document_def 2(1)]])
      then show ?thesis using assms(3)[OF None] doc 2(2) by blast
    qed (simp add: assms(2))
  qed
qed

lemma client_key: "client_ok parse_jwk docs c \<Longrightarrow> map_of (jw_keys c) k = Some key \<Longrightarrow>
  \<exists>document. document \<in> docs \<and> key_of_document parse_jwk document k key"
  unfolding client_ok_def by blast

lemma signing_key_facts:
  assumes "get_signing_key parse_jwk fetch1 fetch2 tick header c = (r, c', n)" "client_ok parse_jwk docs c"
    and "documents c fetch1 fetch2 \<subseteq> docs"
  shows "client_ok parse_jwk docs c'" "jw_static c' = jw_static c" "n \<le> 2 * (jw_retries c + 1)"
    and "jw_static c \<noteq> None \<Longrightarrow> n = 0"
    and "r = Inr (Some key) \<Longrightarrow> \<exists>h kid document. header = Some h \<and> dict_get h ''kid'' = Some (JStr kid) \<and> kid \<noteq> []
      \<and> document \<in> docs \<and> key_of_document parse_jwk document kid key"
proof -
  have f: "jw_static c = None \<Longrightarrow> \<forall>j document. fetch1 j = Fetched document \<longrightarrow> document \<in> docs"
    "jw_static c = None \<Longrightarrow> \<forall>j document. fetch2 j = Fetched document \<longrightarrow> document \<in> docs"
    using assms(3) by (auto simp: documents_def)
  obtain ok1 c1 n1 where r1: "refresh parse_jwk fetch1 tick False c = (ok1, c1, n1)" by (metis prod_cases3)
  note F1 = refresh_facts[OF r1 assms(2) f(1)]
  obtain ok2 c2 n2 where r2: "refresh parse_jwk fetch2 tick True c1 = (ok2, c2, n2)" by (metis prod_cases3)
  have "jw_static c1 = None \<Longrightarrow> \<forall>j document. fetch2 j = Fetched document \<longrightarrow> document \<in> docs" using f(2) F1(2) by simp
  note F2 = refresh_facts[OF r2 F1(1) this]
  note U = assms(1)[unfolded get_signing_key_def Let_def r1 r2]
  show "client_ok parse_jwk docs c'" "jw_static c' = jw_static c" "n \<le> 2 * (jw_retries c + 1)" "jw_static c \<noteq> None \<Longrightarrow> n = 0"
    using U F1 F2 assms(2) by (auto simp: r2 split: option.splits bool.splits json.splits if_splits)
  show "\<exists>h kid document. header = Some h \<and> dict_get h ''kid'' = Some (JStr kid) \<and> kid \<noteq> []
      \<and> document \<in> docs \<and> key_of_document parse_jwk document kid key" if "r = Inr (Some key)"
    using U that client_key[OF F1(1)] client_key[OF F2(1)]
    by (auto simp: r2 split: option.splits bool.splits json.splits if_splits)
qed

section \<open>Who is authenticated\<close>

lemma principal_from_claims_fields:
  "principal_from_claims claims = Inr p \<Longrightarrow> pr_deploy_token_id p = None \<and> pr_claims p = claims"
  by (auto simp: principal_from_claims_def Let_def res_simps split: option.splits if_splits)

lemma authenticate_credentials_Inr:
  assumes "authenticate_credentials jx au raw c = (Inr p, c')"
  obtains claims where "decode_token jx au raw c = (Inr claims, c')" "principal_from_claims claims = Inr p"
proof -
  obtain r c1 where d: "decode_token jx au raw c = (r, c1)" by (cases "decode_token jx au raw c")
  have "bind_res r (\<lambda>claims. case principal_from_claims claims of Inr p \<Rightarrow> Inr p | Inl e \<Rightarrow> Inl (Auth_Failed ''invalid_claims'')) = Inr p" "c1 = c'"
    using assms by (simp_all add: authenticate_credentials_def d)
  then obtain claims where "r = Inr claims" "principal_from_claims claims = Inr p"
    by (cases r) (auto split: sum.splits)
  then show thesis using that d \<open>c1 = c'\<close> by blast
qed

lemma jwt_authenticate_Inr:
  assumes "jwt_authenticate jx au header c = (Inr (Some (p, raw)), c')"
  shows "authenticate_credentials jx au raw c = (Inr p, c') \<and> raw \<in> set (words_of header)"
  using assms
  by (auto simp: jwt_authenticate_def Let_def case_prod_beta res_simps prod_eq_iff split: if_splits list.splits)

definition verified_claims :: "jwt_env \<Rightarrow> auth_settings \<Rightarrow> jwks_client \<Rightarrow> dict list set \<Rightarrow> string \<Rightarrow> dict \<Rightarrow> bool" where
  "verified_claims jx au c docs raw claims \<longleftrightarrow>
     (\<exists>h kid document key. jx_header jx raw = Some h \<and> dict_get h ''kid'' = Some (JStr kid) \<and> kid \<noteq> []
        \<and> document \<in> docs \<and> key_of_document (jx_parse_jwk jx) document kid key
        \<and> jx_decode jx raw key (decode_options_for au (JWT_ALGORITHMS au)) = Inr claims)
     \<or> (allow_hs256 au \<and> (\<exists>secret. JWT_HS256_FALLBACK_SECRET au = Some secret
        \<and> jx_decode jx raw secret (decode_options_for au [''HS256'']) = Inr claims))"

lemma decode_hs256_Inr:
  "decode_hs256 jx au raw = Inr claims \<Longrightarrow> allow_hs256 au \<and> (\<exists>secret. JWT_HS256_FALLBACK_SECRET au = Some secret
     \<and> jx_decode jx raw secret (decode_options_for au [''HS256'']) = Inr claims)"
  by (auto simp: decode_hs256_def split: option.splits if_splits sum.splits jwt_exn.splits)

lemma decode_token_Inr:
  assumes "decode_token jx au raw c = (Inr claims, c')" "client_ok (jx_parse_jwk jx) docs c"
    and "documents c (jx_fetch1 jx) (jx_fetch2 jx) \<subseteq> docs"
  shows "verified_claims jx au c docs raw claims \<and> client_ok (jx_parse_jwk jx) docs c' \<and> jw_static c' = jw_static c"
proof -
  obtain r c1 n where g: "get_signing_key (jx_parse_jwk jx) (jx_fetch1 jx) (jx_fetch2 jx) (jx_clock jx) (jx_header jx raw) c = (r, c1, n)"
    by (metis prod_cases3)
  note F = signing_key_facts[OF g assms(2,3)]
  have "c' = c1" using assms(1) by (simp add: decode_token_def g Let_def)
  moreover consider "decode_hs256 jx au raw = Inr claims"
    | key where "r = Inr (Some key)" "jx_decode jx raw key (decode_options_for au (JWT_ALGORITHMS au)) = Inr claims"
    using assms(1)
    by (auto simp: decode_token_def g Let_def res_simps split: sum.splits option.splits jwt_exn.splits)
  then have "verified_claims jx au c docs raw claims"
  proof cases
    case 1
    then show ?thesis using decode_hs256_Inr unfolding verified_claims_def by blast
  next
    case 2
    then show ?thesis using F(5)[OF 2(1)] unfolding verified_claims_def by blast
  qed
  ultimately show ?thesis using F(1,2) by simp
qed

text \<open>C27. Who a bearer token makes the caller. A principal of a JWT has the claims of a token that the JWT library
  decoded with the required expiry and the configured audience and issuer, either with the configured algorithms and
  the key that a document of the identity service publishes under the id the header names (an entry without id is
  published as \<^verbatim>\<open>_anon_\<close> and a number), or, only when the fallback is switched on, with HS256 and the fallback
  secret; it never counts as a deploy token. An unknown id is no reason to try another key. A principal without
  that is a deploy token. With a pinned document no request is ever sent, otherwise at most two times the
  retries plus one.\<close>

theorem principal_is_verified:
  assumes auth: "authenticate_request hash_token now jx au header d c = (Inr (Some (p, token)), d', c')"
    and ok: "client_ok (jx_parse_jwk jx) docs c" "documents c (jx_fetch1 jx) (jx_fetch2 jx) \<subseteq> docs"
  shows "(case token of
      None \<Rightarrow> deploy_token_authenticate hash_token now header d = (Inr (Some p), d') \<and> c' = c
    | Some raw \<Rightarrow> raw \<in> set (words_of header) \<and> pr_deploy_token_id p = None
        \<and> principal_from_claims (pr_claims p) = Inr p \<and> verified_claims jx au c docs raw (pr_claims p)
        \<and> client_ok (jx_parse_jwk jx) docs c' \<and> jw_static c' = jw_static c
        \<and> (\<forall>r c1 n. get_signing_key (jx_parse_jwk jx) (jx_fetch1 jx) (jx_fetch2 jx) (jx_clock jx) (jx_header jx raw) c = (r, c1, n) \<longrightarrow>
             n \<le> 2 * (jw_retries c + 1) \<and> (jw_static c \<noteq> None \<longrightarrow> n = 0)))"
proof (cases token)
  case None
  then show ?thesis
    using auth by (auto simp: authenticate_request_def res_simps map_option_case split: prod.splits sum.splits option.splits)
next
  case (Some raw)
  have j: "jwt_authenticate jx au header c = (Inr (Some (p, raw)), c')"
    using auth Some by (auto simp: authenticate_request_def res_simps map_option_case split: prod.splits sum.splits option.splits)
  note J = jwt_authenticate_Inr[OF j]
  obtain claims where cl: "decode_token jx au raw c = (Inr claims, c')" "principal_from_claims claims = Inr p"
    by (rule authenticate_credentials_Inr[OF conjunct1[OF J]])
  note P = principal_from_claims_fields[OF cl(2)]
  have "n \<le> 2 * (jw_retries c + 1) \<and> (jw_static c \<noteq> None \<longrightarrow> n = 0)"
    if "get_signing_key (jx_parse_jwk jx) (jx_fetch1 jx) (jx_fetch2 jx) (jx_clock jx) (jx_header jx raw) c = (r, c1, n)" for r c1 n
    using signing_key_facts(3,4)[OF that ok] by blast
  then show ?thesis using J P cl(2) decode_token_Inr[OF cl(1) ok] Some by simp
qed

definition demo_claims :: dict where
  "demo_claims = [(''sub'', JStr ''7''), (''company_id'', JInt 3)]"

lemma demo_principal: "\<exists>p. principal_from_claims demo_claims = Inr p \<and> pr_user_id p = 7"
proof -
  have "map_res pr_user_id (principal_from_claims demo_claims) = Inr 7" by code_simp
  then show ?thesis by (auto simp: res_simps)
qed

definition demo_jwt :: jwt_env where
  "demo_jwt = \<lparr>jx_parse_jwk = (\<lambda>e. case dict_get e ''n'' of Some (JStr k) \<Rightarrow> Some k | _ \<Rightarrow> None),
     jx_fetch1 = (\<lambda>_. Fetch_Failed None), jx_fetch2 = (\<lambda>_. Fetch_Failed None), jx_clock = 0,
     jx_header = (\<lambda>raw. if raw = ''a.b.c'' then Some [(''alg'', JStr ''RS256''), (''kid'', JStr ''k1'')] else None),
     jx_decode = (\<lambda>raw key opts. if key = ''key1'' \<and> do_algorithms opts = [''RS256'']
       then Inr demo_claims else Inl Invalid_Token)\<rparr>"

definition demo_auth :: auth_settings where
  "demo_auth = \<lparr>au_DEBUG = False, JWT_ALGORITHMS = [''RS256''], IDENTITY_AUDIENCE = Some ''hosting'',
     IDENTITY_ISSUER = Some ''identity'', JWT_HS256_FALLBACK_SECRET = None, ALLOW_JWT_HS256_FALLBACK = False\<rparr>"

definition demo_jwks :: "dict list" where
  "demo_jwks = [[(''kid'', JStr ''k1''), (''n'', JStr ''key1'')]]"

lemma demo_header:
  "jx_header demo_jwt ''a.b.c'' = Some [(''alg'', JStr ''RS256''), (''kid'', JStr ''k1'')]"
  "dict_get [(''alg'', JStr ''RS256''), (''kid'', JStr ''k1'')] ''kid'' = Some (JStr ''k1'')"
  by (simp_all add: demo_jwt_def dict_get_def)

theorem principal_is_verified_witness:
  "\<exists>p c'. authenticate_request (\<lambda>x. x) 0 demo_jwt demo_auth ''Bearer a.b.c'' empty_db
       (new_client (jx_parse_jwk demo_jwt) 0 900 2 (Some demo_jwks)) = (Inr (Some (p, Some ''a.b.c'')), empty_db, c')
     \<and> pr_user_id p = 7 \<and> pr_deploy_token_id p = None"
proof -
  let ?c = "new_client (jx_parse_jwk demo_jwt) 0 900 2 (Some demo_jwks)"
  have k: "jw_static ?c = Some demo_jwks" "jw_keys ?c = [(''k1'', ''key1'')]"
    by (simp_all add: new_client_def apply_document_def demo_jwks_def demo_jwt_def kid_text_def dict_get_def)
  have "key_of_document (jx_parse_jwk demo_jwt) demo_jwks ''k1'' ''key1''"
    by (simp add: key_of_document_def demo_jwks_def demo_jwt_def dict_get_def kid_text_def)
  then have ok: "client_ok (jx_parse_jwk demo_jwt) {demo_jwks} ?c" "documents ?c (jx_fetch1 demo_jwt) (jx_fetch2 demo_jwt) \<subseteq> {demo_jwks}"
    by (auto simp: client_ok_def k documents_def split: if_splits)
  have w: "words_of ''Bearer a.b.c'' = [''Bearer'', ''a.b.c'']" "utf8_valid ''Bearer a.b.c''" "\<not> startswith ''a.b.c'' TOKEN_PREFIX"
    by code_simp+
  have g: "get_signing_key (jx_parse_jwk demo_jwt) (jx_fetch1 demo_jwt) (jx_fetch2 demo_jwt) (jx_clock demo_jwt)
      (jx_header demo_jwt ''a.b.c'') ?c = (Inr (Some ''key1''), ?c, 0)"
    by (simp add: get_signing_key_def demo_header refresh_def k)
  have "jx_decode demo_jwt ''a.b.c'' ''key1'' (decode_options_for demo_auth (JWT_ALGORITHMS demo_auth)) = Inr demo_claims"
    by (simp add: demo_jwt_def demo_auth_def decode_options_for_def demo_claims_def)
  then have dt: "decode_token demo_jwt demo_auth ''a.b.c'' ?c = (Inr demo_claims, ?c)" by (simp add: decode_token_def g)
  obtain p where p: "principal_from_claims demo_claims = Inr p" "pr_user_id p = 7" using demo_principal by blast
  have "authenticate_credentials demo_jwt demo_auth ''a.b.c'' ?c = (Inr p, ?c)"
    by (simp add: authenticate_credentials_def dt p)
  then have "\<exists>p c'. authenticate_request (\<lambda>x. x) 0 demo_jwt demo_auth ''Bearer a.b.c'' empty_db ?c
      = (Inr (Some (p, Some ''a.b.c'')), empty_db, c') \<and> pr_user_id p = 7"
    using p(2)
    by (simp add: authenticate_request_def deploy_token_authenticate_def w jwt_authenticate_def)
  then obtain p c' where a: "authenticate_request (\<lambda>x. x) 0 demo_jwt demo_auth ''Bearer a.b.c'' empty_db ?c
      = (Inr (Some (p, Some ''a.b.c'')), empty_db, c')" "pr_user_id p = 7" by blast
  show ?thesis using principal_is_verified[OF a(1) ok] a by auto
qed

end
