(* ===== verification/Py_Sub.thy ===== *)
theory Py_Sub
  imports Py_Regex
begin

text \<open>
  The replacing half of Python's \<^verbatim>\<open>re\<close>: greedy backtracking matches with groups and
  word boundaries, and \<^verbatim>\<open>pattern.sub\<close>. A repetition is that of one character class, which is all the
  service uses; the matcher tries the longest repetition first and alternatives in order, and passes
  the rest of the text to a continuation, so that a later failure backtracks.
\<close>

datatype pat =
    Many "char \<Rightarrow> bool" nat "nat option"
  | Boundary
  | Empty
  | Seq pat pat
  | Or pat pat
  | Group nat pat

type_synonym groups = "(nat \<times> string) list"

fun first_some :: "('a \<Rightarrow> 'b option) \<Rightarrow> 'a list \<Rightarrow> 'b option" where
  "first_some f [] = None"
| "first_some f (x # xs) = (case f x of None \<Rightarrow> first_some f xs | Some y \<Rightarrow> Some y)"

definition is_word :: "char \<Rightarrow> bool" where
  "is_word c = (is_lower c \<or> is_upper c \<or> is_digit c \<or> c = CHR ''_'')"

definition word_boundary :: "char option \<Rightarrow> string \<Rightarrow> bool" where
  "word_boundary prev rest =
     ((case prev of None \<Rightarrow> False | Some c \<Rightarrow> is_word c) \<noteq> (case rest of [] \<Rightarrow> False | c # _ \<Rightarrow> is_word c))"

fun pmatch :: "pat \<Rightarrow> char option \<Rightarrow> string \<Rightarrow> groups
    \<Rightarrow> (char option \<Rightarrow> string \<Rightarrow> groups \<Rightarrow> 'a option) \<Rightarrow> 'a option" where
  "pmatch (Many p lo hi) prev s gs k =
     (let run = length (takeWhile p s); top = (case hi of None \<Rightarrow> run | Some n \<Rightarrow> min n run)
      in first_some (\<lambda>i. k (if i = 0 then prev else Some (s ! (i - 1))) (drop i s) gs) (rev [lo..<top + 1]))"
| "pmatch Boundary prev s gs k = (if word_boundary prev s then k prev s gs else None)"
| "pmatch Empty prev s gs k = k prev s gs"
| "pmatch (Seq p q) prev s gs k = pmatch p prev s gs (\<lambda>b r g. pmatch q b r g k)"
| "pmatch (Or p q) prev s gs k =
     (case pmatch p prev s gs k of None \<Rightarrow> pmatch q prev s gs k | Some x \<Rightarrow> Some x)"
| "pmatch (Group n p) prev s gs k =
     pmatch p prev s gs (\<lambda>b r g. k b r ((n, take (length s - length r) s) # g))"

text \<open>The patterns of the service match no empty text; an empty match is passed over.\<close>

function re_sub_from :: "pat \<Rightarrow> (groups \<Rightarrow> string) \<Rightarrow> char option \<Rightarrow> string \<Rightarrow> string" where
  "re_sub_from p repl prev s =
     (case pmatch p prev s [] (\<lambda>b r g. Some (b, r, g)) of
        Some (b, r, g) \<Rightarrow>
          if length r < length s then repl g @ re_sub_from p repl b r
          else (case s of [] \<Rightarrow> [] | c # cs \<Rightarrow> c # re_sub_from p repl (Some c) cs)
      | None \<Rightarrow> (case s of [] \<Rightarrow> [] | c # cs \<Rightarrow> c # re_sub_from p repl (Some c) cs))"
  by pat_completeness auto
termination by (relation "measure (\<lambda>(p, repl, prev, s). length s)") auto

declare re_sub_from.simps [simp del]

definition re_sub :: "pat \<Rightarrow> (groups \<Rightarrow> string) \<Rightarrow> string \<Rightarrow> string" where
  "re_sub p repl s = re_sub_from p repl None s"

definition group_text :: "nat \<Rightarrow> groups \<Rightarrow> string" where
  "group_text n gs = (case map_of gs n of None \<Rightarrow> [] | Some s \<Rightarrow> s)"

text \<open>Pattern constructors: a class once, a text, its case-insensitive form, the alternatives of a list.\<close>

definition Once :: "(char \<Rightarrow> bool) \<Rightarrow> pat" where
  "Once p = Many p 1 (Some 1)"

definition among :: "string \<Rightarrow> char \<Rightarrow> bool" where
  "among cs c = (c \<in> set cs)"

fun Text_Of :: "string \<Rightarrow> pat" where
  "Text_Of [] = Empty"
| "Text_Of (c # cs) = Seq (Once (\<lambda>d. d = c)) (Text_Of cs)"

fun Text_Nocase :: "string \<Rightarrow> pat" where
  "Text_Nocase [] = Empty"
| "Text_Nocase (c # cs) = Seq (Once (\<lambda>d. lower_char d = c)) (Text_Nocase cs)"

fun Seqs :: "pat list \<Rightarrow> pat" where
  "Seqs [] = Empty"
| "Seqs [p] = p"
| "Seqs (p # q # ps) = Seq p (Seqs (q # ps))"

fun Ors :: "pat list \<Rightarrow> pat" where
  "Ors [] = Empty"
| "Ors [p] = p"
| "Ors (p # q # ps) = Or p (Ors (q # ps))"

section \<open>Laws\<close>

lemma first_some_Some: "first_some f xs = Some y \<Longrightarrow> \<exists>x\<in>set xs. f x = Some y"
  by (induction xs) (auto split: option.splits)

text \<open>
  A match cuts the text: what is left over and what the groups captured are made of its characters.
\<close>

definition groups_all :: "(char \<Rightarrow> bool) \<Rightarrow> groups \<Rightarrow> bool" where
  "groups_all P gs = (\<forall>(n, t)\<in>set gs. list_all P t)"

lemma list_all_cut: "list_all P s \<Longrightarrow> list_all P (drop n s) \<and> list_all P (take n s)"
  by (auto simp: list_all_iff dest: in_set_dropD in_set_takeD)

lemma pmatch_cut:
  "pmatch p prev s gs k = Some x \<Longrightarrow> list_all P s \<Longrightarrow> groups_all P gs \<Longrightarrow>
   \<exists>b r g. k b r g = Some x \<and> list_all P r \<and> groups_all P g"
proof (induction p arbitrary: prev s gs k)
  case (Many p lo hi)
  show ?case using first_some_Some[OF Many(1)[simplified Let_def pmatch.simps]] Many(2,3) list_all_cut by blast
next
  case (Seq p q)
  have "\<exists>b r g. pmatch q b r g k = Some x \<and> list_all P r \<and> groups_all P g"
    by (rule Seq.IH(1)) (use Seq.prems in simp_all)
  then show ?case using Seq.IH(2) by blast
next
  case (Or p q)
  then show ?case by (cases "pmatch p prev s gs k") auto
next
  case (Group n p)
  have "\<exists>b r g. k b r ((n, take (length s - length r) s) # g) = Some x \<and> list_all P r \<and> groups_all P g"
    by (rule Group.IH) (use Group.prems in simp_all)
  then show ?case using list_all_cut[OF Group.prems(2)] by (fastforce simp: groups_all_def)
qed (auto split: if_splits)

lemma re_sub_from_all:
  assumes "\<And>g. groups_all P g \<Longrightarrow> list_all P (repl g)" and "list_all P s"
  shows "list_all P (re_sub_from p repl prev s)"
  using assms(2)
proof (induction "length s" arbitrary: s prev rule: less_induct)
  case less
  let ?m = "pmatch p prev s [] (\<lambda>b r g. Some (b, r, g))"
  have keep: "list_all P (case s of [] \<Rightarrow> [] | c # cs \<Rightarrow> c # re_sub_from p repl (Some c) cs)"
    using less by (cases s) auto
  show ?case
  proof (cases ?m)
    case None
    then show ?thesis using keep by (subst re_sub_from.simps) simp
  next
    case (Some a)
    obtain b r g where a: "a = (b, r, g)" by (cases a)
    have "list_all P r \<and> groups_all P g"
      using pmatch_cut[OF Some less(2)] a by (auto simp: groups_all_def)
    then show ?thesis using Some a keep less(1) assms(1) by (subst re_sub_from.simps) simp
  qed
qed

lemma re_sub_all:
  "(\<And>g. groups_all P g \<Longrightarrow> list_all P (repl g)) \<Longrightarrow> list_all P s \<Longrightarrow> list_all P (re_sub p repl s)"
  unfolding re_sub_def by (rule re_sub_from_all)

lemma group_all: "groups_all P g \<Longrightarrow> list_all P (group_text n g)"
  by (auto simp: group_text_def groups_all_def split: option.splits dest!: map_of_SomeD)

end
