(* ===== verification/Task_Lock.thy ===== *)
theory Task_Lock
  imports Auth
begin

text \<open>
  The lock of the scheduled tasks and the heartbeat of the scheduler: \<^verbatim>\<open>config/task_lock.py\<close>.
  Redis is a store whose entries expire, reached by every container; \<open>lock_store\<close> is the interface the
  code uses of it (\<^verbatim>\<open>SET key token NX EX ttl\<close> and the release script), and the workers that take,
  release and lose locks are the clients for which mutual exclusion is proved. Times are those of the server.
\<close>

section \<open>Redis\<close>

type_synonym redis = "string \<Rightarrow> (string \<times> time) option"

definition redis_get :: "time \<Rightarrow> string \<Rightarrow> redis \<Rightarrow> string option" where
  "redis_get now key r =
     (case r key of None \<Rightarrow> None | Some (v, expires) \<Rightarrow> if now < expires then Some v else None)"

definition redis_set :: "time \<Rightarrow> string \<Rightarrow> string \<Rightarrow> time \<Rightarrow> redis \<Rightarrow> redis" where
  "redis_set now key v ttl r = r(key \<mapsto> (v, now + ttl))"

definition redis_set_nx :: "time \<Rightarrow> string \<Rightarrow> string \<Rightarrow> time \<Rightarrow> redis \<Rightarrow> bool \<times> redis" where
  "redis_set_nx now key v ttl r =
     (if redis_get now key r = None then (True, redis_set now key v ttl r) else (False, r))"

section \<open>config/task\_lock.py\<close>

text \<open>\<^verbatim>\<open>_RELEASE_SCRIPT\<close>: delete the key when it still holds the token.\<close>

definition release_script :: "time \<Rightarrow> string \<Rightarrow> string \<Rightarrow> redis \<Rightarrow> redis" where
  "release_script now key token r = (if redis_get now key r = Some token then r(key := None) else r)"

definition lock_key :: "string \<Rightarrow> string \<Rightarrow> string" where
  "lock_key lock_prefix name = lock_prefix @ '':lock:'' @ name"

text \<open>
  The outcome of one call of the Redis client: an answer, no answer within \<^verbatim>\<open>socket_timeout\<close>
  (\<^verbatim>\<open>redis.TimeoutError\<close>), or another \<^verbatim>\<open>RedisError\<close> (refused, connection lost). The flag of a failed call
  says whether the server executed the command all the same.
\<close>

datatype redis_answer = Answered | Timed_Out bool | Call_Failed bool

definition applied :: "redis_answer \<Rightarrow> bool" where
  "applied a = (case a of Answered \<Rightarrow> True | Timed_Out b \<Rightarrow> b | Call_Failed b \<Rightarrow> b)"

definition call_error :: "redis_answer \<Rightarrow> exn" where
  "call_error a = (case a of Timed_Out b \<Rightarrow> Timeout_Error | _ \<Rightarrow> Redis_Error)"

text \<open>
  Entering and leaving \<^verbatim>\<open>task_lock\<close>: an error while taking the lock propagates, one while releasing it is
  logged only.
\<close>

definition lock_ttl :: "int \<Rightarrow> time" where
  "lock_ttl ttl = seconds (max 1 ttl)"

definition task_lock_enter ::
    "redis_answer \<Rightarrow> time \<Rightarrow> string \<Rightarrow> string \<Rightarrow> string \<Rightarrow> int \<Rightarrow> redis \<Rightarrow> (exn + bool) \<times> redis" where
  "task_lock_enter answer now lock_prefix name token ttl r =
     (case redis_set_nx now (lock_key lock_prefix name) token (lock_ttl ttl) r of
        (acquired, r1) \<Rightarrow>
          if answer = Answered then (Inr acquired, r1)
          else (Inl (call_error answer), if applied answer then r1 else r))"

definition task_lock_exit :: "redis_answer \<Rightarrow> time \<Rightarrow> string \<Rightarrow> string \<Rightarrow> string \<Rightarrow> bool \<Rightarrow> redis \<Rightarrow> redis" where
  "task_lock_exit answer now lock_prefix name token acquired r =
     (if acquired \<and> applied answer then release_script now (lock_key lock_prefix name) token r else r)"

text \<open>The heartbeat: the reading of the clock in milliseconds, written with three decimals.\<close>

definition BEAT_HEARTBEAT_TTL :: time where
  "BEAT_HEARTBEAT_TTL = seconds 86400"

definition beat_heartbeat_key :: "string \<Rightarrow> string" where
  "beat_heartbeat_key lock_prefix = lock_prefix @ '':beat:heartbeat''"

definition millis_str :: "nat \<Rightarrow> string" where
  "millis_str ms = nat_digits (ms div 1000) @ ''.''
     @ map (\<lambda>d. char_of (48 + ms div d mod 10)) [100, 10, 1]"

definition record_beat_heartbeat :: "redis_answer \<Rightarrow> time \<Rightarrow> string \<Rightarrow> nat \<Rightarrow> redis \<Rightarrow> redis" where
  "record_beat_heartbeat answer now lock_prefix ms r =
     (if applied answer then redis_set now (beat_heartbeat_key lock_prefix) (millis_str ms) BEAT_HEARTBEAT_TTL r else r)"

text \<open>\<^verbatim>\<open>float(raw)\<close> on the texts that are written.\<close>

definition read_beat_heartbeat :: "redis_answer \<Rightarrow> time \<Rightarrow> string \<Rightarrow> redis \<Rightarrow> exn + nat option" where
  "read_beat_heartbeat answer now lock_prefix r =
     (if answer \<noteq> Answered then Inl (call_error answer)
      else case redis_get now (beat_heartbeat_key lock_prefix) r of
             None \<Rightarrow> Inr None
           | Some raw \<Rightarrow>
               (let whole = before_first CHR ''.'' raw; rest = drop (length whole + 1) raw
                in if whole \<noteq> [] \<and> length rest = 3 \<and> list_all is_digit whole \<and> list_all is_digit rest
                   then Inr (Some (1000 * digits_val whole + digits_val rest)) else Inr None))"

section \<open>Mutual exclusion\<close>

locale lock_store =
  fixes get :: "time \<Rightarrow> string \<Rightarrow> 'r \<Rightarrow> string option"
    and set_nx :: "time \<Rightarrow> string \<Rightarrow> string \<Rightarrow> time \<Rightarrow> 'r \<Rightarrow> bool \<times> 'r"
    and release :: "time \<Rightarrow> string \<Rightarrow> string \<Rightarrow> 'r \<Rightarrow> 'r"
  assumes set_taken: "get now k r = Some v \<Longrightarrow> set_nx now k t ttl r = (False, r)"
    and set_free: "get now k r = None \<Longrightarrow> fst (set_nx now k t ttl r)"
    and get_set: "get now k r = None \<Longrightarrow> now \<le> u \<Longrightarrow>
      get u l (snd (set_nx now k t ttl r)) = (if l = k then if u < now + ttl then Some t else None else get u l r)"
    and get_release: "now \<le> u \<Longrightarrow>
      get u l (release now k t r) = (if l = k \<and> get now k r = Some t then None else get u l r)"
begin

text \<open>
  The holders of one key: the token and the time of the lock, from the moment it is taken until it is
  released or its worker dies. Every lock is for the same time.
\<close>

inductive lock_step :: "string \<Rightarrow> time \<Rightarrow> 'r \<times> time \<times> (string \<times> time) list \<Rightarrow> 'r \<times> time \<times> (string \<times> time) list \<Rightarrow> bool"
  for key ttl where
  take_lock: "t \<notin> fst ` set hs \<Longrightarrow> set_nx now key t ttl r = (True, r') \<Longrightarrow>
    lock_step key ttl (r, now, hs) (r', now, (t, now) # hs)"
| refused: "set_nx now key t ttl r = (False, r') \<Longrightarrow> lock_step key ttl (r, now, hs) (r', now, hs)"
| leave: "(t, t0) \<in> set hs \<Longrightarrow> lock_step key ttl (r, now, hs) (release now key t r, now, filter (\<lambda>h. fst h \<noteq> t) hs)"
| die: "lock_step key ttl (r, now, hs) (r, now, filter P hs)"
| wait: "now \<le> u \<Longrightarrow> lock_step key ttl (r, now, hs) (r, u, hs)"

inductive lock_reachable :: "string \<Rightarrow> time \<Rightarrow> 'r \<times> time \<times> (string \<times> time) list \<Rightarrow> bool" for key ttl where
  start: "lock_reachable key ttl (r, now, [])"
| step: "lock_reachable key ttl s \<Longrightarrow> lock_step key ttl s s' \<Longrightarrow> lock_reachable key ttl s'"

definition held :: "string \<Rightarrow> time \<Rightarrow> 'r \<times> time \<times> (string \<times> time) list \<Rightarrow> bool" where
  "held key ttl s = (case s of (r, now, hs) \<Rightarrow>
     distinct (map fst hs)
     \<and> (\<forall>(t, t0)\<in>set hs. t0 \<le> now \<and> (\<forall>u. now \<le> u \<and> u < t0 + ttl \<longrightarrow> get u key r = Some t)))"

lemma held_take:
  assumes "held key ttl (r, now, hs)" "t \<notin> fst ` set hs" "set_nx now key t ttl r = (True, r')"
  shows "held key ttl (r', now, (t, now) # hs)"
proof -
  have n: "get now key r = None" using set_taken[of now key r] assms(3) by (cases "get now key r") auto
  then have g: "get u key r' = (if u < now + ttl then Some t else None)" if "now \<le> u" for u
    using get_set[OF n that, of key t ttl] assms(3) by simp
  have "\<not> now < t0 + ttl" if "(t', t0) \<in> set hs" for t' t0
    using assms(1) that n by (fastforce simp: held_def)
  then show ?thesis using assms(1,2) g by (fastforce simp: held_def)
qed

lemma held_leave:
  assumes "held key ttl (r, now, hs)"
  shows "held key ttl (release now key t r, now, filter (\<lambda>h. fst h \<noteq> t) hs)"
proof -
  have "get u key (release now key t r) = Some t'"
    if "(t', t1) \<in> set hs" "t' \<noteq> t" "now \<le> u" "u < t1 + ttl" for t' t1 u
  proof -
    have "get now key r = Some t'" "get u key r = Some t'"
      using assms that by (fastforce simp: held_def)+
    then show ?thesis using get_release[OF that(3)] that(2) by simp
  qed
  then show ?thesis using assms by (auto simp: held_def distinct_map_filter)
qed

lemma held_step: "lock_step key ttl s s' \<Longrightarrow> held key ttl s \<Longrightarrow> held key ttl s'"
proof (induction rule: lock_step.induct)
  case take_lock
  then show ?case using held_take by blast
next
  case (refused now t r r' hs)
  have "r' = r"
    using set_taken[of now key r] set_free[of now key r t ttl] refused(1) by (cases "get now key r") auto
  then show ?case using refused by simp
next
  case leave
  then show ?case using held_leave by blast
qed (auto simp: held_def distinct_map_filter)

lemma held_reachable: "lock_reachable key ttl s \<Longrightarrow> held key ttl s"
proof (induction rule: lock_reachable.induct)
  case start
  then show ?case by (simp add: held_def)
next
  case step
  then show ?case using held_step by blast
qed

lemma exclusive:
  assumes "lock_reachable key ttl (r, now, hs)" "(t, t0) \<in> set hs" "(t', t1) \<in> set hs" "now < t0 + ttl" "now < t1 + ttl"
  shows "t = t' \<and> get now key r = Some t"
proof -
  have "get now key r = Some t" "get now key r = Some t'"
    using held_reachable[OF assms(1)] assms(2-5) by (fastforce simp: held_def)+
  then show ?thesis by simp
qed

end

interpretation redis: lock_store redis_get redis_set_nx release_script
  by unfold_locales (auto simp: redis_get_def redis_set_nx_def redis_set_def release_script_def split: option.splits)

end
