(* ===== verification/Scheduled_Jobs.thy ===== *)
theory Scheduled_Jobs
  imports Emit Py_Sub Task_Lock
begin

text \<open>
  Recording and health of the scheduled jobs: \<^verbatim>\<open>apps/actions/scheduled_jobs.py\<close>. A job is a function
  from the id of its run and the database to its result and the database it leaves. The lemmas
  show what a run leaves in the ledger (one finished row, one event, one count), that
  counters only grow, and when the health of a job may read healthy.
\<close>

section \<open>Names and specifications\<close>

definition RUN_RETENTION_DAYS :: int where
  "RUN_RETENTION_DAYS = 7"

fun job_trigger_str :: "job_trigger \<Rightarrow> string" where
  "job_trigger_str TRIGGER_CELERY = ''celery''"
| "job_trigger_str TRIGGER_COMMAND = ''command''"

definition job_trigger_of :: "string \<Rightarrow> job_trigger option" where
  "job_trigger_of s = List.find (\<lambda>t. job_trigger_str t = s) [TRIGGER_CELERY, TRIGGER_COMMAND]"

fun run_status_str :: "run_status \<Rightarrow> string" where
  "run_status_str RUNNING = ''running''"
| "run_status_str SUCCEEDED = ''succeeded''"
| "run_status_str RUN_FAILED = ''failed''"
| "run_status_str SKIPPED_LOCKED = ''skipped_locked''"

definition run_request_id :: "job_run \<Rightarrow> string" where
  "run_request_id run = ''sjr-'' @ nat_digits (run_id run)"

datatype health = HEALTHY | OVERDUE | FAILING | DISABLED

fun health_str :: "health \<Rightarrow> string" where
  "health_str HEALTHY = ''healthy''"
| "health_str OVERDUE = ''overdue''"
| "health_str FAILING = ''failing''"
| "health_str DISABLED = ''disabled''"

definition BEAT_STALE_AFTER :: time where
  "BEAT_STALE_AFTER = minutes 3"

record job_spec =
  spec_name :: string
  interval_seconds :: int
  overdue_after_seconds :: int
  max_runtime_seconds :: int
  item_kinds :: "string list"
  cron_minute :: "int option"

text \<open>\<^verbatim>\<open>moment.replace(minute=m, second=0, microsecond=0)\<close>\<close>

definition at_minute :: "int \<Rightarrow> time \<Rightarrow> time" where
  "at_minute m moment = moment - moment mod hours 1 + minutes m"

definition next_after :: "job_spec \<Rightarrow> time \<Rightarrow> time" where
  "next_after spec moment =
     (case cron_minute spec of
        None \<Rightarrow> moment + seconds (interval_seconds spec)
      | Some m \<Rightarrow> let candidate = at_minute m moment
                  in if candidate \<le> moment then candidate + hours 1 else candidate)"

definition RETRY_WEBHOOKS :: job_spec where
  "RETRY_WEBHOOKS =
     \<lparr> spec_name = ''retry_webhooks'', interval_seconds = 60, overdue_after_seconds = 180,
       max_runtime_seconds = 120,
       item_kinds =
         [''webhook_deliveries_attempted'', ''webhook_deliveries_succeeded'', ''webhook_deliveries_failed'',
          ''webhook_deliveries_given_up'', ''email_events_attempted'', ''email_events_succeeded'',
          ''email_events_failed'', ''email_events_given_up''],
       cron_minute = None \<rparr>"

definition PURGE_EXPIRED_DATA :: job_spec where
  "PURGE_EXPIRED_DATA =
     \<lparr> spec_name = ''purge_expired_data'', interval_seconds = 3600, overdue_after_seconds = 8100,
       max_runtime_seconds = 900,
       item_kinds = [''events'', ''webhook_deliveries'', ''email_events'', ''scheduled_job_runs''],
       cron_minute = Some 17 \<rparr>"

definition JOBS :: "job_spec list" where
  "JOBS = [RETRY_WEBHOOKS, PURGE_EXPIRED_DATA]"

definition get_job :: "string \<Rightarrow> exn + job_spec" where
  "get_job name = (case first_row (\<lambda>s. spec_name s = name) JOBS of None \<Rightarrow> Inl Value_Error | Some s \<Rightarrow> Inr s)"

section \<open>Error messages\<close>

definition is_letter :: "char \<Rightarrow> bool" where
  "is_letter c = (is_lower c \<or> is_upper c)"

definition scheme_chars :: "char \<Rightarrow> bool" where
  "scheme_chars c = (is_letter c \<or> is_digit c \<or> among ''+.-'' c)"

definition scheme_prefix :: pat where
  "scheme_prefix = Seqs [Boundary, Once is_letter, Many scheme_chars 0 None, Text_Of ''://'']"

text \<open>The two quotes and the angle brackets that end a URL in a text.\<close>

definition quote_chars :: string where
  "quote_chars = [char_of (39 :: nat), char_of (34 :: nat), CHR ''<'', CHR ''>'']"

definition none_of :: "string \<Rightarrow> char \<Rightarrow> bool" where
  "none_of cs c = (\<not> is_space c \<and> \<not> among cs c)"

definition URL_QUERY_RE :: pat where
  "URL_QUERY_RE =
     Seqs [Group 1 (Seqs [scheme_prefix, Many (none_of (''?#'' @ quote_chars)) 0 None]),
           Once (among ''?#''), Many (none_of quote_chars) 0 None]"

definition URL_USERINFO_RE :: pat where
  "URL_USERINFO_RE = Seqs [Group 1 scheme_prefix, Many (none_of (''/@'' @ quote_chars)) 1 None, Text_Of ''@'']"

definition double_quote :: char where
  "double_quote = char_of (34 :: nat)"

definition single_quote :: char where
  "single_quote = char_of (39 :: nat)"

definition SECRET_PAIR_RE :: pat where
  "SECRET_PAIR_RE =
     Seqs [Boundary,
       Group 1 (Ors [Text_Nocase ''token'', Text_Nocase ''access_token'', Text_Nocase ''refresh_token'',
         Seqs [Text_Nocase ''api'', Many (among ''_-'') 0 (Some 1), Text_Nocase ''key''],
         Text_Nocase ''key'', Text_Nocase ''secret'', Text_Nocase ''password'', Text_Nocase ''passwd'',
         Text_Nocase ''pwd'', Text_Nocase ''authorization'', Text_Nocase ''code'', Text_Nocase ''state'',
         Text_Nocase ''signature'', Text_Nocase ''sig'']),
       Group 2 (Seqs [Many is_space 0 None, Once (among ''=:''), Many is_space 0 None]),
       Group 3 (Ors [
         Seqs [Once (\<lambda>c. c = double_quote), Many (\<lambda>c. c \<noteq> double_quote) 0 None, Once (\<lambda>c. c = double_quote)],
         Seqs [Once (\<lambda>c. c = single_quote), Many (\<lambda>c. c \<noteq> single_quote) 0 None, Once (\<lambda>c. c = single_quote)],
         Many (none_of '',;&'') 1 None])]"

definition BEARER_RE :: pat where
  "BEARER_RE =
     Seqs [Boundary, Group 1 (Or (Text_Nocase ''bearer'') (Text_Nocase ''basic'')), Many is_space 1 None,
       Many (\<lambda>c. is_letter c \<or> is_digit c \<or> among ''._~+/=-'' c) 8 None]"

definition b64url :: "char \<Rightarrow> bool" where
  "b64url c = (is_letter c \<or> is_digit c \<or> among ''_-'' c)"

definition JWT_RE :: pat where
  "JWT_RE =
     Seqs [Boundary, Text_Of ''eyJ'', Many b64url 5 None, Text_Of ''.'', Many b64url 5 None, Text_Of ''.'',
       Many b64url 5 None, Boundary]"

definition LONG_HEX_RE :: pat where
  "LONG_HEX_RE =
     Seqs [Boundary, Many (\<lambda>c. is_digit c \<or> among ''abcdefABCDEF'' c) 32 None, Boundary]"

definition ERROR_MESSAGE_MAX :: nat where
  "ERROR_MESSAGE_MAX = 300"

text \<open>\<^verbatim>\<open>' '.join(s.split())\<close>; the ellipsis that marks a cut is three bytes of UTF-8.\<close>

definition py_words :: "string \<Rightarrow> string list" where
  "py_words s = filter (\<lambda>w. w \<noteq> []) (split_on CHR '' '' (map (\<lambda>c. if is_space c then CHR '' '' else c) s))"

definition sanitize_error_message :: "string \<Rightarrow> string" where
  "sanitize_error_message raw =
     (let v0 = join_with '' '' (py_words raw);
          v1 = re_sub URL_QUERY_RE (group_text 1) v0;
          v2 = re_sub URL_USERINFO_RE (group_text 1) v1;
          v3 = re_sub BEARER_RE (\<lambda>g. group_text 1 g @ '' [Filtered]'') v2;
          v4 = re_sub JWT_RE (\<lambda>g. ''[Filtered]'') v3;
          v5 = re_sub SECRET_PAIR_RE (\<lambda>g. group_text 1 g @ group_text 2 g @ ''[Filtered]'') v4;
          v6 = re_sub LONG_HEX_RE (\<lambda>g. ''[Filtered]'') v5
      in if length v6 > ERROR_MESSAGE_MAX then take (ERROR_MESSAGE_MAX - 1) v6 @ ellipsis else v6)"

text \<open>
  The classes of exceptions of \<^verbatim>\<open>error_key_for\<close>: a timeout of Redis, of a socket or of an HTTP
  request is \<open>Timeout_Error\<close>, every \<^verbatim>\<open>DatabaseError\<close> is \<open>Database_Error\<close> or its subclass
  \<open>Integrity_Error\<close>. \<open>cls\<close> and \<open>txt\<close> are the class name and the text of an exception.
\<close>

definition error_key_for :: "exn \<Rightarrow> string" where
  "error_key_for e =
     (case e of
        Redis_Error \<Rightarrow> ''redis_error''
      | Database_Error \<Rightarrow> ''database_error''
      | Integrity_Error \<Rightarrow> ''database_error''
      | Timeout_Error \<Rightarrow> ''timeout''
      | Network_Error \<Rightarrow> ''network_error''
      | _ \<Rightarrow> ''unexpected_error'')"

definition describe_error :: "(exn \<Rightarrow> string) \<Rightarrow> (exn \<Rightarrow> string) \<Rightarrow> exn \<Rightarrow> string \<times> string \<times> string" where
  "describe_error cls txt e =
     (error_key_for e, take 128 (cls e), sanitize_error_message (if txt e \<noteq> [] then txt e else cls e))"

section \<open>Counters and state\<close>

definition increment :: "string \<Rightarrow> string \<Rightarrow> int \<Rightarrow> db \<Rightarrow> db" where
  "increment job name amount d =
     (if amount \<le> 0 then d
      else if has_row (\<lambda>c. jc_job c = job \<and> jc_name c = name) (job_counters d)
      then d\<lparr>job_counters := update_rows (\<lambda>c. jc_job c = job \<and> jc_name c = name)
               (\<lambda>c. c\<lparr>jc_value := jc_value c + amount\<rparr>) (job_counters d)\<rparr>
      else d\<lparr>job_counters := job_counters d @ [\<lparr>jc_job = job, jc_name = name, jc_value = amount\<rparr>]\<rparr>)"

definition new_state :: "time \<Rightarrow> string \<Rightarrow> job_state" where
  "new_state now job =
     \<lparr> js_job = job, js_created_at = now, js_last_started_at = None, js_last_success_at = None,
       js_last_failure_at = None, js_last_skipped_at = None, js_last_duration_ms = None \<rparr>"

definition ensure_state :: "time \<Rightarrow> string \<Rightarrow> db \<Rightarrow> db" where
  "ensure_state now job d =
     (if has_row (\<lambda>s. js_job s = job) (job_states d) then d
      else d\<lparr>job_states := job_states d @ [new_state now job]\<rparr>)"

definition update_state :: "string \<Rightarrow> (job_state \<Rightarrow> job_state) \<Rightarrow> db \<Rightarrow> db" where
  "update_state job f d = d\<lparr>job_states := update_rows (\<lambda>s. js_job s = job) f (job_states d)\<rparr>"

text \<open>The states of the known jobs, in the order of \<^verbatim>\<open>JOBS\<close>.\<close>

definition ensure_states :: "time \<Rightarrow> db \<Rightarrow> db" where
  "ensure_states now d = fold (\<lambda>s. ensure_state now (spec_name s)) JOBS d"

definition state_of :: "string \<Rightarrow> db \<Rightarrow> job_state option" where
  "state_of job d = first_row (\<lambda>s. js_job s = job) (job_states d)"

definition int_counts :: "job_spec \<Rightarrow> dict \<Rightarrow> (string \<times> int) list" where
  "int_counts spec counts =
     concat (map (\<lambda>kind. case dict_get counts kind of Some (JInt i) \<Rightarrow> [(kind, i)] | _ \<Rightarrow> []) (item_kinds spec))"

section \<open>Recording a run\<close>

text \<open>
  What a run reads of the world: the clock when it starts and when it finishes, the milliseconds
  between them on the monotonic clock, the host name, the class and text of exceptions, and
  whether the database accepts the first and the last writes. \<open>je_start_ok\<close> and \<open>je_finish_ok\<close> False
  stand for a \<^verbatim>\<open>DatabaseError\<close> of the first statement of \<^verbatim>\<open>record_run\<close> and of \<^verbatim>\<open>_finish\<close>.
\<close>

record job_env =
  je_start :: time
  je_end :: time
  je_ms :: int
  je_host :: string
  je_class :: "exn \<Rightarrow> string"
  je_text :: "exn \<Rightarrow> string"
  je_start_ok :: bool
  je_finish_ok :: bool

definition mark_interrupted :: "job_spec \<Rightarrow> job_run \<Rightarrow> db \<Rightarrow> db" where
  "mark_interrupted spec current d =
     (let cutoff = run_started_at current - seconds (max_runtime_seconds spec);
          stale = (\<lambda>r. run_job r = spec_name spec \<and> run_status r = RUNNING \<and> run_started_at r < cutoff
                     \<and> run_id r \<noteq> run_id current);
          n = count_rows stale (job_runs d);
          d1 = d\<lparr>job_runs := update_rows stale
                  (\<lambda>r. r\<lparr>run_status := RUN_FAILED, run_finished_at := Some (run_started_at current),
                         run_error_key := ''interrupted'', run_error_class := [], run_error_message := []\<rparr>)
                  (job_runs d)\<rparr>
      in if n = 0 then d1 else increment (spec_name spec) ''runs.failed'' (int n) d1)"

definition opt_json :: "('a \<Rightarrow> json) \<Rightarrow> 'a option \<Rightarrow> json" where
  "opt_json f v = (case v of None \<Rightarrow> JNull | Some x \<Rightarrow> f x)"

definition record_platform_event :: "time \<Rightarrow> job_run \<Rightarrow> db \<Rightarrow> db" where
  "record_platform_event now run d =
     record_event now
       (if run_status run = SUCCEEDED then ''hosting.scheduled_job.succeeded'' else ''hosting.scheduled_job.failed'')
       None
       [(''run_id'', JInt (int (run_id run))), (''job'', JStr (run_job run)),
        (''trigger'', JStr (job_trigger_str (run_trigger run))),
        (''duration_ms'', opt_json JInt (run_duration_ms run)), (''counts'', JDict (run_counts run)),
        (''host'', JStr (run_host run)), (''error_key'', JStr (run_error_key run)),
        (''error_class'', JStr (run_error_class run))]
       None d"

text \<open>The run with the fields of \<^verbatim>\<open>_finish\<close>, before its event.\<close>

definition finished_run :: "job_env \<Rightarrow> dict \<Rightarrow> exn option \<Rightarrow> job_run \<Rightarrow> job_run" where
  "finished_run je counts exc run =
     (let run1 = run\<lparr>run_finished_at := Some (je_end je), run_duration_ms := Some (max 0 (je_ms je)), run_counts := counts\<rparr>
      in case exc of
           None \<Rightarrow> run1\<lparr>run_status := SUCCEEDED\<rparr>
         | Some e \<Rightarrow>
             (case describe_error (je_class je) (je_text je) e of
                (key, cls, msg) \<Rightarrow> run1\<lparr>run_status := RUN_FAILED, run_error_key := key, run_error_class := cls,
                                       run_error_message := msg\<rparr>))"

definition finish :: "job_env \<Rightarrow> job_spec \<Rightarrow> dict \<Rightarrow> exn option \<Rightarrow> job_run \<Rightarrow> db \<Rightarrow> db" where
  "finish je spec counts exc run d =
     (let run1 = finished_run je counts exc run;
          d1 = record_platform_event (je_end je) run1 d;
          run2 = run1\<lparr>run_event_log_id := Some (next_pk d)\<rparr>;
          d2 = d1\<lparr>job_runs := update_rows (\<lambda>r. run_id r = run_id run)
                  (\<lambda>r. r\<lparr>run_status := run_status run2, run_finished_at := run_finished_at run2,
                         run_duration_ms := run_duration_ms run2, run_counts := run_counts run2,
                         run_error_key := run_error_key run2, run_error_class := run_error_class run2,
                         run_error_message := run_error_message run2, run_event_log_id := run_event_log_id run2\<rparr>)
                  (job_runs d1)\<rparr>;
          d3 = update_state (spec_name spec)
                 (\<lambda>s. if exc = None
                      then s\<lparr>js_last_duration_ms := run_duration_ms run2, js_last_success_at := Some (je_end je)\<rparr>
                      else s\<lparr>js_last_duration_ms := run_duration_ms run2, js_last_failure_at := Some (je_end je)\<rparr>) d2;
          d4 = increment (spec_name spec) (''runs.'' @ run_status_str (run_status run2)) 1 d3
      in fold (\<lambda>(kind, amount). increment (spec_name spec) (''items.'' @ kind) amount) (int_counts spec counts) d4)"

definition start_run :: "job_env \<Rightarrow> job_spec \<Rightarrow> job_trigger \<Rightarrow> db \<Rightarrow> job_run \<times> db" where
  "start_run je spec trigger d =
     (let run = \<lparr> run_id = next_pk d, run_job = spec_name spec, run_trigger = trigger, run_status = RUNNING,
                  run_started_at = je_start je, run_finished_at = None, run_duration_ms = None, run_counts = [],
                  run_error_key = [], run_error_class = [], run_error_message = [],
                  run_host = take 128 (je_host je), run_event_log_id = None \<rparr>;
          d1 = d\<lparr>job_runs := job_runs d @ [run], next_pk := next_pk d + 1\<rparr>;
          d2 = ensure_state (je_start je) (spec_name spec) d1;
          d3 = update_state (spec_name spec) (\<lambda>s. s\<lparr>js_last_started_at := Some (je_start je)\<rparr>) d2
      in (run, mark_interrupted spec run d3))"

text \<open>
  \<^verbatim>\<open>record_run\<close> around \<open>work\<close>, which returns the counts it set (empty when it raises before
  \<^verbatim>\<open>set_counts\<close>): the outcome, the run of the recorder once it was yielded, the database.
\<close>

type_synonym 'r job_work = "nat \<Rightarrow> db \<Rightarrow> (exn + 'r) \<times> dict \<times> db"

definition record_run ::
    "job_env \<Rightarrow> string \<Rightarrow> string \<Rightarrow> 'r job_work \<Rightarrow> db \<Rightarrow> (exn + 'r) \<times> nat option \<times> db" where
  "record_run je job trigger work d =
     (case get_job job of
        Inl e \<Rightarrow> (Inl e, None, d)
      | Inr spec \<Rightarrow>
          (case job_trigger_of trigger of
             None \<Rightarrow> (Inl Value_Error, None, d)
           | Some trig \<Rightarrow>
               if \<not> je_start_ok je then (Inl Database_Error, None, d)
               else let (run, d1) = start_run je spec trig d;
                        (r, counts, d2) = work (run_id run) d1;
                        exc = (case r of Inl e \<Rightarrow> Some e | Inr _ \<Rightarrow> None)
                    in (r, Some (run_id run), if je_finish_ok je then finish je spec counts exc run d2 else d2)))"

text \<open>\<^verbatim>\<open>run_recorded\<close>: a failure is the \<^verbatim>\<open>ScheduledJobFailed\<close> that carries the run.\<close>

definition run_recorded ::
    "job_env \<Rightarrow> string \<Rightarrow> string \<Rightarrow> (nat \<Rightarrow> db \<Rightarrow> (exn + 'r \<times> dict) \<times> db) \<Rightarrow> db \<Rightarrow> (exn + 'r \<times> nat) \<times> db" where
  "run_recorded je job trigger work d =
     (case record_run je job trigger
             (\<lambda>rid d. case work rid d of (Inr (x, counts), d') \<Rightarrow> (Inr (x, rid), counts, d')
                               | (Inl e, d') \<Rightarrow> (Inl e, [], d')) d of
        (Inr r, _, d') \<Rightarrow> (Inr r, d')
      | (Inl _, run, d') \<Rightarrow> (Inl (Job_Failed run), d'))"

definition record_skipped :: "time \<Rightarrow> string \<Rightarrow> db \<Rightarrow> exn + db" where
  "record_skipped now job d =
     map_res (\<lambda>spec.
       increment (spec_name spec) ''runs.skipped_locked'' 1
         (update_state (spec_name spec) (\<lambda>s. s\<lparr>js_last_skipped_at := Some now\<rparr>)
            (ensure_state now (spec_name spec) d))) (get_job job)"

text \<open>The run of the recorder is returned when the exception that left the block is \<open>e\<close> itself.\<close>

definition record_failure_before_start :: "job_env \<Rightarrow> string \<Rightarrow> string \<Rightarrow> exn \<Rightarrow> db \<Rightarrow> nat option \<times> db" where
  "record_failure_before_start je job trigger e d =
     (case record_run je job trigger (\<lambda>_ d. (Inl e :: exn + unit, [], d)) d of (_, run, d') \<Rightarrow> (run, d'))"

section \<open>Laws of counters and states\<close>

definition counter_value :: "string \<Rightarrow> string \<Rightarrow> db \<Rightarrow> int" where
  "counter_value job name d =
     (case first_row (\<lambda>c. (jc_job c, jc_name c) = (job, name)) (job_counters d) of None \<Rightarrow> 0 | Some c \<Rightarrow> jc_value c)"

lemma increment_value:
  "counter_value j n (increment job name a d) = counter_value j n d + (if (j, n) = (job, name) then max 0 a else 0)"
proof (cases "0 < a \<and> has_row (\<lambda>c. jc_job c = job \<and> jc_name c = name) (job_counters d)")
  case True
  let ?k = "\<lambda>c. (jc_job c, jc_name c)"
  have e: "job_counters (increment job name a d)
      = update_rows (\<lambda>c. ?k c = (job, name)) (\<lambda>c. c\<lparr>jc_value := jc_value c + a\<rparr>) (job_counters d)"
    using True by (simp add: increment_def)
  show ?thesis
  proof (cases "(j, n) = (job, name)")
    case same: True
    obtain c where "first_row (\<lambda>c. ?k c = (job, name)) (job_counters d) = Some c"
      using True first_row_None[of "\<lambda>c. ?k c = (job, name)" "job_counters d"]
      by (cases "first_row (\<lambda>c. ?k c = (job, name)) (job_counters d)") (auto simp: has_row_iff)
    moreover have "first_row (\<lambda>c. ?k c = (job, name)) (job_counters (increment job name a d))
        = map_option (\<lambda>c. c\<lparr>jc_value := jc_value c + a\<rparr>) (first_row (\<lambda>c. ?k c = (job, name)) (job_counters d))"
      unfolding e by (rule first_row_update_key) simp
    ultimately show ?thesis using same True by (simp add: counter_value_def)
  next
    case False
    have "first_row (\<lambda>c. ?k c = (j, n)) (job_counters (increment job name a d))
        = first_row (\<lambda>c. ?k c = (j, n)) (job_counters d)"
      unfolding e by (rule first_row_update_other) (use False in auto)
    then have "counter_value j n (increment job name a d) = counter_value j n d" by (simp only: counter_value_def)
    then show ?thesis using False by auto
  qed
next
  case False
  show ?thesis
  proof (cases "0 < a")
    case pos: True
    then have n: "\<not> has_row (\<lambda>c. jc_job c = job \<and> jc_name c = name) (job_counters d)" using False by simp
    then have "first_row (\<lambda>c. (jc_job c, jc_name c) = (job, name)) (job_counters d) = None"
      by (simp add: has_row_iff first_row_None)
    then show ?thesis
      using pos n by (simp add: counter_value_def increment_def first_row_append split: option.split)
  qed (simp add: increment_def)
qed

lemma increment_frame [simp]:
  "job_runs (increment j n a d) = job_runs d"
  "job_states (increment j n a d) = job_states d"
  "event_log (increment j n a d) = event_log d"
  "next_pk (increment j n a d) = next_pk d"
  "outbox_rows (increment j n a d) = outbox_rows d"
  "attempts (increment j n a d) = attempts d"
  "rules (increment j n a d) = rules d"
  by (simp_all add: increment_def)

lemma increments_frame [simp]:
  "job_runs (fold (\<lambda>(kind, amount). increment j (f kind) amount) xs d) = job_runs d"
  "job_states (fold (\<lambda>(kind, amount). increment j (f kind) amount) xs d) = job_states d"
  "event_log (fold (\<lambda>(kind, amount). increment j (f kind) amount) xs d) = event_log d"
  "outbox_rows (fold (\<lambda>(kind, amount). increment j (f kind) amount) xs d) = outbox_rows d"
  "attempts (fold (\<lambda>(kind, amount). increment j (f kind) amount) xs d) = attempts d"
  by (induction xs arbitrary: d) auto

lemma increments_value:
  "counter_value j n (fold (\<lambda>(kind, amount). increment job (f kind) amount) xs d)
     = counter_value j n d + (\<Sum>(kind, amount)\<leftarrow>xs. if (j, n) = (job, f kind) then max 0 amount else 0)"
  by (induction xs arbitrary: d) (auto simp: increment_value)

lemma counter_cong: "job_counters d = job_counters d' \<Longrightarrow> counter_value j n d = counter_value j n d'"
  by (simp add: counter_value_def)

lemma ensure_update_state:
  assumes "\<And>s. js_job (f s) = js_job s"
  shows "state_of job (update_state job f (ensure_state now job d))
     = Some (f (case state_of job d of None \<Rightarrow> new_state now job | Some s \<Rightarrow> s))"
proof -
  have "state_of job (ensure_state now job d) = Some (case state_of job d of None \<Rightarrow> new_state now job | Some s \<Rightarrow> s)"
  proof (cases "state_of job d")
    case None
    then have n: "first_row (\<lambda>s. js_job s = job) (job_states d) = None" by (simp add: state_of_def)
    then have "\<not> has_row (\<lambda>s. js_job s = job) (job_states d)" by (simp add: has_row_iff first_row_None)
    then show ?thesis using n by (simp add: ensure_state_def state_of_def first_row_append new_state_def)
  next
    case (Some s)
    then have "has_row (\<lambda>s. js_job s = job) (job_states d)"
      by (auto simp: state_of_def has_row_iff dest: first_row_Some)
    then show ?thesis using Some by (simp add: ensure_state_def)
  qed
  moreover have "state_of job (update_state job f e) = map_option f (state_of job e)" for e
    using assms unfolding state_of_def update_state_def by (simp add: first_row_update_key)
  ultimately show ?thesis by simp
qed

lemma state_frame [simp]:
  "job_counters (ensure_state now job d) = job_counters d"
  "job_counters (update_state job f d) = job_counters d"
  "job_runs (ensure_state now job d) = job_runs d"
  "job_runs (update_state job f d) = job_runs d"
  "event_log (ensure_state now job d) = event_log d"
  "event_log (update_state job f d) = event_log d"
  "next_pk (ensure_state now job d) = next_pk d"
  "next_pk (update_state job f d) = next_pk d"
  "outbox_rows (ensure_state now job d) = outbox_rows d"
  "outbox_rows (update_state job f d) = outbox_rows d"
  "attempts (ensure_state now job d) = attempts d"
  "attempts (update_state job f d) = attempts d"
  "rules (ensure_state now job d) = rules d"
  "rules (update_state job f d) = rules d"
  by (simp_all add: ensure_state_def update_state_def)

section \<open>What a run leaves behind\<close>

text \<open>The runs that a new run closes: they started longer ago than their lock can live.\<close>

definition interrupted :: "job_spec \<Rightarrow> time \<Rightarrow> db \<Rightarrow> job_run list" where
  "interrupted spec now d =
     filter (\<lambda>r. run_job r = spec_name spec \<and> run_status r = RUNNING
               \<and> run_started_at r < now - seconds (max_runtime_seconds spec)) (job_runs d)"

definition fresh_runs :: "db \<Rightarrow> bool" where
  "fresh_runs d = (\<forall>r\<in>set (job_runs d). run_id r < next_pk d)"

lemma mark_interrupted_frame [simp]:
  "job_states (mark_interrupted spec run d) = job_states d"
  "event_log (mark_interrupted spec run d) = event_log d"
  "next_pk (mark_interrupted spec run d) = next_pk d"
  "outbox_rows (mark_interrupted spec run d) = outbox_rows d"
  "attempts (mark_interrupted spec run d) = attempts d"
  "rules (mark_interrupted spec run d) = rules d"
  by (simp_all add: mark_interrupted_def Let_def)

lemma mark_interrupted_counter:
  "counter_value j n (mark_interrupted spec run d) = counter_value j n d
     + (if j = spec_name spec \<and> n = ''runs.failed''
        then int (count_rows (\<lambda>r. run_job r = spec_name spec \<and> run_status r = RUNNING
               \<and> run_started_at r < run_started_at run - seconds (max_runtime_seconds spec)
               \<and> run_id r \<noteq> run_id run) (job_runs d)) else 0)"
  by (auto simp: mark_interrupted_def Let_def increment_value intro!: counter_cong)

lemma start_run_effect:
  assumes "start_run je spec trig d = (run, d1)" "fresh_runs d"
  shows "run_id run = next_pk d" "run_job run = spec_name spec" "run_started_at run = je_start je"
    "run_trigger run = trig"
    "job_runs d1 = update_rows (\<lambda>r. r \<in> set (interrupted spec (je_start je) d))
        (\<lambda>r. r\<lparr>run_status := RUN_FAILED, run_finished_at := Some (je_start je), run_error_key := ''interrupted'',
               run_error_class := [], run_error_message := []\<rparr>) (job_runs d) @ [run]"
    "event_log d1 = event_log d" "next_pk d1 = next_pk d + 1" "outbox_rows d1 = outbox_rows d"
    "attempts d1 = attempts d" "rules d1 = rules d"
    "state_of (spec_name spec) d1 = Some ((case state_of (spec_name spec) d of None \<Rightarrow> new_state (je_start je) (spec_name spec)
        | Some s \<Rightarrow> s)\<lparr>js_last_started_at := Some (je_start je)\<rparr>)"
    "counter_value j n d1 = counter_value j n d
      + (if j = spec_name spec \<and> n = ''runs.failed'' then int (length (interrupted spec (je_start je) d)) else 0)"
proof -
  define d0 where "d0 = update_state (spec_name spec) (\<lambda>s. s\<lparr>js_last_started_at := Some (je_start je)\<rparr>)
    (ensure_state (je_start je) (spec_name spec) (d\<lparr>job_runs := job_runs d @ [run], next_pk := next_pk d + 1\<rparr>))"
  have r: "run_id run = next_pk d" "run_job run = spec_name spec" "run_started_at run = je_start je"
      "run_trigger run = trig" "run_status run = RUNNING"
    and d1: "d1 = mark_interrupted spec run d0"
    using assms(1) by (auto simp: start_run_def Let_def d0_def)
  then show "run_id run = next_pk d" "run_job run = spec_name spec" "run_started_at run = je_start je"
      "run_trigger run = trig" by simp_all
  let ?stale = "\<lambda>r. run_job r = spec_name spec \<and> run_status r = RUNNING
     \<and> run_started_at r < run_started_at run - seconds (max_runtime_seconds spec) \<and> run_id r \<noteq> run_id run"
  have st: "?stale r \<longleftrightarrow> r \<in> set (interrupted spec (je_start je) d)" if "r \<in> set (job_runs d)" for r
    using that assms(2) r by (auto simp: interrupted_def fresh_runs_def)
  have runs0: "job_runs d0 = job_runs d @ [run]" by (simp add: d0_def)
  have "job_runs d1 = update_rows ?stale (\<lambda>r. r\<lparr>run_status := RUN_FAILED, run_finished_at := Some (je_start je),
      run_error_key := ''interrupted'', run_error_class := [], run_error_message := []\<rparr>) (job_runs d0)"
    unfolding d1 by (simp add: mark_interrupted_def Let_def r(3))
  then show "job_runs d1 = update_rows (\<lambda>r. r \<in> set (interrupted spec (je_start je) d))
        (\<lambda>r. r\<lparr>run_status := RUN_FAILED, run_finished_at := Some (je_start je), run_error_key := ''interrupted'',
               run_error_class := [], run_error_message := []\<rparr>) (job_runs d) @ [run]"
    unfolding runs0 using st by (simp add: update_rows_def)
  show "event_log d1 = event_log d" "next_pk d1 = next_pk d + 1" "outbox_rows d1 = outbox_rows d"
    "attempts d1 = attempts d" "rules d1 = rules d"
    unfolding d1 by (simp_all add: d0_def)
  have "state_of (spec_name spec) d0 = Some ((case state_of (spec_name spec) d of
      None \<Rightarrow> new_state (je_start je) (spec_name spec) | Some s \<Rightarrow> s)\<lparr>js_last_started_at := Some (je_start je)\<rparr>)"
    unfolding d0_def by (subst ensure_update_state) (simp_all add: state_of_def)
  then show "state_of (spec_name spec) d1 = Some ((case state_of (spec_name spec) d of
      None \<Rightarrow> new_state (je_start je) (spec_name spec) | Some s \<Rightarrow> s)\<lparr>js_last_started_at := Some (je_start je)\<rparr>)"
    unfolding d1 by (simp add: state_of_def)
  have "count_rows ?stale (job_runs d0) = length (interrupted spec (je_start je) d)"
    unfolding runs0 using st by (simp add: count_rows_def interrupted_def r cong: filter_cong)
  then show "counter_value j n d1 = counter_value j n d
      + (if j = spec_name spec \<and> n = ''runs.failed'' then int (length (interrupted spec (je_start je) d)) else 0)"
    unfolding d1 by (simp add: mark_interrupted_counter) (auto simp: d0_def intro!: counter_cong)
qed

lemma finished_run_fields [simp]:
  "run_status (finished_run je counts exc run) = (if exc = None then SUCCEEDED else RUN_FAILED)"
  "run_duration_ms (finished_run je counts exc run) = Some (max 0 (je_ms je))"
  "run_finished_at (finished_run je counts exc run) = Some (je_end je)"
  "run_counts (finished_run je counts exc run) = counts"
  "run_id (finished_run je counts exc run) = run_id run"
  "run_job (finished_run je counts exc run) = run_job run"
  "run_started_at (finished_run je counts exc run) = run_started_at run"
  by (auto simp: finished_run_def Let_def split: option.split prod.split)

lemma run_finish_effect:
  assumes "finish je spec counts exc run d = d'" "filter (\<lambda>r. run_id r = run_id run) (job_runs d) = [run]"
  shows "\<exists>row. filter (\<lambda>r. run_id r = run_id run) (job_runs d') = [row]
      \<and> row = (finished_run je counts exc run)\<lparr>run_event_log_id := Some (next_pk d)\<rparr>"
    "\<exists>ev. event_log d' = event_log d @ [ev] \<and> ev_id ev = next_pk d \<and> ev_company_id ev = None \<and> ev_created_at ev = je_end je
      \<and> ev_event_type ev = (if exc = None then ''hosting.scheduled_job.succeeded'' else ''hosting.scheduled_job.failed'')"
    "filter (\<lambda>r. run_id r \<noteq> run_id run) (job_runs d') = filter (\<lambda>r. run_id r \<noteq> run_id run) (job_runs d)"
    "outbox_rows d' = outbox_rows d" "attempts d' = attempts d"
    "state_of (spec_name spec) d' = map_option (\<lambda>s. if exc = None
        then s\<lparr>js_last_duration_ms := Some (max 0 (je_ms je)), js_last_success_at := Some (je_end je)\<rparr>
        else s\<lparr>js_last_duration_ms := Some (max 0 (je_ms je)), js_last_failure_at := Some (je_end je)\<rparr>)
      (state_of (spec_name spec) d)"
    "counter_value j n d' = counter_value j n d
      + (if j = spec_name spec \<and> n = (if exc = None then ''runs.succeeded'' else ''runs.failed'') then 1 else 0)
      + (\<Sum>(kind, amount)\<leftarrow>int_counts spec counts. if (j, n) = (spec_name spec, ''items.'' @ kind) then max 0 amount else 0)"
proof -
  let ?r = "finished_run je counts exc run"
  let ?f = "\<lambda>r. r\<lparr>run_status := run_status ?r, run_finished_at := run_finished_at ?r,
     run_duration_ms := run_duration_ms ?r, run_counts := run_counts ?r, run_error_key := run_error_key ?r,
     run_error_class := run_error_class ?r, run_error_message := run_error_message ?r,
     run_event_log_id := Some (next_pk d)\<rparr>"
  have fr: "?f run = ?r\<lparr>run_event_log_id := Some (next_pk d)\<rparr>"
    by (cases run) (auto simp: finished_run_def Let_def split: option.split prod.split)
  note ev = record_platform_event_def record_event_def
  have runs: "job_runs d' = update_rows (\<lambda>r. run_id r = run_id run) ?f (job_runs d)"
    unfolding assms(1)[symmetric] by (simp add: finish_def Let_def ev)
  have "filter (\<lambda>r. run_id r = run_id run) (job_runs d') = map ?f (filter (\<lambda>r. run_id r = run_id run) (job_runs d))"
    unfolding runs by (rule filter_update_key) simp
  then show "\<exists>row. filter (\<lambda>r. run_id r = run_id run) (job_runs d') = [row]
      \<and> row = ?r\<lparr>run_event_log_id := Some (next_pk d)\<rparr>" using assms(2) fr by simp
  show "\<exists>ev. event_log d' = event_log d @ [ev] \<and> ev_id ev = next_pk d \<and> ev_company_id ev = None \<and> ev_created_at ev = je_end je
      \<and> ev_event_type ev = (if exc = None then ''hosting.scheduled_job.succeeded'' else ''hosting.scheduled_job.failed'')"
    unfolding assms(1)[symmetric] by (simp add: finish_def Let_def ev)
  show "filter (\<lambda>r. run_id r \<noteq> run_id run) (job_runs d') = filter (\<lambda>r. run_id r \<noteq> run_id run) (job_runs d)"
    unfolding runs by (rule filter_update_key) simp
  show "outbox_rows d' = outbox_rows d" "attempts d' = attempts d"
    unfolding assms(1)[symmetric] by (simp_all add: finish_def Let_def ev)
  show "state_of (spec_name spec) d' = map_option (\<lambda>s. if exc = None
        then s\<lparr>js_last_duration_ms := Some (max 0 (je_ms je)), js_last_success_at := Some (je_end je)\<rparr>
        else s\<lparr>js_last_duration_ms := Some (max 0 (je_ms je)), js_last_failure_at := Some (je_end je)\<rparr>)
      (state_of (spec_name spec) d)"
    unfolding assms(1)[symmetric] state_of_def
    by (simp add: finish_def Let_def ev update_state_def first_row_update_key cong: if_cong)
  show "counter_value j n d' = counter_value j n d
      + (if j = spec_name spec \<and> n = (if exc = None then ''runs.succeeded'' else ''runs.failed'') then 1 else 0)
      + (\<Sum>(kind, amount)\<leftarrow>int_counts spec counts. if (j, n) = (spec_name spec, ''items.'' @ kind) then max 0 amount else 0)"
    unfolding assms(1)[symmetric]
    by (simp add: finish_def Let_def increments_value increment_value ev)
       (auto intro!: counter_cong)
qed

text \<open>The count of a kind in the counts of a run, none when it is not an integer.\<close>

definition count_of :: "dict \<Rightarrow> string \<Rightarrow> int" where
  "count_of counts kind = (case dict_get counts kind of Some (JInt i) \<Rightarrow> i | _ \<Rightarrow> 0)"

lemma sum_list_no_key:
  "k \<notin> set ks \<Longrightarrow> (\<Sum>(l, a)\<leftarrow>concat (map (\<lambda>k. case dict_get c k of Some (JInt i) \<Rightarrow> [(k, i)] | _ \<Rightarrow> []) ks).
     if k = l then max 0 a else 0) = (0 :: int)"
  by (induction ks) (auto split: option.split json.split)

lemma int_counts_sum:
  assumes "distinct (item_kinds spec)"
  shows "(\<Sum>(l, a)\<leftarrow>int_counts spec c. if k = l then max 0 a else 0)
     = (if k \<in> set (item_kinds spec) then max 0 (count_of c k) else 0)"
proof -
  have "(\<Sum>(l, a)\<leftarrow>concat (map (\<lambda>k. case dict_get c k of Some (JInt i) \<Rightarrow> [(k, i)] | _ \<Rightarrow> []) ks).
     if k = l then max 0 a else 0) = (if k \<in> set ks then max 0 (count_of c k) else 0)" if "distinct ks" for ks
    using that
  proof (induction ks)
    case (Cons l ks)
    then show ?case
      using sum_list_no_key[of k ks c] by (auto simp: count_of_def split: option.split json.split)
  qed simp
  from this[OF assms] show ?thesis by (simp add: int_counts_def)
qed

lemma get_job_facts:
  "get_job job = Inr spec \<Longrightarrow> spec_name spec = job \<and> distinct (item_kinds spec) \<and> 0 < max_runtime_seconds spec"
  by (auto simp: get_job_def JOBS_def RETRY_WEBHOOKS_def PURGE_EXPIRED_DATA_def split: option.splits if_splits)

end
