(* ===== verification/Job_Health.thy ===== *)
theory Job_Health
  imports Scheduled_Jobs "HOL-Library.Product_Lexorder"
begin

text \<open>
  The ledger that a recorded run leaves and the health that is read from it: the second half of
  \<^verbatim>\<open>apps/actions/scheduled_jobs.py\<close> and the staff views of \<^verbatim>\<open>scheduled_job_views.py\<close>.
\<close>

section \<open>The ledger of a run\<close>

definition counts_of :: "exn + 'r \<times> dict \<Rightarrow> dict" where
  "counts_of r = (case r of Inr (x, counts) \<Rightarrow> counts | Inl _ \<Rightarrow> [])"

lemma run_recorded_finish:
  assumes "get_job job = Inr spec" "job_trigger_of trigger = Some trig" "je_start_ok je" "je_finish_ok je"
    and "start_run je spec trig d = (run, d1)" "work (run_id run) d1 = (r, d2)"
  shows "run_recorded je job trigger work d =
     (case r of Inr (x, counts) \<Rightarrow> Inr (x, run_id run) | Inl e \<Rightarrow> Inl (Job_Failed (Some (run_id run))),
      finish je spec (counts_of r) (case r of Inl e \<Rightarrow> Some e | Inr _ \<Rightarrow> None) run d2)"
  using assms by (auto simp: run_recorded_def record_run_def counts_of_def split: sum.split)

lemma run_ledger:
  assumes "get_job job = Inr spec" "job_trigger_of trigger = Some trig" "je_start_ok je" "je_finish_ok je"
    and "fresh_runs d" "start_run je spec trig d = (run, d1)" "work (run_id run) d1 = (r, d2)"
    and "job_counters d2 = job_counters d1"
    and "filter (\<lambda>r. run_id r = run_id run) (job_runs d2) = filter (\<lambda>r. run_id r = run_id run) (job_runs d1)"
    and "run_recorded je job trigger work d = (res, d')"
  shows "res = (case r of Inr (x, counts) \<Rightarrow> Inr (x, next_pk d) | Inl e \<Rightarrow> Inl (Job_Failed (Some (next_pk d))))
     \<and> (\<exists>row ev. filter (\<lambda>r. run_id r = next_pk d) (job_runs d') = [row] \<and> event_log d' = event_log d2 @ [ev]
          \<and> run_event_log_id row = Some (ev_id ev) \<and> run_job row = job \<and> run_finished_at row = Some (je_end je)
          \<and> run_status row = (if isl r then RUN_FAILED else SUCCEEDED) \<and> run_counts row = counts_of r
          \<and> ev_event_type ev = ''hosting.scheduled_job.'' @ run_status_str (run_status row))
     \<and> counter_value job ''runs.succeeded'' d' = counter_value job ''runs.succeeded'' d + (if isl r then 0 else 1)
     \<and> counter_value job ''runs.failed'' d' = counter_value job ''runs.failed'' d
          + int (length (interrupted spec (je_start je) d)) + (if isl r then 1 else 0)
     \<and> (\<forall>kind\<in>set (item_kinds spec). counter_value job (''items.'' @ kind) d'
          = counter_value job (''items.'' @ kind) d + max 0 (count_of (counts_of r) kind))
     \<and> outbox_rows d' = outbox_rows d2 \<and> attempts d' = attempts d2"
proof -
  note s = start_run_effect[OF assms(6,5)]
  let ?exc = "case r of Inl e \<Rightarrow> Some e | Inr _ \<Rightarrow> None"
  have spec: "spec_name spec = job" "distinct (item_kinds spec)" using get_job_facts[OF assms(1)] by auto
  have exc: "?exc = None \<longleftrightarrow> \<not> isl r" by (cases r) auto
  have old: "\<forall>r\<in>set (job_runs d). run_id r \<noteq> next_pk d" using assms(5) by (auto simp: fresh_runs_def)
  then have "filter (\<lambda>r. run_id r = run_id run) (job_runs d1) = [run]"
    unfolding s(5) by (auto simp: filter_empty_conv set_update_rows s(1))
  then have one: "filter (\<lambda>r. run_id r = run_id run) (job_runs d2) = [run]" using assms(9) by simp
  have res: "res = (case r of Inr (x, counts) \<Rightarrow> Inr (x, next_pk d) | Inl e \<Rightarrow> Inl (Job_Failed (Some (next_pk d))))"
    and fin: "finish je spec (counts_of r) ?exc run d2 = d'"
    using run_recorded_finish[where work = work, OF assms(1-4,6,7)] assms(10) by (cases r; auto simp: s(1))+
  note f = run_finish_effect[OF fin one]
  have c2: "counter_value j n d2 = counter_value j n d1" for j n by (rule counter_cong[OF assms(8)])
  have cv: "counter_value job n d' = counter_value job n d
      + (if n = ''runs.failed'' then int (length (interrupted spec (je_start je) d)) else 0)
      + (if n = (if isl r then ''runs.failed'' else ''runs.succeeded'') then 1 else 0)
      + (\<Sum>(k, a)\<leftarrow>int_counts spec (counts_of r). if n = ''items.'' @ k then max 0 a else 0)" for n
    unfolding f(7) c2 s(12) using spec(1) exc by auto
  obtain row where row: "filter (\<lambda>r. run_id r = next_pk d) (job_runs d') = [row]"
    "row = (finished_run je (counts_of r) ?exc run)\<lparr>run_event_log_id := Some (next_pk d2)\<rparr>"
    using f(1) s(1) by auto
  obtain ev where "event_log d' = event_log d2 @ [ev]" "ev_id ev = next_pk d2"
    "ev_event_type ev = (if ?exc = None then ''hosting.scheduled_job.succeeded'' else ''hosting.scheduled_job.failed'')"
    using f(2) by auto
  then have "\<exists>row ev. filter (\<lambda>r. run_id r = next_pk d) (job_runs d') = [row] \<and> event_log d' = event_log d2 @ [ev]
          \<and> run_event_log_id row = Some (ev_id ev) \<and> run_job row = job \<and> run_finished_at row = Some (je_end je)
          \<and> run_status row = (if isl r then RUN_FAILED else SUCCEEDED) \<and> run_counts row = counts_of r
          \<and> ev_event_type ev = ''hosting.scheduled_job.'' @ run_status_str (run_status row)"
    using row exc s(2) spec(1) by (intro exI[of _ row] exI[of _ ev]) (auto split: if_splits)
  moreover have "counter_value job ''runs.succeeded'' d' = counter_value job ''runs.succeeded'' d + (if isl r then 0 else 1)"
    "counter_value job ''runs.failed'' d' = counter_value job ''runs.failed'' d
          + int (length (interrupted spec (je_start je) d)) + (if isl r then 1 else 0)"
    unfolding cv by (auto simp: case_prod_unfold)
  moreover have "counter_value job (''items.'' @ kind) d'
      = counter_value job (''items.'' @ kind) d + max 0 (count_of (counts_of r) kind)" if "kind \<in> set (item_kinds spec)" for kind
    using int_counts_sum[OF spec(2), of kind "counts_of r"] that unfolding cv by simp
  moreover have "outbox_rows d' = outbox_rows d2" "attempts d' = attempts d2" using f(4,5) by simp_all
  ultimately show ?thesis using res by blast
qed

text \<open>C23. The ledger of the scheduled jobs: when the database answers and the work leaves the ledger of
  its own job alone, a recorded run leaves exactly one row with its id, finished, succeeded or failed
  as the work did, linked to the one event that is written for it; the counter of succeeded or of failed runs
  grows by one (the failed ones also by the runs found dead at the start), each item counter by the
  count that the work reported, and the caller gets the result with the id of the run or the failure
  that carries it.\<close>

theorem scheduled_run_ledger:
  assumes "get_job job = Inr spec" "job_trigger_of trigger = Some trig" "je_start_ok je" "je_finish_ok je"
    and "fresh_runs d" "start_run je spec trig d = (run, d1)" "work (run_id run) d1 = (r, d2)"
    and "job_counters d2 = job_counters d1"
    and "filter (\<lambda>r. run_id r = run_id run) (job_runs d2) = filter (\<lambda>r. run_id r = run_id run) (job_runs d1)"
    and "run_recorded je job trigger work d = (res, d')"
  shows "res = (case r of Inr (x, counts) \<Rightarrow> Inr (x, next_pk d) | Inl e \<Rightarrow> Inl (Job_Failed (Some (next_pk d))))
     \<and> (\<exists>row ev. filter (\<lambda>r. run_id r = next_pk d) (job_runs d') = [row] \<and> event_log d' = event_log d2 @ [ev]
          \<and> run_event_log_id row = Some (ev_id ev) \<and> run_job row = job \<and> run_finished_at row = Some (je_end je)
          \<and> run_status row = (if isl r then RUN_FAILED else SUCCEEDED) \<and> run_counts row = counts_of r
          \<and> ev_event_type ev = ''hosting.scheduled_job.'' @ run_status_str (run_status row))
     \<and> counter_value job ''runs.succeeded'' d' = counter_value job ''runs.succeeded'' d + (if isl r then 0 else 1)
     \<and> counter_value job ''runs.failed'' d' = counter_value job ''runs.failed'' d
          + int (length (interrupted spec (je_start je) d)) + (if isl r then 1 else 0)
     \<and> (\<forall>kind\<in>set (item_kinds spec). counter_value job (''items.'' @ kind) d'
          = counter_value job (''items.'' @ kind) d + max 0 (count_of (counts_of r) kind))"
  using run_ledger[OF assms] by blast

section \<open>Health\<close>

text \<open>\<^verbatim>\<open>order_by('-started_at', '-id').first()\<close>\<close>

definition newest_run :: "(job_run \<Rightarrow> bool) \<Rightarrow> db \<Rightarrow> job_run option" where
  "newest_run p d =
     (case sort_key (\<lambda>r. (- run_started_at r, - int (run_id r))) (filter p (job_runs d)) of
        [] \<Rightarrow> None | r # _ \<Rightarrow> Some r)"

definition last_run :: "string \<Rightarrow> db \<Rightarrow> job_run option" where
  "last_run job d = newest_run (\<lambda>r. run_job r = job) d"

definition last_finished_run :: "string \<Rightarrow> db \<Rightarrow> job_run option" where
  "last_finished_run job d = newest_run (\<lambda>r. run_job r = job \<and> run_status r \<noteq> RUNNING) d"

definition last_success_run :: "string \<Rightarrow> db \<Rightarrow> job_run option" where
  "last_success_run job d =
     (case last_finished_run job d of
        Some r \<Rightarrow> if run_status r = SUCCEEDED then Some r
                  else newest_run (\<lambda>r. run_job r = job \<and> run_status r = SUCCEEDED) d
      | None \<Rightarrow> newest_run (\<lambda>r. run_job r = job \<and> run_status r = SUCCEEDED) d)"

definition is_overdue :: "job_spec \<Rightarrow> job_state \<Rightarrow> time \<Rightarrow> bool" where
  "is_overdue spec state now =
     (now - (case js_last_success_at state of Some t \<Rightarrow> t | None \<Rightarrow> js_created_at state)
        > seconds (overdue_after_seconds spec))"

definition compute_health :: "job_spec \<Rightarrow> job_state \<Rightarrow> job_run option \<Rightarrow> time \<Rightarrow> bool \<Rightarrow> health" where
  "compute_health spec state last_finished now enabled =
     (let ever_ran = (js_last_started_at state \<noteq> None \<or> last_finished \<noteq> None)
      in if \<not> enabled \<and> \<not> ever_ran then DISABLED
         else if (case last_finished of Some r \<Rightarrow> run_status r = RUN_FAILED | None \<Rightarrow> False) then FAILING
         else if is_overdue spec state now then OVERDUE
         else HEALTHY)"

definition next_expected_at :: "job_spec \<Rightarrow> job_state \<Rightarrow> time \<Rightarrow> time" where
  "next_expected_at spec state now =
     next_after spec (case js_last_started_at state of Some t \<Rightarrow> t | None \<Rightarrow> now)"

section \<open>The broker\<close>

text \<open>\<open>up\<close>: Redis answers. Without a broker the answers are None.\<close>

definition redis_reachable :: "settings \<Rightarrow> bool \<Rightarrow> bool option" where
  "redis_reachable cfg up = (if CELERY_BROKER_URL cfg = [] then None else Some up)"

definition beat_last_seen :: "settings \<Rightarrow> bool \<Rightarrow> time \<Rightarrow> string \<Rightarrow> redis \<Rightarrow> time option" where
  "beat_last_seen cfg up now lock_prefix r =
     (if CELERY_BROKER_URL cfg = [] then None
      else case read_beat_heartbeat (if up then Answered else Call_Failed False) now lock_prefix r of
             Inr (Some ms) \<Rightarrow> Some (int ms * 1000) | _ \<Rightarrow> None)"

section \<open>Payloads\<close>

definition or_null :: "string \<Rightarrow> json" where
  "or_null s = (if s = [] then JNull else JStr s)"

definition run_payload :: "job_run \<Rightarrow> dict" where
  "run_payload run =
     [(''id'', JInt (int (run_id run))), (''job'', JStr (run_job run)),
      (''trigger'', JStr (job_trigger_str (run_trigger run))), (''status'', JStr (run_status_str (run_status run))),
      (''started_at'', JTime (run_started_at run)), (''finished_at'', opt_json JTime (run_finished_at run)),
      (''duration_ms'', opt_json JInt (run_duration_ms run)), (''counts'', JDict (run_counts run)),
      (''error_key'', or_null (run_error_key run)), (''error_class'', or_null (run_error_class run)),
      (''error_message'', or_null (run_error_message run)), (''host'', JStr (run_host run)),
      (''request_id'', JStr (run_request_id run)),
      (''event_log_id'', opt_json (\<lambda>n. JInt (int n)) (run_event_log_id run))]"

definition recent_runs :: "string \<Rightarrow> run_status \<Rightarrow> time \<Rightarrow> db \<Rightarrow> nat" where
  "recent_runs job status since d =
     count_rows (\<lambda>r. run_job r = job \<and> since \<le> run_started_at r \<and> run_status r = status) (job_runs d)"

definition skipped_total :: "string \<Rightarrow> db \<Rightarrow> int" where
  "skipped_total job d = counter_value job ''runs.skipped_locked'' d"

definition job_overview :: "settings \<Rightarrow> time \<Rightarrow> db \<Rightarrow> job_spec \<Rightarrow> dict" where
  "job_overview cfg now d spec =
     (let name = spec_name spec;
          state = (case state_of name d of Some s \<Rightarrow> s | None \<Rightarrow> new_state now name);
          since = now - hours 24
      in [(''job'', JStr name),
          (''health'', JStr (health_str (compute_health spec state (last_finished_run name d) now (SCHEDULER_ENABLED cfg)))),
          (''overdue'', JBool (is_overdue spec state now)),
          (''interval_seconds'', JInt (interval_seconds spec)),
          (''overdue_after_seconds'', JInt (overdue_after_seconds spec)),
          (''last_run'', opt_json (\<lambda>r. JDict (run_payload r)) (last_run name d)),
          (''last_success_at'', opt_json JTime (js_last_success_at state)),
          (''last_failure_at'', opt_json JTime (js_last_failure_at state)),
          (''last_skipped_at'', opt_json JTime (js_last_skipped_at state)),
          (''last_duration_ms'', opt_json JInt (js_last_duration_ms state)),
          (''last_counts'', JDict (case last_success_run name d of Some r \<Rightarrow> run_counts r | None \<Rightarrow> [])),
          (''next_expected_at'', JTime (next_expected_at spec state now)),
          (''last_24h'', JDict [(''succeeded'', JInt (int (recent_runs name SUCCEEDED since d))),
                              (''failed'', JInt (int (recent_runs name RUN_FAILED since d)))]),
          (''skipped_locked_total'', JInt (skipped_total name d))])"

definition jobs_overview ::
    "settings \<Rightarrow> time \<Rightarrow> bool \<Rightarrow> bool \<Rightarrow> string \<Rightarrow> redis \<Rightarrow> db \<Rightarrow> dict \<times> db" where
  "jobs_overview cfg now check_redis up lock_prefix r d =
     (let d1 = ensure_states now d;
          beat_seen = (if check_redis then beat_last_seen cfg up now lock_prefix r else None)
      in ([(''generated_at'', JTime now), (''scheduler_enabled'', JBool (SCHEDULER_ENABLED cfg)),
           (''redis_reachable'', if check_redis then opt_json JBool (redis_reachable cfg up) else JNull),
           (''beat_last_seen_at'', opt_json JTime beat_seen),
           (''beat_stale'', JBool (SCHEDULER_ENABLED cfg
              \<and> (case beat_seen of None \<Rightarrow> True | Some t \<Rightarrow> now - t > BEAT_STALE_AFTER))),
           (''jobs'', JList (map (\<lambda>spec. JDict (job_overview cfg now d1 spec)) JOBS))], d1))"

section \<open>Health after a run\<close>

lemma newest_run_max:
  assumes "newest_run p d = Some r"
  shows "r \<in> set (job_runs d) \<and> p r
    \<and> (\<forall>r'\<in>set (job_runs d). p r' \<longrightarrow> (run_started_at r', run_id r') \<le> (run_started_at r, run_id r))"
proof -
  let ?k = "\<lambda>r. (- run_started_at r, - int (run_id r))"
  obtain rs where rs: "sort_key ?k (filter p (job_runs d)) = r # rs"
    using assms by (auto simp: newest_run_def split: list.splits)
  have s: "set (r # rs) = set (filter p (job_runs d))" unfolding rs[symmetric] by simp
  have "sorted (map ?k (r # rs))" unfolding rs[symmetric] by simp
  then have "?k r \<le> ?k r'" if "r' \<in> set (r # rs)" for r' using that by auto
  then show ?thesis using s by (fastforce simp: less_eq_prod_def)
qed

lemma newest_run_exists:
  assumes "r \<in> set (job_runs d)" "p r"
  shows "\<exists>r0. newest_run p d = Some r0"
proof -
  have "sort_key (\<lambda>r. (- run_started_at r, - int (run_id r))) (filter p (job_runs d)) \<noteq> []"
    using assms by (metis (no_types, lifting) empty_iff filter_set list.set(1) mem_Collect_eq set_filter set_sort)
  then show ?thesis by (auto simp: newest_run_def split: list.split)
qed

lemma newest_run_is:
  assumes "r \<in> set (job_runs d)" "p r"
    and "\<And>r'. r' \<in> set (job_runs d) \<Longrightarrow> p r' \<Longrightarrow> (run_started_at r', run_id r') \<le> (run_started_at r, run_id r)"
    and "\<And>r'. r' \<in> set (job_runs d) \<Longrightarrow> run_id r' = run_id r \<Longrightarrow> r' = r"
  shows "newest_run p d = Some r"
proof -
  obtain r0 where r0: "newest_run p d = Some r0" using newest_run_exists[where p = p, OF assms(1,2)] by blast
  then have "(run_started_at r, run_id r) \<le> (run_started_at r0, run_id r0)" "r0 \<in> set (job_runs d)" "p r0"
    using newest_run_max[OF r0] assms(1,2) by auto
  moreover then have "(run_started_at r0, run_id r0) \<le> (run_started_at r, run_id r)" using assms(3) by blast
  ultimately have "run_id r0 = run_id r" by (auto simp: less_eq_prod_def)
  then show ?thesis using r0 assms(4) \<open>r0 \<in> set (job_runs d)\<close> by simp
qed

text \<open>The health that the staff panel shows after a recorded run: failing when the run failed,
  however long ago that was; otherwise healthy until the limit of the job has passed since the end of the run and
  overdue from then on. So a scheduler that stops, or runs that fail, never read healthy for longer
  than the limit (three intervals for the retry job, two and a quarter hours for the purge).\<close>

theorem health_after_run:
  assumes "get_job job = Inr spec" "job_trigger_of trigger = Some trig" "je_start_ok je" "je_finish_ok je"
    and "fresh_runs d" "start_run je spec trig d = (run, d1)" "work (run_id run) d1 = (r, d2)"
    and "job_states d2 = job_states d1" "set (job_runs d2) \<subseteq> set (job_runs d1)" "run \<in> set (job_runs d2)"
    and "filter (\<lambda>r. run_id r = run_id run) (job_runs d2) = filter (\<lambda>r. run_id r = run_id run) (job_runs d1)"
    and "\<forall>r\<in>set (job_runs d). run_started_at r \<le> je_start je"
    and "run_recorded je job trigger work d = (res, d')"
  shows "\<exists>state. state_of job d' = Some state
     \<and> compute_health spec state (last_finished_run job d') now enabled
        = (if isl r then FAILING
           else if now - je_end je > seconds (overdue_after_seconds spec) then OVERDUE else HEALTHY)"
proof -
  note s = start_run_effect[OF assms(6,5)]
  let ?exc = "case r of Inl e \<Rightarrow> Some e | Inr _ \<Rightarrow> None"
  have spec: "spec_name spec = job" using get_job_facts[OF assms(1)] by auto
  have exc: "?exc = None \<longleftrightarrow> \<not> isl r" by (cases r) auto
  have "\<forall>r\<in>set (job_runs d). run_id r \<noteq> next_pk d" using assms(5) by (auto simp: fresh_runs_def)
  then have "filter (\<lambda>r. run_id r = run_id run) (job_runs d1) = [run]"
    unfolding s(5) by (auto simp: filter_empty_conv set_update_rows s(1))
  then have one: "filter (\<lambda>r. run_id r = run_id run) (job_runs d2) = [run]" using assms(11) by simp
  have fin: "finish je spec (counts_of r) ?exc run d2 = d'"
    using run_recorded_finish[where work = work, OF assms(1-4,6,7)] assms(13) by simp
  note f = run_finish_effect[OF fin one]
  obtain row where row: "filter (\<lambda>r. run_id r = run_id run) (job_runs d') = [row]"
    "row = (finished_run je (counts_of r) ?exc run)\<lparr>run_event_log_id := Some (next_pk d2)\<rparr>" using f(1) by auto
  have old: "run_started_at r' \<le> je_start je \<and> run_id r' < next_pk d" if "r' \<in> set (job_runs d')" "run_id r' \<noteq> run_id run" for r'
  proof -
    have "r' \<in> set (filter (\<lambda>r. run_id r \<noteq> run_id run) (job_runs d'))" using that by simp
    then have "r' \<in> set (job_runs d1)" "r' \<noteq> run" unfolding f(3) using assms(9) by auto
    then show ?thesis using assms(5,12) unfolding s(5) by (auto simp: set_update_rows fresh_runs_def)
  qed
  have mem: "r' \<in> set (job_runs d') \<and> run_id r' = run_id run \<longleftrightarrow> r' = row" for r'
    using arg_cong[OF row(1), of set] by auto
  have "last_finished_run job d' = Some row"
    unfolding last_finished_run_def
  proof (rule newest_run_is)
    show "(run_started_at r', run_id r') \<le> (run_started_at row, run_id row)" if "r' \<in> set (job_runs d')" for r'
      using old[OF that] mem[of r'] that s(1,3) row(2) by (cases "run_id r' = run_id run") (auto simp: less_eq_prod_def)
  qed (use mem row(2) exc s(2) spec in auto)
  moreover obtain st where "state_of job d' = Some st" "js_last_success_at st = (if isl r then js_last_success_at st else Some (je_end je))"
    using f(6) s(11) exc assms(8) unfolding spec by (auto simp: state_of_def)
  ultimately show ?thesis using row(2) exc by (auto simp: compute_health_def is_overdue_def)
qed

text \<open>The next start that is shown is after the given moment and at most one interval later, and the
  purge starts at minute 17 of an hour.\<close>

theorem next_run_bounds:
  assumes "spec \<in> set JOBS"
  shows "moment < next_after spec moment \<and> next_after spec moment \<le> moment + seconds (interval_seconds spec)
     \<and> (\<forall>m. cron_minute spec = Some m \<longrightarrow> next_after spec moment mod hours 1 = minutes m)"
proof -
  have "moment mod hours 1 < hours 1" "0 \<le> moment mod hours 1"
    by (simp_all add: hours_def seconds_def)
  moreover have "(moment - moment mod hours 1) mod hours 1 = 0" by (simp add: minus_mod_eq_mult_div)
  then have "at_minute 17 moment mod hours 1 = minutes 17"
    by (simp add: at_minute_def hours_def minutes_def seconds_def mod_add_left_eq[symmetric])
  ultimately show ?thesis
    using assms by (auto simp: JOBS_def next_after_def Let_def RETRY_WEBHOOKS_def PURGE_EXPIRED_DATA_def at_minute_def
        hours_def minutes_def seconds_def)
qed

section \<open>Witnesses\<close>

definition demo_job_env :: job_env where
  "demo_job_env =
     \<lparr> je_start = 1000, je_end = 2000, je_ms = 1, je_host = ''h:1'', je_class = (\<lambda>_. ''E''), je_text = (\<lambda>_. []),
       je_start_ok = True, je_finish_ok = True \<rparr>"

definition demo_work :: "nat \<Rightarrow> db \<Rightarrow> (exn + nat \<times> dict) \<times> db" where
  "demo_work rid d = (Inr (7, [(''events'', JInt 3)]), d)"

lemma demo_job: "get_job ''purge_expired_data'' = Inr PURGE_EXPIRED_DATA" "job_trigger_of ''celery'' = Some TRIGGER_CELERY"
  "fresh_runs empty_db"
  by (simp_all add: get_job_def JOBS_def RETRY_WEBHOOKS_def PURGE_EXPIRED_DATA_def job_trigger_of_def fresh_runs_def
      empty_db_def)

lemma scheduled_run_ledger_witness:
  "\<exists>d'. run_recorded demo_job_env ''purge_expired_data'' ''celery'' demo_work empty_db = (Inr (7, 1), d')
     \<and> counter_value ''purge_expired_data'' ''items.events'' d' = 3"
proof -
  obtain run d1 where st: "start_run demo_job_env PURGE_EXPIRED_DATA TRIGGER_CELERY empty_db = (run, d1)" by fastforce
  obtain res d' where rr: "run_recorded demo_job_env ''purge_expired_data'' ''celery'' demo_work empty_db = (res, d')"
    by fastforce
  have c: "count_of [(''events'', JInt 3)] ''events'' = 3" by (simp add: count_of_def dict_get_def)
  have n: "next_pk empty_db = 1" "counter_value j n empty_db = 0" for j n
    by (simp_all add: empty_db_def counter_value_def)
  show ?thesis
    using scheduled_run_ledger[OF demo_job(1,2) _ _ demo_job(3) st _ refl refl rr,
        of "Inr (7, [(''events'', JInt 3)])"] rr
    by (simp add: demo_job_env_def demo_work_def counts_of_def c n PURGE_EXPIRED_DATA_def)
qed

lemma health_after_run_witness:
  "\<exists>res d' state. run_recorded demo_job_env ''purge_expired_data'' ''celery'' demo_work empty_db = (res, d')
     \<and> compute_health PURGE_EXPIRED_DATA state (last_finished_run ''purge_expired_data'' d') (2000 + seconds 8100) True = HEALTHY
     \<and> compute_health PURGE_EXPIRED_DATA state (last_finished_run ''purge_expired_data'' d') (2001 + seconds 8100) True = OVERDUE"
proof -
  obtain run d1 where st: "start_run demo_job_env PURGE_EXPIRED_DATA TRIGGER_CELERY empty_db = (run, d1)" by fastforce
  obtain res d' where rr: "run_recorded demo_job_env ''purge_expired_data'' ''celery'' demo_work empty_db = (res, d')"
    by fastforce
  have m: "run \<in> set (job_runs d1)" using start_run_effect(5)[OF st demo_job(3)] by simp
  have e: "je_start_ok demo_job_env" "je_finish_ok demo_job_env" "je_end demo_job_env = 2000" by (simp_all add: demo_job_env_def)
  have w: "demo_work (run_id run) d1 = (Inr (7, [(''events'', JInt 3)]), d1)" by (simp add: demo_work_def)
  have old: "\<forall>r\<in>set (job_runs empty_db). run_started_at r \<le> je_start demo_job_env" by (simp add: empty_db_def)
  note H = health_after_run[OF demo_job(1,2) e(1,2) demo_job(3) st w refl subset_refl m refl old rr]
  show ?thesis
    using H[where now = "2000 + seconds 8100" and enabled = True] H[where now = "2001 + seconds 8100" and enabled = True]
    by (intro exI[of _ res] exI[of _ d'] exI[of _ "the (state_of ''purge_expired_data'' d')"])
       (auto simp: rr e PURGE_EXPIRED_DATA_def)
qed

lemma next_run_bounds_witness: "next_after PURGE_EXPIRED_DATA 5 mod hours 1 = minutes 17"
  using next_run_bounds[of PURGE_EXPIRED_DATA 5] by (simp add: JOBS_def PURGE_EXPIRED_DATA_def)

end
