(* ===== verification/Retention.thy ===== *)
theory Retention
  imports Job_Health
begin

text \<open>
  Data retention: \<^verbatim>\<open>apps/actions/retention.py\<close> and the purge of old runs in
  \<^verbatim>\<open>scheduled_jobs.py\<close>. The batched deletion is one function over any table; \<open>retention_table\<close> is what it
  needs of a table, interpreted for the four tables that expire.
\<close>

section \<open>Batched deletion\<close>

text \<open>
  \<^verbatim>\<open>_delete_in_batches\<close>: \<open>late k\<close> is the test of the deadline before turn \<open>k\<close>. The loop has no bound of its own,
  so not returning is None; the result is the number deleted, whether the table was finished, the
  database and the next turn. The batch is the first rows of the table: the query has no order.
\<close>

partial_function (option) delete_in_batches ::
    "('d \<Rightarrow> 'k list) \<Rightarrow> ('k list \<Rightarrow> 'd \<Rightarrow> 'd) \<Rightarrow> nat \<Rightarrow> (nat \<Rightarrow> bool) \<Rightarrow> nat \<Rightarrow> nat \<Rightarrow> 'd
      \<Rightarrow> (nat \<times> bool \<times> 'd \<times> nat) option" where
  "delete_in_batches ids_of remove batch_size late k deleted d =
     (if late k then Some (deleted, False, d, k + 1)
      else let ids = take batch_size (ids_of d)
           in if ids = [] then Some (deleted, True, d, k + 1)
              else delete_in_batches ids_of remove batch_size late (k + 1) (deleted + length ids) (remove ids d))"

definition deadline_passed :: "(nat \<Rightarrow> time) \<Rightarrow> time option \<Rightarrow> nat \<Rightarrow> bool" where
  "deadline_passed mono_clock deadline k = (case deadline of None \<Rightarrow> False | Some t \<Rightarrow> mono_clock k \<ge> t)"

section \<open>The tables that expire\<close>

definition retention_days :: "settings \<Rightarrow> int" where
  "retention_days cfg = max 1 (EVENT_LOG_RETENTION_DAYS cfg)"

definition STALE_GRACE :: time where
  "STALE_GRACE = days 1"

definition expired_event :: "time \<Rightarrow> event_log_row \<Rightarrow> bool" where
  "expired_event cutoff e = (ev_created_at e < cutoff)"

definition finished_delivery :: "outbox \<Rightarrow> bool" where
  "finished_delivery o1 = (ob_status o1 \<in> set [OB_DELIVERED, OB_DEAD])"

definition expired_delivery :: "delivery_kind \<Rightarrow> time \<Rightarrow> outbox \<Rightarrow> bool" where
  "expired_delivery kind cutoff o1 =
     (finished_delivery o1 \<and> ob_delivery_kind o1 = kind \<and> ob_created_at o1 < cutoff)"

definition expired_run :: "time \<Rightarrow> job_run \<Rightarrow> bool" where
  "expired_run cutoff r = (run_started_at r < cutoff)"

definition remove_events :: "nat list \<Rightarrow> db \<Rightarrow> db" where
  "remove_events ids d = d\<lparr>event_log := delete_rows (\<lambda>e. ev_id e \<in> set ids) (event_log d)\<rparr>"

definition remove_deliveries :: "uuid list \<Rightarrow> db \<Rightarrow> db" where
  "remove_deliveries ids d = delete_outbox_rows (\<lambda>o1. ob_id o1 \<in> set ids) d"

definition remove_runs :: "nat list \<Rightarrow> db \<Rightarrow> db" where
  "remove_runs ids d = d\<lparr>job_runs := delete_rows (\<lambda>r. run_id r \<in> set ids) (job_runs d)\<rparr>"

definition runs_cutoff :: "time \<Rightarrow> time" where
  "runs_cutoff now = now - days RUN_RETENTION_DAYS"

definition purge_old_runs ::
    "time \<Rightarrow> nat \<Rightarrow> (nat \<Rightarrow> bool) \<Rightarrow> nat \<Rightarrow> db \<Rightarrow> (nat \<times> bool \<times> db \<times> nat) option" where
  "purge_old_runs now batch_size late k d =
     delete_in_batches (\<lambda>d. map run_id (filter (expired_run (runs_cutoff now)) (job_runs d))) remove_runs
       batch_size late k 0 d"

definition count_old_runs :: "time \<Rightarrow> db \<Rightarrow> nat" where
  "count_old_runs now d = count_rows (expired_run (runs_cutoff now)) (job_runs d)"

section \<open>purge\_expired\_data\<close>

record purge_stats =
  ps_events :: nat
  ps_webhook_deliveries :: nat
  ps_email_events :: nat
  ps_scheduled_job_runs :: nat
  ps_complete :: bool

definition zero_purge :: purge_stats where
  "zero_purge = \<lparr> ps_events = 0, ps_webhook_deliveries = 0, ps_email_events = 0, ps_scheduled_job_runs = 0,
                  ps_complete = True \<rparr>"

definition purge_events ::
    "time \<Rightarrow> nat \<Rightarrow> (nat \<Rightarrow> bool) \<Rightarrow> nat \<Rightarrow> db \<Rightarrow> (nat \<times> bool \<times> db \<times> nat) option" where
  "purge_events cutoff batch_size late k d =
     delete_in_batches (\<lambda>d. map ev_id (filter (expired_event cutoff) (event_log d))) remove_events
       batch_size late k 0 d"

definition purge_deliveries ::
    "delivery_kind \<Rightarrow> time \<Rightarrow> nat \<Rightarrow> (nat \<Rightarrow> bool) \<Rightarrow> nat \<Rightarrow> db \<Rightarrow> (nat \<times> bool \<times> db \<times> nat) option" where
  "purge_deliveries kind cutoff batch_size late k d =
     delete_in_batches (\<lambda>d. map ob_id (filter (expired_delivery kind cutoff) (outbox_rows d))) remove_deliveries
       batch_size late k 0 d"

text \<open>\<open>max_seconds\<close> is in microseconds; None and zero mean no limit. The clock is read once before the loops.\<close>

definition purge_expired_data ::
    "settings \<Rightarrow> nat \<Rightarrow> time option \<Rightarrow> bool \<Rightarrow> time \<Rightarrow> (nat \<Rightarrow> time) \<Rightarrow> db \<Rightarrow> (purge_stats \<times> db) option" where
  "purge_expired_data cfg batch_size max_seconds dry_run now mono_clock d =
     (let cutoff = now - days (retention_days cfg);
          deadline = (case max_seconds of None \<Rightarrow> None | Some s \<Rightarrow> if s = 0 then None else Some (mono_clock 0 + s));
          late = deadline_passed mono_clock deadline
      in if dry_run then
           Some (zero_purge\<lparr>ps_events := count_rows (expired_event cutoff) (event_log d),
                   ps_webhook_deliveries := count_rows (expired_delivery KIND_WEBHOOK cutoff) (outbox_rows d),
                   ps_email_events := count_rows (expired_delivery KIND_EMAIL cutoff) (outbox_rows d),
                   ps_scheduled_job_runs := count_old_runs now d\<rparr>, d)
         else case purge_events cutoff batch_size late 1 d of
           None \<Rightarrow> None
         | Some (n1, fin1, d1, k1) \<Rightarrow>
             let s1 = zero_purge\<lparr>ps_events := n1\<rparr>
             in if \<not> fin1 then Some (s1\<lparr>ps_complete := False\<rparr>, d1)
                else case purge_deliveries KIND_WEBHOOK cutoff batch_size late k1 d1 of
                  None \<Rightarrow> None
                | Some (n2, fin2, d2, k2) \<Rightarrow>
                    let s2 = s1\<lparr>ps_webhook_deliveries := n2\<rparr>
                    in if \<not> fin2 then Some (s2\<lparr>ps_complete := False\<rparr>, d2)
                       else case purge_deliveries KIND_EMAIL cutoff batch_size late k2 d2 of
                         None \<Rightarrow> None
                       | Some (n3, fin3, d3, k3) \<Rightarrow>
                           let s3 = s2\<lparr>ps_email_events := n3\<rparr>
                           in if \<not> fin3 then Some (s3\<lparr>ps_complete := False\<rparr>, d3)
                              else case purge_old_runs now batch_size late k3 d3 of
                                None \<Rightarrow> None
                              | Some (n4, fin4, d4, k4) \<Rightarrow>
                                  Some (s3\<lparr>ps_scheduled_job_runs := n4, ps_complete := fin4\<rparr>, d4))"

section \<open>retention\_status\<close>

definition oldest_event :: "company \<Rightarrow> db \<Rightarrow> time option" where
  "oldest_event company_id d =
     (case sort (map ev_created_at (filter (\<lambda>e. ev_company_id e = Some company_id) (event_log d))) of
        [] \<Rightarrow> None | t # _ \<Rightarrow> Some t)"

definition retention_status :: "settings \<Rightarrow> time \<Rightarrow> company \<Rightarrow> db \<Rightarrow> dict" where
  "retention_status cfg now company_id d =
     (let n = retention_days cfg; oldest = oldest_event company_id d
      in [(''data_retention_days'', JInt n), (''oldest_event_at'', opt_json JTime oldest),
          (''stale_events'', JBool (case oldest of None \<Rightarrow> False | Some t \<Rightarrow> t < now - days n - STALE_GRACE))])"

section \<open>What a batched deletion removes\<close>

locale retention_table =
  fixes rows :: "'d \<Rightarrow> 'r list"
    and key :: "'r \<Rightarrow> 'k"
    and expired :: "'r \<Rightarrow> bool"
    and remove :: "'k list \<Rightarrow> 'd \<Rightarrow> 'd"
  assumes rows_remove: "rows (remove ks d) = filter (\<lambda>r. key r \<notin> set ks) (rows d)"
begin

abbreviation expired_ids :: "'d \<Rightarrow> 'k list" where
  "expired_ids d \<equiv> map key (filter expired (rows d))"

lemma fewer_expired:
  assumes "take n (expired_ids d) \<noteq> []"
  shows "length (expired_ids (remove (take n (expired_ids d)) d)) < length (expired_ids d)"
proof -
  obtain r rs where r: "filter expired (rows d) = r # rs" using assms by (cases "filter expired (rows d)") auto
  then have "key r \<in> set (take n (expired_ids d))" using assms by (cases n) auto
  moreover have "r \<in> set (rows d)" "expired r" using arg_cong[OF r, of set] by auto
  moreover have "filter expired (rows (remove ks d)) = filter (\<lambda>r. key r \<notin> set ks) (filter expired (rows d))" for ks
    by (simp add: rows_remove filter_filter conj_commute)
  ultimately show ?thesis
    by (metis (mono_tags, lifting) length_filter_less length_map mem_Collect_eq set_filter)
qed

text \<open>The loop ends on every table, for every clock and batch size.\<close>

lemma batches_end: "\<exists>r. delete_in_batches expired_ids remove b late k n d = Some r"
proof (induction "length (expired_ids d)" arbitrary: k n d rule: less_induct)
  case less
  then show ?case
    using fewer_expired[of b d] by (subst delete_in_batches.simps) (auto simp: Let_def simp del: take_map)
qed

text \<open>What a turn at the deadline, a turn on a finished table and a batch preserve holds of the whole loop.\<close>

lemma batches_induct:
  assumes "\<And>n d. \<exists>k. late k \<Longrightarrow> R n d n False d" "\<And>n d. take b (expired_ids d) = [] \<Longrightarrow> R n d n True d"
    and "\<And>n d n' fin d'. take b (expired_ids d) \<noteq> [] \<Longrightarrow>
      R (n + length (take b (expired_ids d))) (remove (take b (expired_ids d)) d) n' fin d' \<Longrightarrow> R n d n' fin d'"
  shows "delete_in_batches expired_ids remove b late k n d = Some (n', fin, d', k') \<Longrightarrow> R n d n' fin d'"
proof (induction "length (expired_ids d)" arbitrary: k n d rule: less_induct)
  case less
  let ?ids = "take b (expired_ids d)"
  show ?case
  proof (cases "late k \<or> ?ids = []")
    case True
    then show ?thesis
      using less.prems assms(1,2) by (subst (asm) delete_in_batches.simps) (auto simp: Let_def split: if_splits)
  next
    case False
    then have go: "delete_in_batches expired_ids remove b late (k + 1) (n + length ?ids) (remove ?ids d) = Some (n', fin, d', k')"
      using less.prems(1) by (subst (asm) delete_in_batches.simps) (simp add: Let_def)
    from less.hyps[OF fewer_expired go] False assms(3) show ?thesis by blast
  qed
qed

lemma batches_invariant:
  assumes "delete_in_batches expired_ids remove b late k n d = Some (n', fin, d', k')" "P d"
    and "\<And>e ks. P e \<Longrightarrow> set ks \<subseteq> set (expired_ids e) \<Longrightarrow> P (remove ks e)"
  shows "P d'"
proof -
  have "P d \<longrightarrow> P d'"
    by (rule batches_induct[OF _ _ _ assms(1)]) (use assms(3) set_take_subset in \<open>metis\<close>)+
  then show ?thesis using assms(2) by simp
qed

text \<open>
  What is not expired stays, in its place; what goes is expired; a finished loop leaves nothing expired.
  With distinct keys the count is the number of rows that went.
\<close>

definition purged_from :: "'d \<Rightarrow> 'd \<Rightarrow> bool" where
  "purged_from d e \<longleftrightarrow> distinct (map key (rows e)) \<and> set (rows e) \<subseteq> set (rows d)
     \<and> filter (\<lambda>r. \<not> expired r) (rows e) = filter (\<lambda>r. \<not> expired r) (rows d)"

lemma purged_remove:
  assumes "purged_from d e" "set ks \<subseteq> set (expired_ids e)"
  shows "purged_from d (remove ks e)"
proof -
  have "key r \<notin> set ks" if "r \<in> set (rows e)" "\<not> expired r" for r
  proof
    assume "key r \<in> set ks"
    then obtain r' where "r' \<in> set (rows e)" "expired r'" "key r' = key r" using assms(2) by auto
    then have "r' = r" using that(1) assms(1) distinct_map_unique unfolding purged_from_def by metis
    then show False using that(2) \<open>expired r'\<close> by simp
  qed
  then have "filter (\<lambda>r. \<not> expired r) (rows (remove ks e)) = filter (\<lambda>r. \<not> expired r) (rows e)"
    unfolding rows_remove filter_filter by (auto intro: filter_cong)
  then show ?thesis using assms(1) by (auto simp: purged_from_def rows_remove distinct_map_filter)
qed

lemma batches_finish:
  assumes "delete_in_batches expired_ids remove b late k n d = Some (n', True, d', k')" "0 < b"
  shows "expired_ids d' = []"
proof -
  have "True \<longrightarrow> expired_ids d' = []" by (rule batches_induct[OF _ _ _ assms(1)]) (use assms(2) in auto)
  then show ?thesis by simp
qed

lemma batches_in_time:
  assumes "delete_in_batches expired_ids remove b late k n d = Some (n', fin, d', k')" "\<forall>k. \<not> late k"
  shows "fin"
  by (rule batches_induct[OF _ _ _ assms(1)]) (use assms(2) in auto)

lemma filter_not_take:
  assumes "distinct xs"
  shows "filter (\<lambda>i. i \<notin> set (take b xs)) xs = drop b xs"
proof -
  have "filter (\<lambda>i. i \<notin> set (take b xs)) (drop b xs) = drop b xs"
    using assms set_take_disj_set_drop_if_distinct[of xs b b] by (intro filter_True) auto
  moreover have "filter (\<lambda>i. i \<notin> set (take b xs)) (take b xs) = []" by (simp add: filter_empty_conv)
  ultimately show ?thesis using filter_append[of "\<lambda>i. i \<notin> set (take b xs)" "take b xs" "drop b xs"] by simp
qed

lemma expired_remove: "expired_ids (remove ks d) = filter (\<lambda>i. i \<notin> set ks) (expired_ids d)"
  by (simp add: rows_remove filter_map filter_filter comp_def conj_commute)

lemma batches_count:
  assumes "delete_in_batches expired_ids remove b late k n d = Some (n', fin, d', k')" "distinct (map key (rows d))"
  shows "n' + length (expired_ids d') = n + length (expired_ids d)"
proof -
  have "distinct (map key (rows d)) \<longrightarrow> n' + length (expired_ids d') = n + length (expired_ids d)"
  proof (rule batches_induct[OF _ _ _ assms(1)])
    fix n d n' fin d'
    assume "take b (expired_ids d) \<noteq> []"
      and h: "distinct (map key (rows (remove (take b (expired_ids d)) d))) \<longrightarrow>
        n' + length (expired_ids d') = n + length (take b (expired_ids d)) + length (expired_ids (remove (take b (expired_ids d)) d))"
    show "distinct (map key (rows d)) \<longrightarrow> n' + length (expired_ids d') = n + length (expired_ids d)"
    proof
      assume k: "distinct (map key (rows d))"
      then have "distinct (map key (rows (remove (take b (expired_ids d)) d)))" by (simp add: rows_remove distinct_map_filter)
      moreover have "expired_ids (remove (take b (expired_ids d)) d) = drop b (expired_ids d)"
        unfolding expired_remove using k by (intro filter_not_take) (simp add: distinct_map_filter)
      ultimately show "n' + length (expired_ids d') = n + length (expired_ids d)" using h by simp
    qed
  qed simp_all
  then show ?thesis using assms(2) by simp
qed

lemma batches_summary:
  assumes "delete_in_batches expired_ids remove b late k 0 d = Some (n, fin, d', k')" "distinct (map key (rows d))"
  shows "purged_from d d'" "n + length (rows d') = length (rows d)"
    "fin \<Longrightarrow> 0 < b \<Longrightarrow> rows d' = filter (\<lambda>r. \<not> expired r) (rows d)"
proof -
  have "purged_from d d" using assms(2) by (simp add: purged_from_def)
  then show p: "purged_from d d'" by (rule batches_invariant[OF assms(1)]) (rule purged_remove)
  have "length (filter (\<lambda>r. \<not> expired r) (rows d')) = length (filter (\<lambda>r. \<not> expired r) (rows d))"
    using p by (simp add: purged_from_def)
  then show "n + length (rows d') = length (rows d)"
    using batches_count[OF assms] sum_length_filter_compl[of expired "rows d"] sum_length_filter_compl[of expired "rows d'"]
    by simp
  assume "fin" "0 < b"
  then have "filter expired (rows d') = []" using batches_finish[of b late k 0 d n d' k'] assms(1) by simp
  then have "filter (\<lambda>r. \<not> expired r) (rows d') = rows d'" by (simp add: filter_empty_conv)
  then show "rows d' = filter (\<lambda>r. \<not> expired r) (rows d)" using p by (simp add: purged_from_def)
qed

end

interpretation event_rows: retention_table event_log ev_id "expired_event cutoff" remove_events for cutoff
  by unfold_locales (simp add: remove_events_def delete_rows_def)

interpretation delivery_rows: retention_table outbox_rows ob_id "expired_delivery kind cutoff" remove_deliveries
  for kind cutoff
  by unfold_locales (simp add: remove_deliveries_def delete_outbox_rows_def delete_rows_def)

interpretation run_rows: retention_table job_runs run_id "expired_run cutoff" remove_runs for cutoff
  by unfold_locales (simp add: remove_runs_def delete_rows_def)

section \<open>The purge\<close>

text \<open>The purge in one step: the expired rows of the three tables, and the attempts of deleted deliveries.\<close>

definition attempts_of :: "outbox list \<Rightarrow> attempt list \<Rightarrow> attempt list" where
  "attempts_of os ts = filter (\<lambda>t. has_row (\<lambda>o1. ob_id o1 = att_outbox t) os) ts"

definition purged_db :: "settings \<Rightarrow> time \<Rightarrow> db \<Rightarrow> db" where
  "purged_db cfg now d =
     (let cutoff = now - days (retention_days cfg);
          kept = filter (\<lambda>o1. \<not> (finished_delivery o1 \<and> ob_created_at o1 < cutoff)) (outbox_rows d)
      in d\<lparr>event_log := filter (\<lambda>e. \<not> ev_created_at e < cutoff) (event_log d),
           outbox_rows := kept, attempts := attempts_of kept (attempts d),
           job_runs := filter (\<lambda>r. \<not> run_started_at r < runs_cutoff now) (job_runs d)\<rparr>)"

lemma purge_events_frame:
  assumes "purge_events cutoff b late k d = Some (n, fin, d', k')"
  shows "d' = d\<lparr>event_log := event_log d'\<rparr>"
proof -
  have "\<exists>l. d' = d\<lparr>event_log := l\<rparr>"
    by (rule event_rows.batches_invariant[where P = "\<lambda>e. \<exists>l. e = d\<lparr>event_log := l\<rparr>",
          OF assms[unfolded purge_events_def]])
       (auto simp: remove_events_def intro: exI[of _ "event_log d"])
  then show ?thesis by auto
qed

lemma purge_old_runs_frame:
  assumes "purge_old_runs now b late k d = Some (n, fin, d', k')"
  shows "d' = d\<lparr>job_runs := job_runs d'\<rparr>"
proof -
  have "\<exists>l. d' = d\<lparr>job_runs := l\<rparr>"
    by (rule run_rows.batches_invariant[where P = "\<lambda>e. \<exists>l. e = d\<lparr>job_runs := l\<rparr>",
          OF assms[unfolded purge_old_runs_def]])
       (auto simp: remove_runs_def intro: exI[of _ "job_runs d"])
  then show ?thesis by auto
qed

lemma purge_deliveries_frame:
  assumes "purge_deliveries kind cutoff b late k d = Some (n, fin, d', k')"
    and "attempts d = attempts_of (outbox_rows d) (attempts d)"
  shows "d' = d\<lparr>outbox_rows := outbox_rows d', attempts := attempts_of (outbox_rows d') (attempts d)\<rparr>"
proof (rule delivery_rows.batches_invariant[OF assms(1)[unfolded purge_deliveries_def]])
  show "d = d\<lparr>outbox_rows := outbox_rows d, attempts := attempts_of (outbox_rows d) (attempts d)\<rparr>"
    using assms(2) by simp
next
  fix e ks
  assume "e = d\<lparr>outbox_rows := outbox_rows e, attempts := attempts_of (outbox_rows e) (attempts d)\<rparr>"
  then obtain os where e: "e = d\<lparr>outbox_rows := os, attempts := attempts_of os (attempts d)\<rparr>" by blast
  have "attempts (remove_deliveries ks e) = attempts_of (outbox_rows (remove_deliveries ks e)) (attempts d)"
    unfolding e remove_deliveries_def delete_outbox_rows_def attempts_of_def delete_rows_def
    by (auto simp: filter_filter has_row_iff intro!: filter_cong)
  then show "remove_deliveries ks e = d\<lparr>outbox_rows := outbox_rows (remove_deliveries ks e),
      attempts := attempts_of (outbox_rows (remove_deliveries ks e)) (attempts d)\<rparr>"
    unfolding e by (simp add: remove_deliveries_def delete_outbox_rows_def)
qed

text \<open>What a stage keeps of its table: \<open>n\<close> rows went, all of them expired.\<close>

definition kept_rows :: "('r \<Rightarrow> bool) \<Rightarrow> 'r list \<Rightarrow> nat \<Rightarrow> 'r list \<Rightarrow> bool" where
  "kept_rows p rs n rs' \<longleftrightarrow> n + length rs' = length rs \<and> set rs' \<subseteq> set rs
     \<and> filter (\<lambda>r. \<not> p r) rs' = filter (\<lambda>r. \<not> p r) rs"

lemma purge_events_stage:
  assumes "distinct (map ev_id (event_log d))" "0 < b"
  obtains n fin es k' where "purge_events cutoff b late k d = Some (n, fin, d\<lparr>event_log := es\<rparr>, k')"
    "kept_rows (expired_event cutoff) (event_log d) n es"
    "fin \<longrightarrow> es = filter (\<lambda>e. \<not> expired_event cutoff e) (event_log d)" "(\<forall>k. \<not> late k) \<longrightarrow> fin"
proof -
  obtain n fin d' k' where g: "purge_events cutoff b late k d = Some (n, fin, d', k')"
    using event_rows.batches_end[of cutoff b late k 0 d] unfolding purge_events_def by auto
  note s = event_rows.batches_summary[OF g[unfolded purge_events_def] assms(1)]
  show thesis
    by (rule that[of n fin "event_log d'" k'])
       (use g s assms(2) purge_events_frame[OF g] event_rows.batches_in_time[OF g[unfolded purge_events_def]]
         in \<open>auto simp: kept_rows_def event_rows.purged_from_def\<close>)
qed

lemma purge_deliveries_stage:
  assumes "distinct (map ob_id (outbox_rows d))" "attempts d = attempts_of (outbox_rows d) (attempts d)" "0 < b"
  obtains n fin os k' where "purge_deliveries kind cutoff b late k d
      = Some (n, fin, d\<lparr>outbox_rows := os, attempts := attempts_of os (attempts d)\<rparr>, k')"
    "kept_rows (expired_delivery kind cutoff) (outbox_rows d) n os" "distinct (map ob_id os)"
    "fin \<longrightarrow> os = filter (\<lambda>o1. \<not> expired_delivery kind cutoff o1) (outbox_rows d)" "(\<forall>k. \<not> late k) \<longrightarrow> fin"
proof -
  obtain n fin d' k' where g: "purge_deliveries kind cutoff b late k d = Some (n, fin, d', k')"
    using delivery_rows.batches_end[of kind cutoff b late k 0 d] unfolding purge_deliveries_def by auto
  note s = delivery_rows.batches_summary[OF g[unfolded purge_deliveries_def] assms(1)]
  show thesis
    by (rule that[of n fin "outbox_rows d'" k'])
       (use g s assms(3) purge_deliveries_frame[OF g assms(2)]
          delivery_rows.batches_in_time[OF g[unfolded purge_deliveries_def]]
         in \<open>auto simp: kept_rows_def delivery_rows.purged_from_def\<close>)
qed

lemma purge_runs_stage:
  assumes "distinct (map run_id (job_runs d))" "0 < b"
  obtains n fin rs k' where "purge_old_runs now b late k d = Some (n, fin, d\<lparr>job_runs := rs\<rparr>, k')"
    "kept_rows (expired_run (runs_cutoff now)) (job_runs d) n rs"
    "fin \<longrightarrow> rs = filter (\<lambda>r. \<not> expired_run (runs_cutoff now) r) (job_runs d)" "(\<forall>k. \<not> late k) \<longrightarrow> fin"
proof -
  obtain n fin d' k' where g: "purge_old_runs now b late k d = Some (n, fin, d', k')"
    using run_rows.batches_end[of "runs_cutoff now" b late k 0 d] unfolding purge_old_runs_def by auto
  note s = run_rows.batches_summary[OF g[unfolded purge_old_runs_def] assms(1)]
  show thesis
    by (rule that[of n fin "job_runs d'" k'])
       (use g s assms(2) purge_old_runs_frame[OF g] run_rows.batches_in_time[OF g[unfolded purge_old_runs_def]]
         in \<open>auto simp: kept_rows_def run_rows.purged_from_def\<close>)
qed

lemma kept_rows_refl [simp]: "kept_rows p rs 0 rs"
  by (simp add: kept_rows_def)

lemma kept_rows_mono:
  assumes "kept_rows p rs n rs'" "\<And>r. p r \<Longrightarrow> q r"
  shows "kept_rows q rs n rs'"
proof -
  have "filter (\<lambda>r. \<not> q r) xs = filter (\<lambda>r. \<not> q r) (filter (\<lambda>r. \<not> p r) xs)" for xs
    using assms(2) by (auto intro: filter_cong)
  then show ?thesis using assms(1) unfolding kept_rows_def by metis
qed

lemma kept_rows_trans: "kept_rows p rs n rs1 \<Longrightarrow> kept_rows p rs1 m rs2 \<Longrightarrow> kept_rows p rs (n + m) rs2"
  by (auto simp: kept_rows_def)

lemma attempts_of_subset:
  assumes "set os \<subseteq> set os'"
  shows "attempts_of os (attempts_of os' ts) = attempts_of os ts"
  using assms by (auto simp: attempts_of_def has_row_iff intro!: filter_cong)

text \<open>The four stages of a purge, and what the run makes of them.\<close>

lemma purge_stages:
  assumes "distinct (map ev_id (event_log d))" "distinct (map ob_id (outbox_rows d))"
    and "distinct (map run_id (job_runs d))" "attempts d = attempts_of (outbox_rows d) (attempts d)" "0 < b"
    and "cutoff = now - days (retention_days cfg)"
  obtains n1 f1 es n2 f2 os n3 f3 os3 n4 f4 rs where
    "kept_rows (\<lambda>e. ev_created_at e < cutoff) (event_log d) n1 es"
    "kept_rows (\<lambda>o1. finished_delivery o1 \<and> ob_created_at o1 < cutoff) (outbox_rows d) n2 os"
    "kept_rows (\<lambda>o1. finished_delivery o1 \<and> ob_created_at o1 < cutoff) (outbox_rows d) (n2 + n3) os3"
    "kept_rows (\<lambda>r. run_started_at r < now - days 7) (job_runs d) n4 rs"
    "f1 \<longrightarrow> es = filter (\<lambda>e. \<not> ev_created_at e < cutoff) (event_log d)"
    "f2 \<longrightarrow> f3 \<longrightarrow> os3 = filter (\<lambda>o1. \<not> (finished_delivery o1 \<and> ob_created_at o1 < cutoff)) (outbox_rows d)"
    "f4 \<longrightarrow> rs = filter (\<lambda>r. \<not> run_started_at r < runs_cutoff now) (job_runs d)"
    "limit = None \<longrightarrow> f1 \<and> f2 \<and> f3 \<and> f4"
    "purge_expired_data cfg b limit False now mono_clock d = Some
      (if \<not> f1 then (zero_purge\<lparr>ps_events := n1, ps_complete := False\<rparr>, d\<lparr>event_log := es\<rparr>)
       else if \<not> f2 then (zero_purge\<lparr>ps_events := n1, ps_webhook_deliveries := n2, ps_complete := False\<rparr>,
         d\<lparr>event_log := es, outbox_rows := os, attempts := attempts_of os (attempts d)\<rparr>)
       else if \<not> f3 then (zero_purge\<lparr>ps_events := n1, ps_webhook_deliveries := n2, ps_email_events := n3, ps_complete := False\<rparr>,
         d\<lparr>event_log := es, outbox_rows := os3, attempts := attempts_of os3 (attempts d)\<rparr>)
       else (zero_purge\<lparr>ps_events := n1, ps_webhook_deliveries := n2, ps_email_events := n3, ps_scheduled_job_runs := n4,
               ps_complete := f4\<rparr>,
         d\<lparr>event_log := es, outbox_rows := os3, attempts := attempts_of os3 (attempts d), job_runs := rs\<rparr>))"
proof -
  define late where "late = deadline_passed mono_clock
    (case limit of None \<Rightarrow> None | Some s \<Rightarrow> if s = 0 then None else Some (mono_clock 0 + s))"
  have never: "\<forall>k. \<not> late k" if "limit = None" using that by (simp add: late_def deadline_passed_def)
  note K = kept_rows_mono[where q = "\<lambda>e. ev_created_at e < cutoff" and p = "expired_event cutoff"]
    kept_rows_mono[where q = "\<lambda>o1. finished_delivery o1 \<and> ob_created_at o1 < cutoff" and p = "expired_delivery kind cutoff" for kind]
    kept_rows_mono[where q = "\<lambda>r. run_started_at r < now - days 7" and p = "expired_run (runs_cutoff now)"]
  note ex = expired_event_def expired_delivery_def expired_run_def runs_cutoff_def RUN_RETENTION_DAYS_def
  obtain n1 f1 es k1 where s1: "purge_events cutoff b late 1 d = Some (n1, f1, d\<lparr>event_log := es\<rparr>, k1)"
    "kept_rows (expired_event cutoff) (event_log d) n1 es"
    "f1 \<longrightarrow> es = filter (\<lambda>e. \<not> expired_event cutoff e) (event_log d)" "(\<forall>k. \<not> late k) \<longrightarrow> f1"
    by (rule purge_events_stage[OF assms(1,5), where late = late and k = 1 and cutoff = cutoff])
  let ?d1 = "d\<lparr>event_log := es\<rparr>"
  obtain n2 f2 os k2 where s2: "purge_deliveries KIND_WEBHOOK cutoff b late k1 ?d1
      = Some (n2, f2, ?d1\<lparr>outbox_rows := os, attempts := attempts_of os (attempts ?d1)\<rparr>, k2)"
    "kept_rows (expired_delivery KIND_WEBHOOK cutoff) (outbox_rows ?d1) n2 os" "distinct (map ob_id os)"
    "f2 \<longrightarrow> os = filter (\<lambda>o1. \<not> expired_delivery KIND_WEBHOOK cutoff o1) (outbox_rows ?d1)" "(\<forall>k. \<not> late k) \<longrightarrow> f2"
    by (rule purge_deliveries_stage[of ?d1 b KIND_WEBHOOK cutoff late k1]) (use assms in simp_all)
  let ?d2 = "?d1\<lparr>outbox_rows := os, attempts := attempts_of os (attempts ?d1)\<rparr>"
  obtain n3 f3 os3 k3 where s3: "purge_deliveries KIND_EMAIL cutoff b late k2 ?d2
      = Some (n3, f3, ?d2\<lparr>outbox_rows := os3, attempts := attempts_of os3 (attempts ?d2)\<rparr>, k3)"
    "kept_rows (expired_delivery KIND_EMAIL cutoff) (outbox_rows ?d2) n3 os3" "distinct (map ob_id os3)"
    "f3 \<longrightarrow> os3 = filter (\<lambda>o1. \<not> expired_delivery KIND_EMAIL cutoff o1) (outbox_rows ?d2)" "(\<forall>k. \<not> late k) \<longrightarrow> f3"
    by (rule purge_deliveries_stage[of ?d2 b KIND_EMAIL cutoff late k2]) (use assms(5) s2(3) in \<open>simp_all add: attempts_of_subset\<close>)
  let ?d3 = "?d2\<lparr>outbox_rows := os3, attempts := attempts_of os3 (attempts ?d2)\<rparr>"
  obtain n4 f4 rs k4 where s4: "purge_old_runs now b late k3 ?d3 = Some (n4, f4, ?d3\<lparr>job_runs := rs\<rparr>, k4)"
    "kept_rows (expired_run (runs_cutoff now)) (job_runs ?d3) n4 rs"
    "f4 \<longrightarrow> rs = filter (\<lambda>r. \<not> expired_run (runs_cutoff now) r) (job_runs ?d3)" "(\<forall>k. \<not> late k) \<longrightarrow> f4"
    by (rule purge_runs_stage[of ?d3 b now late k3]) (use assms in simp_all)
  have a: "attempts_of os3 (attempts_of os (attempts d)) = attempts_of os3 (attempts d)"
    using s3(2) by (simp add: kept_rows_def attempts_of_subset)
  have k1: "kept_rows (\<lambda>e. ev_created_at e < cutoff) (event_log d) n1 es"
    by (rule K(1)[OF s1(2)]) (simp add: ex)
  have k2: "kept_rows (\<lambda>o1. finished_delivery o1 \<and> ob_created_at o1 < cutoff) (outbox_rows d) n2 os"
    using s2(2) by (intro K(2)[of KIND_WEBHOOK]) (simp_all add: ex)
  have k3: "kept_rows (\<lambda>o1. finished_delivery o1 \<and> ob_created_at o1 < cutoff) (outbox_rows d) (n2 + n3) os3"
    by (rule kept_rows_trans[OF k2], rule K(2)[of KIND_EMAIL]) (use s3(2) in \<open>simp_all add: ex\<close>)
  have k4: "kept_rows (\<lambda>r. run_started_at r < now - days 7) (job_runs d) n4 rs"
    using s4(2) by (intro K(3)) (simp_all add: ex)
  have fin: "os3 = filter (\<lambda>o1. \<not> (finished_delivery o1 \<and> ob_created_at o1 < cutoff)) (outbox_rows d)" if "f2" "f3"
    using s2(4) s3(4) that by (auto simp: ex intro!: filter_cong) (metis delivery_kind.exhaust)
  have run: "purge_expired_data cfg b limit False now mono_clock d = Some
      (if \<not> f1 then (zero_purge\<lparr>ps_events := n1, ps_complete := False\<rparr>, ?d1)
       else if \<not> f2 then (zero_purge\<lparr>ps_events := n1, ps_webhook_deliveries := n2, ps_complete := False\<rparr>, ?d2)
       else if \<not> f3 then (zero_purge\<lparr>ps_events := n1, ps_webhook_deliveries := n2, ps_email_events := n3, ps_complete := False\<rparr>, ?d3)
       else (zero_purge\<lparr>ps_events := n1, ps_webhook_deliveries := n2, ps_email_events := n3, ps_scheduled_job_runs := n4,
               ps_complete := f4\<rparr>, ?d3\<lparr>job_runs := rs\<rparr>))"
    using s1(1) s2(1) s3(1) s4(1)
    by (simp add: purge_expired_data_def Let_def late_def[symmetric] assms(6)[symmetric])
  show thesis
    by (rule that[OF k1 k2 k3 k4, of f1 f2 f3 f4], use s1(3) in \<open>simp add: ex\<close>, use fin in blast,
        use s4(3) in \<open>simp add: ex\<close>, use s1(4) s2(5) s3(5) s4(4) never in blast, use run a in simp)
qed

text \<open>C22. The purge removes only what has expired, everything of it when it has the time, and says which:
  on tables with unique ids, with a positive batch size, it returns for every clock and limit; what
  is left of the event log, the outbox and the runs has lost only expired rows, as many as it
  reports, so open deliveries and recent rows all stay; attempts go with their delivery and with
  nothing else; when it reports complete, and always without a limit, the database is the one
  with exactly the expired rows removed.\<close>

theorem purge_expired_correct:
  assumes "distinct (map ev_id (event_log d))" "distinct (map ob_id (outbox_rows d))"
    and "distinct (map run_id (job_runs d))" "attempts d = attempts_of (outbox_rows d) (attempts d)" "0 < b"
  shows "\<exists>stats d'. purge_expired_data cfg b limit False now mono_clock d = Some (stats, d')
     \<and> kept_rows (\<lambda>e. ev_created_at e < now - days (retention_days cfg)) (event_log d) (ps_events stats) (event_log d')
     \<and> kept_rows (\<lambda>o1. finished_delivery o1 \<and> ob_created_at o1 < now - days (retention_days cfg))
          (outbox_rows d) (ps_webhook_deliveries stats + ps_email_events stats) (outbox_rows d')
     \<and> kept_rows (\<lambda>r. run_started_at r < now - days 7) (job_runs d) (ps_scheduled_job_runs stats) (job_runs d')
     \<and> d' = d\<lparr>event_log := event_log d', outbox_rows := outbox_rows d',
              attempts := attempts_of (outbox_rows d') (attempts d), job_runs := job_runs d'\<rparr>
     \<and> (ps_complete stats \<longrightarrow> d' = purged_db cfg now d) \<and> (limit = None \<longrightarrow> ps_complete stats)"
proof -
  define cutoff where "cutoff = now - days (retention_days cfg)"
  obtain n1 f1 es n2 f2 os n3 f3 os3 n4 f4 rs where k:
    "kept_rows (\<lambda>e. ev_created_at e < cutoff) (event_log d) n1 es"
    "kept_rows (\<lambda>o1. finished_delivery o1 \<and> ob_created_at o1 < cutoff) (outbox_rows d) n2 os"
    "kept_rows (\<lambda>o1. finished_delivery o1 \<and> ob_created_at o1 < cutoff) (outbox_rows d) (n2 + n3) os3"
    "kept_rows (\<lambda>r. run_started_at r < now - days 7) (job_runs d) n4 rs"
    and f: "f1 \<longrightarrow> es = filter (\<lambda>e. \<not> ev_created_at e < cutoff) (event_log d)"
    "f2 \<longrightarrow> f3 \<longrightarrow> os3 = filter (\<lambda>o1. \<not> (finished_delivery o1 \<and> ob_created_at o1 < cutoff)) (outbox_rows d)"
    "f4 \<longrightarrow> rs = filter (\<lambda>r. \<not> run_started_at r < runs_cutoff now) (job_runs d)"
    "limit = None \<longrightarrow> f1 \<and> f2 \<and> f3 \<and> f4"
    and run: "purge_expired_data cfg b limit False now mono_clock d = Some
      (if \<not> f1 then (zero_purge\<lparr>ps_events := n1, ps_complete := False\<rparr>, d\<lparr>event_log := es\<rparr>)
       else if \<not> f2 then (zero_purge\<lparr>ps_events := n1, ps_webhook_deliveries := n2, ps_complete := False\<rparr>,
         d\<lparr>event_log := es, outbox_rows := os, attempts := attempts_of os (attempts d)\<rparr>)
       else if \<not> f3 then (zero_purge\<lparr>ps_events := n1, ps_webhook_deliveries := n2, ps_email_events := n3, ps_complete := False\<rparr>,
         d\<lparr>event_log := es, outbox_rows := os3, attempts := attempts_of os3 (attempts d)\<rparr>)
       else (zero_purge\<lparr>ps_events := n1, ps_webhook_deliveries := n2, ps_email_events := n3, ps_scheduled_job_runs := n4,
               ps_complete := f4\<rparr>,
         d\<lparr>event_log := es, outbox_rows := os3, attempts := attempts_of os3 (attempts d), job_runs := rs\<rparr>))"
    by (rule purge_stages[OF assms cutoff_def])
  consider "\<not> f1" | "f1" "\<not> f2" | "f1" "f2" "\<not> f3" | "f1" "f2" "f3" by blast
  then show ?thesis unfolding cutoff_def[symmetric]
    by cases (use k f run assms(4) in \<open>simp_all add: zero_purge_def purged_db_def Let_def cutoff_def[symmetric]\<close>)
qed

definition demo_event :: "nat \<Rightarrow> time \<Rightarrow> event_log_row" where
  "demo_event i t =
     \<lparr> ev_id = i, ev_company_id = Some 1, ev_user_id = None, ev_event_type = ''hosting.app.created'', ev_data = [],
       ev_created_at = t \<rparr>"

text \<open>One event older than the seven days and one newer, a batch of one, no limit.\<close>

lemma purge_expired_correct_witness:
  "\<exists>stats d'. purge_expired_data default_settings 1 None False (days 8) (\<lambda>_. 0)
       (empty_db\<lparr>event_log := [demo_event 1 0, demo_event 2 (days 5)]\<rparr>) = Some (stats, d')
     \<and> event_log d' = [demo_event 2 (days 5)] \<and> ps_events stats = 1"
proof -
  let ?d = "empty_db\<lparr>event_log := [demo_event 1 0, demo_event 2 (days 5)]\<rparr>"
  have h: "distinct (map ev_id (event_log ?d))" "distinct (map ob_id (outbox_rows ?d))" "distinct (map run_id (job_runs ?d))"
    "attempts ?d = attempts_of (outbox_rows ?d) (attempts ?d)"
    by (simp_all add: empty_db_def demo_event_def attempts_of_def)
  have "event_log (purged_db default_settings (days 8) ?d) = [demo_event 2 (days 5)]"
    by (simp add: purged_db_def Let_def demo_event_def retention_days_def default_settings_def days_def seconds_def)
  then show ?thesis
    using purge_expired_correct[OF h zero_less_one, of default_settings None "days 8" "\<lambda>_. 0"]
    by (fastforce simp: kept_rows_def)
qed

end
