(* ===== verification/Ssrf.thy ===== *)
theory Ssrf
  imports Net
begin

text \<open>
  The guard of outgoing webhook requests: \<^verbatim>\<open>apps/actions/ssrf.py\<close>. The name resolution
  (\<^verbatim>\<open>socket.getaddrinfo\<close>) is an argument: the list of addresses with their ports, or None
  for \<^verbatim>\<open>gaierror\<close>. \<^verbatim>\<open>SSRFError\<close> is a \<^verbatim>\<open>ValueError\<close>, so the handler around the literal address
  catches a rejected literal as well and passes it to the name resolution.
\<close>

record endpoint =
  ep_original_url :: string
  ep_scheme :: string
  ep_connect_host :: string
  ep_port :: int
  ep_host_header :: string
  ep_path :: string

type_synonym dns = "string \<Rightarrow> int \<Rightarrow> (string \<times> int) list option"

definition NAT64 :: "128 word \<times> nat" where
  "NAT64 = net6 [0x64, 0xff9b] 96"

definition SIX2FOUR :: "128 word \<times> nat" where
  "SIX2FOUR = net6 [0x2002] 16"

definition IPV4_COMPAT :: "128 word \<times> nat" where
  "IPV4_COMPAT = net6 [] 96"

definition IPV4_MAPPED :: "128 word \<times> nat" where
  "IPV4_MAPPED = net6 [0, 0, 0, 0, 0, 0xffff] 96"

definition embedded_ipv4 :: "128 word \<Rightarrow> 32 word option" where
  "embedded_ipv4 x =
     (case ipv4_mapped x of
        Some v \<Rightarrow> Some v
      | None \<Rightarrow>
          if in_net6 x NAT64 then Some (ucast x)
          else if in_net6 x SIX2FOUR then Some (ucast (drop_bit 80 x))
          else if in_net6 x IPV4_COMPAT \<and> \<not> in_net6 x IPV4_MAPPED then Some (ucast x)
          else None)"

definition is_global :: "ip \<Rightarrow> bool" where
  "is_global a = (case a of V4 v \<Rightarrow> is_global4 v | V6 x \<Rightarrow> is_global6 x)"

text \<open>\<^verbatim>\<open>_validate_ip\<close>: False stands for \<^verbatim>\<open>SSRFError\<close>.\<close>

definition validate_ip :: "bool \<Rightarrow> ip \<Rightarrow> bool" where
  "validate_ip allow_private a =
     (if allow_private then True
      else is_global (case a of
                        V4 v \<Rightarrow> V4 v
                      | V6 x \<Rightarrow> (case embedded_ipv4 x of Some v \<Rightarrow> V4 v | None \<Rightarrow> V6 x)))"

definition blocked_hostname :: "bool \<Rightarrow> string \<Rightarrow> bool" where
  "blocked_hostname allow_private host =
     (host \<in> set [''localhost'', ''metadata.google.internal''] \<and> \<not> allow_private)"

fun pick_info :: "bool \<Rightarrow> int \<Rightarrow> (string \<times> int) list \<Rightarrow> exn + (string \<times> int)" where
  "pick_info allow_private port [] = Inl Ssrf_Error"
| "pick_info allow_private port ((addr, aport) # infos) =
     (case ip_address addr of
        None \<Rightarrow> Inl Value_Error
      | Some a \<Rightarrow>
          if validate_ip allow_private a then Inr (addr, if aport \<noteq> 0 then aport else port)
          else pick_info allow_private port infos)"

text \<open>The connection target: a literal that passes, else what the name resolution answers.\<close>

definition connect_target :: "dns \<Rightarrow> bool \<Rightarrow> string \<Rightarrow> int \<Rightarrow> exn + (string \<times> int)" where
  "connect_target dns allow_private hostname port =
     (let resolve = (case dns hostname port of
                       None \<Rightarrow> Inl Ssrf_Error
                     | Some infos \<Rightarrow> pick_info allow_private port infos)
      in case ip_address hostname of
           Some a \<Rightarrow> if validate_ip allow_private a then Inr (hostname, port) else resolve
         | None \<Rightarrow> resolve)"

definition default_port :: "string \<Rightarrow> int option \<Rightarrow> int" where
  "default_port scheme parsed_port =
     (case parsed_port of
        Some n \<Rightarrow> if n \<noteq> 0 then n else if scheme = ''https'' then 443 else 80
      | None \<Rightarrow> if scheme = ''https'' then 443 else 80)"

definition host_header :: "string \<Rightarrow> int option \<Rightarrow> string" where
  "host_header hostname parsed_port =
     (case parsed_port of
        Some n \<Rightarrow> if n \<noteq> 0 \<and> n \<notin> {80, 443} then hostname @ '':'' @ int_str n else hostname
      | None \<Rightarrow> hostname)"

definition request_path :: "parsed_url \<Rightarrow> string" where
  "request_path p = (if pu_path p = [] then ''/'' else pu_path p)
                    @ (if pu_query p \<noteq> [] then ''?'' @ pu_query p else [])"

definition resolve_webhook_endpoint :: "dns \<Rightarrow> string \<Rightarrow> bool \<Rightarrow> exn + endpoint" where
  "resolve_webhook_endpoint dns url allow_private =
     (case urlparse (strip url) of
        None \<Rightarrow> Inl Value_Error
      | Some p \<Rightarrow>
         let scheme = pu_scheme p; hostname = lower (url_hostname p) in
         if scheme \<notin> set [''http'', ''https''] then Inl Ssrf_Error
         else if hostname = [] then Inl Ssrf_Error
         else if blocked_hostname allow_private hostname then Inl Ssrf_Error
         else case url_port p of
           None \<Rightarrow> Inl Value_Error
         | Some parsed_port \<Rightarrow>
            map_res (\<lambda>(connect_host, cport).
                       \<lparr> ep_original_url = strip url, ep_scheme = scheme, ep_connect_host = connect_host,
                         ep_port = cport, ep_host_header = host_header hostname parsed_port,
                         ep_path = request_path p \<rparr>)
              (connect_target dns allow_private hostname (default_port scheme parsed_port)))"

definition validate_webhook_url :: "dns \<Rightarrow> string \<Rightarrow> bool \<Rightarrow> exn + string" where
  "validate_webhook_url dns url allow_private =
     map_res (\<lambda>_. strip url) (resolve_webhook_endpoint dns url allow_private)"

section \<open>What a public address is\<close>

definition octet :: "nat \<Rightarrow> 32 word \<Rightarrow> int" where
  "octet i v = uint v div 2 ^ (24 - 8 * i) mod 256"

definition public_v4 :: "32 word \<Rightarrow> bool" where
  "public_v4 v \<longleftrightarrow> octet 0 v \<notin> {0, 10, 127} \<and> octet 0 v < 240 \<and> \<not> (octet 0 v = 169 \<and> octet 1 v = 254)
     \<and> \<not> (octet 0 v = 172 \<and> octet 1 v \<in> {16..31}) \<and> \<not> (octet 0 v = 192 \<and> octet 1 v = 168)
     \<and> \<not> (octet 0 v = 100 \<and> octet 1 v \<in> {64..127})"

lemma uint_drop_bit_div: "uint (drop_bit k (x :: 'a :: len word)) = uint x div 2 ^ k"
  unfolding drop_bit_eq_div[of k "uint x", symmetric] by (simp add: unsigned_drop_bit_eq take_bit_int_eq_self)

lemma in_net4_div: "in_net4 x (n, len) \<longleftrightarrow> uint x div 2 ^ (32 - len) = uint n div 2 ^ (32 - len)"
  by (simp only: in_net4_def fst_conv snd_conv word_uint_eq_iff uint_drop_bit_div)

lemma uint_quad4:
  assumes "a \<in> {0..255}" "b \<in> {0..255}" "c \<in> {0..255}" "d \<in> {0..255}"
  shows "uint (quad4 a b c d) = ((a * 256 + b) * 256 + c) * 256 + d"
proof -
  have "0 \<le> ((a * 256 + b) * 256 + c) * 256 + d" "((a * 256 + b) * 256 + c) * 256 + d < 2 ^ 32"
    using assms by auto
  then show ?thesis unfolding quad4_def uint_word_of_int by (simp only: mod_pos_pos_trivial len_of_numeral_defs) simp
qed

lemma in_private_nets:
  "in_net4 v (quad4 0 0 0 0, 8) \<longleftrightarrow> uint v div 2 ^ 24 = 0"
  "in_net4 v (quad4 10 0 0 0, 8) \<longleftrightarrow> uint v div 2 ^ 24 = 10"
  "in_net4 v (quad4 127 0 0 0, 8) \<longleftrightarrow> uint v div 2 ^ 24 = 127"
  "in_net4 v (quad4 169 254 0 0, 16) \<longleftrightarrow> uint v div 2 ^ 16 = 43518"
  "in_net4 v (quad4 172 16 0 0, 12) \<longleftrightarrow> uint v div 2 ^ 20 = 2753"
  "in_net4 v (quad4 192 168 0 0, 16) \<longleftrightarrow> uint v div 2 ^ 16 = 49320"
  "in_net4 v (quad4 240 0 0 0, 4) \<longleftrightarrow> uint v div 2 ^ 28 = 15"
  "in_net4 v (quad4 100 64 0 0, 10) \<longleftrightarrow> uint v div 2 ^ 22 = 401"
  "in_net4 v (quad4 192 0 0 9, 32) \<longleftrightarrow> uint v = 3221225481"
  "in_net4 v (quad4 192 0 0 10, 32) \<longleftrightarrow> uint v = 3221225482"
  by (simp_all add: in_net4_div uint_quad4)

lemma global_public_v4:
  assumes "is_global4 v" shows "public_v4 v"
proof -
  define x where "x = uint v"
  have b: "0 \<le> x" "x < 4294967296" using uint_lt2p[of v] by (simp_all add: x_def)
  have n: "x div 16777216 \<notin> {0, 10, 127} \<and> x div 65536 \<notin> {43518, 49320} \<and> x div 1048576 \<noteq> 2753
      \<and> x div 268435456 \<noteq> 15 \<and> x div 4194304 \<noteq> 401"
  proof (cases "x = 3221225481 \<or> x = 3221225482")
    case True then show ?thesis by auto
  next
    case False
    then have "x div 4194304 \<noteq> 401 \<and> \<not> list_ex (in_net4 v) private4"
      using assms by (simp add: is_global4_def private4_exceptions_def in_private_nets x_def)
    then show ?thesis by (simp add: private4_def in_private_nets x_def)
  qed
  define a where "a = x div 65536 div 256"
  define c where "c = x div 65536 mod 256"
  have q: "x div 65536 = 256 * a + c" by (simp add: a_def c_def)
  have c: "0 \<le> c" "c < 256" by (simp_all add: c_def)
  have a: "0 \<le> a" "a < 256" using b by (auto simp: a_def)
  have d: "x div 16777216 = (256 * a + c) div 256" "x div 1048576 = (256 * a + c) div 16"
      "x div 268435456 = (256 * a + c) div 4096" "x div 4194304 = (256 * a + c) div 64"
    unfolding q[symmetric] by (simp_all add: zdiv_zmult2_eq[symmetric])
  have o: "octet 0 v = a" "octet 1 v = c"
    using a c by (simp_all add: octet_def x_def[symmetric] d q)
  have "a < 240"
  proof (rule ccontr)
    assume "\<not> a < 240"
    then have "(256 * a + c) div 4096 = 15"
      using a c int_div_pos_eq[of "256 * a + c" 4096 15 "256 * a + c - 61440"] by simp
    then show False using n[unfolded d q] by simp
  qed
  moreover have "\<not> (a = 172 \<and> c \<in> {16..31})"
  proof
    assume *: "a = 172 \<and> c \<in> {16..31}"
    then have "(256 * a + c) div 16 = 2753"
      using int_div_pos_eq[of "256 * a + c" 16 2753 "c - 16"] by simp
    then show False using n[unfolded d q] by simp
  qed
  moreover have "\<not> (a = 100 \<and> c \<in> {64..127})"
  proof
    assume *: "a = 100 \<and> c \<in> {64..127}"
    then have "(256 * a + c) div 64 = 401"
      using int_div_pos_eq[of "256 * a + c" 64 401 "c - 64"] by simp
    then show False using n[unfolded d q] by simp
  qed
  ultimately show ?thesis
    unfolding public_v4_def o using n[unfolded d q] a c by simp
qed

section \<open>No request leaves for a private network\<close>

text \<open>
  The IPv4 address that an IPv6 address carries, by its value: mapped (\<open>::ffff:0:0/96\<close>), NAT64
  (\<open>64:ff9b::/96\<close>), 6to4 (\<open>2002::/16\<close>, in the bits after the prefix) and compatible (\<open>::/96\<close>).
\<close>

definition carried_ipv4 :: "int \<Rightarrow> int option" where
  "carried_ipv4 n =
     (if n div 2 ^ 32 \<in> {0, 0xffff, 0x64ff9b0000000000000000} then Some (n mod 2 ^ 32)
      else if n div 2 ^ 112 = 0x2002 then Some (n div 2 ^ 80 mod 2 ^ 32)
      else None)"

text \<open>The address a request really reaches: IPv4 carried in an IPv6 address is judged as IPv4.\<close>

definition public_address :: "ip \<Rightarrow> bool" where
  "public_address a =
     (case a of
        V4 v \<Rightarrow> public_v4 v
      | V6 x \<Rightarrow> (case carried_ipv4 (uint x) of Some n \<Rightarrow> public_v4 (of_int n) | None \<Rightarrow> is_global6 x))"

lemma in_net6_uint:
  "in_net6 x net \<longleftrightarrow> uint x div 2 ^ (128 - snd net) = uint (fst net) div 2 ^ (128 - snd net)"
  by (simp only: in_net6_def word_uint_eq_iff uint_drop_bit_div)

lemma ucast_low: "(ucast (x :: 128 word) :: 32 word) = of_int (uint x mod 2 ^ 32)"
  by (simp add: word_uint_eq_iff unsigned_ucast_eq take_bit_eq_mod unsigned_of_int)

lemma in_carrying_nets:
  "ipv4_mapped x = (if uint x div 2 ^ 32 = 0xffff then Some (ucast x) else None)"
  "in_net6 x NAT64 \<longleftrightarrow> uint x div 2 ^ 32 = 0x64ff9b0000000000000000"
  "in_net6 x SIX2FOUR \<longleftrightarrow> uint x div 2 ^ 112 = 0x2002"
  "in_net6 x IPV4_COMPAT \<longleftrightarrow> uint x div 2 ^ 32 = 0"
  "in_net6 x IPV4_MAPPED \<longleftrightarrow> uint x div 2 ^ 32 = 0xffff"
proof -
  have n: "snd NAT64 = 96" "snd SIX2FOUR = 16" "snd IPV4_COMPAT = 96" "snd IPV4_MAPPED = 96"
    by (simp_all add: NAT64_def SIX2FOUR_def IPV4_COMPAT_def IPV4_MAPPED_def net6_def)
  have v: "uint (fst NAT64) div 2 ^ 32 = 0x64ff9b0000000000000000" "uint (fst SIX2FOUR) div 2 ^ 112 = 0x2002"
    "uint (fst IPV4_COMPAT) div 2 ^ 32 = 0" "uint (fst IPV4_MAPPED) div 2 ^ 32 = 0xffff"
    by code_simp+
  show "in_net6 x NAT64 \<longleftrightarrow> uint x div 2 ^ 32 = 0x64ff9b0000000000000000"
    "in_net6 x SIX2FOUR \<longleftrightarrow> uint x div 2 ^ 112 = 0x2002"
    "in_net6 x IPV4_COMPAT \<longleftrightarrow> uint x div 2 ^ 32 = 0"
    "in_net6 x IPV4_MAPPED \<longleftrightarrow> uint x div 2 ^ 32 = 0xffff"
    unfolding in_net6_uint n using v by simp_all
  show "ipv4_mapped x = (if uint x div 2 ^ 32 = 0xffff then Some (ucast x) else None)"
    by (simp add: ipv4_mapped_def word_uint_eq_iff uint_drop_bit_div)
qed

lemma embedded_is_carried: "embedded_ipv4 x = map_option of_int (carried_ipv4 (uint x))"
proof -
  have d: "uint x div 2 ^ 112 = uint x div 2 ^ 32 div 2 ^ 80" by (simp add: zdiv_zmult2_eq[symmetric])
  have s: "ucast (drop_bit 80 x) = (of_int (uint x div 2 ^ 80 mod 2 ^ 32) :: 32 word)"
    unfolding ucast_low uint_drop_bit_div ..
  show ?thesis
    unfolding embedded_ipv4_def carried_ipv4_def in_carrying_nets ucast_low s
    by (cases "uint x div 2 ^ 32 \<in> {0, 0xffff, 0x64ff9b0000000000000000}") (auto simp: d uint_drop_bit_div)
qed

lemma validate_public: "validate_ip False a \<Longrightarrow> public_address a"
  by (auto simp: validate_ip_def is_global_def public_address_def embedded_is_carried global_public_v4
      split: ip.splits option.splits)

lemma pick_info_sound:
  "pick_info priv port infos = Inr (h, p) \<Longrightarrow>
     \<exists>a. ip_address h = Some a \<and> validate_ip priv a \<and> (\<exists>q. (h, q) \<in> set infos)"
  by (induction priv port infos rule: pick_info.induct) (auto split: option.splits if_splits)

lemma connect_host_validated:
  assumes "connect_target dns priv host port = Inr (h, p)"
  shows "\<exists>a. ip_address h = Some a \<and> validate_ip priv a
           \<and> (h = host \<or> (\<exists>infos q. dns host port = Some infos \<and> (h, q) \<in> set infos))"
proof (cases "\<exists>a. ip_address host = Some a \<and> validate_ip priv a")
  case True then show ?thesis using assms by (auto simp: connect_target_def)
next
  case False
  then obtain infos where "dns host port = Some infos" "pick_info priv port infos = Inr (h, p)"
    using assms by (auto simp: connect_target_def Let_def split: option.splits if_splits)
  then show ?thesis using pick_info_sound by blast
qed

lemma resolve_Inr:
  assumes "resolve_webhook_endpoint dns url priv = Inr ep"
  obtains p pp cport where "urlparse (strip url) = Some p" "pu_scheme p \<in> {''http'', ''https''}"
    "url_hostname p \<noteq> []" "\<not> blocked_hostname priv (lower (url_hostname p))" "url_port p = Some pp"
    "connect_target dns priv (lower (url_hostname p)) (default_port (pu_scheme p) pp) = Inr (ep_connect_host ep, cport)"
    "ep_scheme ep = pu_scheme p" "ep_host_header ep = host_header (lower (url_hostname p)) pp"
    "ep_path ep = request_path p" "ep_original_url ep = strip url" "ep_port ep = cport"
  using assms
  by (auto simp: resolve_webhook_endpoint_def Let_def map_res_Inr lower_def split: option.splits if_splits)

lemma guarded_target:
  assumes "resolve_webhook_endpoint dns url False = Inr ep"
  shows "\<exists>a. ip_address (ep_connect_host ep) = Some a \<and> public_address a"
proof -
  obtain p pp cport where "connect_target dns False (lower (url_hostname p)) (default_port (pu_scheme p) pp)
              = Inr (ep_connect_host ep, cport)"
    using assms by (rule resolve_Inr)
  then show ?thesis using connect_host_validated validate_public by blast
qed

text \<open>C9. The webhook guard pins the connection to an address it has judged: when
  \<^verbatim>\<open>resolve_webhook_endpoint\<close> accepts a URL with private targets off, the URL is http or https, its
  host name is not one of the blocked ones, the connection goes to an address literal (the URL's own
  host or one that the name resolution returned, never to a name that could resolve anew), and that
  address, read through any IPv4 it embeds (mapped, NAT64, 6to4, compatible), lies outside the
  loopback, private, link-local, shared, reserved and unspecified IPv4 ranges and is a global IPv6
  address otherwise. Without \<open>allow_private\<close> no answer of the name resolution changes that.\<close>

theorem ssrf_guard:
  assumes "resolve_webhook_endpoint dns url False = Inr ep"
  shows "\<exists>p a. urlparse (strip url) = Some p \<and> ep_scheme ep = pu_scheme p \<and> ep_scheme ep \<in> {''http'', ''https''}
     \<and> lower (url_hostname p) \<notin> {[], ''localhost'', ''metadata.google.internal''}
     \<and> ip_address (ep_connect_host ep) = Some a \<and> public_address a
     \<and> (ep_connect_host ep = lower (url_hostname p)
        \<or> (\<exists>port infos q. dns (lower (url_hostname p)) port = Some infos \<and> (ep_connect_host ep, q) \<in> set infos))"
proof -
  obtain p pp cport where p: "urlparse (strip url) = Some p" "pu_scheme p \<in> {''http'', ''https''}"
    "url_hostname p \<noteq> []" "\<not> blocked_hostname False (lower (url_hostname p))" "ep_scheme ep = pu_scheme p"
    and c: "connect_target dns False (lower (url_hostname p)) (default_port (pu_scheme p) pp)
              = Inr (ep_connect_host ep, cport)"
    using assms by (rule resolve_Inr)
  obtain a where a: "ip_address (ep_connect_host ep) = Some a" "validate_ip False a"
    "ep_connect_host ep = lower (url_hostname p)
       \<or> (\<exists>port infos q. dns (lower (url_hostname p)) port = Some infos \<and> (ep_connect_host ep, q) \<in> set infos)"
    using connect_host_validated[OF c] by blast
  have "lower (url_hostname p) \<notin> {[], ''localhost'', ''metadata.google.internal''}"
    using p(3,4) by (auto simp: blocked_hostname_def lower_def)
  then show ?thesis
    using p(1,2,5) a validate_public by (intro exI[of _ p] exI[of _ a]) simp
qed

theorem ssrf_guard_witness:
  "\<exists>ep. resolve_webhook_endpoint (\<lambda>h p. Some [(''10.0.0.7'', 443), (''93.184.216.34'', 443)])
          ''https://hooks.example.com/in?x=1'' False = Inr ep
        \<and> (\<exists>a. ip_address (ep_connect_host ep) = Some a \<and> public_address a)"
proof -
  define dns where "dns = (\<lambda>(h :: string) (p :: int). Some [(''10.0.0.7'', 443 :: int), (''93.184.216.34'', 443)])"
  have "resolve_webhook_endpoint dns ''https://hooks.example.com/in?x=1'' False
          = Inr \<lparr> ep_original_url = ''https://hooks.example.com/in?x=1'', ep_scheme = ''https'',
                  ep_connect_host = ''93.184.216.34'', ep_port = 443, ep_host_header = ''hooks.example.com'',
                  ep_path = ''/in?x=1'' \<rparr>" (is "_ = Inr ?ep")
    unfolding dns_def by code_simp
  then show ?thesis using ssrf_guard[of dns "''https://hooks.example.com/in?x=1''" ?ep] unfolding dns_def by blast
qed

end
