(* ===== verification/Webhook.thy ===== *)
theory Webhook
  imports Ssrf Emit "HOL-Library.List_Lexorder" "HOL-Library.Char_ord"
begin

text \<open>
  One outgoing webhook request: \<^verbatim>\<open>apps/actions/webhook_retry.py\<close>, \<^verbatim>\<open>webhook_signing.py\<close>,
  \<^verbatim>\<open>webhook_transport.py\<close>, \<^verbatim>\<open>handlers/webhook.py\<close> and \<^verbatim>\<open>rule_config.py\<close>. The outside world is
  the record \<open>net_env\<close>: the name resolution, the exchange of one HTTP request on a connected
  socket, the parser of HTTP dates, HMAC-SHA256, and the clock. Bytes and ASCII text are both
  char lists.
\<close>

section \<open>Base64\<close>

definition B64_ALPHABET :: string where
  "B64_ALPHABET = ''ABCDEFGHIJKLMNOPQRSTUVWXYZabcdefghijklmnopqrstuvwxyz0123456789+/''"

definition b64_val :: "char \<Rightarrow> nat" where
  "b64_val c = length (takeWhile (\<lambda>d. d \<noteq> c) B64_ALPHABET)"

fun sextets :: "nat list \<Rightarrow> nat list" where
  "sextets (a # b # c # bs) =
     a div 4 # (a mod 4 * 16 + b div 16) # (b mod 16 * 4 + c div 64) # c mod 64 # sextets bs"
| "sextets [a, b] = [a div 4, a mod 4 * 16 + b div 16, b mod 16 * 4]"
| "sextets [a] = [a div 4, a mod 4 * 16]"
| "sextets [] = []"

fun octets :: "nat list \<Rightarrow> nat list" where
  "octets (w # x # y # z # vs) =
     (w * 4 + x div 16) # (x mod 16 * 16 + y div 4) # (y mod 4 * 64 + z) # octets vs"
| "octets [w, x, y] = [w * 4 + x div 16, x mod 16 * 16 + y div 4]"
| "octets [w, x] = [w * 4 + x div 16]"
| "octets _ = []"

definition b64encode :: "string \<Rightarrow> string" where
  "b64encode s = map (\<lambda>v. B64_ALPHABET ! v) (sextets (map ch s))
                 @ replicate ((3 - length s mod 3) mod 3) CHR ''=''"

text \<open>
  \<^verbatim>\<open>base64.b64decode(payload, validate=True)\<close>, None for \<^verbatim>\<open>binascii.Error\<close>: only characters of
  the alphabet before the padding, and the padding the data asks for. After complete groups
  any further padding is ignored.
\<close>

definition b64decode :: "string \<Rightarrow> string option" where
  "b64decode s =
     (let data = rstrip_char CHR ''='' s; pads = length s - length data in
      if \<not> list_all (\<lambda>c. c \<in> set B64_ALPHABET) data then None
      else if length data mod 4 = 1 \<or> (data = [] \<and> pads > 0)
           \<or> (length data mod 4 = 2 \<and> pads \<noteq> 2) \<or> (length data mod 4 = 3 \<and> pads \<noteq> 1) then None
      else Some (map char_of (octets (map b64_val data))))"

section \<open>json.dumps\<close>

record json_style =
  style_ascii :: bool
  style_item_sep :: string
  style_key_sep :: string
  style_sort_keys :: bool

definition hex4 :: "nat \<Rightarrow> string" where
  "hex4 n = map (\<lambda>d. ''0123456789abcdef'' ! d) [n div 4096 mod 16, n div 256 mod 16, n div 16 mod 16, n mod 16]"

definition json_escape :: "bool \<Rightarrow> char \<Rightarrow> string" where
  "json_escape ascii c =
     (let n = ch c in
      if n = 34 then [char_of (92::nat), c] else if n = 92 then [c, c]
      else if n = 10 then char_of (92::nat) # ''n'' else if n = 13 then char_of (92::nat) # ''r''
      else if n = 9 then char_of (92::nat) # ''t'' else if n = 12 then char_of (92::nat) # ''f''
      else if n = 8 then char_of (92::nat) # ''b''
      else if n < 32 \<or> (ascii \<and> n > 126) then char_of (92::nat) # CHR ''u'' # hex4 n
      else [c])"

definition json_string :: "bool \<Rightarrow> string \<Rightarrow> string" where
  "json_string ascii s = char_of (34::nat) # concat (map (json_escape ascii) s) @ [char_of (34::nat)]"

fun dumps :: "(time \<Rightarrow> string) \<Rightarrow> json_style \<Rightarrow> json \<Rightarrow> string"
and dump_items :: "(time \<Rightarrow> string) \<Rightarrow> json_style \<Rightarrow> (string \<times> json) list \<Rightarrow> (string \<times> string) list"
and dump_list :: "(time \<Rightarrow> string) \<Rightarrow> json_style \<Rightarrow> json list \<Rightarrow> string list" where
  "dumps ts st JNull = ''null''"
| "dumps ts st (JBool b) = (if b then ''true'' else ''false'')"
| "dumps ts st (JInt i) = int_str i"
| "dumps ts st (JStr s) = json_string (style_ascii st) s"
| "dumps ts st (JTime t) = json_string (style_ascii st) (ts t)"
| "dumps ts st (JList xs) = ''['' @ join_with (style_item_sep st) (dump_list ts st xs) @ '']''"
| "dumps ts st (JDict d) =
     ''{'' @ join_with (style_item_sep st)
        (map (\<lambda>(k, v). json_string (style_ascii st) k @ style_key_sep st @ v)
          (if style_sort_keys st then sort_key fst (dump_items ts st d) else dump_items ts st d)) @ ''}''"
| "dump_items ts st [] = []"
| "dump_items ts st ((k, v) # d) = (k, dumps ts st v) # dump_items ts st d"
| "dump_list ts st [] = []"
| "dump_list ts st (x # xs) = dumps ts st x # dump_list ts st xs"

section \<open>webhook\_retry.py\<close>

definition PERMANENT_HTTP_STATUSES :: "int set" where
  "PERMANENT_HTTP_STATUSES = {400, 401, 403, 405, 410, 413, 422}"

definition RETRYABLE_HTTP_STATUSES :: "int set" where
  "RETRYABLE_HTTP_STATUSES = {404, 408, 409, 425, 429}"

definition MAX_BACKOFF_SECONDS :: int where
  "MAX_BACKOFF_SECONDS = 3600"

definition is_permanent_http_status :: "int option \<Rightarrow> bool" where
  "is_permanent_http_status status =
     (case status of
        None \<Rightarrow> False
      | Some s \<Rightarrow>
          if s \<in> PERMANENT_HTTP_STATUSES then True
          else if s \<in> RETRYABLE_HTTP_STATUSES then False
          else if 500 \<le> s \<and> s < 600 then False
          else if 400 \<le> s \<and> s < 500 then False
          else False)"

text \<open>
  \<open>int(raw)\<close> refuses more than 4300 digits. \<open>http_date\<close> is \<^verbatim>\<open>parsedate_to_datetime\<close> with
  None for its exceptions.
\<close>

definition parse_retry_after_header ::
    "(string \<Rightarrow> time option) \<Rightarrow> time \<Rightarrow> string option \<Rightarrow> exn + int option" where
  "parse_retry_after_header http_date now value =
     (case value of
        None \<Rightarrow> Inr None
      | Some v \<Rightarrow>
          let raw = strip v in
          if raw = [] then Inr None
          else if list_all is_digit raw
          then if length raw > 4300 then Inl Value_Error else Inr (Some (max 0 (dec_val raw)))
          else case http_date raw of
                 None \<Rightarrow> Inr None
               | Some target \<Rightarrow> Inr (Some (max 0 ((target - now) div seconds 1))))"

definition compute_retry_delay_seconds :: "int option \<Rightarrow> int option \<Rightarrow> int \<Rightarrow> int" where
  "compute_retry_delay_seconds http_status retry_after_seconds base_backoff_seconds =
     (let delay = (case retry_after_seconds of
                     Some r \<Rightarrow> if http_status \<in> set [Some 429, Some 503] then max base_backoff_seconds r
                               else base_backoff_seconds
                   | None \<Rightarrow> base_backoff_seconds)
      in min MAX_BACKOFF_SECONDS (max 1 delay))"

section \<open>The outside world\<close>

record request =
  rq_scheme :: string
  rq_socket_host :: string
  rq_port :: int
  rq_tls_name :: "string option"
  rq_path :: string
  rq_headers :: "(string \<times> string) list"
  rq_body :: string

text \<open>\<open>rp_body\<close> is None when reading the response fails with \<^verbatim>\<open>OSError\<close>.\<close>

record reply =
  rp_status :: int
  rp_body :: "string option"
  rp_retry_after :: "string option"

text \<open>
  \<open>net_exn_text\<close> is \<^verbatim>\<open>str(exc)\<close>, \<open>net_exn_class\<close> the name of its class.
\<close>

record net_env =
  net_dns :: dns
  net_wire :: "request \<Rightarrow> exn + reply"
  net_http_date :: "string \<Rightarrow> time option"
  net_decode :: "string \<Rightarrow> string"
  net_hmac :: "string \<Rightarrow> string \<Rightarrow> string"
  net_isoformat :: "time \<Rightarrow> string"
  net_exn_text :: "exn \<Rightarrow> string"
  net_exn_class :: "exn \<Rightarrow> string"
  net_request_id :: string
  net_clock :: time

section \<open>webhook\_signing.py\<close>

definition whsec :: string where
  "whsec = ''whsec_''"

text \<open>\<open>raw\<close> is the draw of \<^verbatim>\<open>secrets.token_bytes(32)\<close>.\<close>

definition generate_webhook_signing_secret :: "string \<Rightarrow> string" where
  "generate_webhook_signing_secret raw = whsec @ b64encode raw"

definition normalize_webhook_signing_secret :: "string \<Rightarrow> exn + string" where
  "normalize_webhook_signing_secret secret =
     (let s = strip secret in
      if startswith s whsec then
        let payload = strip (drop (length whsec) s) in
        if payload = [] then Inl Value_Error
        else case b64decode payload of
               None \<Rightarrow> Inl Value_Error
             | Some key \<Rightarrow> if key = [] then Inl Value_Error else Inr key
      else Inr s)"

definition compact_style :: json_style where
  "compact_style = \<lparr> style_ascii = False, style_item_sep = '','', style_key_sep = '':'', style_sort_keys = True \<rparr>"

definition encode_webhook_envelope :: "(time \<Rightarrow> string) \<Rightarrow> dict \<Rightarrow> string" where
  "encode_webhook_envelope ts envelope = dumps ts compact_style (JDict envelope)"

definition sign_webhook_body ::
    "net_env \<Rightarrow> string \<Rightarrow> string \<Rightarrow> string \<Rightarrow> exn + (string \<times> string) list" where
  "sign_webhook_body env secret body webhook_id =
     bind_res (normalize_webhook_signing_secret secret) (\<lambda>key.
       let ts = int_str (net_clock env div seconds 1);
           signed_content = webhook_id @ ''.'' @ ts @ ''.'' @ body;
           sig = b64encode (net_hmac env key signed_content)
       in Inr [(''webhook-id'', webhook_id), (''webhook-timestamp'', ts), (''webhook-signature'', ''v1,'' @ sig)])"

section \<open>webhook\_transport.py\<close>

definition tls_server_name :: "endpoint \<Rightarrow> string" where
  "tls_server_name ep =
     (let h = ep_host_header ep in
      if startswith h ''['' then
        (if CHR '']'' \<notin> set h then h else drop 1 (before_first CHR '']'' h))
      else if CHR '':'' \<in> set h \<and> after_last CHR '':'' h \<noteq> [] \<and> list_all is_digit (after_last CHR '':'' h)
      then before_last CHR '':'' h
      else h)"

definition socket_connect_host :: "string \<Rightarrow> string" where
  "socket_connect_host connect_host =
     (case ip_address connect_host of
        Some (V6 x) \<Rightarrow> compressed6 x @ (if CHR ''%'' \<in> set connect_host
                                        then ''%'' @ after_first CHR ''%'' connect_host else [])
      | _ \<Rightarrow> connect_host)"

definition RESPONSE_EXCERPT_MAX :: nat where
  "RESPONSE_EXCERPT_MAX = 512"

definition read_response_excerpt :: "(string \<Rightarrow> string) \<Rightarrow> string option \<Rightarrow> string" where
  "read_response_excerpt decode body =
     (case body of
        None \<Rightarrow> []
      | Some b \<Rightarrow>
          let raw = take (RESPONSE_EXCERPT_MAX + 1) b in
          if raw = [] then []
          else let text = decode (take RESPONSE_EXCERPT_MAX raw)
               in strip (if length raw > RESPONSE_EXCERPT_MAX then text @ ellipsis else text))"

record post_result =
  pr_status :: int
  pr_excerpt :: string
  pr_retry_after :: "int option"

definition request_of :: "endpoint \<Rightarrow> string \<Rightarrow> (string \<times> string) list \<Rightarrow> request" where
  "request_of ep body headers =
     \<lparr> rq_scheme = ep_scheme ep, rq_socket_host = socket_connect_host (ep_connect_host ep),
       rq_port = ep_port ep,
       rq_tls_name = (if ep_scheme ep = ''https'' then Some (tls_server_name ep) else None),
       rq_path = ep_path ep, rq_headers = headers @ [(''Host'', ep_host_header ep)], rq_body = body \<rparr>"

definition post_resolved_webhook ::
    "net_env \<Rightarrow> endpoint \<Rightarrow> string \<Rightarrow> (string \<times> string) list \<Rightarrow> exn + post_result" where
  "post_resolved_webhook env ep body headers =
     bind_res (net_wire env (request_of ep body headers)) (\<lambda>response.
       let excerpt = read_response_excerpt (net_decode env) (rp_body response) in
       bind_res (parse_retry_after_header (net_http_date env) (net_clock env) (rp_retry_after response))
         (\<lambda>retry_after. Inr \<lparr> pr_status = rp_status response, pr_excerpt = excerpt, pr_retry_after = retry_after \<rparr>))"

text \<open>
  \<^verbatim>\<open>WebhookHTTPError\<close> is raised for a refused endpoint only: its message is that of the
  \<^verbatim>\<open>SSRFError\<close>, it has no status and it is permanent. \<^verbatim>\<open>OSError\<close> is the exception of the network.
\<close>

datatype post_error = Webhook_HTTP_Error string | Raised exn

definition post_webhook_url ::
    "net_env \<Rightarrow> string \<Rightarrow> string \<Rightarrow> (string \<times> string) list \<Rightarrow> bool \<Rightarrow> post_error + post_result" where
  "post_webhook_url env url body headers allow_private =
     (case resolve_webhook_endpoint (net_dns env) url allow_private of
        Inl Ssrf_Error \<Rightarrow> Inl (Webhook_HTTP_Error (net_exn_text env Ssrf_Error))
      | Inl e \<Rightarrow> Inl (Raised e)
      | Inr ep \<Rightarrow>
          (case post_resolved_webhook env ep body headers of Inl e \<Rightarrow> Inl (Raised e) | Inr r \<Rightarrow> Inr r))"

section \<open>handlers/webhook.py\<close>

record delivery_error =
  de_message :: string
  de_http_status :: "int option"
  de_response_excerpt :: string
  de_permanent :: bool
  de_retry_after_seconds :: "int option"

definition plain_error :: "string \<Rightarrow> bool \<Rightarrow> delivery_error" where
  "plain_error message permanent =
     \<lparr> de_message = message, de_http_status = None, de_response_excerpt = [], de_permanent = permanent,
       de_retry_after_seconds = None \<rparr>"

text \<open>\<^verbatim>\<open>WebhookDeliveryError\<close> (and \<^verbatim>\<open>EmailDeliveryError\<close>) or any other exception.\<close>

datatype delivery_exn = Delivery_Error delivery_error | Other_Exn exn

text \<open>\<^verbatim>\<open>(d.get(k) or '').strip()\<close>: a value that is not text has no \<^verbatim>\<open>strip\<close>.\<close>

definition text_field :: "dict \<Rightarrow> string \<Rightarrow> exn + string" where
  "text_field d k =
     (case dict_get d k of
        None \<Rightarrow> Inr []
      | Some v \<Rightarrow> if \<not> truthy v then Inr [] else (case v of JStr s \<Rightarrow> Inr (strip s) | _ \<Rightarrow> Inl Attribute_Error))"

definition field_truthy :: "dict \<Rightarrow> string \<Rightarrow> bool" where
  "field_truthy d k = (case dict_get d k of None \<Rightarrow> False | Some v \<Rightarrow> truthy v)"

definition allow_private_webhook_urls :: "settings \<Rightarrow> dict \<Rightarrow> bool" where
  "allow_private_webhook_urls cfg config =
     (if ACTIONS_WEBHOOK_ALLOW_PRIVATE cfg then True else field_truthy config ''allow_private_urls'')"

text \<open>
  The id and the type of the envelope are text: \<^verbatim>\<open>build_envelope\<close> wrote them.
\<close>

definition webhook_headers ::
    "net_env \<Rightarrow> string \<Rightarrow> int \<Rightarrow> (string \<times> string) list \<Rightarrow> string \<Rightarrow> (string \<times> string) list" where
  "webhook_headers env event_type attempt_number signature auth_header =
     [(''Content-Type'', ''application/json; charset=utf-8''), (''User-Agent'', ''shellui-hosting-actions/1.0''),
      (''X-Shellui-Event'', event_type), (''X-Shellui-Delivery-Attempt'', int_str (max 1 attempt_number))]
     @ signature
     @ (if auth_header \<noteq> [] then [(''Authorization'', auth_header)] else [])
     @ (if net_request_id env \<noteq> [] \<and> net_request_id env \<noteq> ''-''
        then [(''X-Request-ID'', net_request_id env)] else [])"

definition webhook_post_outcome :: "net_env \<Rightarrow> post_error + post_result \<Rightarrow> delivery_exn + unit" where
  "webhook_post_outcome env r =
     (case r of
        Inl (Webhook_HTTP_Error message) \<Rightarrow> Inl (Delivery_Error (plain_error message True))
      | Inl (Raised e) \<Rightarrow>
          if e = Os_Error then Inl (Delivery_Error (plain_error (net_exn_text env e) False))
          else Inl (Other_Exn e)
      | Inr result \<Rightarrow>
          if pr_status result \<ge> 400
          then Inl (Delivery_Error \<lparr> de_message = ''Webhook returned HTTP '' @ int_str (pr_status result),
                      de_http_status = Some (pr_status result), de_response_excerpt = pr_excerpt result,
                      de_permanent = is_permanent_http_status (Some (pr_status result)),
                      de_retry_after_seconds = pr_retry_after result \<rparr>)
          else Inr ())"

definition deliver_webhook_action ::
    "settings \<Rightarrow> net_env \<Rightarrow> dict \<Rightarrow> dict \<Rightarrow> int \<Rightarrow> delivery_exn + unit" where
  "deliver_webhook_action cfg env config envelope attempt_number =
     (case text_field config ''url'' of
        Inl e \<Rightarrow> Inl (Other_Exn e)
      | Inr url \<Rightarrow>
     if url = [] then Inl (Delivery_Error (plain_error ''Webhook URL is not configured.'' True))
     else case text_field config ''secret'' of
        Inl e \<Rightarrow> Inl (Other_Exn e)
      | Inr secret \<Rightarrow>
     if secret = [] then Inl (Delivery_Error (plain_error ''Webhook signing secret is not configured.'' True))
     else let webhook_id = json_text (dict_get envelope ''id'') in
     if webhook_id = [] then Inl (Delivery_Error (plain_error ''Envelope id is required for webhook delivery.'' True))
     else let event_type = json_text (dict_get envelope ''type'');
              body = encode_webhook_envelope (net_isoformat env) envelope in
     case sign_webhook_body env secret body webhook_id of
        Inl e \<Rightarrow> Inl (Other_Exn e)
      | Inr signature \<Rightarrow>
     case text_field config ''authorization_header'' of
        Inl e \<Rightarrow> Inl (Other_Exn e)
      | Inr auth_header \<Rightarrow>
     webhook_post_outcome env
       (post_webhook_url env url body (webhook_headers env event_type attempt_number signature auth_header)
          (allow_private_webhook_urls cfg config)))"

section \<open>rule\_config.py\<close>

definition secret_hint :: "string \<Rightarrow> string" where
  "secret_hint secret =
     (let s = strip secret in
      if s = [] then [] else if length s \<le> 4 then ''****'' else drop (length s - 4) s)"

text \<open>A dict update that keeps the value of another dict.\<close>

definition copy_field :: "dict \<Rightarrow> string \<Rightarrow> dict \<Rightarrow> dict" where
  "copy_field src k d = (case dict_get src k of None \<Rightarrow> d | Some v \<Rightarrow> dict_set d k v)"

definition config_url :: "dict \<Rightarrow> string option \<Rightarrow> bool \<Rightarrow> exn + (dict \<times> bool)" where
  "config_url existing url part =
     bind_res (text_field existing ''url'') (\<lambda>previous_url.
       if url \<noteq> None \<or> \<not> part then
         bind_res (case url of Some u \<Rightarrow> Inr (strip u) | None \<Rightarrow> text_field existing ''url'') (\<lambda>new_url.
           Inr (dict_set existing ''url'' (JStr new_url), url \<noteq> None \<and> new_url \<noteq> previous_url))
       else Inr (existing, False))"

definition config_secret :: "string \<Rightarrow> dict \<Rightarrow> string option \<Rightarrow> bool \<Rightarrow> dict \<Rightarrow> dict" where
  "config_secret raw existing secret part c =
     (case secret of
        Some t \<Rightarrow>
          let secret_s = strip t in
          if secret_s \<noteq> [] then dict_set c ''secret'' (JStr secret_s)
          else if field_truthy existing ''secret'' then copy_field existing ''secret'' c
          else if \<not> part then dict_set c ''secret'' (JStr (generate_webhook_signing_secret raw))
          else c
      | None \<Rightarrow>
          if \<not> part \<and> \<not> field_truthy c ''secret''
          then dict_set c ''secret'' (JStr (generate_webhook_signing_secret raw))
          else if field_truthy existing ''secret'' then copy_field existing ''secret'' c
          else c)"

definition config_authorization :: "dict \<Rightarrow> string option \<Rightarrow> dict \<Rightarrow> dict" where
  "config_authorization existing authorization_header c =
     (case authorization_header of
        Some t \<Rightarrow>
          let auth_s = strip t in
          if auth_s \<noteq> [] then dict_set c ''authorization_header'' (JStr auth_s)
          else dict_pop c ''authorization_header''
      | None \<Rightarrow>
          if field_truthy existing ''authorization_header'' then copy_field existing ''authorization_header'' c
          else c)"

definition config_private :: "dict \<Rightarrow> bool option \<Rightarrow> bool \<Rightarrow> bool \<Rightarrow> bool \<Rightarrow> dict \<Rightarrow> dict" where
  "config_private existing allow_private_urls is_superuser url_changed part c =
     (if is_superuser then
        (case allow_private_urls of
           Some True \<Rightarrow> dict_set c ''allow_private_urls'' (JBool True)
         | Some False \<Rightarrow> dict_pop c ''allow_private_urls''
         | None \<Rightarrow> c)
      else if url_changed then dict_pop c ''allow_private_urls''
      else if \<not> part \<and> field_truthy existing ''allow_private_urls''
      then dict_set c ''allow_private_urls'' (JBool True)
      else c)"

text \<open>\<open>raw\<close> is the random draw of a fresh secret.\<close>

definition build_webhook_config ::
    "string \<Rightarrow> dict \<Rightarrow> string option \<Rightarrow> string option \<Rightarrow> string option \<Rightarrow> bool option \<Rightarrow> bool \<Rightarrow> bool \<Rightarrow> exn + dict" where
  "build_webhook_config raw existing url secret authorization_header allow_private_urls is_superuser part =
     bind_res (config_url existing url part) (\<lambda>(c, url_changed).
       if \<not> field_truthy c ''url'' then Inl Validation_Error
       else Inr (config_private existing allow_private_urls is_superuser url_changed part
                  (config_authorization existing authorization_header
                    (config_secret raw existing secret part c))))"

text \<open>A secret is text: \<^verbatim>\<open>build_webhook_config\<close> wrote it.\<close>

definition mask_config_for_response :: "dict \<Rightarrow> string \<Rightarrow> dict" where
  "mask_config_for_response config action_kind =
     (if action_kind = ACTION_WEBHOOK then
        let raw_secret = json_text (dict_get config ''secret'');
            c1 = dict_pop (dict_pop config ''secret'') ''authorization_header'';
            c2 = dict_set c1 ''has_secret'' (JBool (raw_secret \<noteq> []));
            c3 = dict_set c2 ''secret_hint'' (JStr (secret_hint raw_secret))
        in dict_set c3 ''authorization_header_set'' (JBool (field_truthy config ''authorization_header''))
      else config)"

section \<open>Base64 loses nothing\<close>

lemma group_arith:
  "(q :: nat) < 16 \<Longrightarrow> (r * 16 + q) div 16 = r" "q < 16 \<Longrightarrow> (r * 16 + q) mod 16 = q"
  "q < 4 \<Longrightarrow> (r * 4 + q) div 4 = r" "q < 4 \<Longrightarrow> (r * 4 + q) mod 4 = q"
  "(b :: nat) < 256 \<Longrightarrow> b div 16 < 16" "b < 256 \<Longrightarrow> b div 64 < 4"
  by (simp_all add: less_mult_imp_div_less)

lemma octets_sextets: "\<forall>b\<in>set bs. b < 256 \<Longrightarrow> octets (sextets bs) = bs"
  by (induction bs rule: sextets.induct) (simp_all add: group_arith mult.commute[of _ 4])

lemma sextet_bounds:
  "(a :: nat) < 256 \<Longrightarrow> a div 4 < 64" "b < 256 \<Longrightarrow> a mod 4 * 16 + b div 16 < 64"
  "c < 256 \<Longrightarrow> b mod 16 * 4 + c div 64 < (64 :: nat)" "a mod 4 * 16 < 64" "b mod 16 * 4 < 64"
proof -
  have m: "a mod 4 \<le> 3" "b mod 16 \<le> 15" using mod_less_divisor[of 4 a] mod_less_divisor[of 16 b] by linarith+
  show "a < 256 \<Longrightarrow> a div 4 < 64" by (simp add: less_mult_imp_div_less)
  show "b < 256 \<Longrightarrow> a mod 4 * 16 + b div 16 < 64" using m group_arith(5)[of b] by linarith
  show "c < 256 \<Longrightarrow> b mod 16 * 4 + c div 64 < 64" using m group_arith(6)[of c] by linarith
  show "a mod 4 * 16 < 64" "b mod 16 * 4 < 64" using m by linarith+
qed

lemma sextets_bound: "\<forall>b\<in>set bs. b < 256 \<Longrightarrow> \<forall>v\<in>set (sextets bs). v < 64"
  by (induction bs rule: sextets.induct) (simp_all add: sextet_bounds)

lemma sextets_length: "length (sextets bs) mod 4 = [0, 2, 3] ! (length bs mod 3)"
  by (induction bs rule: sextets.induct) simp_all

lemma b64_alphabet_laws:
  "v < 64 \<Longrightarrow> b64_val (B64_ALPHABET ! v) = v" "v < 64 \<Longrightarrow> B64_ALPHABET ! v \<in> set B64_ALPHABET"
  "CHR ''='' \<notin> set B64_ALPHABET" "c \<in> set B64_ALPHABET \<Longrightarrow> \<not> is_space c"
proof -
  have "list_all (\<lambda>v. b64_val (B64_ALPHABET ! v) = v) [0..<64]" by code_simp
  then show "v < 64 \<Longrightarrow> b64_val (B64_ALPHABET ! v) = v" by (auto simp: list_all_iff)
  show "v < 64 \<Longrightarrow> B64_ALPHABET ! v \<in> set B64_ALPHABET" by (rule nth_mem) (simp add: B64_ALPHABET_def)
  show "CHR ''='' \<notin> set B64_ALPHABET" by (simp add: B64_ALPHABET_def)
  have "list_all (\<lambda>c. \<not> is_space c) B64_ALPHABET" by code_simp
  then show "c \<in> set B64_ALPHABET \<Longrightarrow> \<not> is_space c" by (simp add: list_all_iff)
qed

lemma b64_roundtrip: "b64decode (b64encode s) = Some s"
proof -
  define bs where "bs = map ch s"
  have bs: "\<forall>b\<in>set bs. b < 256" by (auto simp: bs_def ch_def)
  define data where "data = map (\<lambda>v. B64_ALPHABET ! v) (sextets bs)"
  define k where "k = (3 - length s mod 3) mod 3"
  have enc: "b64encode s = data @ replicate k CHR ''=''" by (simp add: b64encode_def data_def bs_def k_def)
  have sx: "\<forall>v\<in>set (sextets bs). v < 64" by (rule sextets_bound[OF bs])
  have alpha: "list_all (\<lambda>c. c \<in> set B64_ALPHABET) data"
    using sx b64_alphabet_laws(2) by (auto simp: data_def list_all_iff)
  then have no_pad: "dropWhile (\<lambda>x. x = CHR ''='') (rev data) = rev data"
    using b64_alphabet_laws(3) by (cases "rev data") (auto simp: list_all_iff rev_eq_Cons_iff)
  have "dropWhile (\<lambda>x. x = CHR ''='') (replicate k CHR ''='' @ rev data) = rev data"
    by (subst dropWhile_append2) (simp_all add: no_pad)
  then have r: "rstrip_char CHR ''='' (b64encode s) = data"
    by (simp add: rstrip_char_def rstrip_by_def enc)
  have vals: "map b64_val data = sextets bs"
    using sx b64_alphabet_laws(1) by (simp add: data_def o_def map_idI)
  have len: "length data mod 4 = [0, 2, 3] ! (length s mod 3)"
    using sextets_length[of bs] by (simp add: data_def bs_def)
  have m: "length s mod 3 = 0 \<or> length s mod 3 = 1 \<or> length s mod 3 = 2" by linarith
  have empty: "data = [] \<Longrightarrow> s = []"
    by (cases s) (auto simp: data_def bs_def dest: sextets.elims)
  have "octets (map b64_val data) = bs" using octets_sextets[OF bs] vals by simp
  moreover have "map char_of bs = s" by (simp add: bs_def ch_def o_def)
  moreover have "length (b64encode s) - length data = k" by (simp add: enc)
  ultimately show ?thesis
    using alpha r len m empty by (auto simp: b64decode_def Let_def k_def)
qed

lemma b64encode_chars: "c \<in> set (b64encode s) \<Longrightarrow> \<not> is_space c"
proof -
  have "\<forall>v\<in>set (sextets (map ch s)). v < 64" by (rule sextets_bound) (auto simp: ch_def)
  then show "c \<in> set (b64encode s) \<Longrightarrow> \<not> is_space c"
    using b64_alphabet_laws(2,4) by (auto simp: b64encode_def is_space_def ch_def)
qed

lemma b64encode_nonempty: "s \<noteq> [] \<Longrightarrow> b64encode s \<noteq> []"
  using arg_cong[of "b64encode s" "[]" b64decode] b64_roundtrip[of s]
  by (auto simp: b64decode_def rstrip_char_def rstrip_by_def)

text \<open>A signing secret that the service draws comes back as the drawn key: for any non-empty
  bytes, \<^verbatim>\<open>normalize_webhook_signing_secret\<close> of the text that
  \<^verbatim>\<open>generate_webhook_signing_secret\<close> returns decodes (base64, padding included) to exactly
  these bytes, also when the stored text has got white space around it. So the key a receiver derives
  from the displayed secret is the key that signs.\<close>

theorem signing_secret_roundtrip:
  assumes "raw \<noteq> []" "\<forall>c\<in>set pre \<union> set post. is_space c"
  shows "normalize_webhook_signing_secret (pre @ generate_webhook_signing_secret raw @ post) = Inr raw"
proof -
  have ns: "c \<in> set (whsec @ b64encode raw) \<Longrightarrow> \<not> is_space c" for c
    using b64encode_chars by (auto simp: whsec_def is_space_def ch_def)
  have "strip (pre @ (whsec @ b64encode raw) @ post) = whsec @ b64encode raw"
    using strip_surrounded[of pre post "whsec @ b64encode raw"] strip_no_space[OF ns, of "whsec @ b64encode raw"] assms(2)
    by (simp add: list_all_iff ball_Un)
  moreover have "strip (b64encode raw) = b64encode raw" by (rule strip_no_space) (rule b64encode_chars)
  ultimately show ?thesis
    using assms(1) b64encode_nonempty[OF assms(1)]
    by (simp add: normalize_webhook_signing_secret_def generate_webhook_signing_secret_def startswith_iff
        b64_roundtrip Let_def)
qed

theorem signing_secret_roundtrip_witness:
  "normalize_webhook_signing_secret ('' '' @ generate_webhook_signing_secret ''abcd'' @ [CHR 0x0A]) = Inr ''abcd''
   \<and> generate_webhook_signing_secret ''abcd'' = ''whsec_YWJjZA==''"
proof
  show "normalize_webhook_signing_secret ('' '' @ generate_webhook_signing_secret ''abcd'' @ [CHR 0x0A]) = Inr ''abcd''"
    by (rule signing_secret_roundtrip) (simp_all add: is_space_def ch_def)
  show "generate_webhook_signing_secret ''abcd'' = ''whsec_YWJjZA==''" by code_simp
qed

section \<open>Retry delays\<close>

text \<open>The wait before a retry is bounded and honours the receiver where the code says so: it
  is always between one second and one hour, it is at least the exponential backoff (up to the hour),
  and on 429 and 503 it is also at least the \<^verbatim>\<open>Retry-After\<close> of the response (up to the hour);
  on any other status the header is ignored.\<close>

theorem retry_delay_bounds:
  "compute_retry_delay_seconds status retry_after base \<in> {1..3600}
   \<and> min 3600 base \<le> compute_retry_delay_seconds status retry_after base
   \<and> (case retry_after of
        None \<Rightarrow> compute_retry_delay_seconds status retry_after base = min 3600 (max 1 base)
      | Some r \<Rightarrow> if status = Some 429 \<or> status = Some 503
                  then min 3600 r \<le> compute_retry_delay_seconds status retry_after base
                  else compute_retry_delay_seconds status retry_after base = min 3600 (max 1 base))"
  by (auto simp: compute_retry_delay_seconds_def MAX_BACKOFF_SECONDS_def Let_def split: option.split)

section \<open>One delivery\<close>

lemma post_webhook_Inr:
  "post_webhook_url env url body headers priv = Inr r \<longleftrightarrow>
     (\<exists>ep. resolve_webhook_endpoint (net_dns env) url priv = Inr ep
         \<and> post_resolved_webhook env ep body headers = Inr r)"
  by (auto simp: post_webhook_url_def split: sum.splits exn.splits)

lemma post_resolved_Inr:
  "post_resolved_webhook env ep body headers = Inr r \<Longrightarrow>
     \<exists>reply. net_wire env (request_of ep body headers) = Inr reply \<and> rp_status reply = pr_status r"
  by (auto simp: post_resolved_webhook_def bind_res_Inr)

definition signature_header :: "net_env \<Rightarrow> string \<Rightarrow> string \<Rightarrow> string \<Rightarrow> string \<times> string" where
  "signature_header env key webhook_id body =
     (''webhook-signature'',
      ''v1,'' @ b64encode (net_hmac env key (webhook_id @ ''.'' @ int_str (net_clock env div seconds 1) @ ''.'' @ body)))"

lemma deliver_webhook_Inr:
  assumes "deliver_webhook_action cfg env config envelope n = Inr ()"
  obtains url secret key auth r where
    "text_field config ''url'' = Inr url" "url \<noteq> []" "text_field config ''secret'' = Inr secret" "secret \<noteq> []"
    "json_text (dict_get envelope ''id'') \<noteq> []" "normalize_webhook_signing_secret secret = Inr key"
    "post_webhook_url env url (encode_webhook_envelope (net_isoformat env) envelope)
       (webhook_headers env (json_text (dict_get envelope ''type'')) n
          [(''webhook-id'', json_text (dict_get envelope ''id'')),
           (''webhook-timestamp'', int_str (net_clock env div seconds 1)),
           signature_header env key (json_text (dict_get envelope ''id''))
             (encode_webhook_envelope (net_isoformat env) envelope)] auth)
       (allow_private_webhook_urls cfg config) = Inr r"
    "pr_status r < 400"
  using assms
  by (auto simp: deliver_webhook_action_def webhook_post_outcome_def sign_webhook_body_def Let_def
      bind_res_Inr signature_header_def split: sum.splits if_splits post_error.splits)

text \<open>C18. What a delivered webhook did: if \<^verbatim>\<open>deliver_webhook_action\<close> returns while neither the
  settings nor the rule allow private targets, then exactly the POST of the compact, key-sorted
  envelope went over a connection to a public address (judged by the guard, pinned for the connection),
  it carried the HMAC signature of \<^verbatim>\<open>id.timestamp.body\<close> under the key of the rule's secret, and
  the response had a status below 400.\<close>

theorem webhook_delivered_safely:
  assumes "deliver_webhook_action cfg env config envelope n = Inr ()"
    and "\<not> allow_private_webhook_urls cfg config"
  shows "\<exists>ep a key headers reply secret url.
       text_field config ''url'' = Inr url \<and> resolve_webhook_endpoint (net_dns env) url False = Inr ep
     \<and> ip_address (ep_connect_host ep) = Some a \<and> public_address a
     \<and> text_field config ''secret'' = Inr secret \<and> normalize_webhook_signing_secret secret = Inr key
     \<and> signature_header env key (json_text (dict_get envelope ''id''))
          (encode_webhook_envelope (net_isoformat env) envelope) \<in> set headers
     \<and> net_wire env (request_of ep (encode_webhook_envelope (net_isoformat env) envelope) headers) = Inr reply
     \<and> rp_status reply < 400"
  using assms(1)
proof (rule deliver_webhook_Inr)
  fix url secret key auth r
  define body where "body = encode_webhook_envelope (net_isoformat env) envelope"
  define hs where "hs = webhook_headers env (json_text (dict_get envelope ''type'')) n
          [(''webhook-id'', json_text (dict_get envelope ''id'')),
           (''webhook-timestamp'', int_str (net_clock env div seconds 1)),
           signature_header env key (json_text (dict_get envelope ''id''))
             (encode_webhook_envelope (net_isoformat env) envelope)] auth"
  assume u: "text_field config ''url'' = Inr url" and s: "text_field config ''secret'' = Inr secret"
    and k: "normalize_webhook_signing_secret secret = Inr key" and st: "pr_status r < 400"
    and p: "post_webhook_url env url (encode_webhook_envelope (net_isoformat env) envelope)
       (webhook_headers env (json_text (dict_get envelope ''type'')) n
          [(''webhook-id'', json_text (dict_get envelope ''id'')),
           (''webhook-timestamp'', int_str (net_clock env div seconds 1)),
           signature_header env key (json_text (dict_get envelope ''id''))
             (encode_webhook_envelope (net_isoformat env) envelope)] auth)
       (allow_private_webhook_urls cfg config) = Inr r"
  obtain ep where ep: "resolve_webhook_endpoint (net_dns env) url False = Inr ep"
    "post_resolved_webhook env ep body hs = Inr r"
    using p assms(2) unfolding hs_def body_def by (auto simp: post_webhook_Inr)
  obtain a where a: "ip_address (ep_connect_host ep) = Some a" "public_address a"
    using guarded_target[OF ep(1)] by blast
  obtain reply where rp: "net_wire env (request_of ep body hs) = Inr reply" "rp_status reply = pr_status r"
    using post_resolved_Inr[OF ep(2)] by blast
  have sg: "signature_header env key (json_text (dict_get envelope ''id'')) body \<in> set hs"
    by (simp add: hs_def webhook_headers_def body_def)
  show ?thesis
    using u s k st ep(1) a rp sg unfolding body_def[symmetric] by (metis (no_types, lifting))
qed

lemma is_permanent_iff: "is_permanent_http_status status \<longleftrightarrow> (\<exists>s. status = Some s \<and> s \<in> PERMANENT_HTTP_STATUSES)"
  by (cases status) (simp_all add: is_permanent_http_status_def)

lemma post_webhook_ssrf:
  "post_webhook_url env url body headers priv = Inl (Webhook_HTTP_Error m) \<Longrightarrow>
     resolve_webhook_endpoint (net_dns env) url priv = Inl Ssrf_Error"
  "resolve_webhook_endpoint (net_dns env) url priv = Inl Ssrf_Error \<Longrightarrow>
     \<exists>m. post_webhook_url env url body headers priv = Inl (Webhook_HTTP_Error m)"
  by (auto simp: post_webhook_url_def split: sum.splits exn.splits)

lemma outcome_permanent:
  assumes "webhook_post_outcome env r = Inl (Delivery_Error de)"
  shows "de_permanent de \<longleftrightarrow> (\<exists>m. r = Inl (Webhook_HTTP_Error m))
           \<or> (\<exists>s. de_http_status de = Some s \<and> s \<in> PERMANENT_HTTP_STATUSES)"
    and "de_http_status de = Some s \<Longrightarrow> s \<ge> 400"
  using assms
  by (auto simp: webhook_post_outcome_def plain_error_def is_permanent_iff
      split: sum.splits post_error.splits if_splits)

text \<open>Why a webhook delivery failed decides whether it is retried: a
  \<^verbatim>\<open>WebhookDeliveryError\<close> is permanent exactly when the rule or the envelope is incomplete (no
  URL, no secret, no id), when the guard refused the URL (an \<^verbatim>\<open>SSRFError\<close>), or when the response
  status is one of the seven permanent ones (400, 401, 403, 405, 410, 413, 422); network errors, every
  other 4xx and 5xx are retried. A response status is always recorded and is at least 400.\<close>

theorem webhook_failure_class:
  assumes "deliver_webhook_action cfg env config envelope n = Inl (Delivery_Error de)"
  shows "(de_permanent de \<longleftrightarrow>
            text_field config ''url'' = Inr [] \<or> text_field config ''secret'' = Inr []
          \<or> json_text (dict_get envelope ''id'') = []
          \<or> (\<exists>url. text_field config ''url'' = Inr url
               \<and> resolve_webhook_endpoint (net_dns env) url (allow_private_webhook_urls cfg config) = Inl Ssrf_Error)
          \<or> (\<exists>s. de_http_status de = Some s \<and> s \<in> {400, 401, 403, 405, 410, 413, 422}))
     \<and> (\<forall>s. de_http_status de = Some s \<longrightarrow> s \<ge> 400)"
proof -
  obtain url where u: "text_field config ''url'' = Inr url"
    using assms by (auto simp: deliver_webhook_action_def split: sum.splits)
  consider "url = []" | secret where "url \<noteq> []" "text_field config ''secret'' = Inr secret"
    using assms u by (cases "url = []") (auto simp: deliver_webhook_action_def split: sum.splits)
  then show ?thesis
  proof cases
    case 1
    then show ?thesis using assms u by (auto simp: deliver_webhook_action_def plain_error_def)
  next
    case 2
    show ?thesis
    proof (cases "secret = [] \<or> json_text (dict_get envelope ''id'') = []")
      case True
      then show ?thesis
        using assms u 2 by (auto simp: deliver_webhook_action_def plain_error_def Let_def split: if_splits)
    next
      case False
      then obtain body hs where o: "webhook_post_outcome env
          (post_webhook_url env url body hs (allow_private_webhook_urls cfg config)) = Inl (Delivery_Error de)"
        using assms u 2 by (auto simp: deliver_webhook_action_def Let_def split: sum.splits if_splits)
      have "(\<exists>m. post_webhook_url env url body hs (allow_private_webhook_urls cfg config) = Inl (Webhook_HTTP_Error m))
          \<longleftrightarrow> resolve_webhook_endpoint (net_dns env) url (allow_private_webhook_urls cfg config) = Inl Ssrf_Error"
        using post_webhook_ssrf by blast
      then show ?thesis
        using u 2 False outcome_permanent[OF o] unfolding PERMANENT_HTTP_STATUSES_def by simp
    qed
  qed
qed

definition demo_net :: "int \<Rightarrow> net_env" where
  "demo_net status =
     \<lparr> net_dns = (\<lambda>h p. Some [(''10.0.0.7'', 443), (''93.184.216.34'', 443)]),
       net_wire = (\<lambda>r. Inr \<lparr> rp_status = status, rp_body = Some ''gone'', rp_retry_after = None \<rparr>),
       net_http_date = (\<lambda>s. None), net_decode = (\<lambda>s. s), net_hmac = (\<lambda>k m. take 4 (k @ m)),
       net_isoformat = (\<lambda>t. int_str t), net_exn_text = (\<lambda>e. ''error''), net_exn_class = (\<lambda>e. ''Error''),
       net_request_id = ''-'', net_clock = 0 \<rparr>"

definition demo_config :: dict where
  "demo_config = [(''url'', JStr ''https://hooks.example.com/in''), (''secret'', JStr ''whsec_YWJjZA=='')]"

definition demo_envelope :: dict where
  "demo_envelope = [(''id'', JStr ''e1''), (''type'', JStr ''app.created'')]"

lemma demo_deliver:
  "deliver_webhook_action default_settings (demo_net 204) demo_config demo_envelope 1 = Inr ()"
  by code_simp

lemma demo_deliver_gone:
  "deliver_webhook_action default_settings (demo_net 410) demo_config demo_envelope 1
     = Inl (Delivery_Error \<lparr> de_message = ''Webhook returned HTTP 410'', de_http_status = Some 410,
              de_response_excerpt = ''gone'', de_permanent = True, de_retry_after_seconds = None \<rparr>)"
  by code_simp

theorem webhook_delivered_safely_witness:
  "\<exists>ep a (reply :: reply). resolve_webhook_endpoint (net_dns (demo_net 204)) ''https://hooks.example.com/in'' False = Inr ep
     \<and> ip_address (ep_connect_host ep) = Some a \<and> public_address a \<and> rp_status reply < 400"
proof -
  have p: "\<not> allow_private_webhook_urls default_settings demo_config" by code_simp
  have "text_field demo_config ''url'' = Inr ''https://hooks.example.com/in''" by code_simp
  then have u: "text_field demo_config ''url'' = Inr v \<longleftrightarrow> v = ''https://hooks.example.com/in''" for v by auto
  show ?thesis using webhook_delivered_safely[OF demo_deliver p] unfolding u by blast
qed

theorem webhook_failure_class_witness:
  "\<exists>de. deliver_webhook_action default_settings (demo_net 410) demo_config demo_envelope 1 = Inl (Delivery_Error de)
      \<and> de_http_status de = Some 410 \<and> de_permanent de"
  using webhook_failure_class[OF demo_deliver_gone] demo_deliver_gone by simp

section \<open>The signed body does not depend on the order of keys\<close>

fun canon :: "json \<Rightarrow> json"
and canon_items :: "(string \<times> json) list \<Rightarrow> (string \<times> json) list"
and canon_list :: "json list \<Rightarrow> json list" where
  "canon (JDict d) = JDict (sort_key fst (canon_items d))"
| "canon (JList xs) = JList (canon_list xs)"
| "canon (JStr s) = JStr s"
| "canon (JTime t) = JTime t"
| "canon (JInt i) = JInt i"
| "canon (JBool b) = JBool b"
| "canon JNull = JNull"
| "canon_items [] = []"
| "canon_items ((k, v) # d) = (k, canon v) # canon_items d"
| "canon_list [] = []"
| "canon_list (x # xs) = canon x # canon_list xs"

lemma insort_key_map: "map g (insort_key (\<lambda>a. f (g a)) x xs) = insort_key f (g x) (map g xs)"
  by (induction xs) auto

lemma sort_key_map: "sort_key f (map g xs) = map g (sort_key (\<lambda>a. f (g a)) xs)"
  by (induction xs) (simp_all add: insort_key_map)

lemma dump_items_map: "dump_items ts st d = map (\<lambda>(k, v). (k, dumps ts st v)) d"
  by (induction d) auto

lemma dump_items_sort: "sort_key fst (dump_items ts st d) = dump_items ts st (sort_key fst d)"
  by (simp add: dump_items_map sort_key_map case_prod_beta)

lemma dumps_canon:
  assumes "style_sort_keys st"
  shows "dumps ts st v = dumps ts (st\<lparr>style_sort_keys := False\<rparr>) (canon v)"
    and "dump_items ts st d = dump_items ts (st\<lparr>style_sort_keys := False\<rparr>) (canon_items d)"
    and "dump_list ts st xs = dump_list ts (st\<lparr>style_sort_keys := False\<rparr>) (canon_list xs)"
  using assms
  by (induction v and d and xs rule: canon_canon_items_canon_list.induct) (simp_all add: dump_items_sort)

lemma canon_items_map: "canon_items d = map (\<lambda>(k, v). (k, canon v)) d"
  by (induction d) auto

lemma sort_items_unique:
  assumes "set d = set d'" "distinct (map fst d)" "distinct (map fst d')"
  shows "sort_key fst d = sort_key fst (d' :: (string \<times> 'a) list)"
proof (rule map_sorted_distinct_set_unique[of fst])
  show "inj_on fst (set (sort_key fst d) \<union> set (sort_key fst d'))" using assms by (simp add: distinct_map)
qed (use assms in \<open>auto simp: distinct_map\<close>)

text \<open>The body that is signed is canonical: \<^verbatim>\<open>encode_webhook_envelope\<close> prints the envelope
  whose dicts are sorted by key at every depth, so two envelopes with the same items in another order
  give the same bytes, and a receiver (or a retry that reads the stored JSON back in another key order)
  computes the same signature.\<close>

theorem signed_body_canonical:
  "encode_webhook_envelope ts d = dumps ts (compact_style\<lparr>style_sort_keys := False\<rparr>) (canon (JDict d))
   \<and> (set d = set d' \<longrightarrow> distinct (map fst d) \<longrightarrow> distinct (map fst d') \<longrightarrow>
        encode_webhook_envelope ts d = encode_webhook_envelope ts d')"
proof -
  have c: "encode_webhook_envelope ts e = dumps ts (compact_style\<lparr>style_sort_keys := False\<rparr>) (canon (JDict e))" for e
    unfolding encode_webhook_envelope_def by (rule dumps_canon) (simp add: compact_style_def)
  have "canon (JDict d) = canon (JDict d')"
    if "set d = set d'" "distinct (map fst d)" "distinct (map fst d')"
  proof -
    have "sort_key fst (canon_items d) = sort_key fst (canon_items d')"
      using that by (intro sort_items_unique) (auto simp: canon_items_map o_def case_prod_beta)
    then show ?thesis by simp
  qed
  then show ?thesis using c by metis
qed

theorem signed_body_canonical_witness:
  "encode_webhook_envelope int_str [(''b'', JInt 1), (''a'', JList [])] = encode_webhook_envelope int_str [(''a'', JList []), (''b'', JInt 1)]"
  using signed_body_canonical[of int_str "[(''b'', JInt 1), (''a'', JList [])]" "[(''a'', JList []), (''b'', JInt 1)]"]
  by auto

section \<open>Rule configuration\<close>

lemma config_url_Inr:
  assumes "config_url existing url part = Inr (c, changed)" "\<not> changed"
  shows "text_field c ''url'' = text_field existing ''url''"
  using assms
  by (auto simp: config_url_def bind_res_Inr text_field_def split: if_splits option.splits json.splits)

lemma config_frames [simp]:
  "k \<noteq> ''secret'' \<Longrightarrow> dict_get (config_secret raw existing secret part c) k = dict_get c k"
  "k \<noteq> ''authorization_header'' \<Longrightarrow> dict_get (config_authorization existing auth c) k = dict_get c k"
  "k \<noteq> ''allow_private_urls'' \<Longrightarrow> dict_get (config_private existing allow su changed part c) k = dict_get c k"
  by (auto simp: config_secret_def config_authorization_def config_private_def copy_field_def Let_def
      split: option.splits bool.splits)

lemma config_url_frame:
  "config_url existing url part = Inr (c, changed) \<Longrightarrow> k \<noteq> ''url'' \<Longrightarrow> dict_get c k = dict_get existing k"
  by (auto simp: config_url_def bind_res_Inr split: if_splits)

lemma build_config_laws:
  assumes "build_webhook_config raw existing url secret auth allow su part = Inr c"
  shows "field_truthy c ''url''"
    and "\<not> su \<Longrightarrow> field_truthy c ''allow_private_urls'' \<Longrightarrow>
           field_truthy existing ''allow_private_urls'' \<and> text_field c ''url'' = text_field existing ''url''"
    and "\<not> part \<Longrightarrow> field_truthy c ''secret''"
    and "field_truthy existing ''secret'' \<Longrightarrow> secret = None \<or> strip (the secret) = [] \<Longrightarrow>
           dict_get c ''secret'' = dict_get existing ''secret''"
proof -
  obtain c1 changed where u: "config_url existing url part = Inr (c1, changed)" "field_truthy c1 ''url''"
    and c: "c = config_private existing allow su changed part (config_authorization existing auth
                  (config_secret raw existing secret part c1))"
    using assms by (auto simp: build_webhook_config_def bind_res_Inr split: if_splits)
  have url: "dict_get c ''url'' = dict_get c1 ''url''" unfolding c by simp
  show "field_truthy c ''url''" using u(2) url by (simp add: field_truthy_def)
  have tf: "text_field c ''url'' = text_field c1 ''url''" using url by (simp add: text_field_def)
  have sec: "dict_get c ''secret'' = dict_get (config_secret raw existing secret part c1) ''secret''" unfolding c by simp
  have e1: "dict_get c1 ''secret'' = dict_get existing ''secret''"
    "dict_get c1 ''allow_private_urls'' = dict_get existing ''allow_private_urls''"
    using config_url_frame[OF u(1)] by simp_all
  show "field_truthy existing ''allow_private_urls'' \<and> text_field c ''url'' = text_field existing ''url''"
    if "\<not> su" "field_truthy c ''allow_private_urls''"
  proof -
    have "\<not> changed" using that c by (auto simp: config_private_def field_truthy_def)
    then show ?thesis
      using that tf config_url_Inr[OF u(1)] e1(2) unfolding c
      by (auto simp: config_private_def field_truthy_def split: if_splits)
  qed
  show "field_truthy c ''secret''" if "\<not> part"
    using that sec e1(1)
    by (auto simp: field_truthy_def config_secret_def copy_field_def Let_def generate_webhook_signing_secret_def
        whsec_def split: option.splits if_splits)
  show "dict_get c ''secret'' = dict_get existing ''secret''"
    if "field_truthy existing ''secret''" "secret = None \<or> strip (the secret) = []"
    using that sec e1(1)
    by (auto simp: field_truthy_def config_secret_def copy_field_def Let_def split: option.splits if_splits)
qed

text \<open>C26. Only a superuser opens a webhook to private networks: a configuration that
  \<^verbatim>\<open>build_webhook_config\<close> makes for anybody else allows private targets only if the existing one
  already did and its URL (white space aside) is unchanged, so the permission cannot be carried over to
  another target. Whoever saves, a full save leaves a signing secret, a blank or missing secret in the
  request keeps the stored one, and the URL is never empty.\<close>

theorem rule_config_guarded:
  assumes "build_webhook_config raw existing url secret auth allow su part = Inr c"
  shows "field_truthy c ''url''
     \<and> (\<not> su \<and> field_truthy c ''allow_private_urls'' \<longrightarrow>
          field_truthy existing ''allow_private_urls'' \<and> text_field c ''url'' = text_field existing ''url'')
     \<and> (\<not> part \<longrightarrow> field_truthy c ''secret'')
     \<and> (field_truthy existing ''secret'' \<and> (secret = None \<or> strip (the secret) = []) \<longrightarrow>
          dict_get c ''secret'' = dict_get existing ''secret'')"
  using build_config_laws[OF assms] by blast

theorem rule_config_guarded_witness:
  "\<exists>c. build_webhook_config ''abcd'' (dict_set demo_config ''allow_private_urls'' (JBool True))
          (Some ''https://other.example.com'') None None (Some True) False True = Inr c
     \<and> \<not> field_truthy c ''allow_private_urls'' \<and> field_truthy c ''secret''"
proof -
  let ?e = "dict_set demo_config ''allow_private_urls'' (JBool True)"
  let ?c = "[(''url'', JStr ''https://other.example.com''), (''secret'', JStr ''whsec_YWJjZA=='')]"
  have b: "build_webhook_config ''abcd'' ?e (Some ''https://other.example.com'') None None (Some True) False True = Inr ?c"
    by code_simp
  then show ?thesis
    using rule_config_guarded[OF b] by (simp add: field_truthy_def dict_get_def demo_config_def)
qed

text \<open>The API never shows a stored secret: what \<^verbatim>\<open>mask_config_for_response\<close> returns for a
  webhook rule has neither the signing secret nor the authorization header, only flags that they are
  set and a hint of at most the last four characters (four stars when the secret is that short); every
  other entry is returned as stored.\<close>

theorem masked_config_hides_secrets:
  "dict_get (mask_config_for_response config ACTION_WEBHOOK) ''secret'' = None
   \<and> dict_get (mask_config_for_response config ACTION_WEBHOOK) ''authorization_header'' = None
   \<and> (\<exists>hint. dict_get (mask_config_for_response config ACTION_WEBHOOK) ''secret_hint'' = Some (JStr hint)
        \<and> length hint \<le> 4
        \<and> (hint \<in> {[], ''****''} \<or> (\<exists>s. length s > 4 \<and> hint = drop (length s - 4) s
              \<and> s = strip (json_text (dict_get config ''secret'')))))
   \<and> (\<forall>k. k \<notin> {''secret'', ''authorization_header'', ''has_secret'', ''secret_hint'', ''authorization_header_set''}
        \<longrightarrow> dict_get (mask_config_for_response config ACTION_WEBHOOK) k = dict_get config k)"
  by (auto simp: mask_config_for_response_def Let_def secret_hint_def)

theorem masked_config_hides_secrets_witness:
  "dict_get (mask_config_for_response demo_config ACTION_WEBHOOK) ''url'' = dict_get demo_config ''url''
   \<and> dict_get (mask_config_for_response demo_config ACTION_WEBHOOK) ''secret'' = None"
  using masked_config_hides_secrets[of demo_config] by simp

end
