(* ===== verification/Email_Service.thy ===== *)
theory Email_Service
  imports Webhook
begin

text \<open>
  The delivering half of \<^verbatim>\<open>apps/actions/email_service.py\<close>: the POST of a stored event body to
  the email service, over the same guarded transport as the webhooks, with the service key removed
  from every text that is stored. The enqueueing half is in the theory of emission.
\<close>

section \<open>Text replacement\<close>

text \<open>\<^verbatim>\<open>text.replace(old, new)\<close> for a non-empty \<open>old\<close>: from the left, without overlaps.\<close>

function replace_all :: "string \<Rightarrow> string \<Rightarrow> string \<Rightarrow> string" where
  "replace_all old new [] = []"
| "replace_all old new (c # s) =
     (if old \<noteq> [] \<and> startswith (c # s) old then new @ replace_all old new (drop (length old) (c # s))
      else c # replace_all old new s)"
  by pat_completeness auto
termination
proof (relation "measure (\<lambda>(old, new, s). length s)")
  fix old new s :: string and c
  assume "old \<noteq> [] \<and> startswith (c # s) old"
  then show "((old, new, drop (length old) (c # s)), old, new, c # s) \<in> measure (\<lambda>(old, new, s). length s)"
    by (cases old) auto
qed simp_all

section \<open>email\_service.py\<close>

definition email_service_allow_private :: "settings \<Rightarrow> bool" where
  "email_service_allow_private cfg = EMAIL_SERVICE_ALLOW_PRIVATE cfg"

definition email_service_events_url :: "settings \<Rightarrow> string" where
  "email_service_events_url cfg =
     (let base = rstrip_char CHR ''/'' (strip (EMAIL_SERVICE_URL cfg)) in
      (if base = [] then ''https://email.shellui.com'' else base) @ ''/api/v1/events'')"

definition redact_api_key :: "settings \<Rightarrow> string \<Rightarrow> string" where
  "redact_api_key cfg text =
     (let key = email_service_api_key cfg in
      if key = [] \<or> text = [] \<or> \<not> contains text key then text
      else replace_all key ''[redacted]'' text)"

definition email_status_is_permanent :: "int option \<Rightarrow> bool" where
  "email_status_is_permanent status = is_permanent_http_status status"

definition default_style :: json_style where
  "default_style = \<lparr> style_ascii = True, style_item_sep = '', '', style_key_sep = '': '', style_sort_keys = False \<rparr>"

definition email_headers :: "settings \<Rightarrow> net_env \<Rightarrow> (string \<times> string) list" where
  "email_headers cfg env =
     [(''Authorization'', ''Bearer '' @ email_service_api_key cfg), (''Accept'', ''application/json''),
      (''Content-Type'', ''application/json''), (''User-Agent'', ''shellui-hosting-email/1.0'')]
     @ (if net_request_id env \<noteq> [] \<and> net_request_id env \<noteq> ''-''
        then [(''X-Request-ID'', net_request_id env)] else [])"

definition email_error_message :: "string \<Rightarrow> string" where
  "email_error_message m =
     (if startswith m ''Webhook URL'' then ''Email service URL'' @ drop (length ''Webhook URL'') m else m)"

definition email_post_outcome :: "settings \<Rightarrow> post_error + post_result \<Rightarrow> delivery_exn + int" where
  "email_post_outcome cfg r =
     (case r of
        Inl (Webhook_HTTP_Error message) \<Rightarrow>
          Inl (Delivery_Error (plain_error (email_error_message (redact_api_key cfg message)) True))
      | Inl (Raised e) \<Rightarrow>
          if e = Os_Error then Inl (Delivery_Error (plain_error ''Email service request failed.'' False))
          else Inl (Other_Exn e)
      | Inr result \<Rightarrow>
          if 200 \<le> pr_status result \<and> pr_status result < 300 then Inr (pr_status result)
          else Inl (Delivery_Error
                 \<lparr> de_message = ''Email service returned HTTP '' @ int_str (pr_status result),
                   de_http_status = Some (pr_status result),
                   de_response_excerpt = redact_api_key cfg (take 512 (pr_excerpt result)),
                   de_permanent = email_status_is_permanent (Some (pr_status result)),
                   de_retry_after_seconds =
                     (if pr_status result \<in> set [429, 503] then pr_retry_after result else None) \<rparr>))"

definition post_email_event :: "settings \<Rightarrow> net_env \<Rightarrow> dict \<Rightarrow> delivery_exn + int" where
  "post_email_event cfg env body =
     (if \<not> email_service_configured cfg
      then Inl (Delivery_Error (plain_error ''Email service is not configured.'' True))
      else let url = email_service_events_url cfg in
      if \<not> (startswith url ''https://'' \<or> startswith url ''http://'')
      then Inl (Delivery_Error (plain_error ''Email service URL is not http(s).'' True))
      else email_post_outcome cfg
             (post_webhook_url env url (dumps (net_isoformat env) default_style (JDict body))
                (email_headers cfg env) (email_service_allow_private cfg)))"

section \<open>The key is never stored\<close>

lemma contains_cut:
  assumes "p \<noteq> []" "c \<notin> set p"
  shows "contains (u @ c # v) p \<longleftrightarrow> contains u p \<or> contains v p"
proof
  assume "contains (u @ c # v) p"
  then obtain x y where "u @ c # v = x @ p @ y" by (auto simp: contains_iff)
  then consider z where "v = z @ p @ y" | t where "u = x @ t" "t @ c # v = p @ y"
    using assms by (auto simp: append_eq_append_conv2 Cons_eq_append_conv)
  then show "contains u p \<or> contains v p"
  proof cases
    case 1 then show ?thesis by (auto simp: contains_iff)
  next
    case 2
    then obtain z where "t = p @ z" using assms(2) by (auto simp: append_eq_append_conv2 Cons_eq_append_conv)
    then show ?thesis using 2(1) by (auto simp: contains_iff)
  qed
next
  assume "contains u p \<or> contains v p"
  then show "contains (u @ c # v) p"
  proof
    assume "contains u p"
    then obtain x y where "u = x @ p @ y" by (auto simp: contains_iff)
    then have "u @ c # v = x @ p @ (y @ c # v)" by simp
    then show ?thesis unfolding contains_iff by blast
  next
    assume "contains v p"
    then obtain x y where "v = x @ p @ y" by (auto simp: contains_iff)
    then have "u @ c # v = (u @ c # x) @ p @ y" by simp
    then show ?thesis unfolding contains_iff by blast
  qed
qed

text \<open>What the replaced text begins with, short of a marker, the text itself begins with.\<close>

lemma replace_all_starts:
  assumes "m \<notin> set q" "startswith (replace_all old (m # new) s) q"
  shows "startswith s q"
  using assms
proof (induction old "m # new" s arbitrary: q rule: replace_all.induct)
  case (2 old c s)
  show ?case
  proof (cases q)
    case (Cons a q')
    then have f: "\<not> (old \<noteq> [] \<and> startswith (c # s) old)" using 2(3,4) by (auto simp: startswith_iff)
    then have "a = c" "startswith (replace_all old (m # new) s) q'" using 2(4) Cons by (auto simp: startswith_iff)
    then show ?thesis using 2(2)[OF f, of q'] 2(3) Cons by (auto simp: startswith_iff)
  qed (simp add: startswith_iff)
qed simp

lemma replace_all_removes:
  assumes "old \<noteq> []" "m \<notin> set old" "n \<notin> set old" "\<not> contains w old"
  shows "\<not> contains (replace_all old (m # w @ [n]) s) old"
proof (induction s rule: length_induct)
  case (1 s)
  show ?case
  proof (cases s)
    case Nil then show ?thesis using assms(1) by simp
  next
    case (Cons c t)
    show ?thesis
    proof (cases "startswith s old")
      case True
      let ?r = "replace_all old (m # w @ [n]) (drop (length old) s)"
      have "\<not> contains ?r old" using 1 assms(1) Cons by (cases old) auto
      then have "\<not> contains (w @ n # ?r) old" using contains_cut[OF assms(1,3)] assms(4) by blast
      then have "\<not> contains ([] @ m # w @ n # ?r) old"
        using contains_cut[OF assms(1,2)] assms(1) by (metis contains.simps(1))
      then show ?thesis using True assms(1) Cons by simp
    next
      case False
      let ?r = "replace_all old (m # w @ [n]) t"
      have e: "replace_all old (m # w @ [n]) s = c # ?r" using False Cons by simp
      have "\<not> startswith (c # ?r) old"
        using replace_all_starts[OF assms(2), of old "w @ [n]" s] False e by auto
      moreover have "\<not> contains ?r old" using 1 Cons by simp
      ultimately show ?thesis unfolding e by simp
    qed
  qed
qed

text \<open>No text that passes \<^verbatim>\<open>redact_api_key\<close> shows the email service key: for every key without
  square brackets that is not itself a part of the word in the marker, the returned text has no
  occurrence of the key, whatever the text was (also where removing one occurrence moves other
  characters together), and a text without the key is returned unchanged.\<close>

theorem api_key_redacted:
  assumes "email_service_api_key cfg = key" "key \<noteq> []"
    and "CHR ''['' \<notin> set key" "CHR '']'' \<notin> set key" "\<not> contains ''redacted'' key"
  shows "\<not> contains (redact_api_key cfg text) key
     \<and> (\<not> contains text key \<longrightarrow> redact_api_key cfg text = text)"
  using assms replace_all_removes[of key "CHR ''[''" "CHR '']''" "''redacted''" "text"]
  by (cases "text = []") (simp_all add: redact_api_key_def Let_def)

theorem api_key_redacted_witness:
  "\<not> contains (redact_api_key (default_settings\<lparr>EMAIL_SERVICE_API_KEY := ''sk-42''\<rparr>) ''Bearer sk-sk-42-42'') ''sk-42''
   \<and> redact_api_key (default_settings\<lparr>EMAIL_SERVICE_API_KEY := ''sk-42''\<rparr>) ''Bearer sk-sk-42-42'' = ''Bearer sk-[redacted]-42''"
proof
  have "email_service_api_key (default_settings\<lparr>EMAIL_SERVICE_API_KEY := ''sk-42''\<rparr>) = ''sk-42''" by code_simp
  moreover have "\<not> contains ''redacted'' ''sk-42''" by code_simp
  ultimately show "\<not> contains (redact_api_key (default_settings\<lparr>EMAIL_SERVICE_API_KEY := ''sk-42''\<rparr>) ''Bearer sk-sk-42-42'') ''sk-42''"
    using api_key_redacted[of "default_settings\<lparr>EMAIL_SERVICE_API_KEY := ''sk-42''\<rparr>" "''sk-42''" "''Bearer sk-sk-42-42''"]
    by simp
  show "redact_api_key (default_settings\<lparr>EMAIL_SERVICE_API_KEY := ''sk-42''\<rparr>) ''Bearer sk-sk-42-42'' = ''Bearer sk-[redacted]-42''"
    by code_simp
qed

end
