(* ===== verification/Delivery.thy ===== *)
theory Delivery
  imports Email_Service "HOL-Library.Product_Lexorder"
begin

text \<open>
  Outbox delivery, retries and claims: \<^verbatim>\<open>apps/actions/delivery.py\<close>. One delivery is three
  steps, as in the code: a transaction that loads the row, the HTTP request outside any
  transaction, and a transaction that records the result unless another worker has
  recorded one in the meantime. The steps are separate operations here, so that the
  theory of interleaved workers can order them freely.
\<close>

section \<open>Settings and texts\<close>

definition max_attempts :: "settings \<Rightarrow> int" where
  "max_attempts cfg = ACTIONS_OUTBOX_MAX_ATTEMPTS cfg"

definition backoff_seconds :: "nat \<Rightarrow> int" where
  "backoff_seconds attempt_number = min 3600 (30 * 2 ^ (attempt_number - 1))"

definition lease_seconds :: "settings \<Rightarrow> int" where
  "lease_seconds cfg = ACTIONS_WEBHOOK_RETRY_LEASE_SECONDS cfg"

definition format_attempt_error :: "string \<Rightarrow> int option \<Rightarrow> string \<Rightarrow> string" where
  "format_attempt_error error_message http_status response_excerpt =
     join_with '' | ''
       ([if strip error_message = [] then ''Delivery failed.'' else strip error_message]
        @ (case http_status of None \<Rightarrow> [] | Some s \<Rightarrow> [''HTTP '' @ int_str s])
        @ (if response_excerpt \<noteq> [] then [''body: '' @ take 512 response_excerpt] else []))"

section \<open>Loading a row\<close>

record work =
  wk_kind :: delivery_kind
  wk_rule :: "action_rule option"
  wk_terminal :: "string option"
  wk_envelope :: dict
  wk_snapshot :: nat

text \<open>
  A webhook row without a rule has \<^verbatim>\<open>rule = None\<close>, whose \<^verbatim>\<open>enabled\<close> is an
  \<^verbatim>\<open>AttributeError\<close>.
\<close>

definition load_rule_for_delivery :: "db \<Rightarrow> outbox \<Rightarrow> exn + (action_rule option \<times> string option)" where
  "load_rule_for_delivery d row =
     (if ob_delivery_kind row = KIND_EMAIL then Inr (None, None)
      else case ob_action_rule row of
             None \<Rightarrow> Inl Attribute_Error
           | Some i \<Rightarrow>
               (case first_row (\<lambda>r. rule_id r = i) (rules d) of
                  None \<Rightarrow> Inr (None, Some ''Action rule deleted.'')
                | Some rule \<Rightarrow>
                    if \<not> rule_enabled rule then Inr (None, Some ''Action rule disabled.'')
                    else if rule_action_kind rule \<noteq> ACTION_WEBHOOK
                    then Inr (None, Some ''Unsupported action kind (webhook only).'')
                    else Inr (Some rule, None)))"

datatype loaded = Return "outbox option" | Work work

definition deliver_load :: "uuid \<Rightarrow> db \<Rightarrow> exn + loaded" where
  "deliver_load outbox_id d =
     (case first_row (\<lambda>o1. ob_id o1 = outbox_id) (outbox_rows d) of
        None \<Rightarrow> Inr (Return None)
      | Some row \<Rightarrow>
          if ob_status row = OB_DELIVERED then Inr (Return (Some row))
          else if ob_status row = OB_DEAD then Inr (Return (Some row))
          else map_res (\<lambda>(rule, terminal_error).
                 Work \<lparr> wk_kind = ob_delivery_kind row, wk_rule = rule, wk_terminal = terminal_error,
                        wk_envelope = ob_envelope row, wk_snapshot = ob_attempt_count row \<rparr>)
                 (load_rule_for_delivery d row))"

section \<open>The HTTP request\<close>

record meta =
  am_http_status :: "int option"
  am_response_excerpt :: string
  am_error_message :: string
  am_permanent :: bool
  am_retry_after :: "int option"
  am_duration_ms :: "int option"

definition no_meta :: meta where
  "no_meta = \<lparr> am_http_status = None, am_response_excerpt = [], am_error_message = [], am_permanent = False,
               am_retry_after = None, am_duration_ms = None \<rparr>"

definition exn_message :: "net_env \<Rightarrow> exn \<Rightarrow> string" where
  "exn_message env e = (if net_exn_text env e \<noteq> [] then net_exn_text env e else net_exn_class env e)"

definition error_meta :: "delivery_error \<Rightarrow> int \<Rightarrow> meta" where
  "error_meta de ms =
     \<lparr> am_http_status = de_http_status de, am_response_excerpt = de_response_excerpt de,
       am_error_message = de_message de, am_permanent = de_permanent de,
       am_retry_after = de_retry_after_seconds de, am_duration_ms = Some ms \<rparr>"

definition perform_http_delivery ::
    "settings \<Rightarrow> net_env \<Rightarrow> int \<Rightarrow> action_rule \<Rightarrow> dict \<Rightarrow> nat \<Rightarrow> bool \<times> meta" where
  "perform_http_delivery cfg env ms rule envelope attempt_number =
     (case deliver_webhook_action cfg env (rule_config rule) envelope (int attempt_number) of
        Inr _ \<Rightarrow> (True, no_meta\<lparr>am_duration_ms := Some ms\<rparr>)
      | Inl (Delivery_Error de) \<Rightarrow> (False, error_meta de ms)
      | Inl (Other_Exn e) \<Rightarrow>
          (False, no_meta\<lparr>am_duration_ms := Some ms, am_error_message := exn_message env e\<rparr>))"

definition perform_email_delivery :: "settings \<Rightarrow> net_env \<Rightarrow> int \<Rightarrow> dict \<Rightarrow> bool \<times> meta" where
  "perform_email_delivery cfg env ms envelope =
     (case post_email_event cfg env envelope of
        Inr http_status \<Rightarrow> (True, no_meta\<lparr>am_duration_ms := Some ms, am_http_status := Some http_status\<rparr>)
      | Inl (Delivery_Error de) \<Rightarrow>
          (False, (error_meta de ms)\<lparr>am_error_message := redact_api_key cfg (de_message de),
                     am_response_excerpt := redact_api_key cfg (de_response_excerpt de)\<rparr>)
      | Inl (Other_Exn e) \<Rightarrow>
          (False, no_meta\<lparr>am_duration_ms := Some ms,
                     am_error_message := redact_api_key cfg (exn_message env e)\<rparr>))"

section \<open>Recording the result\<close>

text \<open>
  \<^verbatim>\<open>_apply_delivery_result\<close> on the row that was just read under its lock. The row and the
  attempt it writes; \<^verbatim>\<open>attempt_error\<close> is the terminal error or the formatted and redacted
  text of the failure.
\<close>

definition attempt_error :: "settings \<Rightarrow> string option \<Rightarrow> meta \<Rightarrow> string" where
  "attempt_error cfg terminal_error am =
     (case terminal_error of
        Some e \<Rightarrow> e
      | None \<Rightarrow> redact_api_key cfg
                 (format_attempt_error (am_error_message am) (am_http_status am) (am_response_excerpt am)))"

definition new_attempt ::
    "settings \<Rightarrow> time \<Rightarrow> outbox \<Rightarrow> string option \<Rightarrow> bool \<Rightarrow> meta \<Rightarrow> attempt_trigger \<Rightarrow> nat option \<Rightarrow> attempt" where
  "new_attempt cfg now row terminal_error success am trigger run =
     \<lparr> att_outbox = ob_id row, att_status = (if success then ATT_SUCCESS else ATT_FAILURE),
       att_http_status = (if terminal_error = None then am_http_status am else None),
       att_error_message = (if success then [] else attempt_error cfg terminal_error am),
       att_number = ob_attempt_count row + 1,
       att_duration_ms = (if terminal_error = None then am_duration_ms am else None),
       att_trigger = trigger, att_scheduled_job_run_id = run, att_created_at = now \<rparr>"

definition result_row ::
    "settings \<Rightarrow> time \<Rightarrow> outbox \<Rightarrow> string option \<Rightarrow> bool \<Rightarrow> meta \<Rightarrow> outbox" where
  "result_row cfg now row terminal_error success am =
     (let attempt_number = ob_attempt_count row + 1;
          permanent = (terminal_error \<noteq> None \<or> am_permanent am);
          http_status = (if terminal_error = None then am_http_status am else None);
          err = attempt_error cfg terminal_error am;
          row1 = row\<lparr>ob_attempt_count := attempt_number, ob_locked_until := None, ob_updated_at := now\<rparr>
      in if success then
           row1\<lparr>ob_status := OB_DELIVERED, ob_delivered_at := Some now, ob_last_error := [],
                ob_next_attempt_at := None\<rparr>
         else if permanent \<or> int attempt_number \<ge> max_attempts cfg then
           row1\<lparr>ob_status := OB_DEAD, ob_last_error := err, ob_next_attempt_at := None\<rparr>
         else
           row1\<lparr>ob_status := OB_FAILED, ob_last_error := err,
                ob_next_attempt_at := Some (now + seconds
                  (compute_retry_delay_seconds http_status (am_retry_after am) (backoff_seconds attempt_number)))\<rparr>)"

definition apply_delivery_result ::
    "settings \<Rightarrow> time \<Rightarrow> outbox \<Rightarrow> string option \<Rightarrow> bool \<Rightarrow> meta \<Rightarrow> attempt_trigger \<Rightarrow> nat option \<Rightarrow> db \<Rightarrow> db \<times> outbox" where
  "apply_delivery_result cfg now row terminal_error ok am trigger run d =
     (let success = (if terminal_error \<noteq> None then False else ok);
          row' = result_row cfg now row terminal_error success am
      in (d\<lparr>attempts := attempts d @ [new_attempt cfg now row terminal_error success am trigger run],
            outbox_rows := update_rows (\<lambda>o1. ob_id o1 = ob_id row) (\<lambda>_. row') (outbox_rows d)\<rparr>, row'))"

definition deliver_finish ::
    "settings \<Rightarrow> time \<Rightarrow> uuid \<Rightarrow> work \<Rightarrow> bool \<Rightarrow> meta \<Rightarrow> attempt_trigger \<Rightarrow> nat option \<Rightarrow> db \<Rightarrow> exn + (db \<times> outbox)" where
  "deliver_finish cfg now outbox_id w success am trigger run d =
     (case first_row (\<lambda>o1. ob_id o1 = outbox_id) (outbox_rows d) of
        None \<Rightarrow> Inl Does_Not_Exist
      | Some row \<Rightarrow>
          if ob_attempt_count row \<noteq> wk_snapshot w then Inr (d, row)
          else Inr (apply_delivery_result cfg now row (wk_terminal w) success am trigger run d))"

text \<open>The request of a loaded row; a row with a terminal error makes none.\<close>

definition perform :: "settings \<Rightarrow> net_env \<Rightarrow> int \<Rightarrow> work \<Rightarrow> bool \<times> meta" where
  "perform cfg env ms w =
     (if wk_terminal w \<noteq> None then (False, no_meta)
      else if wk_kind w = KIND_EMAIL then perform_email_delivery cfg env ms (wk_envelope w)
      else case wk_rule w of
             Some rule \<Rightarrow> perform_http_delivery cfg env ms rule (wk_envelope w) (wk_snapshot w + 1)
           | None \<Rightarrow> (False, no_meta))"

text \<open>
  \<^verbatim>\<open>deliver_outbox_row\<close> when nobody else writes between its transactions: the result on
  success and the database after it (also when it raises).
\<close>

definition deliver_outbox_row ::
    "settings \<Rightarrow> net_env \<Rightarrow> int \<Rightarrow> uuid \<Rightarrow> attempt_trigger \<Rightarrow> nat option \<Rightarrow> db \<Rightarrow> exn + (db \<times> outbox option)" where
  "deliver_outbox_row cfg env ms outbox_id trigger run d =
     bind_res (deliver_load outbox_id d) (\<lambda>l.
       case l of
         Return r \<Rightarrow> Inr (d, r)
       | Work w \<Rightarrow>
           (case perform cfg env ms w of
              (success, am) \<Rightarrow>
                map_res (\<lambda>(d', row). (d', Some row))
                  (deliver_finish cfg (net_clock env) outbox_id w success am trigger run d)))"

text \<open>\<^verbatim>\<open>_safe_deliver_outbox_row\<close>: an exception is logged, the database is as the transactions left it.\<close>

definition safe_deliver_outbox_row :: "settings \<Rightarrow> net_env \<Rightarrow> int \<Rightarrow> uuid \<Rightarrow> db \<Rightarrow> db" where
  "safe_deliver_outbox_row cfg env ms outbox_id d =
     (case deliver_outbox_row cfg env ms outbox_id TRIGGER_DISPATCH None d of
        Inr (d', _) \<Rightarrow> d' | Inl _ \<Rightarrow> d)"

text \<open>
  The callback of \<^verbatim>\<open>schedule_outbox_delivery\<close> with synchronous delivery: every id in turn. The
  thread pool runs the same function, one call per id, interleaved with everything else.
\<close>

definition run_scheduled_deliveries :: "settings \<Rightarrow> (uuid \<Rightarrow> net_env) \<Rightarrow> int \<Rightarrow> uuid list \<Rightarrow> db \<Rightarrow> db" where
  "run_scheduled_deliveries cfg envs ms outbox_ids d =
     fold (\<lambda>oid. safe_deliver_outbox_row cfg (envs oid) ms oid) outbox_ids d"

section \<open>Claiming\<close>

definition pending_outbox :: "time \<Rightarrow> outbox \<Rightarrow> bool" where
  "pending_outbox now o1 \<longleftrightarrow>
     ob_status o1 \<in> set [OB_PENDING, OB_FAILED]
     \<and> (case ob_next_attempt_at o1 of None \<Rightarrow> True | Some t \<Rightarrow> t \<le> now)
     \<and> (case ob_locked_until o1 of None \<Rightarrow> True | Some t \<Rightarrow> t \<le> now)"

text \<open>
  \<^verbatim>\<open>order_by('next_attempt_at', 'created_at')\<close>: PostgreSQL sorts nulls last. A pair of
  flag and time orders an optional time that way.
\<close>

definition claim_key :: "outbox \<Rightarrow> (bool \<times> time) \<times> time" where
  "claim_key o1 = ((case ob_next_attempt_at o1 of None \<Rightarrow> (True, 0) | Some t \<Rightarrow> (False, t)), ob_created_at o1)"

text \<open>\<open>locked\<close> are the rows that other transactions hold; \<^verbatim>\<open>skip_locked\<close> passes them over.\<close>

definition next_pending :: "time \<Rightarrow> uuid set \<Rightarrow> db \<Rightarrow> outbox option" where
  "next_pending now locked d =
     (case sort_key claim_key (filter (\<lambda>o1. pending_outbox now o1 \<and> ob_id o1 \<notin> locked) (outbox_rows d)) of
        [] \<Rightarrow> None | row # _ \<Rightarrow> Some row)"

definition claim_next_pending_outbox ::
    "settings \<Rightarrow> time \<Rightarrow> time \<Rightarrow> uuid set \<Rightarrow> db \<Rightarrow> (db \<times> outbox) option" where
  "claim_next_pending_outbox cfg now wall locked d =
     (case next_pending now locked d of
        None \<Rightarrow> None
      | Some row \<Rightarrow>
          let row' = row\<lparr>ob_locked_until := Some (now + seconds (lease_seconds cfg)), ob_updated_at := wall\<rparr>
          in Some (d\<lparr>outbox_rows := update_rows (\<lambda>o1. ob_id o1 = ob_id row) (\<lambda>_. row') (outbox_rows d)\<rparr>, row'))"

section \<open>The retry job\<close>

record stats =
  st_processed :: nat
  st_delivered :: nat
  st_retried :: nat
  st_dead :: nat
  st_email_processed :: nat
  st_email_delivered :: nat
  st_email_retried :: nat
  st_email_dead :: nat

definition zero_stats :: stats where
  "zero_stats = \<lparr> st_processed = 0, st_delivered = 0, st_retried = 0, st_dead = 0, st_email_processed = 0,
     st_email_delivered = 0, st_email_retried = 0, st_email_dead = 0 \<rparr>"

definition add_stats :: "stats \<Rightarrow> stats \<Rightarrow> stats" where
  "add_stats s t =
     \<lparr> st_processed = st_processed s + st_processed t, st_delivered = st_delivered s + st_delivered t,
       st_retried = st_retried s + st_retried t, st_dead = st_dead s + st_dead t,
       st_email_processed = st_email_processed s + st_email_processed t,
       st_email_delivered = st_email_delivered s + st_email_delivered t,
       st_email_retried = st_email_retried s + st_email_retried t,
       st_email_dead = st_email_dead s + st_email_dead t \<rparr>"

definition summarize_delivery_result :: "outbox_status \<Rightarrow> outbox option \<Rightarrow> stats" where
  "summarize_delivery_result before_status after =
     (case after of
        None \<Rightarrow> zero_stats
      | Some row \<Rightarrow>
          let delta =
            (if ob_status row = OB_DELIVERED then zero_stats\<lparr>st_processed := 1, st_delivered := 1\<rparr>
             else if ob_status row = OB_DEAD then zero_stats\<lparr>st_processed := 1, st_dead := 1\<rparr>
             else if ob_status row = OB_FAILED then zero_stats\<lparr>st_processed := 1, st_retried := 1\<rparr>
             else if before_status \<in> set [OB_PENDING, OB_FAILED] then zero_stats\<lparr>st_processed := 1, st_retried := 1\<rparr>
             else zero_stats\<lparr>st_processed := 1\<rparr>)
          in if ob_delivery_kind row = KIND_EMAIL
             then delta\<lparr>st_email_processed := st_processed delta, st_email_delivered := st_delivered delta,
                        st_email_retried := st_retried delta, st_email_dead := st_dead delta\<rparr>
             else delta)"

text \<open>
  The main loop with one worker (\<^verbatim>\<open>concurrency = 1\<close>; the thread pool of a larger one is the step
  relation of \<open>Retry_Pool\<close>), \<open>in_time k\<close> being the test of the deadline
  before iteration \<open>k\<close> and \<open>envs k\<close> the outside world of its request. None is an exhausted
  fuel; \<^verbatim>\<open>retry_run_terminates\<close> below shows that one more than the batch size is enough.
  An exception of a delivery ends the run: loading a row is all that can raise here, so the database
  is the one of the claim.
\<close>

record retry_input =
  ri_batch_size :: nat
  ri_dry_run :: bool
  ri_now :: time
  ri_run_id :: "nat option"
  ri_in_time :: "nat \<Rightarrow> bool"
  ri_env :: "nat \<Rightarrow> net_env"
  ri_ms :: int

definition retry_one ::
    "settings \<Rightarrow> retry_input \<Rightarrow> nat \<Rightarrow> outbox \<Rightarrow> db \<Rightarrow> stats \<Rightarrow> exn + (db \<times> stats)" where
  "retry_one cfg inp k row d stats =
     (if ri_dry_run inp then
        let stats' = add_stats stats (zero_stats\<lparr>st_processed := 1,
                       st_email_processed := (if ob_delivery_kind row = KIND_EMAIL then 1 else 0)\<rparr>)
        in Inr (d\<lparr>outbox_rows := update_rows (\<lambda>o1. ob_id o1 = ob_id row)
                    (\<lambda>o1. o1\<lparr>ob_locked_until := None\<rparr>) (outbox_rows d)\<rparr>, stats')
      else map_res (\<lambda>(d', after). (d', add_stats stats (summarize_delivery_result (ob_status row) after)))
             (deliver_outbox_row cfg (ri_env inp k) (ri_ms inp) (ob_id row) TRIGGER_AUTOMATIC_RETRY
                (ri_run_id inp) d))"

fun retry_loop ::
    "settings \<Rightarrow> retry_input \<Rightarrow> nat \<Rightarrow> nat \<Rightarrow> db \<Rightarrow> stats \<Rightarrow> (exn \<times> db + db \<times> stats) option" where
  "retry_loop cfg inp 0 k d stats = None"
| "retry_loop cfg inp (Suc fuel) k d stats =
     (if \<not> (st_processed stats < ri_batch_size inp \<and> ri_in_time inp k) then Some (Inr (d, stats))
      else case claim_next_pending_outbox cfg (ri_now inp) (net_clock (ri_env inp k)) {} d of
             None \<Rightarrow> Some (Inr (d, stats))
           | Some (d1, row) \<Rightarrow>
               (case retry_one cfg inp k row d1 stats of
                  Inl e \<Rightarrow> Some (Inl (e, d1))
                | Inr (d2, stats') \<Rightarrow> retry_loop cfg inp fuel (k + 1) d2 stats'))"

definition retry_pending_webhooks ::
    "settings \<Rightarrow> retry_input \<Rightarrow> db \<Rightarrow> (exn \<times> db + db \<times> stats) option" where
  "retry_pending_webhooks cfg inp d = retry_loop cfg inp (ri_batch_size inp + 1) 0 d zero_stats"

section \<open>admin\_api\_views.py: requeueing\<close>

text \<open>\<^verbatim>\<open>ShellUIAdminActionDeliveryRequeueView\<close> after its guards: None is 404.\<close>

definition requeue_delivery :: "company \<Rightarrow> uuid \<Rightarrow> db \<Rightarrow> db option" where
  "requeue_delivery company_id delivery_id d =
     (case first_row (\<lambda>o1. ob_delivery_kind o1 = KIND_WEBHOOK \<and> ob_id o1 = delivery_id
              \<and> ob_company_id o1 = company_id) (outbox_rows d) of
        None \<Rightarrow> None
      | Some row \<Rightarrow>
          Some (d\<lparr>outbox_rows := update_rows (\<lambda>o1. ob_id o1 = ob_id row)
                    (\<lambda>o1. o1\<lparr>ob_status := OB_PENDING, ob_next_attempt_at := None, ob_last_error := [],
                             ob_locked_until := None\<rparr>) (outbox_rows d)\<rparr>))"

end
