(* ===== verification/Delivery_Steps.thy ===== *)
theory Delivery_Steps
  imports Delivery
begin

text \<open>
  Workers that interleave. The dispatch threads of every web process, the retry jobs of every
  container, the admin API, the emission of new events and the deletion of rows all write the same
  outbox; only the transactions of \<^verbatim>\<open>delivery.py\<close> are atomic. A state is the database and
  the loaded rows whose request is still running; a step is one transaction of one of these
  writers. The invariant is that the attempts of a row are numbered without gap or repetition,
  whatever the interleaving.
\<close>

section \<open>Invariants over the steps of a system\<close>

locale step_system =
  fixes step :: "'s \<Rightarrow> 's \<Rightarrow> bool" and inv :: "'s \<Rightarrow> bool"
  assumes inv_step: "step s s' \<Longrightarrow> inv s \<Longrightarrow> inv s'"
begin

lemma inv_steps: "step\<^sup>*\<^sup>* s s' \<Longrightarrow> inv s \<Longrightarrow> inv s'"
  by (induction rule: rtranclp_induct) (auto intro: inv_step)

text \<open>What every step keeps under the invariant, every run keeps.\<close>

lemma related_steps:
  assumes "step\<^sup>*\<^sup>* s s'" "inv s" "reflp r" "transp r"
    and "\<And>u v. step u v \<Longrightarrow> inv u \<Longrightarrow> r u v"
  shows "r s s'"
  using assms(1)
proof (induction rule: rtranclp_induct)
  case base show ?case using assms(3) by (simp add: reflpD)
next
  case (step u v)
  then have "r u v" using assms(2,5) inv_steps by blast
  then show ?case using step.IH assms(4) by (meson transpE)
qed

end

section \<open>The ledger of attempts\<close>

definition row_attempts :: "attempt list \<Rightarrow> uuid \<Rightarrow> attempt list" where
  "row_attempts ts i = filter (\<lambda>t. att_outbox t = i) ts"

definition row_ok :: "settings \<Rightarrow> attempt list \<Rightarrow> outbox \<Rightarrow> bool" where
  "row_ok cfg ts o1 \<longleftrightarrow>
     map att_number (row_attempts ts (ob_id o1)) = [1..<ob_attempt_count o1 + 1]
     \<and> (ob_status o1 = OB_DELIVERED \<longrightarrow> row_attempts ts (ob_id o1) \<noteq> []
          \<and> att_status (last (row_attempts ts (ob_id o1))) = ATT_SUCCESS)
     \<and> (ob_status o1 \<in> {OB_FAILED, OB_DEAD} \<longrightarrow> row_attempts ts (ob_id o1) \<noteq> []
          \<and> att_status (last (row_attempts ts (ob_id o1))) = ATT_FAILURE)
     \<and> (ob_status o1 = OB_FAILED \<longrightarrow> int (ob_attempt_count o1) < max_attempts cfg \<and> ob_next_attempt_at o1 \<noteq> None)"

definition delivery_inv :: "settings \<Rightarrow> db \<Rightarrow> bool" where
  "delivery_inv cfg d \<longleftrightarrow>
     distinct (map ob_id (outbox_rows d))
     \<and> (\<forall>t\<in>set (attempts d). \<exists>o1\<in>set (outbox_rows d). ob_id o1 = att_outbox t)
     \<and> (\<forall>o1\<in>set (outbox_rows d). row_ok cfg (attempts d) o1)"

lemma in_map_iff: "y \<in> set (map f xs) \<longleftrightarrow> (\<exists>x\<in>set xs. f x = y)"
  by auto

lemma ids_update:
  "(\<And>o1. ob_id (f o1) = ob_id o1) \<Longrightarrow> map ob_id (update_rows p f rs) = map ob_id rs"
  by (rule map_update_rows)

lemma has_id_update:
  assumes "\<And>o1. ob_id (f o1) = ob_id o1"
  shows "(\<exists>o1\<in>set (update_rows p f rs). ob_id o1 = i) \<longleftrightarrow> (\<exists>o1\<in>set rs. ob_id o1 = i)"
proof -
  have "i \<in> set (map ob_id (update_rows p f rs)) \<longleftrightarrow> i \<in> set (map ob_id rs)"
    using ids_update[OF assms] by simp
  then show ?thesis by (simp only: in_map_iff)
qed

lemma update_same_row:
  assumes "distinct (map ob_id rs)" "row \<in> set rs" "ob_id (f row) = ob_id row"
  shows "update_rows (\<lambda>o1. ob_id o1 = ob_id row) (\<lambda>_. f row) rs = update_rows (\<lambda>o1. ob_id o1 = ob_id row) f rs"
  using assms distinct_map_unique[OF assms(1) _ assms(2)] by (auto simp: update_rows_def)

text \<open>A write that changes no count and keeps what a row promises.\<close>

lemma delivery_inv_update:
  assumes "delivery_inv cfg d" "outbox_rows d' = update_rows p f (outbox_rows d)" "attempts d' = attempts d"
    and "\<And>o1. ob_id (f o1) = ob_id o1"
    and "\<And>o1. o1 \<in> set (outbox_rows d) \<Longrightarrow> p o1 \<Longrightarrow> row_ok cfg (attempts d) o1 \<Longrightarrow> row_ok cfg (attempts d) (f o1)"
  shows "delivery_inv cfg d'"
  using assms has_id_update[OF assms(4)] ids_update[OF assms(4)]
  unfolding delivery_inv_def by (auto simp: set_update_rows)

lemma delivery_inv_cong:
  "outbox_rows d' = outbox_rows d \<Longrightarrow> attempts d' = attempts d \<Longrightarrow> delivery_inv cfg d' = delivery_inv cfg d"
  by (simp add: delivery_inv_def)

lemma result_row_facts:
  "ob_id (result_row cfg now row te success am) = ob_id row"
  "ob_attempt_count (result_row cfg now row te success am) = ob_attempt_count row + 1"
  "ob_locked_until (result_row cfg now row te success am) = None"
  "ob_status (result_row cfg now row te success am) =
     (if success then OB_DELIVERED
      else if te \<noteq> None \<or> am_permanent am \<or> int (ob_attempt_count row + 1) \<ge> max_attempts cfg then OB_DEAD
      else OB_FAILED)"
  "ob_status (result_row cfg now row te success am) = OB_FAILED \<Longrightarrow>
     \<exists>t \<ge> now + seconds 1. ob_next_attempt_at (result_row cfg now row te success am) = Some t"
  by (auto simp: result_row_def Let_def compute_retry_delay_seconds_def MAX_BACKOFF_SECONDS_def split: if_splits)

lemma row_ok_result:
  assumes "row_ok cfg ts row"
  shows "row_ok cfg (ts @ [new_attempt cfg now row te success am trg run]) (result_row cfg now row te success am)"
proof -
  let ?a = "new_attempt cfg now row te success am trg run"
  have a: "row_attempts (ts @ [?a]) (ob_id row) = row_attempts ts (ob_id row) @ [?a]"
    by (simp add: row_attempts_def new_attempt_def)
  have n: "att_number ?a = ob_attempt_count row + 1" "att_status ?a = (if success then ATT_SUCCESS else ATT_FAILURE)"
    by (simp_all add: new_attempt_def)
  have l: "map att_number (row_attempts ts (ob_id row)) @ [ob_attempt_count row + 1] = [1..<ob_attempt_count row + 2]"
    using assms by (simp add: row_ok_def)
  show ?thesis
    unfolding row_ok_def result_row_facts(1,2,4) a
    using l n result_row_facts(4,5)[of cfg now row te success am] by auto
qed

lemma row_ok_other:
  "ob_id o1 \<noteq> att_outbox a \<Longrightarrow> row_ok cfg (ts @ [a]) o1 = row_ok cfg ts o1"
  by (simp add: row_ok_def row_attempts_def)

lemma delivery_inv_apply:
  assumes "delivery_inv cfg d" "row \<in> set (outbox_rows d)"
    and "apply_delivery_result cfg now row te ok am trg run d = (d', row')"
  shows "delivery_inv cfg d'"
proof -
  define success where "success = (if te \<noteq> None then False else ok)"
  define a where "a = new_attempt cfg now row te success am trg run"
  have r: "row' = result_row cfg now row te success am"
    and d': "attempts d' = attempts d @ [a]"
      "outbox_rows d' = update_rows (\<lambda>o1. ob_id o1 = ob_id row) (\<lambda>_. row') (outbox_rows d)"
    using assms(3) by (auto simp: apply_delivery_result_def Let_def success_def a_def)
  have id: "ob_id row' = ob_id row" "att_outbox a = ob_id row"
    by (simp_all add: r result_row_facts a_def new_attempt_def)
  have ids: "map ob_id (outbox_rows d') = map ob_id (outbox_rows d)"
    unfolding d' by (rule map_update_rows) (simp add: id)
  have "row_ok cfg (attempts d') o1" if "o1 \<in> set (outbox_rows d')" for o1
  proof (cases "ob_id o1 = ob_id row")
    case True
    then have "o1 = row'" using that unfolding d'(2) set_update_rows by auto
    then show ?thesis
      using row_ok_result assms(1,2) unfolding d'(1) r a_def delivery_inv_def by blast
  next
    case False
    then have "o1 \<in> set (outbox_rows d)" using that id unfolding d'(2) set_update_rows by auto
    then show ?thesis
      using False assms(1) id(2) row_ok_other unfolding d'(1) delivery_inv_def by metis
  qed
  moreover have "\<exists>o1\<in>set (outbox_rows d'). ob_id o1 = att_outbox t" if "t \<in> set (attempts d')" for t
  proof -
    have "\<exists>o1\<in>set (outbox_rows d). ob_id o1 = att_outbox t"
      using that assms(1,2) id unfolding d'(1) delivery_inv_def by auto
    then show ?thesis using ids by (metis in_map_iff)
  qed
  ultimately show ?thesis using assms(1) ids unfolding delivery_inv_def by simp
qed

lemma delivery_inv_finish:
  assumes "delivery_inv cfg d" "deliver_finish cfg now i w ok am trg run d = Inr (d', row')"
  shows "delivery_inv cfg d'"
  using assms delivery_inv_apply
  by (auto simp: deliver_finish_def split: option.splits if_splits dest!: first_row_Some)

lemma row_ok_lock: "row_ok cfg ts (o1\<lparr>ob_locked_until := l, ob_updated_at := u\<rparr>) = row_ok cfg ts o1"
  "row_ok cfg ts (o1\<lparr>ob_locked_until := l\<rparr>) = row_ok cfg ts o1"
  by (simp_all add: row_ok_def)

lemma next_pending_mem:
  assumes "next_pending now locked d = Some row"
  shows "row \<in> set (outbox_rows d)" "pending_outbox now row" "ob_id row \<notin> locked"
proof -
  obtain rest where "sort_key claim_key (filter (\<lambda>o1. pending_outbox now o1 \<and> ob_id o1 \<notin> locked) (outbox_rows d)) = row # rest"
    using assms by (auto simp: next_pending_def split: list.splits)
  then have "row \<in> set (sort_key claim_key (filter (\<lambda>o1. pending_outbox now o1 \<and> ob_id o1 \<notin> locked) (outbox_rows d)))"
    by (simp only: list.set_intros)
  then show "row \<in> set (outbox_rows d)" "pending_outbox now row" "ob_id row \<notin> locked" by simp_all
qed

lemma claim_Some:
  assumes "claim_next_pending_outbox cfg now wall locked d = Some (d', row')"
  obtains row where "next_pending now locked d = Some row"
    "row' = row\<lparr>ob_locked_until := Some (now + seconds (lease_seconds cfg)), ob_updated_at := wall\<rparr>"
    "d' = d\<lparr>outbox_rows := update_rows (\<lambda>o1. ob_id o1 = ob_id row) (\<lambda>_. row') (outbox_rows d)\<rparr>"
  using assms by (auto simp: claim_next_pending_outbox_def Let_def split: option.splits)

lemma claim_update:
  assumes "distinct (map ob_id (outbox_rows d))"
    and "claim_next_pending_outbox cfg now wall locked d = Some (d', row')"
  shows "\<exists>i. outbox_rows d' = update_rows (\<lambda>o1. ob_id o1 = i)
           (\<lambda>o1. o1\<lparr>ob_locked_until := Some (now + seconds (lease_seconds cfg)), ob_updated_at := wall\<rparr>) (outbox_rows d)"
    and "attempts d' = attempts d"
proof -
  obtain row where r: "next_pending now locked d = Some row"
    "row' = row\<lparr>ob_locked_until := Some (now + seconds (lease_seconds cfg)), ob_updated_at := wall\<rparr>"
    "d' = d\<lparr>outbox_rows := update_rows (\<lambda>o1. ob_id o1 = ob_id row) (\<lambda>_. row') (outbox_rows d)\<rparr>"
    using claim_Some[OF assms(2)] .
  show "\<exists>i. outbox_rows d' = update_rows (\<lambda>o1. ob_id o1 = i)
           (\<lambda>o1. o1\<lparr>ob_locked_until := Some (now + seconds (lease_seconds cfg)), ob_updated_at := wall\<rparr>) (outbox_rows d)"
    using update_same_row[OF assms(1) next_pending_mem(1)[OF r(1)],
        of "\<lambda>o1. o1\<lparr>ob_locked_until := Some (now + seconds (lease_seconds cfg)), ob_updated_at := wall\<rparr>"] r(2,3)
    by (intro exI[of _ "ob_id row"]) simp
  show "attempts d' = attempts d" by (simp add: r(3))
qed

lemma delivery_inv_claim:
  assumes "delivery_inv cfg d" "claim_next_pending_outbox cfg now wall locked d = Some (d', row')"
  shows "delivery_inv cfg d'"
proof -
  have dst: "distinct (map ob_id (outbox_rows d))" using assms(1) by (simp add: delivery_inv_def)
  obtain i where "outbox_rows d' = update_rows (\<lambda>o1. ob_id o1 = i)
      (\<lambda>o1. o1\<lparr>ob_locked_until := Some (now + seconds (lease_seconds cfg)), ob_updated_at := wall\<rparr>) (outbox_rows d)"
    using claim_update(1)[OF dst assms(2)] by blast
  then show ?thesis
    by (rule delivery_inv_update[OF assms(1)]) (simp_all add: claim_update(2)[OF dst assms(2)] row_ok_lock)
qed

lemma delivery_inv_requeue:
  assumes "delivery_inv cfg d" "requeue_delivery c i d = Some d'"
  shows "delivery_inv cfg d'"
proof -
  let ?f = "\<lambda>o1. o1\<lparr>ob_status := OB_PENDING, ob_next_attempt_at := None, ob_last_error := [], ob_locked_until := None\<rparr>"
  obtain row :: outbox where "d' = d\<lparr>outbox_rows := update_rows (\<lambda>o1. ob_id o1 = ob_id row) ?f (outbox_rows d)\<rparr>"
    using assms(2) by (auto simp: requeue_delivery_def split: option.splits)
  then show ?thesis
    by (intro delivery_inv_update[OF assms(1), where f = ?f]) (auto simp: row_ok_def)
qed

lemma delete_keeps_attempts:
  assumes "distinct (map ob_id (outbox_rows d))" "o1 \<in> set (outbox_rows (delete_outbox_rows p d))"
  shows "row_attempts (attempts (delete_outbox_rows p d)) (ob_id o1) = row_attempts (attempts d) (ob_id o1)"
proof -
  have "\<not> (p o2 \<and> ob_id o2 = ob_id o1)" if "o2 \<in> set (outbox_rows d)" for o2
    using that assms(2) distinct_map_unique[OF assms(1), of o2 o1]
    by (auto simp: delete_outbox_rows_def set_delete_rows)
  then show ?thesis
    by (auto simp: delete_outbox_rows_def row_attempts_def delete_rows_def has_row_iff intro!: filter_cong)
qed

lemma delivery_inv_delete:
  assumes "delivery_inv cfg d"
  shows "delivery_inv cfg (delete_outbox_rows p d)"
proof -
  let ?d = "delete_outbox_rows p d"
  have rows: "set (outbox_rows ?d) = {o1 \<in> set (outbox_rows d). \<not> p o1}"
    by (simp add: delete_outbox_rows_def set_delete_rows)
  have dst: "distinct (map ob_id (outbox_rows d))" using assms by (simp add: delivery_inv_def)
  note keep = delete_keeps_attempts[OF dst]
  have "row_ok cfg (attempts ?d) o1" if "o1 \<in> set (outbox_rows ?d)" for o1
    using assms that keep[OF that] unfolding rows delivery_inv_def row_ok_def by simp
  moreover have "\<exists>o1\<in>set (outbox_rows ?d). ob_id o1 = att_outbox t" if "t \<in> set (attempts ?d)" for t
  proof -
    have t: "t \<in> set (attempts d)" "\<not> has_row (\<lambda>o1. p o1 \<and> ob_id o1 = att_outbox t) (outbox_rows d)"
      using that by (auto simp: delete_outbox_rows_def set_delete_rows)
    then obtain o1 where "o1 \<in> set (outbox_rows d)" "ob_id o1 = att_outbox t"
      using assms by (auto simp: delivery_inv_def)
    then show ?thesis using t(2) unfolding rows by (auto simp: has_row_iff)
  qed
  moreover have "distinct (map ob_id (outbox_rows ?d))"
    using distinct_map_delete_rows[OF dst] by (simp add: delete_outbox_rows_def)
  ultimately show ?thesis unfolding delivery_inv_def by blast
qed

lemma webhook_row_ids:
  "map ob_id (webhook_rows now fresh ev c env rs) = map (\<lambda>n. fresh (n + 2)) [0..<length rs]"
  by (rule nth_equalityI) (simp_all add: webhook_rows_def new_outbox_def)

lemma emitted_rows:
  assumes "emit_event_if_rules cfg now fresh ev c payload actor d = (d', ids)" "inj fresh"
  shows "attempts d' = attempts d"
    "\<exists>news. outbox_rows d' = outbox_rows d @ news \<and> distinct (map ob_id news)
       \<and> (\<forall>o1\<in>set news. ob_status o1 = OB_PENDING \<and> ob_attempt_count o1 = 0 \<and> ob_id o1 \<in> range fresh)"
proof -
  show "attempts d' = attempts d" by (rule emit_if_rules_frame(6)[OF assms(1)])
  define ms where "ms = email_rows_of cfg now fresh ev c payload actor"
  define hs where "hs = hook_rows_of now fresh ev c payload actor d"
  have hid: "map ob_id hs = map (\<lambda>n. fresh (n + 2)) [0..<length (matching_rules ev c d)]"
    by (simp add: hs_def hook_rows_of_def webhook_row_ids)
  have mid: "map ob_id ms \<in> {[], [fresh 1]}" by (auto simp: ms_def email_rows_of_def new_outbox_def)
  have "distinct (map ob_id hs)" unfolding hid using assms(2) by (auto simp: distinct_map inj_on_def inj_def)
  moreover have "fresh 1 \<notin> set (map ob_id hs)" unfolding hid using assms(2) by (auto simp: inj_def)
  ultimately have dst: "distinct (map ob_id (ms @ hs))" using mid by auto
  have rng: "ob_id o1 \<in> range fresh" if "o1 \<in> set (ms @ hs)" for o1
  proof -
    have "ob_id o1 \<in> set (map ob_id ms) \<union> set (map ob_id hs)" using that by auto
    then show ?thesis using mid unfolding hid by auto
  qed
  have pend: "ob_status o1 = OB_PENDING \<and> ob_attempt_count o1 = 0" if "o1 \<in> set (ms @ hs)" for o1
    using that email_rows_props[of o1] hook_rows_props[of o1] unfolding ms_def hs_def by auto
  have "outbox_rows d' \<in> {outbox_rows d, outbox_rows d @ (ms @ hs)}"
  proof (cases "\<exists>t. get_event_type REGISTRY ev = Inr t \<and> \<not> evt_staff_only t")
    case True
    then obtain t where t: "get_event_type REGISTRY ev = Inr t" "\<not> evt_staff_only t" by blast
    have "outbox_rows d' = outbox_rows d @ (ms @ hs)"
      using emit_effect[OF t(1) hosting_event_default[OF t(1)] t(2), of cfg now fresh c payload actor d] assms(1)
      by (simp add: ms_def hs_def)
    then show ?thesis by simp
  next
    case False
    then have "d' = d"
      using assms(1)
      by (cases "get_event_type REGISTRY ev") (auto simp: emit_event_if_rules_def emit_event_def)
    then show ?thesis by simp
  qed
  then show "\<exists>news. outbox_rows d' = outbox_rows d @ news \<and> distinct (map ob_id news)
       \<and> (\<forall>o1\<in>set news. ob_status o1 = OB_PENDING \<and> ob_attempt_count o1 = 0 \<and> ob_id o1 \<in> range fresh)"
  proof
    assume "outbox_rows d' = outbox_rows d" then show ?thesis by (intro exI[of _ "[]"]) simp
  next
    assume "outbox_rows d' \<in> {outbox_rows d @ (ms @ hs)}"
    then show ?thesis using dst rng pend by (intro exI[of _ "ms @ hs"]) simp
  qed
qed

lemma delivery_inv_emit:
  assumes "delivery_inv cfg d" "emit_event_if_rules cfg now fresh ev c payload actor d = (d', ids)" "inj fresh"
    and "range fresh \<inter> ob_id ` set (outbox_rows d) = {}"
  shows "delivery_inv cfg d'"
proof -
  obtain news where n: "outbox_rows d' = outbox_rows d @ news" "distinct (map ob_id news)"
    "\<forall>o1\<in>set news. ob_status o1 = OB_PENDING \<and> ob_attempt_count o1 = 0 \<and> ob_id o1 \<in> range fresh"
    using emitted_rows(2)[OF assms(2,3)] by blast
  have a: "attempts d' = attempts d" by (rule emitted_rows(1)[OF assms(2,3)])
  have "row_ok cfg (attempts d) o1" if "o1 \<in> set news" for o1
  proof -
    have "row_attempts (attempts d) (ob_id o1) = []"
      using assms(1,4) n(3) that by (fastforce simp: row_attempts_def filter_empty_conv delivery_inv_def)
    then show ?thesis using n(3) that by (simp add: row_ok_def)
  qed
  moreover have "distinct (map ob_id (outbox_rows d @ news))"
    using assms(1,4) n(2,3) by (fastforce simp: delivery_inv_def)
  ultimately show ?thesis using assms(1) unfolding delivery_inv_def n(1) a by auto
qed

section \<open>The steps\<close>

type_synonym pool = "db \<times> (uuid \<times> work) list"

inductive pool_step :: "settings \<Rightarrow> pool \<Rightarrow> pool \<Rightarrow> bool" for cfg :: settings where
  Step_Load: "deliver_load i d = Inr (Work w) \<Longrightarrow> pool_step cfg (d, ws) (d, (i, w) # ws)"
| Step_Finish: "(i, w) \<in> set ws \<Longrightarrow> perform cfg env ms w = (ok, am) \<Longrightarrow>
     deliver_finish cfg (net_clock env) i w ok am trg run d = Inr (d', row) \<Longrightarrow>
     pool_step cfg (d, ws) (d', remove1 (i, w) ws)"
| Step_Gone: "(i, w) \<in> set ws \<Longrightarrow> deliver_finish cfg now i w ok am trg run d = Inl e \<Longrightarrow>
     pool_step cfg (d, ws) (d, remove1 (i, w) ws)"
| Step_Claim: "claim_next_pending_outbox cfg now wall locked d = Some (d', row) \<Longrightarrow>
     pool_step cfg (d, ws) (d', ws)"
| Step_Unlock: "pool_step cfg (d, ws)
     (d\<lparr>outbox_rows := update_rows (\<lambda>o1. ob_id o1 = i) (\<lambda>o1. o1\<lparr>ob_locked_until := None\<rparr>) (outbox_rows d)\<rparr>, ws)"
| Step_Requeue: "requeue_delivery c i d = Some d' \<Longrightarrow> pool_step cfg (d, ws) (d', ws)"
| Step_Emit: "emit_event_if_rules cfg now fresh ev c payload actor d = (d', ids) \<Longrightarrow> inj fresh \<Longrightarrow>
     range fresh \<inter> (ob_id ` set (outbox_rows d) \<union> fst ` set ws) = {} \<Longrightarrow> pool_step cfg (d, ws) (d', ws)"
| Step_Delete: "pool_step cfg (d, ws) (delete_outbox_rows p d, ws)"
| Step_Rules: "pool_step cfg (d, ws) (d\<lparr>rules := rs\<rparr>, ws)"

inductive_cases pool_stepE: "pool_step cfg s s'"

definition terminal :: "outbox \<Rightarrow> bool" where
  "terminal o1 \<longleftrightarrow> ob_status o1 \<in> {OB_DELIVERED, OB_DEAD}"

definition work_ok :: "db \<Rightarrow> uuid \<times> work \<Rightarrow> bool" where
  "work_ok d iw \<longleftrightarrow> (\<forall>o1\<in>set (outbox_rows d). ob_id o1 = fst iw \<longrightarrow>
     wk_snapshot (snd iw) \<le> ob_attempt_count o1
     \<and> (wk_snapshot (snd iw) = ob_attempt_count o1 \<longrightarrow> \<not> terminal o1))"

definition pool_inv :: "settings \<Rightarrow> pool \<Rightarrow> bool" where
  "pool_inv cfg s \<longleftrightarrow> delivery_inv cfg (fst s) \<and> (\<forall>iw\<in>set (snd s). work_ok (fst s) iw)"

lemma work_ok_update:
  assumes "work_ok d iw" "outbox_rows d' = update_rows p f (outbox_rows d)"
    and "\<And>o1. ob_id (f o1) = ob_id o1" "\<And>o1. ob_attempt_count (f o1) = ob_attempt_count o1"
    and "\<And>o1. terminal (f o1) \<Longrightarrow> terminal o1"
  shows "work_ok d' iw"
  using assms unfolding work_ok_def by (fastforce simp: set_update_rows)

lemma work_ok_load:
  assumes "delivery_inv cfg d" "deliver_load i d = Inr (Work w)"
  shows "work_ok d (i, w)"
proof -
  obtain row where r: "first_row (\<lambda>o1. ob_id o1 = i) (outbox_rows d) = Some row" "\<not> terminal row"
    "wk_snapshot w = ob_attempt_count row"
    using assms(2) by (auto simp: deliver_load_def map_res_Inr terminal_def split: option.splits if_splits)
  then have row: "row \<in> set (outbox_rows d)" "ob_id row = i" by (auto dest: first_row_Some)
  have "o1 = row" if "o1 \<in> set (outbox_rows d)" "ob_id o1 = i" for o1
    using distinct_map_unique[of ob_id "outbox_rows d" o1 row] that row assms(1) by (simp add: delivery_inv_def)
  then show ?thesis using r(2,3) by (auto simp: work_ok_def)
qed

text \<open>What a finish does to the rows: nothing, or one more attempt of its row.\<close>

lemma finish_effect:
  assumes "deliver_finish cfg now i w ok am trg run d = Inr (d', row')"
  obtains "d' = d"
  | row te success a where "row \<in> set (outbox_rows d)" "ob_id row = i" "wk_snapshot w = ob_attempt_count row"
    "row' = result_row cfg now row te success am" "attempts d' = attempts d @ [a]" "att_outbox a = i"
    "outbox_rows d' = update_rows (\<lambda>o1. ob_id o1 = i) (\<lambda>_. row') (outbox_rows d)"
proof -
  obtain row where r: "first_row (\<lambda>o1. ob_id o1 = i) (outbox_rows d) = Some row"
    using assms by (auto simp: deliver_finish_def split: option.splits)
  then have row: "row \<in> set (outbox_rows d)" "ob_id row = i" by (auto dest: first_row_Some)
  show thesis
  proof (cases "ob_attempt_count row = wk_snapshot w")
    case True
    show thesis
      by (rule that(2)[OF row True[symmetric]])
        (use assms r True row in \<open>auto simp: deliver_finish_def apply_delivery_result_def Let_def new_attempt_def\<close>)
  next
    case False
    then show thesis using that(1) assms r by (simp add: deliver_finish_def)
  qed
qed

lemma work_ok_finish:
  assumes "delivery_inv cfg d" "work_ok d iw" "deliver_finish cfg now i w ok am trg run d = Inr (d', row')"
  shows "work_ok d' iw"
  using assms(3)
proof (cases rule: finish_effect)
  case 1 then show ?thesis using assms(2) by simp
next
  case (2 row te success a)
  show ?thesis
    unfolding work_ok_def
  proof (intro ballI impI)
    fix o1 assume o1: "o1 \<in> set (outbox_rows d')" "ob_id o1 = fst iw"
    show "wk_snapshot (snd iw) \<le> ob_attempt_count o1
            \<and> (wk_snapshot (snd iw) = ob_attempt_count o1 \<longrightarrow> \<not> terminal o1)"
    proof (cases "ob_id o1 = i")
      case True
      then have "o1 = row'" using o1(1) unfolding 2(7) set_update_rows by auto
      moreover have "wk_snapshot (snd iw) \<le> ob_attempt_count row"
        using assms(2) 2(1,2) o1(2) True unfolding work_ok_def by auto
      ultimately show ?thesis by (simp add: 2(4) result_row_facts)
    next
      case False
      then have "o1 \<in> set (outbox_rows d)" using o1(1) 2(2,4) unfolding 2(7) set_update_rows
        by (auto simp: result_row_facts)
      then show ?thesis using assms(2) o1(2) unfolding work_ok_def by blast
    qed
  qed
qed

lemma work_ok_subset:
  "work_ok d iw \<Longrightarrow> set (outbox_rows d') \<subseteq> set (outbox_rows d) \<Longrightarrow> work_ok d' iw"
  by (auto simp: work_ok_def)

lemma pool_inv_step:
  assumes "pool_step cfg s s'" "pool_inv cfg s"
  shows "pool_inv cfg s'"
  using assms(1)
proof (cases rule: pool_step.cases)
  case (Step_Load i d w ws)
  then show ?thesis using assms(2) work_ok_load by (auto simp: pool_inv_def)
next
  case (Step_Finish i w ws env ms ok am trg run d d' row)
  have "delivery_inv cfg d'" "\<forall>iw\<in>set ws. work_ok d' iw"
    using assms(2) Step_Finish(1) delivery_inv_finish[OF _ Step_Finish(5)] work_ok_finish[OF _ _ Step_Finish(5)]
    by (auto simp: pool_inv_def)
  then show ?thesis using Step_Finish(2) set_remove1_subset[of "(i, w)" ws] by (auto simp: pool_inv_def)
next
  case (Step_Gone i w ws now ok am trg run d e)
  then show ?thesis using assms(2) set_remove1_subset[of "(i, w)" ws] by (auto simp: pool_inv_def)
next
  case (Step_Claim now wall locked d d' row ws)
  have dst: "distinct (map ob_id (outbox_rows d))" using assms(2) Step_Claim(1) by (simp add: pool_inv_def delivery_inv_def)
  obtain i where rows: "outbox_rows d' = update_rows (\<lambda>o1. ob_id o1 = i)
      (\<lambda>o1. o1\<lparr>ob_locked_until := Some (now + seconds (lease_seconds cfg)), ob_updated_at := wall\<rparr>) (outbox_rows d)"
    using claim_update(1)[OF dst Step_Claim(3)] by blast
  show ?thesis
    using assms(2) delivery_inv_claim[OF _ Step_Claim(3)] work_ok_update[OF _ rows] Step_Claim(1,2)
    by (auto simp: pool_inv_def terminal_def)
next
  case (Step_Unlock d ws i)
  let ?d = "d\<lparr>outbox_rows := update_rows (\<lambda>o1. ob_id o1 = i) (\<lambda>o1. o1\<lparr>ob_locked_until := None\<rparr>) (outbox_rows d)\<rparr>"
  have inv: "delivery_inv cfg d" using assms(2) Step_Unlock by (simp add: pool_inv_def)
  have rows: "outbox_rows ?d = update_rows (\<lambda>o1. ob_id o1 = i) (\<lambda>o1. o1\<lparr>ob_locked_until := None\<rparr>) (outbox_rows d)"
    by simp
  have "delivery_inv cfg ?d"
    by (rule delivery_inv_update[OF inv rows]) (simp_all add: row_ok_lock)
  moreover have "work_ok ?d iw" if "work_ok d iw" for iw
    by (rule work_ok_update[OF that rows]) (auto simp: terminal_def)
  ultimately show ?thesis using assms(2) Step_Unlock by (simp add: pool_inv_def)
next
  case (Step_Requeue c i d d' ws)
  let ?f = "\<lambda>o1. o1\<lparr>ob_status := OB_PENDING, ob_next_attempt_at := None, ob_last_error := [], ob_locked_until := None\<rparr>"
  obtain row :: outbox where r: "d' = d\<lparr>outbox_rows := update_rows (\<lambda>o1. ob_id o1 = ob_id row) ?f (outbox_rows d)\<rparr>"
    using Step_Requeue(3) by (auto simp: requeue_delivery_def split: option.splits)
  have "work_ok d' iw" if "work_ok d iw" for iw
    by (rule work_ok_update[OF that, where f = ?f]) (auto simp: r terminal_def)
  then show ?thesis using assms(2) Step_Requeue delivery_inv_requeue by (auto simp: pool_inv_def)
next
  case (Step_Emit now fresh ev c payload actor d d' ids ws)
  obtain news where n: "outbox_rows d' = outbox_rows d @ news" "\<forall>o1\<in>set news. ob_id o1 \<in> range fresh"
    using emitted_rows(2)[OF Step_Emit(3,4)] by blast
  have "work_ok d' iw" if "iw \<in> set ws" "work_ok d iw" for iw
  proof -
    have "fst iw \<notin> range fresh" using Step_Emit(5) that(1) by auto
    then have "ob_id o1 \<noteq> fst iw" if "o1 \<in> set news" for o1 using n(2) that by metis
    then show ?thesis using that(2) unfolding work_ok_def n(1) by auto
  qed
  moreover have "range fresh \<inter> ob_id ` set (outbox_rows d) = {}" using Step_Emit(5) by blast
  ultimately show ?thesis
    using assms(2) Step_Emit(1,2) delivery_inv_emit[OF _ Step_Emit(3,4)] by (auto simp: pool_inv_def)
next
  case (Step_Delete d ws p)
  have "set (outbox_rows (delete_outbox_rows p d)) \<subseteq> set (outbox_rows d)"
    by (auto simp: delete_outbox_rows_def set_delete_rows)
  then show ?thesis
    using assms(2) Step_Delete delivery_inv_delete work_ok_subset by (fastforce simp: pool_inv_def)
next
  case (Step_Rules d ws rs)
  then show ?thesis
    using assms(2) delivery_inv_cong[of "d\<lparr>rules := rs\<rparr>" d cfg] by (auto simp: pool_inv_def work_ok_def)
qed

interpretation outbox_pool: step_system "pool_step cfg" "pool_inv cfg" for cfg
  by unfold_locales (rule pool_inv_step)

lemma pool_inv_start: "outbox_rows d = [] \<Longrightarrow> attempts d = [] \<Longrightarrow> pool_inv cfg (d, [])"
  by (simp add: pool_inv_def delivery_inv_def)

section \<open>Properties of every interleaving\<close>

text \<open>C2. The delivery log is right under every interleaving of dispatch threads, retry jobs,
  claims, requeues, new emissions, deletions and rule edits: in every state reached from an empty
  outbox, the attempts of each row are numbered 1, 2, ..., n in the order they were recorded, where n is
  the row's attempt count, so no attempt is lost and none recorded twice; a delivered row ends with a
  successful attempt, a failed or dead row with a failed one; and a failed row has attempts left and a
  time for the next one.\<close>

theorem attempt_ledger:
  assumes "(pool_step cfg)\<^sup>*\<^sup>* (empty_db, []) (d, ws)" "o1 \<in> set (outbox_rows d)"
  shows "map att_number (filter (\<lambda>t. att_outbox t = ob_id o1) (attempts d)) = [1..<ob_attempt_count o1 + 1]
    \<and> (ob_status o1 = OB_DELIVERED \<longrightarrow>
         (\<exists>ts t. filter (\<lambda>t. att_outbox t = ob_id o1) (attempts d) = ts @ [t] \<and> att_status t = ATT_SUCCESS))
    \<and> (ob_status o1 \<in> {OB_FAILED, OB_DEAD} \<longrightarrow>
         (\<exists>ts t. filter (\<lambda>t. att_outbox t = ob_id o1) (attempts d) = ts @ [t] \<and> att_status t = ATT_FAILURE))
    \<and> (ob_status o1 = OB_FAILED \<longrightarrow>
         int (ob_attempt_count o1) < max_attempts cfg \<and> ob_next_attempt_at o1 \<noteq> None)"
proof -
  have "pool_inv cfg (d, ws)"
    using outbox_pool.inv_steps[OF assms(1)] pool_inv_start[of empty_db cfg] by (simp add: empty_db_def)
  then have "row_ok cfg (attempts d) o1" using assms(2) by (simp add: pool_inv_def delivery_inv_def)
  then show ?thesis
    unfolding row_ok_def row_attempts_def by (metis append_butlast_last_id)
qed

lemma finish_other_rows:
  assumes "delivery_inv cfg d" "deliver_finish cfg now i w ok am trg run d = Inr (d', row')"
    and "work_ok d (i, w)" "o1 \<in> set (outbox_rows d)" "terminal o1" "o2 \<in> set (outbox_rows d')" "ob_id o2 = ob_id o1"
  shows "o2 = o1 \<and> row_attempts (attempts d') (ob_id o1) = row_attempts (attempts d) (ob_id o1)"
  using assms(2)
proof (cases rule: finish_effect)
  case 1
  have "o2 = o1"
    using assms(1,4,6,7) distinct_map_unique[of ob_id "outbox_rows d"] 1 by (auto simp: delivery_inv_def)
  then show ?thesis using 1 by simp
next
  case (2 row te success a)
  have ni: "ob_id o1 \<noteq> i"
  proof
    assume i: "ob_id o1 = i"
    then have "o1 = row" using assms(1,4) 2(1,2) distinct_map_unique[of ob_id "outbox_rows d" o1 row]
      by (simp add: delivery_inv_def)
    then show False using assms(3,5) 2(1-3) by (auto simp: work_ok_def)
  qed
  then have "o2 \<in> set (outbox_rows d)" using assms(6,7) 2(2,4) unfolding 2(7) set_update_rows
    by (auto simp: result_row_facts)
  then have "o2 = o1" using assms(1,4,7) distinct_map_unique[of ob_id "outbox_rows d" o2 o1] by (simp add: delivery_inv_def)
  then show ?thesis using ni 2(5,6) by (simp add: row_attempts_def)
qed

text \<open>A write of one table that keeps ids leaves a row or rewrites it.\<close>

lemma update_keeps:
  assumes "distinct (map ob_id rs)" "o1 \<in> set rs" "o2 \<in> set (update_rows p f rs)" "ob_id o2 = ob_id o1"
    and "\<And>o3. ob_id (f o3) = ob_id o3"
  shows "o2 = o1 \<or> (p o1 \<and> o2 = f o1)"
  using assms distinct_map_unique[OF assms(1) _ assms(2)] unfolding set_update_rows by (auto; metis)

lemma terminal_step:
  assumes "pool_step cfg s s'" "pool_inv cfg s" "o1 \<in> set (outbox_rows (fst s))" "terminal o1"
    and "o2 \<in> set (outbox_rows (fst s'))" "ob_id o2 = ob_id o1"
  shows "ob_attempt_count o2 = ob_attempt_count o1
    \<and> row_attempts (attempts (fst s')) (ob_id o1) = row_attempts (attempts (fst s)) (ob_id o1)
    \<and> (ob_status o2 = ob_status o1
       \<or> (ob_status o2 = OB_PENDING \<and> (\<exists>c. requeue_delivery c (ob_id o1) (fst s) = Some (fst s'))))"
proof -
  have dst: "distinct (map ob_id (outbox_rows (fst s)))" using assms(2) by (simp add: pool_inv_def delivery_inv_def)
  note keeps = update_keeps[OF dst assms(3) _ assms(6)]
  have same: ?thesis if "outbox_rows (fst s') = outbox_rows (fst s)" "attempts (fst s') = attempts (fst s)"
    using that distinct_map_unique[OF dst assms(3), of o2] assms(5,6) by simp
  show ?thesis
    using assms(1)
  proof (cases rule: pool_step.cases)
    case (Step_Finish i w ws env ms ok am trg run d d' row)
    have "o2 = o1 \<and> row_attempts (attempts d') (ob_id o1) = row_attempts (attempts d) (ob_id o1)"
      by (rule finish_other_rows[OF _ Step_Finish(5)])
        (use assms(2-6) Step_Finish(1-3) in \<open>auto simp: pool_inv_def\<close>)
    then show ?thesis using Step_Finish(1,2) by simp
  next
    case (Step_Claim now wall locked d d' row ws)
    let ?f = "\<lambda>o1. o1\<lparr>ob_locked_until := Some (now + seconds (lease_seconds cfg)), ob_updated_at := wall\<rparr>"
    have rows: "\<exists>i. outbox_rows d' = update_rows (\<lambda>o1. ob_id o1 = i) ?f (outbox_rows d)" and at: "attempts d' = attempts d"
      using claim_update[OF _ Step_Claim(3)] dst Step_Claim(1) by auto
    obtain i where "outbox_rows d' = update_rows (\<lambda>o1. ob_id o1 = i) ?f (outbox_rows d)" using rows by blast
    then have "o2 = o1 \<or> o2 = ?f o1" using keeps[of "\<lambda>o1. ob_id o1 = i" ?f] assms(5) Step_Claim(1,2) by auto
    then show ?thesis using at Step_Claim(1,2) by auto
  next
    case (Step_Unlock d ws i)
    have "o2 = o1 \<or> o2 = o1\<lparr>ob_locked_until := None\<rparr>"
      using keeps[of "\<lambda>o1. ob_id o1 = i" "\<lambda>o1. o1\<lparr>ob_locked_until := None\<rparr>"] assms(5) Step_Unlock by auto
    then show ?thesis using Step_Unlock by auto
  next
    case (Step_Requeue c i d d' ws)
    let ?f = "\<lambda>o1. o1\<lparr>ob_status := OB_PENDING, ob_next_attempt_at := None, ob_last_error := [], ob_locked_until := None\<rparr>"
    obtain row :: outbox where r: "d' = d\<lparr>outbox_rows := update_rows (\<lambda>o1. ob_id o1 = ob_id row) ?f (outbox_rows d)\<rparr>"
      "first_row (\<lambda>o1. ob_delivery_kind o1 = KIND_WEBHOOK \<and> ob_id o1 = i \<and> ob_company_id o1 = c) (outbox_rows d) = Some row"
      using Step_Requeue(3) by (auto simp: requeue_delivery_def split: option.splits)
    then have i: "ob_id row = i" by (auto dest: first_row_Some)
    have "o2 = o1 \<or> (ob_id o1 = i \<and> o2 = ?f o1)"
      using keeps[of "\<lambda>o1. ob_id o1 = ob_id row" ?f] assms(5) Step_Requeue(1,2) r(1) i by auto
    then show ?thesis using Step_Requeue r(1) by auto
  next
    case (Step_Emit now fresh ev c payload actor d d' ids ws)
    obtain news where n: "outbox_rows d' = outbox_rows d @ news" "\<forall>o1\<in>set news. ob_id o1 \<in> range fresh"
      using emitted_rows(2)[OF Step_Emit(3,4)] by blast
    have "ob_id o1 \<notin> range fresh" using Step_Emit(1,5) assms(3) by auto
    then have "o2 \<notin> set news" using n(2) assms(6) by metis
    then have "o2 \<in> set (outbox_rows d)" using n(1) assms(5) Step_Emit(2) by auto
    then have "o2 = o1" using distinct_map_unique[OF dst assms(3), of o2] assms(6) Step_Emit(1) by simp
    then show ?thesis using emitted_rows(1)[OF Step_Emit(3,4)] Step_Emit(1,2) by simp
  next
    case (Step_Delete d ws p)
    have "o2 \<in> set (outbox_rows d)" using assms(5) Step_Delete by (auto simp: delete_outbox_rows_def set_delete_rows)
    then have "o2 = o1" using distinct_map_unique[OF dst assms(3), of o2] assms(6) Step_Delete(1) by simp
    then show ?thesis using delete_keeps_attempts[of d o2 p] dst assms(5) Step_Delete by simp
  qed (use same in \<open>simp_all\<close>)
qed

text \<open>C3. A delivered or dead row is final: whatever transaction comes next, in any reachable state,
  no further attempt is recorded for it and its status and attempt count stay, unless that
  transaction is the admin's requeue of exactly this row, which makes it pending again with the same
  count. In particular a worker that loaded the row before another one finished it records nothing.\<close>

theorem terminal_rows_final:
  assumes "(pool_step cfg)\<^sup>*\<^sup>* (empty_db, []) (d, ws)" "pool_step cfg (d, ws) (d', ws')"
    and "o1 \<in> set (outbox_rows d)" "ob_status o1 \<in> {OB_DELIVERED, OB_DEAD}"
    and "o2 \<in> set (outbox_rows d')" "ob_id o2 = ob_id o1"
  shows "ob_attempt_count o2 = ob_attempt_count o1
    \<and> filter (\<lambda>t. att_outbox t = ob_id o1) (attempts d') = filter (\<lambda>t. att_outbox t = ob_id o1) (attempts d)
    \<and> (ob_status o2 = ob_status o1
       \<or> (ob_status o2 = OB_PENDING \<and> (\<exists>c. requeue_delivery c (ob_id o1) d = Some d')))"
proof -
  have "pool_inv cfg (d, ws)"
    using outbox_pool.inv_steps[OF assms(1)] pool_inv_start[of empty_db cfg] by (simp add: empty_db_def)
  then show ?thesis
    using terminal_step[OF assms(2)] assms(3-6) unfolding terminal_def row_attempts_def by simp
qed

section \<open>A concrete run\<close>

definition demo_cfg :: settings where
  "demo_cfg = default_settings\<lparr>EMAIL_SERVICE_API_KEY := ''sk-42''\<rparr>"

definition demo_fresh :: "nat \<Rightarrow> uuid" where
  "demo_fresh n = replicate n CHR ''x''"

definition demo_row :: outbox where
  "demo_row = new_outbox 0 ''x'' 7 None KIND_EMAIL ''hosting.app.created''
     (build_event_body ''hosting.app.created'' 7 [] None [])"

definition demo_work :: work where
  "demo_work = \<lparr> wk_kind = KIND_EMAIL, wk_rule = None, wk_terminal = None, wk_envelope = ob_envelope demo_row,
                 wk_snapshot = 0 \<rparr>"

lemma demo_resolve:
  "\<exists>ep. resolve_webhook_endpoint (net_dns (demo_net n)) (email_service_events_url demo_cfg) False = Inr ep"
proof -
  have "net_dns (demo_net n) = net_dns (demo_net 202)" by (simp add: demo_net_def)
  moreover have "\<not> isl (resolve_webhook_endpoint (net_dns (demo_net 202)) (email_service_events_url demo_cfg) False)"
    by code_simp
  ultimately show ?thesis by (cases "resolve_webhook_endpoint (net_dns (demo_net 202)) (email_service_events_url demo_cfg) False") auto
qed

lemma demo_perform: "\<exists>am. perform demo_cfg (demo_net 202) 5 demo_work = (True, am)"
proof -
  obtain ep where "resolve_webhook_endpoint (net_dns (demo_net 202)) (email_service_events_url demo_cfg) False = Inr ep"
    using demo_resolve by blast
  moreover have "email_service_configured demo_cfg" "startswith (email_service_events_url demo_cfg) ''https://''"
    "\<not> email_service_allow_private demo_cfg"
    by code_simp+
  ultimately show ?thesis
    by (simp add: perform_def demo_work_def perform_email_delivery_def post_email_event_def post_webhook_url_def
        post_resolved_webhook_def email_post_outcome_def demo_net_def parse_retry_after_header_def)
qed

lemma demo_run:
  "\<exists>d ws o1. (pool_step demo_cfg)\<^sup>*\<^sup>* (empty_db, []) (d, ws) \<and> o1 \<in> set (outbox_rows d)
     \<and> ob_status o1 = OB_DELIVERED \<and> ob_attempt_count o1 = 1 \<and> ob_id o1 = ''x''"
proof -
  obtain t where t: "get_event_type REGISTRY ''hosting.app.created'' = Inr t" "\<not> evt_staff_only t"
    by (simp add: get_event_type_def REGISTRY_eq hosting_event_list_def company_event_def)
  obtain am where am: "perform demo_cfg (demo_net 202) 5 demo_work = (True, am)" using demo_perform by blast
  define d1 where "d1 = fst (emit_event_if_rules demo_cfg 0 demo_fresh ''hosting.app.created'' 7 [] None empty_db)"
  have "email_service_configured demo_cfg" by code_simp
  then have rows1: "outbox_rows d1 = [demo_row]"
    using emit_effect[OF t(1) hosting_event_default[OF t(1)] t(2), of demo_cfg 0 demo_fresh 7 "[]" None empty_db]
    by (simp add: d1_def email_rows_of_def hook_rows_of_def matching_rules_def webhook_rows_def empty_db_def demo_row_def
        demo_fresh_def)
  have s1: "pool_step demo_cfg (empty_db, []) (d1, [])"
    by (rule Step_Emit[of demo_cfg 0 demo_fresh "''hosting.app.created''" 7 "[]" None empty_db d1
          "snd (emit_event_if_rules demo_cfg 0 demo_fresh ''hosting.app.created'' 7 [] None empty_db)"])
      (simp_all add: d1_def empty_db_def demo_fresh_def inj_def)
  have row: "ob_id demo_row = ''x''" "ob_status demo_row = OB_PENDING" "ob_delivery_kind demo_row = KIND_EMAIL"
    "ob_attempt_count demo_row = 0"
    by (simp_all add: demo_row_def new_outbox_def)
  have s2: "pool_step demo_cfg (d1, []) (d1, [(''x'', demo_work)])"
    by (rule Step_Load) (simp add: deliver_load_def rows1 row load_rule_for_delivery_def demo_work_def)
  obtain d2 row2 where f: "deliver_finish demo_cfg (net_clock (demo_net 202)) ''x'' demo_work True am TRIGGER_DISPATCH None d1
      = Inr (d2, row2)" "outbox_rows d2 = [result_row demo_cfg (net_clock (demo_net 202)) demo_row None True am]"
    by (simp add: deliver_finish_def rows1 row demo_work_def apply_delivery_result_def Let_def)
  have s3: "pool_step demo_cfg (d1, [(''x'', demo_work)]) (d2, remove1 (''x'', demo_work) [(''x'', demo_work)])"
    by (rule Step_Finish[OF _ am f(1)]) simp
  have "(pool_step demo_cfg)\<^sup>*\<^sup>* (empty_db, []) (d2, remove1 (''x'', demo_work) [(''x'', demo_work)])"
    using s1 s2 s3 by (meson converse_rtranclp_into_rtranclp rtranclp.rtrancl_refl)
  then show ?thesis
    using f(2) row(1,4)
    by (intro exI[of _ d2] exI[of _ "remove1 (''x'', demo_work) [(''x'', demo_work)]"]
        exI[of _ "result_row demo_cfg (net_clock (demo_net 202)) demo_row None True am"])
      (simp add: result_row_facts)
qed

theorem attempt_ledger_witness:
  "\<exists>(d :: db) o1. o1 \<in> set (outbox_rows d) \<and> ob_status o1 = OB_DELIVERED
     \<and> map att_number (filter (\<lambda>t. att_outbox t = ob_id o1) (attempts d)) = [1]"
proof -
  obtain d ws o1 where "(pool_step demo_cfg)\<^sup>*\<^sup>* (empty_db, []) (d, ws)" "o1 \<in> set (outbox_rows d)"
    "ob_status o1 = OB_DELIVERED" "ob_attempt_count o1 = 1"
    using demo_run by blast
  then show ?thesis using attempt_ledger[of demo_cfg d ws o1] by (intro exI[of _ d] exI[of _ o1]) simp
qed

theorem terminal_rows_final_witness:
  "\<exists>(d :: db) (d' :: db) o1 (o2 :: outbox). o1 \<in> set (outbox_rows d) \<and> ob_status o1 = OB_DELIVERED \<and> o2 \<in> set (outbox_rows d')
     \<and> ob_id o2 = ob_id o1 \<and> ob_attempt_count o2 = ob_attempt_count o1"
proof -
  obtain d ws o1 where r: "(pool_step demo_cfg)\<^sup>*\<^sup>* (empty_db, []) (d, ws)" "o1 \<in> set (outbox_rows d)"
    "ob_status o1 = OB_DELIVERED"
    using demo_run by blast
  have s: "pool_step demo_cfg (d, ws) (d\<lparr>rules := []\<rparr>, ws)" by (rule Step_Rules)
  show ?thesis
    using terminal_rows_final[OF r(1) s r(2), of o1] r(2,3)
    by (intro exI[of _ d] exI[of _ "d\<lparr>rules := []\<rparr>"] exI[of _ o1]) simp
qed

end
