(* ===== verification/Retry_Run.thy ===== *)
theory Retry_Run
  imports Delivery_Steps
begin

text \<open>
  One delivery and one run of the retry job with one worker when nothing else writes: what is recorded, that a
  run ends and counts what it did, that it attempts no row twice, and that a row that is delivered again
  and again reaches a final state. \<open>Retry_Pool\<close> has the run with several workers.
\<close>

section \<open>One delivery\<close>

definition deliverable :: "outbox \<Rightarrow> bool" where
  "deliverable o1 \<longleftrightarrow> ob_delivery_kind o1 = KIND_EMAIL \<or> ob_action_rule o1 \<noteq> None"

lemma first_row_id:
  "distinct (map ob_id rs) \<Longrightarrow> row \<in> set rs \<Longrightarrow> first_row (\<lambda>o1. ob_id o1 = ob_id row) rs = Some row"
  by (rule first_row_key)

lemma load_deliverable:
  assumes "distinct (map ob_id (outbox_rows d))" "row \<in> set (outbox_rows d)" "\<not> terminal row" "deliverable row"
  obtains w where "deliver_load (ob_id row) d = Inr (Work w)" "wk_snapshot w = ob_attempt_count row"
    "wk_kind w = ob_delivery_kind row" "wk_envelope w = ob_envelope row"
proof -
  have f: "first_row (\<lambda>o1. ob_id o1 = ob_id row) (outbox_rows d) = Some row" by (rule first_row_id[OF assms(1,2)])
  have "\<not> isl (load_rule_for_delivery d row)"
    using assms(4) by (auto simp: load_rule_for_delivery_def deliverable_def split: option.splits)
  then obtain r where "load_rule_for_delivery d row = Inr r" by (cases "load_rule_for_delivery d row") auto
  then show thesis
    using that f assms(3) by (cases r) (auto simp: deliver_load_def terminal_def)
qed

lemma deliver_sequential:
  assumes "distinct (map ob_id (outbox_rows d))" "row \<in> set (outbox_rows d)" "\<not> terminal row" "deliverable row"
  obtains w ok am success where "deliver_load (ob_id row) d = Inr (Work w)" "perform cfg env ms w = (ok, am)"
    "success \<longleftrightarrow> wk_terminal w = None \<and> ok"
    "deliver_outbox_row cfg env ms (ob_id row) trg run d =
       Inr (d\<lparr>attempts := attempts d @ [new_attempt cfg (net_clock env) row (wk_terminal w) success am trg run],
              outbox_rows := update_rows (\<lambda>o1. ob_id o1 = ob_id row)
                (\<lambda>_. result_row cfg (net_clock env) row (wk_terminal w) success am) (outbox_rows d)\<rparr>,
            Some (result_row cfg (net_clock env) row (wk_terminal w) success am))"
proof -
  obtain w where w: "deliver_load (ob_id row) d = Inr (Work w)" "wk_snapshot w = ob_attempt_count row"
    using load_deliverable[OF assms] by blast
  obtain ok am where p: "perform cfg env ms w = (ok, am)" by (cases "perform cfg env ms w")
  show thesis
    by (rule that[OF w(1) p refl])
      (use w p first_row_id[OF assms(1,2)] in
        \<open>auto simp: deliver_outbox_row_def deliver_finish_def apply_delivery_result_def Let_def\<close>)
qed

text \<open>C19. One delivery of a pending or failed row (an email row, or a webhook row with its rule) never
  raises and records exactly one attempt, numbered one more than the count. The row becomes delivered
  exactly when the request succeeded; otherwise it becomes dead exactly when the failure is permanent
  (a deleted or disabled rule, a permanent status or refusal) or the attempts are used up, and else
  failed, to be retried between one second and one hour later. Its lease is given back and no other
  row changes.\<close>

theorem deliver_outbox_row_outcome:
  assumes "distinct (map ob_id (outbox_rows d))" "row \<in> set (outbox_rows d)"
    and "ob_status row \<in> {OB_PENDING, OB_FAILED}"
    and "ob_delivery_kind row = KIND_EMAIL \<or> ob_action_rule row \<noteq> None"
  shows "\<exists>d' row' w ok am t. deliver_outbox_row cfg env ms (ob_id row) trg run d = Inr (d', Some row')
     \<and> deliver_load (ob_id row) d = Inr (Work w) \<and> perform cfg env ms w = (ok, am)
     \<and> outbox_rows d' = update_rows (\<lambda>o1. ob_id o1 = ob_id row) (\<lambda>_. row') (outbox_rows d)
     \<and> attempts d' = attempts d @ [t] \<and> att_outbox t = ob_id row \<and> att_number t = ob_attempt_count row + 1
     \<and> ob_id row' = ob_id row \<and> ob_attempt_count row' = ob_attempt_count row + 1 \<and> ob_locked_until row' = None
     \<and> (ob_status row' = OB_DELIVERED \<longleftrightarrow> wk_terminal w = None \<and> ok)
     \<and> (ob_status row' = OB_DEAD \<longleftrightarrow> \<not> (wk_terminal w = None \<and> ok)
          \<and> (wk_terminal w \<noteq> None \<or> am_permanent am \<or> int (ob_attempt_count row + 1) \<ge> max_attempts cfg))
     \<and> (ob_status row' \<noteq> OB_DELIVERED \<longrightarrow> ob_status row' \<noteq> OB_DEAD \<longrightarrow> ob_status row' = OB_FAILED
          \<and> (\<exists>n \<in> {1..3600}. ob_next_attempt_at row' = Some (net_clock env + seconds n)))"
proof -
  have nt: "\<not> terminal row" "deliverable row" using assms(3,4) by (auto simp: terminal_def deliverable_def)
  obtain w ok am success where r: "deliver_load (ob_id row) d = Inr (Work w)" "perform cfg env ms w = (ok, am)"
    "success \<longleftrightarrow> wk_terminal w = None \<and> ok"
    "deliver_outbox_row cfg env ms (ob_id row) trg run d =
       Inr (d\<lparr>attempts := attempts d @ [new_attempt cfg (net_clock env) row (wk_terminal w) success am trg run],
              outbox_rows := update_rows (\<lambda>o1. ob_id o1 = ob_id row)
                (\<lambda>_. result_row cfg (net_clock env) row (wk_terminal w) success am) (outbox_rows d)\<rparr>,
            Some (result_row cfg (net_clock env) row (wk_terminal w) success am))"
    using deliver_sequential[OF assms(1,2) nt] by metis
  let ?row = "result_row cfg (net_clock env) row (wk_terminal w) success am"
  let ?t = "new_attempt cfg (net_clock env) row (wk_terminal w) success am trg run"
  have nx: "\<exists>n \<in> {1..3600}. ob_next_attempt_at ?row = Some (net_clock env + seconds n)"
    if "ob_status ?row = OB_FAILED"
    using that by (auto simp: result_row_def Let_def compute_retry_delay_seconds_def MAX_BACKOFF_SECONDS_def
        split: if_splits option.splits intro!: bexI)
  have t: "att_outbox ?t = ob_id row" "att_number ?t = ob_attempt_count row + 1" by (simp_all add: new_attempt_def)
  show ?thesis
    by (intro exI[of _ ok] exI[of _ am] exI[of _ ?t] exI[of _ w] exI[of _ ?row] exI conjI)
      (use r(1,2,4) t nx in \<open>auto simp: result_row_facts r(3) split: if_splits\<close>)
qed

theorem deliver_outbox_row_outcome_witness:
  "\<exists>d' row'. deliver_outbox_row demo_cfg (demo_net 202) 5 ''x'' TRIGGER_DISPATCH None
       (empty_db\<lparr>outbox_rows := [demo_row]\<rparr>) = Inr (d', Some row') \<and> ob_attempt_count row' = 1"
proof -
  let ?d = "empty_db\<lparr>outbox_rows := [demo_row]\<rparr>"
  have row: "ob_id demo_row = ''x''" "ob_status demo_row = OB_PENDING" "ob_delivery_kind demo_row = KIND_EMAIL"
    "ob_attempt_count demo_row = 0"
    by (simp_all add: demo_row_def new_outbox_def)
  show ?thesis
    using deliver_outbox_row_outcome[of ?d demo_row demo_cfg "demo_net 202" 5 TRIGGER_DISPATCH None] row
    by auto
qed

section \<open>A run of the retry job\<close>

lemma deliver_returns_row:
  assumes "o1 \<in> set (outbox_rows d)" "deliver_outbox_row cfg env ms (ob_id o1) trg run d = Inr (d', after)"
  shows "after \<noteq> None"
proof -
  obtain row where "first_row (\<lambda>o2. ob_id o2 = ob_id o1) (outbox_rows d) = Some row"
    using assms(1) first_row_None[of "\<lambda>o2. ob_id o2 = ob_id o1" "outbox_rows d"] by (metis option.exhaust)
  then show ?thesis
    using assms(2)
    by (auto simp: deliver_outbox_row_def deliver_load_def deliver_finish_def bind_res_Inr map_res_Inr
        split: option.splits if_splits prod.splits; metis)
qed

lemma summarize_counts:
  "st_processed (summarize_delivery_result b (Some row)) = 1"
  "st_delivered (summarize_delivery_result b (Some row)) = (if ob_status row = OB_DELIVERED then 1 else 0)"
  "st_dead (summarize_delivery_result b (Some row)) = (if ob_status row = OB_DEAD then 1 else 0)"
  "ob_status row = OB_FAILED \<or> (ob_status row = OB_PENDING \<and> b \<in> {OB_PENDING, OB_FAILED}) \<Longrightarrow>
     st_retried (summarize_delivery_result b (Some row)) = 1"
  "ob_status row \<in> {OB_DELIVERED, OB_DEAD} \<Longrightarrow> st_retried (summarize_delivery_result b (Some row)) = 0"
  by (auto simp: summarize_delivery_result_def zero_stats_def Let_def)

lemma retry_one_processed:
  assumes "row \<in> set (outbox_rows d)" "retry_one cfg inp k row d st = Inr (d', st')"
  shows "st_processed st' = st_processed st + 1"
proof (cases "ri_dry_run inp")
  case True then show ?thesis using assms(2) by (auto simp: retry_one_def add_stats_def zero_stats_def)
next
  case False
  then obtain after where a: "deliver_outbox_row cfg (ri_env inp k) (ri_ms inp) (ob_id row) TRIGGER_AUTOMATIC_RETRY
      (ri_run_id inp) d = Inr (d', after)"
    and s: "st' = add_stats st (summarize_delivery_result (ob_status row) after)"
    using assms(2) by (auto simp: retry_one_def map_res_Inr)
  obtain r where "after = Some r" using deliver_returns_row[OF assms(1) a] by auto
  then show ?thesis by (simp add: s add_stats_def summarize_counts)
qed

lemma claimed_row_mem:
  assumes "claim_next_pending_outbox cfg now wall locked d = Some (d1, row)"
  shows "row \<in> set (outbox_rows d1)"
proof -
  obtain r where r: "next_pending now locked d = Some r"
    "row = r\<lparr>ob_locked_until := Some (now + seconds (lease_seconds cfg)), ob_updated_at := wall\<rparr>"
    "d1 = d\<lparr>outbox_rows := update_rows (\<lambda>o1. ob_id o1 = ob_id r) (\<lambda>_. row) (outbox_rows d)\<rparr>"
    using claim_Some[OF assms] .
  then show ?thesis using next_pending_mem(1)[OF r(1)] by (auto simp: set_update_rows)
qed

lemma retry_loop_ends:
  assumes "st_processed st \<le> ri_batch_size inp" "ri_batch_size inp - st_processed st < fuel"
  shows "\<exists>r. retry_loop cfg inp fuel k d st = Some r
          \<and> (\<forall>d' st'. r = Inr (d', st') \<longrightarrow> st_processed st' \<le> ri_batch_size inp)"
  using assms
proof (induction fuel arbitrary: k d st)
  case (Suc fuel)
  show ?case
  proof (cases "st_processed st < ri_batch_size inp \<and> ri_in_time inp k")
    case False then show ?thesis using Suc.prems by auto
  next
    case True
    show ?thesis
    proof (cases "claim_next_pending_outbox cfg (ri_now inp) (net_clock (ri_env inp k)) {} d")
      case None then show ?thesis using True Suc.prems by auto
    next
      case (Some a)
      obtain d1 row where c: "claim_next_pending_outbox cfg (ri_now inp) (net_clock (ri_env inp k)) {} d = Some (d1, row)"
        using Some by (cases a) auto
      show ?thesis
      proof (cases "retry_one cfg inp k row d1 st")
        case (Inl e) then show ?thesis using True c by simp
      next
        case (Inr p)
        obtain d2 st2 where p: "retry_one cfg inp k row d1 st = Inr (d2, st2)" using Inr by (cases p) auto
        have n: "st_processed st2 = st_processed st + 1" by (rule retry_one_processed[OF claimed_row_mem[OF c] p])
        have "\<exists>r. retry_loop cfg inp fuel (k + 1) d2 st2 = Some r
          \<and> (\<forall>d' st'. r = Inr (d', st') \<longrightarrow> st_processed st' \<le> ri_batch_size inp)"
          by (rule Suc.IH) (use True n Suc.prems in auto)
        then show ?thesis using True c p by simp
      qed
    qed
  qed
qed simp

text \<open>A run of the retry job with one worker ends: with any deadline, any answers of the receivers and any content of
  the outbox, \<^verbatim>\<open>retry_pending_webhooks\<close> leaves its loop after at most as many iterations as
  the batch size (the fuel of the model is never exhausted), because every iteration that does not leave
  counts one more row as processed; and what it reports as processed is at most the batch size.\<close>

theorem retry_run_terminates:
  "\<exists>r. retry_pending_webhooks cfg inp d = Some r
     \<and> (\<forall>d' st. r = Inr (d', st) \<longrightarrow> st_processed st \<le> ri_batch_size inp)"
  unfolding retry_pending_webhooks_def by (rule retry_loop_ends) (simp_all add: zero_stats_def)

definition demo_input :: "bool \<Rightarrow> retry_input" where
  "demo_input dry =
     \<lparr> ri_batch_size = 3, ri_dry_run = dry, ri_now = 0, ri_run_id = Some 1, ri_in_time = (\<lambda>_. True),
       ri_env = (\<lambda>_. demo_net 202), ri_ms = 5 \<rparr>"

text \<open>
  A dry run counts one due row again and again: it takes its lease away again before it claims the next.
\<close>

lemma dry_run_counts_again:
  "\<exists>d'. retry_pending_webhooks demo_cfg (demo_input True) (empty_db\<lparr>outbox_rows := [demo_row]\<rparr>)
     = Some (Inr (d', zero_stats\<lparr>st_processed := 3, st_email_processed := 3\<rparr>))"
  by (simp add: retry_pending_webhooks_def demo_input_def eval_nat_numeral claim_next_pending_outbox_def
      next_pending_def pending_outbox_def demo_row_def new_outbox_def claim_key_def retry_one_def Let_def
      zero_stats_def add_stats_def)

theorem retry_run_terminates_witness:
  "\<exists>d' st. retry_pending_webhooks demo_cfg (demo_input True) (empty_db\<lparr>outbox_rows := [demo_row]\<rparr>) = Some (Inr (d', st))
     \<and> st_processed st \<le> 3"
  using retry_run_terminates[of demo_cfg "demo_input True" "empty_db\<lparr>outbox_rows := [demo_row]\<rparr>"]
    dry_run_counts_again by (auto simp: demo_input_def)

text \<open>What one turn of the loop does to the outbox.\<close>

lemma retry_turn:
  assumes "distinct (map ob_id (outbox_rows d))" "\<forall>o1\<in>set (outbox_rows d). deliverable o1" "\<not> ri_dry_run inp"
    and "claim_next_pending_outbox cfg now wall {} d = Some (d1, row)"
  obtains r row' t d2 where "next_pending now {} d = Some r" "ob_id row = ob_id r"
    "retry_one cfg inp k row d1 st
       = Inr (d2, add_stats st (summarize_delivery_result (ob_status row) (Some row')))"
    "attempts d2 = attempts d @ [t]"
    "map ob_id (outbox_rows d2) = map ob_id (outbox_rows d)" "ob_id row' = ob_id r"
    "set (outbox_rows d2) = {o1 \<in> set (outbox_rows d). ob_id o1 \<noteq> ob_id r} \<union> {row'}"
    "ob_attempt_count row' = ob_attempt_count r + 1" "deliverable row'"
    "ob_status row' \<in> {OB_DELIVERED, OB_DEAD, OB_FAILED}"
    "\<not> (net_clock (ri_env inp k) \<ge> now' \<and> pending_outbox now' row')"
proof -
  obtain r where r: "next_pending now {} d = Some r"
    "row = r\<lparr>ob_locked_until := Some (now + seconds (lease_seconds cfg)), ob_updated_at := wall\<rparr>"
    "d1 = d\<lparr>outbox_rows := update_rows (\<lambda>o1. ob_id o1 = ob_id r) (\<lambda>_. row) (outbox_rows d)\<rparr>"
    using claim_Some[OF assms(4)] .
  have rm: "r \<in> set (outbox_rows d)" "pending_outbox now r" using next_pending_mem[OF r(1)] by auto
  have idr: "ob_id row = ob_id r" "ob_attempt_count row = ob_attempt_count r" by (simp_all add: r(2))
  have ids1: "map ob_id (outbox_rows d1) = map ob_id (outbox_rows d)"
    unfolding r(3) by (simp add: map_update_rows idr)
  have row: "row \<in> set (outbox_rows d1)" by (rule claimed_row_mem[OF assms(4)])
  have nt: "\<not> terminal row" using rm(2) by (auto simp: r(2) pending_outbox_def terminal_def)
  have dv: "deliverable row" using assms(2) rm(1) by (auto simp: r(2) deliverable_def)
  have dst1: "distinct (map ob_id (outbox_rows d1))" using assms(1) ids1 by simp
  let ?env = "ri_env inp k"
  obtain w :: work and am success where del: "deliver_outbox_row cfg ?env (ri_ms inp) (ob_id row) TRIGGER_AUTOMATIC_RETRY (ri_run_id inp) d1 =
       Inr (d1\<lparr>attempts := attempts d1 @ [new_attempt cfg (net_clock ?env) row (wk_terminal w) success am TRIGGER_AUTOMATIC_RETRY (ri_run_id inp)],
              outbox_rows := update_rows (\<lambda>o1. ob_id o1 = ob_id row)
                (\<lambda>_. result_row cfg (net_clock ?env) row (wk_terminal w) success am) (outbox_rows d1)\<rparr>,
            Some (result_row cfg (net_clock ?env) row (wk_terminal w) success am))"
    by (rule deliver_sequential[OF dst1 row nt dv, where cfg = cfg and env = ?env and ms = "ri_ms inp"
          and trg = TRIGGER_AUTOMATIC_RETRY and run = "ri_run_id inp"])
  let ?row = "result_row cfg (net_clock ?env) row (wk_terminal w) success am"
  let ?t = "new_attempt cfg (net_clock ?env) row (wk_terminal w) success am TRIGGER_AUTOMATIC_RETRY (ri_run_id inp)"
  let ?d2 = "d1\<lparr>attempts := attempts d1 @ [?t],
      outbox_rows := update_rows (\<lambda>o1. ob_id o1 = ob_id row) (\<lambda>_. ?row) (outbox_rows d1)\<rparr>"
  have pend: "\<not> (net_clock ?env \<ge> now' \<and> pending_outbox now' ?row)" for now'
  proof
    assume a: "net_clock ?env \<ge> now' \<and> pending_outbox now' ?row"
    then have "ob_status ?row = OB_FAILED"
      by (auto simp: pending_outbox_def result_row_facts split: if_splits)
    then obtain t where "t \<ge> net_clock ?env + seconds 1" "ob_next_attempt_at ?row = Some t"
      using result_row_facts(5) by metis
    then show False using a by (auto simp: pending_outbox_def seconds_def)
  qed
  show thesis
  proof (rule that[OF r(1) idr(1)])
    show "retry_one cfg inp k row d1 st = Inr (?d2, add_stats st (summarize_delivery_result (ob_status row) (Some ?row)))"
      using del assms(3) by (simp add: retry_one_def)
    show "attempts ?d2 = attempts d @ [?t]" by (simp add: r(3))
    show "map ob_id (outbox_rows ?d2) = map ob_id (outbox_rows d)"
      using ids1 by (simp add: map_update_rows result_row_facts)
    show "ob_id ?row = ob_id r" "ob_attempt_count ?row = ob_attempt_count r + 1" by (simp_all add: result_row_facts idr)
    show "set (outbox_rows ?d2) = {o1 \<in> set (outbox_rows d). ob_id o1 \<noteq> ob_id r} \<union> {?row}"
      using rm(1) idr(1) by (auto simp: r(3) set_update_rows)
    show "deliverable ?row" using dv by (auto simp: deliverable_def result_row_def Let_def)
    show "ob_status ?row \<in> {OB_DELIVERED, OB_DEAD, OB_FAILED}" by (simp add: result_row_facts)
    show "\<not> (net_clock ?env \<ge> now' \<and> pending_outbox now' ?row)" by (rule pend)
  qed
qed

text \<open>The state of a run that started on \<open>d0\<close>: at most one attempt more for each row, and none is due
  that already got one.\<close>

definition run_inv :: "time \<Rightarrow> db \<Rightarrow> db \<Rightarrow> stats \<Rightarrow> bool" where
  "run_inv now d0 d st \<longleftrightarrow>
     map ob_id (outbox_rows d) = map ob_id (outbox_rows d0) \<and> (\<forall>o1\<in>set (outbox_rows d). deliverable o1)
     \<and> length (attempts d) = length (attempts d0) + st_processed st
     \<and> st_processed st = st_delivered st + st_retried st + st_dead st
     \<and> (\<forall>o1\<in>set (outbox_rows d). \<exists>o0\<in>set (outbox_rows d0). ob_id o0 = ob_id o1
          \<and> (ob_attempt_count o1 = ob_attempt_count o0
             \<or> (ob_attempt_count o1 = ob_attempt_count o0 + 1 \<and> \<not> pending_outbox now o1)))"

lemma run_inv_turn:
  assumes "run_inv (ri_now inp) d0 d st" "distinct (map ob_id (outbox_rows d0))" "\<not> ri_dry_run inp"
    and "ri_now inp \<le> net_clock (ri_env inp k)"
    and "claim_next_pending_outbox cfg (ri_now inp) wall {} d = Some (d1, row)"
  obtains d2 st2 where "retry_one cfg inp k row d1 st = Inr (d2, st2)" "run_inv (ri_now inp) d0 d2 st2"
proof -
  have dst: "distinct (map ob_id (outbox_rows d))" using assms(1,2) by (simp add: run_inv_def)
  have dlv: "\<forall>o1\<in>set (outbox_rows d). deliverable o1" using assms(1) by (simp add: run_inv_def)
  obtain r row' t d2 where t: "next_pending (ri_now inp) {} d = Some r"
    "retry_one cfg inp k row d1 st = Inr (d2, add_stats st (summarize_delivery_result (ob_status row) (Some row')))"
    "attempts d2 = attempts d @ [t]" "map ob_id (outbox_rows d2) = map ob_id (outbox_rows d)" "ob_id row' = ob_id r"
    "set (outbox_rows d2) = {o1 \<in> set (outbox_rows d). ob_id o1 \<noteq> ob_id r} \<union> {row'}"
    "ob_attempt_count row' = ob_attempt_count r + 1" "deliverable row'"
    "ob_status row' \<in> {OB_DELIVERED, OB_DEAD, OB_FAILED}"
    "\<not> (ri_now inp \<le> net_clock (ri_env inp k) \<and> pending_outbox (ri_now inp) row')"
    by (rule retry_turn[OF dst dlv assms(3,5), where k = k and st = st and now' = "ri_now inp"])
  let ?st = "add_stats st (summarize_delivery_result (ob_status row) (Some row'))"
  have r: "r \<in> set (outbox_rows d)" "pending_outbox (ri_now inp) r" using next_pending_mem[OF t(1)] by auto
  then obtain o0 where o0: "o0 \<in> set (outbox_rows d0)" "ob_id o0 = ob_id r" "ob_attempt_count r = ob_attempt_count o0"
    using assms(1) unfolding run_inv_def by metis
  have "st_processed ?st = st_processed st + 1"
    "st_delivered ?st + st_retried ?st + st_dead ?st = st_delivered st + st_retried st + st_dead st + 1"
    using t(9) by (auto simp: add_stats_def summarize_counts)
  then have "run_inv (ri_now inp) d0 d2 ?st"
    using assms(1,4) t(3-8,10) o0 unfolding run_inv_def t(6) by auto
  then show thesis using that t(2) by blast
qed

lemma retry_loop_run:
  assumes "run_inv (ri_now inp) d0 d st" "distinct (map ob_id (outbox_rows d0))" "\<not> ri_dry_run inp"
    and "\<forall>k. ri_now inp \<le> net_clock (ri_env inp k)"
    and "retry_loop cfg inp fuel k d st = Some r"
  shows "\<exists>d' st'. r = Inr (d', st') \<and> run_inv (ri_now inp) d0 d' st'"
  using assms(1,5)
proof (induction fuel arbitrary: k d st)
  case (Suc fuel)
  show ?case
  proof (cases "st_processed st < ri_batch_size inp \<and> ri_in_time inp k")
    case False then show ?thesis using Suc.prems by auto
  next
    case True
    show ?thesis
    proof (cases "claim_next_pending_outbox cfg (ri_now inp) (net_clock (ri_env inp k)) {} d")
      case None then show ?thesis using True Suc.prems by auto
    next
      case (Some a)
      obtain d1 row where c: "claim_next_pending_outbox cfg (ri_now inp) (net_clock (ri_env inp k)) {} d = Some (d1, row)"
        using Some by (cases a) auto
      obtain d2 st2 where o: "retry_one cfg inp k row d1 st = Inr (d2, st2)" "run_inv (ri_now inp) d0 d2 st2"
        using assms(4) by (blast intro: run_inv_turn[OF Suc.prems(1) assms(2,3) _ c])
      have "retry_loop cfg inp fuel (k + 1) d2 st2 = Some r" using Suc.prems(2) True c o(1) by simp
      then show ?thesis by (rule Suc.IH[OF o(2)])
    qed
  qed
qed simp

text \<open>
  With one worker each row is attempted at most once and the run reports exactly what it did: each row is there
  afterwards with the same attempt count or one more, and the attempts written are those reported.
\<close>

lemma retry_run_accounts:
  assumes "distinct (map ob_id (outbox_rows d))"
    and "\<forall>o1\<in>set (outbox_rows d). ob_delivery_kind o1 = KIND_EMAIL \<or> ob_action_rule o1 \<noteq> None"
    and "\<not> ri_dry_run inp" "\<forall>k. ri_now inp \<le> net_clock (ri_env inp k)"
  shows "\<exists>d' st. retry_pending_webhooks cfg inp d = Some (Inr (d', st))
     \<and> map ob_id (outbox_rows d') = map ob_id (outbox_rows d)
     \<and> (\<forall>o1\<in>set (outbox_rows d'). \<exists>o0\<in>set (outbox_rows d). ob_id o0 = ob_id o1
          \<and> ob_attempt_count o0 \<le> ob_attempt_count o1 \<and> ob_attempt_count o1 \<le> ob_attempt_count o0 + 1)
     \<and> length (attempts d') = length (attempts d) + st_processed st
     \<and> st_processed st = st_delivered st + st_retried st + st_dead st \<and> st_processed st \<le> ri_batch_size inp"
proof -
  have i: "run_inv (ri_now inp) d d zero_stats"
    using assms(2) by (auto simp: run_inv_def deliverable_def zero_stats_def)
  obtain r where r: "retry_pending_webhooks cfg inp d = Some r"
    "\<forall>d' st. r = Inr (d', st) \<longrightarrow> st_processed st \<le> ri_batch_size inp"
    using retry_loop_ends[of zero_stats inp "ri_batch_size inp + 1" cfg 0 d]
    by (auto simp: retry_pending_webhooks_def zero_stats_def)
  then obtain d' st where "r = Inr (d', st)" "run_inv (ri_now inp) d d' st"
    using retry_loop_run[OF i assms(1,3,4)] unfolding retry_pending_webhooks_def by blast
  then show ?thesis using r unfolding run_inv_def by (intro exI[of _ d'] exI[of _ st]) (auto; fastforce)
qed

section \<open>A row does not stay open for ever\<close>

fun deliver_repeatedly :: "settings \<Rightarrow> (nat \<Rightarrow> net_env) \<Rightarrow> int \<Rightarrow> uuid \<Rightarrow> nat \<Rightarrow> db \<Rightarrow> db" where
  "deliver_repeatedly cfg envs ms i 0 d = d"
| "deliver_repeatedly cfg envs ms i (Suc n) d =
     safe_deliver_outbox_row cfg (envs n) ms i (deliver_repeatedly cfg envs ms i n d)"

lemma deliver_terminal_noop:
  assumes "distinct (map ob_id (outbox_rows d))" "row \<in> set (outbox_rows d)" "terminal row"
  shows "safe_deliver_outbox_row cfg env ms (ob_id row) d = d"
  using assms(3) first_row_id[OF assms(1,2)]
  by (auto simp: safe_deliver_outbox_row_def deliver_outbox_row_def deliver_load_def terminal_def)

lemma deliver_open_row:
  assumes "distinct (map ob_id (outbox_rows d))" "row \<in> set (outbox_rows d)" "\<not> terminal row" "deliverable row"
    and "d' = safe_deliver_outbox_row cfg env ms (ob_id row) d"
  shows "map ob_id (outbox_rows d') = map ob_id (outbox_rows d)"
    and "\<exists>row'\<in>set (outbox_rows d'). ob_id row' = ob_id row \<and> deliverable row'
          \<and> ob_attempt_count row' = ob_attempt_count row + 1
          \<and> (terminal row' \<or> int (ob_attempt_count row') < max_attempts cfg)"
proof -
  obtain w :: work and success am where del:
    "deliver_outbox_row cfg env ms (ob_id row) TRIGGER_DISPATCH None d =
       Inr (d\<lparr>attempts := attempts d @ [new_attempt cfg (net_clock env) row (wk_terminal w) success am TRIGGER_DISPATCH None],
              outbox_rows := update_rows (\<lambda>o1. ob_id o1 = ob_id row)
                (\<lambda>_. result_row cfg (net_clock env) row (wk_terminal w) success am) (outbox_rows d)\<rparr>,
            Some (result_row cfg (net_clock env) row (wk_terminal w) success am))"
    by (rule deliver_sequential[OF assms(1-4), where cfg = cfg and env = env and ms = ms
          and trg = TRIGGER_DISPATCH and run = None])
  let ?row = "result_row cfg (net_clock env) row (wk_terminal w) success am"
  have d': "outbox_rows d' = update_rows (\<lambda>o1. ob_id o1 = ob_id row) (\<lambda>_. ?row) (outbox_rows d)"
    using assms(5) del by (simp add: safe_deliver_outbox_row_def)
  show "map ob_id (outbox_rows d') = map ob_id (outbox_rows d)"
    unfolding d' by (simp add: map_update_rows result_row_facts)
  have "deliverable ?row" using assms(4) by (auto simp: deliverable_def result_row_def Let_def)
  moreover have "terminal ?row \<or> int (ob_attempt_count ?row) < max_attempts cfg"
    by (auto simp: terminal_def result_row_facts)
  ultimately show "\<exists>row'\<in>set (outbox_rows d'). ob_id row' = ob_id row \<and> deliverable row'
          \<and> ob_attempt_count row' = ob_attempt_count row + 1
          \<and> (terminal row' \<or> int (ob_attempt_count row') < max_attempts cfg)"
    using assms(2) unfolding d' by (intro bexI[of _ ?row]) (auto simp: set_update_rows result_row_facts)
qed

lemma deliver_repeatedly_inv:
  assumes "distinct (map ob_id (outbox_rows d))" "row \<in> set (outbox_rows d)" "deliverable row"
  shows "map ob_id (outbox_rows (deliver_repeatedly cfg envs ms (ob_id row) n d)) = map ob_id (outbox_rows d)
    \<and> (\<exists>row'\<in>set (outbox_rows (deliver_repeatedly cfg envs ms (ob_id row) n d)). ob_id row' = ob_id row
         \<and> deliverable row' \<and> ob_attempt_count row' \<le> ob_attempt_count row + n
         \<and> (terminal row' \<or> (ob_attempt_count row' = ob_attempt_count row + n
                             \<and> (n > 0 \<longrightarrow> int (ob_attempt_count row') < max_attempts cfg))))"
proof (induction n)
  case 0 then show ?case using assms(2,3) by auto
next
  case (Suc n)
  define d1 where "d1 = deliver_repeatedly cfg envs ms (ob_id row) n d"
  have ids: "map ob_id (outbox_rows d1) = map ob_id (outbox_rows d)" using Suc.IH by (simp add: d1_def)
  then have dst: "distinct (map ob_id (outbox_rows d1))" using assms(1) by simp
  obtain r where r: "r \<in> set (outbox_rows d1)" "ob_id r = ob_id row" "deliverable r"
    "ob_attempt_count r \<le> ob_attempt_count row + n"
    "terminal r \<or> (ob_attempt_count r = ob_attempt_count row + n)"
    using Suc.IH unfolding d1_def by blast
  show ?case
  proof (cases "terminal r")
    case True
    have "deliver_repeatedly cfg envs ms (ob_id row) (Suc n) d = d1"
      using deliver_terminal_noop[OF dst r(1) True] r(2) by (simp add: d1_def)
    then show ?thesis using ids r True by auto
  next
    case False
    have e: "deliver_repeatedly cfg envs ms (ob_id row) (Suc n) d = safe_deliver_outbox_row cfg (envs n) ms (ob_id r) d1"
      using r(2) by (simp add: d1_def)
    note o = deliver_open_row[OF dst r(1) False r(3) refl, of cfg "envs n" ms]
    show ?thesis
      unfolding e using o ids r(2,5) False by (simp; fastforce)
  qed
qed

text \<open>C34. No delivery stays open for ever: whatever the receivers answer (errors, timeouts, any
  status), once a row has been tried so often that its count would reach the configured maximum, it is
  delivered or dead, and further tries change nothing. So with a maximum of 8, eight tries end every
  new row.\<close>

theorem delivery_ends:
  assumes "distinct (map ob_id (outbox_rows d))" "row \<in> set (outbox_rows d)"
    and "ob_delivery_kind row = KIND_EMAIL \<or> ob_action_rule row \<noteq> None"
    and "n > 0" "max_attempts cfg \<le> int (ob_attempt_count row + n)"
  shows "\<exists>row'\<in>set (outbox_rows (deliver_repeatedly cfg envs ms (ob_id row) n d)). ob_id row' = ob_id row
     \<and> ob_status row' \<in> {OB_DELIVERED, OB_DEAD} \<and> ob_attempt_count row' \<le> ob_attempt_count row + n
     \<and> safe_deliver_outbox_row cfg env ms (ob_id row) (deliver_repeatedly cfg envs ms (ob_id row) n d)
         = deliver_repeatedly cfg envs ms (ob_id row) n d"
proof -
  let ?d = "deliver_repeatedly cfg envs ms (ob_id row) n d"
  have "deliverable row" using assms(3) by (simp add: deliverable_def)
  then obtain r where r: "r \<in> set (outbox_rows ?d)" "ob_id r = ob_id row" "ob_attempt_count r \<le> ob_attempt_count row + n"
    "terminal r" and ids: "map ob_id (outbox_rows ?d) = map ob_id (outbox_rows d)"
    using deliver_repeatedly_inv[OF assms(1,2), of cfg envs ms n] assms(4,5) by force
  have "safe_deliver_outbox_row cfg env ms (ob_id r) ?d = ?d"
    by (rule deliver_terminal_noop[OF _ r(1,4)]) (simp add: ids assms(1))
  then show ?thesis using r by (auto simp: terminal_def)
qed

theorem delivery_ends_witness:
  "\<exists>row'\<in>set (outbox_rows (deliver_repeatedly default_settings (\<lambda>_. demo_net 500) 5 ''x'' 8
       (empty_db\<lparr>outbox_rows := [demo_row]\<rparr>))). ob_status row' \<in> {OB_DELIVERED, OB_DEAD}"
proof -
  have "ob_id demo_row = ''x''" "ob_delivery_kind demo_row = KIND_EMAIL" "ob_attempt_count demo_row = 0"
    by (simp_all add: demo_row_def new_outbox_def)
  then show ?thesis
    using delivery_ends[of "empty_db\<lparr>outbox_rows := [demo_row]\<rparr>" demo_row 8 default_settings "\<lambda>_. demo_net 500" 5]
    by (auto simp: max_attempts_def default_settings_def)
qed

end
