(* ===== verification/Retry_Pool.thy ===== *)
theory Retry_Pool
  imports Retry_Run
begin

text \<open>
  The retry run with its thread pool (\<^verbatim>\<open>concurrency\<close> > 1, the default is 4): the main thread of
  \<^verbatim>\<open>retry_pending_webhooks\<close> claims rows, submits them and merges finished futures; the threads of
  the pool load, send and record, each transaction in any order with everything else. The deadline is
  a monotonic time. A property of every interleaving follows: what a run attempts, records and reports.
\<close>

section \<open>The pool\<close>

text \<open>
  A submitted future: not started, loaded with its request running, ended with its summary, or ended with an
  exception. \<^verbatim>\<open>in_flight\<close> holds at most \<open>workers\<close> futures, so a submitted one always has a thread.
\<close>

datatype task_state = Queued | Running work | Task_Done stats | Task_Raised exn

record retry_task =
  rt_row :: uuid
  rt_before :: outbox_status
  rt_state :: task_state

definition completed :: "retry_task \<Rightarrow> bool" where
  "completed t = (case rt_state t of Task_Done s \<Rightarrow> True | Task_Raised e \<Rightarrow> True | _ \<Rightarrow> False)"

text \<open>The two loops, the \<^verbatim>\<open>finally\<close> block that waits for the running futures, and the end.\<close>

datatype pool_phase = Claiming | Draining | Closing "exn + stats" | Returned "exn + stats"

record retry_pool =
  rp_db :: db
  rp_in_flight :: "retry_task list"
  rp_stats :: stats
  rp_clock :: time
  rp_phase :: pool_phase

definition pool_start :: "db \<Rightarrow> time \<Rightarrow> retry_pool" where
  "pool_start d clock = \<lparr> rp_db = d, rp_in_flight = [], rp_stats = zero_stats, rp_clock = clock, rp_phase = Claiming \<rparr>"

text \<open>\<^verbatim>\<open>deadline = time.monotonic() + max(0.1, max_seconds)\<close>.\<close>

definition pool_deadline :: "time \<Rightarrow> time \<Rightarrow> time" where
  "pool_deadline clock max_seconds = clock + max 100000 max_seconds"

text \<open>\<^verbatim>\<open>_worker\<close>: the first transaction of the delivery, and its request with the second one.\<close>

definition worker_start :: "db \<Rightarrow> retry_task \<Rightarrow> retry_task" where
  "worker_start d t = t\<lparr>rt_state :=
     (case deliver_load (rt_row t) d of
        Inl e \<Rightarrow> Task_Raised e
      | Inr (Return after) \<Rightarrow> Task_Done (summarize_delivery_result (rt_before t) after)
      | Inr (Work w) \<Rightarrow> Running w)\<rparr>"

definition worker_finish ::
    "settings \<Rightarrow> net_env \<Rightarrow> int \<Rightarrow> nat option \<Rightarrow> work \<Rightarrow> retry_task \<Rightarrow> db \<Rightarrow> retry_task \<times> db" where
  "worker_finish cfg env ms run w t d =
     (case perform cfg env ms w of
        (success, am) \<Rightarrow>
          (case deliver_finish cfg (net_clock env) (rt_row t) w success am TRIGGER_AUTOMATIC_RETRY run d of
             Inl e \<Rightarrow> (t\<lparr>rt_state := Task_Raised e\<rparr>, d)
           | Inr (d', row) \<Rightarrow> (t\<lparr>rt_state := Task_Done (summarize_delivery_result (rt_before t) (Some row))\<rparr>, d')))"

text \<open>\<^verbatim>\<open>_merge(fut.result())\<close> over the set \<^verbatim>\<open>done\<close>, in any order; the first exception leaves the loop.\<close>

fun merge_done :: "stats \<Rightarrow> retry_task list \<Rightarrow> exn + stats" where
  "merge_done st [] = Inr st"
| "merge_done st (t # ts) =
     (case rt_state t of
        Task_Done delta \<Rightarrow> merge_done (add_stats st delta) ts
      | Task_Raised e \<Rightarrow> Inl e
      | _ \<Rightarrow> merge_done st ts)"

definition wait_merge :: "retry_task list \<Rightarrow> retry_pool \<Rightarrow> retry_pool" where
  "wait_merge finished s =
     (let s1 = s\<lparr>rp_in_flight := filter (\<lambda>t. t \<notin> set finished) (rp_in_flight s)\<rparr>
      in case merge_done (rp_stats s) finished of
           Inr st \<Rightarrow> s1\<lparr>rp_stats := st\<rparr>
         | Inl e \<Rightarrow> s1\<lparr>rp_phase := Closing (Inl e)\<rparr>)"

definition finished_of :: "retry_task list \<Rightarrow> retry_pool \<Rightarrow> bool" where
  "finished_of finished s \<longleftrightarrow> distinct finished \<and> set finished \<subseteq> {t \<in> set (rp_in_flight s). completed t}"

definition submit :: "db \<Rightarrow> outbox \<Rightarrow> retry_pool \<Rightarrow> retry_pool" where
  "submit d row s = s\<lparr>rp_db := d, rp_in_flight := rp_in_flight s @
     [\<lparr>rt_row = ob_id row, rt_before = ob_status row, rt_state = Queued\<rparr>]\<rparr>"

text \<open>
  The steps. \<open>In_Time\<close> of the first loop is \<open>rp_clock < deadline\<close>; a wait returns some futures that
  have completed (none at a time-out). \<open>locked\<close> are rows locked by transactions that run meanwhile. A
  thread reads a clock that is not before the \<^verbatim>\<open>now\<close> of the run, which was read first.
\<close>

inductive retry_pool_step :: "settings \<Rightarrow> retry_input \<Rightarrow> nat \<Rightarrow> time \<Rightarrow> retry_pool \<Rightarrow> retry_pool \<Rightarrow> bool"
  for cfg :: settings and inp :: retry_input and workers :: nat and deadline :: time where
  Pool_Claim: "rp_phase s = Claiming \<Longrightarrow> st_processed (rp_stats s) < ri_batch_size inp \<Longrightarrow> rp_clock s < deadline \<Longrightarrow>
     length (rp_in_flight s) < workers \<Longrightarrow> \<not> ri_dry_run inp \<Longrightarrow>
     claim_next_pending_outbox cfg (ri_now inp) wall locked (rp_db s) = Some (d, row) \<Longrightarrow>
     retry_pool_step cfg inp workers deadline s (submit d row s)"
| Pool_Dry: "rp_phase s = Claiming \<Longrightarrow> st_processed (rp_stats s) < ri_batch_size inp \<Longrightarrow> rp_clock s < deadline \<Longrightarrow>
     length (rp_in_flight s) < workers \<Longrightarrow> ri_dry_run inp \<Longrightarrow>
     claim_next_pending_outbox cfg (ri_now inp) wall locked (rp_db s) = Some (d, row) \<Longrightarrow>
     retry_one cfg inp 0 row d (rp_stats s) = Inr (d', st) \<Longrightarrow>
     retry_pool_step cfg inp workers deadline s (s\<lparr>rp_db := d', rp_stats := st\<rparr>)"
| Pool_Full: "rp_phase s = Claiming \<Longrightarrow> st_processed (rp_stats s) < ri_batch_size inp \<Longrightarrow> rp_clock s < deadline \<Longrightarrow>
     workers \<le> length (rp_in_flight s) \<Longrightarrow> finished_of finished s \<Longrightarrow>
     retry_pool_step cfg inp workers deadline s (wait_merge finished s)"
| Pool_Empty: "rp_phase s = Claiming \<Longrightarrow> st_processed (rp_stats s) < ri_batch_size inp \<Longrightarrow> rp_clock s < deadline \<Longrightarrow>
     length (rp_in_flight s) < workers \<Longrightarrow>
     claim_next_pending_outbox cfg (ri_now inp) wall locked (rp_db s) = None \<Longrightarrow>
     rp_in_flight s \<noteq> [] \<Longrightarrow> finished_of finished s \<Longrightarrow>
     retry_pool_step cfg inp workers deadline s (wait_merge finished s)"
| Pool_No_More: "rp_phase s = Claiming \<Longrightarrow> st_processed (rp_stats s) < ri_batch_size inp \<Longrightarrow> rp_clock s < deadline \<Longrightarrow>
     claim_next_pending_outbox cfg (ri_now inp) wall locked (rp_db s) = None \<Longrightarrow> rp_in_flight s = [] \<Longrightarrow>
     retry_pool_step cfg inp workers deadline s (s\<lparr>rp_phase := Draining\<rparr>)"
| Pool_Stop: "rp_phase s = Claiming \<Longrightarrow> ri_batch_size inp \<le> st_processed (rp_stats s) \<or> deadline \<le> rp_clock s \<Longrightarrow>
     retry_pool_step cfg inp workers deadline s (s\<lparr>rp_phase := Draining\<rparr>)"
| Pool_Drain: "rp_phase s = Draining \<Longrightarrow> rp_in_flight s \<noteq> [] \<Longrightarrow> rp_clock s < deadline + seconds 1 \<Longrightarrow> finished_of finished s \<Longrightarrow>
     set finished = set (rp_in_flight s) \<or> deadline \<le> rp_clock s \<Longrightarrow>
     retry_pool_step cfg inp workers deadline s (wait_merge finished s)"
| Pool_Drained: "rp_phase s = Draining \<Longrightarrow> rp_in_flight s = [] \<or> deadline \<le> rp_clock s \<Longrightarrow>
     retry_pool_step cfg inp workers deadline s (s\<lparr>rp_phase := Closing (Inr (rp_stats s))\<rparr>)"
| Pool_Closed: "rp_phase s = Closing r \<Longrightarrow> list_all completed (rp_in_flight s) \<Longrightarrow>
     retry_pool_step cfg inp workers deadline s (s\<lparr>rp_phase := Returned r\<rparr>)"
| Thread_Start: "rp_in_flight s = ts @ t # us \<Longrightarrow> rt_state t = Queued \<Longrightarrow>
     retry_pool_step cfg inp workers deadline s (s\<lparr>rp_in_flight := ts @ worker_start (rp_db s) t # us\<rparr>)"
| Thread_Finish: "rp_in_flight s = ts @ t # us \<Longrightarrow> rt_state t = Running w \<Longrightarrow> ri_now inp \<le> net_clock env \<Longrightarrow>
     worker_finish cfg env ms (ri_run_id inp) w t (rp_db s) = (t', d) \<Longrightarrow>
     retry_pool_step cfg inp workers deadline s (s\<lparr>rp_db := d, rp_in_flight := ts @ t' # us\<rparr>)"
| Clock: "rp_clock s \<le> u \<Longrightarrow> retry_pool_step cfg inp workers deadline s (s\<lparr>rp_clock := u\<rparr>)"

section \<open>What is in flight\<close>

text \<open>
  \<open>ts\<close> are the attempts the run has written. A row of a queued or running future is leased and not
  attempted yet; a row that was attempted is not due for this run any more.
\<close>

definition task_ok :: "time \<Rightarrow> attempt list \<Rightarrow> outbox \<Rightarrow> task_state \<Rightarrow> bool" where
  "task_ok now ts o1 x \<longleftrightarrow>
     (case x of
        Queued \<Rightarrow> ob_id o1 \<notin> att_outbox ` set ts \<and> \<not> pending_outbox now o1 \<and> \<not> terminal o1
      | Running w \<Rightarrow> ob_id o1 \<notin> att_outbox ` set ts \<and> \<not> pending_outbox now o1 \<and> \<not> terminal o1
                     \<and> wk_snapshot w = ob_attempt_count o1
      | Task_Done s \<Rightarrow> ob_id o1 \<in> att_outbox ` set ts \<and> st_processed s = 1
                     \<and> st_delivered s + st_retried s + st_dead s = 1
      | Task_Raised e \<Rightarrow> False)"

definition rows_ok :: "time \<Rightarrow> db \<Rightarrow> attempt list \<Rightarrow> db \<Rightarrow> bool" where
  "rows_ok now d0 ts d \<longleftrightarrow>
     map ob_id (outbox_rows d) = map ob_id (outbox_rows d0) \<and> (\<forall>o1\<in>set (outbox_rows d). deliverable o1)
     \<and> attempts d = attempts d0 @ ts \<and> distinct (map att_outbox ts)
     \<and> att_outbox ` set ts \<subseteq> ob_id ` set (outbox_rows d0)
     \<and> (\<forall>o1\<in>set (outbox_rows d). ob_id o1 \<in> att_outbox ` set ts \<longrightarrow> \<not> pending_outbox now o1)
     \<and> (\<forall>o1\<in>set (outbox_rows d). \<exists>o0\<in>set (outbox_rows d0). ob_id o0 = ob_id o1
          \<and> ob_attempt_count o1 = ob_attempt_count o0 + (if ob_id o1 \<in> att_outbox ` set ts then 1 else 0))"

definition tasks_ok :: "time \<Rightarrow> attempt list \<Rightarrow> db \<Rightarrow> retry_task list \<Rightarrow> bool" where
  "tasks_ok now ts d tasks \<longleftrightarrow> distinct (map rt_row tasks)
     \<and> (\<forall>t\<in>set tasks. rt_row t \<in> ob_id ` set (outbox_rows d)
          \<and> rt_before t \<in> {OB_PENDING, OB_FAILED}
          \<and> (\<forall>o1\<in>set (outbox_rows d). ob_id o1 = rt_row t \<longrightarrow> task_ok now ts o1 (rt_state t)))"

definition attempt_of :: "retry_input \<Rightarrow> attempt \<Rightarrow> bool" where
  "attempt_of inp t \<longleftrightarrow> att_trigger t = TRIGGER_AUTOMATIC_RETRY \<and> att_scheduled_job_run_id t = ri_run_id inp"

definition done_tasks :: "retry_task list \<Rightarrow> nat" where
  "done_tasks tasks = length (filter completed tasks)"

definition stats_ok :: "stats \<Rightarrow> bool" where
  "stats_ok st \<longleftrightarrow> st_processed st = st_delivered st + st_retried st + st_dead st"


lemma tasks_okI:
  "distinct (map rt_row tasks) \<Longrightarrow> rt_row ` set tasks \<subseteq> ob_id ` set (outbox_rows d) \<Longrightarrow>
   rt_before ` set tasks \<subseteq> {OB_PENDING, OB_FAILED} \<Longrightarrow>
   (\<And>t o1. t \<in> set tasks \<Longrightarrow> o1 \<in> set (outbox_rows d) \<Longrightarrow> ob_id o1 = rt_row t \<Longrightarrow> task_ok now ts o1 (rt_state t)) \<Longrightarrow>
   tasks_ok now ts d tasks"
  unfolding tasks_ok_def by blast

lemma tasks_okD:
  assumes "tasks_ok now ts d tasks"
  shows "distinct (map rt_row tasks)" "rt_row ` set tasks \<subseteq> ob_id ` set (outbox_rows d)"
    "rt_before ` set tasks \<subseteq> {OB_PENDING, OB_FAILED}"
    "t \<in> set tasks \<Longrightarrow> o1 \<in> set (outbox_rows d) \<Longrightarrow> ob_id o1 = rt_row t \<Longrightarrow> task_ok now ts o1 (rt_state t)"
  using assms unfolding tasks_ok_def by blast+

lemma unique_row:
  "rows_ok now d0 ts d \<Longrightarrow> distinct (map ob_id (outbox_rows d0)) \<Longrightarrow> o1 \<in> set (outbox_rows d) \<Longrightarrow>
   o2 \<in> set (outbox_rows d) \<Longrightarrow> ob_id o1 = ob_id o2 \<Longrightarrow> o1 = o2"
  using distinct_map_unique[of ob_id "outbox_rows d" o1 o2] by (simp add: rows_ok_def)

lemma due_not_in_flight:
  assumes "tasks_ok now ts d tasks" "rows_ok now d0 ts d" "o1 \<in> set (outbox_rows d)" "pending_outbox now o1"
  shows "ob_id o1 \<notin> rt_row ` set tasks" "ob_id o1 \<notin> att_outbox ` set ts"
proof -
  show n: "ob_id o1 \<notin> att_outbox ` set ts" using assms(2-4) unfolding rows_ok_def by blast
  show "ob_id o1 \<notin> rt_row ` set tasks"
  proof
    assume "ob_id o1 \<in> rt_row ` set tasks"
    then obtain t where "t \<in> set tasks" "ob_id o1 = rt_row t" by auto
    then have "task_ok now ts o1 (rt_state t)" using assms(1,3) unfolding tasks_ok_def by blast
    then show False using n assms(4) by (simp add: task_ok_def split: task_state.splits)
  qed
qed

lemma pool_claim_ok:
  assumes "rows_ok now d0 ts d" "tasks_ok now ts d tasks" "0 < lease_seconds cfg"
    and "claim_next_pending_outbox cfg now wall locked d = Some (d', row)"
  shows "rows_ok now d0 ts d'"
    and "tasks_ok now ts d' (tasks @ [\<lparr>rt_row = ob_id row, rt_before = ob_status row, rt_state = Queued\<rparr>])"
proof -
  obtain r where r: "next_pending now locked d = Some r"
    "row = r\<lparr>ob_locked_until := Some (now + seconds (lease_seconds cfg)), ob_updated_at := wall\<rparr>"
    "d' = d\<lparr>outbox_rows := update_rows (\<lambda>o1. ob_id o1 = ob_id r) (\<lambda>_. row) (outbox_rows d)\<rparr>"
    using claim_Some[OF assms(4)] .
  have m: "r \<in> set (outbox_rows d)" "pending_outbox now r" using next_pending_mem[OF r(1)] by auto
  have f: "ob_id row = ob_id r" "ob_attempt_count row = ob_attempt_count r" "deliverable row = deliverable r"
    "ob_status row = ob_status r" by (simp_all add: r(2) deliverable_def)
  have nd: "\<not> pending_outbox now row" using assms(3) by (simp add: r(2) pending_outbox_def seconds_def)
  have st: "ob_status r \<in> {OB_PENDING, OB_FAILED}" using m(2) by (simp add: pending_outbox_def)
  then have nt: "\<not> terminal row" using f(4) by (auto simp: terminal_def)
  note new = due_not_in_flight[OF assms(2,1) m]
  have rows: "set (outbox_rows d') = {o1 \<in> set (outbox_rows d). ob_id o1 \<noteq> ob_id r} \<union> {row}"
    using m(1) by (auto simp: r(3) set_update_rows)
  have ids: "map ob_id (outbox_rows d') = map ob_id (outbox_rows d)" unfolding r(3) by (simp add: map_update_rows f(1))
  then have idset: "ob_id ` set (outbox_rows d') = ob_id ` set (outbox_rows d)" by (metis list.set_map)
  obtain o0 where o0: "o0 \<in> set (outbox_rows d0)" "ob_id o0 = ob_id r" "ob_attempt_count r = ob_attempt_count o0"
    using assms(1) m(1) new(2) unfolding rows_ok_def by force
  show "rows_ok now d0 ts d'"
    using assms(1) ids m(1) o0 nd new(2) unfolding rows_ok_def rows by (auto simp: f r(3) split: if_splits)
  show "tasks_ok now ts d' (tasks @ [\<lparr>rt_row = ob_id row, rt_before = ob_status row, rt_state = Queued\<rparr>])"
  proof (rule tasks_okI)
    let ?t = "\<lparr>rt_row = ob_id row, rt_before = ob_status row, rt_state = Queued\<rparr>"
    note T = tasks_okD[OF assms(2)]
    show "distinct (map rt_row (tasks @ [?t]))" using T(1) new(1) f(1) by auto
    show "rt_row ` set (tasks @ [?t]) \<subseteq> ob_id ` set (outbox_rows d')"
      unfolding idset using T(2) m(1) f(1) by auto
    show "rt_before ` set (tasks @ [?t]) \<subseteq> {OB_PENDING, OB_FAILED}" using T(3) st f(4) by auto
    fix t o1 assume a: "t \<in> set (tasks @ [?t])" "o1 \<in> set (outbox_rows d')" "ob_id o1 = rt_row t"
    show "task_ok now ts o1 (rt_state t)"
    proof (cases "t = ?t")
      case True
      then have "o1 = row" using a(2,3) f(1) unfolding rows by auto
      then show ?thesis using True new(2) nd nt f(1) by (simp add: task_ok_def)
    next
      case False
      then have "t \<in> set tasks" using a(1) by auto
      moreover from this have "o1 \<in> set (outbox_rows d)" using a(2,3) new(1) f(1) unfolding rows by auto
      ultimately show ?thesis using T(4) a(3) by blast
    qed
  qed
qed

lemma task_row:
  assumes "tasks_ok now ts d tasks" "t \<in> set tasks"
  obtains o1 where "o1 \<in> set (outbox_rows d)" "ob_id o1 = rt_row t" "task_ok now ts o1 (rt_state t)"
  using assms unfolding tasks_ok_def by (metis imageE)

text \<open>Replacing one future by its next state.\<close>

lemma tasks_ok_replace:
  assumes "tasks_ok now ts d (us @ t # vs)" "rt_row t' = rt_row t" "rt_before t' = rt_before t"
    and "\<And>o1. o1 \<in> set (outbox_rows d) \<Longrightarrow> ob_id o1 = rt_row t \<Longrightarrow> task_ok now ts o1 (rt_state t')"
  shows "tasks_ok now ts d (us @ t' # vs)"
  using assms unfolding tasks_ok_def by auto

lemma pool_start_ok:
  assumes "rows_ok now d0 ts d" "tasks_ok now ts d (us @ t # vs)" "distinct (map ob_id (outbox_rows d0))" "rt_state t = Queued"
  shows "tasks_ok now ts d (us @ worker_start d t # vs)" "\<not> completed (worker_start d t)"
proof -
  obtain o1 where o1: "o1 \<in> set (outbox_rows d)" "ob_id o1 = rt_row t" "task_ok now ts o1 (rt_state t)"
    by (rule task_row[OF assms(2), of t]) auto
  have dst: "distinct (map ob_id (outbox_rows d))" "deliverable o1" using assms(1,3) o1(1) by (auto simp: rows_ok_def)
  have nt: "\<not> terminal o1" using o1(3) assms(4) by (simp add: task_ok_def)
  obtain w where w: "deliver_load (rt_row t) d = Inr (Work w)" "wk_snapshot w = ob_attempt_count o1"
    using load_deliverable[OF dst(1) o1(1) nt dst(2)] o1(2) by metis
  have ws: "worker_start d t = t\<lparr>rt_state := Running w\<rparr>" by (simp add: worker_start_def w(1))
  then show "\<not> completed (worker_start d t)" by (simp add: completed_def)
  show "tasks_ok now ts d (us @ worker_start d t # vs)"
    unfolding ws
  proof (rule tasks_ok_replace[OF assms(2)])
    fix o2 assume "o2 \<in> set (outbox_rows d)" "ob_id o2 = rt_row t"
    then have "o2 = o1" using unique_row[OF assms(1,3)] o1 by metis
    then show "task_ok now ts o2 (rt_state (t\<lparr>rt_state := Running w\<rparr>))" using o1(3) assms(4) w(2) by (simp add: task_ok_def)
  qed simp_all
qed

lemma result_not_due:
  assumes "now \<le> clock"
  shows "\<not> pending_outbox now (result_row cfg clock row te success am)"
proof
  assume a: "pending_outbox now (result_row cfg clock row te success am)"
  then have "ob_status (result_row cfg clock row te success am) = OB_FAILED"
    by (auto simp: pending_outbox_def result_row_facts split: if_splits)
  then obtain t where "t \<ge> clock + seconds 1" "ob_next_attempt_at (result_row cfg clock row te success am) = Some t"
    using result_row_facts(5) by metis
  then show False using a assms by (auto simp: pending_outbox_def seconds_def)
qed

lemma pool_finish_ok:
  assumes "rows_ok (ri_now inp) d0 ts d" "tasks_ok (ri_now inp) ts d (us @ t # vs)" "distinct (map ob_id (outbox_rows d0))"
    and "rt_state t = Running w" "ri_now inp \<le> net_clock env"
    and "worker_finish cfg env ms (ri_run_id inp) w t d = (t', d')"
  obtains a where "rows_ok (ri_now inp) d0 (ts @ [a]) d'" "tasks_ok (ri_now inp) (ts @ [a]) d' (us @ t' # vs)" "completed t'"
    "attempt_of inp a"
proof -
  let ?now = "ri_now inp"
  obtain o1 where o1: "o1 \<in> set (outbox_rows d)" "ob_id o1 = rt_row t" "task_ok ?now ts o1 (rt_state t)"
    by (rule task_row[OF assms(2), of t]) auto
  have dst: "distinct (map ob_id (outbox_rows d))" using assms(1,3) by (auto simp: rows_ok_def)
  obtain ok am where p: "perform cfg env ms w = (ok, am)" by fastforce
  define success where "success = (if wk_terminal w \<noteq> None then False else ok)"
  define row where "row = result_row cfg (net_clock env) o1 (wk_terminal w) success am"
  define a where "a = new_attempt cfg (net_clock env) o1 (wk_terminal w) success am TRIGGER_AUTOMATIC_RETRY (ri_run_id inp)"
  have snap: "wk_snapshot w = ob_attempt_count o1" "rt_row t \<notin> att_outbox ` set ts"
    using o1(2,3) assms(4) by (simp_all add: task_ok_def)
  have fr: "first_row (\<lambda>o2. ob_id o2 = rt_row t) (outbox_rows d) = Some o1"
    using first_row_id[OF dst o1(1)] o1(2) by simp
  have fin: "deliver_finish cfg (net_clock env) (rt_row t) w ok am TRIGGER_AUTOMATIC_RETRY (ri_run_id inp) d
    = Inr (d\<lparr>attempts := attempts d @ [a], outbox_rows := update_rows (\<lambda>o2. ob_id o2 = ob_id o1) (\<lambda>_. row) (outbox_rows d)\<rparr>, row)"
    by (simp add: deliver_finish_def fr snap(1) apply_delivery_result_def Let_def a_def row_def success_def)
  have t': "t' = t\<lparr>rt_state := Task_Done (summarize_delivery_result (rt_before t) (Some row))\<rparr>"
    and d': "d' = d\<lparr>attempts := attempts d @ [a], outbox_rows := update_rows (\<lambda>o2. ob_id o2 = ob_id o1) (\<lambda>_. row) (outbox_rows d)\<rparr>"
    using assms(6) by (simp_all add: worker_finish_def p fin)
  have f: "ob_id row = rt_row t" "ob_attempt_count row = ob_attempt_count o1 + 1" "deliverable row = deliverable o1"
    "ob_status row \<in> {OB_DELIVERED, OB_DEAD, OB_FAILED}" "att_outbox a = rt_row t"
    using o1(2) by (simp_all add: row_def a_def result_row_facts new_attempt_def deliverable_def) (simp_all add: result_row_def Let_def)
  have nd: "\<not> pending_outbox ?now row" unfolding row_def by (rule result_not_due[OF assms(5)])
  have rows: "set (outbox_rows d') = {o2 \<in> set (outbox_rows d). ob_id o2 \<noteq> rt_row t} \<union> {row}"
    using o1(1,2) by (auto simp: d' set_update_rows)
  have ids: "map ob_id (outbox_rows d') = map ob_id (outbox_rows d)"
    unfolding d' by (simp add: map_update_rows f(1) o1(2))
  then have idset: "ob_id ` set (outbox_rows d') = ob_id ` set (outbox_rows d)" by (metis list.set_map)
  obtain o0 where o0: "o0 \<in> set (outbox_rows d0)" "ob_id o0 = rt_row t" "ob_attempt_count o1 = ob_attempt_count o0"
    using assms(1) o1(1,2) snap(2) unfolding rows_ok_def by force
  have at: "attempts d' = attempts d @ [a]" by (simp add: d')
  have "rows_ok ?now d0 (ts @ [a]) d'"
    using assms(1) ids o1(1,2) o0 nd snap(2) imageI[OF o0(1), of ob_id] unfolding rows_ok_def rows at
    by (auto simp: f split: if_splits)
  moreover have "tasks_ok ?now (ts @ [a]) d' (us @ t' # vs)"
  proof -
    note T = tasks_okD[OF assms(2)]
    have other: "rt_row t2 \<noteq> rt_row t" if "t2 \<in> set us \<union> set vs" for t2
      using T(1) that by (auto; metis imageI)
    have mine: "task_ok ?now (ts @ [a]) row (rt_state t')"
      using f(4) by (auto simp: t' task_ok_def f summarize_counts)
    show ?thesis
    proof (rule tasks_okI)
      show "distinct (map rt_row (us @ t' # vs))" using T(1) by (simp add: t')
      show "rt_row ` set (us @ t' # vs) \<subseteq> ob_id ` set (outbox_rows d')" unfolding idset using T(2) by (simp add: t')
      show "rt_before ` set (us @ t' # vs) \<subseteq> {OB_PENDING, OB_FAILED}" using T(3) by (simp add: t')
      fix t2 o2 assume a2: "t2 \<in> set (us @ t' # vs)" "o2 \<in> set (outbox_rows d')" "ob_id o2 = rt_row t2"
      consider "t2 = t'" | "t2 \<in> set us \<union> set vs" using a2(1) by auto
      then show "task_ok ?now (ts @ [a]) o2 (rt_state t2)"
      proof cases
        case 1
        then have "o2 = row" using a2(2,3) unfolding rows by (auto simp: t')
        then show ?thesis using 1 mine by simp
      next
        case 2
        then have o2: "o2 \<in> set (outbox_rows d)" using a2(2,3) other[OF 2] f(1) unfolding rows by auto
        have "task_ok ?now ts o2 (rt_state t2)" using T(4)[of t2 o2] 2 o2 a2(3) by auto
        then show ?thesis using other[OF 2] a2(3) f(5) by (auto simp: task_ok_def split: task_state.splits)
      qed
    qed
  qed
  moreover have "completed t'" "attempt_of inp a" by (simp_all add: t' completed_def a_def attempt_of_def new_attempt_def)
  ultimately show thesis using that by blast
qed


section \<open>The invariant of a run\<close>

definition phase_ok :: "time \<Rightarrow> retry_pool \<Rightarrow> bool" where
  "phase_ok deadline s \<longleftrightarrow>
     (case rp_phase s of
        Claiming \<Rightarrow> True
      | Draining \<Rightarrow> True
      | Closing r \<Rightarrow> r = Inr (rp_stats s) \<and> (rp_in_flight s = [] \<or> deadline \<le> rp_clock s)
      | Returned r \<Rightarrow> r = Inr (rp_stats s) \<and> (rp_in_flight s = [] \<or> deadline \<le> rp_clock s)
                      \<and> list_all completed (rp_in_flight s))"

definition retry_pool_inv :: "retry_input \<Rightarrow> nat \<Rightarrow> time \<Rightarrow> db \<Rightarrow> attempt list \<Rightarrow> retry_pool \<Rightarrow> bool" where
  "retry_pool_inv inp workers deadline d0 ts s \<longleftrightarrow>
     rows_ok (ri_now inp) d0 ts (rp_db s) \<and> tasks_ok (ri_now inp) ts (rp_db s) (rp_in_flight s)
     \<and> list_all (attempt_of inp) ts
     \<and> length ts = st_processed (rp_stats s) + done_tasks (rp_in_flight s) \<and> stats_ok (rp_stats s)
     \<and> length (rp_in_flight s) \<le> workers
     \<and> st_processed (rp_stats s) + length (rp_in_flight s) \<le> ri_batch_size inp - 1 + workers
     \<and> phase_ok deadline s"

lemma merge_done_ok:
  assumes "\<forall>t\<in>set finished. \<exists>s. rt_state t = Task_Done s \<and> st_processed s = 1 \<and> st_delivered s + st_retried s + st_dead s = 1"
    and "stats_ok st"
  shows "\<exists>st'. merge_done st finished = Inr st' \<and> st_processed st' = st_processed st + length finished \<and> stats_ok st'"
  using assms
proof (induction finished arbitrary: st)
  case (Cons t finished)
  obtain s where s: "rt_state t = Task_Done s" "st_processed s = 1" "st_delivered s + st_retried s + st_dead s = 1"
    using Cons.prems(1) by auto
  have "stats_ok (add_stats st s)" using Cons.prems(2) s(2,3) by (simp add: stats_ok_def add_stats_def)
  then show ?case using Cons.IH[of "add_stats st s"] Cons.prems(1) s by (auto simp: add_stats_def)
qed simp

lemma length_remove_all:
  assumes "distinct ys" "set ys \<subseteq> set xs" "distinct xs"
  shows "length (filter (\<lambda>x. x \<notin> set ys) xs) + length ys = length xs"
proof -
  have "length (filter (\<lambda>x. x \<in> set ys) xs) = length ys"
    using assms by (metis distinct_card distinct_filter inf.absorb_iff2 inf_commute set_filter Collect_mem_eq Collect_conj_eq)
  then show ?thesis using sum_length_filter_compl[of "\<lambda>x. x \<in> set ys" xs] by simp
qed

lemma wait_merge_ok:
  assumes "retry_pool_inv inp workers deadline d0 ts s" "finished_of finished s" "rp_phase s \<in> {Claiming, Draining}"
  shows "retry_pool_inv inp workers deadline d0 ts (wait_merge finished s)"
proof -
  let ?left = "filter (\<lambda>t. t \<notin> set finished) (rp_in_flight s)"
  note inv = assms(1)[unfolded retry_pool_inv_def]
  have tok: "tasks_ok (ri_now inp) ts (rp_db s) (rp_in_flight s)" using inv by blast
  have fin: "distinct finished" "set finished \<subseteq> set (rp_in_flight s)" "\<forall>t\<in>set finished. completed t"
    using assms(2) by (auto simp: finished_of_def)
  have good: "\<forall>t\<in>set finished. \<exists>s. rt_state t = Task_Done s \<and> st_processed s = 1 \<and> st_delivered s + st_retried s + st_dead s = 1"
  proof
    fix t assume t: "t \<in> set finished"
    then obtain o1 where "task_ok (ri_now inp) ts o1 (rt_state t)" using fin(2) by (auto elim: task_row[OF tok])
    then show "\<exists>s. rt_state t = Task_Done s \<and> st_processed s = 1 \<and> st_delivered s + st_retried s + st_dead s = 1"
      using fin(3) t by (auto simp: task_ok_def completed_def split: task_state.splits)
  qed
  have "stats_ok (rp_stats s)" using inv by blast
  then obtain st where st: "merge_done (rp_stats s) finished = Inr st"
    "st_processed st = st_processed (rp_stats s) + length finished" "stats_ok st"
    using merge_done_ok[OF good] by blast
  have dt: "distinct (rp_in_flight s)" using tok by (auto simp: tasks_ok_def distinct_map)
  have l: "length ?left + length finished = length (rp_in_flight s)" by (rule length_remove_all[OF fin(1,2) dt])
  have "filter completed ?left = filter (\<lambda>t. t \<notin> set finished) (filter completed (rp_in_flight s))"
    by (simp add: conj_commute)
  then have d: "done_tasks ?left + length finished = done_tasks (rp_in_flight s)"
    unfolding done_tasks_def using length_remove_all[OF fin(1), of "filter completed (rp_in_flight s)"] fin(2,3) dt by auto
  have "tasks_ok (ri_now inp) ts (rp_db s) ?left"
    using tok unfolding tasks_ok_def by (auto simp: distinct_map_filter)
  then show ?thesis
    using inv st l d assms(3) unfolding retry_pool_inv_def wait_merge_def by (auto simp: phase_ok_def)
qed

lemma retry_pool_step_ok:
  assumes "retry_pool_step cfg inp workers deadline s s'" "retry_pool_inv inp workers deadline d0 ts s"
    and "distinct (map ob_id (outbox_rows d0))" "\<not> ri_dry_run inp" "0 < lease_seconds cfg"
  shows "\<exists>us. retry_pool_inv inp workers deadline d0 (ts @ us) s'"
proof -
  note inv = assms(2)[unfolded retry_pool_inv_def]
  have rok: "rows_ok (ri_now inp) d0 ts (rp_db s)" and tok: "tasks_ok (ri_now inp) ts (rp_db s) (rp_in_flight s)"
    using inv by blast+
  have same: "retry_pool_inv inp workers deadline d0 ts s' \<Longrightarrow> ?thesis" by (intro exI[of _ "[]"]) simp
  show ?thesis
    using assms(1)
  proof (cases rule: retry_pool_step.cases)
    case (Pool_Claim wall locked d row)
    have "retry_pool_inv inp workers deadline d0 ts s'"
      using inv pool_claim_ok[OF rok tok assms(5) Pool_Claim(7)] Pool_Claim(1-5)
      unfolding retry_pool_inv_def by (auto simp: submit_def done_tasks_def completed_def phase_ok_def)
    then show ?thesis by (rule same)
  next
    case (Pool_Dry wall locked d row d' st)
    then show ?thesis using assms(4) by blast
  next
    case (Pool_Full finished)
    then show ?thesis using same wait_merge_ok[OF assms(2)] by blast
  next
    case (Pool_Empty wall locked finished)
    then show ?thesis using same wait_merge_ok[OF assms(2)] by blast
  next
    case (Pool_Drain finished)
    then show ?thesis using same wait_merge_ok[OF assms(2)] by blast
  next
    case (Thread_Start us t vs)
    note ok = pool_start_ok[OF rok tok[unfolded Thread_Start(2)] assms(3) Thread_Start(3)]
    have "done_tasks (us @ worker_start (rp_db s) t # vs) = done_tasks (rp_in_flight s)"
      using ok(2) Thread_Start(2,3) by (simp add: done_tasks_def completed_def)
    moreover have "rp_phase s \<noteq> Returned r" for r
      using inv Thread_Start(2,3) by (auto simp: phase_ok_def completed_def)
    ultimately have "retry_pool_inv inp workers deadline d0 ts s'"
      using inv ok Thread_Start(1,2) unfolding retry_pool_inv_def by (auto simp: phase_ok_def split: pool_phase.splits)
    then show ?thesis by (rule same)
  next
    case (Thread_Finish us t vs w env ms t' d)
    obtain a where ok: "rows_ok (ri_now inp) d0 (ts @ [a]) d" "tasks_ok (ri_now inp) (ts @ [a]) d (us @ t' # vs)" "completed t'"
      "attempt_of inp a"
      by (rule pool_finish_ok[OF rok tok[unfolded Thread_Finish(2)] assms(3) Thread_Finish(3-5)])
    have "done_tasks (us @ t' # vs) = done_tasks (rp_in_flight s) + 1"
      using ok(3) Thread_Finish(2,3) by (simp add: done_tasks_def completed_def)
    moreover have "rp_phase s \<noteq> Returned r" for r
      using inv Thread_Finish(2,3) by (auto simp: phase_ok_def completed_def)
    ultimately have "retry_pool_inv inp workers deadline d0 (ts @ [a]) s'"
      using inv ok Thread_Finish(1,2) unfolding retry_pool_inv_def by (auto simp: phase_ok_def split: pool_phase.splits)
    then show ?thesis by blast
  qed (rule same, use inv in \<open>auto simp: retry_pool_inv_def phase_ok_def split: pool_phase.splits\<close>)+
qed

lemma retry_pool_steps_ok:
  assumes "(retry_pool_step cfg inp workers deadline)\<^sup>*\<^sup>* (pool_start d clock) s"
    and "distinct (map ob_id (outbox_rows d))" "\<forall>o1\<in>set (outbox_rows d). deliverable o1"
    and "\<not> ri_dry_run inp" "0 < lease_seconds cfg"
  shows "\<exists>ts. retry_pool_inv inp workers deadline d ts s"
  using assms(1)
proof (induction rule: rtranclp_induct)
  case base
  have "retry_pool_inv inp workers deadline d [] (pool_start d clock)"
    using assms(3) by (auto simp: retry_pool_inv_def rows_ok_def tasks_ok_def pool_start_def zero_stats_def stats_ok_def
        done_tasks_def phase_ok_def)
  then show ?case by blast
next
  case (step u v)
  then show ?case using retry_pool_step_ok[OF step(2) _ assms(2,4,5)] by blast
qed

text \<open>C21. A run of the retry job with a pool of any number of workers, in every interleaving of its main thread and
  its threads, when nothing else writes the outbox: every row is attempted at most once, the rows that
  were attempted have one attempt more and all others the count they had, and every attempt carries the
  automatic trigger and the run's id. The attempts written are those the statistics report as processed
  and those of futures that have ended but are not merged; processed is the sum of delivered,
  retried and dead, and processed and in flight together are less than the batch size plus the workers.
  The run never raises; when it returns, it returns these statistics, everything it submitted has ended, and
  nothing is left unreported unless the deadline has passed. Hypotheses: unique row ids, webhook rows
  have their rules, no dry run, a positive lease.\<close>

theorem retry_run_once_per_row:
  assumes "(retry_pool_step cfg inp workers deadline)\<^sup>*\<^sup>* (pool_start d clock) s"
    and "distinct (map ob_id (outbox_rows d))"
    and "\<forall>o1\<in>set (outbox_rows d). ob_delivery_kind o1 = KIND_EMAIL \<or> ob_action_rule o1 \<noteq> None"
    and "\<not> ri_dry_run inp" "0 < lease_seconds cfg"
  shows "\<exists>ts. attempts (rp_db s) = attempts d @ ts \<and> distinct (map att_outbox ts)
     \<and> list_all (\<lambda>t. att_trigger t = TRIGGER_AUTOMATIC_RETRY \<and> att_scheduled_job_run_id t = ri_run_id inp) ts
     \<and> map ob_id (outbox_rows (rp_db s)) = map ob_id (outbox_rows d)
     \<and> (\<forall>o1\<in>set (outbox_rows (rp_db s)). \<exists>o0\<in>set (outbox_rows d). ob_id o0 = ob_id o1
          \<and> ob_attempt_count o1 = ob_attempt_count o0 + (if ob_id o1 \<in> att_outbox ` set ts then 1 else 0))
     \<and> length ts = st_processed (rp_stats s) + length (filter completed (rp_in_flight s))
     \<and> st_processed (rp_stats s) = st_delivered (rp_stats s) + st_retried (rp_stats s) + st_dead (rp_stats s)
     \<and> st_processed (rp_stats s) + length (rp_in_flight s) \<le> ri_batch_size inp - 1 + workers
     \<and> (\<forall>e. rp_phase s \<noteq> Closing (Inl e) \<and> rp_phase s \<noteq> Returned (Inl e))
     \<and> (\<forall>st. rp_phase s = Returned (Inr st) \<longrightarrow> st = rp_stats s \<and> list_all completed (rp_in_flight s)
          \<and> (rp_clock s < deadline \<longrightarrow> length ts = st_processed st))"
proof -
  have dl: "\<forall>o1\<in>set (outbox_rows d). deliverable o1" using assms(3) by (simp add: deliverable_def)
  obtain ts where "retry_pool_inv inp workers deadline d ts s"
    using retry_pool_steps_ok[OF assms(1,2) dl assms(4,5)] by blast
  then have i: "rows_ok (ri_now inp) d ts (rp_db s)" "list_all (attempt_of inp) ts"
    "length ts = st_processed (rp_stats s) + done_tasks (rp_in_flight s)" "stats_ok (rp_stats s)"
    "st_processed (rp_stats s) + length (rp_in_flight s) \<le> ri_batch_size inp - 1 + workers" "phase_ok deadline s"
    by (simp_all add: retry_pool_inv_def)
  have ph: "(\<forall>e. rp_phase s \<noteq> Closing (Inl e) \<and> rp_phase s \<noteq> Returned (Inl e))
     \<and> (\<forall>st. rp_phase s = Returned (Inr st) \<longrightarrow> st = rp_stats s \<and> list_all completed (rp_in_flight s)
          \<and> (rp_clock s < deadline \<longrightarrow> length ts = st_processed st))"
    using i(3,6) by (auto simp: phase_ok_def done_tasks_def)
  show ?thesis
    using i(1-5) ph unfolding rows_ok_def stats_ok_def done_tasks_def attempt_of_def by (intro exI[of _ ts]) blast
qed


text \<open>
  A run whose deadline passes while its only delivery is running: it returns, the attempt is recorded and
  the statistics do not report it.
\<close>

theorem retry_run_once_per_row_witness:
  "\<exists>s. (retry_pool_step demo_cfg (demo_input False) 4 100000)\<^sup>*\<^sup>*
        (pool_start (empty_db\<lparr>outbox_rows := [demo_row]\<rparr>) 0) s
     \<and> rp_phase s = Returned (Inr zero_stats) \<and> length (attempts (rp_db s)) = 1"
proof -
  let ?d = "empty_db\<lparr>outbox_rows := [demo_row]\<rparr>"
  let ?step = "retry_pool_step demo_cfg (demo_input False) 4 100000"
  let ?s0 = "pool_start ?d 0"
  obtain d1 row where c: "claim_next_pending_outbox demo_cfg (ri_now (demo_input False)) 0 {} ?d = Some (d1, row)"
    by (simp add: claim_next_pending_outbox_def next_pending_def pending_outbox_def demo_row_def new_outbox_def
        claim_key_def Let_def)
  define t where "t = \<lparr>rt_row = ob_id row, rt_before = ob_status row, rt_state = Queued\<rparr>"
  define s1 where "s1 = submit d1 row ?s0"
  have s01: "?step ?s0 s1" unfolding s1_def
    by (rule Pool_Claim[where wall = 0 and locked = "{}"])
      (use c in \<open>simp_all add: pool_start_def demo_input_def zero_stats_def\<close>)
  have f1: "rp_in_flight s1 = [t]" "rp_phase s1 = Claiming" "rp_stats s1 = zero_stats"
    by (simp_all add: s1_def submit_def pool_start_def t_def)
  define s2 where "s2 = s1\<lparr>rp_clock := 100000\<rparr>"
  have s12: "?step s1 s2" unfolding s2_def by (rule Clock) (simp add: s1_def submit_def pool_start_def)
  define s3 where "s3 = s2\<lparr>rp_phase := Draining\<rparr>"
  have s23: "?step s2 s3" unfolding s3_def by (rule Pool_Stop) (simp_all add: s2_def f1)
  define s4 where "s4 = s3\<lparr>rp_phase := Closing (Inr (rp_stats s3))\<rparr>"
  have s34: "?step s3 s4" unfolding s4_def by (rule Pool_Drained) (simp_all add: s3_def s2_def)
  define s5 where "s5 = s4\<lparr>rp_in_flight := [] @ worker_start (rp_db s4) t # []\<rparr>"
  have s45: "?step s4 s5" unfolding s5_def
    by (rule Thread_Start) (simp_all add: s4_def s3_def s2_def f1 t_def)
  have run4: "?step\<^sup>*\<^sup>* ?s0 s4" using s01 s12 s23 s34 by (meson rtranclp.rtrancl_into_rtrancl rtranclp.rtrancl_refl)
  have hyp: "distinct (map ob_id (outbox_rows ?d))" "\<forall>o1\<in>set (outbox_rows ?d). ob_delivery_kind o1 = KIND_EMAIL \<or> ob_action_rule o1 \<noteq> None"
    "\<not> ri_dry_run (demo_input False)" "0 < lease_seconds demo_cfg"
    by (simp_all add: demo_row_def new_outbox_def demo_input_def demo_cfg_def default_settings_def lease_seconds_def)
  have dl: "\<forall>o1\<in>set (outbox_rows ?d). deliverable o1" using hyp(2) by (simp add: deliverable_def)
  obtain ts where i: "retry_pool_inv (demo_input False) 4 100000 ?d ts s5"
    using retry_pool_steps_ok[OF rtranclp.rtrancl_into_rtrancl[OF run4 s45] hyp(1) dl hyp(3,4)] by blast
  obtain ts4 where i4: "retry_pool_inv (demo_input False) 4 100000 ?d ts4 s4"
    using retry_pool_steps_ok[OF run4 hyp(1) dl hyp(3,4)] by blast
  have "\<not> completed (worker_start (rp_db s4) t)"
    by (rule pool_start_ok(2)[where us = "[]" and vs = "[]" and d = "rp_db s4" and ts = ts4
          and now = "ri_now (demo_input False)" and ?d0.0 = ?d])
      (use i4 hyp(1) in \<open>simp_all add: retry_pool_inv_def s4_def s3_def s2_def f1 t_def\<close>)
  moreover have "rt_state (worker_start (rp_db s4) t) \<noteq> Queued"
    by (simp add: worker_start_def split: sum.splits loaded.splits)
  ultimately obtain w where w: "rt_state (worker_start (rp_db s4) t) = Running w"
    by (cases "rt_state (worker_start (rp_db s4) t)") (auto simp: completed_def)
  obtain t' d' where fin: "worker_finish demo_cfg (demo_net 202) 5 (ri_run_id (demo_input False)) w
      (worker_start (rp_db s4) t) (rp_db s5) = (t', d')" by fastforce
  define s6 where "s6 = s5\<lparr>rp_db := d', rp_in_flight := [] @ t' # []\<rparr>"
  have s56: "?step s5 s6" unfolding s6_def
    by (rule Thread_Finish[OF _ w _ fin]) (simp_all add: s5_def demo_input_def demo_net_def)
  have run6: "?step\<^sup>*\<^sup>* ?s0 s6" using run4 s45 s56 by (meson rtranclp.rtrancl_into_rtrancl)
  have ct: "completed t'"
    by (rule pool_finish_ok[where us = "[]" and vs = "[]", OF _ _ hyp(1) w _ fin, of ts])
      (use i in \<open>simp_all add: retry_pool_inv_def s5_def demo_input_def demo_net_def\<close>)
  define s7 where "s7 = s6\<lparr>rp_phase := Returned (Inr zero_stats)\<rparr>"
  have s67: "?step s6 s7" unfolding s7_def
    by (rule Pool_Closed) (simp_all add: s6_def s5_def s4_def s3_def s2_def f1 ct)
  have run7: "?step\<^sup>*\<^sup>* ?s0 s7" using run6 s67 by (meson rtranclp.rtrancl_into_rtrancl)
  obtain ts7 where "attempts (rp_db s7) = attempts ?d @ ts7"
    "length ts7 = st_processed (rp_stats s7) + length (filter completed (rp_in_flight s7))"
    using retry_run_once_per_row[OF run7 hyp] by blast
  then have "length (attempts (rp_db s7)) = 1"
    by (simp add: s7_def s6_def s5_def s4_def s3_def s2_def f1 ct zero_stats_def empty_db_def)
  then show ?thesis using run7 by (intro exI[of _ s7]) (simp add: s7_def)
qed

end
