(* ===== verification/Job_Tasks.thy ===== *)
theory Job_Tasks
  imports Retention Retry_Pool
begin

text \<open>
  The scheduled jobs as the containers run them: the management commands
  \<^verbatim>\<open>retry_webhooks\<close> and \<^verbatim>\<open>purge_expired_data\<close>, the Celery tasks of \<^verbatim>\<open>apps/actions/tasks.py\<close>
  that run them under the Redis lock, and the workers that compete for a lock. The lemmas compose
  the lock, the ledger, the retry run and the purge.
\<close>

section \<open>Workers and one lock\<close>

type_synonym lock_world = "redis \<times> time \<times> (string \<times> time) list"

text \<open>
  Workers of any number of containers enter and leave \<^verbatim>\<open>task_lock(name, ttl)\<close>. The world holds Redis, its clock and
  the tokens of the runs that hold the lock with the time they got it. A run may die, and a call of Redis may
  time out or fail at any step, executed by the server or not. Tokens are 128 random bits: a new one is none of
  those in use.
\<close>

inductive worker_step :: "string \<Rightarrow> string \<Rightarrow> int \<Rightarrow> lock_world \<Rightarrow> lock_world \<Rightarrow> bool"
  for lock_prefix name ttl where
  worker_enters: "token \<notin> fst ` set hs \<Longrightarrow> task_lock_enter answer now lock_prefix name token ttl r = (Inr True, r') \<Longrightarrow>
    worker_step lock_prefix name ttl (r, now, hs) (r', now, (token, now) # hs)"
| worker_refused: "token \<notin> fst ` set hs \<Longrightarrow> task_lock_enter answer now lock_prefix name token ttl r = (res, r') \<Longrightarrow>
    res \<noteq> Inr True \<Longrightarrow>
    worker_step lock_prefix name ttl (r, now, hs) (r', now, hs)"
| worker_leaves: "(token, t0) \<in> set hs \<Longrightarrow>
    worker_step lock_prefix name ttl (r, now, hs)
      (task_lock_exit answer now lock_prefix name token True r, now, filter (\<lambda>h. fst h \<noteq> token) hs)"
| worker_dies: "worker_step lock_prefix name ttl (r, now, hs) (r, now, filter P hs)"
| time_passes: "now \<le> u \<Longrightarrow> worker_step lock_prefix name ttl (r, now, hs) (r, u, hs)"

inductive workers_reach :: "string \<Rightarrow> string \<Rightarrow> int \<Rightarrow> lock_world \<Rightarrow> bool" for lock_prefix name ttl where
  no_workers: "workers_reach lock_prefix name ttl (r, now, [])"
| workers_go: "workers_reach lock_prefix name ttl s \<Longrightarrow> worker_step lock_prefix name ttl s s' \<Longrightarrow>
    workers_reach lock_prefix name ttl s'"

text \<open>A lock taken by a call whose answer got lost is a lock taken by a worker that died.\<close>

lemma lock_step_once: "redis.lock_step key ttl s s' \<Longrightarrow> (redis.lock_step key ttl)\<^sup>*\<^sup>* s s'"
  by auto

lemma lock_step_first:
  "redis.lock_step key ttl s s1 \<Longrightarrow> (redis.lock_step key ttl)\<^sup>*\<^sup>* s1 s' \<Longrightarrow> (redis.lock_step key ttl)\<^sup>*\<^sup>* s s'"
  by (metis converse_rtranclp_into_rtranclp)

lemma worker_step_lock:
  "worker_step lock_prefix name ttl s s' \<Longrightarrow>
   (redis.lock_step (lock_key lock_prefix name) (lock_ttl ttl))\<^sup>*\<^sup>* s s'"
proof (induction rule: worker_step.induct)
  case (worker_enters token hs answer now r r')
  have "redis_set_nx now (lock_key lock_prefix name) token (lock_ttl ttl) r = (True, r')"
    using worker_enters(2) by (simp add: task_lock_enter_def split: if_splits prod.splits)
  then show ?case by (rule lock_step_once[OF redis.take_lock[OF worker_enters(1)]])
next
  case (worker_refused token hs answer now r res r')
  let ?key = "lock_key lock_prefix name"
  obtain acquired r1 where x: "redis_set_nx now ?key token (lock_ttl ttl) r = (acquired, r1)" by fastforce
  have f: "\<not> acquired \<Longrightarrow> r1 = r" using x by (auto simp: redis_set_nx_def split: if_splits)
  have "r' = r \<or> r' = r1"
    using worker_refused(2) x by (simp add: task_lock_enter_def split: if_splits)
  then consider "r' = r" | "r' = r1" "acquired" using f by blast
  then show ?case
  proof cases
    case 1 then show ?thesis by simp
  next
    case 2
    have t: "redis_set_nx now ?key token (lock_ttl ttl) r = (True, r1)" using x 2(2) by simp
    have h: "filter (\<lambda>h. fst h \<noteq> token) ((token, now) # hs) = hs"
      using worker_refused(1) by (auto simp: filter_id_conv image_iff)
    have "redis.lock_step ?key (lock_ttl ttl) (r1, now, (token, now) # hs) (r1, now, hs)"
      using redis.die[of ?key "lock_ttl ttl" r1 now "(token, now) # hs" "\<lambda>h. fst h \<noteq> token"] unfolding h .
    then show ?thesis
      unfolding 2(1) by (rule lock_step_first[OF redis.take_lock[OF worker_refused(1) t] lock_step_once])
  qed
next
  case (worker_leaves token t0 hs r now answer)
  show ?case
  proof (cases "applied answer")
    case True
    then have "task_lock_exit answer now lock_prefix name token True r = release_script now (lock_key lock_prefix name) token r"
      by (simp add: task_lock_exit_def)
    then show ?thesis using lock_step_once[OF redis.leave[OF worker_leaves]] by (simp only:)
  next
    case False
    then have "task_lock_exit answer now lock_prefix name token True r = r" by (simp add: task_lock_exit_def)
    then show ?thesis using lock_step_once[OF redis.die] by (simp only:)
  qed
next
  case worker_dies
  show ?case by (rule lock_step_once[OF redis.die])
next
  case time_passes
  then show ?case by (rule lock_step_once[OF redis.wait])
qed

lemma lock_steps_reachable:
  "(redis.lock_step key ttl)\<^sup>*\<^sup>* s s' \<Longrightarrow> redis.lock_reachable key ttl s \<Longrightarrow> redis.lock_reachable key ttl s'"
  by (induction rule: rtranclp_induct) (auto intro: redis.step)

lemma workers_lock:
  "workers_reach lock_prefix name ttl s \<Longrightarrow> redis.lock_reachable (lock_key lock_prefix name) (lock_ttl ttl) s"
proof (induction rule: workers_reach.induct)
  case no_workers
  show ?case by (rule redis.start)
next
  case workers_go
  then show ?case using lock_steps_reachable worker_step_lock by blast
qed

text \<open>C20. Two runs of one job never overlap within the life of their locks: in every state that workers can
  reach by taking and leaving the lock, dying, losing Redis and waiting, two runs that hold
  the lock and have not outlived its time are the same run, and Redis holds its token; so a run that outlived
  its lock leaves the lock of the next run alone when it ends.\<close>

theorem task_lock_exclusive:
  assumes "workers_reach lock_prefix name ttl (r, now, hs)"
    and "(token, t0) \<in> set hs" "now < t0 + lock_ttl ttl"
  shows "redis_get now (lock_key lock_prefix name) r = Some token
     \<and> (\<forall>(token', t1)\<in>set hs. now < t1 + lock_ttl ttl \<longrightarrow> token' = token)
     \<and> (\<forall>(token', t1)\<in>set hs. token' \<noteq> token \<longrightarrow> task_lock_exit answer now lock_prefix name token' True r = r)"
proof -
  note ex = redis.exclusive[OF workers_lock[OF assms(1)]]
  have "redis_get now (lock_key lock_prefix name) r = Some token"
    using ex[OF assms(2,2,3,3)] by simp
  moreover have "token' = token" if "(token', t1) \<in> set hs" "now < t1 + lock_ttl ttl" for token' t1
    using ex[OF assms(2) that(1) assms(3) that(2)] by simp
  ultimately show ?thesis by (auto simp: task_lock_exit_def release_script_def)
qed

section \<open>The management commands\<close>

text \<open>
  \<^verbatim>\<open>run_counts\<close> and the two \<^verbatim>\<open>handle\<close> methods. The retry input carries the options of the command; \<open>run\<close> is
  what \<^verbatim>\<open>retry_pending_webhooks\<close> does with them on a database, one of the outcomes that \<open>retry_runs\<close> admits for
  the concurrency: of its loop with one worker, of the pool with more. A dry run is not recorded. The value of
  a command stands for its summary line: the statistics and the id of the run.
\<close>

type_synonym retry_runner = "retry_input \<Rightarrow> db \<Rightarrow> exn \<times> db + db \<times> stats"

definition retry_runs :: "settings \<Rightarrow> nat \<Rightarrow> time \<Rightarrow> retry_input \<Rightarrow> db \<Rightarrow> exn \<times> db + db \<times> stats \<Rightarrow> bool" where
  "retry_runs cfg concurrency max_seconds inp d res \<longleftrightarrow>
     (if concurrency \<le> 1 then retry_pending_webhooks cfg inp d = Some res
      else \<exists>clock s r. (retry_pool_step cfg inp concurrency (pool_deadline clock max_seconds))\<^sup>*\<^sup>* (pool_start d clock) s
             \<and> rp_phase s = Returned r
             \<and> res = (case r of Inl e \<Rightarrow> Inl (e, rp_db s) | Inr st \<Rightarrow> Inr (rp_db s, st)))"

definition retry_run_counts :: "stats \<Rightarrow> dict" where
  "retry_run_counts st =
     (let n = (\<lambda>k. JInt (int k));
          email_attempted = st_email_processed st; email_succeeded = st_email_delivered st;
          email_failed = st_email_retried st; email_given_up = st_email_dead st
      in [(''webhook_deliveries_attempted'', JInt (int (st_processed st) - int email_attempted)),
          (''webhook_deliveries_succeeded'', JInt (int (st_delivered st) - int email_succeeded)),
          (''webhook_deliveries_failed'', JInt (int (st_retried st) - int email_failed)),
          (''webhook_deliveries_given_up'', JInt (int (st_dead st) - int email_given_up)),
          (''email_events_attempted'', n email_attempted), (''email_events_succeeded'', n email_succeeded),
          (''email_events_failed'', n email_failed), (''email_events_given_up'', n email_given_up)])"

definition retry_work :: "retry_runner \<Rightarrow> retry_input \<Rightarrow> nat option \<Rightarrow> db \<Rightarrow> (exn + stats \<times> dict) \<times> db" where
  "retry_work run inp rid d =
     (case run (inp\<lparr>ri_run_id := rid\<rparr>) d of
        Inr (d', st) \<Rightarrow> (Inr (st, retry_run_counts st), d')
      | Inl (e, d') \<Rightarrow> (Inl e, d'))"

definition retry_webhooks_command ::
    "retry_runner \<Rightarrow> job_env \<Rightarrow> retry_input \<Rightarrow> string \<Rightarrow> db \<Rightarrow> (exn + stats \<times> nat option) \<times> db" where
  "retry_webhooks_command run je inp trigger d =
     (let inp1 = inp\<lparr>ri_batch_size := max 1 (ri_batch_size inp)\<rparr>
      in if ri_dry_run inp1 then
           (case retry_work run inp1 None d of
              (Inl e, d') \<Rightarrow> (Inl e, d') | (Inr (st, _), d') \<Rightarrow> (Inr (st, None), d'))
         else case run_recorded je ''retry_webhooks'' trigger (\<lambda>rid. retry_work run inp1 (Some rid)) d of
                (Inl e, d') \<Rightarrow> (Inl e, d') | (Inr (st, rid), d') \<Rightarrow> (Inr (st, Some rid), d'))"

text \<open>The counts of a purge are its statistics; \<^verbatim>\<open>complete\<close> is a boolean among them.\<close>

definition purge_counts :: "purge_stats \<Rightarrow> dict" where
  "purge_counts st =
     [(''events'', JInt (int (ps_events st))), (''webhook_deliveries'', JInt (int (ps_webhook_deliveries st))),
      (''email_events'', JInt (int (ps_email_events st))),
      (''scheduled_job_runs'', JInt (int (ps_scheduled_job_runs st))), (''complete'', JBool (ps_complete st))]"

record purge_options =
  po_batch_size :: nat
  po_max_seconds :: "time"
  po_dry_run :: bool
  po_now :: time
  po_mono_clock :: "nat \<Rightarrow> time"

definition purge_work :: "settings \<Rightarrow> purge_options \<Rightarrow> db \<Rightarrow> (exn + purge_stats \<times> dict) \<times> db" where
  "purge_work cfg po d =
     (case purge_expired_data cfg (max 1 (po_batch_size po))
             (if po_max_seconds po \<le> 0 then None else Some (po_max_seconds po))
             (po_dry_run po) (po_now po) (po_mono_clock po) d of
        Some (st, d') \<Rightarrow> (Inr (st, purge_counts st), d')
      | None \<Rightarrow> (Inl Runtime_Error, d))"

definition purge_expired_data_command ::
    "settings \<Rightarrow> job_env \<Rightarrow> purge_options \<Rightarrow> string \<Rightarrow> db \<Rightarrow> (exn + purge_stats \<times> nat option) \<times> db" where
  "purge_expired_data_command cfg je po trigger d =
     (if po_dry_run po then
        (case purge_work cfg po d of (Inl e, d') \<Rightarrow> (Inl e, d') | (Inr (st, _), d') \<Rightarrow> (Inr (st, None), d'))
      else case run_recorded je ''purge_expired_data'' trigger (\<lambda>_. purge_work cfg po) d of
             (Inl e, d') \<Rightarrow> (Inl e, d') | (Inr (st, rid), d') \<Rightarrow> (Inr (st, Some rid), d'))"

section \<open>The Celery tasks\<close>

definition RETRY_WEBHOOKS_LOCK_TTL :: int where
  "RETRY_WEBHOOKS_LOCK_TTL = 120"

definition PURGE_EXPIRED_DATA_MAX_SECONDS :: int where
  "PURGE_EXPIRED_DATA_MAX_SECONDS = 300"

definition PURGE_EXPIRED_DATA_LOCK_TTL :: int where
  "PURGE_EXPIRED_DATA_LOCK_TTL = 900"

datatype 'a task_result = Skipped | Task_Failed | Summary 'a

text \<open>
  \<^verbatim>\<open>_run_locked\<close>: \<open>le_enter\<close> and \<open>le_exit\<close> are the outcomes of the two calls of Redis, \<open>le_others\<close> what the
  other workers do to Redis while the command runs; \<open>command\<close> is the management command. A skip that cannot be
  recorded (\<open>je_start_ok\<close> False) is a failure too.
\<close>

record lock_env =
  le_enter :: redis_answer
  le_exit :: redis_answer
  le_prefix :: string
  le_token :: string
  le_others :: "redis \<Rightarrow> redis"

definition run_locked ::
    "lock_env \<Rightarrow> job_env \<Rightarrow> string \<Rightarrow> int \<Rightarrow> (db \<Rightarrow> (exn + 'a) \<times> db) \<Rightarrow> redis \<Rightarrow> db \<Rightarrow> 'a task_result \<times> redis \<times> db" where
  "run_locked le je name ttl command r d =
     (let before_start = (\<lambda>e d. snd (record_failure_before_start je name ''celery'' e d))
      in case task_lock_enter (le_enter le) (je_start je) (le_prefix le) name (le_token le) ttl r of
        (Inl e, r1) \<Rightarrow> (Task_Failed, r1, before_start e d)
      | (Inr False, r1) \<Rightarrow>
          (if \<not> je_start_ok je then (Task_Failed, r1, before_start Database_Error d)
           else (case record_skipped (je_start je) name d of
                   Inl e \<Rightarrow> (Task_Failed, r1, before_start e d) | Inr d1 \<Rightarrow> (Skipped, r1, d1)))
      | (Inr True, r1) \<Rightarrow>
          (case command d of
             (res, d1) \<Rightarrow>
               let r2 = task_lock_exit (le_exit le) (je_end je) (le_prefix le) name (le_token le) True (le_others le r1)
               in (case res of
                     Inr a \<Rightarrow> (Summary a, r2, d1)
                   | Inl (Job_Failed _) \<Rightarrow> (Task_Failed, r2, d1)
                   | Inl e \<Rightarrow> (Task_Failed, r2, before_start e d1))))"

definition retry_webhooks_task ::
    "retry_runner \<Rightarrow> lock_env \<Rightarrow> job_env \<Rightarrow> retry_input \<Rightarrow> redis \<Rightarrow> db \<Rightarrow> (stats \<times> nat option) task_result \<times> redis \<times> db" where
  "retry_webhooks_task run le je inp r d =
     run_locked le je ''retry_webhooks'' RETRY_WEBHOOKS_LOCK_TTL (retry_webhooks_command run je inp ''celery'') r d"

definition purge_expired_data_task ::
    "settings \<Rightarrow> lock_env \<Rightarrow> job_env \<Rightarrow> time \<Rightarrow> (nat \<Rightarrow> time) \<Rightarrow> redis \<Rightarrow> db
      \<Rightarrow> (purge_stats \<times> nat option) task_result \<times> redis \<times> db" where
  "purge_expired_data_task cfg le je now mono_clock r d =
     run_locked le je ''purge_expired_data'' PURGE_EXPIRED_DATA_LOCK_TTL
       (purge_expired_data_command cfg je
          \<lparr> po_batch_size = 2000, po_max_seconds = seconds PURGE_EXPIRED_DATA_MAX_SECONDS, po_dry_run = False,
            po_now = now, po_mono_clock = mono_clock \<rparr> ''celery'') r d"

section \<open>The retry job and its ledger\<close>

text \<open>A delivery writes the outbox and the attempts only.\<close>

definition same_ledger :: "db \<Rightarrow> db \<Rightarrow> bool" where
  "same_ledger d d' \<longleftrightarrow> job_runs d' = job_runs d \<and> job_states d' = job_states d \<and> job_counters d' = job_counters d
     \<and> event_log d' = event_log d \<and> next_pk d' = next_pk d \<and> rules d' = rules d"

lemma same_ledger_refl [simp]: "same_ledger d d"
  by (simp add: same_ledger_def)

lemma same_ledger_trans: "same_ledger d d1 \<Longrightarrow> same_ledger d1 d2 \<Longrightarrow> same_ledger d d2"
  by (simp add: same_ledger_def)

lemma deliver_finish_same_ledger:
  "deliver_finish cfg now i w success am trigger run d = Inr (d', row) \<Longrightarrow> same_ledger d d'"
  by (auto simp: deliver_finish_def apply_delivery_result_def same_ledger_def Let_def split: option.splits if_splits)

lemma deliver_same_ledger:
  assumes "deliver_outbox_row cfg env ms i trigger run d = Inr (d', row)"
  shows "same_ledger d d'"
proof -
  obtain l where l: "deliver_load i d = Inr l" using assms by (auto simp: deliver_outbox_row_def bind_res_Inr)
  show ?thesis
  proof (cases l)
    case (Return x1)
    then show ?thesis using assms l by (simp add: deliver_outbox_row_def)
  next
    case (Work w)
    obtain ok am where p: "perform cfg env ms w = (ok, am)" by (cases "perform cfg env ms w")
    then show ?thesis
      using assms l Work by (auto simp: deliver_outbox_row_def map_res_Inr dest: deliver_finish_same_ledger)
  qed
qed

lemma claim_same_ledger:
  "claim_next_pending_outbox cfg now wall locked d = Some (d1, row) \<Longrightarrow> same_ledger d d1"
  by (auto simp: claim_next_pending_outbox_def same_ledger_def Let_def split: option.splits)

text \<open>The email part of the statistics never exceeds the totals.\<close>

definition email_within :: "stats \<Rightarrow> bool" where
  "email_within st \<longleftrightarrow> st_email_processed st \<le> st_processed st \<and> st_email_delivered st \<le> st_delivered st
     \<and> st_email_retried st \<le> st_retried st \<and> st_email_dead st \<le> st_dead st"

lemma retry_one_effect:
  assumes "retry_one cfg inp k row d st = Inr (d', st')"
  shows "same_ledger d d'" "email_within st \<Longrightarrow> email_within st'"
proof -
  show "same_ledger d d'"
    using assms by (auto simp: retry_one_def same_ledger_def map_res_Inr Let_def split: if_splits
        dest!: deliver_same_ledger[unfolded same_ledger_def])
  have "email_within (summarize_delivery_result b a)" for a b
    by (auto simp: summarize_delivery_result_def email_within_def zero_stats_def Let_def split: option.split)
  then show "email_within st \<Longrightarrow> email_within st'"
    using assms by (auto simp: retry_one_def map_res_Inr Let_def email_within_def add_stats_def zero_stats_def
        split: if_splits intro!: add_mono)
qed

lemma retry_loop_effect:
  "retry_loop cfg inp fuel k d st = Some r \<Longrightarrow> email_within st \<Longrightarrow>
   (case r of Inl (e, d') \<Rightarrow> same_ledger d d' | Inr (d', st') \<Rightarrow> same_ledger d d' \<and> email_within st')"
proof (induction fuel arbitrary: k d st)
  case (Suc fuel)
  show ?case
  proof (cases "st_processed st < ri_batch_size inp \<and> ri_in_time inp k")
    case False then show ?thesis using Suc.prems by auto
  next
    case True
    show ?thesis
    proof (cases "claim_next_pending_outbox cfg (ri_now inp) (net_clock (ri_env inp k)) {} d")
      case None then show ?thesis using True Suc.prems by auto
    next
      case (Some a)
      obtain d1 row where a: "a = (d1, row)" by (cases a)
      have c: "same_ledger d d1" using claim_same_ledger Some a by blast
      show ?thesis
      proof (cases "retry_one cfg inp k row d1 st")
        case (Inl e) then show ?thesis using True Some a c Suc.prems by auto
      next
        case (Inr b)
        obtain d2 st2 where b: "b = (d2, st2)" by (cases b)
        then have "retry_loop cfg inp fuel (k + 1) d2 st2 = Some r" "email_within st2" "same_ledger d d2"
          using True Some a Inr Suc.prems same_ledger_trans[OF c] retry_one_effect[of cfg inp k row d1 st d2 st2] by auto
        then show ?thesis using Suc.IH[of "k + 1" d2 st2] by (auto intro: same_ledger_trans split: sum.splits)
      qed
    qed
  qed
qed simp

lemma retry_work_accounts:
  assumes "distinct (map ob_id (outbox_rows d))"
    and "\<forall>o1\<in>set (outbox_rows d). ob_delivery_kind o1 = KIND_EMAIL \<or> ob_action_rule o1 \<noteq> None"
    and "\<not> ri_dry_run inp" "\<forall>k. ri_now inp \<le> net_clock (ri_env inp k)"
    and "\<forall>inp d. retry_runs cfg 1 max_seconds inp d (run inp d)"
  obtains d' st where "retry_work run inp rid d = (Inr (st, retry_run_counts st), d')" "same_ledger d d'" "email_within st"
    "length (attempts d') = length (attempts d) + st_processed st"
    "st_processed st = st_delivered st + st_retried st + st_dead st"
proof -
  let ?inp = "inp\<lparr>ri_run_id := rid\<rparr>"
  obtain d' st where r: "retry_pending_webhooks cfg ?inp d = Some (Inr (d', st))"
    "length (attempts d') = length (attempts d) + st_processed st"
    "st_processed st = st_delivered st + st_retried st + st_dead st"
    using retry_run_accounts[of d ?inp cfg] assms by auto
  have "email_within zero_stats" by (simp add: email_within_def zero_stats_def)
  then have "same_ledger d d' \<and> email_within st"
    using retry_loop_effect[OF r(1)[unfolded retry_pending_webhooks_def]] by simp
  moreover have "run ?inp d = Inr (d', st)" using assms(5) r(1) by (simp add: retry_runs_def)
  ultimately show thesis using that r by (simp add: retry_work_def)
qed

text \<open>The retry command with one worker accounts for every attempt: on an outbox with unique ids whose webhook rows
  have their rules, with the database up, the command succeeds, its run is stored as succeeded with the
  counts of the run, and the counters of attempted webhook deliveries and emails have grown together by
  exactly the number of attempts that were written.\<close>

theorem retry_command_accounts:
  assumes "distinct (map ob_id (outbox_rows d))"
    and "\<forall>o1\<in>set (outbox_rows d). ob_delivery_kind o1 = KIND_EMAIL \<or> ob_action_rule o1 \<noteq> None"
    and "\<not> ri_dry_run inp" "\<forall>k. ri_now inp \<le> net_clock (ri_env inp k)"
    and "job_trigger_of trigger = Some trig" "je_start_ok je" "je_finish_ok je" "fresh_runs d"
    and "\<forall>inp d. retry_runs cfg 1 max_seconds inp d (run inp d)"
  shows "\<exists>st d'. retry_webhooks_command run je inp trigger d = (Inr (st, Some (next_pk d)), d')
     \<and> length (attempts d') = length (attempts d) + st_processed st
     \<and> st_processed st = st_delivered st + st_retried st + st_dead st
     \<and> (\<exists>row. filter (\<lambda>r. run_id r = next_pk d) (job_runs d') = [row] \<and> run_status row = SUCCEEDED
          \<and> run_counts row = retry_run_counts st)
     \<and> counter_value ''retry_webhooks'' ''items.webhook_deliveries_attempted'' d'
         + counter_value ''retry_webhooks'' ''items.email_events_attempted'' d'
       = counter_value ''retry_webhooks'' ''items.webhook_deliveries_attempted'' d
         + counter_value ''retry_webhooks'' ''items.email_events_attempted'' d
         + int (length (attempts d')) - int (length (attempts d))"
proof -
  let ?inp = "inp\<lparr>ri_batch_size := max 1 (ri_batch_size inp)\<rparr>"
  let ?work = "\<lambda>rid. retry_work run ?inp (Some rid)"
  have job: "get_job ''retry_webhooks'' = Inr RETRY_WEBHOOKS" by (simp add: get_job_def JOBS_def RETRY_WEBHOOKS_def)
  obtain run1 d1 where st: "start_run je RETRY_WEBHOOKS trig d = (run1, d1)" by (cases "start_run je RETRY_WEBHOOKS trig d")
  note s = start_run_effect[OF st assms(8)]
  obtain d2 st where w: "?work (run_id run1) d1 = (Inr (st, retry_run_counts st), d2)" "same_ledger d1 d2" "email_within st"
    "length (attempts d2) = length (attempts d1) + st_processed st"
    "st_processed st = st_delivered st + st_retried st + st_dead st"
    by (rule retry_work_accounts[of d1 ?inp cfg max_seconds run "Some (run_id run1)"]) (use assms s(8) in simp_all)
  obtain res d' where rr: "run_recorded je ''retry_webhooks'' trigger ?work d = (res, d')" by fastforce
  note L = run_ledger[where work = ?work, OF job assms(5-8) st w(1) _ _ rr]
  have l: "res = Inr (st, next_pk d)" "outbox_rows d' = outbox_rows d2" "attempts d' = attempts d2"
    "\<exists>row. filter (\<lambda>r. run_id r = next_pk d) (job_runs d') = [row] \<and> run_status row = SUCCEEDED \<and> run_counts row = retry_run_counts st"
    "\<forall>kind\<in>set (item_kinds RETRY_WEBHOOKS). counter_value ''retry_webhooks'' (''items.'' @ kind) d'
       = counter_value ''retry_webhooks'' (''items.'' @ kind) d + max 0 (count_of (retry_run_counts st) kind)"
    using L w(2) by (auto simp: same_ledger_def counts_of_def)
  have c: "count_of (retry_run_counts st) ''webhook_deliveries_attempted'' = int (st_processed st) - int (st_email_processed st)"
    "count_of (retry_run_counts st) ''email_events_attempted'' = int (st_email_processed st)"
    by (simp_all add: count_of_def retry_run_counts_def dict_get_def Let_def)
  have "counter_value ''retry_webhooks'' ''items.webhook_deliveries_attempted'' d'
      = counter_value ''retry_webhooks'' ''items.webhook_deliveries_attempted'' d + (int (st_processed st) - int (st_email_processed st))"
    "counter_value ''retry_webhooks'' ''items.email_events_attempted'' d'
      = counter_value ''retry_webhooks'' ''items.email_events_attempted'' d + int (st_email_processed st)"
    using l(5) c w(3) by (auto simp: RETRY_WEBHOOKS_def email_within_def)
  moreover have "retry_webhooks_command run je inp trigger d = (Inr (st, Some (next_pk d)), d')"
    using rr l(1) assms(3) by (simp add: retry_webhooks_command_def Let_def)
  ultimately show ?thesis using w(4,5) l(3,4) s(9) by (intro exI[of _ st] exI[of _ d']) simp
qed

section \<open>A task under its lock\<close>

lemma failure_before_start:
  assumes "get_job job = Inr spec" "je_start_ok je" "je_finish_ok je" "fresh_runs d"
    and "record_failure_before_start je job ''celery'' e d = (rid, d')"
  shows "rid = Some (next_pk d)
     \<and> (\<exists>row. filter (\<lambda>r. run_id r = next_pk d) (job_runs d') = [row] \<and> run_status row = RUN_FAILED
          \<and> run_error_key row = error_key_for e)
     \<and> outbox_rows d' = outbox_rows d \<and> attempts d' = attempts d"
proof -
  obtain run d1 where st: "start_run je spec TRIGGER_CELERY d = (run, d1)" by (cases "start_run je spec TRIGGER_CELERY d")
  note s = start_run_effect[OF st assms(4)]
  have trig: "job_trigger_of ''celery'' = Some TRIGGER_CELERY" by (simp add: job_trigger_of_def)
  have fin: "finish je spec [] (Some e) run d1 = d'" and rid: "rid = Some (next_pk d)"
    using assms(1-3,5) st trig s(1) by (auto simp: record_failure_before_start_def record_run_def)
  have "\<forall>r\<in>set (job_runs d). run_id r \<noteq> next_pk d" using assms(4) by (auto simp: fresh_runs_def)
  then have one: "filter (\<lambda>r. run_id r = run_id run) (job_runs d1) = [run]"
    unfolding s(5) by (auto simp: filter_empty_conv set_update_rows s(1))
  note f = run_finish_effect[OF fin one]
  have "run_error_key (finished_run je [] (Some e) run) = error_key_for e"
    by (simp add: finished_run_def describe_error_def)
  then show ?thesis using f(1,4,5) s(1,8,9) rid by auto
qed

text \<open>C29. A scheduled task under its lock, with the database up. When the call that takes the lock
  fails, the command is not run and one failed run is stored, with the key \<^verbatim>\<open>timeout\<close> when Redis did not
  answer in time and \<^verbatim>\<open>redis_error\<close> for any other failure. When another run holds the lock, the task is
  skipped: its command is not run, no run is stored and only the skip is counted. Otherwise the result is that of
  the command, on the database the command left. At the end, whatever other workers did to Redis
  meanwhile, a lock that still holds this run's token is removed, and any other state of the lock, such as
  the lock of a successor of a run that outlived its own, is left as it is.\<close>

theorem run_locked_outcome:
  assumes "get_job name = Inr spec" "je_start_ok je" "je_finish_ok je" "fresh_runs d"
    and "run_locked le je name ttl command r d = (result, r', d')"
  shows "let key = lock_key (le_prefix le) name;
             taken = redis_set (je_start je) key (le_token le) (lock_ttl ttl) r
     in if le_enter le \<noteq> Answered then
          result = Task_Failed \<and> r' \<in> {r, taken} \<and> outbox_rows d' = outbox_rows d \<and> attempts d' = attempts d
          \<and> (\<exists>row. filter (\<lambda>r. run_id r = next_pk d) (job_runs d') = [row] \<and> run_status row = RUN_FAILED
               \<and> run_error_key row = (case le_enter le of Timed_Out executed \<Rightarrow> ''timeout'' | _ \<Rightarrow> ''redis_error''))
        else if redis_get (je_start je) key r \<noteq> None then
          result = Skipped \<and> r' = r \<and> job_runs d' = job_runs d \<and> outbox_rows d' = outbox_rows d
          \<and> attempts d' = attempts d \<and> event_log d' = event_log d
          \<and> (\<forall>n. counter_value name n d' = counter_value name n d + (if n = ''runs.skipped_locked'' then 1 else 0))
        else (case fst (command d) of
                Inr x \<Rightarrow> result = Summary x \<and> d' = snd (command d)
              | Inl (Job_Failed rid) \<Rightarrow> result = Task_Failed \<and> d' = snd (command d)
              | Inl e \<Rightarrow> result = Task_Failed)
             \<and> (let last_redis = le_others le taken
                in if redis_get (je_end je) key last_redis = Some (le_token le) \<and> le_exit le = Answered
                   then r' = last_redis(key := None)
                   else if redis_get (je_end je) key last_redis \<noteq> Some (le_token le) then r' = last_redis
                   else r' \<in> {last_redis, last_redis(key := None)})"
proof -
  let ?key = "lock_key (le_prefix le) name"
  let ?taken = "redis_set (je_start je) ?key (le_token le) (lock_ttl ttl) r"
  note en = task_lock_enter_def redis_set_nx_def Let_def
  have name: "spec_name spec = name" using get_job_facts[OF assms(1)] by simp
  consider (down) "le_enter le \<noteq> Answered" | (busy) "le_enter le = Answered" "redis_get (je_start je) ?key r \<noteq> None"
    | (free) "le_enter le = Answered" "redis_get (je_start je) ?key r = None" by blast
  then show ?thesis
  proof cases
    case down
    obtain rid d1 where f: "record_failure_before_start je name ''celery'' (call_error (le_enter le)) d = (rid, d1)"
      by fastforce
    have g: "result = Task_Failed \<and> r' \<in> {r, ?taken} \<and> d' = d1"
      using down assms(5) f by (auto simp: run_locked_def en split: if_splits)
    have k: "error_key_for (call_error (le_enter le)) =
        (case le_enter le of Timed_Out executed \<Rightarrow> ''timeout'' | _ \<Rightarrow> ''redis_error'')"
      by (cases "le_enter le") (simp_all add: call_error_def error_key_for_def)
    show ?thesis using failure_before_start[OF assms(1-4) f] g k down by (simp add: Let_def)
  next
    case busy
    then have "result = Skipped" "r' = r" and d': "d' = increment name ''runs.skipped_locked'' 1
        (update_state name (\<lambda>s. s\<lparr>js_last_skipped_at := Some (je_start je)\<rparr>) (ensure_state (je_start je) name d))"
      using assms(1,2,5) name by (auto simp: run_locked_def en record_skipped_def)
    moreover have "counter_value name n d' = counter_value name n d + (if n = ''runs.skipped_locked'' then 1 else 0)" for n
      unfolding d' by (simp add: increment_value) (simp add: counter_value_def)
    ultimately show ?thesis using busy by simp
  next
    case free
    obtain res d1 where c: "command d = (res, d1)" by (cases "command d")
    let ?last = "le_others le ?taken"
    let ?r2 = "task_lock_exit (le_exit le) (je_end je) (le_prefix le) name (le_token le) True ?last"
    have en: "task_lock_enter (le_enter le) (je_start je) (le_prefix le) name (le_token le) ttl r = (Inr True, ?taken)"
      using free by (simp add: en)
    have r': "r' = ?r2"
      using assms(5) c by (auto simp: run_locked_def en Let_def split: sum.splits exn.splits)
    have "case res of Inr x \<Rightarrow> result = Summary x \<and> d' = d1
        | Inl (Job_Failed rid) \<Rightarrow> result = Task_Failed \<and> d' = d1 | Inl e \<Rightarrow> result = Task_Failed"
      using assms(5) c by (auto simp: run_locked_def en Let_def split: sum.splits exn.splits)
    moreover have "if redis_get (je_end je) ?key ?last = Some (le_token le) \<and> le_exit le = Answered
        then r' = ?last(?key := None)
        else if redis_get (je_end je) ?key ?last \<noteq> Some (le_token le) then r' = ?last
        else r' \<in> {?last, ?last(?key := None)}"
      unfolding r' by (simp add: task_lock_exit_def release_script_def applied_def)
    ultimately show ?thesis using free c unfolding Let_def by (cases res) (auto split: exn.splits)
  qed
qed

section \<open>Witnesses\<close>

lemma task_lock_exclusive_witness:
  "\<exists>r. redis_get 5 (lock_key ''p'' ''n'') r = Some ''t'' \<and> task_lock_exit Answered 5 ''p'' ''n'' ''t'' True r \<noteq> r"
proof -
  define r where "r = redis_set 5 (lock_key ''p'' ''n'') ''t'' (lock_ttl 120) Map.empty"
  have "worker_step ''p'' ''n'' 120 (Map.empty, 5, []) (r, 5, [(''t'', 5)])"
    by (rule worker_enters[where answer = Answered])
       (simp_all add: task_lock_enter_def redis_set_nx_def redis_get_def r_def Let_def)
  then have "workers_reach ''p'' ''n'' 120 (r, 5, [(''t'', 5)])" by (rule workers_go[OF no_workers])
  from task_lock_exclusive[OF this, of "''t''" 5]
  have g: "redis_get 5 (lock_key ''p'' ''n'') r = Some ''t''" by (simp add: lock_ttl_def seconds_def)
  then have "task_lock_exit Answered 5 ''p'' ''n'' ''t'' True r (lock_key ''p'' ''n'') = None" "r (lock_key ''p'' ''n'') \<noteq> None"
    by (simp_all add: task_lock_exit_def applied_def release_script_def redis_get_def split: option.splits)
  then show ?thesis using g by force
qed

lemma retry_command_accounts_witness:
  "\<exists>run st d'. (\<forall>inp d. retry_runs demo_cfg 1 0 inp d (run inp d))
     \<and> retry_webhooks_command run demo_job_env (demo_input False) ''celery'' (empty_db\<lparr>outbox_rows := [demo_row]\<rparr>)
         = (Inr (st, Some 1), d') \<and> length (attempts d') = st_processed st"
proof -
  define run where "run inp d = the (retry_pending_webhooks demo_cfg inp d)" for inp d
  have r: "\<forall>inp d. retry_runs demo_cfg 1 0 inp d (run inp d)"
    using retry_run_terminates[of demo_cfg] by (auto simp: retry_runs_def run_def) (metis option.sel)
  show ?thesis
    using retry_command_accounts[of "empty_db\<lparr>outbox_rows := [demo_row]\<rparr>" "demo_input False" "''celery''" TRIGGER_CELERY
      demo_job_env demo_cfg 0 run] r
    by (intro exI[of _ run])
       (auto simp: demo_row_def new_outbox_def demo_input_def demo_net_def demo_job_env_def job_trigger_of_def
         fresh_runs_def empty_db_def)
qed

text \<open>Another run holds the lock; Redis does not answer in time; the lock expired and has a new owner.\<close>

lemma run_locked_outcome_witness:
  "let le = \<lparr> le_enter = Answered, le_exit = Answered, le_prefix = ''p'', le_token = ''u'', le_others = \<lambda>r. r \<rparr>;
       run = (\<lambda>le r. run_locked le demo_job_env ''purge_expired_data'' 900 (\<lambda>d. (Inr (), d)) r empty_db)
   in fst (run le (\<lambda>_. Some (''t'', 5000))) = Skipped
      \<and> fst (run (le\<lparr>le_enter := Timed_Out False\<rparr>) (\<lambda>_. Some (''t'', 5000))) = Task_Failed
      \<and> fst (snd (run (le\<lparr>le_others := \<lambda>_ _. Some (''v'', 5000)\<rparr>) Map.empty)) = (\<lambda>_. Some (''v'', 5000))"
proof -
  have e: "je_start_ok demo_job_env" "je_finish_ok demo_job_env"
    "je_start demo_job_env = 1000" "je_end demo_job_env < 5000" by (simp_all add: demo_job_env_def)
  define run where "run = (\<lambda>le r. run_locked le demo_job_env ''purge_expired_data'' 900 (\<lambda>d. (Inr (), d)) r empty_db)"
  define le where "le = \<lparr> le_enter = Answered, le_exit = Answered, le_prefix = ''p'', le_token = ''u'', le_others = \<lambda>r. r \<rparr>"
  obtain x1 y1 z1 where 1: "run le (\<lambda>_. Some (''t'', 5000)) = (x1, y1, z1)" by (metis prod_cases3)
  obtain x2 y2 z2 where 2: "run (le\<lparr>le_enter := Timed_Out False\<rparr>) (\<lambda>_. Some (''t'', 5000)) = (x2, y2, z2)" by (metis prod_cases3)
  obtain x3 y3 z3 where 3: "run (le\<lparr>le_others := \<lambda>_ _. Some (''v'', 5000)\<rparr>) Map.empty = (x3, y3, z3)" by (metis prod_cases3)
  note out = run_locked_outcome[OF demo_job(1) e(1,2) demo_job(3)]
  have "x1 = Skipped" "x2 = Task_Failed" "y3 = (\<lambda>_. Some (''v'', 5000))"
    using out[OF 1[unfolded run_def]] out[OF 2[unfolded run_def]] out[OF 3[unfolded run_def]] e(3,4)
    by (simp_all add: Let_def redis_get_def le_def split: if_splits)
  then show ?thesis using 1 2 3 unfolding Let_def run_def le_def by simp
qed

end
