(* ===== verification/Stats.thy ===== *)
theory Stats
  imports Services Job_Health
begin

text \<open>
  Numbers for people and for Prometheus: \<^verbatim>\<open>apps/hosting/stats.py\<close>, the snapshots of
  \<^verbatim>\<open>apps/hosting/metrics.py\<close> and \<^verbatim>\<open>apps/actions/scheduled_job_metrics.py\<close>. A metric family is its name with
  its samples (label values and number); the text that \<^verbatim>\<open>prometheus_client\<close> prints of it is an argument
  of the views.
\<close>

section \<open>stats.py\<close>

definition in_scope :: "company option \<Rightarrow> company \<Rightarrow> bool" where
  "in_scope company_id c = (case company_id of None \<Rightarrow> True | Some x \<Rightarrow> c = x)"

text \<open>\<^verbatim>\<open>Deployment.objects.filter(app__company_id=...)\<close>\<close>

definition company_deployments :: "company option \<Rightarrow> db \<Rightarrow> deployment list" where
  "company_deployments company_id d =
     filter (\<lambda>r. has_row (\<lambda>a. app_id a = dep_app r \<and> in_scope company_id (app_company_id a)) (apps d)) (deployments d)"

definition all_statuses :: "deployment_status list" where
  "all_statuses = [DRAFT, UPLOADING, READY, ACTIVE, SUPERSEDED, FAILED]"

text \<open>\<^verbatim>\<open>values('status').annotate(Count)\<close>: the groups that have rows, in no order of the code's choosing.\<close>

definition status_counts :: "deployment list \<Rightarrow> (deployment_status \<times> nat) list" where
  "status_counts rs =
     filter (\<lambda>(s, n). n > 0) (map (\<lambda>s. (s, count_rows (\<lambda>r. dep_status r = s) rs)) all_statuses)"

definition count_json :: "nat \<Rightarrow> json" where
  "count_json n = JInt (int n)"

definition build_hosting_stats :: "company option \<Rightarrow> db \<Rightarrow> dict" where
  "build_hosting_stats company_id d =
     (let rs = company_deployments company_id d;
          acc = filter (\<lambda>a. in_scope company_id (acc_company_id a)) (accesses d);
          counts = status_counts rs
      in [(''company_id'', opt_int company_id),
          (''apps'', count_json (count_rows (\<lambda>a. in_scope company_id (app_company_id a)) (apps d))),
          (''deployments'', count_json (length rs)),
          (''deployments_by_status'', JDict (map (\<lambda>(s, n). (deployment_status_str s, count_json n)) counts)),
          (''active_deployments'', count_json (case map_of counts ACTIVE of None \<Rightarrow> 0 | Some n \<Rightarrow> n)),
          (''access'', JDict
            [(''pending'', count_json (count_rows (\<lambda>a. acc_status a = PENDING) acc)),
             (''approved'', count_json (count_rows (\<lambda>a. acc_status a = APPROVED) acc)),
             (''denied'', count_json (count_rows (\<lambda>a. acc_status a = DENIED) acc))]),
          (''artifact_bytes'', JInt (\<Sum>r\<leftarrow>rs. dep_artifact_size r))])"

section \<open>metrics.py\<close>

definition company_ids :: "db \<Rightarrow> company list" where
  "company_ids d =
     remdups (sort (map app_company_id (apps d) @ map acc_company_id (accesses d)
       @ map app_company_id (filter (\<lambda>a. has_row (\<lambda>r. dep_app r = app_id a) (deployments d)) (apps d))))"

definition snapshot :: "time \<Rightarrow> company \<Rightarrow> db \<Rightarrow> (string \<times> int) list" where
  "snapshot now company_id d =
     (let as = filter (\<lambda>a. app_company_id a = company_id) (apps d);
          rs = company_deployments (Some company_id) d;
          acc = filter (\<lambda>a. acc_company_id a = company_id) (accesses d);
          n = (\<lambda>k. int k)
      in [(''apps_total'', n (length as)),
          (''apps_expired'', n (count_rows (\<lambda>a. case app_expires_at a of None \<Rightarrow> False | Some t \<Rightarrow> t < now) as)),
          (''deployments_total'', n (length rs)),
          (''active_deployments'', n (case map_of (status_counts rs) ACTIVE of None \<Rightarrow> 0 | Some k \<Rightarrow> k)),
          (''artifact_bytes'', (\<Sum>r\<leftarrow>rs. dep_artifact_size r)),
          (''deployments_24h'', n (count_rows (\<lambda>r. dep_created_at r \<ge> now - days 1) rs)),
          (''deployments_7d'', n (count_rows (\<lambda>r. dep_created_at r \<ge> now - days 7) rs)),
          (''deployments_30d'', n (count_rows (\<lambda>r. dep_created_at r \<ge> now - days 30) rs)),
          (''access_pending'', n (count_rows (\<lambda>a. acc_status a = PENDING) acc)),
          (''access_approved'', n (count_rows (\<lambda>a. acc_status a = APPROVED) acc)),
          (''access_denied'', n (count_rows (\<lambda>a. acc_status a = DENIED) acc))])"

type_synonym family = "string \<times> (string list \<times> int) list"

text \<open>\<^verbatim>\<open>metrics_http_body\<close> before printing: one gauge per name, a sample per company.\<close>

definition gauge_names :: "string list" where
  "gauge_names =
     [''apps_total'', ''apps_expired'', ''deployments_total'', ''active_deployments'', ''artifact_bytes'',
      ''deployments_24h'', ''deployments_7d'', ''deployments_30d'', ''access_pending'', ''access_approved'',
      ''access_denied'']"

definition hosting_families :: "time \<Rightarrow> company list \<Rightarrow> db \<Rightarrow> family list" where
  "hosting_families now cs d =
     map (\<lambda>name. (''shellui_hosting_'' @ name,
            map (\<lambda>c. ([int_str c], case map_of (snapshot now c d) name of Some v \<Rightarrow> v | None \<Rightarrow> 0)) cs)) gauge_names"

section \<open>scheduled\_job\_metrics.py\<close>

definition METRIC_PREFIX :: string where
  "METRIC_PREFIX = ''shellui_hosting_scheduled_job''"

definition RUN_STATUSES :: "run_status list" where
  "RUN_STATUSES = [SUCCEEDED, RUN_FAILED, SKIPPED_LOCKED]"

text \<open>
  \<^verbatim>\<open>ScheduledJobsCollector.collect\<close>. Times are in microseconds and durations in milliseconds, the numbers the
  code divides by a million and a thousand. \<open>reachable\<close> and \<open>beat\<close> are the answers of the broker.
\<close>

definition collect_jobs :: "settings \<Rightarrow> time \<Rightarrow> bool option \<Rightarrow> time option \<Rightarrow> db \<Rightarrow> family list \<times> db" where
  "collect_jobs cfg now reachable beat d =
     (let d1 = ensure_states now d;
          st = (\<lambda>spec. case state_of (spec_name spec) d1 of Some s \<Rightarrow> s | None \<Rightarrow> new_state now (spec_name spec));
          opt_time = (\<lambda>t. case t of None \<Rightarrow> 0 | Some x \<Rightarrow> x);
          per_job = (\<lambda>f. map (\<lambda>spec. ([spec_name spec], f spec)) JOBS)
      in ([(METRIC_PREFIX @ ''_runs'', concat (map (\<lambda>spec. map (\<lambda>s. ([spec_name spec, run_status_str s],
                counter_value (spec_name spec) (''runs.'' @ run_status_str s) d1)) RUN_STATUSES) JOBS)),
           (METRIC_PREFIX @ ''_items'', concat (map (\<lambda>spec. map (\<lambda>kind. ([spec_name spec, kind],
                counter_value (spec_name spec) (''items.'' @ kind) d1)) (item_kinds spec)) JOBS)),
           (METRIC_PREFIX @ ''_last_success_timestamp_seconds'', per_job (\<lambda>spec. opt_time (js_last_success_at (st spec)))),
           (METRIC_PREFIX @ ''_last_run_timestamp_seconds'', per_job (\<lambda>spec. opt_time (js_last_started_at (st spec)))),
           (METRIC_PREFIX @ ''_last_run_duration_seconds'',
              concat (map (\<lambda>spec. case js_last_duration_ms (st spec) of None \<Rightarrow> []
                                  | Some ms \<Rightarrow> [([spec_name spec], ms)]) JOBS)),
           (METRIC_PREFIX @ ''_overdue'', per_job (\<lambda>spec. if is_overdue spec (st spec) now then 1 else 0)),
           (''shellui_hosting_scheduler_enabled'', [([], if SCHEDULER_ENABLED cfg then 1 else 0)])]
          @ (case reachable of None \<Rightarrow> [] | Some up \<Rightarrow> [(''shellui_hosting_scheduler_redis_up'', [([], if up then 1 else 0)])])
          @ (if reachable = Some True
             then (case beat of None \<Rightarrow> [] | Some t \<Rightarrow>
                     [(''shellui_hosting_scheduler_beat_last_seen_timestamp_seconds'', [([], t)])])
             else []), d1))"

definition metrics_families ::
    "settings \<Rightarrow> time \<Rightarrow> bool option \<Rightarrow> time option \<Rightarrow> company option \<Rightarrow> db \<Rightarrow> family list \<times> db" where
  "metrics_families cfg now reachable beat company_id d =
     (case company_id of
        Some c \<Rightarrow> (hosting_families now [c] d, d)
      | None \<Rightarrow> (let (fs, d1) = collect_jobs cfg now reachable beat d
                 in (hosting_families now (company_ids d) d @ fs, d1)))"

end
