(* ===== verification/Tenants.thy ===== *)
theory Tenants
  imports Reachable Service_Laws Stats
begin

text \<open>
  What an operation of \<open>Services\<close> may change. \<open>app_frame a\<close> says that nothing outside the app \<open>a\<close> changed but the
  events and deliveries of its company; \<open>company_frame c\<close> says that nothing outside the company \<open>c\<close> changed.
  Every operation on an app satisfies the first, which implies the second; both compose.
\<close>

section \<open>The frames\<close>

definition emitted :: "company \<Rightarrow> db \<Rightarrow> db \<Rightarrow> bool" where
  "emitted c d d' \<longleftrightarrow>
     (\<exists>news evs. outbox_rows d' = outbox_rows d @ news \<and> event_log d' = event_log d @ evs
        \<and> (\<forall>o1\<in>set news. ob_company_id o1 = c) \<and> (\<forall>e\<in>set evs. ev_company_id e = Some c))
     \<and> rules d' = rules d \<and> attempts d' = attempts d \<and> job_runs d' = job_runs d \<and> job_states d' = job_states d
     \<and> job_counters d' = job_counters d \<and> company_deletions d' = company_deletions d"

definition app_frame :: "app \<Rightarrow> db \<Rightarrow> db \<Rightarrow> bool" where
  "app_frame a d d' \<longleftrightarrow> emitted (app_company_id a) d d' \<and> accesses d' = accesses d \<and> tokens d' = tokens d
     \<and> filter (\<lambda>b. app_id b \<noteq> app_id a) (apps d') = filter (\<lambda>b. app_id b \<noteq> app_id a) (apps d)
     \<and> filter (\<lambda>r. dep_app r \<noteq> app_id a) (deployments d') = filter (\<lambda>r. dep_app r \<noteq> app_id a) (deployments d)
     \<and> (\<forall>b\<in>set (apps d'). app_id b = app_id a \<longrightarrow> app_company_id b = app_company_id a)"

definition of_company :: "company \<Rightarrow> db \<Rightarrow> deployment \<Rightarrow> bool" where
  "of_company c d r = has_row (\<lambda>a. app_id a = dep_app r \<and> app_company_id a = c) (apps d)"

definition company_frame :: "company \<Rightarrow> db \<Rightarrow> db \<Rightarrow> bool" where
  "company_frame c d d' \<longleftrightarrow> emitted c d d'
     \<and> filter (\<lambda>a. app_company_id a \<noteq> c) (apps d') = filter (\<lambda>a. app_company_id a \<noteq> c) (apps d)
     \<and> filter (\<lambda>r. \<not> of_company c d' r) (deployments d') = filter (\<lambda>r. \<not> of_company c d r) (deployments d)
     \<and> filter (\<lambda>x. acc_company_id x \<noteq> c) (accesses d') = filter (\<lambda>x. acc_company_id x \<noteq> c) (accesses d)
     \<and> filter (\<lambda>t. tok_company_id t \<noteq> c) (tokens d') = filter (\<lambda>t. tok_company_id t \<noteq> c) (tokens d)"

named_theorems frame_intros \<open>operations that respect a frame\<close>

lemma emitted_refl [simp]: "emitted c d d"
  unfolding emitted_def by (intro conjI exI[of _ "[]"]) simp_all

lemma emitted_tables [simp]:
  "emitted c d (d'\<lparr>apps := x\<rparr>) = emitted c d d'" "emitted c d (d'\<lparr>deployments := y\<rparr>) = emitted c d d'"
  "emitted c d (d'\<lparr>accesses := z\<rparr>) = emitted c d d'" "emitted c d (d'\<lparr>tokens := t\<rparr>) = emitted c d d'"
  by (simp_all add: emitted_def)

lemma emitted_trans:
  assumes "emitted c d1 d2" "emitted c d2 d3"
  shows "emitted c d1 d3"
proof -
  obtain n1 e1 where 1: "outbox_rows d2 = outbox_rows d1 @ n1" "event_log d2 = event_log d1 @ e1"
      "\<forall>o1\<in>set n1. ob_company_id o1 = c" "\<forall>e\<in>set e1. ev_company_id e = Some c"
    using assms(1) unfolding emitted_def by blast
  obtain n2 e2 where 2: "outbox_rows d3 = outbox_rows d2 @ n2" "event_log d3 = event_log d2 @ e2"
      "\<forall>o1\<in>set n2. ob_company_id o1 = c" "\<forall>e\<in>set e2. ev_company_id e = Some c"
    using assms(2) unfolding emitted_def by blast
  have "\<exists>news evs. outbox_rows d3 = outbox_rows d1 @ news \<and> event_log d3 = event_log d1 @ evs
      \<and> (\<forall>o1\<in>set news. ob_company_id o1 = c) \<and> (\<forall>e\<in>set evs. ev_company_id e = Some c)"
    by (rule exI[of _ "n1 @ n2"], rule exI[of _ "e1 @ e2"]) (use 1 2 in auto)
  then show ?thesis using assms unfolding emitted_def by simp
qed

lemma app_frame_trans: "app_frame a d1 d2 \<Longrightarrow> app_frame a d2 d3 \<Longrightarrow> app_frame a d1 d3"
  unfolding app_frame_def using emitted_trans by simp blast

lemma company_frame_refl [simp]: "company_frame c d d"
  by (simp add: company_frame_def)

lemma company_frame_trans: "company_frame c d1 d2 \<Longrightarrow> company_frame c d2 d3 \<Longrightarrow> company_frame c d1 d3"
  unfolding company_frame_def using emitted_trans by simp blast

text \<open>Keys that are unique give every app one company.\<close>

lemma same_app_row:
  "keys_ok d \<Longrightarrow> a \<in> set (apps d) \<Longrightarrow> b \<in> set (apps d) \<Longrightarrow> app_id b = app_id a \<Longrightarrow> b = a"
  unfolding keys_ok_def using distinct_map_unique by metis

lemma app_frame_refl: "keys_ok d \<Longrightarrow> a \<in> set (apps d) \<Longrightarrow> app_frame a d d"
  using same_app_row[of d a] by (auto simp: app_frame_def)

lemma filter_coarser: "filter p xs = filter p ys \<Longrightarrow> (\<And>x. q x \<Longrightarrow> p x) \<Longrightarrow> filter q xs = filter q ys"
proof -
  assume e: "filter p xs = filter p ys" and i: "\<And>x. q x \<Longrightarrow> p x"
  have "filter q xs = filter q (filter p xs)" "filter q ys = filter q (filter p ys)" for xs ys
    using i by (auto intro: filter_cong)
  then show ?thesis using e by metis
qed

lemma app_in_company:
  assumes f: "app_frame a d d'" and wf: "wf_db d" "wf_db d'" and a: "a \<in> set (apps d)"
  shows "company_frame (app_company_id a) d d'"
proof -
  let ?c = "app_company_id a" and ?i = "app_id a"
  have k: "keys_ok d" using wf(1) by (simp add: wf_db_def)
  have A: "filter (\<lambda>b. app_id b \<noteq> ?i) (apps d') = filter (\<lambda>b. app_id b \<noteq> ?i) (apps d)"
    and D: "filter (\<lambda>r. dep_app r \<noteq> ?i) (deployments d') = filter (\<lambda>r. dep_app r \<noteq> ?i) (deployments d)"
    and own: "\<And>b. b \<in> set (apps d') \<Longrightarrow> app_id b = ?i \<Longrightarrow> app_company_id b = ?c"
    using f by (auto simp: app_frame_def)
  have own0: "\<And>b. b \<in> set (apps d) \<Longrightarrow> app_id b = ?i \<Longrightarrow> app_company_id b = ?c"
    using same_app_row[OF k a] by blast
  have mem: "b \<in> set (apps d') \<longleftrightarrow> b \<in> set (apps d)" if "app_id b \<noteq> ?i" for b
    using arg_cong[OF A, of set] that by auto
  have r1: "of_company ?c x r" if "x \<in> {d, d'}" "r \<in> set (deployments x)" "dep_app r = ?i" for x r
  proof -
    have "owned (apps x) r" using wf that(1,2) by (auto simp: wf_db_def)
    then show ?thesis using that(1,3) own own0 by (auto simp: owned_def of_company_def has_row_iff)
  qed
  have r2: "of_company ?c d' r \<longleftrightarrow> of_company ?c d r" if "dep_app r \<noteq> ?i" for r
    using mem that by (auto simp: of_company_def has_row_iff)
  have split: "filter (\<lambda>r. \<not> of_company ?c x r) (deployments x)
      = filter (\<lambda>r. \<not> of_company ?c d r) (filter (\<lambda>r. dep_app r \<noteq> ?i) (deployments x))" if "x \<in> {d, d'}" for x
    using that r1 r2 by (auto intro!: filter_cong)
  have dep: "filter (\<lambda>r. \<not> of_company ?c d' r) (deployments d') = filter (\<lambda>r. \<not> of_company ?c d r) (deployments d)"
    using split[of d] split[of d'] D by (simp del: filter_filter)
  have as: "filter (\<lambda>b. app_company_id b \<noteq> ?c) (apps x) = filter (\<lambda>b. app_company_id b \<noteq> ?c) (filter (\<lambda>b. app_id b \<noteq> ?i) (apps x))"
    if "x \<in> {d, d'}" for x
    using that own own0 by (auto intro!: filter_cong)
  have "filter (\<lambda>b. app_company_id b \<noteq> ?c) (apps d') = filter (\<lambda>b. app_company_id b \<noteq> ?c) (apps d)"
    using as[of d] as[of d'] A by (simp del: filter_filter)
  then show ?thesis using f dep by (simp add: app_frame_def company_frame_def)
qed

section \<open>Operations on an app\<close>

lemma emitted_emit: "emitted c (w_db w) (w_db (emit_w env n ev c pl act w))"
proof -
  obtain d' ids where e: "emit_event_if_rules (env_cfg env) (env_now env) (env_fresh env n) ev c pl act (w_db w) = (d', ids)"
    by (metis prod.exhaust)
  have "emitted c (w_db w) d'"
  proof (cases "\<exists>t. get_event_type REGISTRY ev = Inr t \<and> \<not> evt_staff_only t")
    case True
    then obtain t where t: "get_event_type REGISTRY ev = Inr t" "\<not> evt_staff_only t" by blast
    show ?thesis
      using e emit_effect[OF t(1) hosting_event_default[OF t(1)] t(2)]
      by (auto simp: emitted_def log_row_def email_rows_of_def hook_rows_of_def new_outbox_def dest!: webhook_rows_props)
  next
    case False
    then have "d' = w_db w" using e by (auto simp: emit_event_if_rules_def emit_event_def res_simps split: sum.splits if_splits)
    then show ?thesis by simp
  qed
  then show ?thesis by (simp add: emit_w_def e)
qed

lemma app_frame_emit:
  assumes "app_frame a d (w_db w)"
  shows "app_frame a d (w_db (emit_w env n ev (app_company_id a) pl act w))"
  using assms emitted_trans[OF _ emitted_emit] by (simp add: app_frame_def)

lemma filter_update_rows:
  "(\<And>x. x \<in> set xs \<Longrightarrow> q x \<Longrightarrow> \<not> p x \<and> \<not> p (f x)) \<Longrightarrow> filter p (update_rows q f xs) = filter p xs"
  by (induction xs) (auto simp: update_rows_def)

lemma app_frame_update_app:
  assumes "app_frame a d d'" "\<And>b. app_id (f b) = app_id b \<and> app_company_id (f b) = app_company_id b"
  shows "app_frame a d (update_app (app_id a) f d')"
proof -
  have "filter (\<lambda>b. app_id b \<noteq> app_id a) (update_rows (\<lambda>b. app_id b = app_id a) f (apps d')) = filter (\<lambda>b. app_id b \<noteq> app_id a) (apps d')"
    by (rule filter_update_rows) (use assms(2) in auto)
  then show ?thesis using assms by (auto simp: app_frame_def update_app_def emitted_def update_rows_def)
qed

lemma app_frame_update_deployments:
  assumes "app_frame a d d'" "\<And>x. x \<in> set (deployments d') \<Longrightarrow> q x \<Longrightarrow> dep_app x = app_id a"
    and "\<And>x. dep_app (f x) = dep_app x"
  shows "app_frame a d (d'\<lparr>deployments := update_rows q f (deployments d')\<rparr>)"
proof -
  have "filter (\<lambda>b. dep_app b \<noteq> app_id a) (update_rows q f (deployments d')) = filter (\<lambda>b. dep_app b \<noteq> app_id a) (deployments d')"
    by (rule filter_update_rows) (use assms(2,3) in auto)
  then show ?thesis using assms(1) by (auto simp: app_frame_def emitted_def)
qed

lemma app_frame_update_deployment:
  assumes "app_frame a d d'" "\<And>x. x \<in> set (deployments d') \<Longrightarrow> dep_id x = i \<Longrightarrow> dep_app x = app_id a"
    and "\<And>x. dep_app (f x) = dep_app x"
  shows "app_frame a d (update_deployment i f d')"
  unfolding update_deployment_def by (rule app_frame_update_deployments[OF assms])

lemma app_frame_supersede: "app_frame a d d' \<Longrightarrow> app_frame a d (supersede_others now (app_id a) i d')"
  unfolding supersede_others_def by (rule app_frame_update_deployments) auto

text \<open>The deployment of a row keeps its app.\<close>

definition of_app :: "app \<Rightarrow> uuid \<Rightarrow> db \<Rightarrow> bool" where
  "of_app a i d \<longleftrightarrow> (\<forall>x\<in>set (deployments d). dep_id x = i \<longrightarrow> dep_app x = app_id a)"

lemma of_app_row: "keys_ok d \<Longrightarrow> r \<in> set (deployments d) \<Longrightarrow> dep_app r = app_id a \<Longrightarrow> of_app a (dep_id r) d"
  using status_of_row unfolding of_app_def by blast

lemma of_app_supersede: "of_app a i d \<Longrightarrow> of_app a i (supersede_others now k j d)"
  by (simp add: of_app_def supersede_others_def update_rows_def ball_Un) blast

lemma app_frame_mark:
  "app_frame a d d' \<Longrightarrow> of_app a i d' \<Longrightarrow> app_frame a d (update_deployment i (mark_active now fin) d')"
  by (rule app_frame_update_deployment) (auto simp: of_app_def mark_active_def)

lemma app_frame_set_current: "app_frame a d d' \<Longrightarrow> app_frame a d (update_app (app_id a) (set_current now i) d')"
  by (rule app_frame_update_app) (auto simp: set_current_def)

lemma app_frame_renew: "app_frame a d d' \<Longrightarrow> app_frame a d (renew_preview_expiry cfg now a d')"
  unfolding renew_preview_cases by (rule app_frame_update_app) (auto simp: set_expiry_def)

lemma frame_activate:
  assumes "keys_ok (w_db w)" "a \<in> set (apps (w_db w))" "r \<in> set (deployments (w_db w))" "dep_app r = app_id a"
    and "activate_deployment env a r actor w = (res, w')"
  shows "app_frame a (w_db w) (w_db w')"
proof (cases res)
  case (Inl e)
  then show ?thesis using assms(5) app_frame_refl[OF assms(1,2)]
    by (auto simp: activate_deployment_def atomic_def split: prod.splits sum.splits)
next
  case (Inr r')
  then have b: "activate_body env a r actor w = (Inr r', w')"
    using assms(5) by (auto simp: activate_deployment_def atomic_def split: prod.splits sum.splits)
  note s = app_frame_supersede[OF app_frame_refl[OF assms(1,2)], of "env_now env" "dep_id r"]
  have "app_frame a (w_db w) (update_app (app_id a) (set_current (env_now env) (dep_id r))
      (renew_preview_expiry (env_cfg env) (env_now env) a (update_deployment (dep_id r)
        (mark_active (env_now env) (Some (env_now env))) (supersede_others (env_now env) (app_id a) (dep_id r) (w_db w)))))"
    using of_app_row[OF assms(1,3,4)] by (intro app_frame_set_current app_frame_renew app_frame_mark s of_app_supersede)
  then show ?thesis using b
    by (auto simp: activate_body_def Let_def intro!: app_frame_emit split: if_splits prod.splits sum.splits)
qed

lemma frame_finalize:
  assumes "keys_ok (w_db w)" "a \<in> set (apps (w_db w))" "r \<in> set (deployments (w_db w))" "dep_app r = app_id a"
    and "finalize_deployment env a r u em tok w = (res, w')"
  shows "app_frame a (w_db w) (w_db w')"
proof -
  let ?actor = "case u of Some u \<Rightarrow> action_actor (Some u) em | None \<Rightarrow> action_actor (dep_deployed_by_id r) []"
  obtain res1 w1 where act: "activate_deployment env a r ?actor w = (res1, w1)" by (metis prod.exhaust)
  note F = frame_activate[OF assms(1-4) act]
  show ?thesis
  proof (cases res1)
    case (Inl e)
    have "of_app a (dep_id r) (w_db w1)"
      using of_app_row[OF assms(1,3,4)] act Inl
      by (auto simp: activate_deployment_def atomic_def split: prod.splits sum.splits)
    then have "app_frame a (w_db w) (w_db (mark_deployment_failed env a r ?actor w1))"
      unfolding mark_deployment_failed_def Let_def
      by (intro app_frame_emit) (simp add: app_frame_update_deployment[OF F] of_app_def)
    then show ?thesis using assms(5) act Inl F by (auto simp: finalize_deployment_def Let_def split: if_splits)
  next
    case (Inr r')
    then show ?thesis using assms(5) act F by (auto simp: finalize_deployment_def Let_def split: prod.splits)
  qed
qed

lemma frame_rollback:
  assumes "keys_ok (w_db w)" "a \<in> set (apps (w_db w))" "r \<in> set (deployments (w_db w))" "dep_app r = app_id a"
    and "rollback_deployment env a r w = Inr (r', w')"
  shows "app_frame a (w_db w) (w_db w')"
proof -
  note s = app_frame_supersede[OF app_frame_refl[OF assms(1,2)], of "env_now env" "dep_id r"]
  have "app_frame a (w_db w) (update_app (app_id a) (set_current (env_now env) (dep_id r)) (update_deployment (dep_id r)
        (mark_active (env_now env) fin) (supersede_others (env_now env) (app_id a) (dep_id r) (w_db w))))" for fin
    using of_app_row[OF assms(1,3,4)] by (intro app_frame_set_current app_frame_mark s of_app_supersede)
  then show ?thesis using assms(5) by (auto simp: rollback_deployment_def Let_def split: if_splits)
qed

lemma frame_upload:
  assumes "keys_ok (w_db w)" "a \<in> set (apps (w_db w))" "r \<in> set (deployments (w_db w))" "dep_app r = app_id a"
    and "upload_deployment_artifact env r f cl w = Inr (r', w')"
  shows "app_frame a (w_db w) (w_db w')"
  using assms(5) of_app_row[OF assms(1,3,4)] app_frame_refl[OF assms(1,2)]
  by (auto simp: upload_deployment_artifact_def Let_def res_simps of_app_def
      intro!: app_frame_update_deployment split: if_splits)

lemma frame_create_deployment:
  assumes "keys_ok (w_db w)" "a \<in> set (apps (w_db w))" "create_deployment env a av sv u p em w = Inr (r, w')"
  shows "app_frame a (w_db w) (w_db w')"
proof -
  have "app_frame a (w_db w) ((w_db w)\<lparr>deployments := deployments (w_db w) @ [x]\<rparr>)" if "dep_app x = app_id a" for x
    using app_frame_refl[OF assms(1,2)] that by (simp add: app_frame_def emitted_def)
  then show ?thesis using assms(3)
    by (auto simp: create_deployment_def res_simps Let_def insert_deployment_Inr intro!: app_frame_emit split: if_splits)
qed

lemma frame_renew:
  assumes "keys_ok d" "a \<in> set (apps d)" "renew_app_expiry cfg now a d = Inr (a', d')"
  shows "app_frame a d d'"
  using assms(3) app_frame_update_app[OF app_frame_refl[OF assms(1,2)], of "set_expiry cfg now"]
  by (auto simp: renew_app_expiry_def set_expiry_def split: if_splits)

lemma frame_delete_app:
  assumes "wf_db (w_db w)" "a \<in> set (apps (w_db w))"
  shows "app_frame a (w_db w) (w_db (delete_app env a tok u em w))"
proof -
  have "app_frame a (w_db w) (delete_app_row (app_id a) (w_db w))"
    unfolding delete_app_row_tables[OF assms(1)] by (simp add: app_frame_def delete_rows_def)
  then show ?thesis by (auto simp: delete_app_def Let_def intro!: app_frame_emit split: sum.split)
qed

section \<open>Operations of a company\<close>

lemma company_frame_emit:
  "company_frame c d (w_db w) \<Longrightarrow> company_frame c d (w_db (emit_w env n ev c pl act w))"
  using emitted_trans[OF _ emitted_emit] by (simp add: company_frame_def of_company_def)

lemma company_frame_accesses:
  "filter (\<lambda>x. acc_company_id x \<noteq> c) as = filter (\<lambda>x. acc_company_id x \<noteq> c) (accesses d) \<Longrightarrow>
   company_frame c d (d\<lparr>accesses := as\<rparr>)"
  by (simp add: company_frame_def of_company_def)

lemma company_frame_tokens:
  "filter (\<lambda>x. tok_company_id x \<noteq> c) ts = filter (\<lambda>x. tok_company_id x \<noteq> c) (tokens d) \<Longrightarrow>
   company_frame c d (d\<lparr>tokens := ts\<rparr>)"
  by (simp add: company_frame_def of_company_def)

lemma filter_save_access:
  "acc_company_id a = c \<Longrightarrow>
   filter (\<lambda>x. acc_company_id x \<noteq> c) (update_rows (\<lambda>b. acc_company_id b = c) (\<lambda>_. a) xs) = filter (\<lambda>x. acc_company_id x \<noteq> c) xs"
  by (rule filter_update_rows) simp

lemma get_access_company: "get_access c d = Some r \<Longrightarrow> acc_company_id r = c"
  by (auto simp: get_access_def dest: first_row_Some)

lemma frame_request_access: "request_access now c u d = (r, d') \<Longrightarrow> company_frame c d d'"
  by (auto simp: request_access_def new_access_def save_access_def filter_save_access get_access_company Let_def
      intro!: company_frame_accesses split: option.splits if_splits)

lemma frame_update_access: "update_access now c st u n d = Inr (r, d') \<Longrightarrow> company_frame c d d'"
  by (auto simp: update_access_def new_access_def save_access_def filter_save_access get_access_company Let_def
      intro!: company_frame_accesses split: option.splits if_splits)

lemma frame_insert_app:
  assumes wf: "wf_db d" and i: "insert_app a d = Inr d'"
  shows "company_frame (app_company_id a) d d'"
proof -
  have "\<forall>r\<in>set (deployments d). dep_app r \<noteq> app_id a"
    using wf i unfolding wf_db_def owned_def insert_app_Inr by metis
  then have "filter (\<lambda>r. \<not> of_company c d' r) (deployments d) = filter (\<lambda>r. \<not> of_company c d r) (deployments d)" for c
    using i by (intro filter_cong) (auto simp: of_company_def has_row_iff insert_app_Inr)
  then show ?thesis using i by (auto simp: company_frame_def insert_app_Inr emitted_def)
qed

lemma frame_create_app:
  assumes "wf_db (w_db w)" "create_app env c n dn tok u em w = Inr (a, w')"
  shows "company_frame c (w_db w) (w_db w')"
proof -
  obtain d ev pl act q where "insert_app a (w_db w) = Inr d" "app_company_id a = c"
    "w' = emit_w env 1 ev c pl act (send_identity q (w\<lparr>w_db := d\<rparr>))"
    using assms(2) by (auto simp: create_app_def res_simps Let_def new_app_def split: if_splits)
  then show ?thesis using frame_insert_app[OF assms(1)] by (auto intro: company_frame_emit)
qed

lemma frame_create_preview_app:
  assumes "wf_db (w_db w)" "create_preview_app env c u dn em w = Inr (a, w')"
  shows "company_frame c (w_db w) (w_db w')" "app_company_id a = c" "a \<in> set (apps (w_db w'))"
proof -
  obtain d ev pl act where a: "insert_app a (w_db w) = Inr d" "app_company_id a = c"
    "w' = emit_w env 1 ev c pl act (w\<lparr>w_db := d\<rparr>)"
    using assms(2) by (auto simp: create_preview_app_def res_simps Let_def new_app_def split: if_splits)
  then show "company_frame c (w_db w) (w_db w')" using frame_insert_app[OF assms(1)] by (auto intro: company_frame_emit)
  show "app_company_id a = c" "a \<in> set (apps (w_db w'))" using a by (auto simp: insert_app_Inr)
qed

text \<open>The two parts of a preview preparation.\<close>

lemma prepare_parts:
  assumes "prepare_preview_deploy env c u s dn av sv tok em any w = Inr (a, r, res, w')"
  obtains w1 w2 where "create_deployment env a av sv (Some u) False em w1 = Inr (r, w2)" "w_db w' = w_db w2"
    "create_preview_app env c u dn em w = Inr (a, w1)
     \<or> w1 = w \<and> a \<in> set (apps (w_db w)) \<and> app_company_id a = c \<and> (any \<longrightarrow> is_preview_app a)"
proof -
  obtain w2 where at: "prepare_preview_deploy_atomic env c u s dn av sv em any w = Inr ((a, r), w2)" "w_db w' = w_db w2"
    using assms by (auto simp: prepare_preview_deploy_def res_simps case_prod_beta)
  show thesis
    by (rule prepare_atomic_parts[OF at(1)]) (use that at(2) resolve_preview_app_Inr in \<open>metis (full_types)\<close>)
qed

lemma frame_prepare:
  assumes wf: "wf_db (w_db w)" and e: "env_ok env"
    and p: "prepare_preview_deploy env c u s dn av sv tok em any w = Inr (a, r, res, w')"
  shows "company_frame c (w_db w) (w_db w')"
proof -
  obtain w1 w2 where c: "create_deployment env a av sv (Some u) False em w1 = Inr (r, w2)" "w_db w' = w_db w2"
    and src: "create_preview_app env c u dn em w = Inr (a, w1)
     \<or> w1 = w \<and> a \<in> set (apps (w_db w)) \<and> app_company_id a = c \<and> (any \<longrightarrow> is_preview_app a)"
    by (rule prepare_parts[OF p])
  have 1: "company_frame c (w_db w) (w_db w1)" "app_company_id a = c" "a \<in> set (apps (w_db w1))" "wf_db (w_db w1)"
    using src frame_create_preview_app[OF wf] wf_create_preview_app[OF wf e] wf by auto
  then have k: "keys_ok (w_db w1)" by (simp add: wf_db_def)
  have "company_frame (app_company_id a) (w_db w1) (w_db w2)"
    by (rule app_in_company[OF frame_create_deployment[OF k 1(3) c(1)] 1(4) wf_create_deployment[OF 1(4) e c(1)] 1(3)])
  then show ?thesis using 1 c(2) company_frame_trans by simp
qed

section \<open>The steps of a company\<close>

definition tokens_ok :: "db \<Rightarrow> bool" where
  "tokens_ok d \<longleftrightarrow> distinct (map tok_id (tokens d))"

lemma filter_update_token:
  assumes "tokens_ok d" "t \<in> set (tokens d)" "\<And>x. tok_company_id (f x) = tok_company_id x"
  shows "company_frame (tok_company_id t) d (update_token (tok_id t) f d)"
  unfolding update_token_def
proof (rule company_frame_tokens, rule filter_update_rows)
  fix x assume "x \<in> set (tokens d)" "tok_id x = tok_id t"
  then have "x = t" using assms(1,2) distinct_map_unique unfolding tokens_ok_def by metis
  then show "\<not> tok_company_id x \<noteq> tok_company_id t \<and> \<not> tok_company_id (f x) \<noteq> tok_company_id t"
    using assms(3) by simp
qed

inductive tenant_step :: "company \<Rightarrow> world \<Rightarrow> world \<Rightarrow> bool" where
  request_access: "request_access now c u (w_db w) = (r, d') \<Longrightarrow> tenant_step c w (w\<lparr>w_db := d'\<rparr>)"
| update_access: "update_access now c st u n (w_db w) = Inr (r, d') \<Longrightarrow> tenant_step c w (w\<lparr>w_db := d'\<rparr>)"
| create_app: "env_ok env \<Longrightarrow> create_app env c n dn tok u em w = Inr (a, w') \<Longrightarrow> tenant_step c w w'"
| prepare: "env_ok env \<Longrightarrow> prepare_preview_deploy env c u s dn av sv tok em any w = Inr (a, r, res, w') \<Longrightarrow>
    tenant_step c w w'"
| create_deployment: "env_ok env \<Longrightarrow> a \<in> set (apps (w_db w)) \<Longrightarrow> app_company_id a = c \<Longrightarrow>
    create_deployment env a av sv u p em w = Inr (r, w') \<Longrightarrow> tenant_step c w w'"
| upload: "a \<in> set (apps (w_db w)) \<Longrightarrow> app_company_id a = c \<Longrightarrow> r \<in> set (deployments (w_db w)) \<Longrightarrow> dep_app r = app_id a \<Longrightarrow>
    upload_deployment_artifact env r f cl w = Inr (r', w') \<Longrightarrow> tenant_step c w w'"
| finalize: "a \<in> set (apps (w_db w)) \<Longrightarrow> app_company_id a = c \<Longrightarrow> r \<in> set (deployments (w_db w)) \<Longrightarrow> dep_app r = app_id a \<Longrightarrow>
    finalize_deployment env a r u em tok w = (res, w') \<Longrightarrow> tenant_step c w w'"
| rollback: "a \<in> set (apps (w_db w)) \<Longrightarrow> app_company_id a = c \<Longrightarrow> r \<in> set (deployments (w_db w)) \<Longrightarrow> dep_app r = app_id a \<Longrightarrow>
    rollback_deployment env a r w = Inr (r', w') \<Longrightarrow> tenant_step c w w'"
| renew: "a \<in> set (apps (w_db w)) \<Longrightarrow> app_company_id a = c \<Longrightarrow> renew_app_expiry cfg now a (w_db w) = Inr (a', d') \<Longrightarrow>
    tenant_step c w (w\<lparr>w_db := d'\<rparr>)"
| delete_app: "a \<in> set (apps (w_db w)) \<Longrightarrow> app_company_id a = c \<Longrightarrow> w' = delete_app env a tok u em w \<Longrightarrow> tenant_step c w w'"
| create_token: "create_deploy_token h now i us c n b ttl (w_db w) = Inr (t, raw, d') \<Longrightarrow> tenant_step c w (w\<lparr>w_db := d'\<rparr>)"
| revoke_token: "t \<in> set (tokens (w_db w)) \<Longrightarrow> tok_company_id t = c \<Longrightarrow> revoke_deploy_token now t (w_db w) = (t', d') \<Longrightarrow>
    tenant_step c w (w\<lparr>w_db := d'\<rparr>)"
| use_token: "t \<in> set (tokens (w_db w)) \<Longrightarrow> tok_company_id t = c \<Longrightarrow>
    tenant_step c w (w\<lparr>w_db := update_token (tok_id t) (\<lambda>x. x\<lparr>tok_last_used_at := Some now\<rparr>) (w_db w)\<rparr>)"

text \<open>Every step but those of the tokens is a step of the service.\<close>

lemma tenant_step_service:
  assumes "tenant_step c w w'"
  shows "service_step w w' \<or> w' = w\<lparr>w_db := (w_db w)\<lparr>tokens := tokens (w_db w')\<rparr>\<rparr>"
  using assms
proof (cases rule: tenant_step.cases)
  case (create_token h now i us n b ttl t raw d')
  then show ?thesis by (auto simp: create_deploy_token_def insert_token_def res_simps Let_def split: if_splits)
next
  case (revoke_token t now t' d')
  then show ?thesis by (auto simp: revoke_deploy_token_def update_token_def split: if_splits)
next
  case (use_token t now)
  then show ?thesis by (simp add: update_token_def)
qed (auto intro: service_step.intros)

lemma tenant_step_wf: "tenant_step c w w' \<Longrightarrow> wf_db (w_db w) \<Longrightarrow> wf_db (w_db w')"
proof -
  assume s: "tenant_step c w w'" and wf: "wf_db (w_db w)"
  have "wf_db ((w_db w)\<lparr>tokens := ts\<rparr>)" for ts using wf by (subst wf_db_cong[of _ "w_db w"]) simp_all
  then have "wf_db (w_db (w\<lparr>w_db := (w_db w)\<lparr>tokens := ts\<rparr>\<rparr>))" for ts by simp
  then show "wf_db (w_db w')" using tenant_step_service[OF s] step_wf wf by metis
qed

lemma tenant_step_frame:
  assumes "tenant_step c w w'" and wf: "wf_db (w_db w)" and tk: "tokens_ok (w_db w)"
  shows "company_frame c (w_db w) (w_db w')"
proof -
  have k: "keys_ok (w_db w)" using wf by (simp add: wf_db_def)
  have app: "company_frame c (w_db w) (w_db w')"
    if "app_frame a (w_db w) (w_db w')" "a \<in> set (apps (w_db w))" "app_company_id a = c" for a
    using app_in_company[OF that(1) wf tenant_step_wf[OF assms(1) wf] that(2)] that(3) by simp
  show ?thesis
    using assms(1)
  proof (cases rule: tenant_step.cases)
    case (create_token h now i us n b ttl t raw d')
    then show ?thesis using create_deploy_token_Inr[of h now i us c n b ttl "w_db w" t raw d']
      by (auto simp: create_deploy_token_def insert_token_def res_simps Let_def intro!: company_frame_tokens split: if_splits)
  next
    case (revoke_token t now t' d')
    then show ?thesis using filter_update_token[OF tk, of t "\<lambda>t. t\<lparr>tok_revoked_at := Some now\<rparr>"]
      by (auto simp: revoke_deploy_token_def split: if_splits)
  next
    case (use_token t now)
    then show ?thesis using filter_update_token[OF tk, of t "\<lambda>x. x\<lparr>tok_last_used_at := Some now\<rparr>"] by simp
  next
    case (create_deployment env a av sv u p em r)
    then show ?thesis using app[OF frame_create_deployment[OF k]] by blast
  next
    case (upload a r env f cl r')
    then show ?thesis using app[OF frame_upload[OF k]] by blast
  next
    case (finalize a r env u em tok res)
    then show ?thesis using app[OF frame_finalize[OF k]] by blast
  next
    case (rollback a r env r')
    then show ?thesis using app[OF frame_rollback[OF k]] by blast
  next
    case (renew a cfg now a' d')
    then show ?thesis using app[of a] frame_renew[OF k] by simp
  next
    case (delete_app a env tok u em)
    then show ?thesis using app[of a] frame_delete_app[OF wf] by simp
  qed (use wf frame_request_access frame_update_access frame_create_app frame_prepare in \<open>(simp; blast)+\<close>)
qed

lemma update_token_keys: "map tok_id (tokens (update_token i (\<lambda>t. t\<lparr>tok_revoked_at := x\<rparr>) d)) = map tok_id (tokens d)"
  "map tok_id (tokens (update_token i (\<lambda>t. t\<lparr>tok_last_used_at := x\<rparr>) d)) = map tok_id (tokens d)"
  by (auto simp: update_token_def update_rows_def)

lemma create_apps_tokens:
  "create_app env c n dn tok u em w = Inr (a, w') \<Longrightarrow> tokens (w_db w') = tokens (w_db w)"
  "create_preview_app env c us dn em w = Inr (a, w') \<Longrightarrow> tokens (w_db w') = tokens (w_db w)"
  by (auto simp: create_app_def create_preview_app_def res_simps Let_def insert_app_Inr split: if_splits)

lemma access_tokens:
  "request_access now c u d = (r, d') \<Longrightarrow> tokens d' = tokens d"
  "update_access now c st u n d = Inr (r, d') \<Longrightarrow> tokens d' = tokens d"
  by (auto simp: request_access_def update_access_def save_access_def Let_def split: option.splits if_splits)

lemma create_deployment_tokens:
  "create_deployment env a av sv u p em w = Inr (r, w') \<Longrightarrow> tokens (w_db w') = tokens (w_db w)"
  by (auto simp: create_deployment_def res_simps Let_def insert_deployment_Inr split: if_splits)

lemma app_frame_tokens: "app_frame a d d' \<Longrightarrow> tokens d' = tokens d"
  by (simp add: app_frame_def)

lemma tenant_step_tokens:
  assumes "tenant_step c w w'" and wf: "wf_db (w_db w)" and tk: "tokens_ok (w_db w)"
  shows "tokens_ok (w_db w')"
proof -
  have k: "keys_ok (w_db w)" using wf by (simp add: wf_db_def)
  have same: "tokens (w_db w') = tokens (w_db w) \<Longrightarrow> tokens_ok (w_db w')" using tk by (simp add: tokens_ok_def)
  show ?thesis
    using assms(1)
  proof (cases rule: tenant_step.cases)
    case (prepare env u s dn av sv tok em any a r res)
    then show ?thesis
      by (elim prepare_parts) (use create_deployment_tokens create_apps_tokens(2) same in metis)
  next
    case (create_token h now i us n b ttl t raw d')
    then show ?thesis using create_deploy_token_Inr[of h now i us c n b ttl "w_db w" t raw d'] tk
      by (auto simp: tokens_ok_def)
  next
    case (revoke_token t now t' d')
    then show ?thesis using update_token_keys(1) tk by (auto simp: tokens_ok_def revoke_deploy_token_def split: if_splits)
  next
    case (use_token t now)
    then show ?thesis using tk by (simp add: tokens_ok_def update_token_keys)
  next
    case (upload a r env f cl r')
    then show ?thesis using same app_frame_tokens[OF frame_upload[OF k]] by blast
  next
    case (finalize a r env u em tok res)
    then show ?thesis using same app_frame_tokens[OF frame_finalize[OF k]] by blast
  next
    case (rollback a r env r')
    then show ?thesis using same app_frame_tokens[OF frame_rollback[OF k]] by blast
  next
    case (renew a cfg now a' d')
    then show ?thesis using same app_frame_tokens[OF frame_renew[OF k]] by simp
  next
    case (delete_app a env tok u em)
    then show ?thesis using same app_frame_tokens[OF frame_delete_app[OF wf]] by simp
  qed (use same create_apps_tokens(1) access_tokens create_deployment_tokens in \<open>(simp; blast)+\<close>)
qed

end
