(* ===== verification/Api.thy ===== *)
theory Api
  imports Services Stats Rate_Limits Identity_Auth
begin

text \<open>
  The frame of the REST views: what \<^verbatim>\<open>rest_framework\<close> does with a request before and after the handler of a
  view, with the settings of \<^verbatim>\<open>REST_FRAMEWORK\<close> and the handler of \<^verbatim>\<open>config/exceptions.py\<close>. A request is
  authenticated (\<open>Identity_Auth\<close>), checked against the permissions of the view (\<open>Auth\<close>) and its throttle
  (\<open>Rate_Limits\<close>), then handed to the handler of its method; the result is the answer, or the exception that
  Django turns into a 500, with the state the server is left in.
\<close>

section \<open>Requests and answers\<close>

text \<open>
  \<open>rq_data\<close> is what reading \<^verbatim>\<open>request.data\<close> gives or raises. \<open>rq_files\<close> is \<^verbatim>\<open>request.FILES\<close>: every file with the chunks it
  is read in and its size, or a failure of the form parser. \<open>rq_stream\<close> is what can be read from
  \<^verbatim>\<open>request.stream\<close>, None when there is no body.
\<close>

type_synonym upload = "string list \<times> int"

datatype form_files = Form_Files "(string \<times> upload) list" | Form_Error exn | Form_Too_Big

record api_request =
  rq_method :: string
  rq_header :: string
  rq_remote :: "string option"
  rq_xff :: "string option"
  rq_query :: "(string \<times> string) list"
  rq_data :: "exn + json"
  rq_content_length :: string
  rq_content_type :: string
  rq_files :: form_files
  rq_stream :: "string list option"

definition query_param :: "api_request \<Rightarrow> string \<Rightarrow> string" where
  "query_param rq k = (case map_of (rq_query rq) k of None \<Rightarrow> [] | Some s \<Rightarrow> s)"

text \<open>
  \<open>Handled\<close> is an answer that the exception handler of the framework makes. The text of messages is not
  modelled, nor is the printed form of metrics.
\<close>

datatype answer = Answer nat json | Families "family list" | No_Content | Handled nat

fun answer_status :: "answer \<Rightarrow> nat" where
  "answer_status (Answer s _) = s"
| "answer_status (Families _) = 200"
| "answer_status No_Content = 204"
| "answer_status (Handled s) = s"

definition error_body :: "nat \<Rightarrow> string \<Rightarrow> answer" where
  "error_body status code = Answer status (JDict [(''statusCode'', JStr (nat_digits status)), (''error'', JStr code)])"

section \<open>The server\<close>

record api_env =
  ae_env :: env
  ae_hash :: "string \<Rightarrow> string"
  ae_urlsafe :: string
  ae_jwt :: jwt_env
  ae_auth :: auth_settings
  ae_limits :: rate_limits
  ae_trusted :: "string list"
  ae_clock :: time
  ae_version :: string
  ae_redis_up :: "bool option"
  ae_beat :: "time option"
  ae_repr :: "json \<Rightarrow> string"

record server =
  sv_world :: world
  sv_throttle :: throttle_cache
  sv_jwks :: jwks_client

type_synonym outcome = "(exn + answer) \<times> world"

type_synonym handler = "principal option \<Rightarrow> string option \<Rightarrow> api_request \<Rightarrow> world \<Rightarrow> outcome"

text \<open>
  A view: whether it has authentication classes, its permissions, the scope of its throttle for a method, and its
  handlers. \<^verbatim>\<open>View.setup\<close> answers HEAD with the handler of GET.
\<close>

record api_view =
  vw_auth :: bool
  vw_permission :: "principal option \<Rightarrow> string \<Rightarrow> bool"
  vw_scope :: "string \<Rightarrow> string option"
  vw_handlers :: "(string \<times> handler) list"

text \<open>\<^verbatim>\<open>request.user\<close> of an anonymous request has none of the attributes a handler reads.\<close>

definition signed_in :: "(principal \<Rightarrow> string option \<Rightarrow> api_request \<Rightarrow> world \<Rightarrow> outcome) \<Rightarrow> handler" where
  "signed_in f user token rq w = (case user of None \<Rightarrow> (Inl Attribute_Error, w) | Some p \<Rightarrow> f p token rq w)"

definition perform_authentication ::
    "api_env \<Rightarrow> api_view \<Rightarrow> api_request \<Rightarrow> server \<Rightarrow> (exn + (principal \<times> string option) option) \<times> server" where
  "perform_authentication ae v rq sv =
     (if vw_auth v
      then (let (r, d, c) = authenticate_request (ae_hash ae) (env_now (ae_env ae)) (ae_jwt ae) (ae_auth ae)
                              (rq_header rq) (w_db (sv_world sv)) (sv_jwks sv)
            in (r, sv\<lparr>sv_world := (sv_world sv)\<lparr>w_db := d\<rparr>, sv_jwks := c\<rparr>))
      else (Inr None, sv))"

definition check_throttles :: "api_env \<Rightarrow> api_view \<Rightarrow> principal option \<Rightarrow> api_request \<Rightarrow> server \<Rightarrow> bool \<times> server" where
  "check_throttles ae v user rq sv =
     (case vw_scope v (rq_method rq) of
        None \<Rightarrow> (True, sv)
      | Some scope \<Rightarrow>
          (let (allowed, c) = allow_request (ae_limits ae) (Some scope) user
                 (get_client_ip (ae_trusted ae) (rq_remote rq) (rq_xff rq)) (ae_clock ae) (sv_throttle sv)
           in (allowed, sv\<lparr>sv_throttle := c\<rparr>)))"

definition handler_of :: "api_view \<Rightarrow> string \<Rightarrow> handler option" where
  "handler_of v m = map_of (vw_handlers v) (if m = ''HEAD'' then ''GET'' else m)"

text \<open>The exceptions of the framework that a handler lets through become answers; the others are left to Django.\<close>

definition exception_handler :: "exn + answer \<Rightarrow> exn + answer" where
  "exception_handler r =
     (case r of Inl (Auth_Failed code) \<Rightarrow> Inr (Handled 401) | Inl Parse_Error \<Rightarrow> Inr (Handled 400) | _ \<Rightarrow> r)"

definition call_handler ::
    "api_view \<Rightarrow> (principal \<times> string option) option \<Rightarrow> api_request \<Rightarrow> server \<Rightarrow> (exn + answer) \<times> server" where
  "call_handler v who rq sv =
     (if rq_method rq = ''OPTIONS'' then (Inr (Handled 200), sv)
      else case handler_of v (rq_method rq) of
        None \<Rightarrow> (Inr (Handled 405), sv)
      | Some h \<Rightarrow>
          (let (r, w) = h (map_option fst who) (case who of None \<Rightarrow> None | Some (_, t) \<Rightarrow> t) rq (sv_world sv)
           in (exception_handler r, sv\<lparr>sv_world := w\<rparr>)))"

text \<open>\<^verbatim>\<open>APIView.dispatch\<close>.\<close>

definition drf_dispatch :: "api_env \<Rightarrow> api_view \<Rightarrow> api_request \<Rightarrow> server \<Rightarrow> (exn + answer) \<times> server" where
  "drf_dispatch ae v rq sv =
     (case perform_authentication ae v rq sv of
        (Inl e, sv1) \<Rightarrow> (exception_handler (Inl e), sv1)
      | (Inr who, sv1) \<Rightarrow>
          if \<not> vw_permission v (map_option fst who) (rq_method rq)
          then (Inr (Handled (if who = None \<and> vw_auth v then 401 else 403)), sv1)
          else (case check_throttles ae v (map_option fst who) rq sv1 of
                  (False, sv2) \<Rightarrow> (Inr (Handled 429), sv2)
                | (True, sv2) \<Rightarrow> call_handler v who rq sv2))"

section \<open>Helpers of the handlers\<close>

text \<open>An \<^verbatim>\<open>except\<close> clause: the exceptions it answers; the others go on.\<close>

definition answering :: "(exn \<Rightarrow> answer option) \<Rightarrow> exn + answer \<Rightarrow> exn + answer" where
  "answering h r = (case r of Inl e \<Rightarrow> (case h e of Some x \<Rightarrow> Inr x | None \<Rightarrow> Inl e) | Inr x \<Rightarrow> Inr x)"

fun hosting_error_answer :: "exn \<Rightarrow> answer option" where
  "hosting_error_answer (Hosting_Error status code) = Some (error_body status code)"
| "hosting_error_answer _ = None"

fun hosting_or_value_answer :: "exn \<Rightarrow> answer option" where
  "hosting_or_value_answer (Hosting_Error status code) = Some (error_body status code)"
| "hosting_or_value_answer Value_Error = Some (error_body 400 ''Error'')"
| "hosting_or_value_answer Artifact_Too_Large = Some (error_body 400 ''Error'')"
| "hosting_or_value_answer _ = None"

text \<open>A computation on the world that leaves it alone when it fails.\<close>

definition on_world :: "world \<Rightarrow> exn + (answer \<times> world) \<Rightarrow> outcome" where
  "on_world w r = (case r of Inl e \<Rightarrow> (Inl e, w) | Inr (x, w') \<Rightarrow> (Inr x, w'))"

text \<open>\<^verbatim>\<open>str(v or '')\<close>; \<open>ae_repr\<close> prints lists and dicts.\<close>

definition text_or_empty :: "api_env \<Rightarrow> json option \<Rightarrow> string" where
  "text_or_empty ae v =
     (case v of
        None \<Rightarrow> []
      | Some j \<Rightarrow> if \<not> truthy j then []
                  else (case j of JStr s \<Rightarrow> s | JInt i \<Rightarrow> int_str i | JBool b \<Rightarrow> ''True'' | _ \<Rightarrow> ae_repr ae j))"

text \<open>\<^verbatim>\<open>request.data if isinstance(request.data, dict) else {}\<close>\<close>

definition body_dict :: "api_request \<Rightarrow> exn + dict" where
  "body_dict rq = map_res (\<lambda>v. case v of JDict d \<Rightarrow> d | _ \<Rightarrow> []) (rq_data rq)"

text \<open>The path converter \<^verbatim>\<open>uuid\<close>: lower-case hexadecimal digits with hyphens.\<close>

definition uuid_segment :: "string \<Rightarrow> bool" where
  "uuid_segment s \<longleftrightarrow> map length (split_on CHR ''-'' s) = [8, 4, 4, 4, 12]
     \<and> list_all (\<lambda>c. is_digit c \<or> c \<in> set ''abcdef'' \<or> c = CHR ''-'') s"

section \<open>Laws\<close>

lemma answer_status_error_body [simp]: "answer_status (error_body s c) = s"
  by (simp add: error_body_def)

lemma authenticate_request_tables:
  assumes "authenticate_request h now jx au header d c = (r, d', c')"
  shows "d' = d\<lparr>tokens := tokens d'\<rparr>"
  using assms
  by (auto simp: authenticate_request_def deploy_token_authenticate_def resolve_deploy_token_def update_token_def Let_def
      split: prod.splits sum.splits option.splits list.splits if_splits)

end
