(* ===== verification/Api_Views.thy ===== *)
theory Api_Views
  imports Api "HOL-Library.List_Lexorder" "HOL-Library.Char_ord"
begin

text \<open>
  The hosting endpoints: \<^verbatim>\<open>apps/hosting/views.py\<close> and its routes \<^verbatim>\<open>apps/hosting/urls.py\<close>, one definition per handler
  over the operations of \<open>Services\<close>, \<open>Auth\<close> and \<open>Stats\<close>. A handler that fails leaves the world as the operation left
  it: unchanged, except for finalize and what was already written to the store.
\<close>

section \<open>Scope and payloads\<close>

definition find_app :: "principal \<Rightarrow> string \<Rightarrow> world \<Rightarrow> exn + app" where
  "find_app p app_ref w = bind_res (require_company_id p) (\<lambda>c. resolve_app_ref app_ref (Some c) (w_db w))"

definition scoped_app :: "principal \<Rightarrow> string \<Rightarrow> world \<Rightarrow> exn + app" where
  "scoped_app p app_ref w =
     bind_res (find_app p app_ref w) (\<lambda>a. map_res (\<lambda>_. a) (assert_deploy_token_preview p a))"

definition find_deployment :: "app \<Rightarrow> uuid \<Rightarrow> world \<Rightarrow> exn + deployment" where
  "find_deployment a i w =
     (case first_row (\<lambda>r. dep_id r = i \<and> dep_app r = app_id a) (deployments (w_db w)) of
        None \<Rightarrow> Inl Does_Not_Exist | Some r \<Rightarrow> Inr r)"

definition scoped_deployment :: "principal \<Rightarrow> string \<Rightarrow> uuid \<Rightarrow> world \<Rightarrow> exn + (app \<times> deployment)" where
  "scoped_deployment p app_ref i w =
     bind_res (scoped_app p app_ref w) (\<lambda>a. map_res (Pair a) (find_deployment a i w))"

text \<open>\<^verbatim>\<open>serialize_deployment\<close> of a row reads its app from the database.\<close>

definition deployment_payload :: "settings \<Rightarrow> deployment \<Rightarrow> db \<Rightarrow> exn + dict" where
  "deployment_payload cfg r d =
     (case get_app (dep_app r) d of None \<Rightarrow> Inl Does_Not_Exist | Some a \<Rightarrow> Inr (serialize_deployment cfg a r None))"

definition too_large :: "int \<Rightarrow> answer" where
  "too_large max_bytes =
     Answer 413 (JDict [(''statusCode'', JStr ''413''), (''error'', JStr ''upload_too_large''), (''limit_bytes'', JInt max_bytes)])"

fun deployment_error_answer :: "exn \<Rightarrow> answer option" where
  "deployment_error_answer Does_Not_Exist = Some (error_body 404 ''deployment_not_found'')"
| "deployment_error_answer e = hosting_error_answer e"

text \<open>The answer of a handler about a deployment, with further items.\<close>

definition deployment_answer :: "settings \<Rightarrow> deployment \<Rightarrow> dict \<Rightarrow> db \<Rightarrow> exn + answer" where
  "deployment_answer cfg r items d = map_res (\<lambda>pl. Answer 200 (JDict (pl @ items))) (deployment_payload cfg r d)"

abbreviation answer_on :: "(exn \<Rightarrow> answer option) \<Rightarrow> outcome \<Rightarrow> outcome" where
  "answer_on h x \<equiv> (answering h (fst x), snd x)"

section \<open>Health and access\<close>

definition health_get :: "api_env \<Rightarrow> handler" where
  "health_get ae user token rq w =
     (let cfg = env_cfg (ae_env ae) in
      (Inr (Answer 200 (JDict
        [(''status'', JStr ''ok''), (''version'', JStr (ae_version ae)), (''hosting_backend'', JStr (HOSTING_BACKEND cfg)),
         (''identity_jwks_source'', JStr (if IDENTITY_JWKS_SOURCE cfg = [] then ''url'' else IDENTITY_JWKS_SOURCE cfg)),
         (''identity_jwks_url'', JStr (IDENTITY_JWKS_URL cfg))])), w))"

definition access_get :: "api_env \<Rightarrow> handler" where
  "access_get ae = signed_in (\<lambda>p token rq w.
     (answering hosting_error_answer (map_res (\<lambda>c. Answer 200 (JDict (serialize_access (get_access c (w_db w)) c)))
        (require_company_id p)), w))"

text \<open>The company of an access update: staff may name one; \<^verbatim>\<open>int(target_company)\<close> stands outside any \<^verbatim>\<open>try\<close>.\<close>

definition access_target :: "principal \<Rightarrow> dict \<Rightarrow> exn + (answer + company)" where
  "access_target p data =
     (let target_company = dict_get data ''company_id'' in
      if pr_is_staff p \<and> target_company \<notin> {None, Some JNull, Some (JStr [])}
      then (case to_int (the target_company) of None \<Rightarrow> Inl Value_Error | Some c \<Rightarrow> Inr (Inr c))
      else case require_company_id p of
        Inl e \<Rightarrow> (case hosting_error_answer e of Some x \<Rightarrow> Inr (Inl x) | None \<Rightarrow> Inl e)
      | Inr c \<Rightarrow> if \<not> pr_is_staff p \<and> \<not> pr_is_company_owner p then Inr (Inl (error_body 403 ''forbidden'')) else Inr (Inr c))"

definition access_post :: "api_env \<Rightarrow> handler" where
  "access_post ae = signed_in (\<lambda>p token rq w.
     on_world w (bind_res (body_dict rq) (\<lambda>data. bind_res (access_target p data) (\<lambda>t. case t of
         Inl x \<Rightarrow> Inr (x, w)
       | Inr company_id \<Rightarrow>
           (let status_value = strip (text_or_empty ae (dict_get data ''status'')) in
            if status_value \<in> {access_status_str APPROVED, access_status_str DENIED} \<and> \<not> pr_is_staff p
            then Inr (error_body 403 ''forbidden'', w)
            else case update_access (env_now (ae_env ae)) company_id status_value (pr_user_id p)
                        (text_or_empty ae (dict_get data ''notes'')) (w_db w) of
                Inl e \<Rightarrow> map_res (\<lambda>x. (x, w)) (answering hosting_error_answer (Inl e))
              | Inr (r, d) \<Rightarrow> Inr (Answer 200 (JDict (serialize_access (Some r) company_id)), w\<lparr>w_db := d\<rparr>))))))"

definition access_request_post :: "api_env \<Rightarrow> handler" where
  "access_request_post ae = signed_in (\<lambda>p token rq w.
     answer_on hosting_error_answer (on_world w (map_res (\<lambda>c.
        (let (r, d) = request_access (env_now (ae_env ae)) c (pr_user_id p) (w_db w)
         in (Answer 201 (JDict (serialize_access (Some r) c)), w\<lparr>w_db := d\<rparr>))) (require_company_id p))))"

section \<open>Previews and apps\<close>

definition prepare_payload :: "settings \<Rightarrow> app \<Rightarrow> deployment \<Rightarrow> redirect_sync_result \<Rightarrow> dict" where
  "prepare_payload cfg a r sync =
     (let app_payload = serialize_app cfg a;
          deployment_part = serialize_deployment cfg a r (Some (app_slug a));
          urls = (if truthy_opt (dict_get app_payload ''urls'') then the (dict_get app_payload ''urls'')
                  else if truthy_opt (dict_get deployment_part ''urls'') then the (dict_get deployment_part ''urls'')
                  else JDict [])
      in [(''app'', JDict app_payload), (''deployment'', JDict deployment_part), (''slug'', JStr (app_slug a)),
          (''expires_at'', iso (app_expires_at a)), (''urls'', urls)] @ as_api sync)"

definition preview_post :: "api_env \<Rightarrow> handler" where
  "preview_post ae = signed_in (\<lambda>p token rq w.
     answer_on hosting_or_value_answer (on_world w
       (bind_res (require_company_id p) (\<lambda>company_id. bind_res (body_dict rq) (\<lambda>data.
          let slug = strip (text_or_empty ae (dict_get data ''slug''))
          in map_res (\<lambda>(a, r, sync, w'). (Answer 201 (JDict (prepare_payload (env_cfg (ae_env ae)) a r sync)), w'))
               (prepare_preview_deploy (ae_env ae) company_id (pr_user_id p) (if slug = [] then None else Some slug)
                  (text_or_empty ae (dict_get data ''display_name'')) (text_or_empty ae (dict_get data ''app_version''))
                  (text_or_empty ae (dict_get data ''shellui_version'')) token (pr_email p)
                  (pr_deploy_token_id p \<notin> {None, Some []}) w))))))"

text \<open>\<^verbatim>\<open>order_by('name')\<close>; the names of a company are distinct.\<close>

definition company_apps :: "company \<Rightarrow> db \<Rightarrow> app list" where
  "company_apps c d = sort_key app_name (filter (\<lambda>a. app_company_id a = c) (apps d))"

definition app_list_get :: "api_env \<Rightarrow> handler" where
  "app_list_get ae = signed_in (\<lambda>p token rq w.
     (answering hosting_error_answer (map_res (\<lambda>c.
        Answer 200 (JList (map (\<lambda>a. JDict (serialize_app (env_cfg (ae_env ae)) a)) (company_apps c (w_db w)))))
        (require_company_id p)), w))"

definition app_list_post :: "api_env \<Rightarrow> handler" where
  "app_list_post ae = signed_in (\<lambda>p token rq w.
     answer_on hosting_or_value_answer (on_world w
       (bind_res (require_company_id p) (\<lambda>company_id. bind_res (body_dict rq) (\<lambda>data.
          let name = dict_get data ''name''
          in map_res (\<lambda>(a, w'). (Answer 201 (JDict (serialize_app (env_cfg (ae_env ae)) a)), w'))
               (create_app (ae_env ae) company_id
                  (text_or_empty ae (if truthy_opt name then name else dict_get data ''slug''))
                  (text_or_empty ae (dict_get data ''display_name'')) token (Some (pr_user_id p)) (pr_email p) w))))))"

definition app_get :: "api_env \<Rightarrow> string \<Rightarrow> handler" where
  "app_get ae app_ref = signed_in (\<lambda>p token rq w.
     (answering hosting_error_answer
        (map_res (\<lambda>a. Answer 200 (JDict (serialize_app (env_cfg (ae_env ae)) a))) (find_app p app_ref w)), w))"

definition app_delete :: "api_env \<Rightarrow> string \<Rightarrow> handler" where
  "app_delete ae app_ref = signed_in (\<lambda>p token rq w.
     answer_on hosting_error_answer (on_world w (map_res (\<lambda>a.
        (No_Content, delete_app (ae_env ae) a token (Some (pr_user_id p)) (pr_email p) w)) (find_app p app_ref w))))"

definition renew_expiry_post :: "api_env \<Rightarrow> string \<Rightarrow> handler" where
  "renew_expiry_post ae app_ref = signed_in (\<lambda>p token rq w.
     (let cfg = env_cfg (ae_env ae) in
      answer_on hosting_error_answer (on_world w (bind_res (find_app p app_ref w) (\<lambda>a.
        map_res (\<lambda>(a', d). (Answer 200 (JDict (serialize_app cfg a')), w\<lparr>w_db := d\<rparr>))
          (renew_app_expiry cfg (env_now (ae_env ae)) a (w_db w)))))))"

section \<open>Deployments\<close>

text \<open>The default order of deployments and deploy tokens is newest first.\<close>

definition newest_deployments :: "app \<Rightarrow> db \<Rightarrow> deployment list" where
  "newest_deployments a d = sort_key (\<lambda>r. - dep_created_at r) (app_deployments (app_id a) d)"

definition deployment_list_get :: "api_env \<Rightarrow> string \<Rightarrow> handler" where
  "deployment_list_get ae app_ref = signed_in (\<lambda>p token rq w.
     (answering hosting_error_answer (map_res (\<lambda>a.
        Answer 200 (JList (map (\<lambda>r. JDict (serialize_deployment (env_cfg (ae_env ae)) a r None)) (newest_deployments a (w_db w)))))
        (find_app p app_ref w)), w))"

definition deployment_list_post :: "api_env \<Rightarrow> string \<Rightarrow> handler" where
  "deployment_list_post ae app_ref = signed_in (\<lambda>p token rq w.
     answer_on hosting_or_value_answer (on_world w (bind_res (scoped_app p app_ref w) (\<lambda>a. bind_res (body_dict rq) (\<lambda>data.
        map_res (\<lambda>(r, w'). (Answer 201 (JDict (serialize_deployment (env_cfg (ae_env ae)) a r None)), w'))
          (create_deployment (ae_env ae) a (text_or_empty ae (dict_get data ''app_version''))
             (text_or_empty ae (dict_get data ''shellui_version'')) (Some (pr_user_id p))
             (truthy_opt (dict_get data ''pinned'')) (pr_email p) w))))))"

text \<open>The file to read, with its size when it has one: the field \<^verbatim>\<open>file\<close>, else the first file, else the body.\<close>

definition form_file :: "(string \<times> upload) list \<Rightarrow> upload option" where
  "form_file fs = (case map_of fs ''file'' of Some f \<Rightarrow> Some f | None \<Rightarrow> (case fs of [] \<Rightarrow> None | (_, f) # _ \<Rightarrow> Some f))"

definition uploaded_file :: "api_request \<Rightarrow> form_files + (string list \<times> int) option" where
  "uploaded_file rq =
     (let stream = map_option (\<lambda>s. (s, 0)) (rq_stream rq) in
      if startswith (rq_content_type rq) ''multipart/''
      then (case rq_files rq of
              Form_Files fs \<Rightarrow> Inr (case form_file fs of None \<Rightarrow> stream | Some f \<Rightarrow> Some f)
            | failed \<Rightarrow> Inl failed)
      else Inr stream)"

definition declared_length :: "api_request \<Rightarrow> int" where
  "declared_length rq = (case parse_int (rq_content_length rq) of None \<Rightarrow> 0 | Some n \<Rightarrow> n)"

fun upload_error_answer :: "int \<Rightarrow> exn \<Rightarrow> answer option" where
  "upload_error_answer max_bytes (Hosting_Error status code) =
     Some (if code = ''upload_too_large'' then too_large max_bytes else error_body status code)"
| "upload_error_answer max_bytes Artifact_Too_Large = Some (too_large max_bytes)"
| "upload_error_answer max_bytes Value_Error = Some (error_body 400 ''Error'')"
| "upload_error_answer max_bytes e = None"

definition upload_body :: "api_env \<Rightarrow> deployment \<Rightarrow> api_request \<Rightarrow> world \<Rightarrow> outcome" where
  "upload_body ae r rq w =
     (let max_bytes = HOSTING_MAX_UPLOAD_BYTES (env_cfg (ae_env ae));
          declared = declared_length rq
      in if declared > max_bytes then (Inr (too_large max_bytes), w)
      else case uploaded_file rq of
        Inl (Form_Error e) \<Rightarrow> (Inl e, w)
      | Inl _ \<Rightarrow> (Inr (too_large max_bytes), w)
      | Inr None \<Rightarrow> (Inr (error_body 400 ''empty_upload''), w)
      | Inr (Some (fileobj, sz)) \<Rightarrow>
          (let content_length = (if sz \<noteq> 0 then Some sz else if declared \<noteq> 0 then Some declared else None)
           in case upload_deployment_artifact (ae_env ae) r fileobj content_length w of
                Inl e \<Rightarrow> (answering (upload_error_answer max_bytes) (Inl e), w)
              | Inr (r', w') \<Rightarrow> (deployment_answer (env_cfg (ae_env ae)) r' [] (w_db w'), w')))"

definition upload_put :: "api_env \<Rightarrow> string \<Rightarrow> uuid \<Rightarrow> handler" where
  "upload_put ae app_ref i = signed_in (\<lambda>p token rq w.
     (case scoped_deployment p app_ref i w of
        Inl e \<Rightarrow> (answering deployment_error_answer (Inl e), w)
      | Inr (a, r) \<Rightarrow> upload_body ae r rq w))"

definition finalize_post :: "api_env \<Rightarrow> string \<Rightarrow> uuid \<Rightarrow> handler" where
  "finalize_post ae app_ref i = signed_in (\<lambda>p token rq w.
     (case scoped_deployment p app_ref i w of
        Inl e \<Rightarrow> (answering deployment_error_answer (Inl e), w)
      | Inr (a, r) \<Rightarrow>
          (case finalize_deployment (ae_env ae) a r (Some (pr_user_id p)) (pr_email p) token w of
             (Inl e, w') \<Rightarrow> (answering deployment_error_answer (Inl e), w')
           | (Inr (r', sync), w') \<Rightarrow>
               (case get_deployment (dep_id r') (w_db w') of
                  None \<Rightarrow> (answering deployment_error_answer (Inl Does_Not_Exist), w')
                | Some fresh \<Rightarrow> (deployment_answer (env_cfg (ae_env ae)) fresh (as_api sync) (w_db w'), w')))))"

definition rollback_post :: "api_env \<Rightarrow> string \<Rightarrow> uuid \<Rightarrow> handler" where
  "rollback_post ae app_ref i = signed_in (\<lambda>p token rq w.
     (case bind_res (scoped_deployment p app_ref i w) (\<lambda>(a, r). rollback_deployment (ae_env ae) a r w) of
        Inl e \<Rightarrow> (answering deployment_error_answer (Inl e), w)
      | Inr (r', w') \<Rightarrow> (deployment_answer (env_cfg (ae_env ae)) r' [] (w_db w'), w')))"

section \<open>Deploy tokens\<close>

definition serialize_deploy_token :: "deploy_token \<Rightarrow> dict" where
  "serialize_deploy_token t =
     [(''id'', JStr (tok_id t)), (''name'', JStr (tok_name t)), (''prefix'', JStr (tok_prefix t)),
      (''created_by_id'', opt_int (tok_created_by_id t)), (''created_at'', JTime (tok_created_at t)),
      (''last_used_at'', iso (tok_last_used_at t)), (''expires_at'', iso (tok_expires_at t)),
      (''revoked_at'', iso (tok_revoked_at t))]"

definition company_tokens :: "company \<Rightarrow> db \<Rightarrow> deploy_token list" where
  "company_tokens c d = sort_key (\<lambda>t. - tok_created_at t) (filter (\<lambda>t. tok_company_id t = c) (tokens d))"

definition token_list_get :: "api_env \<Rightarrow> handler" where
  "token_list_get ae = signed_in (\<lambda>p token rq w.
     (answering hosting_error_answer (map_res (\<lambda>c.
        Answer 200 (JList (map (\<lambda>t. JDict (serialize_deploy_token t)) (company_tokens c (w_db w)))))
        (require_company_id p)), w))"

definition days_of :: "json option \<Rightarrow> exn + int option" where
  "days_of raw =
     (if raw \<in> {None, Some JNull, Some (JStr [])} then Inr None
      else case to_int (the raw) of None \<Rightarrow> Inl Value_Error | Some n \<Rightarrow> Inr (Some n))"

text \<open>Reading the body stands before the \<^verbatim>\<open>try\<close>. The identifier of the new row is the draw (0, 2).\<close>

definition token_list_post :: "api_env \<Rightarrow> handler" where
  "token_list_post ae = signed_in (\<lambda>p token rq w.
     (case body_dict rq of
        Inl e \<Rightarrow> (Inl e, w)
      | Inr data \<Rightarrow>
          answer_on hosting_or_value_answer (on_world w
            (bind_res (require_company_id p) (\<lambda>c. bind_res (days_of (dict_get data ''expires_in_days'')) (\<lambda>n.
               map_res (\<lambda>(t, raw, d). (Answer 201 (JDict (serialize_deploy_token t @ [(''token'', JStr raw)])), w\<lparr>w_db := d\<rparr>))
                 (create_deploy_token (ae_hash ae) (env_now (ae_env ae)) (env_fresh (ae_env ae) 0 2) (ae_urlsafe ae) c
                    (text_or_empty ae (dict_get data ''name'')) (Some (pr_user_id p)) n (w_db w))))))))"

fun token_error_answer :: "exn \<Rightarrow> answer option" where
  "token_error_answer Does_Not_Exist = Some (error_body 404 ''deploy_token_not_found'')"
| "token_error_answer e = hosting_error_answer e"

definition token_revoke_post :: "api_env \<Rightarrow> uuid \<Rightarrow> handler" where
  "token_revoke_post ae i = signed_in (\<lambda>p token rq w.
     answer_on token_error_answer (on_world w (bind_res (require_company_id p) (\<lambda>c.
        case first_row (\<lambda>t. tok_id t = i \<and> tok_company_id t = c) (tokens (w_db w)) of
          None \<Rightarrow> Inl Does_Not_Exist
        | Some t \<Rightarrow> (let (t', d) = revoke_deploy_token (env_now (ae_env ae)) t (w_db w)
                    in Inr (Answer 200 (JDict (serialize_deploy_token t')), w\<lparr>w_db := d\<rparr>))))))"

section \<open>Statistics and metrics\<close>

definition stats_get :: "api_env \<Rightarrow> handler" where
  "stats_get ae = signed_in (\<lambda>p token rq w.
     (answering hosting_error_answer (map_res (\<lambda>c. Answer 200 (JDict (build_hosting_stats c (w_db w))))
        (if pr_is_staff p then Inr None else map_res Some (require_company_id p))), w))"

definition text_error :: "nat \<Rightarrow> string \<Rightarrow> answer" where
  "text_error status message = Answer status (JDict [(''error'', JStr message)])"

definition metrics_company_from_token :: "principal \<Rightarrow> api_request \<Rightarrow> answer + company" where
  "metrics_company_from_token p rq =
     (if strip (query_param rq ''company_id'') \<noteq> [] then Inl (text_error 400 ''Remove company_id from the query string'')
      else case pr_company_id p of
        None \<Rightarrow> Inl (text_error 400 ''Missing company_id in access token.'')
      | Some c \<Rightarrow> Inr c)"

definition scrape :: "api_env \<Rightarrow> company option \<Rightarrow> world \<Rightarrow> outcome" where
  "scrape ae c w =
     (let (fs, d) = metrics_families (env_cfg (ae_env ae)) (env_now (ae_env ae)) (ae_redis_up ae) (ae_beat ae) c (w_db w)
      in (Inr (Families fs), w\<lparr>w_db := d\<rparr>))"

definition metrics_get :: "api_env \<Rightarrow> handler" where
  "metrics_get ae = signed_in (\<lambda>p token rq w.
     (if \<not> (pr_is_staff p \<or> pr_is_company_owner p) then (Inr (text_error 403 ''Forbidden''), w)
      else case metrics_company_from_token p rq of
        Inl err \<Rightarrow> (Inr err, w)
      | Inr c \<Rightarrow> scrape ae (Some c) w))"

definition global_metrics_get :: "api_env \<Rightarrow> handler" where
  "global_metrics_get ae = signed_in (\<lambda>p token rq w.
     (if pr_is_staff p \<or> pr_access_global_metrics p then scrape ae None w
      else (Inr (text_error 403 ''Forbidden''), w)))"

section \<open>Routes\<close>

datatype route =
    R_Health | R_Access | R_Access_Request | R_Preview | R_Apps | R_App string | R_Renew string
  | R_Deployments string | R_Upload string uuid | R_Finalize string uuid | R_Rollback string uuid
  | R_Tokens | R_Token_Revoke uuid | R_Stats | R_Metrics | R_Global_Metrics

text \<open>The path after \<^verbatim>\<open>/hosting/v1/\<close>.\<close>

definition hosting_route :: "string \<Rightarrow> route option" where
  "hosting_route path =
     (let some_if = (\<lambda>b r. if b then Some r else None) in
      case split_on CHR ''/'' path of
        [s1] \<Rightarrow> map_of [(''health'', R_Health), (''access'', R_Access), (''preview'', R_Preview), (''apps'', R_Apps),
                  (''deploy-tokens'', R_Tokens), (''stats'', R_Stats), (''metrics'', R_Metrics)] s1
      | [s1, s2] \<Rightarrow>
          if s1 = ''access'' \<and> s2 = ''request'' then Some R_Access_Request
          else if s1 = ''metrics'' \<and> s2 = ''all'' then Some R_Global_Metrics
          else some_if (s1 = ''apps'' \<and> s2 \<noteq> []) (R_App s2)
      | [s1, s2, s3] \<Rightarrow>
          if s1 = ''deploy-tokens'' then some_if (uuid_segment s2 \<and> s3 = ''revoke'') (R_Token_Revoke s2)
          else if s1 \<noteq> ''apps'' \<or> s2 = [] then None
          else if s3 = ''renew-expiry'' then Some (R_Renew s2)
          else some_if (s3 = ''deployments'') (R_Deployments s2)
      | [s1, s2, s3, s4, s5] \<Rightarrow>
          if s1 \<noteq> ''apps'' \<or> s2 = [] \<or> s3 \<noteq> ''deployments'' \<or> \<not> uuid_segment s4 then None
          else map_of [(''upload'', R_Upload s2 s4), (''finalize'', R_Finalize s2 s4), (''rollback'', R_Rollback s2 s4)] s5
      | _ \<Rightarrow> None)"

definition principals_only :: "string list \<Rightarrow> principal option \<Rightarrow> string \<Rightarrow> bool" where
  "principals_only token_methods user m = IsAuthenticatedPrincipal user m token_methods"

definition owners_only :: "principal option \<Rightarrow> string \<Rightarrow> bool" where
  "owners_only user m \<longleftrightarrow> IsAuthenticatedPrincipal user m [] \<and> IsStaffOrCompanyOwner user"

definition only_for :: "string \<Rightarrow> string \<Rightarrow> string \<Rightarrow> string option" where
  "only_for verb scope m = (if m = verb then Some scope else None)"

definition mk_view ::
    "(principal option \<Rightarrow> string \<Rightarrow> bool) \<Rightarrow> (string \<Rightarrow> string option) \<Rightarrow> (string \<times> handler) list \<Rightarrow> api_view" where
  "mk_view permission scope handlers = \<lparr>vw_auth = True, vw_permission = permission, vw_scope = scope, vw_handlers = handlers\<rparr>"

fun hosting_view :: "api_env \<Rightarrow> route \<Rightarrow> api_view" where
  "hosting_view ae R_Health =
     \<lparr>vw_auth = False, vw_permission = (\<lambda>_ _. True), vw_scope = (\<lambda>_. None), vw_handlers = [(''GET'', health_get ae)]\<rparr>"
| "hosting_view ae R_Access = mk_view owners_only (\<lambda>_. None) [(''GET'', access_get ae), (''POST'', access_post ae)]"
| "hosting_view ae R_Access_Request =
     mk_view (principals_only []) (\<lambda>_. Some ''access_request'') [(''POST'', access_request_post ae)]"
| "hosting_view ae R_Preview = mk_view (principals_only [''POST'']) (\<lambda>_. Some ''deploy'') [(''POST'', preview_post ae)]"
| "hosting_view ae R_Apps =
     mk_view (principals_only []) (only_for ''POST'' ''deploy'') [(''GET'', app_list_get ae), (''POST'', app_list_post ae)]"
| "hosting_view ae (R_App a) =
     mk_view (principals_only []) (only_for ''DELETE'' ''destructive'') [(''GET'', app_get ae a), (''DELETE'', app_delete ae a)]"
| "hosting_view ae (R_Renew a) = mk_view (principals_only []) (\<lambda>_. None) [(''POST'', renew_expiry_post ae a)]"
| "hosting_view ae (R_Deployments a) =
     mk_view (principals_only []) (only_for ''POST'' ''deploy'')
       [(''GET'', deployment_list_get ae a), (''POST'', deployment_list_post ae a)]"
| "hosting_view ae (R_Upload a i) =
     mk_view (principals_only [''PUT'', ''POST'']) (\<lambda>_. Some ''upload'') [(''PUT'', upload_put ae a i)]"
| "hosting_view ae (R_Finalize a i) =
     mk_view (principals_only [''POST'']) (\<lambda>_. Some ''deploy'') [(''POST'', finalize_post ae a i)]"
| "hosting_view ae (R_Rollback a i) =
     mk_view (principals_only []) (\<lambda>_. Some ''deploy'') [(''POST'', rollback_post ae a i)]"
| "hosting_view ae R_Tokens = mk_view owners_only (\<lambda>_. None) [(''GET'', token_list_get ae), (''POST'', token_list_post ae)]"
| "hosting_view ae (R_Token_Revoke i) = mk_view owners_only (\<lambda>_. None) [(''POST'', token_revoke_post ae i)]"
| "hosting_view ae R_Stats = mk_view (principals_only []) (\<lambda>_. None) [(''GET'', stats_get ae)]"
| "hosting_view ae R_Metrics = mk_view (principals_only []) (\<lambda>_. None) [(''GET'', metrics_get ae)]"
| "hosting_view ae R_Global_Metrics = mk_view (principals_only []) (\<lambda>_. None) [(''GET'', global_metrics_get ae)]"

definition hosting_api :: "api_env \<Rightarrow> string \<Rightarrow> api_request \<Rightarrow> server \<Rightarrow> (exn + answer) \<times> server" where
  "hosting_api ae path rq sv =
     (case hosting_route path of
        None \<Rightarrow> (Inl Http404, sv)
      | Some r \<Rightarrow> drf_dispatch ae (hosting_view ae r) rq sv)"

end
