(* ===== verification/Api_Laws.thy ===== *)
theory Api_Laws
  imports Tenants Api_Views
begin

text \<open>
  What a request to the hosting API may do, whatever the route, the method and the body. Every handler makes at most
  one step of one company (\<open>Tenants\<close>), so the invariants of the service hold after every request, a caller who is not
  staff changes nothing outside its own company, and a deploy token nothing outside previews.
\<close>

section \<open>The effect of a handler\<close>

text \<open>The company of the caller, any company for staff; a scrape of the metrics may create job states.\<close>

definition api_effect :: "principal \<Rightarrow> world \<Rightarrow> world \<Rightarrow> bool" where
  "api_effect p w w' \<longleftrightarrow> w' = w
     \<or> (\<exists>c. (pr_company_id p = Some c \<or> pr_is_staff p) \<and> tenant_step c w w')
     \<or> (\<exists>js. w' = w\<lparr>w_db := (w_db w)\<lparr>job_states := js\<rparr>\<rparr>)"

named_theorems effects \<open>the effect of each handler\<close>

lemma effect_refl [simp]: "api_effect p w w"
  by (simp add: api_effect_def)

lemma effect_step: "pr_company_id p = Some c \<Longrightarrow> tenant_step c w w' \<Longrightarrow> api_effect p w w'"
  by (auto simp: api_effect_def)

lemma signed_in_Some [simp]: "signed_in f (Some p) token rq w = f p token rq w"
  by (simp add: signed_in_def)

lemma signed_in_None [simp]: "signed_in f None token rq w = (Inl Attribute_Error, w)"
  by (simp add: signed_in_def)

lemma on_world_effect:
  "(\<And>x w'. r = Inr (x, w') \<Longrightarrow> api_effect p w w') \<Longrightarrow> api_effect p w (snd (on_world w r))"
  by (auto simp: on_world_def split: sum.split prod.split)

lemma require_company_id_Inr: "require_company_id p = Inr c \<longleftrightarrow> pr_company_id p = Some c"
  by (auto simp: require_company_id_def split: option.splits)

lemma resolve_app_ref_Inr:
  "resolve_app_ref app_ref (Some c) d = Inr a \<Longrightarrow> a \<in> set (apps d) \<and> app_company_id a = c"
  by (auto simp: resolve_app_ref_def Let_def dest!: first_row_Some split: option.splits if_splits)

lemma find_app_Inr:
  "find_app p app_ref w = Inr a \<Longrightarrow> a \<in> set (apps (w_db w)) \<and> pr_company_id p = Some (app_company_id a)"
  using resolve_app_ref_Inr by (fastforce simp: find_app_def res_simps require_company_id_Inr)

lemma scoped_app_Inr:
  "scoped_app p app_ref w = Inr a \<Longrightarrow> a \<in> set (apps (w_db w)) \<and> pr_company_id p = Some (app_company_id a)
     \<and> (pr_deploy_token_id p \<in> {None, Some []} \<or> is_preview_app a)"
  using find_app_Inr by (fastforce simp: scoped_app_def res_simps assert_deploy_token_preview_def split: if_splits)

lemma scoped_deployment_Inr:
  "scoped_deployment p app_ref i w = Inr (a, r) \<Longrightarrow> a \<in> set (apps (w_db w)) \<and> pr_company_id p = Some (app_company_id a)
     \<and> (pr_deploy_token_id p \<in> {None, Some []} \<or> is_preview_app a) \<and> r \<in> set (deployments (w_db w)) \<and> dep_app r = app_id a"
  using scoped_app_Inr
  by (fastforce simp: scoped_deployment_def find_deployment_def res_simps dest: first_row_Some split: option.splits)

lemma health_effect [effects]: "snd (health_get ae user token rq w) = w"
  by (simp add: health_get_def Let_def)

lemma reads_effect [effects]:
  "api_effect p w (snd (access_get ae (Some p) token rq w))"
  "api_effect p w (snd (app_list_get ae (Some p) token rq w))"
  "api_effect p w (snd (app_get ae app_ref (Some p) token rq w))"
  "api_effect p w (snd (deployment_list_get ae app_ref (Some p) token rq w))"
  "api_effect p w (snd (token_list_get ae (Some p) token rq w))"
  "api_effect p w (snd (stats_get ae (Some p) token rq w))"
  by (simp_all add: access_get_def app_list_get_def app_get_def deployment_list_get_def token_list_get_def stats_get_def)

lemma access_target_company:
  "access_target p data = Inr (Inr c) \<Longrightarrow> pr_company_id p = Some c \<or> pr_is_staff p"
  by (auto simp: access_target_def require_company_id_def Let_def split: if_splits option.splits sum.splits)

lemma update_effect:
  "access_target p data = Inr (Inr c) \<Longrightarrow> update_access now c st u n (w_db w) = Inr (r, d) \<Longrightarrow> api_effect p w (w\<lparr>w_db := d\<rparr>)"
  using access_target_company tenant_step.update_access unfolding api_effect_def by blast

lemma access_post_effect [effects]: "api_effect p w (snd (access_post ae (Some p) token rq w))"
  unfolding access_post_def signed_in_Some
proof (rule on_world_effect, goal_cases)
  case (1 x w')
  then show ?case
    unfolding bind_res_Inr Let_def
    by (elim exE conjE) (auto simp: map_res_Inr intro: update_effect split: sum.splits if_splits prod.splits)
qed

lemma access_request_effect [effects]: "api_effect p w (snd (access_request_post ae (Some p) token rq w))"
  unfolding access_request_post_def signed_in_Some snd_conv
  by (rule on_world_effect)
    (auto simp: res_simps require_company_id_Inr case_prod_beta intro!: effect_step tenant_step.request_access[OF surjective_pairing])

lemma preview_effect [effects]:
  assumes "env_ok (ae_env ae)"
  shows "api_effect p w (snd (preview_post ae (Some p) token rq w))"
  unfolding preview_post_def signed_in_Some snd_conv
  by (rule on_world_effect)
    (auto simp: res_simps require_company_id_Inr Let_def intro!: effect_step tenant_step.prepare[OF assms])

lemma app_list_post_effect [effects]:
  assumes "env_ok (ae_env ae)"
  shows "api_effect p w (snd (app_list_post ae (Some p) token rq w))"
  unfolding app_list_post_def signed_in_Some snd_conv
  by (rule on_world_effect)
    (auto simp: res_simps require_company_id_Inr Let_def intro!: effect_step tenant_step.create_app[OF assms])

lemma app_delete_effect [effects]: "api_effect p w (snd (app_delete ae app_ref (Some p) token rq w))"
  unfolding app_delete_def signed_in_Some snd_conv
  by (rule on_world_effect) (auto simp: res_simps dest!: find_app_Inr intro!: effect_step tenant_step.delete_app)

lemma renew_effect [effects]: "api_effect p w (snd (renew_expiry_post ae app_ref (Some p) token rq w))"
  unfolding renew_expiry_post_def signed_in_Some snd_conv Let_def
  by (rule on_world_effect) (auto simp: res_simps dest!: find_app_Inr intro!: effect_step tenant_step.renew)

lemma deployment_list_post_effect [effects]:
  assumes "env_ok (ae_env ae)"
  shows "api_effect p w (snd (deployment_list_post ae app_ref (Some p) token rq w))"
  unfolding deployment_list_post_def signed_in_Some snd_conv
  by (rule on_world_effect)
    (auto simp: res_simps dest!: scoped_app_Inr intro!: effect_step tenant_step.create_deployment[OF assms])

lemma upload_body_effect:
  "snd (upload_body ae r rq w) = w
   \<or> (\<exists>f cl r'. upload_deployment_artifact (ae_env ae) r f cl w = Inr (r', snd (upload_body ae r rq w)))"
  by (fastforce simp: upload_body_def Let_def split: sum.splits option.splits prod.splits form_files.splits)

lemma upload_effect [effects]: "api_effect p w (snd (upload_put ae app_ref i (Some p) token rq w))"
proof (cases "scoped_deployment p app_ref i w")
  case (Inr ar)
  obtain a r where ar: "ar = (a, r)" by (metis prod.exhaust)
  note S = scoped_deployment_Inr[OF Inr[unfolded ar]]
  have "api_effect p w (snd (upload_body ae r rq w))"
    using upload_body_effect[of ae r rq w] S tenant_step.upload effect_step by (metis effect_refl)
  then show ?thesis by (simp add: upload_put_def Inr ar)
qed (simp add: upload_put_def)

lemma finalize_effect [effects]: "api_effect p w (snd (finalize_post ae app_ref i (Some p) token rq w))"
proof (cases "scoped_deployment p app_ref i w")
  case (Inr ar)
  obtain a r where ar: "ar = (a, r)" by (metis prod.exhaust)
  note S = scoped_deployment_Inr[OF Inr[unfolded ar]]
  obtain res w' where f: "finalize_deployment (ae_env ae) a r (Some (pr_user_id p)) (pr_email p) token w = (res, w')"
    by (metis prod.exhaust)
  have "api_effect p w w'" using S tenant_step.finalize[OF _ refl _ _ f] effect_step by blast
  then show ?thesis by (simp add: finalize_post_def Inr ar f split: sum.split prod.split option.split)
qed (simp add: finalize_post_def)

lemma rollback_effect [effects]: "api_effect p w (snd (rollback_post ae app_ref i (Some p) token rq w))"
proof (cases "scoped_deployment p app_ref i w")
  case (Inr ar)
  obtain a r where ar: "ar = (a, r)" by (metis prod.exhaust)
  note S = scoped_deployment_Inr[OF Inr[unfolded ar]]
  have "api_effect p w w'" if "rollback_deployment (ae_env ae) a r w = Inr (r', w')" for r' w'
    using S tenant_step.rollback[OF _ refl _ _ that] effect_step by blast
  then show ?thesis by (simp add: rollback_post_def Inr ar split: sum.split prod.split)
qed (simp add: rollback_post_def)

lemma token_list_post_effect [effects]: "api_effect p w (snd (token_list_post ae (Some p) token rq w))"
proof (cases "body_dict rq")
  case (Inr data)
  show ?thesis
    unfolding token_list_post_def signed_in_Some Inr sum.case snd_conv
    by (rule on_world_effect) (auto simp: res_simps require_company_id_Inr intro!: effect_step tenant_step.create_token)
qed (simp add: token_list_post_def)

lemma token_revoke_effect [effects]: "api_effect p w (snd (token_revoke_post ae i (Some p) token rq w))"
  unfolding token_revoke_post_def signed_in_Some snd_conv
proof (rule on_world_effect, goal_cases)
  case (1 x w')
  then obtain c t where t: "pr_company_id p = Some c"
    "first_row (\<lambda>t. tok_id t = i \<and> tok_company_id t = c) (tokens (w_db w)) = Some t"
    "w' = w\<lparr>w_db := snd (revoke_deploy_token (env_now (ae_env ae)) t (w_db w))\<rparr>"
    by (auto simp: res_simps require_company_id_Inr case_prod_beta split: option.splits)
  have "t \<in> set (tokens (w_db w))" "tok_company_id t = c" using first_row_Some[OF t(2)] by auto
  then show ?case unfolding t(3) by (intro effect_step[OF t(1)] tenant_step.revoke_token[OF _ _ surjective_pairing])
qed

lemma ensure_states_only: "\<exists>js. ensure_states now d = d\<lparr>job_states := js\<rparr>"
proof -
  have "\<exists>js. fold (\<lambda>s. ensure_state now (spec_name s)) xs d = d\<lparr>job_states := js\<rparr>" for xs
  proof (induction xs arbitrary: d)
    case Nil
    show ?case by (rule exI[of _ "job_states d"]) simp
  next
    case (Cons x xs)
    have "\<exists>js. ensure_state now (spec_name x) d = d\<lparr>job_states := js\<rparr>"
      by (auto simp: ensure_state_def intro: exI[of _ "job_states d"])
    then obtain js where j: "ensure_state now (spec_name x) d = d\<lparr>job_states := js\<rparr>" by blast
    show ?case using Cons.IH[of "d\<lparr>job_states := js\<rparr>"] by (simp add: j)
  qed
  then show ?thesis by (simp add: ensure_states_def)
qed

lemma scrape_effect: "api_effect p w (snd (scrape ae c w))"
proof (cases c)
  case None
  obtain js where "ensure_states (env_now (ae_env ae)) (w_db w) = (w_db w)\<lparr>job_states := js\<rparr>"
    using ensure_states_only by blast
  then show ?thesis using None by (auto simp: scrape_def metrics_families_def collect_jobs_def Let_def api_effect_def)
qed (simp add: scrape_def metrics_families_def)

lemma metrics_effect [effects]:
  "api_effect p w (snd (metrics_get ae (Some p) token rq w))"
  "api_effect p w (snd (global_metrics_get ae (Some p) token rq w))"
  by (auto simp: metrics_get_def global_metrics_get_def scrape_effect split: sum.split)

text \<open>All handlers.\<close>

lemma handler_effect:
  assumes "handler_of (hosting_view ae r) m = Some h" "env_ok (ae_env ae)"
  shows "api_effect p w (snd (h (Some p) token rq w))"
  using assms(1) assms(2)
  by (cases r) (auto simp: handler_of_def mk_view_def effects split: if_splits)

lemma anonymous_effect:
  assumes "handler_of (hosting_view ae r) m = Some h"
  shows "snd (h None token rq w) = w"
  using assms
  by (cases r) (auto simp: handler_of_def mk_view_def effects access_get_def access_post_def access_request_post_def preview_post_def
      app_list_get_def app_list_post_def app_get_def app_delete_def renew_expiry_post_def deployment_list_get_def
      deployment_list_post_def upload_put_def finalize_post_def rollback_post_def token_list_get_def token_list_post_def
      token_revoke_post_def stats_get_def metrics_get_def global_metrics_get_def split: if_splits)

section \<open>The effect of a request\<close>

text \<open>Who the credentials of a request name; a view without authentication classes does not look at them.\<close>

definition api_caller :: "api_env \<Rightarrow> api_request \<Rightarrow> server \<Rightarrow> (exn + (principal \<times> string option) option)" where
  "api_caller ae rq sv =
     fst (authenticate_request (ae_hash ae) (env_now (ae_env ae)) (ae_jwt ae) (ae_auth ae) (rq_header rq)
            (w_db (sv_world sv)) (sv_jwks sv))"

definition server_ok :: "server \<Rightarrow> bool" where
  "server_ok sv \<longleftrightarrow> wf_db (w_db (sv_world sv)) \<and> tokens_ok (w_db (sv_world sv))"

lemma resolve_deploy_token_use:
  assumes "resolve_deploy_token h now raw d = (r, d')"
  shows "(r = Inl e \<longrightarrow> d' = d) \<and> (\<forall>t. r = Inr t \<longrightarrow> t \<in> set (tokens d)
     \<and> (d' = d \<or> d' = update_token (tok_id t) (\<lambda>x. x\<lparr>tok_last_used_at := Some now\<rparr>) d))"
  using assms by (auto simp: resolve_deploy_token_def Let_def dest!: first_row_Some split: option.splits if_splits)

lemma authenticate_effect:
  assumes "authenticate_request h now jx au header d c = (r, d', c')"
  shows "d' = d \<or> (\<exists>p t. r = Inr (Some (p, None)) \<and> t \<in> set (tokens d) \<and> pr_company_id p = Some (tok_company_id t)
     \<and> d' = update_token (tok_id t) (\<lambda>x. x\<lparr>tok_last_used_at := Some now\<rparr>) d)"
  using assms
  by (auto simp: authenticate_request_def deploy_token_authenticate_def dest!: resolve_deploy_token_use
      split: prod.splits sum.splits option.splits list.splits if_splits)

lemma authentication_effect:
  assumes "perform_authentication ae v rq sv = (r, sv1)"
  shows "r = (if vw_auth v then api_caller ae rq sv else Inr None) \<and> (sv_world sv1 = sv_world sv
     \<or> (\<exists>p c. r = Inr (Some (p, None)) \<and> pr_company_id p = Some c \<and> tenant_step c (sv_world sv) (sv_world sv1)))"
proof (cases "vw_auth v")
  case True
  obtain d c where a: "authenticate_request (ae_hash ae) (env_now (ae_env ae)) (ae_jwt ae) (ae_auth ae) (rq_header rq)
      (w_db (sv_world sv)) (sv_jwks sv) = (r, d, c)" and sv1: "sv_world sv1 = (sv_world sv)\<lparr>w_db := d\<rparr>"
    using assms True by (auto simp: perform_authentication_def split: prod.splits)
  have "sv_world sv1 = sv_world sv
      \<or> (\<exists>p c. r = Inr (Some (p, None)) \<and> pr_company_id p = Some c \<and> tenant_step c (sv_world sv) (sv_world sv1))"
    using authenticate_effect[OF a] tenant_step.use_token unfolding sv1 by fastforce
  then show ?thesis using a True by (simp add: api_caller_def)
qed (use assms in \<open>simp add: perform_authentication_def\<close>)

lemma authentication_tokens:
  assumes "perform_authentication ae v rq sv = (r, sv1)"
  shows "\<exists>ts. sv_world sv1 = (sv_world sv)\<lparr>w_db := (w_db (sv_world sv))\<lparr>tokens := ts\<rparr>\<rparr>"
proof (cases "vw_auth v")
  case True
  obtain d c where a: "authenticate_request (ae_hash ae) (env_now (ae_env ae)) (ae_jwt ae) (ae_auth ae) (rq_header rq)
      (w_db (sv_world sv)) (sv_jwks sv) = (r, d, c)" and sv1: "sv_world sv1 = (sv_world sv)\<lparr>w_db := d\<rparr>"
    using assms True by (auto simp: perform_authentication_def split: prod.splits)
  show ?thesis unfolding sv1 by (subst authenticate_request_tables[OF a]) blast
next
  case False
  then show ?thesis using assms by (auto simp: perform_authentication_def intro: exI[of _ "tokens (w_db (sv_world sv))"])
qed

lemma check_throttles_world [simp]: "sv_world (snd (check_throttles ae v user rq sv)) = sv_world sv"
  by (simp add: check_throttles_def case_prod_beta split: option.split)

text \<open>A request: authentication, then at most one handler that its permissions let through.\<close>

lemma dispatch_effect:
  assumes "drf_dispatch ae v rq sv = (res, sv')" "perform_authentication ae v rq sv = (r, sv1)"
  shows "sv_world sv' = sv_world sv1
     \<or> (\<exists>who h. r = Inr who \<and> vw_permission v (map_option fst who) (rq_method rq) \<and> rq_method rq \<noteq> ''OPTIONS''
          \<and> handler_of v (rq_method rq) = Some h
          \<and> sv_world sv' = snd (h (map_option fst who) (case who of None \<Rightarrow> None | Some (_, t) \<Rightarrow> t) rq (sv_world sv1)))"
  using assms
  by (auto simp: drf_dispatch_def call_handler_def case_prod_beta
      split: sum.splits if_splits prod.splits option.splits bool.splits)

lemma dispatch_cases:
  assumes "drf_dispatch ae v rq sv = (res, sv')" "perform_authentication ae v rq sv = (r, sv1)"
    and anon: "\<And>h tok. handler_of v (rq_method rq) = Some h \<Longrightarrow> snd (h None tok rq (sv_world sv1)) = sv_world sv1"
  obtains (idle) "sv_world sv' = sv_world sv1"
  | (handled) p t h where "r = Inr (Some (p, t))" "vw_permission v (Some p) (rq_method rq)" "rq_method rq \<noteq> ''OPTIONS''"
      "handler_of v (rq_method rq) = Some h" "sv_world sv' = snd (h (Some p) t rq (sv_world sv1))"
  using dispatch_effect[OF assms(1,2)]
proof (elim disjE exE conjE)
  fix who h
  assume h: "r = Inr who" "vw_permission v (map_option fst who) (rq_method rq)" "rq_method rq \<noteq> ''OPTIONS''"
    "handler_of v (rq_method rq) = Some h"
    "sv_world sv' = snd (h (map_option fst who) (case who of None \<Rightarrow> None | Some (_, t) \<Rightarrow> t) rq (sv_world sv1))"
  show thesis
  proof (cases who)
    case None
    then show thesis using h(4,5) anon idle by simp
  next
    case (Some q)
    then show thesis using h handled[of "fst q" "snd q" h] by (cases q) simp
  qed
qed (rule idle)

lemma hosting_api_effect:
  assumes "hosting_api ae path rq sv = (res, sv')" "env_ok (ae_env ae)"
  shows "sv_world sv' = sv_world sv
     \<or> (\<exists>p t w1. api_caller ae rq sv = Inr (Some (p, t)) \<and> api_effect p w1 (sv_world sv')
          \<and> (w1 = sv_world sv \<or> (\<exists>c. pr_company_id p = Some c \<and> tenant_step c (sv_world sv) w1)))"
proof (cases "hosting_route path")
  case None
  then show ?thesis using assms(1) by (simp add: hosting_api_def)
next
  case (Some rt)
  let ?v = "hosting_view ae rt"
  have d: "drf_dispatch ae ?v rq sv = (res, sv')" using assms(1) Some by (simp add: hosting_api_def)
  obtain r sv1 where a: "perform_authentication ae ?v rq sv = (r, sv1)" by (metis prod.exhaust)
  note A = authentication_effect[OF a]
  have one: ?thesis if "r = Inr (Some (p, t))" "api_effect p (sv_world sv1) (sv_world sv')" for p t
  proof -
    have "api_caller ae rq sv = Inr (Some (p, t))" using A that(1) by (auto split: if_splits)
    moreover have "sv_world sv1 = sv_world sv \<or> (\<exists>c. pr_company_id p = Some c \<and> tenant_step c (sv_world sv) (sv_world sv1))"
      using A that(1) by auto
    ultimately show ?thesis using that(2) by blast
  qed
  show ?thesis
  proof (rule dispatch_cases[OF d a])
    fix h tok assume "handler_of ?v (rq_method rq) = Some h"
    then show "snd (h None tok rq (sv_world sv1)) = sv_world sv1" by (rule anonymous_effect)
  next
    assume "sv_world sv' = sv_world sv1"
    then show ?thesis using A one by (metis effect_refl)
  next
    fix p t h
    assume "r = Inr (Some (p, t))" "handler_of ?v (rq_method rq) = Some h" "sv_world sv' = snd (h (Some p) t rq (sv_world sv1))"
    then show ?thesis using one handler_effect assms(2) by metis
  qed
qed

section \<open>Histories of requests\<close>

inductive served :: "server \<Rightarrow> bool" where
  start: "w_db (sv_world sv) = empty_db \<Longrightarrow> served sv"
| request: "served sv \<Longrightarrow> env_ok (ae_env ae) \<Longrightarrow> hosting_api ae path rq sv = (res, sv') \<Longrightarrow> served sv'"

definition db_inv :: "db \<Rightarrow> bool" where
  "db_inv d \<longleftrightarrow> wf_db d \<and> tokens_ok d \<and> draft_empty d \<and> no_ready d"

lemma db_inv_cong:
  "db_inv d \<Longrightarrow> apps d' = apps d \<Longrightarrow> deployments d' = deployments d \<Longrightarrow> accesses d' = accesses d \<Longrightarrow> tokens_ok d' \<Longrightarrow> db_inv d'"
  using wf_db_cong[of d' d] by (simp add: db_inv_def draft_empty_def no_ready_def)

lemma tenant_step_inv:
  assumes "tenant_step c w w'" "db_inv (w_db w)"
  shows "db_inv (w_db w')"
proof -
  have i: "wf_db (w_db w)" "tokens_ok (w_db w)" "draft_empty (w_db w)" "no_ready (w_db w)"
    using assms(2) by (auto simp: db_inv_def)
  note t = tenant_step_tokens[OF assms(1) i(1,2)]
  show ?thesis
    using tenant_step_service[OF assms(1)]
  proof
    assume s: "service_step w w'"
    then show ?thesis
      using step_wf[OF s i(1)] step_evolves[OF s i(1,3)] evolves_draft evolves_no_ready i t by (simp add: db_inv_def)
  next
    assume w': "w' = w\<lparr>w_db := (w_db w)\<lparr>tokens := tokens (w_db w')\<rparr>\<rparr>"
    show ?thesis by (rule db_inv_cong[OF assms(2) _ _ _ t]) (subst w', simp)+
  qed
qed

lemma api_effect_inv:
  assumes "api_effect p w w'" "db_inv (w_db w)"
  shows "db_inv (w_db w')"
  using assms tenant_step_inv db_inv_cong[OF assms(2), of "(w_db w)\<lparr>job_states := js\<rparr>" for js]
  by (auto simp: api_effect_def db_inv_def tokens_ok_def)

lemma hosting_api_inv:
  assumes "hosting_api ae path rq sv = (res, sv')" "env_ok (ae_env ae)" "db_inv (w_db (sv_world sv))"
  shows "db_inv (w_db (sv_world sv'))"
  using hosting_api_effect[OF assms(1,2)] assms(3) tenant_step_inv api_effect_inv by metis

lemma served_inv: "served sv \<Longrightarrow> db_inv (w_db (sv_world sv))"
proof (induction rule: served.induct)
  case (start sv)
  then show ?case using wf_empty by (simp add: db_inv_def tokens_ok_def draft_empty_def no_ready_def empty_db_def)
next
  case (request sv ae path rq res sv')
  then show ?case using hosting_api_inv by blast
qed

end
