(* ===== verification/Api_Props.thy ===== *)
theory Api_Props
  imports Api_Laws
begin

text \<open>
  The properties of the hosting API: every history of requests keeps the invariants, a caller who is not staff
  changes nothing outside its own company, and a deploy token changes nothing but previews.
\<close>

section \<open>Deploy tokens\<close>

definition kept :: "app \<Rightarrow> db \<Rightarrow> db \<Rightarrow> bool" where
  "kept b d d' \<longleftrightarrow> b \<in> set (apps d') \<and> app_deployments (app_id b) d' = app_deployments (app_id b) d"

text \<open>The routes and methods that \<^verbatim>\<open>deploy_token_methods\<close> lists.\<close>

fun token_route :: "route \<Rightarrow> string \<Rightarrow> bool" where
  "token_route R_Preview m = (m = ''POST'')"
| "token_route (R_Upload a i) m = (m \<in> {''PUT'', ''POST''})"
| "token_route (R_Finalize a i) m = (m = ''POST'')"
| "token_route _ m = False"

lemma kept_refl: "b \<in> set (apps d) \<Longrightarrow> kept b d d"
  by (simp add: kept_def)

lemma kept_trans: "kept b d1 d2 \<Longrightarrow> kept b d2 d3 \<Longrightarrow> kept b d1 d3"
  by (simp add: kept_def)

lemma app_frame_kept:
  assumes "app_frame a d d'" "b \<in> set (apps d)" "app_id b \<noteq> app_id a"
  shows "kept b d d'"
proof -
  have "b \<in> set (filter (\<lambda>b. app_id b \<noteq> app_id a) (apps d'))" using assms by (simp add: app_frame_def)
  moreover have "filter (\<lambda>r. dep_app r = app_id b) (deployments d') = filter (\<lambda>r. dep_app r = app_id b) (deployments d)"
    by (rule filter_coarser[where p = "\<lambda>r. dep_app r \<noteq> app_id a"]) (use assms in \<open>auto simp: app_frame_def\<close>)
  ultimately show ?thesis by (simp add: kept_def app_deployments_def)
qed

lemma preview_app_other:
  "keys_ok d \<Longrightarrow> a \<in> set (apps d) \<Longrightarrow> b \<in> set (apps d) \<Longrightarrow> is_preview_app a \<Longrightarrow> \<not> is_preview_app b \<Longrightarrow> app_id b \<noteq> app_id a"
  using same_app_row by metis

lemma kept_create_preview_app:
  assumes "create_preview_app env c u dn em w = Inr (a, w')" "b \<in> set (apps (w_db w))"
  shows "kept b (w_db w) (w_db w')" "app_id b \<noteq> app_id a" "a \<in> set (apps (w_db w'))"
  using assms by (auto simp: create_preview_app_def res_simps Let_def insert_app_Inr kept_def app_deployments_def split: if_splits)

lemma kept_prepare:
  assumes wf: "wf_db (w_db w)" and e: "env_ok env"
    and p: "prepare_preview_deploy env c u s dn av sv tok em True w = Inr (a, r, res, w')"
    and b: "b \<in> set (apps (w_db w))" "\<not> is_preview_app b"
  shows "kept b (w_db w) (w_db w')"
proof -
  obtain w1 w2 where c: "create_deployment env a av sv (Some u) False em w1 = Inr (r, w2)" "w_db w' = w_db w2"
    and src: "create_preview_app env c u dn em w = Inr (a, w1)
     \<or> w1 = w \<and> a \<in> set (apps (w_db w)) \<and> app_company_id a = c \<and> (True \<longrightarrow> is_preview_app a)"
    by (rule prepare_parts[OF p])
  have k: "keys_ok (w_db w)" using wf by (simp add: wf_db_def)
  have 1: "kept b (w_db w) (w_db w1) \<and> app_id b \<noteq> app_id a \<and> a \<in> set (apps (w_db w1)) \<and> keys_ok (w_db w1)"
    using src
  proof
    assume n: "create_preview_app env c u dn em w = Inr (a, w1)"
    then have "keys_ok (w_db w1)" using wf_create_preview_app[OF wf e n] by (simp add: wf_db_def)
    then show ?thesis using kept_create_preview_app[OF n b(1)] by blast
  next
    assume "w1 = w \<and> a \<in> set (apps (w_db w)) \<and> app_company_id a = c \<and> (True \<longrightarrow> is_preview_app a)"
    then show ?thesis using preview_app_other[OF k _ b(1) _ b(2)] kept_refl[OF b(1)] k by blast
  qed
  have "kept b (w_db w1) (w_db w2)"
    by (rule app_frame_kept[OF frame_create_deployment[OF _ _ c(1)]]) (use 1 in \<open>auto simp: kept_def\<close>)
  then show ?thesis using 1 kept_trans c(2) by metis
qed

lemma token_handler_kept:
  assumes h: "handler_of (hosting_view ae rt) m = Some h" "token_route rt m"
    and wf: "wf_db (w_db w)" and e: "env_ok (ae_env ae)" and p: "pr_deploy_token_id p = Some (x # xs)"
    and b: "b \<in> set (apps (w_db w))" "\<not> is_preview_app b"
  shows "kept b (w_db w) (w_db (snd (h (Some p) token rq w)))"
proof -
  have k: "keys_ok (w_db w)" using wf by (simp add: wf_db_def)
  have dep: "app_id b \<noteq> app_id a \<and> a \<in> set (apps (w_db w)) \<and> r \<in> set (deployments (w_db w)) \<and> dep_app r = app_id a"
    if "scoped_deployment p app_ref i w = Inr (a, r)" for app_ref i a r
    using scoped_deployment_Inr[OF that] preview_app_other[OF k _ b(1) _ b(2)] p by auto
  have fin: "kept b (w_db w) (w_db (snd (finalize_post ae app_ref i (Some p) token rq w)))" for app_ref i
    using dep app_frame_kept[OF frame_finalize[OF k] b(1)] kept_refl[OF b(1)]
    by (fastforce simp: finalize_post_def split: sum.split prod.split option.split)
  have up: "kept b (w_db w) (w_db (snd (upload_put ae app_ref i (Some p) token rq w)))" for app_ref i
  proof (cases "scoped_deployment p app_ref i w")
    case (Inr ar)
    obtain a r where ar: "ar = (a, r)" by (metis prod.exhaust)
    note D = dep[OF Inr[unfolded ar]]
    have "kept b (w_db w) (w_db (snd (upload_body ae r rq w)))"
      using upload_body_effect[of ae r rq w] D app_frame_kept[OF frame_upload[OF k] b(1)] kept_refl[OF b(1)] by metis
    then show ?thesis by (simp add: upload_put_def Inr ar)
  qed (simp add: upload_put_def kept_refl[OF b(1)])
  have prep: "kept b (w_db w) (w_db (snd (preview_post ae (Some p) token rq w)))"
    using kept_prepare[OF wf e _ b] kept_refl[OF b(1)] p
    by (auto simp: preview_post_def on_world_def res_simps Let_def split: sum.splits prod.splits)
  show ?thesis
    using h fin up prep by (cases rt) (auto simp: handler_of_def mk_view_def split: if_splits)
qed

section \<open>A server for the examples\<close>

text \<open>Company 1 of \<open>demo_db\<close> with one deploy token; its hash is the identity.\<close>

definition demo_raw :: string where
  "demo_raw = TOKEN_PREFIX @ ''0123456789''"

definition demo_token :: deploy_token where
  "demo_token = \<lparr>tok_id = ''t1'', tok_company_id = 1, tok_name = ''ci'', tok_prefix = take LOOKUP_LEN demo_raw, tok_hash = demo_raw,
     tok_created_by_id = Some 7, tok_created_at = 0, tok_last_used_at = None, tok_expires_at = None, tok_revoked_at = None\<rparr>"

definition demo_server :: server where
  "demo_server = \<lparr>sv_world = run0\<lparr>w_db := demo_db\<lparr>tokens := [demo_token]\<rparr>\<rparr>, sv_throttle = (\<lambda>_. None),
     sv_jwks = new_client (jx_parse_jwk demo_jwt) 0 900 2 (Some demo_jwks)\<rparr>"

definition demo_ae :: api_env where
  "demo_ae = \<lparr>ae_env = demo_env\<lparr>env_fresh := (\<lambda>s n. if n = 0 then ''a9'' else ''d9'')\<rparr>, ae_hash = (\<lambda>s. s), ae_urlsafe = ''u'',
     ae_jwt = demo_jwt, ae_auth = demo_auth, ae_limits = \<lparr>HOSTING_RATE_LIMIT_ENABLED = False, HOSTING_RATE_LIMITS = (\<lambda>_. None)\<rparr>,
     ae_trusted = [], ae_clock = 0, ae_version = ''1'', ae_redis_up = None, ae_beat = None, ae_repr = (\<lambda>_. [])\<rparr>"

definition demo_request :: "string \<Rightarrow> string \<Rightarrow> dict \<Rightarrow> api_request" where
  "demo_request m header body = \<lparr>rq_method = m, rq_header = header, rq_remote = None, rq_xff = None, rq_query = [],
     rq_data = Inr (JDict body), rq_content_length = [], rq_content_type = [], rq_files = Form_Files [], rq_stream = None\<rparr>"


section \<open>The properties\<close>

text \<open>C14. Every history of requests to the hosting API, in any order and by any callers, keeps the tables well-formed:
  keys are unique, every deployment belongs to an existing app and keeps its storage prefix, an app points to
  its active deployment and to nothing else, drafts are empty, no deployment is ever in the status ready, and the
  identifiers of deploy tokens are distinct.\<close>

theorem served_well_formed:
  assumes "served sv"
  shows "wf_db (w_db (sv_world sv)) \<and> draft_empty (w_db (sv_world sv)) \<and> no_ready (w_db (sv_world sv))
    \<and> distinct (map tok_id (tokens (w_db (sv_world sv))))"
  using served_inv[OF assms] by (auto simp: db_inv_def tokens_ok_def)

text \<open>The demo user of company 3 asks for access.\<close>

definition ask_request :: api_request where
  "ask_request = demo_request ''POST'' ''Bearer a.b.c'' []"

definition empty_server :: server where
  "empty_server = demo_server\<lparr>sv_world := run0\<rparr>"

lemma ask_run:
  "map acc_company_id (accesses (w_db (sv_world (snd (hosting_api demo_ae ''access/request'' ask_request empty_server))))) = [3]"
  by code_simp

lemma demo_ae_ok: "env_ok (ae_env demo_ae)"
  by code_simp

theorem served_well_formed_witness:
  "\<exists>sv. served sv \<and> wf_db (w_db (sv_world sv)) \<and> map acc_company_id (accesses (w_db (sv_world sv))) = [3]"
proof -
  have "served empty_server" by (rule served.start) (simp add: empty_server_def run0_def)
  then have s: "served (snd (hosting_api demo_ae ''access/request'' ask_request empty_server))"
    by (rule served.request[OF _ demo_ae_ok, OF _ surjective_pairing])
  from served_well_formed[OF s] have "wf_db (w_db (sv_world (snd (hosting_api demo_ae ''access/request'' ask_request empty_server))))"
    by (rule conjunct1)
  with s ask_run show ?thesis by (intro exI conjI)
qed

text \<open>C5. Isolation of companies, for every route, method and body: a request of a caller who is not staff changes no
  app, deployment, access row or deploy token of another company, and adds events and deliveries of its own
  company only (rules, attempts, runs and company deletions stay as they were); without a company it changes nothing.
  A request whose credentials are refused or absent changes nothing at all. A scrape of the global metrics
  may create the rows of the job states.\<close>

theorem api_company_isolation:
  assumes ok: "server_ok sv" and e: "env_ok (ae_env ae)" and h: "hosting_api ae path rq sv = (res, sv')"
  shows "case api_caller ae rq sv of
      Inr (Some (p, t)) \<Rightarrow> \<not> pr_is_staff p \<longrightarrow>
        (let d = w_db (sv_world sv); d' = (w_db (sv_world sv'))\<lparr>job_states := job_states d\<rparr>
         in case pr_company_id p of None \<Rightarrow> d' = d | Some c \<Rightarrow> company_frame c d d')
    | _ \<Rightarrow> sv_world sv' = sv_world sv"
proof -
  let ?w = "sv_world sv" and ?w' = "sv_world sv'"
  note E = hosting_api_effect[OF h e]
  have wf: "wf_db (w_db ?w)" "tokens_ok (w_db ?w)" using ok by (auto simp: server_ok_def)
  have js: "d'\<lparr>job_states := job_states d\<rparr> = d'" if "company_frame c d d'" for c d d'
    using that by (simp add: company_frame_def emitted_def)
  have main: "case pr_company_id p of None \<Rightarrow> (w_db ?w')\<lparr>job_states := job_states (w_db ?w)\<rparr> = w_db ?w
      | Some c \<Rightarrow> company_frame c (w_db ?w) ((w_db ?w')\<lparr>job_states := job_states (w_db ?w)\<rparr>)"
    if a: "api_caller ae rq sv = Inr (Some (p, t))" and ns: "\<not> pr_is_staff p" for p t
  proof (cases "?w' = ?w")
    case False
    then obtain w1 where ef: "api_effect p w1 ?w'"
      and w1: "w1 = ?w \<or> (\<exists>c. pr_company_id p = Some c \<and> tenant_step c ?w w1)"
      using E a by auto
    have f1: "wf_db (w_db w1) \<and> tokens_ok (w_db w1) \<and> (case pr_company_id p of None \<Rightarrow> w1 = ?w | Some c \<Rightarrow> company_frame c (w_db ?w) (w_db w1))"
      using w1 wf tenant_step_wf tenant_step_tokens tenant_step_frame by (fastforce split: option.split)
    show ?thesis
    proof (cases "\<exists>c. pr_company_id p = Some c \<and> tenant_step c w1 ?w'")
      case True
      then show ?thesis using f1 tenant_step_frame company_frame_trans js by fastforce
    next
      case False
      then obtain x where "?w' = w1 \<or> ?w' = w1\<lparr>w_db := (w_db w1)\<lparr>job_states := x\<rparr>\<rparr>"
        using ef ns unfolding api_effect_def by blast
      then have "(w_db ?w')\<lparr>job_states := y\<rparr> = (w_db w1)\<lparr>job_states := y\<rparr>" for y by auto
      then show ?thesis using f1 js by (auto split: option.splits)
    qed
  qed (simp split: option.split)
  show ?thesis
  proof (cases "\<exists>p t. api_caller ae rq sv = Inr (Some (p, t))")
    case True
    then show ?thesis using main by (auto simp: Let_def)
  next
    case False
    then show ?thesis using E by (auto split: sum.split option.split)
  qed
qed

text \<open>C6. The reach of a deploy token: whatever it calls, every app that is not a preview keeps its row and all its
  deployments; outside the routes and methods that opt in (preparing a preview, uploading and finalising) the answer is 403
  and no table changes but the use that was recorded for the token.\<close>

theorem deploy_token_scope:
  assumes ok: "server_ok sv" and e: "env_ok (ae_env ae)" and h: "hosting_api ae path rq sv = (res, sv')"
    and a: "api_caller ae rq sv = Inr (Some (p, t))" and p: "pr_deploy_token_id p = Some (x # xs)"
  shows "(\<forall>b\<in>set (apps (w_db (sv_world sv))). \<not> is_preview_app b \<longrightarrow> kept b (w_db (sv_world sv)) (w_db (sv_world sv')))
    \<and> (case hosting_route path of None \<Rightarrow> sv' = sv
       | Some rt \<Rightarrow> rt \<noteq> R_Health \<and> \<not> token_route rt (rq_method rq) \<longrightarrow>
           res = Inr (Handled 403)
           \<and> (\<exists>ts. sv_world sv' = (sv_world sv)\<lparr>w_db := (w_db (sv_world sv))\<lparr>tokens := ts\<rparr>\<rparr>))"
proof (cases "hosting_route path")
  case None
  then show ?thesis using h kept_refl by (auto simp: hosting_api_def)
next
  case (Some rt)
  let ?v = "hosting_view ae rt" and ?d = "w_db (sv_world sv)"
  have d: "drf_dispatch ae ?v rq sv = (res, sv')" using h Some by (simp add: hosting_api_def)
  obtain r sv1 where au: "perform_authentication ae ?v rq sv = (r, sv1)" by (metis prod.exhaust)
  note A = authentication_effect[OF au]
  obtain ts where w1: "sv_world sv1 = (sv_world sv)\<lparr>w_db := ?d\<lparr>tokens := ts\<rparr>\<rparr>"
    using authentication_tokens[OF au] by blast
  have wf1: "wf_db (w_db (sv_world sv1))"
    using ok wf_db_cong[of "w_db (sv_world sv1)" ?d] by (simp add: server_ok_def w1)
  have k1: "kept b ?d (w_db (sv_world sv1))" if "b \<in> set (apps ?d)" for b
    using that by (simp add: kept_def w1 app_deployments_def)
  have closed: "res = Inr (Handled 403) \<and> sv_world sv' = sv_world sv1" if "rt \<noteq> R_Health" "\<not> token_route rt (rq_method rq)"
  proof -
    have v: "vw_auth ?v" "\<not> vw_permission ?v (Some p) (rq_method rq)"
      using that p by (cases rt; auto simp: mk_view_def principals_only_def owners_only_def IsAuthenticatedPrincipal_def)+
    then have "r = Inr (Some (p, t))" using A a by simp
    then show ?thesis using d au v by (simp add: drf_dispatch_def)
  qed
  have "kept b (w_db (sv_world sv1)) (w_db (sv_world sv'))" if b: "b \<in> set (apps ?d)" "\<not> is_preview_app b" for b
  proof (rule dispatch_cases[OF d au])
    fix h tok assume "handler_of ?v (rq_method rq) = Some h"
    then show "snd (h None tok rq (sv_world sv1)) = sv_world sv1" by (rule anonymous_effect)
  next
    assume "sv_world sv' = sv_world sv1"
    then show ?thesis using k1[OF b(1)] by (simp add: kept_def)
  next
    fix q u f
    assume f: "r = Inr (Some (q, u))" "handler_of ?v (rq_method rq) = Some f"
      "sv_world sv' = snd (f (Some q) u rq (sv_world sv1))"
    have b1: "b \<in> set (apps (w_db (sv_world sv1)))" using k1[OF b(1)] by (simp add: kept_def)
    have q: "q = p" using A a f(1) by (auto split: if_splits)
    show ?thesis
    proof (cases "token_route rt (rq_method rq)")
      case True
      then show ?thesis using token_handler_kept[OF f(2) _ wf1 e p b1 b(2)] f(3) q by simp
    next
      case False
      have "rt = R_Health \<Longrightarrow> sv_world sv' = sv_world sv1" using f(2,3) by (auto simp: handler_of_def health_effect split: if_splits)
      then show ?thesis using closed False kept_refl[OF b1] by (cases "rt = R_Health") simp_all
    qed
  qed
  then have "\<forall>b\<in>set (apps ?d). \<not> is_preview_app b \<longrightarrow> kept b ?d (w_db (sv_world sv'))"
    using k1 kept_trans by blast
  then show ?thesis using closed w1 Some by auto
qed


text \<open>The demo user is of company 3; the deploy token of company 1 asks to delete an app.\<close>

definition drop_request :: api_request where
  "drop_request = demo_request ''DELETE'' (''Bearer '' @ demo_raw) []"

lemma demo_callers:
  "case api_caller demo_ae ask_request demo_server of Inr (Some (p, t)) \<Rightarrow> \<not> pr_is_staff p \<and> pr_company_id p = Some 3 | _ \<Rightarrow> False"
  "case api_caller demo_ae drop_request demo_server of Inr (Some (p, t)) \<Rightarrow> pr_deploy_token_id p = Some ''t1'' | _ \<Rightarrow> False"
  by code_simp+

lemma demo_server_ok: "server_ok demo_server"
  by code_simp

theorem api_company_isolation_witness:
  "\<exists>res sv' p t. hosting_api demo_ae ''access/request'' ask_request demo_server = (res, sv')
     \<and> api_caller demo_ae ask_request demo_server = Inr (Some (p, t)) \<and> \<not> pr_is_staff p
     \<and> company_frame 3 (w_db (sv_world demo_server))
         ((w_db (sv_world sv'))\<lparr>job_states := job_states (w_db (sv_world demo_server))\<rparr>)"
proof -
  obtain res sv' where h: "hosting_api demo_ae ''access/request'' ask_request demo_server = (res, sv')" by (metis prod.exhaust)
  obtain p t where a: "api_caller demo_ae ask_request demo_server = Inr (Some (p, t))" "\<not> pr_is_staff p" "pr_company_id p = Some 3"
    using demo_callers(1) by (auto split: sum.splits option.splits)
  show ?thesis using api_company_isolation[OF demo_server_ok demo_ae_ok h] h a by (auto simp: Let_def)
qed

theorem deploy_token_scope_witness:
  "\<exists>sv'. hosting_api demo_ae ''apps/a1'' drop_request demo_server = (Inr (Handled 403), sv')
     \<and> apps (w_db (sv_world sv')) = apps demo_db"
proof -
  obtain res sv' where h: "hosting_api demo_ae ''apps/a1'' drop_request demo_server = (res, sv')" by (metis prod.exhaust)
  obtain p t where a: "api_caller demo_ae drop_request demo_server = Inr (Some (p, t))" "pr_deploy_token_id p = Some ''t1''"
    using demo_callers(2) by (auto split: sum.splits option.splits)
  have r: "hosting_route ''apps/a1'' = Some (R_App ''a1'')" by code_simp
  show ?thesis
    using deploy_token_scope[OF demo_server_ok demo_ae_ok h a] h r by (auto simp: demo_server_def)
qed

end
