(* ===== verification/Api_Reads.thy ===== *)
theory Api_Reads
  imports Api_Laws
begin

text \<open>
  What a request may learn: the answer to a read of a user who is not staff is a function of the rows of the user's own
  company, whatever the tables hold for the others.
\<close>

section \<open>The rows of a company\<close>

definition same_company :: "company \<Rightarrow> db \<Rightarrow> db \<Rightarrow> bool" where
  "same_company c d e \<longleftrightarrow>
     filter (\<lambda>a. app_company_id a = c) (apps d) = filter (\<lambda>a. app_company_id a = c) (apps e)
     \<and> filter (of_company c d) (deployments d) = filter (of_company c e) (deployments e)
     \<and> filter (\<lambda>x. acc_company_id x = c) (accesses d) = filter (\<lambda>x. acc_company_id x = c) (accesses e)
     \<and> filter (\<lambda>t. tok_company_id t = c) (tokens d) = filter (\<lambda>t. tok_company_id t = c) (tokens e)"

lemma same_resolve:
  assumes "same_company c d e"
  shows "resolve_app_ref app_ref (Some c) d = resolve_app_ref app_ref (Some c) e"
  using assms by (simp add: resolve_app_ref_def same_company_def Let_def)

lemma same_find: "same_company c (w_db w) (w_db v) \<Longrightarrow> pr_company_id p = Some c \<Longrightarrow> find_app p app_ref w = find_app p app_ref v"
  using same_resolve by (simp add: find_app_def require_company_id_def)

lemma own_deployments:
  assumes "a \<in> set (apps d)" "app_company_id a = c"
  shows "app_deployments (app_id a) d = filter (\<lambda>r. dep_app r = app_id a) (filter (of_company c d) (deployments d))"
  using assms by (auto simp: app_deployments_def of_company_def has_row_iff intro!: filter_cong)

lemma same_deployments:
  assumes s: "same_company c d e" and a: "a \<in> set (apps d)" "app_company_id a = c"
  shows "app_deployments (app_id a) d = app_deployments (app_id a) e"
proof -
  have "a \<in> set (filter (\<lambda>a. app_company_id a = c) (apps d))" using a by simp
  also have "filter (\<lambda>a. app_company_id a = c) (apps d) = filter (\<lambda>a. app_company_id a = c) (apps e)"
    using s by (simp add: same_company_def)
  finally have "a \<in> set (apps e)" by simp
  then show ?thesis using own_deployments[OF a] own_deployments[of a e c] a(2) s by (simp add: same_company_def del: filter_filter)
qed

lemma company_deployments_eq: "company_deployments (Some c) d = filter (of_company c d) (deployments d)"
  by (auto simp: company_deployments_def in_scope_def of_company_def intro!: filter_cong)

lemma count_filter: "count_rows (\<lambda>x. q x \<and> p x) xs = count_rows p (filter q xs)"
  by (simp add: count_rows_def conj_commute)

lemma same_stats:
  assumes "same_company c d e"
  shows "build_hosting_stats (Some c) d = build_hosting_stats (Some c) e"
proof -
  have n: "count_rows (\<lambda>a. app_company_id a = c) (apps x) = length (filter (\<lambda>a. app_company_id a = c) (apps x))" for x
    by (simp add: count_rows_def)
  show ?thesis
    using assms by (simp add: build_hosting_stats_def company_deployments_eq in_scope_def n same_company_def Let_def)
qed

lemma same_snapshot:
  assumes "same_company c d e"
  shows "snapshot now c d = snapshot now c e"
  using assms by (simp add: snapshot_def company_deployments_eq same_company_def Let_def)

lemma same_metrics:
  assumes "same_company c d e"
  shows "fst (metrics_families cfg now up beat (Some c) d) = fst (metrics_families cfg now up beat (Some c) e)"
  using same_snapshot[OF assms] by (simp add: metrics_families_def hosting_families_def)

section \<open>Reads\<close>

lemma read_handler:
  assumes h: "handler_of (hosting_view ae rt) m = Some h" "m \<in> {''GET'', ''HEAD''}"
    and p: "pr_company_id p = Some c" "\<not> pr_is_staff p" "\<not> pr_access_global_metrics p"
    and s: "same_company c (w_db w) (w_db v)"
  shows "fst (h (Some p) token rq w) = fst (h (Some p) token rq v)"
proof -
  have c: "require_company_id p = Inr c" using p(1) by (simp add: require_company_id_def)
  have acc: "get_access c (w_db w) = get_access c (w_db v)"
  proof -
    have "first_row (\<lambda>_. True) (filter (\<lambda>x. acc_company_id x = c) (accesses (w_db w)))
        = first_row (\<lambda>_. True) (filter (\<lambda>x. acc_company_id x = c) (accesses (w_db v)))"
      using s by (simp add: same_company_def)
    then show ?thesis by (simp add: first_row_filter get_access_def)
  qed
  have deps: "map_res (\<lambda>a. newest_deployments a (w_db w)) (find_app p app_ref v) = map_res (\<lambda>a. newest_deployments a (w_db v)) (find_app p app_ref v)"
    for app_ref
  proof (cases "find_app p app_ref v")
    case (Inr a)
    then have "find_app p app_ref w = Inr a" using same_find[OF s p(1)] by simp
    from find_app_Inr[OF this] show ?thesis using same_deployments[OF s] p(1) Inr by (simp add: newest_deployments_def)
  qed simp
  have list: "fst (deployment_list_get ae app_ref (Some p) token rq w) = fst (deployment_list_get ae app_ref (Some p) token rq v)" for app_ref
    using deps[of app_ref] same_find[OF s p(1), of app_ref] by (cases "find_app p app_ref v") (simp_all add: deployment_list_get_def)
  have other: "fst (access_get ae (Some p) token rq w) = fst (access_get ae (Some p) token rq v)"
    "fst (app_list_get ae (Some p) token rq w) = fst (app_list_get ae (Some p) token rq v)"
    "fst (app_get ae app_ref (Some p) token rq w) = fst (app_get ae app_ref (Some p) token rq v)"
    "fst (token_list_get ae (Some p) token rq w) = fst (token_list_get ae (Some p) token rq v)"
    "fst (stats_get ae (Some p) token rq w) = fst (stats_get ae (Some p) token rq v)"
    "fst (global_metrics_get ae (Some p) token rq w) = fst (global_metrics_get ae (Some p) token rq v)"
    "fst (health_get ae (Some p) token rq w) = fst (health_get ae (Some p) token rq v)" for app_ref
    using s p(2,3) acc same_find[OF s p(1)] same_stats[OF s]
    by (simp_all add: access_get_def app_list_get_def app_get_def token_list_get_def stats_get_def global_metrics_get_def
        health_get_def c company_apps_def company_tokens_def same_company_def Let_def)
  have met: "fst (metrics_get ae (Some p) token rq w) = fst (metrics_get ae (Some p) token rq v)"
    using same_metrics[OF s] p(1) by (simp add: metrics_get_def metrics_company_from_token_def scrape_def case_prod_beta)
  show ?thesis
    using h list other met by (cases rt) (auto simp: handler_of_def mk_view_def split: if_splits)
qed

text \<open>C13. Confidentiality between companies: the answer to a read (any route, GET or HEAD) of a user with an identity token
  who is neither staff nor allowed the global metrics depends only on the rows of the user's own company. Two
  servers that agree on those rows, and on who the caller is and on the throttle, give the same answer.\<close>

theorem api_read_isolation:
  assumes m: "rq_method rq \<in> {''GET'', ''HEAD''}"
    and a: "api_caller ae rq sv = Inr (Some (p, Some raw))" "api_caller ae rq sv' = Inr (Some (p, Some raw))"
    and p: "pr_company_id p = Some c" "\<not> pr_is_staff p" "\<not> pr_access_global_metrics p"
    and s: "same_company c (w_db (sv_world sv)) (w_db (sv_world sv'))" "sv_throttle sv' = sv_throttle sv"
  shows "fst (hosting_api ae path rq sv) = fst (hosting_api ae path rq sv')"
proof (cases "hosting_route path")
  case (Some rt)
  let ?v = "hosting_view ae rt"
  obtain r sv1 where r: "perform_authentication ae ?v rq sv = (r, sv1)" by (metis prod.exhaust)
  obtain r' sv1' where r': "perform_authentication ae ?v rq sv' = (r', sv1')" by (metis prod.exhaust)
  have A: "r' = r \<and> (r = Inr None \<or> r = Inr (Some (p, Some raw))) \<and> sv_world sv1 = sv_world sv \<and> sv_world sv1' = sv_world sv'
      \<and> (r = Inr None \<longrightarrow> \<not> vw_auth ?v)"
    using authentication_effect[OF r] authentication_effect[OF r'] a by (auto split: if_splits)
  have t: "sv_throttle sv1' = sv_throttle sv1"
    using r r' s(2) by (auto simp: perform_authentication_def split: prod.splits if_splits)
  have th: "fst (check_throttles ae ?v u rq sv1') = fst (check_throttles ae ?v u rq sv1)" for u
    using t by (simp add: check_throttles_def case_prod_beta split: option.split)
  have W: "sv_world (snd (check_throttles ae ?v u rq sv1')) = sv_world sv'" "sv_world (snd (check_throttles ae ?v u rq sv1)) = sv_world sv" for u
    using A by simp_all
  have H: "fst (h (map_option fst who) tk rq (sv_world sv)) = fst (h (map_option fst who) tk rq (sv_world sv'))"
    if "handler_of ?v (rq_method rq) = Some h" "r = Inr who" for h who tk
  proof (cases who)
    case None
    then have "rt = R_Health" using A that(2) by (cases rt) (simp_all add: mk_view_def)
    then show ?thesis using that(1) by (auto simp: handler_of_def health_get_def Let_def split: if_splits)
  next
    case (Some q)
    then show ?thesis using read_handler[OF that(1) m p s(1)] A that(2) by auto
  qed
  have "fst (drf_dispatch ae ?v rq sv) = fst (drf_dispatch ae ?v rq sv')"
    using A th H m W unfolding drf_dispatch_def r r'
    by (auto simp: call_handler_def case_prod_beta split: sum.splits option.splits prod.splits bool.splits)
  then show ?thesis by (simp add: hosting_api_def Some)
qed (simp add: hosting_api_def)

text \<open>A reader of company 1, and two servers that differ in the rows of company 2.\<close>

definition reader_claims :: dict where
  "reader_claims = [(''sub'', JStr ''7''), (''company_id'', JInt 1)]"

definition reader_ae :: api_env where
  "reader_ae = \<lparr>ae_env = demo_env, ae_hash = (\<lambda>s. s), ae_urlsafe = ''u'',
     ae_jwt = demo_jwt\<lparr>jx_decode := (\<lambda>_ _ _. Inr reader_claims)\<rparr>, ae_auth = demo_auth,
     ae_limits = default_rate_limits, ae_trusted = [], ae_clock = 0, ae_version = ''1'', ae_redis_up = None, ae_beat = None,
     ae_repr = (\<lambda>_. [])\<rparr>"

definition reader_server :: "db \<Rightarrow> server" where
  "reader_server d = \<lparr>sv_world = run0\<lparr>w_db := d\<rparr>, sv_throttle = (\<lambda>_. None),
     sv_jwks = new_client (jx_parse_jwk demo_jwt) 0 900 2 (Some demo_jwks)\<rparr>"

definition list_request :: api_request where
  "list_request = \<lparr>rq_method = ''GET'', rq_header = ''Bearer a.b.c'', rq_remote = None, rq_xff = None, rq_query = [],
     rq_data = Inr JNull, rq_content_length = [], rq_content_type = [], rq_files = Form_Files [], rq_stream = None\<rparr>"

definition other_db :: db where
  "other_db = demo_db\<lparr>apps := filter (\<lambda>a. app_company_id a = 1) (apps demo_db),
     deployments := filter (\<lambda>r. dep_app r = ''a1'') (deployments demo_db)\<rparr>"

lemma same_demo: "same_company 1 demo_db other_db"
  by code_simp

lemma reader_callers:
  "case api_caller reader_ae list_request (reader_server demo_db) of
     Inr (Some (p, Some raw)) \<Rightarrow> raw = ''a.b.c'' \<and> pr_company_id p = Some 1 \<and> \<not> pr_is_staff p \<and> \<not> pr_access_global_metrics p
   | _ \<Rightarrow> False"
  by code_simp

lemma caller_no_token:
  assumes "tokens d = []" "tokens e = []"
  shows "api_caller reader_ae list_request (reader_server d) = api_caller reader_ae list_request (reader_server e)"
  by (simp add: api_caller_def reader_server_def authenticate_request_def deploy_token_authenticate_def
      resolve_deploy_token_def assms first_row_def split: list.split prod.split sum.split)

theorem api_read_isolation_witness:
  "fst (hosting_api reader_ae ''apps'' list_request (reader_server demo_db))
     = fst (hosting_api reader_ae ''apps'' list_request (reader_server other_db))
   \<and> apps demo_db \<noteq> apps other_db"
proof -
  obtain p raw where a: "api_caller reader_ae list_request (reader_server demo_db) = Inr (Some (p, Some raw))"
    "pr_company_id p = Some 1" "\<not> pr_is_staff p" "\<not> pr_access_global_metrics p"
    using reader_callers by (auto split: sum.splits option.splits)
  then have b: "api_caller reader_ae list_request (reader_server other_db) = Inr (Some (p, Some raw))"
    using caller_no_token[of other_db demo_db] by (simp add: other_db_def demo_db_def empty_db_def)
  have s: "same_company 1 (w_db (sv_world (reader_server demo_db))) (w_db (sv_world (reader_server other_db)))"
    using same_demo by (simp add: reader_server_def)
  have "rq_method list_request \<in> {''GET'', ''HEAD''}" by (simp add: list_request_def)
  from api_read_isolation[OF this a(1) b a(2-4) s] show ?thesis
    by (simp add: reader_server_def other_db_def demo_db_def demo_app_def)
qed

end
