(* ===== verification/Admin_Api.thy ===== *)
theory Admin_Api
  imports Api Delivery "HOL-Library.List_Lexorder" "HOL-Library.Char_ord" "HOL-Library.Product_Lexorder"
begin

text \<open>
  The admin endpoints for webhook rules and deliveries: \<^verbatim>\<open>apps/actions/admin_api_views.py\<close> with
  \<^verbatim>\<open>serializers.py\<close>, \<^verbatim>\<open>sample_data.py\<close> and \<^verbatim>\<open>webhook_test_send.py\<close>. The field types of the serializers, the parser of
  dates and the random draws are arguments.
\<close>

text \<open>
  \<open>ad_char\<close> is \<^verbatim>\<open>CharField\<close> with its maximal length, \<^verbatim>\<open>allow_blank\<close> and \<^verbatim>\<open>trim_whitespace\<close>; None is an invalid value.
  \<open>ad_parse_datetime\<close> raises \<^verbatim>\<open>ValueError\<close> on a well-formed date that does not exist.
\<close>

record admin_env =
  ad_api :: api_env
  ad_net :: net_env
  ad_char :: "nat option \<Rightarrow> bool \<Rightarrow> bool \<Rightarrow> json \<Rightarrow> string option"
  ad_url :: "json \<Rightarrow> string option"
  ad_bool :: "json \<Rightarrow> bool option"
  ad_parse_datetime :: "string \<Rightarrow> exn + time option"
  ad_random :: string
  ad_uuid :: "nat \<Rightarrow> uuid"

abbreviation ad_now :: "admin_env \<Rightarrow> time" where
  "ad_now ad \<equiv> env_now (ae_env (ad_api ad))"

definition failed :: "nat \<Rightarrow> answer" where
  "failed status = Answer status (JDict [(''error'', JNull)])"

definition not_found :: answer where
  "not_found = failed 404"

text \<open>A handler of a company: \<^verbatim>\<open>require_staff_or_company_owner\<close> first.\<close>

definition for_company :: "(principal \<Rightarrow> company \<Rightarrow> api_request \<Rightarrow> world \<Rightarrow> outcome) \<Rightarrow> handler" where
  "for_company f user token rq w =
     (case require_staff_or_company_owner user (query_param rq ''company_id'') of
        Inl status \<Rightarrow> (Inr (failed status), w)
      | Inr c \<Rightarrow> (case user of None \<Rightarrow> (Inl Attribute_Error, w) | Some p \<Rightarrow> f p c rq w))"

section \<open>Payloads\<close>

definition action_rule_payload :: "action_rule \<Rightarrow> dict" where
  "action_rule_payload r =
     [(''id'', JInt (int (rule_id r))), (''company_id'', JInt (rule_company_id r)), (''name'', JStr (rule_name r)),
      (''description'', JStr (rule_description r)), (''event_type'', JStr (rule_event_type r)), (''enabled'', JBool (rule_enabled r)),
      (''action_kind'', JStr (rule_action_kind r)),
      (''config'', JDict (mask_config_for_response (rule_config r) (rule_action_kind r))),
      (''created_at'', JTime (rule_created_at r)), (''updated_at'', JTime (rule_updated_at r))]"

fun attempt_status_str :: "attempt_status \<Rightarrow> string" where
  "attempt_status_str ATT_SUCCESS = ''success''"
| "attempt_status_str ATT_FAILURE = ''failure''"

fun attempt_trigger_str :: "attempt_trigger \<Rightarrow> string" where
  "attempt_trigger_str TRIGGER_DISPATCH = ''dispatch''"
| "attempt_trigger_str TRIGGER_AUTOMATIC_RETRY = ''automatic_retry''"

text \<open>
  The primary key of an attempt is not modelled, so the payload has no \<^verbatim>\<open>id\<close>; the trigger is one of the three of the
  model class, so \<^verbatim>\<open>row.trigger or None\<close> is its name.
\<close>

definition delivery_attempt_payload :: "bool \<Rightarrow> attempt \<Rightarrow> dict" where
  "delivery_attempt_payload include_run_id t =
     [(''status'', JStr (attempt_status_str (att_status t))), (''http_status'', opt_int (att_http_status t)),
      (''error_message'', JStr (att_error_message t)), (''attempt_number'', JInt (int (att_number t))),
      (''duration_ms'', opt_int (att_duration_ms t)), (''trigger'', JStr (attempt_trigger_str (att_trigger t))),
      (''created_at'', JTime (att_created_at t))]
     @ (if include_run_id then [(''scheduled_job_run_id'', opt_int (map_option int (att_scheduled_job_run_id t)))] else [])"

definition delivery_payload :: "db \<Rightarrow> bool \<Rightarrow> bool \<Rightarrow> outbox \<Rightarrow> dict" where
  "delivery_payload d include_attempts include_run_id row =
     (let rule = (case ob_action_rule row of None \<Rightarrow> None | Some i \<Rightarrow> first_row (\<lambda>r. rule_id r = i) (rules d))
      in [(''id'', JStr (ob_id row)), (''company_id'', JInt (ob_company_id row)),
          (''action_rule_id'', opt_int (map_option int (ob_action_rule row))),
          (''action_rule_name'', JStr (case rule of Some r \<Rightarrow> rule_name r | None \<Rightarrow> [])),
          (''action_kind'', JStr (case rule of Some r \<Rightarrow> rule_action_kind r
             | None \<Rightarrow> (case ob_delivery_kind row of KIND_WEBHOOK \<Rightarrow> ''webhook'' | KIND_EMAIL \<Rightarrow> ''email''))),
          (''event_type'', JStr (ob_event_type row)), (''status'', JStr (outbox_status_str (ob_status row))),
          (''attempt_count'', JInt (int (ob_attempt_count row))), (''next_attempt_at'', iso (ob_next_attempt_at row)),
          (''last_error'', JStr (ob_last_error row)), (''created_at'', JTime (ob_created_at row)),
          (''updated_at'', JTime (ob_updated_at row)), (''delivered_at'', iso (ob_delivered_at row))]
         @ (if include_attempts
            then [(''attempts'', JList (map (\<lambda>t. JDict (delivery_attempt_payload include_run_id t))
                    (sort_key (\<lambda>t. - att_created_at t) (filter (\<lambda>t. att_outbox t = ob_id row) (attempts d))))),
                  (''envelope'', JDict (ob_envelope row))]
            else []))"

section \<open>serializers.py\<close>

record rule_input =
  ri_name :: "string option"
  ri_description :: "string option"
  ri_event_type :: "string option"
  ri_enabled :: "bool option"
  ri_url :: "string option"
  ri_secret :: "string option"
  ri_authorization_header :: "string option"
  ri_allow_private_urls :: "bool option"

text \<open>A field that is not sent is absent from the validated data; a required one is an error unless the update is partial.\<close>

definition field_value :: "(json \<Rightarrow> 'a option) \<Rightarrow> bool \<Rightarrow> dict \<Rightarrow> string \<Rightarrow> exn + 'a option" where
  "field_value parse_field required data k =
     (case dict_get data k of
        None \<Rightarrow> if required then Inl Validation_Error else Inr None
      | Some v \<Rightarrow> (case parse_field v of None \<Rightarrow> Inl Validation_Error | Some x \<Rightarrow> Inr (Some x)))"

definition validate_event_type :: "bool \<Rightarrow> string option \<Rightarrow> exn + string option" where
  "validate_event_type create v =
     (case v of
        None \<Rightarrow> Inr None
      | Some t \<Rightarrow> if (create \<or> t \<noteq> []) \<and> \<not> is_webhook_event REGISTRY t then Inl Validation_Error else Inr (Some t))"

definition rule_serializer :: "admin_env \<Rightarrow> bool \<Rightarrow> json \<Rightarrow> exn + rule_input" where
  "rule_serializer ad create body =
     (case body of
        JDict data \<Rightarrow>
          bind_res (field_value (ad_char ad (Some 200) False True) create data ''name'') (\<lambda>name.
          bind_res (field_value (ad_char ad None True True) False data ''description'') (\<lambda>description.
          bind_res (bind_res (field_value (ad_char ad (Some 128) False True) create data ''event_type'') (validate_event_type create)) (\<lambda>event_type.
          bind_res (field_value (ad_bool ad) False data ''enabled'') (\<lambda>enabled.
          bind_res (field_value (ad_url ad) False data ''url'') (\<lambda>url.
          bind_res (field_value (ad_char ad None True False) False data ''secret'') (\<lambda>secret.
          bind_res (field_value (ad_char ad None True False) False data ''authorization_header'') (\<lambda>auth.
          map_res (\<lambda>private.
            \<lparr> ri_name = name, ri_description = description, ri_event_type = event_type, ri_enabled = enabled, ri_url = url,
              ri_secret = secret, ri_authorization_header = auth, ri_allow_private_urls = private \<rparr>)
            (field_value (ad_bool ad) False data ''allow_private_urls''))))))))
      | _ \<Rightarrow> Inl Validation_Error)"

section \<open>Rules\<close>

definition apply_rule_config :: "admin_env \<Rightarrow> action_rule \<Rightarrow> rule_input \<Rightarrow> principal \<Rightarrow> bool \<Rightarrow> exn + action_rule" where
  "apply_rule_config ad r ri actor part =
     (let existing = rule_config r;
          url = (case ri_url ri of
                   Some u \<Rightarrow> Some u
                 | None \<Rightarrow> if part then None else (case dict_get existing ''url'' of Some (JStr s) \<Rightarrow> Some s | _ \<Rightarrow> None))
      in map_res (\<lambda>cfg. r\<lparr>rule_config := cfg\<rparr>)
           (build_webhook_config (ad_random ad) existing url (ri_secret ri) (ri_authorization_header ri) (ri_allow_private_urls ri)
              (pr_is_staff actor) part))"

text \<open>A \<^verbatim>\<open>ValidationError\<close>, of the serializer or of the configuration, is answered with 400.\<close>

fun validation_answer :: "exn \<Rightarrow> answer option" where
  "validation_answer Validation_Error = Some (failed 400)"
| "validation_answer e = None"

definition find_rule :: "nat \<Rightarrow> company \<Rightarrow> db \<Rightarrow> action_rule option" where
  "find_rule pk c d = first_row (\<lambda>r. rule_id r = pk \<and> rule_company_id r = c) (rules d)"

definition save_rule :: "action_rule \<Rightarrow> db \<Rightarrow> db" where
  "save_rule r d = d\<lparr>rules := update_rows (\<lambda>x. rule_id x = rule_id r) (\<lambda>_. r) (rules d)\<rparr>"

definition company_rules :: "company \<Rightarrow> db \<Rightarrow> action_rule list" where
  "company_rules c d = sort_key (\<lambda>r. (rule_event_type r, rule_name r)) (filter (\<lambda>r. rule_company_id r = c) (rules d))"

definition rules_get :: "admin_env \<Rightarrow> handler" where
  "rules_get ad = for_company (\<lambda>p c rq w.
     (Inr (Answer 200 (JDict [(''results'', JList (map (\<lambda>r. JDict (action_rule_payload r)) (company_rules c (w_db w))))])), w))"

definition new_rule :: "admin_env \<Rightarrow> company \<Rightarrow> rule_input \<Rightarrow> nat \<Rightarrow> action_rule" where
  "new_rule ad c ri pk =
     \<lparr> rule_id = pk, rule_company_id = c, rule_name = (case ri_name ri of Some s \<Rightarrow> s | None \<Rightarrow> []),
       rule_description = (case ri_description ri of Some s \<Rightarrow> s | None \<Rightarrow> []),
       rule_event_type = (case ri_event_type ri of Some s \<Rightarrow> s | None \<Rightarrow> []),
       rule_enabled = (case ri_enabled ri of Some b \<Rightarrow> b | None \<Rightarrow> True), rule_action_kind = ACTION_WEBHOOK,
       rule_config = [], rule_created_at = ad_now ad, rule_updated_at = ad_now ad \<rparr>"

definition with_secret :: "action_rule \<Rightarrow> dict" where
  "with_secret r =
     dict_set (action_rule_payload r) ''secret'' (case dict_get (rule_config r) ''secret'' of None \<Rightarrow> JNull | Some v \<Rightarrow> v)"

definition rules_post :: "admin_env \<Rightarrow> handler" where
  "rules_post ad = for_company (\<lambda>p c rq w.
     (let r = bind_res (rq_data rq) (\<lambda>body. bind_res (rule_serializer ad True body) (\<lambda>ri.
                map_res (\<lambda>r. (Answer 201 (JDict (with_secret r)),
                              w\<lparr>w_db := (w_db w)\<lparr>rules := rules (w_db w) @ [r], next_pk := next_pk (w_db w) + 1\<rparr>\<rparr>))
                  (apply_rule_config ad (new_rule ad c ri (next_pk (w_db w))) ri p False)))
      in (answering validation_answer (fst (on_world w r)), snd (on_world w r))))"

definition with_rule :: "nat \<Rightarrow> (principal \<Rightarrow> company \<Rightarrow> action_rule \<Rightarrow> api_request \<Rightarrow> world \<Rightarrow> outcome) \<Rightarrow> handler" where
  "with_rule pk f = for_company (\<lambda>p c rq w.
     (case find_rule pk c (w_db w) of None \<Rightarrow> (Inr not_found, w) | Some r \<Rightarrow> f p c r rq w))"

definition rule_get :: "admin_env \<Rightarrow> nat \<Rightarrow> handler" where
  "rule_get ad pk = with_rule pk (\<lambda>p c r rq w. (Inr (Answer 200 (JDict (action_rule_payload r))), w))"

definition set_fields :: "rule_input \<Rightarrow> action_rule \<Rightarrow> action_rule" where
  "set_fields ri r =
     r\<lparr>rule_name := (case ri_name ri of Some s \<Rightarrow> s | None \<Rightarrow> rule_name r),
       rule_description := (case ri_description ri of Some s \<Rightarrow> s | None \<Rightarrow> rule_description r),
       rule_event_type := (case ri_event_type ri of Some s \<Rightarrow> s | None \<Rightarrow> rule_event_type r),
       rule_enabled := (case ri_enabled ri of Some b \<Rightarrow> b | None \<Rightarrow> rule_enabled r)\<rparr>"

definition rule_patch :: "admin_env \<Rightarrow> nat \<Rightarrow> handler" where
  "rule_patch ad pk = with_rule pk (\<lambda>p c r rq w.
     (let q = bind_res (rq_data rq) (\<lambda>body. bind_res (rule_serializer ad False body) (\<lambda>ri.
                map_res (\<lambda>r1. let r2 = r1\<lparr>rule_action_kind := ACTION_WEBHOOK, rule_updated_at := ad_now ad\<rparr>
                              in (Answer 200 (JDict (action_rule_payload r2)), w\<lparr>w_db := save_rule r2 (w_db w)\<rparr>))
                  (apply_rule_config ad (set_fields ri r) ri p True)))
      in (answering validation_answer (fst (on_world w q)), snd (on_world w q))))"

text \<open>Deleting a rule cascades to its deliveries and their attempts.\<close>

definition rule_delete :: "admin_env \<Rightarrow> nat \<Rightarrow> handler" where
  "rule_delete ad pk = with_rule pk (\<lambda>p c r rq w.
     (Inr No_Content, w\<lparr>w_db := delete_rules (\<lambda>x. rule_id x = rule_id r) (w_db w)\<rparr>))"

definition rotate_secret :: "admin_env \<Rightarrow> action_rule \<Rightarrow> action_rule" where
  "rotate_secret ad r =
     r\<lparr>rule_config := dict_set (rule_config r) ''secret'' (JStr (generate_webhook_signing_secret (ad_random ad))),
       rule_updated_at := ad_now ad\<rparr>"

definition rule_rotate_post :: "admin_env \<Rightarrow> nat \<Rightarrow> handler" where
  "rule_rotate_post ad pk = with_rule pk (\<lambda>p c r rq w.
     (let r2 = rotate_secret ad r
      in (Inr (Answer 200 (JDict (with_secret r2))), w\<lparr>w_db := save_rule r2 (w_db w)\<rparr>)))"

section \<open>Test sends\<close>

text \<open>The \<open>n\<close>-th fresh UUID is drawn for the \<open>n\<close>-th field, number 0 for the envelope.\<close>

definition materialize_example :: "admin_env \<Rightarrow> nat \<Rightarrow> bool \<Rightarrow> json \<Rightarrow> exn + json" where
  "materialize_example ad n unique_values example =
     (case example of
        JStr s \<Rightarrow>
          if \<not> unique_values then Inr example
          else if parse_uuid s \<noteq> None then Inr (JStr (ad_uuid ad n))
          else map_res (\<lambda>t. case t of None \<Rightarrow> example | Some _ \<Rightarrow> JTime (ad_now ad)) (ad_parse_datetime ad s)
      | _ \<Rightarrow> Inr example)"

fun payload_data :: "admin_env \<Rightarrow> bool \<Rightarrow> nat \<Rightarrow> event_field list \<Rightarrow> exn + dict" where
  "payload_data ad u n [] = Inr []"
| "payload_data ad u n (f # fs) =
     (if fld_example f = JNull then payload_data ad u (n + 1) fs
      else bind_res (materialize_example ad n u (fld_example f)) (\<lambda>v.
        map_res (\<lambda>d. (fld_name f, v) # d) (payload_data ad u (n + 1) fs)))"

definition payload_data_from_event :: "admin_env \<Rightarrow> bool \<Rightarrow> event_type \<Rightarrow> exn + dict" where
  "payload_data_from_event ad u event = payload_data ad u 1 (evt_payload_fields event)"

definition send_webhook_test_for_rule :: "admin_env \<Rightarrow> action_rule \<Rightarrow> company \<Rightarrow> delivery_exn + dict" where
  "send_webhook_test_for_rule ad r c =
     (case bind_res (get_event_type REGISTRY (rule_event_type r)) (payload_data_from_event ad True) of
        Inl e \<Rightarrow> Inl (Other_Exn e)
      | Inr data \<Rightarrow>
          (let envelope = build_envelope (ad_now ad) (rule_event_type r) c data None (ad_uuid ad 0)
           in map_res (\<lambda>_. [(''ok'', JBool True), (''webhook_id'', JStr (ad_uuid ad 0)), (''event_type'', JStr (rule_event_type r))])
                (deliver_webhook_action (env_cfg (ae_env (ad_api ad))) (ad_net ad) (rule_config r) envelope 1)))"

definition rule_test_post :: "admin_env \<Rightarrow> nat \<Rightarrow> handler" where
  "rule_test_post ad pk = with_rule pk (\<lambda>p c r rq w.
     (Inr (if \<not> rule_enabled r then failed 400
           else case send_webhook_test_for_rule ad r c of Inl _ \<Rightarrow> failed 400 | Inr d \<Rightarrow> Answer 200 (JDict d)), w))"

definition events_get :: "admin_env \<Rightarrow> handler" where
  "events_get ad = for_company (\<lambda>p c rq w.
     (Inr (Answer 200 (JDict [(''results'', JList (map (\<lambda>(n, e). JDict
        [(''type'', JStr (evt_id e)), (''label'', JStr (evt_label e)), (''description'', JStr (evt_description e)),
         (''emit_by_default'', JBool (evt_emit_by_default e)), (''supported_action_kinds'', JList [JStr ACTION_WEBHOOK]),
         (''payload_fields'', JList (map (\<lambda>f. JDict (event_field_doc_dict f)) (evt_payload_fields e))),
         (''sample_envelope'', JDict (build_envelope (ad_now ad) (evt_id e) c
            (case payload_data_from_event ad False e of Inr d \<Rightarrow> d | Inl _ \<Rightarrow> []) None (ad_uuid ad n)))])
        (enumerate 0 (filter (\<lambda>e. \<not> evt_staff_only e) (all_event_types REGISTRY)))))])), w))"

section \<open>Deliveries\<close>

text \<open>\<^verbatim>\<open>max(1, int(page or 1))\<close> and \<^verbatim>\<open>min(limit, max(1, int(page_size or 20)))\<close>.\<close>

definition page_params :: "int \<Rightarrow> api_request \<Rightarrow> (int \<times> int) option" where
  "page_params limit rq =
     (let num = (\<lambda>k default. let s = query_param rq k in if s = [] then Some default else parse_int s)
      in case (num ''page'' 1, num ''page_size'' 20) of
           (Some p, Some n) \<Rightarrow> Some (max 1 p, min limit (max 1 n)) | _ \<Rightarrow> None)"

definition page_of :: "int \<times> int \<Rightarrow> 'r list \<Rightarrow> 'r list" where
  "page_of pg rs = (case pg of (p, n) \<Rightarrow> take (nat n) (drop (nat ((p - 1) * n)) rs))"

definition page_answer :: "int \<times> int \<Rightarrow> ('r \<Rightarrow> dict) \<Rightarrow> 'r list \<Rightarrow> answer" where
  "page_answer pg f rs =
     Answer 200 (JDict [(''count'', JInt (int (length rs))), (''page'', JInt (fst pg)), (''page_size'', JInt (snd pg)),
       (''results'', JList (map (\<lambda>r. JDict (f r)) (page_of pg rs)))])"

text \<open>An optional filter: nothing to filter, a test of rows, or the answer that refuses the parameter.\<close>

type_synonym 'r query = "exn + (answer + ('r \<Rightarrow> bool))"

definition when_given :: "string \<Rightarrow> (string \<Rightarrow> 'r query) \<Rightarrow> 'r query" where
  "when_given raw f = (let s = strip raw in if s = [] then Inr (Inr (\<lambda>_. True)) else f s)"

definition date_filter :: "admin_env \<Rightarrow> api_request \<Rightarrow> string \<Rightarrow> (time \<Rightarrow> 'r \<Rightarrow> bool) \<Rightarrow> 'r query" where
  "date_filter ad rq k keep =
     when_given (query_param rq k) (\<lambda>s. map_res (\<lambda>t. case t of None \<Rightarrow> Inl (failed 400) | Some x \<Rightarrow> Inr (keep x)) (ad_parse_datetime ad s))"

text \<open>Filters in their order; the first that fails decides.\<close>

fun all_filters :: "'r query list \<Rightarrow> 'r list \<Rightarrow> exn + (answer + 'r list)" where
  "all_filters [] rs = Inr (Inr rs)"
| "all_filters (q # qs) rs =
     (case q of Inl e \<Rightarrow> Inl e | Inr (Inl x) \<Rightarrow> Inr (Inl x) | Inr (Inr keep) \<Rightarrow> all_filters qs (filter keep rs))"

definition webhook_outbox :: "company \<Rightarrow> db \<Rightarrow> outbox list" where
  "webhook_outbox c d =
     rev (sort_key (\<lambda>o1. (ob_created_at o1, ob_id o1)) (filter (\<lambda>o1. ob_delivery_kind o1 = KIND_WEBHOOK \<and> ob_company_id o1 = c) (outbox_rows d)))"

definition outbox_statuses :: "outbox_status list" where
  "outbox_statuses = [OB_PENDING, OB_DELIVERED, OB_FAILED, OB_DEAD]"

definition delivery_filters :: "admin_env \<Rightarrow> principal \<Rightarrow> api_request \<Rightarrow> db \<Rightarrow> outbox query list" where
  "delivery_filters ad p rq d =
     [when_given (query_param rq ''scheduled_job_run_id'') (\<lambda>s.
        Inr (if \<not> pr_is_staff p then Inl (failed 403)
             else case parse_int s of None \<Rightarrow> Inl (failed 400)
                  | Some n \<Rightarrow> Inr (\<lambda>o1. has_row (\<lambda>t. att_outbox t = ob_id o1 \<and> map_option int (att_scheduled_job_run_id t) = Some n) (attempts d)))),
      when_given (query_param rq ''status'') (\<lambda>s.
        Inr (if lower s \<notin> set (map outbox_status_str outbox_statuses) then Inl (failed 400)
             else Inr (\<lambda>o1. outbox_status_str (ob_status o1) = lower s))),
      when_given (query_param rq ''event_type'') (\<lambda>s. Inr (Inr (\<lambda>o1. ob_event_type o1 = s))),
      when_given (query_param rq ''action_rule_id'') (\<lambda>s.
        Inr (case parse_int s of None \<Rightarrow> Inl (failed 400) | Some n \<Rightarrow> Inr (\<lambda>o1. map_option int (ob_action_rule o1) = Some n))),
      date_filter ad rq ''created_after'' (\<lambda>t o1. t \<le> ob_created_at o1),
      date_filter ad rq ''created_before'' (\<lambda>t o1. ob_created_at o1 \<le> t)]"

definition deliveries_get :: "admin_env \<Rightarrow> handler" where
  "deliveries_get ad = for_company (\<lambda>p c rq w.
     (case page_params 100 rq of
        None \<Rightarrow> Inr (failed 400)
      | Some pg \<Rightarrow> (case all_filters (delivery_filters ad p rq (w_db w)) (webhook_outbox c (w_db w)) of
                     Inl e \<Rightarrow> Inl e
                   | Inr (Inl x) \<Rightarrow> Inr x
                   | Inr (Inr rs) \<Rightarrow> Inr (page_answer pg (delivery_payload (w_db w) False False) rs)), w))"

definition find_delivery :: "uuid \<Rightarrow> company \<Rightarrow> db \<Rightarrow> outbox option" where
  "find_delivery i c d = first_row (\<lambda>o1. ob_delivery_kind o1 = KIND_WEBHOOK \<and> ob_id o1 = i \<and> ob_company_id o1 = c) (outbox_rows d)"

definition delivery_get :: "admin_env \<Rightarrow> uuid \<Rightarrow> handler" where
  "delivery_get ad i = for_company (\<lambda>p c rq w.
     (Inr (case find_delivery i c (w_db w) of None \<Rightarrow> not_found
           | Some row \<Rightarrow> Answer 200 (JDict (delivery_payload (w_db w) True (pr_is_staff p) row))), w))"

definition requeue_post :: "admin_env \<Rightarrow> uuid \<Rightarrow> handler" where
  "requeue_post ad i = for_company (\<lambda>p c rq w.
     (case requeue_delivery c i (w_db w) of
        None \<Rightarrow> (Inr not_found, w)
      | Some d \<Rightarrow> (Inr (case find_delivery i c d of None \<Rightarrow> not_found
                       | Some row \<Rightarrow> Answer 200 (JDict (delivery_payload d False False row))), w\<lparr>w_db := d\<rparr>)))"

end
