(* ===== verification/Monitor_Api.thy ===== *)
theory Monitor_Api
  imports Admin_Api Retention
begin

text \<open>
  The event log of a company (\<^verbatim>\<open>apps/actions/event_log_views.py\<close>), the monitoring of scheduled jobs
  (\<^verbatim>\<open>apps/actions/scheduled_job_views.py\<close>) and the routes of the admin API (\<^verbatim>\<open>apps/actions/urls.py\<close>, \<^verbatim>\<open>config/urls.py\<close>).
\<close>

section \<open>event\_log\_views.py\<close>

definition event_label :: "string \<Rightarrow> string" where
  "event_label t = (case get_event_type REGISTRY t of Inr e \<Rightarrow> evt_label e | Inl _ \<Rightarrow> t)"

definition event_payload :: "event_log_row \<Rightarrow> dict" where
  "event_payload e =
     [(''id'', JInt (int (ev_id e))), (''company_id'', opt_int (ev_company_id e)), (''created_at'', JTime (ev_created_at e)),
      (''event_type'', JStr (ev_event_type e)), (''label'', JStr (event_label (ev_event_type e))), (''user_id'', opt_int (ev_user_id e)),
      (''user_email'', case dict_get (ev_data e) ''actor_email'' of None \<Rightarrow> JNull | Some v \<Rightarrow> v), (''data'', JDict (ev_data e))]"

definition icontains :: "json option \<Rightarrow> string \<Rightarrow> bool" where
  "icontains v s = (case v of Some (JStr t) \<Rightarrow> contains (lower t) (lower s) | _ \<Rightarrow> False)"

definition event_filters :: "admin_env \<Rightarrow> api_request \<Rightarrow> event_log_row query list" where
  "event_filters ad rq =
     (let types = filter (\<lambda>t. t \<noteq> []) (map strip (split_on CHR '','' (query_param rq ''event_type''))) in
      [when_given (query_param rq ''user_id'') (\<lambda>s.
         Inr (case parse_int s of None \<Rightarrow> Inl (failed 400) | Some n \<Rightarrow> Inr (\<lambda>e. ev_user_id e = Some n))),
       when_given (query_param rq ''user'') (\<lambda>s. Inr (Inr (\<lambda>e. icontains (dict_get (ev_data e) ''actor_email'') s))),
       (if types = [] then Inr (Inr (\<lambda>_. True))
        else if \<not> list_all (is_registered_event REGISTRY) types then Inr (Inl (failed 400))
        else Inr (Inr (\<lambda>e. ev_event_type e \<in> set types))),
       date_filter ad rq ''created_after'' (\<lambda>t e. t \<le> ev_created_at e),
       date_filter ad rq ''created_before'' (\<lambda>t e. ev_created_at e < t)])"

text \<open>The default order of the log: newest first, then the highest id.\<close>

definition company_events :: "company \<Rightarrow> db \<Rightarrow> event_log_row list" where
  "company_events c d = rev (sort_key (\<lambda>e. (ev_created_at e, ev_id e)) (filter (\<lambda>e. ev_company_id e = Some c) (event_log d)))"

definition event_log_get :: "admin_env \<Rightarrow> handler" where
  "event_log_get ad = for_company (\<lambda>p c rq w.
     (case page_params 100 rq of
        None \<Rightarrow> Inr (failed 400)
      | Some pg \<Rightarrow> (case all_filters (event_filters ad rq) (company_events c (w_db w)) of
                     Inl e \<Rightarrow> Inl e
                   | Inr (Inl x) \<Rightarrow> Inr x
                   | Inr (Inr rs) \<Rightarrow> Inr (page_answer pg event_payload rs)), w))"

definition event_detail_get :: "nat \<Rightarrow> handler" where
  "event_detail_get pk = for_company (\<lambda>p c rq w.
     (Inr (case first_row (\<lambda>e. ev_company_id e = Some c \<and> ev_id e = pk) (event_log (w_db w)) of
             None \<Rightarrow> not_found | Some e \<Rightarrow> Answer 200 (JDict (event_payload e))), w))"

definition event_types_get :: handler where
  "event_types_get = for_company (\<lambda>p c rq w.
     (Inr (Answer 200 (JDict [(''results'', JList (map (\<lambda>e. JDict
        [(''type'', JStr (evt_id e)), (''label'', JStr (evt_label e)), (''description'', JStr (evt_description e)),
         (''webhook'', JBool (evt_webhook e))])
        (filter evt_emit_by_default (company_event_types REGISTRY))))])), w))"

definition event_retention_get :: "admin_env \<Rightarrow> handler" where
  "event_retention_get ad = for_company (\<lambda>p c rq w.
     (Inr (Answer 200 (JDict (retention_status (env_cfg (ae_env (ad_api ad))) (ad_now ad) c (w_db w)))), w))"

section \<open>scheduled\_job\_views.py\<close>

definition DEFAULT_RUNS_LIMIT :: int where
  "DEFAULT_RUNS_LIMIT = 20"

definition MAX_RUNS_LIMIT :: int where
  "MAX_RUNS_LIMIT = 100"

definition MAX_CORRELATED :: nat where
  "MAX_CORRELATED = 100"

definition for_staff :: "(api_request \<Rightarrow> world \<Rightarrow> outcome) \<Rightarrow> handler" where
  "for_staff f user token rq w =
     (case user of
        None \<Rightarrow> (Inr (failed 401), w)
      | Some p \<Rightarrow> if \<not> pr_is_staff p then (Inr (failed 403), w) else f rq w)"

text \<open>What the broker answers: whether it can be reached, the prefix of the keys and its entries.\<close>

definition jobs_get :: "admin_env \<Rightarrow> bool \<Rightarrow> string \<Rightarrow> redis \<Rightarrow> handler" where
  "jobs_get ad up lock_prefix r = for_staff (\<lambda>rq w.
     (let (pl, d) = jobs_overview (env_cfg (ae_env (ad_api ad))) (ad_now ad) True up lock_prefix r (w_db w)
      in (Inr (Answer 200 (JDict pl)), w\<lparr>w_db := d\<rparr>)))"

definition runs_newest_first :: "(job_run \<Rightarrow> bool) \<Rightarrow> db \<Rightarrow> job_run list" where
  "runs_newest_first keep d = rev (sort_key (\<lambda>r. (run_started_at r, run_id r)) (filter keep (job_runs d)))"

definition job_runs_get :: "string \<Rightarrow> handler" where
  "job_runs_get job = for_staff (\<lambda>rq w.
     (Inr (if job \<notin> set (map spec_name JOBS) then not_found
      else case (if query_param rq ''limit'' = [] then Some DEFAULT_RUNS_LIMIT else parse_int (query_param rq ''limit'')) of
        None \<Rightarrow> failed 400
      | Some n \<Rightarrow>
          (let limit = min MAX_RUNS_LIMIT (max 1 n);
               st = lower (strip (query_param rq ''status''))
           in if st \<noteq> [] \<and> st \<notin> set (map run_status_str [RUNNING, SUCCEEDED, RUN_FAILED, SKIPPED_LOCKED]) then failed 400
              else Answer 200 (JDict [(''job'', JStr job), (''results'', JList (map (\<lambda>r. JDict (run_payload r))
                     (take (nat limit) (runs_newest_first
                        (\<lambda>r. run_job r = job \<and> (st = [] \<or> run_status_str (run_status r) = st)) (w_db w)))))]))), w))"

text \<open>Rows in the order of creation; the list of a table is in the order of its keys. The key of an attempt is not modelled.\<close>

definition correlated_attempts :: "nat \<Rightarrow> db \<Rightarrow> (attempt \<times> outbox) list" where
  "correlated_attempts run d =
     concat (map (\<lambda>t. case first_row (\<lambda>o1. ob_id o1 = att_outbox t \<and> ob_delivery_kind o1 = KIND_WEBHOOK) (outbox_rows d) of
                        None \<Rightarrow> [] | Some o1 \<Rightarrow> [(t, o1)])
       (sort_key att_created_at (filter (\<lambda>t. att_scheduled_job_run_id t = Some run) (attempts d))))"

definition correlated_emails :: "nat \<Rightarrow> db \<Rightarrow> outbox list" where
  "correlated_emails run d =
     sort_key (\<lambda>o1. (ob_created_at o1, ob_id o1))
       (filter (\<lambda>o1. ob_delivery_kind o1 = KIND_EMAIL
          \<and> has_row (\<lambda>t. att_outbox t = ob_id o1 \<and> att_scheduled_job_run_id t = Some run) (attempts d)) (outbox_rows d))"

definition correlated_attempt_payload :: "attempt \<times> outbox \<Rightarrow> json" where
  "correlated_attempt_payload to1 = (case to1 of (t, o1) \<Rightarrow> JDict
     [(''delivery_id'', JStr (att_outbox t)), (''company_id'', JInt (ob_company_id o1)), (''event_type'', JStr (ob_event_type o1)),
      (''status'', JStr (attempt_status_str (att_status t))), (''http_status'', opt_int (att_http_status t)),
      (''attempt_number'', JInt (int (att_number t))), (''duration_ms'', opt_int (att_duration_ms t)),
      (''trigger'', JStr (attempt_trigger_str (att_trigger t))), (''created_at'', JTime (att_created_at t))])"

definition correlated_email_payload :: "outbox \<Rightarrow> json" where
  "correlated_email_payload o1 = JDict
     [(''id'', JStr (ob_id o1)), (''company_id'', JInt (ob_company_id o1)), (''event_type'', JStr (ob_event_type o1)),
      (''status'', JStr (outbox_status_str (ob_status o1))), (''attempt_count'', JInt (int (ob_attempt_count o1))),
      (''delivered_at'', iso (ob_delivered_at o1))]"

definition run_detail_get :: "nat \<Rightarrow> handler" where
  "run_detail_get pk = for_staff (\<lambda>rq w.
     (Inr (case first_row (\<lambda>r. run_id r = pk) (job_runs (w_db w)) of
             None \<Rightarrow> not_found
           | Some run \<Rightarrow>
               (let ts = correlated_attempts pk (w_db w); es = correlated_emails pk (w_db w)
                in Answer 200 (JDict (run_payload run @
                  [(''webhook_delivery_attempts'', JList (map correlated_attempt_payload (take MAX_CORRELATED ts))),
                   (''webhook_delivery_attempts_truncated'', JBool (length ts > MAX_CORRELATED)),
                   (''email_events'', JList (map correlated_email_payload (take MAX_CORRELATED es))),
                   (''email_events_truncated'', JBool (length es > MAX_CORRELATED))])))), w))"

section \<open>Routes\<close>

datatype admin_route =
    A_Events | A_Rules | A_Rule nat | A_Send_Test nat | A_Rotate nat | A_Deliveries | A_Delivery uuid | A_Requeue uuid
  | A_Log | A_Log_Types | A_Log_Retention | A_Log_Row nat
  | A_Jobs | A_Job_Runs string | A_Run nat

text \<open>The path converter \<^verbatim>\<open>int\<close>, and what follows \<^verbatim>\<open>/api/v1/\<close>.\<close>

definition int_segment :: "string \<Rightarrow> nat option" where
  "int_segment s = (if s \<noteq> [] \<and> list_all is_digit s then Some (digits_val s) else None)"

definition actions_route :: "string list \<Rightarrow> admin_route option" where
  "actions_route segs =
     (case segs of
        [s1] \<Rightarrow> map_of [(''event-log'', A_Log), (''events'', A_Events), (''rules'', A_Rules), (''deliveries'', A_Deliveries)] s1
      | [s1, s2] \<Rightarrow>
          if s1 = ''event-log'' then
            (if s2 = ''types'' then Some A_Log_Types else if s2 = ''retention'' then Some A_Log_Retention
             else map_option A_Log_Row (int_segment s2))
          else if s1 = ''rules'' then map_option A_Rule (int_segment s2)
          else if s1 = ''deliveries'' \<and> uuid_segment s2 then Some (A_Delivery s2) else None
      | [s1, s2, s3] \<Rightarrow>
          if s1 = ''rules'' \<and> s3 = ''send-test'' then map_option A_Send_Test (int_segment s2)
          else if s1 = ''rules'' \<and> s3 = ''rotate-secret'' then map_option A_Rotate (int_segment s2)
          else if s1 = ''deliveries'' \<and> s3 = ''requeue'' \<and> uuid_segment s2 then Some (A_Requeue s2) else None
      | _ \<Rightarrow> None)"

definition jobs_route :: "string list \<Rightarrow> admin_route option" where
  "jobs_route segs =
     (case segs of
        [] \<Rightarrow> Some A_Jobs
      | [s1, s2] \<Rightarrow> if s1 = ''runs'' \<and> int_segment s2 \<noteq> None then map_option A_Run (int_segment s2)
                    else if s1 \<noteq> [] \<and> s2 = ''runs'' then Some (A_Job_Runs s1) else None
      | _ \<Rightarrow> None)"

definition admin_route_of :: "string \<Rightarrow> admin_route option" where
  "admin_route_of path =
     (case split_on CHR ''/'' path of
        s1 # segs \<Rightarrow> if s1 = ''actions'' then actions_route segs else if s1 = ''scheduled-jobs'' then jobs_route segs else None
      | [] \<Rightarrow> None)"

definition actions_view :: "(string \<times> handler) list \<Rightarrow> api_view" where
  "actions_view hs = \<lparr>vw_auth = True, vw_permission = ActionsAdminPermission, vw_scope = (\<lambda>_. None), vw_handlers = hs\<rparr>"

definition jobs_view :: "handler \<Rightarrow> api_view" where
  "jobs_view h = \<lparr>vw_auth = True, vw_permission = (\<lambda>user m. IsAuthenticatedPrincipal user m []), vw_scope = (\<lambda>_. None),
     vw_handlers = [(''GET'', h)]\<rparr>"

fun admin_view :: "admin_env \<Rightarrow> bool \<Rightarrow> string \<Rightarrow> redis \<Rightarrow> admin_route \<Rightarrow> api_view" where
  "admin_view ad up pre r A_Events = actions_view [(''GET'', events_get ad)]"
| "admin_view ad up pre r A_Rules = actions_view [(''GET'', rules_get ad), (''POST'', rules_post ad)]"
| "admin_view ad up pre r (A_Rule pk) =
     actions_view [(''GET'', rule_get ad pk), (''PATCH'', rule_patch ad pk), (''DELETE'', rule_delete ad pk)]"
| "admin_view ad up pre r (A_Send_Test pk) = actions_view [(''POST'', rule_test_post ad pk)]"
| "admin_view ad up pre r (A_Rotate pk) = actions_view [(''POST'', rule_rotate_post ad pk)]"
| "admin_view ad up pre r A_Deliveries = actions_view [(''GET'', deliveries_get ad)]"
| "admin_view ad up pre r (A_Delivery i) = actions_view [(''GET'', delivery_get ad i)]"
| "admin_view ad up pre r (A_Requeue i) = actions_view [(''POST'', requeue_post ad i)]"
| "admin_view ad up pre r A_Log = actions_view [(''GET'', event_log_get ad)]"
| "admin_view ad up pre r A_Log_Types = actions_view [(''GET'', event_types_get)]"
| "admin_view ad up pre r A_Log_Retention = actions_view [(''GET'', event_retention_get ad)]"
| "admin_view ad up pre r (A_Log_Row pk) = actions_view [(''GET'', event_detail_get pk)]"
| "admin_view ad up pre r A_Jobs = jobs_view (jobs_get ad up pre r)"
| "admin_view ad up pre r (A_Job_Runs job) = jobs_view (job_runs_get job)"
| "admin_view ad up pre r (A_Run pk) = jobs_view (run_detail_get pk)"

definition admin_api ::
    "admin_env \<Rightarrow> bool \<Rightarrow> string \<Rightarrow> redis \<Rightarrow> string \<Rightarrow> api_request \<Rightarrow> server \<Rightarrow> (exn + answer) \<times> server" where
  "admin_api ad up pre r path rq sv =
     (case admin_route_of path of
        None \<Rightarrow> (Inl Http404, sv)
      | Some rt \<Rightarrow> drf_dispatch (ad_api ad) (admin_view ad up pre r rt) rq sv)"

end
