(* ===== verification/Admin_Laws.thy ===== *)
theory Admin_Laws
  imports Monitor_Api Api_Laws
begin

text \<open>
  What a request to the admin API may change: a company owner changes rules and deliveries
  of the own company only and anybody else changes nothing. What a read shows of the secrets of a rule is in \<open>Admin_Secrets\<close>.
\<close>

section \<open>Well-formed rules and deliveries\<close>

definition rules_ok :: "db \<Rightarrow> bool" where
  "rules_ok d \<longleftrightarrow> distinct (map rule_id (rules d)) \<and> distinct (map ob_id (outbox_rows d))
     \<and> (\<forall>o1\<in>set (outbox_rows d). case ob_action_rule o1 of None \<Rightarrow> True
          | Some i \<Rightarrow> has_row (\<lambda>r. rule_id r = i \<and> rule_company_id r = ob_company_id o1) (rules d))"

text \<open>An attempt belongs to a company through its outbox row.\<close>

lemma rules_ok_tokens [simp]: "rules_ok (d\<lparr>tokens := ts\<rparr>) = rules_ok d"
  by (simp add: rules_ok_def cong: option.case_cong)

definition attempt_of :: "company \<Rightarrow> db \<Rightarrow> attempt \<Rightarrow> bool" where
  "attempt_of c d t = has_row (\<lambda>o1. ob_id o1 = att_outbox t \<and> ob_company_id o1 = c) (outbox_rows d)"

definition rules_frame :: "company \<Rightarrow> db \<Rightarrow> db \<Rightarrow> bool" where
  "rules_frame c d d' \<longleftrightarrow>
     (\<exists>rs os ts n. d' = d\<lparr>rules := rs, outbox_rows := os, attempts := ts, next_pk := n\<rparr>)
     \<and> filter (\<lambda>r. rule_company_id r \<noteq> c) (rules d') = filter (\<lambda>r. rule_company_id r \<noteq> c) (rules d)
     \<and> filter (\<lambda>o1. ob_company_id o1 \<noteq> c) (outbox_rows d') = filter (\<lambda>o1. ob_company_id o1 \<noteq> c) (outbox_rows d)
     \<and> filter (\<lambda>t. \<not> attempt_of c d t) (attempts d') = filter (\<lambda>t. \<not> attempt_of c d t) (attempts d)"

lemma rules_frame_tokens:
  assumes "rules_frame c (d\<lparr>tokens := ts\<rparr>) e"
  shows "rules_frame c d (e\<lparr>tokens := tokens d\<rparr>)"
proof -
  obtain rs os as n where e: "e = d\<lparr>tokens := ts, rules := rs, outbox_rows := os, attempts := as, next_pk := n\<rparr>"
    using assms unfolding rules_frame_def by blast
  have "\<exists>rs os as n. e\<lparr>tokens := tokens d\<rparr> = d\<lparr>rules := rs, outbox_rows := os, attempts := as, next_pk := n\<rparr>"
    by (rule exI[of _ rs], rule exI[of _ os], rule exI[of _ as], rule exI[of _ n]) (simp add: e)
  then show ?thesis using assms by (simp add: rules_frame_def attempt_of_def)
qed

definition admin_effect :: "principal \<Rightarrow> world \<Rightarrow> world \<Rightarrow> bool" where
  "admin_effect p w w' \<longleftrightarrow> w' = w
     \<or> (pr_is_staff p \<or> pr_is_company_owner p)
        \<and> (\<exists>c. (pr_company_id p = Some c \<or> pr_is_staff p) \<and> rules_frame c (w_db w) (w_db w') \<and> w' = w\<lparr>w_db := w_db w'\<rparr>)
     \<or> pr_is_staff p \<and> (\<exists>js. w' = w\<lparr>w_db := (w_db w)\<lparr>job_states := js\<rparr>\<rparr>)"

lemma admin_effect_refl [simp]: "admin_effect p w w"
  by (simp add: admin_effect_def)

lemma for_company_effect:
  assumes "\<And>c. (pr_company_id p = Some c \<or> pr_is_staff p) \<Longrightarrow> snd (f p c rq w) = w
      \<or> rules_frame c (w_db w) (w_db (snd (f p c rq w))) \<and> snd (f p c rq w) = w\<lparr>w_db := w_db (snd (f p c rq w))\<rparr>"
  shows "admin_effect p w (snd (for_company f (Some p) token rq w))"
proof (cases "require_staff_or_company_owner (Some p) (query_param rq ''company_id'')")
  case (Inr c)
  then have c: "pr_is_staff p \<or> pr_is_company_owner p" "pr_company_id p = Some c \<or> pr_is_staff p"
    by (auto simp: require_staff_or_company_owner_def res_simps Let_def split: if_splits option.splits)
  show ?thesis using assms[OF c(2)] c by (auto simp: for_company_def Inr admin_effect_def)
qed (simp add: for_company_def)

lemma with_rule_effect:
  assumes "\<And>c r. find_rule pk c (w_db w) = Some r \<Longrightarrow> snd (f p c r rq w) = w
      \<or> rules_frame c (w_db w) (w_db (snd (f p c r rq w))) \<and> snd (f p c r rq w) = w\<lparr>w_db := w_db (snd (f p c r rq w))\<rparr>"
  shows "admin_effect p w (snd (with_rule pk f (Some p) token rq w))"
  unfolding with_rule_def by (rule for_company_effect) (use assms in \<open>auto split: option.split\<close>)

lemma find_rule_row: "find_rule pk c d = Some r \<Longrightarrow> r \<in> set (rules d) \<and> rule_id r = pk \<and> rule_company_id r = c"
  by (auto simp: find_rule_def dest: first_row_Some)

lemma frame_rules:
  "filter (\<lambda>r. rule_company_id r \<noteq> c) rs = filter (\<lambda>r. rule_company_id r \<noteq> c) (rules d) \<Longrightarrow>
   rules_frame c d (d\<lparr>rules := rs, next_pk := n\<rparr>)"
  unfolding rules_frame_def
  by (intro conjI exI[of _ rs] exI[of _ "outbox_rows d"] exI[of _ "attempts d"] exI[of _ n]) simp_all

lemma frame_save_rule:
  assumes ok: "rules_ok d" and r: "find_rule pk c d = Some r" and q: "rule_id q = rule_id r" "rule_company_id q = rule_company_id r"
  shows "rules_frame c d (save_rule q d)"
proof -
  have "x = r" if "x \<in> set (rules d)" "rule_id x = rule_id q" for x
    using ok find_rule_row[OF r] that q(1) distinct_map_unique unfolding rules_ok_def by metis
  then have "filter (\<lambda>r. rule_company_id r \<noteq> c) (update_rows (\<lambda>x. rule_id x = rule_id q) (\<lambda>_. q) (rules d))
      = filter (\<lambda>r. rule_company_id r \<noteq> c) (rules d)"
    using find_rule_row[OF r] q by (intro filter_update_rows) auto
  from frame_rules[OF this, of "next_pk d"] show ?thesis by (simp add: save_rule_def)
qed

lemma frame_delete_rule:
  assumes ok: "rules_ok d" and r: "find_rule pk c d = Some r"
  shows "rules_frame c d (delete_rules (\<lambda>x. rule_id x = rule_id r) d)"
proof -
  let ?gone = "\<lambda>o1. case ob_action_rule o1 of None \<Rightarrow> False | Some i \<Rightarrow> has_row (\<lambda>a. rule_id a = rule_id r \<and> rule_id a = i) (rules d)"
  note R = find_rule_row[OF r]
  have uniq: "x = r" if "x \<in> set (rules d)" "rule_id x = rule_id r" for x
    using ok R that distinct_map_unique unfolding rules_ok_def by metis
  have own: "ob_company_id o1 = c" if o1: "o1 \<in> set (outbox_rows d)" "?gone o1" for o1
  proof -
    obtain i where i: "ob_action_rule o1 = Some i" "i = rule_id r"
      using o1(2) by (auto simp: has_row_iff split: option.splits)
    then obtain b where "b \<in> set (rules d)" "rule_id b = rule_id r" "rule_company_id b = ob_company_id o1"
      using ok o1(1) by (fastforce simp: rules_ok_def has_row_iff)
    then show ?thesis using uniq R by metis
  qed
  have 1: "filter (\<lambda>x. rule_id x \<noteq> rule_id r \<and> rule_company_id x \<noteq> c) (rules d) = filter (\<lambda>x. rule_company_id x \<noteq> c) (rules d)"
    using uniq R by (intro filter_cong) auto
  have 2: "filter (\<lambda>o1. \<not> ?gone o1 \<and> ob_company_id o1 \<noteq> c) (outbox_rows d) = filter (\<lambda>o1. ob_company_id o1 \<noteq> c) (outbox_rows d)"
    using own by (intro filter_cong[OF refl]) metis
  have "attempt_of c d t" if "has_row (\<lambda>o1. ?gone o1 \<and> ob_id o1 = att_outbox t) (outbox_rows d)" for t
    using that own unfolding attempt_of_def has_row_iff by blast
  then have 3: "filter (\<lambda>t. \<not> has_row (\<lambda>o1. ?gone o1 \<and> ob_id o1 = att_outbox t) (outbox_rows d) \<and> \<not> attempt_of c d t) (attempts d)
      = filter (\<lambda>t. \<not> attempt_of c d t) (attempts d)"
    by (intro filter_cong) auto
  let ?d = "delete_rules (\<lambda>x. rule_id x = rule_id r) d"
  have "rules ?d = filter (\<lambda>x. rule_id x \<noteq> rule_id r) (rules d)" "outbox_rows ?d = filter (\<lambda>o1. \<not> ?gone o1) (outbox_rows d)"
    "attempts ?d = filter (\<lambda>t. \<not> has_row (\<lambda>o1. ?gone o1 \<and> ob_id o1 = att_outbox t) (outbox_rows d)) (attempts d)"
    by (simp_all add: delete_rules_def delete_outbox_rows_def delete_rows_def)
  moreover have "\<exists>rs os ts n. ?d = d\<lparr>rules := rs, outbox_rows := os, attempts := ts, next_pk := n\<rparr>"
    by (rule exI[of _ "rules ?d"], rule exI[of _ "outbox_rows ?d"], rule exI[of _ "attempts ?d"], rule exI[of _ "next_pk d"])
      (simp add: delete_rules_def delete_outbox_rows_def)
  ultimately show ?thesis
    unfolding rules_frame_def by (simp only: filter_filter 1 2 3 simp_thms)
qed

lemma frame_requeue:
  assumes ok: "rules_ok d" and q: "requeue_delivery c i d = Some d'"
  shows "rules_frame c d d'"
proof -
  obtain row where row: "row \<in> set (outbox_rows d)" "ob_company_id row = c"
    and d': "d' = d\<lparr>outbox_rows := update_rows (\<lambda>o1. ob_id o1 = ob_id row)
      (\<lambda>o1. o1\<lparr>ob_status := OB_PENDING, ob_next_attempt_at := None, ob_last_error := [], ob_locked_until := None\<rparr>) (outbox_rows d)\<rparr>"
    using q by (auto simp: requeue_delivery_def dest!: first_row_Some split: option.splits)
  have "\<forall>x\<in>set (outbox_rows d). ob_id x = ob_id row \<longrightarrow> ob_company_id x = c"
    using ok row distinct_map_unique unfolding rules_ok_def by metis
  then have "filter (\<lambda>o1. ob_company_id o1 \<noteq> c) (outbox_rows d') = filter (\<lambda>o1. ob_company_id o1 \<noteq> c) (outbox_rows d)"
    unfolding d' by (simp add: filter_update_rows)
  then show ?thesis
    unfolding rules_frame_def
    by (intro conjI exI[of _ "rules d"] exI[of _ "outbox_rows d'"] exI[of _ "attempts d"] exI[of _ "next_pk d"]) (simp_all add: d')
qed

section \<open>Every handler\<close>

named_theorems admin_effects \<open>the effect of each admin handler\<close>

lemma company_reads [admin_effects]:
  "admin_effect p w (snd (rules_get ad (Some p) token rq w))"
  "admin_effect p w (snd (events_get ad (Some p) token rq w))"
  "admin_effect p w (snd (deliveries_get ad (Some p) token rq w))"
  "admin_effect p w (snd (delivery_get ad i (Some p) token rq w))"
  "admin_effect p w (snd (event_log_get ad (Some p) token rq w))"
  "admin_effect p w (snd (event_detail_get pk (Some p) token rq w))"
  "admin_effect p w (snd (event_types_get (Some p) token rq w))"
  "admin_effect p w (snd (event_retention_get ad (Some p) token rq w))"
  unfolding rules_get_def events_get_def deliveries_get_def delivery_get_def event_log_get_def event_detail_get_def
    event_types_get_def event_retention_get_def
  by (rule for_company_effect; simp)+

lemma rule_reads [admin_effects]:
  "admin_effect p w (snd (rule_get ad pk (Some p) token rq w))"
  "admin_effect p w (snd (rule_test_post ad pk (Some p) token rq w))"
  unfolding rule_get_def rule_test_post_def by (rule with_rule_effect; simp)+

lemma apply_rule_config_keys:
  "apply_rule_config ad r ri p part = Inr q \<Longrightarrow> rule_id q = rule_id r \<and> rule_company_id q = rule_company_id r"
  by (auto simp: apply_rule_config_def res_simps Let_def)

lemma on_world_snd: "snd (on_world w r) = (case r of Inl _ \<Rightarrow> w | Inr (x, w') \<Rightarrow> w')"
  by (simp add: on_world_def split: sum.split prod.split)

lemma rules_post_effect [admin_effects]: "admin_effect p w (snd (rules_post ad (Some p) token rq w))"
  unfolding rules_post_def
proof (rule for_company_effect)
  fix c
  have f: "rules_frame c (w_db w) ((w_db w)\<lparr>rules := rules (w_db w) @ [q], next_pk := n\<rparr>)"
    if "apply_rule_config ad (new_rule ad c ri n1) ri p False = Inr q" for q n n1 ri
    using apply_rule_config_keys[OF that] by (intro frame_rules) (simp add: new_rule_def)
  let ?r = "bind_res (rq_data rq) (\<lambda>body. bind_res (rule_serializer ad True body) (\<lambda>ri.
      map_res (\<lambda>r. (Answer 201 (JDict (with_secret r)),
          w\<lparr>w_db := (w_db w)\<lparr>rules := rules (w_db w) @ [r], next_pk := next_pk (w_db w) + 1\<rparr>\<rparr>))
        (apply_rule_config ad (new_rule ad c ri (next_pk (w_db w))) ri p False)))"
  show "snd (let r = ?r in (answering validation_answer (fst (on_world w r)), snd (on_world w r))) = w
    \<or> rules_frame c (w_db w) (w_db (snd (let r = ?r in (answering validation_answer (fst (on_world w r)), snd (on_world w r)))))
      \<and> snd (let r = ?r in (answering validation_answer (fst (on_world w r)), snd (on_world w r)))
        = w\<lparr>w_db := w_db (snd (let r = ?r in (answering validation_answer (fst (on_world w r)), snd (on_world w r))))\<rparr>"
    unfolding Let_def snd_conv on_world_snd
    by (cases ?r) (auto simp: res_simps f)
qed

lemma rule_patch_effect [admin_effects]:
  assumes "rules_ok (w_db w)"
  shows "admin_effect p w (snd (rule_patch ad pk (Some p) token rq w))"
  unfolding rule_patch_def
proof (rule with_rule_effect)
  fix c r
  assume r: "find_rule pk c (w_db w) = Some r"
  have f: "rules_frame c (w_db w) (save_rule (q\<lparr>rule_action_kind := k, rule_updated_at := n\<rparr>) (w_db w))"
    if "apply_rule_config ad (set_fields ri r) ri p True = Inr q" for q k n ri
    using apply_rule_config_keys[OF that] by (intro frame_save_rule[OF assms r]) (simp_all add: set_fields_def)
  let ?r = "bind_res (rq_data rq) (\<lambda>body. bind_res (rule_serializer ad False body) (\<lambda>ri.
      map_res (\<lambda>r1. let r2 = r1\<lparr>rule_action_kind := ACTION_WEBHOOK, rule_updated_at := ad_now ad\<rparr>
                    in (Answer 200 (JDict (action_rule_payload r2)), w\<lparr>w_db := save_rule r2 (w_db w)\<rparr>))
        (apply_rule_config ad (set_fields ri r) ri p True)))"
  show "snd (let q = ?r in (answering validation_answer (fst (on_world w q)), snd (on_world w q))) = w
    \<or> rules_frame c (w_db w) (w_db (snd (let q = ?r in (answering validation_answer (fst (on_world w q)), snd (on_world w q)))))
      \<and> snd (let q = ?r in (answering validation_answer (fst (on_world w q)), snd (on_world w q)))
        = w\<lparr>w_db := w_db (snd (let q = ?r in (answering validation_answer (fst (on_world w q)), snd (on_world w q))))\<rparr>"
    unfolding Let_def snd_conv on_world_snd
    by (cases ?r) (auto simp: res_simps f Let_def)
qed

lemma rule_writes_effect [admin_effects]:
  assumes "rules_ok (w_db w)"
  shows "admin_effect p w (snd (rule_delete ad pk (Some p) token rq w))"
    "admin_effect p w (snd (rule_rotate_post ad pk (Some p) token rq w))"
    "admin_effect p w (snd (requeue_post ad i (Some p) token rq w))"
  unfolding rule_delete_def rule_rotate_post_def requeue_post_def
  by (rule with_rule_effect for_company_effect,
      use assms frame_delete_rule frame_save_rule frame_requeue in \<open>auto simp: rotate_secret_def Let_def split: option.split\<close>)+

lemma jobs_overview_db: "\<exists>js. snd (jobs_overview cfg now chk up pre r d) = d\<lparr>job_states := js\<rparr>"
  using ensure_states_only[of now d] by (simp add: jobs_overview_def Let_def)

lemma for_staff_effect:
  assumes "\<And>w. \<exists>js. snd (f rq w) = w\<lparr>w_db := (w_db w)\<lparr>job_states := js\<rparr>\<rparr>"
  shows "admin_effect p w (snd (for_staff f (Some p) token rq w))"
  using assms[of w] by (auto simp: for_staff_def admin_effect_def)

lemma staff_reads [admin_effects]:
  "admin_effect p w (snd (jobs_get ad up pre r (Some p) token rq w))"
  "admin_effect p w (snd (job_runs_get job (Some p) token rq w))"
  "admin_effect p w (snd (run_detail_get pk (Some p) token rq w))"
proof -
  have same: "\<exists>js. w = w\<lparr>w_db := (w_db w)\<lparr>job_states := js\<rparr>\<rparr>" for w :: world
    by (rule exI[of _ "job_states (w_db w)"]) simp
  show "admin_effect p w (snd (jobs_get ad up pre r (Some p) token rq w))"
    unfolding jobs_get_def
  proof (rule for_staff_effect)
    fix w :: world
    obtain js where "snd (jobs_overview (env_cfg (ae_env (ad_api ad))) (ad_now ad) True up pre r (w_db w)) = (w_db w)\<lparr>job_states := js\<rparr>"
      using jobs_overview_db by blast
    then show "\<exists>js. snd (let (pl, d) = jobs_overview (env_cfg (ae_env (ad_api ad))) (ad_now ad) True up pre r (w_db w)
        in (Inr (Answer 200 (JDict pl)), w\<lparr>w_db := d\<rparr>)) = w\<lparr>w_db := (w_db w)\<lparr>job_states := js\<rparr>\<rparr>"
      by (auto simp: case_prod_beta)
  qed
  show "admin_effect p w (snd (job_runs_get job (Some p) token rq w))"
    "admin_effect p w (snd (run_detail_get pk (Some p) token rq w))"
    unfolding job_runs_get_def run_detail_get_def by (rule for_staff_effect, simp only: snd_conv same)+
qed

lemma admin_handler_effect:
  assumes "handler_of (admin_view ad up pre r rt) m = Some h" "rules_ok (w_db w)"
  shows "admin_effect p w (snd (h (Some p) token rq w))"
  using assms by (cases rt) (auto simp: handler_of_def actions_view_def jobs_view_def admin_effects split: if_splits)

lemma admin_anonymous:
  assumes "handler_of (admin_view ad up pre r rt) m = Some h"
  shows "snd (h None token rq w) = w"
  using assms
  by (cases rt) (auto simp: handler_of_def actions_view_def jobs_view_def for_company_def require_staff_or_company_owner_def
      for_staff_def with_rule_def rules_get_def events_get_def deliveries_get_def delivery_get_def event_log_get_def
      event_detail_get_def event_types_get_def event_retention_get_def rule_get_def rule_test_post_def rules_post_def
      rule_patch_def rule_delete_def rule_rotate_post_def requeue_post_def jobs_get_def job_runs_get_def run_detail_get_def
      split: if_splits)

end
