(* ===== verification/Admin_Secrets.thy ===== *)
theory Admin_Secrets
  imports Admin_Laws Api_Reads
begin

text \<open>Secrets: a read of the admin API shows of the configuration of a rule no more than its public view.\<close>

section \<open>What an answer may show of a rule\<close>

text \<open>
  The public view of a rule, stated without the masking code: the configuration of a webhook rule without its two
  secret entries, whether a signing secret is set, whether it is blank or short (at most four characters without the
  white space around it), the last four characters of a longer one, and whether an authorization header is set.
\<close>

datatype secret_view = No_Webhook | Webhook_Secret bool bool "string option" bool

definition secret_entries :: "string list" where
  "secret_entries = [''secret'', ''authorization_header'']"

definition last_four :: "string \<Rightarrow> string option" where
  "last_four s = (if length s \<le> 4 then None else Some (rev (take 4 (rev s))))"

definition view_secrets :: "dict \<Rightarrow> secret_view" where
  "view_secrets config =
     (let secret = json_text (dict_get config ''secret'')
      in Webhook_Secret (secret \<noteq> []) (strip secret = []) (last_four (strip secret)) (field_truthy config ''authorization_header''))"

definition public_view :: "action_rule \<Rightarrow> action_rule \<times> secret_view" where
  "public_view r =
     (if rule_action_kind r = ACTION_WEBHOOK
      then (r\<lparr>rule_config := filter (\<lambda>(k, v). k \<notin> set secret_entries) (rule_config r)\<rparr>, view_secrets (rule_config r))
      else (r, No_Webhook))"

text \<open>Two databases that differ only in what the configurations of rules hide.\<close>

definition same_public :: "db \<Rightarrow> db \<Rightarrow> bool" where
  "same_public d e \<longleftrightarrow> (\<exists>rs. e = d\<lparr>rules := rs\<rparr>) \<and> map public_view (rules e) = map public_view (rules d)"

lemma same_public_tables:
  assumes "same_public d e"
  shows "event_log e = event_log d" "outbox_rows e = outbox_rows d" "attempts e = attempts d" "job_runs e = job_runs d"
    "tokens e = tokens d"
  using assms by (auto simp: same_public_def)

lemma map_sort_key: "map g (sort_key (\<lambda>x. f (g x)) xs) = sort_key f (map g xs)"
proof -
  have i: "map g (insort_key (\<lambda>x. f (g x)) x ys) = insort_key f (g x) (map g ys)" for x ys by (induction ys) auto
  show ?thesis by (induction xs) (simp_all add: i)
qed

lemma filter_map_key: "map g (filter (\<lambda>x. p (g x)) xs) = filter p (map g xs)"
  by (induction xs) auto

lemma first_row_map: "map_option g (first_row (\<lambda>x. p (g x)) xs) = first_row p (map g xs)"
  by (induction xs) (simp_all add: first_row_def)

lemma public_view_fields [simp]:
  "rule_id (fst (public_view r)) = rule_id r" "rule_company_id (fst (public_view r)) = rule_company_id r"
  "rule_name (fst (public_view r)) = rule_name r" "rule_event_type (fst (public_view r)) = rule_event_type r"
  "rule_action_kind (fst (public_view r)) = rule_action_kind r"
  by (simp_all add: public_view_def)

text \<open>The mask computes its answer from the public view alone.\<close>

definition masked_view :: "dict \<Rightarrow> secret_view \<Rightarrow> dict" where
  "masked_view config v =
     (case v of
        No_Webhook \<Rightarrow> config
      | Webhook_Secret secret blank tail header \<Rightarrow>
          dict_set (dict_set (dict_set config ''has_secret'' (JBool secret)) ''secret_hint''
            (JStr (if blank then [] else case tail of None \<Rightarrow> ''****'' | Some t \<Rightarrow> t))) ''authorization_header_set'' (JBool header))"

lemma secret_hint_view:
  "secret_hint s = (if strip s = [] then [] else case last_four (strip s) of None \<Rightarrow> ''****'' | Some t \<Rightarrow> t)"
  by (simp add: secret_hint_def last_four_def Let_def take_rev)

lemma mask_of_view:
  "mask_config_for_response (rule_config r) (rule_action_kind r) = masked_view (rule_config (fst (public_view r))) (snd (public_view r))"
proof (cases "rule_action_kind r = ACTION_WEBHOOK")
  case True
  have "dict_pop (dict_pop (rule_config r) ''secret'') ''authorization_header''
      = filter (\<lambda>(k, v). k \<notin> set secret_entries) (rule_config r)"
    unfolding dict_pop_def filter_filter secret_entries_def by (rule filter_cong) auto
  then show ?thesis
    using True by (simp add: mask_config_for_response_def public_view_def masked_view_def view_secrets_def secret_hint_view Let_def)
next
  case False
  then show ?thesis by (simp add: mask_config_for_response_def public_view_def masked_view_def)
qed

lemma payload_of_hidden: "\<exists>f. \<forall>r. action_rule_payload r = f (public_view r)"
  by (rule exI[of _ "\<lambda>(h, v). [(''id'', JInt (int (rule_id h))), (''company_id'', JInt (rule_company_id h)), (''name'', JStr (rule_name h)),
      (''description'', JStr (rule_description h)), (''event_type'', JStr (rule_event_type h)), (''enabled'', JBool (rule_enabled h)),
      (''action_kind'', JStr (rule_action_kind h)), (''config'', JDict (masked_view (rule_config h) v)),
      (''created_at'', JTime (rule_created_at h)), (''updated_at'', JTime (rule_updated_at h))]"])
    (simp add: action_rule_payload_def mask_of_view case_prod_beta, simp add: public_view_def)

lemma hidden_payload: "public_view q = public_view r \<Longrightarrow> action_rule_payload q = action_rule_payload r"
  using payload_of_hidden by metis

lemma hidden_payloads:
  "map public_view xs = map public_view ys \<Longrightarrow> map (\<lambda>r. JDict (action_rule_payload r)) xs = map (\<lambda>r. JDict (action_rule_payload r)) ys"
proof -
  assume h: "map public_view xs = map public_view ys"
  obtain f where f: "action_rule_payload r = f (public_view r)" for r using payload_of_hidden by blast
  have "map (\<lambda>r. JDict (action_rule_payload r)) zs = map (\<lambda>q. JDict (f q)) (map public_view zs)" for zs by (simp add: f)
  then show ?thesis using h by metis
qed

lemma hidden_company_rules:
  assumes "same_public d e"
  shows "map public_view (company_rules c e) = map public_view (company_rules c d)"
proof -
  have "map public_view (company_rules c x) = sort_key (\<lambda>v. (rule_event_type (fst v), rule_name (fst v)))
      (filter (\<lambda>v. rule_company_id (fst v) = c) (map public_view (rules x)))" for x
    using map_sort_key[of public_view "\<lambda>v. (rule_event_type (fst v), rule_name (fst v))" "filter (\<lambda>r. rule_company_id r = c) (rules x)"]
      filter_map_key[of public_view "\<lambda>v. rule_company_id (fst v) = c" "rules x"]
    by (simp add: company_rules_def)
  then show ?thesis using assms by (simp add: same_public_def)
qed

lemma hidden_first_rule:
  assumes "same_public d e" "\<And>r. q (public_view r) = p r"
  shows "map_option public_view (first_row p (rules e)) = map_option public_view (first_row p (rules d))"
  using first_row_map[of public_view q "rules e"] first_row_map[of public_view q "rules d"] assms by (simp add: same_public_def)

lemma hidden_delivery:
  assumes s: "same_public d e"
  shows "delivery_payload e att run row = delivery_payload d att run row"
proof -
  let ?rule = "\<lambda>d. case ob_action_rule row of None \<Rightarrow> None | Some i \<Rightarrow> first_row (\<lambda>r. rule_id r = i) (rules d)"
  have "map_option public_view (?rule e) = map_option public_view (?rule d)"
    using hidden_first_rule[OF s, of "\<lambda>v. rule_id (fst v) = the (ob_action_rule row)"]
    by (cases "ob_action_rule row") simp_all
  then have r: "(case ?rule e of Some r \<Rightarrow> rule_name r | None \<Rightarrow> []) = (case ?rule d of Some r \<Rightarrow> rule_name r | None \<Rightarrow> [])"
      "(case ?rule e of Some r \<Rightarrow> rule_action_kind r | None \<Rightarrow> k) = (case ?rule d of Some r \<Rightarrow> rule_action_kind r | None \<Rightarrow> k)" for k
    by (cases "?rule e"; cases "?rule d"; simp; metis public_view_fields)+
  show ?thesis unfolding delivery_payload_def Let_def r same_public_tables[OF s] by (rule refl)
qed

lemma ensure_states_rules: "ensure_states now (d\<lparr>rules := rs\<rparr>) = (ensure_states now d)\<lparr>rules := rs\<rparr>"
proof -
  have s: "ensure_state now j (x\<lparr>rules := rs\<rparr>) = (ensure_state now j x)\<lparr>rules := rs\<rparr>" for j x
    by (simp add: ensure_state_def)
  have "fold (\<lambda>s. ensure_state now (spec_name s)) xs (x\<lparr>rules := rs\<rparr>) = (fold (\<lambda>s. ensure_state now (spec_name s)) xs x)\<lparr>rules := rs\<rparr>" for xs x
    by (induction xs arbitrary: x) (simp_all only: fold_simps s)
  then show ?thesis by (simp add: ensure_states_def)
qed

lemma hidden_overview:
  assumes "same_public d e"
  shows "fst (jobs_overview cfg now chk up pre r e) = fst (jobs_overview cfg now chk up pre r d)"
proof -
  obtain rs where e: "e = d\<lparr>rules := rs\<rparr>" using assms by (auto simp: same_public_def)
  have "job_overview cfg now (x\<lparr>rules := rs\<rparr>) spec = job_overview cfg now x spec" for x spec
    by (simp add: job_overview_def state_of_def last_run_def last_finished_run_def recent_runs_def last_success_run_def
        counter_value_def newest_run_def skipped_total_def Let_def cong: if_cong option.case_cong)
  then show ?thesis by (simp add: e jobs_overview_def ensure_states_rules Let_def)
qed

section \<open>Reads\<close>

lemma for_company_fst:
  assumes "\<And>p c. fst (f p c rq w) = fst (f p c rq v)"
  shows "fst (for_company f user token rq w) = fst (for_company f user token rq v)"
  using assms by (simp add: for_company_def split: sum.split option.split)

lemma for_staff_fst:
  assumes "fst (f rq w) = fst (f rq v)"
  shows "fst (for_staff f user token rq w) = fst (for_staff f user token rq v)"
  using assms by (simp add: for_staff_def split: option.split)

lemma masked_rules_get:
  assumes s: "same_public (w_db w) (w_db v)"
  shows "fst (rules_get ad user token rq v) = fst (rules_get ad user token rq w)"
  unfolding rules_get_def by (rule for_company_fst) (simp only: fst_conv hidden_payloads[OF hidden_company_rules[OF s]])

lemma masked_rule_get:
  assumes s: "same_public (w_db w) (w_db v)"
  shows "fst (rule_get ad pk user token rq v) = fst (rule_get ad pk user token rq w)"
  unfolding rule_get_def with_rule_def
proof (rule for_company_fst)
  fix p c
  have f: "map_option public_view (find_rule pk c (w_db v)) = map_option public_view (find_rule pk c (w_db w))"
    unfolding find_rule_def
    by (rule hidden_first_rule[OF s, where q = "\<lambda>v. rule_id (fst v) = pk \<and> rule_company_id (fst v) = c"]) simp
  show "fst (case find_rule pk c (w_db v) of None \<Rightarrow> (Inr not_found, v)
        | Some r \<Rightarrow> (Inr (Answer 200 (JDict (action_rule_payload r))), v)) =
      fst (case find_rule pk c (w_db w) of None \<Rightarrow> (Inr not_found, w)
        | Some r \<Rightarrow> (Inr (Answer 200 (JDict (action_rule_payload r))), w))"
  proof (cases "find_rule pk c (w_db v)")
    case None
    then have "find_rule pk c (w_db w) = None" using f by simp
    then show ?thesis using None by simp
  next
    case (Some q)
    then obtain r where r: "find_rule pk c (w_db w) = Some r" "public_view q = public_view r" using f by (cases "find_rule pk c (w_db w)") auto
    from hidden_payload[OF r(2)] Some r(1) show ?thesis by simp
  qed
qed

lemma masked_deliveries:
  assumes s: "same_public (w_db w) (w_db v)"
  shows "fst (deliveries_get ad user token rq v) = fst (deliveries_get ad user token rq w)"
    "fst (delivery_get ad i user token rq v) = fst (delivery_get ad i user token rq w)"
proof -
  note t = same_public_tables[OF s]
  have p: "delivery_payload (w_db v) a b = delivery_payload (w_db w) a b" for a b using hidden_delivery[OF s] by blast
  have f: "delivery_filters ad q rq (w_db v) = delivery_filters ad q rq (w_db w)" for q
    unfolding delivery_filters_def t by (rule refl)
  have o1: "webhook_outbox c (w_db v) = webhook_outbox c (w_db w)" "find_delivery i c (w_db v) = find_delivery i c (w_db w)" for c
    by (simp_all add: webhook_outbox_def find_delivery_def t)
  show "fst (deliveries_get ad user token rq v) = fst (deliveries_get ad user token rq w)"
    unfolding deliveries_get_def by (rule for_company_fst) (simp only: fst_conv p f o1)
  show "fst (delivery_get ad i user token rq v) = fst (delivery_get ad i user token rq w)"
    unfolding delivery_get_def by (rule for_company_fst) (simp only: fst_conv p o1)
qed

lemma masked_events:
  assumes s: "same_public (w_db w) (w_db v)"
  shows "fst (event_log_get ad user token rq v) = fst (event_log_get ad user token rq w)"
    "fst (event_detail_get pk user token rq v) = fst (event_detail_get pk user token rq w)"
    "fst (event_retention_get ad user token rq v) = fst (event_retention_get ad user token rq w)"
proof -
  have c: "company_events c (w_db v) = company_events c (w_db w)" for c unfolding company_events_def same_public_tables[OF s] by (rule refl)
  have o1: "retention_status cfg now c (w_db v) = retention_status cfg now c (w_db w)" for cfg now c
    unfolding retention_status_def oldest_event_def same_public_tables[OF s] by (rule refl)
  show "fst (event_log_get ad user token rq v) = fst (event_log_get ad user token rq w)"
    unfolding event_log_get_def c by (rule for_company_fst) (simp only: fst_conv c)
  show "fst (event_detail_get pk user token rq v) = fst (event_detail_get pk user token rq w)"
    unfolding event_detail_get_def by (rule for_company_fst) (simp only: fst_conv same_public_tables[OF s])
  show "fst (event_retention_get ad user token rq v) = fst (event_retention_get ad user token rq w)"
    unfolding event_retention_get_def by (rule for_company_fst) (simp only: fst_conv o1)
qed

lemma masked_jobs:
  assumes s: "same_public (w_db w) (w_db v)"
  shows "fst (jobs_get ad up pre r user token rq v) = fst (jobs_get ad up pre r user token rq w)"
    "fst (job_runs_get job user token rq v) = fst (job_runs_get job user token rq w)"
    "fst (run_detail_get pk user token rq v) = fst (run_detail_get pk user token rq w)"
proof -
  note t = same_public_tables[OF s]
  show "fst (jobs_get ad up pre r user token rq v) = fst (jobs_get ad up pre r user token rq w)"
    unfolding jobs_get_def by (rule for_staff_fst) (simp add: case_prod_beta Let_def hidden_overview[OF s])
  have n: "runs_newest_first k (w_db v) = runs_newest_first k (w_db w)" for k unfolding runs_newest_first_def t by (rule refl)
  show "fst (job_runs_get job user token rq v) = fst (job_runs_get job user token rq w)"
    unfolding job_runs_get_def by (rule for_staff_fst) (simp only: fst_conv n)
  have c: "correlated_attempts n (w_db v) = correlated_attempts n (w_db w)" "correlated_emails n (w_db v) = correlated_emails n (w_db w)" for n
    unfolding correlated_attempts_def correlated_emails_def t by (rule refl)+
  show "fst (run_detail_get pk user token rq v) = fst (run_detail_get pk user token rq w)"
    unfolding run_detail_get_def by (rule for_staff_fst) (simp only: fst_conv c t)
qed

lemma masked_read:
  assumes "handler_of (admin_view ad up pre r rt) m = Some h" "m \<in> {''GET'', ''HEAD''}" "same_public (w_db w) (w_db v)"
  shows "fst (h user token rq v) = fst (h user token rq w)"
proof -
  note masked = masked_rules_get[OF assms(3)] masked_rule_get[OF assms(3)] masked_deliveries[OF assms(3)]
    masked_events[OF assms(3)] masked_jobs[OF assms(3)]
  have const: "fst (events_get ad user token rq v) = fst (events_get ad user token rq w)"
    "fst (event_types_get user token rq v) = fst (event_types_get user token rq w)"
    unfolding events_get_def event_types_get_def by (rule for_company_fst; simp)+
  show ?thesis
    using assms(1,2) by (cases rt) (auto simp: handler_of_def actions_view_def jobs_view_def masked const split: if_splits)
qed

text \<open>The server with the rules \<open>rs\<close>; authentication and throttles do not look at them.\<close>

definition with_rules :: "action_rule list \<Rightarrow> server \<Rightarrow> server" where
  "with_rules rs sv = sv\<lparr>sv_world := (sv_world sv)\<lparr>w_db := (w_db (sv_world sv))\<lparr>rules := rs\<rparr>\<rparr>\<rparr>"

lemma resolve_with_rules:
  "resolve_deploy_token h now raw (d\<lparr>rules := rs\<rparr>) = (case resolve_deploy_token h now raw d of (r, d') \<Rightarrow> (r, d'\<lparr>rules := rs\<rparr>))"
  by (simp add: resolve_deploy_token_def update_token_def Let_def split: option.split)

lemma token_authenticate_with_rules:
  "deploy_token_authenticate h now header (d\<lparr>rules := rs\<rparr>) =
     (case deploy_token_authenticate h now header d of (r, d') \<Rightarrow> (r, d'\<lparr>rules := rs\<rparr>))"
  unfolding deploy_token_authenticate_def resolve_with_rules by (auto split: prod.split sum.split list.split)

lemma authenticate_with_rules:
  "authenticate_request h now jx au header (d\<lparr>rules := rs\<rparr>) c =
     (case authenticate_request h now jx au header d c of (r, d', c') \<Rightarrow> (r, d'\<lparr>rules := rs\<rparr>, c'))"
  unfolding authenticate_request_def token_authenticate_with_rules
  by (simp add: case_prod_beta split: sum.split option.split)

lemma authentication_with_rules:
  "perform_authentication ae v rq (with_rules rs sv) =
     (case perform_authentication ae v rq sv of (r, sv1) \<Rightarrow> (r, with_rules rs sv1))"
  by (simp add: perform_authentication_def with_rules_def authenticate_with_rules split: prod.split)

lemma throttles_with_rules:
  "check_throttles ae v user rq (with_rules rs sv) = (case check_throttles ae v user rq sv of (b, sv1) \<Rightarrow> (b, with_rules rs sv1))"
  by (simp add: check_throttles_def with_rules_def split: option.split prod.split)

lemma authentication_rules:
  assumes "perform_authentication ae v rq sv = (r, sv1)"
  shows "rules (w_db (sv_world sv1)) = rules (w_db (sv_world sv))"
proof -
  obtain ts where "sv_world sv1 = (sv_world sv)\<lparr>w_db := (w_db (sv_world sv))\<lparr>tokens := ts\<rparr>\<rparr>"
    using authentication_tokens[OF assms] by blast
  then show ?thesis by simp
qed

lemma masked_dispatch:
  assumes m: "rq_method rq \<in> {''GET'', ''HEAD''}" and rs: "map public_view rs = map public_view (rules (w_db (sv_world sv)))"
  shows "fst (drf_dispatch (ad_api ad) (admin_view ad up pre r rt) rq (with_rules rs sv))
       = fst (drf_dispatch (ad_api ad) (admin_view ad up pre r rt) rq sv)"
proof -
  let ?v = "admin_view ad up pre r rt" and ?ae = "ad_api ad"
  obtain a sv1 where a: "perform_authentication ?ae ?v rq sv = (a, sv1)" by (metis prod.exhaust)
  have call: "fst (call_handler ?v who rq (with_rules rs sv2)) = fst (call_handler ?v who rq sv2)"
    if t: "check_throttles ?ae ?v u rq sv1 = (b, sv2)" for who u b sv2
  proof -
    have "sv_world sv2 = sv_world sv1" using check_throttles_world[of ?ae ?v u rq sv1] t by simp
    then have s: "same_public (w_db (sv_world sv2)) (w_db (sv_world (with_rules rs sv2)))"
      using rs authentication_rules[OF a] by (auto simp: same_public_def with_rules_def)
    show ?thesis
      using masked_read[OF _ m s] by (auto simp: call_handler_def case_prod_beta split: option.split)
  qed
  show ?thesis
    using call by (auto simp: drf_dispatch_def authentication_with_rules throttles_with_rules a split: sum.split prod.split bool.split)
qed

text \<open>C7. What the reads of the admin API show of the secrets of the rules: the answer to a GET or HEAD request, on any
  route and for any caller (staff included), is the same for two sets of rules with the same public views.
  So an answer shows of a signing secret at most whether one is set, whether it is blank or has at most
  four characters, and the last four characters of a longer one; of an authorization header at most whether one is
  set. What earlier deliveries recorded is part of both states.\<close>

theorem admin_reads_masked:
  assumes m: "rq_method rq \<in> {''GET'', ''HEAD''}"
    and rs: "map public_view rs = map public_view (rules (w_db (sv_world sv)))"
  shows "fst (admin_api ad up pre r path rq (with_rules rs sv)) = fst (admin_api ad up pre r path rq sv)"
  using masked_dispatch[OF m rs] by (simp add: admin_api_def split: option.split)

text \<open>An owner of company 1, with a rule of the company and one of company 2.\<close>

definition owner_claims :: dict where
  "owner_claims = [(''sub'', JStr ''7''), (''company_id'', JInt 1), (''user_metadata'', JDict [(''is_company_owner'', JBool True)])]"

definition demo_admin :: admin_env where
  "demo_admin = \<lparr>ad_api = reader_ae\<lparr>ae_jwt := demo_jwt\<lparr>jx_decode := (\<lambda>_ _ _. Inr owner_claims)\<rparr>\<rparr>, ad_net = demo_net 200,
     ad_char = (\<lambda>_ _ _ v. case v of JStr s \<Rightarrow> Some s | _ \<Rightarrow> None), ad_url = (\<lambda>v. case v of JStr s \<Rightarrow> Some s | _ \<Rightarrow> None),
     ad_bool = (\<lambda>v. case v of JBool b \<Rightarrow> Some b | _ \<Rightarrow> None), ad_parse_datetime = (\<lambda>_. Inr None), ad_random = ''r'',
     ad_uuid = (\<lambda>n. ''u'')\<rparr>"

definition keyed_rule :: "nat \<Rightarrow> company \<Rightarrow> string \<Rightarrow> action_rule" where
  "keyed_rule i c key =
     \<lparr> rule_id = i, rule_company_id = c, rule_name = ''r'', rule_description = [], rule_event_type = ''app.created'', rule_enabled = True,
       rule_action_kind = ACTION_WEBHOOK, rule_config = [(''url'', JStr ''https://h/in''), (''secret'', JStr key)],
       rule_created_at = 0, rule_updated_at = 0 \<rparr>"

definition rules_server :: server where
  "rules_server = reader_server (empty_db\<lparr>rules := [keyed_rule 1 1 ''first-key'', keyed_rule 2 2 ''k'']\<rparr>)"

lemma rules_server_rules: "rules (w_db (sv_world rules_server)) = [keyed_rule 1 1 ''first-key'', keyed_rule 2 2 ''k'']"
  by (simp add: rules_server_def reader_server_def)

lemma rules_answered:
  "map_res answer_status (fst (admin_api demo_admin False [] (\<lambda>_. None) ''actions/rules'' list_request rules_server)) = Inr 200"
  by code_simp

lemma keys_hidden:
  "map public_view [keyed_rule 1 1 ''other-key'', keyed_rule 2 2 ''k''] = map public_view [keyed_rule 1 1 ''first-key'', keyed_rule 2 2 ''k'']"
  by code_simp

theorem admin_reads_masked_witness:
  "fst (admin_api demo_admin False [] (\<lambda>_. None) ''actions/rules'' list_request
          (with_rules [keyed_rule 1 1 ''other-key'', keyed_rule 2 2 ''k''] rules_server))
     = fst (admin_api demo_admin False [] (\<lambda>_. None) ''actions/rules'' list_request rules_server)
   \<and> keyed_rule 1 1 ''other-key'' \<noteq> keyed_rule 1 1 ''first-key''"
proof -
  have "rq_method list_request \<in> {''GET'', ''HEAD''}" by (simp add: list_request_def)
  from admin_reads_masked[OF this, of "[keyed_rule 1 1 ''other-key'', keyed_rule 2 2 ''k'']" rules_server] keys_hidden
  show ?thesis by (simp add: rules_server_rules keyed_rule_def)
qed

end
