(* ===== verification/Admin_Props.thy ===== *)
theory Admin_Props
  imports Admin_Secrets
begin

text \<open>The properties of the admin API: isolation of companies, and tokens that may only read.\<close>

section \<open>Writes\<close>

lemma read_handler_idle:
  assumes "handler_of (admin_view ad up pre r rt) m = Some h" "m \<in> {''GET'', ''HEAD''}" "\<not> pr_is_staff p"
  shows "snd (h (Some p) token rq w) = w"
proof -
  have fc: "snd (for_company f (Some p) token rq w) = w" if "\<And>c. snd (f p c rq w) = w" for f
    using that by (simp add: for_company_def split: sum.split)
  have fs: "snd (for_staff f (Some p) token rq w) = w" for f
    using assms(3) by (simp add: for_staff_def)
  show ?thesis
    using assms(1,2)
    by (cases rt) (auto simp: handler_of_def actions_view_def jobs_view_def rules_get_def events_get_def deliveries_get_def
        delivery_get_def event_log_get_def event_detail_get_def event_types_get_def event_retention_get_def rule_get_def
        with_rule_def jobs_get_def job_runs_get_def run_detail_get_def fs intro!: fc split: if_splits option.split)
qed

text \<open>A read-only token reaches reads only.\<close>

lemma read_only_idle:
  assumes h: "handler_of (admin_view ad up pre r rt) m = Some h" and "vw_permission (admin_view ad up pre r rt) (Some p) m" "m \<noteq> ''OPTIONS''"
    and "dict_get (pr_claims p) ''pat_ro'' = Some (JBool True)" "\<not> pr_is_staff p"
  shows "snd (h (Some p) token rq w) = w"
proof -
  have "m \<in> {''GET'', ''HEAD''}"
    using assms(1-4)
    by (cases rt) (auto simp: actions_view_def jobs_view_def ActionsAdminPermission_def SAFE_METHODS_def handler_of_def split: if_splits)
  then show ?thesis by (rule read_handler_idle[OF h _ assms(5)])
qed

text \<open>C8. Isolation in the admin API: a caller who is not staff changes nothing but the rules and deliveries of the own company
  (and the use recorded for a deploy token), and only as an owner whose token is not read-only; a request
  without valid credentials changes nothing.\<close>

theorem admin_api_isolation:
  assumes ok: "rules_ok (w_db (sv_world sv))" and h: "admin_api ad up pre r path rq sv = (res, sv')"
  shows "case api_caller (ad_api ad) rq sv of
      Inr (Some (p, t)) \<Rightarrow> \<not> pr_is_staff p \<longrightarrow>
        (let d = w_db (sv_world sv); d' = (w_db (sv_world sv'))\<lparr>tokens := tokens d\<rparr>
         in sv_world sv' = (sv_world sv)\<lparr>w_db := w_db (sv_world sv')\<rparr>
          \<and> (d' = d \<or> pr_is_company_owner p \<and> dict_get (pr_claims p) ''pat_ro'' \<noteq> Some (JBool True)
               \<and> (\<exists>c. pr_company_id p = Some c \<and> rules_frame c d d')))
    | _ \<Rightarrow> sv_world sv' = sv_world sv"
proof (cases "admin_route_of path")
  case None
  then show ?thesis using h by (auto simp: admin_api_def split: sum.split option.split)
next
  case (Some rt)
  let ?v = "admin_view ad up pre r rt" and ?w = "sv_world sv"
  have va: "vw_auth ?v" by (cases rt) (simp_all add: actions_view_def jobs_view_def)
  have d: "drf_dispatch (ad_api ad) ?v rq sv = (res, sv')" using h Some by (simp add: admin_api_def)
  obtain a sv1 where au: "perform_authentication (ad_api ad) ?v rq sv = (a, sv1)" by (metis prod.exhaust)
  have A: "a = api_caller (ad_api ad) rq sv" using authentication_effect[OF au] va by simp
  obtain ts where w1: "sv_world sv1 = ?w\<lparr>w_db := (w_db ?w)\<lparr>tokens := ts\<rparr>\<rparr>" using authentication_tokens[OF au] by blast
  have ok1: "rules_ok (w_db (sv_world sv1))" using ok by (simp add: w1)
  let ?old = "\<lambda>d. d\<lparr>tokens := tokens (w_db ?w)\<rparr>"
  have idle: "case a of Inr (Some (p, t)) \<Rightarrow> \<not> pr_is_staff p \<longrightarrow> sv_world sv' = ?w\<lparr>w_db := w_db (sv_world sv')\<rparr>
      \<and> ?old (w_db (sv_world sv')) = w_db ?w | _ \<Rightarrow> sv_world sv' = ?w" if "sv_world sv' = sv_world sv1"
    using that conjunct2[OF authentication_effect[OF au]] by (auto simp: w1 split: sum.split option.split)
  show ?thesis
  proof (rule dispatch_cases[OF d au])
    fix h tok assume "handler_of ?v (rq_method rq) = Some h"
    then show "snd (h None tok rq (sv_world sv1)) = sv_world sv1" by (rule admin_anonymous)
  next
    assume "sv_world sv' = sv_world sv1"
    from idle[OF this] show ?thesis unfolding A[symmetric] by (auto simp: Let_def split: sum.splits option.splits)
  next
    fix p t f
    assume f: "a = Inr (Some (p, t))" "vw_permission ?v (Some p) (rq_method rq)" "rq_method rq \<noteq> ''OPTIONS''"
      "handler_of ?v (rq_method rq) = Some f" "sv_world sv' = snd (f (Some p) t rq (sv_world sv1))"
    have ef: "admin_effect p (sv_world sv1) (sv_world sv')" using admin_handler_effect[OF f(4) ok1] f(5) by simp
    have ro: "sv_world sv' = sv_world sv1" if "dict_get (pr_claims p) ''pat_ro'' = Some (JBool True)" "\<not> pr_is_staff p"
      using read_only_idle[OF f(4) f(2,3) that] f(5) by simp
    have fr: "rules_frame c (w_db ?w) (?old e)" if "rules_frame c (w_db (sv_world sv1)) e" for c e
      using rules_frame_tokens[of c ts "w_db ?w" e] that by (simp add: w1)
    have "\<not> pr_is_staff p \<longrightarrow> sv_world sv' = ?w\<lparr>w_db := w_db (sv_world sv')\<rparr>
        \<and> (?old (w_db (sv_world sv')) = w_db ?w \<or> pr_is_company_owner p \<and> dict_get (pr_claims p) ''pat_ro'' \<noteq> Some (JBool True)
             \<and> (\<exists>c. pr_company_id p = Some c \<and> rules_frame c (w_db ?w) (?old (w_db (sv_world sv')))))"
      using ef ro fr idle f(1) unfolding admin_effect_def w1 by fastforce
    then show ?thesis unfolding A[symmetric] f(1) by (simp add: Let_def)
  qed
qed

definition delete_request :: api_request where
  "delete_request = list_request\<lparr>rq_method := ''DELETE''\<rparr>"

lemma owner_caller:
  "case api_caller (reader_ae\<lparr>ae_jwt := demo_jwt\<lparr>jx_decode := (\<lambda>_ _ _. Inr owner_claims)\<rparr>\<rparr>) delete_request rules_server of
     Inr (Some (p, t)) \<Rightarrow> \<not> pr_is_staff p | _ \<Rightarrow> False"
  by code_simp

lemma owner_deletes:
  "rules (w_db (sv_world (snd (admin_api demo_admin False [] (\<lambda>_. None) ''actions/rules/1'' delete_request rules_server))))
     = [keyed_rule 2 2 ''k'']"
  by code_simp

lemma rules_server_ok: "rules_ok (w_db (sv_world rules_server))"
  by code_simp

text \<open>The owner deletes the rule of the own company; nothing of company 2 changes.\<close>

theorem admin_api_isolation_witness:
  "\<exists>c. rules_frame c (w_db (sv_world rules_server))
     ((w_db (sv_world (snd (admin_api demo_admin False [] (\<lambda>_. None) ''actions/rules/1'' delete_request rules_server))))
       \<lparr>tokens := tokens (w_db (sv_world rules_server))\<rparr>)"
proof -
  have a: "ad_api demo_admin = reader_ae\<lparr>ae_jwt := demo_jwt\<lparr>jx_decode := (\<lambda>_ _ _. Inr owner_claims)\<rparr>\<rparr>"
    by (simp add: demo_admin_def)
  define sv where "sv = snd (admin_api demo_admin False [] (\<lambda>_. None) ''actions/rules/1'' delete_request rules_server)"
  obtain p t where p: "api_caller (ad_api demo_admin) delete_request rules_server = Inr (Some (p, t))" "\<not> pr_is_staff p"
    using owner_caller unfolding a by (auto split: sum.splits option.splits)
  have "rules ((w_db (sv_world sv))\<lparr>tokens := tokens (w_db (sv_world rules_server))\<rparr>) \<noteq> rules (w_db (sv_world rules_server))"
    using owner_deletes by (simp add: sv_def rules_server_rules)
  then have n: "(w_db (sv_world sv))\<lparr>tokens := tokens (w_db (sv_world rules_server))\<rparr> \<noteq> w_db (sv_world rules_server)" by metis
  have "admin_api demo_admin False [] (\<lambda>_. None) ''actions/rules/1'' delete_request rules_server
      = (fst (admin_api demo_admin False [] (\<lambda>_. None) ''actions/rules/1'' delete_request rules_server), sv)"
    by (simp add: sv_def)
  from admin_api_isolation[OF rules_server_ok this] p n show ?thesis unfolding sv_def[symmetric] by (auto simp only: Let_def sum.case option.case prod.case)
qed

end
