(* ===== verification/Claims.thy ===== *)
theory Claims
  imports Retry_Run
begin

text \<open>
  Claims among all other writers of the outbox. The steps of \<open>Delivery_Steps\<close> are labelled with what they
  do, a trace is a sequence of labelled steps, and the lease of a claim is an invariant of every trace
  that contains none of the actions which give a lease back.
\<close>

section \<open>Labelled steps\<close>

datatype action =
    Loaded_Row uuid
  | Finished uuid
  | Stale uuid
  | Gone uuid
  | Claimed uuid time
  | Unlocked uuid
  | Requeued uuid
  | Emitted
  | Deleted "uuid set"
  | Rules_Edited

text \<open>
  A finish either records the attempt (\<open>Finished\<close>), or finds that another worker did (\<open>Stale\<close>) or that
  the row is gone. \<open>Unlocked\<close> is the update of a dry run, \<open>Requeued\<close> the admin's requeue.
\<close>

inductive pool_action :: "settings \<Rightarrow> pool \<Rightarrow> action \<Rightarrow> pool \<Rightarrow> bool" for cfg :: settings where
  Act_Load: "deliver_load i d = Inr (Work w) \<Longrightarrow> pool_action cfg (d, ws) (Loaded_Row i) (d, (i, w) # ws)"
| Act_Finish: "(i, w) \<in> set ws \<Longrightarrow> perform cfg env ms w = (ok, am) \<Longrightarrow>
     deliver_finish cfg (net_clock env) i w ok am trg run d = Inr (d', row) \<Longrightarrow>
     attempts d' \<noteq> attempts d \<Longrightarrow> pool_action cfg (d, ws) (Finished i) (d', remove1 (i, w) ws)"
| Act_Stale: "(i, w) \<in> set ws \<Longrightarrow> perform cfg env ms w = (ok, am) \<Longrightarrow>
     deliver_finish cfg (net_clock env) i w ok am trg run d = Inr (d', row) \<Longrightarrow>
     attempts d' = attempts d \<Longrightarrow> pool_action cfg (d, ws) (Stale i) (d', remove1 (i, w) ws)"
| Act_Gone: "(i, w) \<in> set ws \<Longrightarrow> deliver_finish cfg now i w ok am trg run d = Inl e \<Longrightarrow>
     pool_action cfg (d, ws) (Gone i) (d, remove1 (i, w) ws)"
| Act_Claim: "claim_next_pending_outbox cfg now wall locked d = Some (d', row) \<Longrightarrow>
     pool_action cfg (d, ws) (Claimed (ob_id row) now) (d', ws)"
| Act_Unlock: "pool_action cfg (d, ws) (Unlocked i)
     (d\<lparr>outbox_rows := update_rows (\<lambda>o1. ob_id o1 = i) (\<lambda>o1. o1\<lparr>ob_locked_until := None\<rparr>) (outbox_rows d)\<rparr>, ws)"
| Act_Requeue: "requeue_delivery c i d = Some d' \<Longrightarrow> pool_action cfg (d, ws) (Requeued i) (d', ws)"
| Act_Emit: "emit_event_if_rules cfg now fresh ev c payload actor d = (d', ids) \<Longrightarrow> inj fresh \<Longrightarrow>
     range fresh \<inter> (ob_id ` set (outbox_rows d) \<union> fst ` set ws) = {} \<Longrightarrow> pool_action cfg (d, ws) Emitted (d', ws)"
| Act_Delete: "pool_action cfg (d, ws) (Deleted (ob_id ` {o1 \<in> set (outbox_rows d). p o1})) (delete_outbox_rows p d, ws)"
| Act_Rules: "pool_action cfg (d, ws) Rules_Edited (d\<lparr>rules := rs\<rparr>, ws)"

inductive_cases claim_actionE: "pool_action cfg s (Claimed i now) s'"

inductive pool_trace :: "settings \<Rightarrow> pool \<Rightarrow> action list \<Rightarrow> pool \<Rightarrow> bool" for cfg :: settings where
  Trace_Nil: "pool_trace cfg s [] s"
| Trace_Cons: "pool_action cfg s a s1 \<Longrightarrow> pool_trace cfg s1 as s2 \<Longrightarrow> pool_trace cfg s (a # as) s2"

text \<open>The labels do not change what can happen.\<close>

lemma pool_step_action: "pool_step cfg s s' \<longleftrightarrow> (\<exists>a. pool_action cfg s a s')"
proof
  assume "pool_step cfg s s'"
  then show "\<exists>a. pool_action cfg s a s'"
  proof (cases rule: pool_step.cases)
    case (Step_Finish i w ws env ms ok am trg run d d' row)
    then show ?thesis using Act_Finish[OF Step_Finish(3-5)] Act_Stale[OF Step_Finish(3-5)] by blast
  qed (blast intro: pool_action.intros)+
next
  assume "\<exists>a. pool_action cfg s a s'"
  then obtain a where "pool_action cfg s a s'" by blast
  then show "pool_step cfg s s'" by (cases rule: pool_action.cases) (blast intro: pool_step.intros)+
qed

lemma pool_trace_steps: "(pool_step cfg)\<^sup>*\<^sup>* s s' \<longleftrightarrow> (\<exists>as. pool_trace cfg s as s')"
proof
  assume "(pool_step cfg)\<^sup>*\<^sup>* s s'"
  then show "\<exists>as. pool_trace cfg s as s'"
    by (induction rule: converse_rtranclp_induct) (metis pool_trace.intros pool_step_action)+
next
  assume "\<exists>as. pool_trace cfg s as s'"
  then obtain as where "pool_trace cfg s as s'" by blast
  then show "(pool_step cfg)\<^sup>*\<^sup>* s s'"
    by (induction rule: pool_trace.induct) (auto simp: pool_step_action intro: converse_rtranclp_into_rtranclp)
qed

section \<open>The lease\<close>

text \<open>The row is there, and whoever reads it finds it locked at least until \<open>l\<close>.\<close>

definition leased :: "uuid \<Rightarrow> time \<Rightarrow> pool \<Rightarrow> bool" where
  "leased i l s \<longleftrightarrow> i \<in> ob_id ` set (outbox_rows (fst s))
     \<and> (\<forall>o1\<in>set (outbox_rows (fst s)). ob_id o1 = i \<longrightarrow> (\<exists>u\<ge>l. ob_locked_until o1 = Some u))"

definition gives_back :: "uuid \<Rightarrow> action \<Rightarrow> bool" where
  "gives_back i a \<longleftrightarrow> a \<in> {Finished i, Unlocked i, Requeued i} \<or> (\<exists>is. a = Deleted is \<and> i \<in> is)"

lemma leased_cong: "outbox_rows d' = outbox_rows d \<Longrightarrow> leased i l (d', ws') = leased i l (d, ws)"
  by (simp add: leased_def)

lemma leased_other:
  assumes "leased i l (d, ws)" "outbox_rows d' = update_rows (\<lambda>o1. ob_id o1 = j) f (outbox_rows d)" "j \<noteq> i"
    and "\<And>o1. ob_id o1 = j \<Longrightarrow> ob_id (f o1) = j"
  shows "leased i l (d', ws')"
  using assms unfolding leased_def by (fastforce simp: set_update_rows image_iff)

lemma claim_leases:
  assumes "claim_next_pending_outbox cfg now wall locked d = Some (d', row)"
  shows "leased (ob_id row) (now + seconds (lease_seconds cfg)) (d', ws)"
    and "\<exists>o1\<in>set (outbox_rows d). ob_id o1 = ob_id row \<and> pending_outbox now o1"
    and "\<exists>j. j = ob_id row \<and> outbox_rows d' = update_rows (\<lambda>o1. ob_id o1 = j) (\<lambda>_. row) (outbox_rows d)"
proof -
  obtain r where r: "next_pending now locked d = Some r"
    "row = r\<lparr>ob_locked_until := Some (now + seconds (lease_seconds cfg)), ob_updated_at := wall\<rparr>"
    "d' = d\<lparr>outbox_rows := update_rows (\<lambda>o1. ob_id o1 = ob_id r) (\<lambda>_. row) (outbox_rows d)\<rparr>"
    using claim_Some[OF assms] .
  have m: "r \<in> set (outbox_rows d)" "pending_outbox now r" using next_pending_mem[OF r(1)] by auto
  have id: "ob_id row = ob_id r" by (simp add: r(2))
  show "leased (ob_id row) (now + seconds (lease_seconds cfg)) (d', ws)"
    unfolding leased_def
  proof
    show "ob_id row \<in> ob_id ` set (outbox_rows (fst (d', ws)))" using claimed_row_mem[OF assms] by simp
    show "\<forall>o1\<in>set (outbox_rows (fst (d', ws))). ob_id o1 = ob_id row \<longrightarrow>
        (\<exists>u\<ge>now + seconds (lease_seconds cfg). ob_locked_until o1 = Some u)"
      by (auto simp: r(3) set_update_rows id) (auto simp: r(2))
  qed
  show "\<exists>o1\<in>set (outbox_rows d). ob_id o1 = ob_id row \<and> pending_outbox now o1" using m id by auto
  show "\<exists>j. j = ob_id row \<and> outbox_rows d' = update_rows (\<lambda>o1. ob_id o1 = j) (\<lambda>_. row) (outbox_rows d)"
    using id by (simp add: r(3))
qed

lemma leased_mono: "leased i l s \<Longrightarrow> l' \<le> l \<Longrightarrow> leased i l' s"
  unfolding leased_def by (meson order_trans)

text \<open>While the lease runs, nobody claims the row.\<close>

lemma leased_not_claimed:
  assumes "leased i l s" "pool_action cfg s (Claimed i now) s'"
  shows "l \<le> now"
proof -
  obtain wall locked d d' row ws where c: "s = (d, ws)" "claim_next_pending_outbox cfg now wall locked d = Some (d', row)"
    "ob_id row = i"
    by (rule claim_actionE[OF assms(2)]) auto
  obtain o1 where "o1 \<in> set (outbox_rows d)" "ob_id o1 = i" "pending_outbox now o1"
    using claim_leases(2)[OF c(2)] c(3) by blast
  then show ?thesis using assms(1) c(1) by (fastforce simp: leased_def pending_outbox_def)
qed

lemma leased_action:
  assumes "pool_action cfg s a s'" "leased i l s" "\<not> gives_back i a" "0 \<le> lease_seconds cfg"
  shows "leased i l s'"
  using assms(1)
proof (cases rule: pool_action.cases)
  case (Act_Finish j w ws env ms ok am trg run d d' row)
  have j: "j \<noteq> i" using assms(3) Act_Finish(2) by (simp add: gives_back_def)
  show ?thesis
    by (rule finish_effect[OF Act_Finish(6)])
      (use leased_other[of i l d ws d' j "\<lambda>_. row"] assms(2) Act_Finish(1,3) j in \<open>auto simp: result_row_facts leased_def\<close>)
next
  case (Act_Stale j w ws env ms ok am trg run d d' row)
  have "d' = d" by (rule finish_effect[OF Act_Stale(6)]) (use Act_Stale(7) in auto)
  then show ?thesis using assms(2) Act_Stale(1,3) by (simp add: leased_def)
next
  case (Act_Claim now wall locked d d' row ws)
  show ?thesis
  proof (cases "ob_id row = i")
    case True
    have "l \<le> now" using leased_not_claimed[OF assms(2)] assms(1) Act_Claim(2) True by blast
    then have "l \<le> now + seconds (lease_seconds cfg)" using assms(4) by (simp add: seconds_def)
    then show ?thesis using claim_leases(1)[OF Act_Claim(4), of ws] leased_mono True Act_Claim(3) by blast
  next
    case False
    then show ?thesis
      using leased_other[of i l d ws d' "ob_id row" "\<lambda>_. row" ws] claim_leases(3)[OF Act_Claim(4)] assms(2) Act_Claim(1,3)
      by auto
  qed
next
  case (Act_Unlock d ws j)
  then show ?thesis
    using leased_other[of i l d ws _ j "\<lambda>o1. o1\<lparr>ob_locked_until := None\<rparr>" ws] assms(2,3) by (simp add: gives_back_def)
next
  case (Act_Requeue c j d d' ws)
  let ?f = "\<lambda>o1. o1\<lparr>ob_status := OB_PENDING, ob_next_attempt_at := None, ob_last_error := [], ob_locked_until := None\<rparr>"
  obtain row :: outbox where r: "d' = d\<lparr>outbox_rows := update_rows (\<lambda>o1. ob_id o1 = ob_id row) ?f (outbox_rows d)\<rparr>"
    "first_row (\<lambda>o1. ob_delivery_kind o1 = KIND_WEBHOOK \<and> ob_id o1 = j \<and> ob_company_id o1 = c) (outbox_rows d) = Some row"
    using Act_Requeue(4) by (auto simp: requeue_delivery_def split: option.splits)
  then have "ob_id row = j" by (auto dest: first_row_Some)
  then show ?thesis
    using leased_other[of i l d ws d' j ?f ws] r(1) assms(2,3) Act_Requeue by (simp add: gives_back_def)
next
  case (Act_Emit now fresh ev c payload actor d d' ids ws)
  obtain news where n: "outbox_rows d' = outbox_rows d @ news" "\<forall>o1\<in>set news. ob_id o1 \<in> range fresh"
    using emitted_rows(2)[OF Act_Emit(4,5)] by blast
  have "i \<notin> range fresh" using assms(2) Act_Emit(1,6) by (auto simp: leased_def)
  then have "o1 \<in> set (outbox_rows d)" if "o1 \<in> set (outbox_rows d')" "ob_id o1 = i" for o1 using that n by auto
  then show ?thesis using assms(2) n(1) Act_Emit(1,3) by (auto simp: leased_def)
next
  case (Act_Delete d ws p)
  then show ?thesis
    using assms(2,3) by (auto simp: leased_def gives_back_def delete_outbox_rows_def set_delete_rows image_iff)
qed (use assms(2) in \<open>auto simp: leased_def\<close>)

lemma leased_trace:
  assumes "pool_trace cfg s as s'" "leased i l s" "\<forall>a\<in>set as. \<not> gives_back i a" "0 \<le> lease_seconds cfg"
  shows "leased i l s'"
  using assms by (induction rule: pool_trace.induct) (auto intro: leased_action)

text \<open>A recorded attempt is one more entry of the log of that row.\<close>

lemma finished_records:
  assumes "pool_action cfg s (Finished i) s'"
  shows "\<exists>t. attempts (fst s') = attempts (fst s) @ [t] \<and> att_outbox t = i"
  using assms
proof (cases rule: pool_action.cases)
  case (Act_Finish w ws env ms ok am trg run d d' row)
  show ?thesis by (rule finish_effect[OF Act_Finish(5)]) (use Act_Finish(1,2,6) in auto)
qed

text \<open>C33. A claim holds its row for the length of the lease, whatever the other dispatch threads, retry
  runs, emissions, rule edits and clocks do in between, in every interleaving: when the row a claim returned is
  claimed a second time with a clock before the end of the first lease, then between the two claims an
  attempt of this row was recorded, a dry run took the lease away, an admin requeued the row (which
  clears a lease that still runs), or the row was deleted. The second claim also finds the row due, unlocked
  and neither delivered nor dead. Hypothesis: the configured lease is not negative.\<close>

theorem claim_exclusive:
  assumes "pool_action cfg s (Claimed i now) s1" "pool_trace cfg s1 as s2" "pool_action cfg s2 (Claimed i now') s3"
    and "now' < now + seconds (lease_seconds cfg)" "0 \<le> lease_seconds cfg"
  shows "(Finished i \<in> set as \<or> Unlocked i \<in> set as \<or> Requeued i \<in> set as \<or> (\<exists>is. Deleted is \<in> set as \<and> i \<in> is))
     \<and> (\<exists>o1\<in>set (outbox_rows (fst s2)). ob_id o1 = i \<and> ob_status o1 \<in> {OB_PENDING, OB_FAILED}
          \<and> (\<forall>u. ob_locked_until o1 = Some u \<longrightarrow> u \<le> now') \<and> (\<forall>u. ob_next_attempt_at o1 = Some u \<longrightarrow> u \<le> now'))"
proof -
  have "leased i (now + seconds (lease_seconds cfg)) s1"
    by (rule claim_actionE[OF assms(1)]) (use claim_leases(1) in auto)
  then have "\<exists>a\<in>set as. gives_back i a"
    using leased_trace[OF assms(2) _ _ assms(5)] leased_not_claimed[OF _ assms(3)] assms(4) by fastforce
  then have "Finished i \<in> set as \<or> Unlocked i \<in> set as \<or> Requeued i \<in> set as \<or> (\<exists>is. Deleted is \<in> set as \<and> i \<in> is)"
    by (auto simp: gives_back_def)
  moreover obtain wall locked d d' row ws where c: "s2 = (d, ws)"
    "claim_next_pending_outbox cfg now' wall locked d = Some (d', row)" "ob_id row = i"
    by (rule claim_actionE[OF assms(3)]) auto
  moreover obtain o1 where "o1 \<in> set (outbox_rows d)" "ob_id o1 = i" "pending_outbox now' o1"
    using claim_leases(2)[OF c(2)] c(3) by blast
  ultimately show ?thesis by (auto simp: pending_outbox_def)
qed

text \<open>A dry run that claims one row twice in a row.\<close>

theorem claim_exclusive_witness:
  "\<exists>s s1 s2 s3. pool_action default_settings s (Claimed ''x'' 0) s1 \<and> pool_trace default_settings s1 [Unlocked ''x''] s2
     \<and> pool_action default_settings s2 (Claimed ''x'' 5) s3
     \<and> (\<exists>o1\<in>set (outbox_rows (fst s2)). ob_id o1 = ''x'' \<and> ob_status o1 \<in> {OB_PENDING, OB_FAILED})"
proof -
  let ?d = "empty_db\<lparr>outbox_rows := [demo_row]\<rparr>"
  let ?unlock = "\<lambda>d. d\<lparr>outbox_rows := update_rows (\<lambda>o1. ob_id o1 = ''x'') (\<lambda>o1. o1\<lparr>ob_locked_until := None\<rparr>) (outbox_rows d)\<rparr>"
  obtain d1 row where c1: "claim_next_pending_outbox default_settings 0 0 {} ?d = Some (d1, row)" "ob_id row = ''x''"
    by (simp add: claim_next_pending_outbox_def next_pending_def pending_outbox_def demo_row_def new_outbox_def
        claim_key_def Let_def)
  then obtain d3 row' where c2: "claim_next_pending_outbox default_settings 5 5 {} (?unlock d1) = Some (d3, row')" "ob_id row' = ''x''"
    by (auto simp: claim_next_pending_outbox_def next_pending_def pending_outbox_def demo_row_def new_outbox_def
        claim_key_def Let_def)
  have a: "pool_action default_settings (?d, []) (Claimed ''x'' 0) (d1, [])" using Act_Claim[OF c1(1)] c1(2) by simp
  have b: "pool_trace default_settings (d1, []) [Unlocked ''x''] (?unlock d1, [])" by (rule Trace_Cons[OF Act_Unlock Trace_Nil])
  have c: "pool_action default_settings (?unlock d1, []) (Claimed ''x'' 5) (d3, [])" using Act_Claim[OF c2(1)] c2(2) by simp
  have l: "5 < 0 + seconds (lease_seconds default_settings)" "0 \<le> lease_seconds default_settings"
    by (simp_all add: lease_seconds_def default_settings_def seconds_def)
  show ?thesis using claim_exclusive[OF a b c l] a b c by blast
qed

end
