(* ===== verification/Access_Review.thy ===== *)
theory Access_Review
  imports Api_Props
begin

text \<open>
  Who opens the access of a company: the request of the company, the review over the API, and the shell command
  \<^verbatim>\<open>approve_hosting_access\<close>. The rows of \<^verbatim>\<open>CompanyHostingAccess\<close> are registered in the Django admin as well,
  whose superusers may edit any column; that is Django's code and not modelled.
\<close>

section \<open>apps/hosting/management/commands/approve\_hosting\_access.py\<close>

definition approve_hosting_access :: "time \<Rightarrow> company \<Rightarrow> string \<Rightarrow> db \<Rightarrow> db" where
  "approve_hosting_access now company_id notes_option d =
     (let notes = strip notes_option
      in case get_access company_id d of
           None \<Rightarrow> d\<lparr>accesses := accesses d @
             [\<lparr> acc_company_id = company_id, acc_status = APPROVED, acc_requested_by_id = None, acc_requested_at = now,
                acc_reviewed_by_id = None, acc_reviewed_at = Some now, acc_notes = notes \<rparr>]\<rparr>
         | Some r \<Rightarrow>
             if acc_status r = APPROVED then d
             else save_access (r\<lparr>acc_status := APPROVED, acc_reviewed_at := Some now,
                    acc_notes := (if notes \<noteq> [] then notes else acc_notes r)\<rparr>) d)"

section \<open>Operations that leave the access rows alone\<close>

lemma create_apps_accesses:
  "create_app env c n dn tok u em w = Inr (a, w') \<Longrightarrow> accesses (w_db w') = accesses (w_db w)"
  "create_preview_app env c us dn em w = Inr (a, w') \<Longrightarrow> accesses (w_db w') = accesses (w_db w)"
  by (auto simp: create_app_def create_preview_app_def res_simps Let_def insert_app_Inr split: if_splits)

lemma create_deployment_accesses:
  "create_deployment env a av sv u p em w = Inr (r, w') \<Longrightarrow> accesses (w_db w') = accesses (w_db w)"
  by (auto simp: create_deployment_def res_simps Let_def insert_deployment_Inr split: if_splits)

lemma prepare_accesses:
  assumes "prepare_preview_deploy env c u s dn av sv tok em any w = Inr (a, r, res, w')"
  shows "accesses (w_db w') = accesses (w_db w)"
  by (rule prepare_parts[OF assms]) (use create_apps_accesses(2) create_deployment_accesses in metis)

lemma rows_accesses [simp]:
  "accesses (update_deployment i f d) = accesses d" "accesses (update_app i g d) = accesses d"
  "accesses (supersede_others now ai i d) = accesses d" "accesses (renew_preview_expiry cfg now a d) = accesses d"
  by (simp_all add: update_deployment_def update_app_def supersede_others_def renew_preview_expiry_def)

lemma upload_accesses:
  "upload_deployment_artifact env r f cl w = Inr (r', w') \<Longrightarrow> accesses (w_db w') = accesses (w_db w)"
  by (auto simp: upload_deployment_artifact_def res_simps Let_def split: if_splits)

lemma activate_accesses: "accesses (w_db (snd (activate_deployment env a r act w))) = accesses (w_db w)"
  by (simp add: activate_deployment_def atomic_def activate_body_def Let_def split: sum.split prod.split)

lemma finalize_accesses:
  "finalize_deployment env a r u em tok w = (res, w') \<Longrightarrow> accesses (w_db w') = accesses (w_db w)"
proof -
  assume f: "finalize_deployment env a r u em tok w = (res, w')"
  let ?act = "case u of Some u \<Rightarrow> action_actor (Some u) em | None \<Rightarrow> action_actor (dep_deployed_by_id r) []"
  obtain x w1 where x: "activate_deployment env a r ?act w = (x, w1)" by (metis prod.exhaust)
  have "accesses (w_db w1) = accesses (w_db w)" using activate_accesses[of env a r ?act w] x by simp
  then show ?thesis
    using f x by (auto simp: finalize_deployment_def Let_def mark_deployment_failed_def split: sum.splits prod.splits if_splits)
qed

lemma rollback_accesses:
  "rollback_deployment env a r w = Inr (r', w') \<Longrightarrow> accesses (w_db w') = accesses (w_db w)"
  by (auto simp: rollback_deployment_def Let_def split: if_splits)

lemma renew_accesses: "renew_app_expiry cfg now a d = Inr (a', d') \<Longrightarrow> accesses d' = accesses d"
  by (auto simp: renew_app_expiry_def split: if_splits)

lemma tokens_accesses:
  "create_deploy_token h now i us c n b ttl d = Inr (t, raw, d') \<Longrightarrow> accesses d' = accesses d"
  "revoke_deploy_token now t d = (t', d') \<Longrightarrow> accesses d' = accesses d"
  by (auto simp: create_deploy_token_def insert_token_def revoke_deploy_token_def update_token_def res_simps Let_def
      split: if_splits)

section \<open>Handlers\<close>

definition same_accesses :: "world \<Rightarrow> world \<Rightarrow> bool" where
  "same_accesses w w' \<longleftrightarrow> accesses (w_db w') = accesses (w_db w)"

lemma same_accesses_refl [simp]: "same_accesses w w"
  by (simp add: same_accesses_def)

lemma on_world_accesses:
  "(\<And>x w'. r = Inr (x, w') \<Longrightarrow> same_accesses w w') \<Longrightarrow> same_accesses w (snd (on_world w r))"
  by (auto simp: on_world_def split: sum.split prod.split)

lemma on_world_case: "(\<And>x w'. r = Inr (x, w') \<Longrightarrow> P w') \<Longrightarrow> P w \<Longrightarrow> P (snd (on_world w r))"
  by (auto simp: on_world_def split: sum.split prod.split)

named_theorems keeps_accesses \<open>handlers that leave the access rows alone\<close>

lemma reads_accesses [keeps_accesses]:
  "same_accesses w (snd (access_get ae (Some p) token rq w))"
  "same_accesses w (snd (app_list_get ae (Some p) token rq w))"
  "same_accesses w (snd (app_get ae app_ref (Some p) token rq w))"
  "same_accesses w (snd (deployment_list_get ae app_ref (Some p) token rq w))"
  "same_accesses w (snd (token_list_get ae (Some p) token rq w))"
  "same_accesses w (snd (stats_get ae (Some p) token rq w))"
  "same_accesses w (snd (health_get ae user token rq w))"
  by (simp_all add: access_get_def app_list_get_def app_get_def deployment_list_get_def token_list_get_def stats_get_def
      health_effect)

lemma writes_accesses [keeps_accesses]:
  "same_accesses w (snd (preview_post ae (Some p) token rq w))"
  "same_accesses w (snd (app_list_post ae (Some p) token rq w))"
  "same_accesses w (snd (app_delete ae app_ref (Some p) token rq w))"
  "same_accesses w (snd (renew_expiry_post ae app_ref (Some p) token rq w))"
  "same_accesses w (snd (deployment_list_post ae app_ref (Some p) token rq w))"
  unfolding preview_post_def app_list_post_def app_delete_def renew_expiry_post_def deployment_list_post_def
    signed_in_Some snd_conv Let_def
  by (rule on_world_accesses, force simp: res_simps same_accesses_def delete_app_effect
      dest!: prepare_accesses create_apps_accesses create_deployment_accesses renew_accesses)+

lemma upload_put_accesses [keeps_accesses]: "same_accesses w (snd (upload_put ae app_ref i (Some p) token rq w))"
proof (cases "scoped_deployment p app_ref i w")
  case (Inr ar)
  obtain a r where ar: "ar = (a, r)" by (metis prod.exhaust)
  have "same_accesses w (snd (upload_body ae r rq w))"
    using upload_body_effect[of ae r rq w] upload_accesses unfolding same_accesses_def by metis
  then show ?thesis by (simp add: upload_put_def Inr ar)
qed (simp add: upload_put_def)

lemma finalize_post_accesses [keeps_accesses]: "same_accesses w (snd (finalize_post ae app_ref i (Some p) token rq w))"
proof (cases "scoped_deployment p app_ref i w")
  case (Inr ar)
  obtain a r where ar: "ar = (a, r)" by (metis prod.exhaust)
  obtain res w' where f: "finalize_deployment (ae_env ae) a r (Some (pr_user_id p)) (pr_email p) token w = (res, w')"
    by (metis prod.exhaust)
  have "same_accesses w w'" using finalize_accesses[OF f] by (simp add: same_accesses_def)
  then show ?thesis by (simp add: finalize_post_def Inr ar f split: sum.split prod.split option.split)
qed (simp add: finalize_post_def)

lemma rollback_post_accesses [keeps_accesses]: "same_accesses w (snd (rollback_post ae app_ref i (Some p) token rq w))"
proof (cases "scoped_deployment p app_ref i w")
  case (Inr ar)
  obtain a r where ar: "ar = (a, r)" by (metis prod.exhaust)
  have "same_accesses w w'" if "rollback_deployment (ae_env ae) a r w = Inr (r', w')" for r' w'
    using rollback_accesses[OF that] by (simp add: same_accesses_def)
  then show ?thesis by (simp add: rollback_post_def Inr ar split: sum.split prod.split)
qed (simp add: rollback_post_def)

lemma token_list_post_accesses [keeps_accesses]: "same_accesses w (snd (token_list_post ae (Some p) token rq w))"
proof (cases "body_dict rq")
  case (Inr data)
  show ?thesis
    unfolding token_list_post_def signed_in_Some Inr sum.case snd_conv
    by (rule on_world_accesses) (auto simp: res_simps same_accesses_def dest: tokens_accesses)
qed (simp add: token_list_post_def)

lemma token_revoke_post_accesses [keeps_accesses]: "same_accesses w (snd (token_revoke_post ae i (Some p) token rq w))"
  unfolding token_revoke_post_def signed_in_Some snd_conv
  by (rule on_world_accesses)
    (auto simp: res_simps same_accesses_def case_prod_beta tokens_accesses(2)[OF surjective_pairing] split: option.splits)

lemma metrics_accesses [keeps_accesses]:
  "same_accesses w (snd (metrics_get ae (Some p) token rq w))"
  "same_accesses w (snd (global_metrics_get ae (Some p) token rq w))"
proof -
  have "same_accesses w (snd (scrape ae c w))" for c
  proof (cases c)
    case None
    obtain js where "ensure_states (env_now (ae_env ae)) (w_db w) = (w_db w)\<lparr>job_states := js\<rparr>"
      using ensure_states_only by blast
    then show ?thesis using None by (auto simp: scrape_def metrics_families_def collect_jobs_def Let_def same_accesses_def)
  qed (simp add: scrape_def metrics_families_def)
  then show "same_accesses w (snd (metrics_get ae (Some p) token rq w))"
    "same_accesses w (snd (global_metrics_get ae (Some p) token rq w))"
    by (auto simp: metrics_get_def global_metrics_get_def split: sum.split)
qed


section \<open>Who changes a status\<close>

text \<open>The status of a company as callers see it: no row counts as pending.\<close>

definition status_of :: "company \<Rightarrow> db \<Rightarrow> access_status" where
  "status_of c d = (case get_access c d of None \<Rightarrow> PENDING | Some r \<Rightarrow> acc_status r)"

lemma status_of_cong: "accesses d' = accesses d \<Longrightarrow> status_of c d' = status_of c d"
  by (simp add: status_of_def get_access_def)

lemma get_access_append:
  "get_access x (e\<lparr>accesses := accesses e @ [r]\<rparr>) =
     (case get_access x e of None \<Rightarrow> if acc_company_id r = x then Some r else None | Some y \<Rightarrow> Some y)"
  by (simp add: get_access_def first_row_append split: option.split)

lemma get_access_save:
  "get_access x (save_access r e) = (if x = acc_company_id r \<and> get_access x e \<noteq> None then Some r else get_access x e)"
proof -
  have "first_row (\<lambda>a. acc_company_id a = x) (update_rows (\<lambda>b. acc_company_id b = acc_company_id r) (\<lambda>_. r) xs)
    = (if x = acc_company_id r \<and> first_row (\<lambda>a. acc_company_id a = x) xs \<noteq> None then Some r
       else first_row (\<lambda>a. acc_company_id a = x) xs)" for xs
    by (induction xs) auto
  then show ?thesis by (auto simp: get_access_def save_access_def)
qed

lemma request_effect:
  assumes "request_access now c u d = (r, d')"
  shows "(\<forall>x. x \<noteq> c \<longrightarrow> get_access x d' = get_access x d) \<and> get_access c d' = Some r
     \<and> acc_status r = (case get_access c d of None \<Rightarrow> PENDING
         | Some old \<Rightarrow> if acc_status old = DENIED then PENDING else acc_status old)"
  using assms get_access_company[of c d]
  by (auto simp: request_access_def Let_def new_access_def get_access_append get_access_save split: option.splits if_splits)

lemma review_effect:
  assumes "update_access now c s v n d = Inr (r, d')"
  shows "(\<forall>x. x \<noteq> c \<longrightarrow> get_access x d' = get_access x d) \<and> get_access c d' = Some r
     \<and> access_status_str (acc_status r) = s \<and> acc_reviewed_by_id r = Some v"
  using assms get_access_company[of c d]
  by (auto simp: update_access_def Let_def new_access_def get_access_append get_access_save access_status_of_Some
      split: option.splits)

lemma command_effect:
  "(\<forall>x. x \<noteq> c \<longrightarrow> get_access x (approve_hosting_access now c n d) = get_access x d)
   \<and> status_of c (approve_hosting_access now c n d) = APPROVED"
  using get_access_company[of c d]
  by (auto simp: approve_hosting_access_def status_of_def Let_def get_access_append get_access_save split: option.splits)

text \<open>A handler that sets a status other than pending is the review, and its caller is staff.\<close>

lemma access_post_review:
  assumes "status_of c (w_db (snd (access_post ae (Some p) token rq w))) = s" "s \<noteq> PENDING" "status_of c (w_db w) \<noteq> s"
  shows "pr_is_staff p"
proof (rule ccontr)
  assume ns: "\<not> pr_is_staff p"
  have keep: "status_of c d' \<in> {PENDING, status_of c (w_db w)}"
    if u: "update_access now c' st v n (w_db w) = Inr (r, d')" and st: "st \<notin> {access_status_str APPROVED, access_status_str DENIED}"
    for now c' st v n r d'
  proof (cases "c = c'")
    case True
    note U = review_effect[OF u]
    then have "acc_status r = PENDING" using st by (cases "acc_status r") auto
    then show ?thesis using U True by (simp add: status_of_def)
  next
    case False
    then show ?thesis using review_effect[OF u] by (simp add: status_of_def)
  qed
  have "status_of c (w_db (snd (access_post ae (Some p) token rq w))) \<in> {PENDING, status_of c (w_db w)}"
    unfolding access_post_def signed_in_Some
  proof (rule on_world_case, goal_cases)
    case (1 x w')
    then show ?case
      using ns unfolding bind_res_Inr Let_def
      by (elim exE conjE) (auto simp: map_res_Inr dest!: keep split: sum.splits if_splits prod.splits)
  qed simp
  then show False using assms by auto
qed

lemma access_request_status:
  "status_of c (w_db (snd (access_request_post ae (Some p) token rq w))) \<in> {PENDING, status_of c (w_db w)}"
proof (cases "require_company_id p")
  case (Inr c')
  obtain r d' where q: "request_access (env_now (ae_env ae)) c' (pr_user_id p) (w_db w) = (r, d')" by (metis prod.exhaust)
  have "status_of c d' \<in> {PENDING, status_of c (w_db w)}"
    using request_effect[OF q] by (cases "c = c'") (auto simp: status_of_def split: option.splits if_splits)
  then show ?thesis by (simp add: access_request_post_def Inr q on_world_def split: sum.split prod.split)
qed (simp add: access_request_post_def on_world_def split: sum.split prod.split)


lemma handler_status:
  assumes h: "handler_of (hosting_view ae rt) m = Some h" and m: "m \<noteq> ''HEAD''"
    and st: "status_of c (w_db (snd (h (Some p) token rq w))) \<noteq> PENDING"
      "status_of c (w_db (snd (h (Some p) token rq w))) \<noteq> status_of c (w_db w)"
  shows "pr_is_staff p \<and> rt = R_Access \<and> m = ''POST''"
proof -
  have same: False if "same_accesses w (snd (h (Some p) token rq w))"
    using that st(2) status_of_cong unfolding same_accesses_def by blast
  have req: False if "h = access_request_post ae"
    using st access_request_status[of c ae p token rq w] that by auto
  have rev: "pr_is_staff p" if "h = access_post ae"
    using access_post_review[OF _ st(1) st(2)[symmetric]] that by simp
  show ?thesis
    using h m same req rev
    by (cases rt) (auto simp: handler_of_def mk_view_def keeps_accesses split: if_splits)
qed

lemma hosting_api_status:
  assumes "hosting_api ae path rq sv = (res, sv')" "status_of c (w_db (sv_world sv')) \<noteq> PENDING"
    and "status_of c (w_db (sv_world sv')) \<noteq> status_of c (w_db (sv_world sv))"
  shows "\<exists>p t. api_caller ae rq sv = Inr (Some (p, t)) \<and> pr_is_staff p \<and> hosting_route path = Some R_Access \<and> rq_method rq = ''POST''"
proof (cases "hosting_route path")
  case None
  then show ?thesis using assms by (simp add: hosting_api_def)
next
  case (Some rt)
  let ?v = "hosting_view ae rt"
  have d: "drf_dispatch ae ?v rq sv = (res, sv')" using assms(1) Some by (simp add: hosting_api_def)
  obtain r sv1 where a: "perform_authentication ae ?v rq sv = (r, sv1)" by (metis prod.exhaust)
  obtain ts where "sv_world sv1 = (sv_world sv)\<lparr>w_db := (w_db (sv_world sv))\<lparr>tokens := ts\<rparr>\<rparr>"
    using authentication_tokens[OF a] by blast
  then have s1: "status_of c (w_db (sv_world sv1)) = status_of c (w_db (sv_world sv))" by (intro status_of_cong) simp
  show ?thesis
  proof (rule dispatch_cases[OF d a])
    fix h tok assume "handler_of ?v (rq_method rq) = Some h"
    then show "snd (h None tok rq (sv_world sv1)) = sv_world sv1" by (rule anonymous_effect)
  next
    assume "sv_world sv' = sv_world sv1"
    then show ?thesis using assms(3) s1 by simp
  next
    fix p t h
    assume q: "r = Inr (Some (p, t))" "handler_of ?v (rq_method rq) = Some h"
      "sv_world sv' = snd (h (Some p) t rq (sv_world sv1))"
    have caller: "api_caller ae rq sv = Inr (Some (p, t))"
      using authentication_effect[OF a] q(1) by (auto split: if_splits)
    have H: "status_of c (w_db (snd (h (Some p) t rq (sv_world sv1)))) \<noteq> PENDING"
      "status_of c (w_db (snd (h (Some p) t rq (sv_world sv1)))) \<noteq> status_of c (w_db (sv_world sv1))"
      using assms(2,3) q(3) s1 by simp_all
    have "rq_method rq \<noteq> ''HEAD'' \<or> handler_of ?v ''GET'' = Some h \<and> same_accesses (sv_world sv1) (snd (h (Some p) t rq (sv_world sv1)))"
      using q(2) by (cases rt) (auto simp: handler_of_def mk_view_def keeps_accesses split: if_splits)
    then have "rq_method rq \<noteq> ''HEAD''" using H(2) status_of_cong unfolding same_accesses_def by blast
    then show ?thesis using handler_status[OF q(2) _ H] caller Some by simp
  qed
qed

text \<open>C25. How the access of a company opens. A company that asks for access never grants it to itself: after the request
  its status is the one it had, or pending, and never approved unless it was. A review sets the status it names,
  for that company alone; over the hosting API a status only becomes approved or denied by a POST to the
  access route whose caller is staff, whatever the route, method and body of the request. The access is open
  exactly when the status is approved or the debug switch is on. Outside the API two more ways exist: the shell
  command \<^verbatim>\<open>approve_hosting_access\<close>, which approves the company it names and no other, and the Django
  admin, where superusers edit the rows (not modelled).\<close>

theorem access_workflow:
  "(\<forall>r d'. request_access now c u d = (r, d') \<longrightarrow>
       (\<forall>x. x \<noteq> c \<longrightarrow> get_access x d' = get_access x d) \<and> get_access c d' = Some r
     \<and> acc_status r = (case get_access c d of None \<Rightarrow> PENDING
         | Some old \<Rightarrow> if acc_status old = DENIED then PENDING else acc_status old)
     \<and> access_open cfg c d' = access_open cfg c d)
    \<and> (\<forall>s v n r d'. update_access now c s v n d = Inr (r, d') \<longrightarrow>
       (\<forall>x. x \<noteq> c \<longrightarrow> get_access x d' = get_access x d) \<and> get_access c d' = Some r
     \<and> access_status_str (acc_status r) = s \<and> acc_reviewed_by_id r = Some v
     \<and> access_open cfg c d' = (HOSTING_DEBUG_OPEN cfg \<or> s = ''approved''))
    \<and> (\<forall>ae path rq sv res sv'. hosting_api ae path rq sv = (res, sv')
       \<and> status_of c (w_db (sv_world sv')) \<in> {APPROVED, DENIED}
       \<and> status_of c (w_db (sv_world sv')) \<noteq> status_of c (w_db (sv_world sv)) \<longrightarrow>
         (\<exists>p t. api_caller ae rq sv = Inr (Some (p, t)) \<and> pr_is_staff p
            \<and> hosting_route path = Some R_Access \<and> rq_method rq = ''POST''))
    \<and> (\<forall>remark. (\<forall>x. x \<noteq> c \<longrightarrow> get_access x (approve_hosting_access now c remark d) = get_access x d)
       \<and> access_open cfg c (approve_hosting_access now c remark d))"
proof -
  have opn: "access_open cfg c e \<longleftrightarrow> HOSTING_DEBUG_OPEN cfg \<or> (\<exists>r. get_access c e = Some r \<and> acc_status r = APPROVED)" for e
    by (auto simp: access_open_def assert_hosting_access_def split: option.splits)
  have str: "access_status_str s = ''approved'' \<longleftrightarrow> s = APPROVED" for s by (cases s) simp_all
  show ?thesis
  proof (intro conjI allI impI)
    fix r d' assume q: "request_access now c u d = (r, d')"
    show "access_open cfg c d' = access_open cfg c d"
      using request_effect[OF q] unfolding opn by (auto split: option.splits if_splits)
  next
    fix s v n r d' assume q: "update_access now c s v n d = Inr (r, d')"
    show "access_open cfg c d' = (HOSTING_DEBUG_OPEN cfg \<or> s = ''approved'')"
      using review_effect[OF q] str unfolding opn by auto
  next
    fix remark show "access_open cfg c (approve_hosting_access now c remark d)"
      using command_effect[of c now remark d] unfolding opn by (auto simp: status_of_def split: option.splits)
  next
    fix ae path rq sv res sv'
    assume "hosting_api ae path rq sv = (res, sv') \<and> status_of c (w_db (sv_world sv')) \<in> {APPROVED, DENIED}
       \<and> status_of c (w_db (sv_world sv')) \<noteq> status_of c (w_db (sv_world sv))"
    then show "\<exists>p t. api_caller ae rq sv = Inr (Some (p, t)) \<and> pr_is_staff p
            \<and> hosting_route path = Some R_Access \<and> rq_method rq = ''POST''"
      by (elim conjE) (rule hosting_api_status[of ae path rq sv res sv' c], auto)
  qed (use request_effect review_effect command_effect in blast)+
qed

text \<open>A member of staff approves company 2 over the API.\<close>

definition staff_claims :: dict where
  "staff_claims = [(''sub'', JStr ''1''), (''user_metadata'', JDict [(''is_staff'', JBool True)])]"

definition staff_ae :: api_env where
  "staff_ae = demo_ae\<lparr>ae_jwt := demo_jwt\<lparr>jx_decode := (\<lambda>_ _ _. Inr staff_claims)\<rparr>\<rparr>"

definition approve_request :: api_request where
  "approve_request = demo_request ''POST'' ''Bearer a.b.c'' [(''company_id'', JInt 2), (''status'', JStr ''approved'')]"

lemma approve_run:
  "status_of 2 (w_db (sv_world (snd (hosting_api staff_ae ''access'' approve_request empty_server)))) = APPROVED"
  "status_of 2 (w_db (sv_world empty_server)) = PENDING"
  by code_simp+

theorem access_workflow_witness:
  "\<exists>r d' r2 d2. request_access 9 2 7 demo_db = (r, d') \<and> access_open default_settings 2 d' = access_open default_settings 2 demo_db
     \<and> update_access 9 2 ''approved'' 1 [] demo_db = Inr (r2, d2) \<and> access_open default_settings 2 d2
     \<and> (\<exists>p t. api_caller staff_ae approve_request empty_server = Inr (Some (p, t)) \<and> pr_is_staff p)"
proof -
  obtain r d' where q: "request_access 9 2 7 demo_db = (r, d')" by (rule prod.exhaust)
  have "isl (update_access 9 2 ''approved'' 1 [] demo_db) = False" by code_simp
  then obtain r2 d2 where u: "update_access 9 2 ''approved'' 1 [] demo_db = Inr (r2, d2)"
    by (cases "update_access 9 2 ''approved'' 1 [] demo_db") auto
  obtain res sv' where h: "hosting_api staff_ae ''access'' approve_request empty_server = (res, sv')" by (rule prod.exhaust)
  have s: "status_of 2 (w_db (sv_world sv')) = APPROVED" using approve_run(1) h by simp
  have "\<exists>p t. api_caller staff_ae approve_request empty_server = Inr (Some (p, t)) \<and> pr_is_staff p
      \<and> hosting_route ''access'' = Some R_Access \<and> rq_method approve_request = ''POST''"
    by (rule access_workflow[of 9 2 7 demo_db default_settings, THEN conjunct2, THEN conjunct2, THEN conjunct1, rule_format, of staff_ae "''access''" approve_request empty_server res sv'])
      (use h s approve_run(2) in simp)
  then obtain p t where "api_caller staff_ae approve_request empty_server = Inr (Some (p, t))" "pr_is_staff p" by blast
  moreover have "access_open default_settings 2 d' = access_open default_settings 2 demo_db"
    using access_workflow[of 9 2 7 demo_db default_settings, THEN conjunct1] q by blast
  moreover have "access_open default_settings 2 d2"
    using access_workflow[of 9 2 7 demo_db default_settings, THEN conjunct2, THEN conjunct1] u by blast
  ultimately show ?thesis using q u by blast
qed

end
