(* ===== verification/Deploy_Config.thy ===== *)
theory Deploy_Config
  imports Net Rate_Limits Identity_Auth
begin

text \<open>
  The settings module (\<^verbatim>\<open>config/settings.py\<close>) as a function of the environment, with the S3 helpers
  (\<^verbatim>\<open>config/s3utils.py\<close>) and the cookie names (\<^verbatim>\<open>config/cookies.py\<close>). A section of the module is a record and its
  loader; an \<^verbatim>\<open>ImproperlyConfigured\<close> keeps the name of the setting. The environment (with \<^verbatim>\<open>.env\<close>
  loaded), the version of the project file, the files, the JSON parser and \<^verbatim>\<open>float()\<close> are arguments; a
  float is kept as its canonical text. What the module only hands to Django, Celery, logging or
  Sentry as a constant is left out, and so is the parser of the database URL.
\<close>

section \<open>Reading the environment\<close>

datatype config_error = Improperly_Configured "string list" | Startup_Value_Error

record boot_env =
  be_env :: "string \<Rightarrow> string option"
  be_float :: "string \<Rightarrow> string option"
  be_json :: "string \<Rightarrow> json option"
  be_file :: "string \<Rightarrow> string option"
  be_base_dir :: string
  be_version :: string

abbreviation improper :: "string \<Rightarrow> config_error + 'a" where
  "improper n \<equiv> Inl (Improperly_Configured [n])"

definition getenv :: "boot_env \<Rightarrow> string \<Rightarrow> string \<Rightarrow> string" where
  "getenv be n dflt = (case be_env be n of None \<Rightarrow> dflt | Some v \<Rightarrow> v)"

definition env_text :: "boot_env \<Rightarrow> string \<Rightarrow> string" where
  "env_text be n = strip (getenv be n [])"

definition env_csv :: "boot_env \<Rightarrow> string \<Rightarrow> string list \<Rightarrow> string list" where
  "env_csv be n dflt =
     (let raw = env_text be n
      in if raw = [] then dflt else filter (\<lambda>s. s \<noteq> []) (map strip (split_on CHR '','' raw)))"

definition env_float :: "boot_env \<Rightarrow> string \<Rightarrow> string \<Rightarrow> config_error + string" where
  "env_float be n dflt =
     (let raw = env_text be n
      in if raw = [] then Inr dflt else case be_float be raw of None \<Rightarrow> improper n | Some x \<Rightarrow> Inr x)"

definition env_int :: "boot_env \<Rightarrow> string \<Rightarrow> int \<Rightarrow> config_error + int" where
  "env_int be n dflt =
     (let raw = env_text be n
      in if raw = [] then Inr dflt else case parse_int raw of None \<Rightarrow> improper n | Some i \<Rightarrow> Inr i)"

definition truthy_text :: "string \<Rightarrow> bool" where
  "truthy_text s = (lower s \<in> set [''1'', ''true'', ''yes'', ''on''])"

definition env_bool :: "boot_env \<Rightarrow> string \<Rightarrow> bool \<Rightarrow> bool" where
  "env_bool be n dflt = (let raw = env_text be n in if raw = [] then dflt else truthy_text raw)"

text \<open>\<^verbatim>\<open>(\d+)([KkMmGgTt])?\<close>: a number with the multiplier of its suffix.\<close>

definition size_unit :: "char \<Rightarrow> int option" where
  "size_unit c = map_of [(CHR ''k'', 1024), (CHR ''m'', 1024 ^ 2), (CHR ''g'', 1024 ^ 3), (CHR ''t'', 1024 ^ 4)] (lower_char c)"

definition parse_bytes :: "string \<Rightarrow> int option" where
  "parse_bytes raw =
     (let digits = takeWhile is_digit raw
      in if digits = [] then None
         else case dropWhile is_digit raw of
                [] \<Rightarrow> Some (int (digits_val digits))
              | [u] \<Rightarrow> map_option (\<lambda>k. int (digits_val digits) * k) (size_unit u)
              | _ \<Rightarrow> None)"

definition env_bytes :: "boot_env \<Rightarrow> string \<Rightarrow> int \<Rightarrow> config_error + int" where
  "env_bytes be n dflt =
     (let raw = env_text be n
      in if raw = [] then Inr dflt else case parse_bytes raw of None \<Rightarrow> improper n | Some i \<Rightarrow> Inr i)"

definition or_else :: "string \<Rightarrow> string \<Rightarrow> string" where
  "or_else s dflt = (if s = [] then dflt else s)"

definition upper_char :: "char \<Rightarrow> char" where
  "upper_char c = (if is_lower c then char_of (ch c - 32) else c)"

section \<open>s3utils.py\<close>

definition url_of :: "string \<Rightarrow> config_error + parsed_url" where
  "url_of s = (case urlparse s of None \<Rightarrow> Inl Startup_Value_Error | Some p \<Rightarrow> Inr p)"

definition with_https :: "string \<Rightarrow> string" where
  "with_https raw = (if contains raw ''://'' then raw else ''https://'' @ raw)"

text \<open>The empty text stands for \<^verbatim>\<open>None\<close>.\<close>

definition normalize_s3_endpoint :: "string \<Rightarrow> string \<Rightarrow> config_error + string" where
  "normalize_s3_endpoint url bucket_name =
     (let raw = strip url in
      if raw = [] then Inr []
      else bind_res (url_of (with_https raw)) (\<lambda>parsed.
        let host = url_hostname parsed; bucket = lower (strip bucket_name);
            rest = drop (length bucket + 1) host;
            host2 = (if bucket \<noteq> [] \<and> startswith host (bucket @ ''.'') \<and> startswith rest ''s3.'' then rest else host)
        in if host = [] then Inr []
           else case url_port parsed of
                  None \<Rightarrow> Inl Startup_Value_Error
                | Some port \<Rightarrow>
                    Inr (pu_scheme parsed @ ''://'' @ host2
                      @ (case port of None \<Rightarrow> [] | Some p \<Rightarrow> if p = 0 then [] else '':'' @ int_str p))))"

definition DEFAULT_REGION :: string where
  "DEFAULT_REGION = ''us-east-1''"

definition hostname_of :: "string \<Rightarrow> config_error + string" where
  "hostname_of endpoint = (if endpoint = [] then Inr [] else map_res url_hostname (url_of endpoint))"

text \<open>\<^verbatim>\<open>_OVH_S3_HOST\<close>: the region of an OVH endpoint.\<close>

definition ovh_region :: "string \<Rightarrow> string option" where
  "ovh_region host =
     (let rest = drop 3 host; region = takeWhile (\<lambda>c. is_lower c \<or> is_digit c \<or> c = CHR ''-'') rest
      in if startswith host ''s3.'' \<and> region \<noteq> []
            \<and> drop (length region) rest \<in> set [''.io.cloud.ovh.net'', ''.perf.cloud.ovh.net'', ''.cloud.ovh.net'']
         then Some region else None)"

definition infer_s3_region :: "string \<Rightarrow> string \<Rightarrow> config_error + string" where
  "infer_s3_region endpoint configured =
     (let region = or_else (strip configured) DEFAULT_REGION
      in map_res (\<lambda>host. case ovh_region host of
                           Some r \<Rightarrow> if region = DEFAULT_REGION then r else region | None \<Rightarrow> region)
           (hostname_of endpoint))"

definition infer_addressing_style :: "string \<Rightarrow> string \<Rightarrow> config_error + string" where
  "infer_addressing_style endpoint explicit =
     (let style = lower (strip explicit) in
      if style \<in> set [''path'', ''virtual'', ''auto''] then Inr style
      else if endpoint = [] then Inr ''virtual''
      else map_res (\<lambda>h. let host = lower h in
             if host \<in> set [''localhost'', ''127.0.0.1'', ''::1''] \<or> endswith host ''.local'' then ''path''
             else if host = ''minio'' \<or> startswith host ''minio.'' \<or> contains host ''.minio.'' then ''path''
             else if ip_address host \<noteq> None then ''path''
             else if startswith host ''s3.'' \<or> contains host ''.s3.'' then ''virtual'' else ''path'')
           (hostname_of endpoint))"

definition normalize_custom_domain :: "string \<Rightarrow> string \<Rightarrow> config_error + string" where
  "normalize_custom_domain custom endpoint =
     (let raw = strip custom in
      if raw = [] then Inr []
      else bind_res (url_of (with_https raw)) (\<lambda>parsed.
        let custom_host = or_else (url_hostname parsed) raw
        in map_res (\<lambda>endpoint_host. if endpoint_host \<noteq> [] \<and> custom_host = endpoint_host then [] else raw)
             (hostname_of endpoint)))"

section \<open>cookies.py\<close>

definition cookie_name :: "string \<Rightarrow> bool \<Rightarrow> string" where
  "cookie_name base secure = (if secure then ''__Host-'' @ base else base)"

section \<open>Core settings\<close>

record core_settings =
  SECRET_KEY :: string
  DEBUG :: bool
  SETUP_TOKEN :: string
  LOG_LEVEL :: string
  CSRF_TRUSTED_ORIGINS :: "string list"
  TRUSTED_PROXY_IPS :: "string list"
  VERSION :: string

definition load_core :: "boot_env \<Rightarrow> config_error + core_settings" where
  "load_core be =
     (let debug = truthy_text (strip (getenv be ''DEBUG'' ''false'')); level = (if debug then ''DEBUG'' else ''INFO'')
      in if env_text be ''SECRET_KEY'' = [] then improper ''SECRET_KEY''
         else if strip (be_version be) = [] then improper ''project.version''
         else Inr \<lparr> SECRET_KEY = env_text be ''SECRET_KEY'', DEBUG = debug, SETUP_TOKEN = env_text be ''SETUP_TOKEN'',
                    LOG_LEVEL = or_else (map upper_char (strip (getenv be ''LOG_LEVEL'' level))) level,
                    CSRF_TRUSTED_ORIGINS = env_csv be ''CSRF_TRUSTED_ORIGINS''
                      [''http://localhost:8002'', ''http://127.0.0.1:8002'', ''http://localhost:4000'', ''http://127.0.0.1:4000'',
                       ''http://localhost:5174'', ''http://127.0.0.1:5174'', ''https://admin.shellui.com''],
                    TRUSTED_PROXY_IPS = env_csv be ''TRUSTED_PROXY_IPS'' [], VERSION = strip (be_version be) \<rparr>)"

section \<open>Webhooks and the email service\<close>

record actions_settings =
  as_MAX_ATTEMPTS :: int
  as_TIMEOUT :: string
  as_RETRY_LEASE :: int
  as_DISPATCH_WORKERS :: int
  as_SYNC_DELIVERY :: bool
  as_ALLOW_PRIVATE :: bool
  as_EVENT_LOG_RETENTION_DAYS :: int
  as_EMAIL_SERVICE_URL :: string
  as_EMAIL_SERVICE_API_KEY :: string
  as_EMAIL_SERVICE_ALLOW_PRIVATE :: bool

definition load_actions :: "boot_env \<Rightarrow> bool \<Rightarrow> config_error + actions_settings" where
  "load_actions be debug =
     bind_res (env_int be ''ACTIONS_OUTBOX_MAX_ATTEMPTS'' 8) (\<lambda>attempts.
     bind_res (env_float be ''ACTIONS_WEBHOOK_TIMEOUT_SECONDS'' ''5.0'') (\<lambda>timeout.
     bind_res (env_int be ''ACTIONS_WEBHOOK_RETRY_LEASE_SECONDS'' 120) (\<lambda>lease.
     bind_res (env_int be ''ACTIONS_WEBHOOK_DISPATCH_WORKERS'' 4) (\<lambda>workers.
     map_res (\<lambda>retention.
       \<lparr> as_MAX_ATTEMPTS = attempts, as_TIMEOUT = timeout, as_RETRY_LEASE = lease, as_DISPATCH_WORKERS = workers,
         as_SYNC_DELIVERY = env_bool be ''ACTIONS_WEBHOOK_SYNC_DELIVERY'' False,
         as_ALLOW_PRIVATE = env_bool be ''ACTIONS_WEBHOOK_ALLOW_PRIVATE'' debug, as_EVENT_LOG_RETENTION_DAYS = retention,
         as_EMAIL_SERVICE_URL =
           or_else (rstrip_char CHR ''/'' (strip (getenv be ''EMAIL_SERVICE_URL'' ''https://email.shellui.com''))) ''https://email.shellui.com'',
         as_EMAIL_SERVICE_API_KEY = env_text be ''EMAIL_SERVICE_API_KEY'',
         as_EMAIL_SERVICE_ALLOW_PRIVATE = env_bool be ''EMAIL_SERVICE_ALLOW_PRIVATE'' False \<rparr>)
       (env_int be ''EVENT_LOG_RETENTION_DAYS'' 7)))))"

section \<open>Database and storage\<close>

datatype database = Postgres_Database string bool | Sqlite_Database string

definition load_database :: "boot_env \<Rightarrow> bool \<Rightarrow> database" where
  "load_database be debug =
     (let url = env_text be ''POSTGRES_DATABASE_URL'' in
      if url \<noteq> [] then Postgres_Database url (env_bool be ''POSTGRES_SSL_REQUIRE'' (\<not> debug))
      else Sqlite_Database (getenv be ''SQLITE_PATH'' (be_base_dir be @ ''/db.sqlite3'')))"

record storage_settings =
  ss_HOSTING_BACKEND :: string
  ss_MEDIA_ROOT :: string
  AWS_ACCESS_KEY_ID :: string
  AWS_SECRET_ACCESS_KEY :: string
  AWS_STORAGE_BUCKET_NAME :: string
  AWS_S3_ENDPOINT_URL :: string
  AWS_S3_REGION_NAME :: string
  AWS_S3_CUSTOM_DOMAIN :: string
  AWS_S3_SIGNATURE_VERSION :: string
  AWS_S3_ADDRESSING_STYLE :: string
  ss_HOSTING_KEY_PREFIX :: string

definition load_storage :: "boot_env \<Rightarrow> config_error + storage_settings" where
  "load_storage be =
     (let backend = lower (strip (getenv be ''HOSTING_BACKEND'' ''filesystem'')); bucket = env_text be ''AWS_STORAGE_BUCKET_NAME''
      in if backend \<notin> set [''s3'', ''filesystem''] then improper ''HOSTING_BACKEND''
         else bind_res (normalize_s3_endpoint (env_text be ''AWS_S3_ENDPOINT_URL'') bucket) (\<lambda>endpoint.
              bind_res (infer_s3_region endpoint (getenv be ''AWS_S3_REGION_NAME'' ''us-east-1'')) (\<lambda>region.
              bind_res (normalize_custom_domain (env_text be ''AWS_S3_CUSTOM_DOMAIN'') endpoint) (\<lambda>custom.
              bind_res (infer_addressing_style endpoint (getenv be ''AWS_S3_ADDRESSING_STYLE'' [])) (\<lambda>style.
              if style \<notin> set [''path'', ''virtual'', ''auto''] then improper ''AWS_S3_ADDRESSING_STYLE''
              else if backend = ''s3'' \<and> bucket = [] then improper ''AWS_STORAGE_BUCKET_NAME''
              else Inr \<lparr> ss_HOSTING_BACKEND = backend,
                         ss_MEDIA_ROOT = or_else (env_text be ''MEDIA_ROOT'') (be_base_dir be @ ''/data/media''),
                         AWS_ACCESS_KEY_ID = env_text be ''AWS_ACCESS_KEY_ID'', AWS_SECRET_ACCESS_KEY = env_text be ''AWS_SECRET_ACCESS_KEY'',
                         AWS_STORAGE_BUCKET_NAME = bucket, AWS_S3_ENDPOINT_URL = endpoint, AWS_S3_REGION_NAME = region,
                         AWS_S3_CUSTOM_DOMAIN = custom,
                         AWS_S3_SIGNATURE_VERSION = or_else (strip (getenv be ''AWS_S3_SIGNATURE_VERSION'' ''s3v4'')) ''s3v4'',
                         AWS_S3_ADDRESSING_STYLE = style,
                         ss_HOSTING_KEY_PREFIX = strip_char CHR ''/'' (strip (getenv be ''HOSTING_KEY_PREFIX'' ''hosting'')) \<rparr>)))))"

section \<open>Identity\<close>

record identity_settings =
  id_auth :: auth_settings
  id_DOCUMENT :: "dict option"
  id_SOURCE :: string
  id_FILE :: string
  id_SERVICE_URL :: string
  id_JWKS_URL :: string
  id_SYNC_TIMEOUT :: string
  id_CACHE_TTL :: int
  id_TIMEOUT :: string
  id_RETRIES :: int

definition parse_jwks_document :: "boot_env \<Rightarrow> bool \<Rightarrow> string \<Rightarrow> string \<Rightarrow> config_error + dict" where
  "parse_jwks_document be debug raw source =
     (case be_json be raw of
        Some (JDict document) \<Rightarrow>
          (case dict_get document ''keys'' of
             Some (JList keys) \<Rightarrow>
               if keys = [] \<and> \<not> (debug \<and> env_text be ''JWT_HS256_FALLBACK_SECRET'' \<noteq> []) then improper source else Inr document
           | _ \<Rightarrow> improper source)
      | _ \<Rightarrow> improper source)"

text \<open>The document, its source and the path of its file; a relative path starts at the base directory.\<close>

definition load_static_jwks :: "boot_env \<Rightarrow> bool \<Rightarrow> config_error + (dict option \<times> string \<times> string)" where
  "load_static_jwks be debug =
     (let file_path = env_text be ''IDENTITY_JWKS_FILE''; raw = env_text be ''IDENTITY_JWKS'';
          path = (if startswith file_path ''/'' then file_path else be_base_dir be @ ''/'' @ file_path)
      in if file_path \<noteq> [] then
           (case be_file be path of
              None \<Rightarrow> improper ''IDENTITY_JWKS_FILE''
            | Some s \<Rightarrow> map_res (\<lambda>d. (Some d, ''file'', path)) (parse_jwks_document be debug s path))
         else if raw \<noteq> [] then map_res (\<lambda>d. (Some d, ''env'', [])) (parse_jwks_document be debug raw ''IDENTITY_JWKS'')
         else Inr (None, [], []))"

definition resolve_identity_jwks_url :: "boot_env \<Rightarrow> string" where
  "resolve_identity_jwks_url be =
     (let explicit = env_text be ''IDENTITY_JWKS_URL''; base = rstrip_char CHR ''/'' (env_text be ''IDENTITY_SERVICE_URL'')
      in if explicit \<noteq> [] then rstrip_char CHR ''/'' explicit
         else if base \<noteq> [] then base @ ''/.well-known/jwks.json''
         else ''http://localhost:8000/.well-known/jwks.json'')"

definition opt_text :: "string \<Rightarrow> string option" where
  "opt_text s = (if s = [] then None else Some s)"

text \<open>Without a pinned document the URL has to be absolute.\<close>

definition jwks_url_setting :: "boot_env \<Rightarrow> dict option \<Rightarrow> config_error + string" where
  "jwks_url_setting be document =
     (let url = resolve_identity_jwks_url be
      in if document \<noteq> None then Inr (rstrip_char CHR ''/'' (env_text be ''IDENTITY_JWKS_URL''))
         else if startswith url ''http://'' \<or> startswith url ''https://'' then Inr url
         else improper ''IDENTITY_JWKS_URL'')"

definition auth_setting :: "boot_env \<Rightarrow> bool \<Rightarrow> config_error + auth_settings" where
  "auth_setting be debug =
     (let secret = env_text be ''JWT_HS256_FALLBACK_SECRET''; allow = truthy_text (env_text be ''ALLOW_JWT_HS256_FALLBACK'')
      in if secret \<noteq> [] \<and> \<not> debug \<and> \<not> allow then improper ''JWT_HS256_FALLBACK_SECRET''
         else Inr \<lparr> au_DEBUG = debug, JWT_ALGORITHMS = env_csv be ''JWT_ALGORITHMS'' [''RS256''],
                    IDENTITY_AUDIENCE = opt_text (env_text be ''IDENTITY_AUDIENCE''), IDENTITY_ISSUER = opt_text (env_text be ''IDENTITY_ISSUER''),
                    JWT_HS256_FALLBACK_SECRET = opt_text secret, ALLOW_JWT_HS256_FALLBACK = allow \<rparr>)"

definition load_identity :: "boot_env \<Rightarrow> bool \<Rightarrow> config_error + identity_settings" where
  "load_identity be debug =
     bind_res (load_static_jwks be debug) (\<lambda>jwks.
     bind_res (jwks_url_setting be (fst jwks)) (\<lambda>url.
     bind_res (env_float be ''IDENTITY_SYNC_TIMEOUT'' ''10.0'') (\<lambda>sync.
     bind_res (env_int be ''JWKS_CACHE_TTL'' 900) (\<lambda>ttl.
     bind_res (env_float be ''JWKS_TIMEOUT'' ''15.0'') (\<lambda>timeout.
     bind_res (env_int be ''JWKS_RETRIES'' 2) (\<lambda>retries.
     map_res (\<lambda>auth.
       \<lparr> id_auth = auth, id_DOCUMENT = fst jwks, id_SOURCE = fst (snd jwks), id_FILE = snd (snd jwks),
         id_SERVICE_URL = rstrip_char CHR ''/'' (env_text be ''IDENTITY_SERVICE_URL''), id_JWKS_URL = url,
         id_SYNC_TIMEOUT = sync, id_CACHE_TTL = ttl, id_TIMEOUT = timeout, id_RETRIES = retries \<rparr>)
       (auth_setting be debug)))))))"

section \<open>Quotas\<close>

record quota_settings =
  qs_MAX_APPS :: int
  qs_MAX_DEPLOYMENTS :: int
  qs_MAX_UPLOAD_BYTES :: int
  qs_MAX_EXTRACT_FILES :: int
  qs_MAX_EXTRACT_BYTES :: int
  qs_MAX_EXTRACT_FILE_BYTES :: int
  qs_PREVIEW_TTL_DAYS :: int
  qs_SERVE_CACHE_TTL :: int

definition load_quotas :: "boot_env \<Rightarrow> config_error + quota_settings" where
  "load_quotas be =
     bind_res (env_int be ''HOSTING_MAX_APPS_PER_COMPANY'' 5) (\<lambda>max_apps.
     bind_res (env_int be ''HOSTING_MAX_DEPLOYMENTS_PER_APP'' 20) (\<lambda>max_deployments.
     bind_res (env_bytes be ''HOSTING_MAX_UPLOAD_BYTES'' (100 * 1024 ^ 2)) (\<lambda>upload.
     bind_res (env_int be ''HOSTING_MAX_EXTRACT_FILES'' 5000) (\<lambda>files.
     bind_res (env_bytes be ''HOSTING_MAX_EXTRACT_BYTES'' (500 * 1024 ^ 2)) (\<lambda>bytes.
     bind_res (env_bytes be ''HOSTING_MAX_EXTRACT_FILE_BYTES'' upload) (\<lambda>file_bytes.
     bind_res (env_int be ''HOSTING_PREVIEW_TTL_DAYS'' 7) (\<lambda>ttl.
     map_res (\<lambda>cache.
       \<lparr> qs_MAX_APPS = max_apps, qs_MAX_DEPLOYMENTS = max_deployments, qs_MAX_UPLOAD_BYTES = upload, qs_MAX_EXTRACT_FILES = files,
         qs_MAX_EXTRACT_BYTES = bytes, qs_MAX_EXTRACT_FILE_BYTES = file_bytes, qs_PREVIEW_TTL_DAYS = ttl, qs_SERVE_CACHE_TTL = cache \<rparr>)
       (env_int be ''HOSTING_SERVE_CACHE_TTL_SECONDS'' 45))))))))"

section \<open>Public addresses\<close>

record public_settings =
  ROOT_REDIRECT_URL :: string
  SHELLUI_WEBSITE_URL :: string
  SHELLUI_DOCS_URL :: string
  SHELLUI_PLAYGROUND_URL :: string
  SHELLUI_GITHUB_URL :: string
  SHELLUI_AI_URL :: string
  HOSTING_REGION :: string
  ps_APP_DOMAIN :: string
  ps_APP_SCHEME :: string
  HOSTING_ALLOW_ANY_HOST :: bool
  ALLOWED_HOSTS :: "string list"
  ps_DEBUG_OPEN :: bool
  DATA_UPLOAD_MAX_MEMORY_SIZE :: int

text \<open>The leading dots of the domain are dropped; in production it has to be set.\<close>

definition app_domain_setting :: "boot_env \<Rightarrow> bool \<Rightarrow> config_error + string" where
  "app_domain_setting be debug =
     (let domain = lstrip_char CHR ''.'' (env_text be ''HOSTING_APP_DOMAIN'')
      in if domain \<noteq> [] then Inr domain else if debug then Inr ''shellui.local'' else improper ''HOSTING_APP_DOMAIN'')"

definition app_scheme_setting :: "boot_env \<Rightarrow> bool \<Rightarrow> config_error + string" where
  "app_scheme_setting be debug =
     (let scheme = or_else (lower (env_text be ''HOSTING_APP_SCHEME'')) (if debug then ''http'' else ''https'')
      in if scheme \<in> set [''http'', ''https''] then Inr scheme else improper ''HOSTING_APP_SCHEME'')"

text \<open>In DEBUG any host may be allowed; otherwise the hosts of the apps are.\<close>

definition allowed_hosts_setting :: "boot_env \<Rightarrow> bool \<Rightarrow> string \<Rightarrow> string list" where
  "allowed_hosts_setting be debug domain =
     (let hosts = env_csv be ''ALLOWED_HOSTS'' [''localhost'', ''127.0.0.1''];
          extra = (if env_bool be ''HOSTING_ALLOW_ANY_HOST'' debug \<and> debug then ''*'' else ''.'' @ domain)
      in if extra \<in> set hosts then hosts else hosts @ [extra])"

definition debug_open_setting :: "boot_env \<Rightarrow> bool \<Rightarrow> config_error + bool" where
  "debug_open_setting be debug =
     (let v = truthy_text (env_text be ''HOSTING_DEBUG_OPEN'') in if \<not> debug \<and> v then improper ''HOSTING_DEBUG_OPEN'' else Inr v)"

definition site_url :: "boot_env \<Rightarrow> string \<Rightarrow> string \<Rightarrow> string" where
  "site_url be n url = or_else (strip (getenv be n url)) url"

definition load_public :: "boot_env \<Rightarrow> bool \<Rightarrow> config_error + public_settings" where
  "load_public be debug =
     bind_res (app_domain_setting be debug) (\<lambda>domain.
     bind_res (app_scheme_setting be debug) (\<lambda>scheme.
     bind_res (debug_open_setting be debug) (\<lambda>debug_open.
     map_res (\<lambda>size_limit.
       \<lparr> ROOT_REDIRECT_URL = env_text be ''ROOT_REDIRECT_URL'', SHELLUI_WEBSITE_URL = site_url be ''SHELLUI_WEBSITE_URL'' ''https://shellui.com'',
         SHELLUI_DOCS_URL = site_url be ''SHELLUI_DOCS_URL'' ''https://docs.shellui.com'',
         SHELLUI_PLAYGROUND_URL = site_url be ''SHELLUI_PLAYGROUND_URL'' ''https://playground.shellui.com'',
         SHELLUI_GITHUB_URL = site_url be ''SHELLUI_GITHUB_URL'' ''https://github.com/shellui'',
         SHELLUI_AI_URL = site_url be ''SHELLUI_AI_URL'' ''https://shellui.ai'', HOSTING_REGION = env_text be ''HOSTING_REGION'',
         ps_APP_DOMAIN = domain, ps_APP_SCHEME = scheme, HOSTING_ALLOW_ANY_HOST = env_bool be ''HOSTING_ALLOW_ANY_HOST'' debug,
         ALLOWED_HOSTS = allowed_hosts_setting be debug domain, ps_DEBUG_OPEN = debug_open, DATA_UPLOAD_MAX_MEMORY_SIZE = size_limit \<rparr>)
       (env_bytes be ''DATA_UPLOAD_MAX_MEMORY_SIZE'' (12 * 1024 ^ 2)))))"

section \<open>CORS, HTTPS and cookies\<close>

record http_settings =
  CORS_ALLOW_ALL_ORIGINS :: bool
  CORS_ALLOWED_ORIGINS :: "string list"
  CORS_ALLOW_CREDENTIALS :: bool
  CORS_ALLOW_PRIVATE_NETWORK :: bool
  SECURE_SSL_REDIRECT :: bool
  SECURE_HSTS_SECONDS :: int
  SECURE_HSTS_INCLUDE_SUBDOMAINS :: bool
  SECURE_HSTS_PRELOAD :: bool
  SESSION_COOKIE_SECURE :: bool
  CSRF_COOKIE_SECURE :: bool
  SESSION_COOKIE_NAME :: string
  CSRF_COOKIE_NAME :: string
  DJANGO_ADMIN_ENABLED :: bool

definition DEFAULT_ORIGINS :: "string list" where
  "DEFAULT_ORIGINS =
     [''http://localhost:4000'', ''http://127.0.0.1:4000'', ''http://localhost:5174'', ''http://127.0.0.1:5174'', ''https://admin.shellui.com'']"

definition add_origins :: "string list \<Rightarrow> string list \<Rightarrow> string list" where
  "add_origins items origins =
     fold (\<lambda>item os. let o1 = strip item in if o1 \<noteq> [] \<and> o1 \<notin> set os then os @ [o1] else os) items origins"

definition load_http :: "boot_env \<Rightarrow> bool \<Rightarrow> config_error + http_settings" where
  "load_http be debug =
     (let every = env_bool be ''CORS_ALLOW_ALL_ORIGINS'' True; credentials = env_bool be ''CORS_ALLOW_CREDENTIALS'' False;
          session = env_bool be ''SESSION_COOKIE_SECURE'' (\<not> debug); csrf = env_bool be ''CSRF_COOKIE_SECURE'' (\<not> debug)
      in if every \<and> credentials then improper ''CORS_ALLOW_CREDENTIALS''
         else map_res (\<lambda>hsts.
           \<lparr> CORS_ALLOW_ALL_ORIGINS = every,
             CORS_ALLOWED_ORIGINS = add_origins (split_on CHR '','' (getenv be ''CORS_ALLOWED_ORIGINS'' [])) DEFAULT_ORIGINS,
             CORS_ALLOW_CREDENTIALS = credentials,
             CORS_ALLOW_PRIVATE_NETWORK = truthy_text (strip (getenv be ''CORS_ALLOW_PRIVATE_NETWORK'' ''true'')),
             SECURE_SSL_REDIRECT = env_bool be ''SECURE_SSL_REDIRECT'' (\<not> debug), SECURE_HSTS_SECONDS = hsts,
             SECURE_HSTS_INCLUDE_SUBDOMAINS = env_bool be ''SECURE_HSTS_INCLUDE_SUBDOMAINS'' (\<not> debug),
             SECURE_HSTS_PRELOAD = env_bool be ''SECURE_HSTS_PRELOAD'' False, SESSION_COOKIE_SECURE = session, CSRF_COOKIE_SECURE = csrf,
             SESSION_COOKIE_NAME = cookie_name ''sessionid'' session, CSRF_COOKIE_NAME = cookie_name ''csrftoken'' csrf,
             DJANGO_ADMIN_ENABLED = env_bool be ''DJANGO_ADMIN_ENABLED'' True \<rparr>)
           (env_int be ''SECURE_HSTS_SECONDS'' (if debug then 0 else 31536000)))"

section \<open>Cache, scheduled jobs and rate limits\<close>

datatype cache_backend = Redis_Cache string | Loc_Mem_Cache

definition caches_config :: "string \<Rightarrow> cache_backend" where
  "caches_config redis_url = (if redis_url \<noteq> [] then Redis_Cache redis_url else Loc_Mem_Cache)"

definition celery_broker_url :: "string \<Rightarrow> string \<Rightarrow> string" where
  "celery_broker_url redis_url override = or_else (strip override) (strip redis_url)"

record jobs_settings =
  REDIS_URL :: string
  CACHES :: cache_backend
  js_SCHEDULER_ENABLED :: bool
  js_CELERY_BROKER_URL :: string
  js_rate_limits :: rate_limits

definition load_jobs :: "boot_env \<Rightarrow> config_error + jobs_settings" where
  "load_jobs be =
     (let redis = env_text be ''REDIS_URL'' in
     bind_res (env_int be ''HOSTING_RATE_LIMIT_DEPLOY'' 30) (\<lambda>deploy.
     bind_res (env_int be ''HOSTING_RATE_LIMIT_UPLOAD'' 20) (\<lambda>upload.
     bind_res (env_int be ''HOSTING_RATE_LIMIT_DESTRUCTIVE'' 10) (\<lambda>destructive.
     map_res (\<lambda>ask.
       \<lparr> REDIS_URL = redis, CACHES = caches_config redis, js_SCHEDULER_ENABLED = env_bool be ''SCHEDULER_ENABLED'' True,
         js_CELERY_BROKER_URL = celery_broker_url redis (getenv be ''CELERY_BROKER_URL'' []),
         js_rate_limits = \<lparr> HOSTING_RATE_LIMIT_ENABLED = env_bool be ''HOSTING_RATE_LIMIT_ENABLED'' True,
           HOSTING_RATE_LIMITS = map_of [(''default'', (60, 60)), (''deploy'', (deploy, 60)), (''upload'', (upload, 60)),
             (''destructive'', (destructive, 60)), (''access_request'', (ask, 300))] \<rparr> \<rparr>)
       (env_int be ''HOSTING_RATE_LIMIT_ACCESS_REQUEST'' 10)))))"

section \<open>The whole module\<close>

record site_config =
  st_core :: core_settings
  st_actions :: actions_settings
  st_database :: database
  st_storage :: storage_settings
  st_identity :: identity_settings
  st_quotas :: quota_settings
  st_public :: public_settings
  st_http :: http_settings
  st_jobs :: jobs_settings
  SENTRY_DSN :: string
  SENTRY_ENVIRONMENT :: string
  SENTRY_RELEASE :: string
  SENTRY_TRACES_SAMPLE_RATE :: string

definition weak_secret_key :: "string \<Rightarrow> bool" where
  "weak_secret_key key \<longleftrightarrow> length key < 50 \<or> startswith key ''django-insecure-'' \<or> contains key ''change-me''"

text \<open>What a production install must have; the errors are raised together.\<close>

definition production_config_errors :: "core_settings \<Rightarrow> identity_settings \<Rightarrow> string list" where
  "production_config_errors c i =
     (if weak_secret_key (SECRET_KEY c) then [''SECRET_KEY''] else [])
     @ (if IDENTITY_ISSUER (id_auth i) = None then [''IDENTITY_ISSUER''] else [])
     @ (if IDENTITY_AUDIENCE (id_auth i) = None then [''IDENTITY_AUDIENCE''] else [])
     @ (if id_DOCUMENT i = None then [''IDENTITY_JWKS''] else [])"

definition load_settings :: "boot_env \<Rightarrow> config_error + site_config" where
  "load_settings be =
     bind_res (load_core be) (\<lambda>c. let debug = DEBUG c in
     bind_res (load_actions be debug) (\<lambda>a.
     bind_res (load_storage be) (\<lambda>s.
     bind_res (load_identity be debug) (\<lambda>i.
     bind_res (load_quotas be) (\<lambda>q.
     bind_res (load_public be debug) (\<lambda>p.
     bind_res (load_http be debug) (\<lambda>h.
     bind_res (load_jobs be) (\<lambda>j.
     bind_res (env_float be ''SENTRY_TRACES_SAMPLE_RATE'' ''0.0'') (\<lambda>rate.
     if \<not> debug \<and> production_config_errors c i \<noteq> [] then Inl (Improperly_Configured (production_config_errors c i))
     else Inr \<lparr> st_core = c, st_actions = a, st_database = load_database be debug, st_storage = s, st_identity = i, st_quotas = q,
                st_public = p, st_http = h, st_jobs = j, SENTRY_DSN = env_text be ''SENTRY_DSN'',
                SENTRY_ENVIRONMENT = or_else (env_text be ''SENTRY_ENVIRONMENT'') (if debug then ''development'' else ''production''),
                SENTRY_RELEASE = or_else (env_text be ''SENTRY_RELEASE'') (VERSION c), SENTRY_TRACES_SAMPLE_RATE = rate \<rparr>)))))))))"

text \<open>The settings that the operations of the service read.\<close>

definition site_cfg :: "site_config \<Rightarrow> settings" where
  "site_cfg s =
     \<lparr> HOSTING_APP_DOMAIN = ps_APP_DOMAIN (st_public s), HOSTING_APP_SCHEME = ps_APP_SCHEME (st_public s),
       HOSTING_DEBUG_OPEN = ps_DEBUG_OPEN (st_public s), HOSTING_PREVIEW_TTL_DAYS = qs_PREVIEW_TTL_DAYS (st_quotas s),
       HOSTING_MAX_APPS_PER_COMPANY = qs_MAX_APPS (st_quotas s), HOSTING_MAX_DEPLOYMENTS_PER_APP = qs_MAX_DEPLOYMENTS (st_quotas s),
       HOSTING_MAX_UPLOAD_BYTES = qs_MAX_UPLOAD_BYTES (st_quotas s), HOSTING_MAX_EXTRACT_FILES = qs_MAX_EXTRACT_FILES (st_quotas s),
       HOSTING_MAX_EXTRACT_BYTES = qs_MAX_EXTRACT_BYTES (st_quotas s), HOSTING_MAX_EXTRACT_FILE_BYTES = qs_MAX_EXTRACT_FILE_BYTES (st_quotas s),
       HOSTING_BACKEND = ss_HOSTING_BACKEND (st_storage s), HOSTING_KEY_PREFIX = ss_HOSTING_KEY_PREFIX (st_storage s),
       HOSTING_SERVE_CACHE_TTL_SECONDS = qs_SERVE_CACHE_TTL (st_quotas s), IDENTITY_SERVICE_URL = id_SERVICE_URL (st_identity s),
       IDENTITY_JWKS_SOURCE = id_SOURCE (st_identity s), IDENTITY_JWKS_URL = id_JWKS_URL (st_identity s),
       ACTIONS_OUTBOX_MAX_ATTEMPTS = as_MAX_ATTEMPTS (st_actions s), ACTIONS_WEBHOOK_RETRY_LEASE_SECONDS = as_RETRY_LEASE (st_actions s),
       EMAIL_SERVICE_API_KEY = as_EMAIL_SERVICE_API_KEY (st_actions s), EVENT_LOG_RETENTION_DAYS = as_EVENT_LOG_RETENTION_DAYS (st_actions s),
       ACTIONS_WEBHOOK_ALLOW_PRIVATE = as_ALLOW_PRIVATE (st_actions s), ACTIONS_WEBHOOK_SYNC_DELIVERY = as_SYNC_DELIVERY (st_actions s),
       EMAIL_SERVICE_URL = as_EMAIL_SERVICE_URL (st_actions s), EMAIL_SERVICE_ALLOW_PRIVATE = as_EMAIL_SERVICE_ALLOW_PRIVATE (st_actions s),
       SCHEDULER_ENABLED = js_SCHEDULER_ENABLED (st_jobs s), CELERY_BROKER_URL = js_CELERY_BROKER_URL (st_jobs s) \<rparr>"

end
