(* ===== verification/Config_Checks.thy ===== *)
theory Config_Checks
  imports Deploy_Config
begin

text \<open>
  The system checks (\<^verbatim>\<open>apps/authapi/checks.py\<close>, \<^verbatim>\<open>apps/hosting/checks.py\<close>, \<^verbatim>\<open>apps/hosting/domain_scope.py\<close>) and what a
  production configuration that loads is sure to have. A message keeps its identifier.
\<close>

section \<open>domain\_scope.py\<close>

definition registrable_domain :: "string \<Rightarrow> string option" where
  "registrable_domain host =
     (let value = rstrip_char CHR ''.'' (lower (strip host));
          inner = (if startswith value ''['' \<and> endswith value '']'' then butlast (tl value) else value);
          labels = filter (\<lambda>l. l \<noteq> []) (split_on CHR ''.'' inner)
      in if value = [] \<or> value = ''localhost'' then None
         else if ip_address inner \<noteq> None then None
         else if length labels < 2 then None
         else Some (join_with ''.'' (drop (length labels - 2) labels)))"

definition host_from_url :: "string \<Rightarrow> config_error + string" where
  "host_from_url value =
     (let raw = strip value
      in if raw = [] then Inr []
         else map_res (\<lambda>p. rstrip_char CHR ''.'' (lower (url_hostname p))) (url_of (with_https raw)))"

definition configured_service_urls :: "site_config \<Rightarrow> (string \<times> string) list" where
  "configured_service_urls s =
     filter (\<lambda>(n, v). v \<noteq> [])
       [(''IDENTITY_SERVICE_URL'', id_SERVICE_URL (st_identity s)), (''IDENTITY_JWKS_URL'', id_JWKS_URL (st_identity s)),
        (''EMAIL_SERVICE_URL'', as_EMAIL_SERVICE_URL (st_actions s)), (''SHELLUI_WEBSITE_URL'', SHELLUI_WEBSITE_URL (st_public s)),
        (''SHELLUI_DOCS_URL'', SHELLUI_DOCS_URL (st_public s)), (''SHELLUI_PLAYGROUND_URL'', SHELLUI_PLAYGROUND_URL (st_public s)),
        (''SHELLUI_GITHUB_URL'', SHELLUI_GITHUB_URL (st_public s)), (''SHELLUI_AI_URL'', SHELLUI_AI_URL (st_public s))]
     @ concat (map (\<lambda>(n, items). map (\<lambda>t. (n, t)) (filter (\<lambda>t. t \<noteq> []) (map strip items)))
         [(''CSRF_TRUSTED_ORIGINS'', CSRF_TRUSTED_ORIGINS (st_core s)), (''CORS_ALLOWED_ORIGINS'', CORS_ALLOWED_ORIGINS (st_http s))])"

text \<open>Each pair once, in the order of the settings.\<close>

fun sharing :: "string \<Rightarrow> (string \<times> string) list \<Rightarrow> (string \<times> string) list \<Rightarrow> config_error + (string \<times> string \<times> string) list" where
  "sharing parent seen [] = Inr []"
| "sharing parent seen ((n, url) # pairs) =
     bind_res (host_from_url url) (\<lambda>host.
       if registrable_domain host \<noteq> Some parent \<or> (n, url) \<in> set seen then sharing parent seen pairs
       else map_res (\<lambda>ms. (n, url, parent) # ms) (sharing parent ((n, url) # seen) pairs))"

definition shared_parent_service_urls :: "site_config \<Rightarrow> config_error + (string \<times> string \<times> string) list" where
  "shared_parent_service_urls s =
     (case registrable_domain (ps_APP_DOMAIN (st_public s)) of
        None \<Rightarrow> Inr []
      | Some parent \<Rightarrow> sharing parent [] (configured_service_urls s))"

section \<open>Checks\<close>

definition warn_shared_hosting_parent_domain :: "site_config \<Rightarrow> config_error + string list" where
  "warn_shared_hosting_parent_domain s = map_res (\<lambda>ms. if ms = [] then [] else [''hosting.W001'']) (shared_parent_service_urls s)"

definition SECRET_KEY_PLACEHOLDERS :: "string list" where
  "SECRET_KEY_PLACEHOLDERS = [''django-insecure-12345678901234567890123456789012'', ''change-me-generate-a-strong-secret-key'']"

definition SECRET_KEY_MIN_LENGTH :: nat where
  "SECRET_KEY_MIN_LENGTH = 50"

datatype key_problem = Key_Empty | Key_Placeholder | Key_Short

definition secret_key_problem :: "string \<Rightarrow> key_problem option" where
  "secret_key_problem secret_key =
     (let key = strip secret_key
      in if key = [] then Some Key_Empty
         else if key \<in> set SECRET_KEY_PLACEHOLDERS \<or> startswith key ''django-insecure-'' then Some Key_Placeholder
         else if length key < SECRET_KEY_MIN_LENGTH then Some Key_Short
         else None)"

definition secret_key_refused_outside_debug :: "site_config \<Rightarrow> string list" where
  "secret_key_refused_outside_debug s =
     (if DEBUG (st_core s) \<or> secret_key_problem (SECRET_KEY (st_core s)) = None then [] else [''authapi.E005''])"

definition shared_cache_recommended_for_multi_worker :: "boot_env \<Rightarrow> site_config \<Rightarrow> config_error + string list" where
  "shared_cache_recommended_for_multi_worker be s =
     (if DEBUG (st_core s) \<or> CACHES (st_jobs s) \<noteq> Loc_Mem_Cache then Inr []
      else map_res (\<lambda>workers. if workers \<le> 1 then [] else [''authapi.W001'']) (env_int be ''GUNICORN_WORKERS'' 2))"

definition redis_required_in_production :: "site_config \<Rightarrow> string list" where
  "redis_required_in_production s =
     (if DEBUG (st_core s) \<or> strip (REDIS_URL (st_jobs s)) \<noteq> [] then [] else [''authapi.E004''])"

text \<open>The errors of \<^verbatim>\<open>check --deploy\<close>, which the container runs before it starts.\<close>

definition deploy_check_errors :: "site_config \<Rightarrow> string list" where
  "deploy_check_errors s = secret_key_refused_outside_debug s @ redis_required_in_production s"

text \<open>\<^verbatim>\<open>_is_long_running_server_process\<close>, which decides whether the warning is logged at the start.\<close>

definition is_long_running_server_process :: "string list \<Rightarrow> bool" where
  "is_long_running_server_process argv =
     (case argv of
        [] \<Rightarrow> False
      | a # rest \<Rightarrow>
          (let prog = replace_char (CHR 0x5C) CHR ''/'' a
           in contains prog ''gunicorn'' \<or> contains prog ''uwsgi''
              \<or> endswith prog ''manage.py'' \<and> (case rest of [] \<Rightarrow> False | cmd # _ \<Rightarrow> startswith cmd ''runserver'')))"

section \<open>Laws\<close>

lemma load_parts:
  assumes "load_settings be = Inr s"
  shows "load_core be = Inr (st_core s)" "load_storage be = Inr (st_storage s)"
    "load_identity be (DEBUG (st_core s)) = Inr (st_identity s)" "load_public be (DEBUG (st_core s)) = Inr (st_public s)"
    "load_http be (DEBUG (st_core s)) = Inr (st_http s)" "load_jobs be = Inr (st_jobs s)"
    "DEBUG (st_core s) \<or> production_config_errors (st_core s) (st_identity s) = []"
  using assms by (auto simp: load_settings_def bind_res_Inr Let_def split: if_splits)

lemma load_core_Inr: "load_core be = Inr c \<Longrightarrow> SECRET_KEY c = env_text be ''SECRET_KEY'' \<and> SECRET_KEY c \<noteq> []"
  by (auto simp: load_core_def Let_def split: if_splits)

lemma load_storage_Inr:
  "load_storage be = Inr s \<Longrightarrow>
   ss_HOSTING_BACKEND s = ''filesystem'' \<or> ss_HOSTING_BACKEND s = ''s3'' \<and> AWS_STORAGE_BUCKET_NAME s \<noteq> []"
  by (auto simp: load_storage_def bind_res_Inr Let_def split: if_splits)

lemma parse_jwks_Inr:
  "parse_jwks_document be False raw source = Inr d \<Longrightarrow> \<exists>ks. dict_get d ''keys'' = Some (JList ks) \<and> ks \<noteq> []"
  by (auto simp: parse_jwks_document_def split: option.splits json.splits if_splits)

lemma load_static_jwks_Inr:
  assumes "load_static_jwks be False = Inr r" "fst r = Some d"
  shows "\<exists>ks. dict_get d ''keys'' = Some (JList ks) \<and> ks \<noteq> []"
proof -
  obtain raw source where "parse_jwks_document be False raw source = Inr d"
    using assms unfolding load_static_jwks_def Let_def
    by (cases "env_text be ''IDENTITY_JWKS_FILE'' = []"; cases "env_text be ''IDENTITY_JWKS'' = []")
       (auto simp: map_res_Inr split: option.splits)
  then show ?thesis by (rule parse_jwks_Inr)
qed

lemma auth_setting_Inr:
  "auth_setting be False = Inr a \<Longrightarrow> JWT_HS256_FALLBACK_SECRET a = None \<or> ALLOW_JWT_HS256_FALLBACK a"
  by (auto simp: auth_setting_def opt_text_def Let_def split: if_splits)

lemma load_identity_Inr:
  assumes "load_identity be False = Inr i"
  shows "id_DOCUMENT i = Some d \<Longrightarrow> \<exists>ks. dict_get d ''keys'' = Some (JList ks) \<and> ks \<noteq> []"
    "JWT_HS256_FALLBACK_SECRET (id_auth i) = None \<or> ALLOW_JWT_HS256_FALLBACK (id_auth i)"
proof -
  obtain r where r: "load_static_jwks be False = Inr r" "fst r = id_DOCUMENT i" "auth_setting be False = Inr (id_auth i)"
    using assms unfolding load_identity_def bind_res_Inr map_res_Inr by auto
  show "JWT_HS256_FALLBACK_SECRET (id_auth i) = None \<or> ALLOW_JWT_HS256_FALLBACK (id_auth i)" by (rule auth_setting_Inr[OF r(3)])
  show "\<exists>ks. dict_get d ''keys'' = Some (JList ks) \<and> ks \<noteq> []" if "id_DOCUMENT i = Some d"
    using load_static_jwks_Inr[OF r(1)] r(2) that by simp
qed

lemma allowed_hosts_app: "''.'' @ domain \<in> set (allowed_hosts_setting be False domain)"
  by (simp add: allowed_hosts_setting_def Let_def)

lemma load_public_Inr:
  assumes "load_public be False = Inr p"
  shows "ps_APP_DOMAIN p \<noteq> []" "\<not> ps_DEBUG_OPEN p" "''.'' @ ps_APP_DOMAIN p \<in> set (ALLOWED_HOSTS p)"
proof -
  obtain domain debug_open where d: "app_domain_setting be False = Inr domain" "debug_open_setting be False = Inr debug_open"
      "ps_APP_DOMAIN p = domain" "ps_DEBUG_OPEN p = debug_open" "ALLOWED_HOSTS p = allowed_hosts_setting be False domain"
    using assms unfolding load_public_def bind_res_Inr map_res_Inr by auto
  show "ps_APP_DOMAIN p \<noteq> []" using d(1,3) by (auto simp: app_domain_setting_def Let_def split: if_splits)
  show "\<not> ps_DEBUG_OPEN p" using d(2,4) by (auto simp: debug_open_setting_def Let_def split: if_splits)
  show "''.'' @ ps_APP_DOMAIN p \<in> set (ALLOWED_HOSTS p)" using allowed_hosts_app d(3,5) by simp
qed

lemma load_http_Inr:
  "load_http be debug = Inr h \<Longrightarrow> \<not> (CORS_ALLOW_ALL_ORIGINS h \<and> CORS_ALLOW_CREDENTIALS h)
     \<and> (startswith (SESSION_COOKIE_NAME h) ''__Host-'' \<longleftrightarrow> SESSION_COOKIE_SECURE h)
     \<and> (startswith (CSRF_COOKIE_NAME h) ''__Host-'' \<longleftrightarrow> CSRF_COOKIE_SECURE h)"
  by (auto simp: load_http_def map_res_Inr cookie_name_def startswith_def Let_def split: if_splits)

lemma strip_Nil: "strip [] = []"
  by (simp add: strip_def strip_by_def lstrip_by_def rstrip_by_def)

lemma strong_key_no_problem:
  assumes "\<not> weak_secret_key key" "key = strip key"
  shows "secret_key_problem key = None"
proof -
  have "key \<notin> set SECRET_KEY_PLACEHOLDERS"
    using assms(1) by (auto simp: weak_secret_key_def SECRET_KEY_PLACEHOLDERS_def startswith_def)
  then show ?thesis using assms by (auto simp: secret_key_problem_def weak_secret_key_def SECRET_KEY_MIN_LENGTH_def)
qed

text \<open>A configuration that loads with DEBUG off is closed: a strong secret key, a pinned JWKS document with keys, issuer and
  audience, no HS256 fallback unless allowed by name, no bypass of the waitlist, a hosting domain whose hosts are
  allowed, no credentials together with any origin, a bucket for S3; and \<^verbatim>\<open>check --deploy\<close> then asks for nothing but Redis.\<close>

lemma production_config_safe:
  assumes l: "load_settings be = Inr s" and d: "\<not> DEBUG (st_core s)"
  shows "length (SECRET_KEY (st_core s)) \<ge> 50 \<and> secret_key_problem (SECRET_KEY (st_core s)) = None
    \<and> (\<exists>document ks. id_DOCUMENT (st_identity s) = Some document \<and> dict_get document ''keys'' = Some (JList ks) \<and> ks \<noteq> [])
    \<and> IDENTITY_ISSUER (id_auth (st_identity s)) \<noteq> None \<and> IDENTITY_AUDIENCE (id_auth (st_identity s)) \<noteq> None
    \<and> (JWT_HS256_FALLBACK_SECRET (id_auth (st_identity s)) = None \<or> ALLOW_JWT_HS256_FALLBACK (id_auth (st_identity s)))
    \<and> \<not> HOSTING_DEBUG_OPEN (site_cfg s) \<and> HOSTING_APP_DOMAIN (site_cfg s) \<noteq> []
    \<and> ''.'' @ HOSTING_APP_DOMAIN (site_cfg s) \<in> set (ALLOWED_HOSTS (st_public s))
    \<and> \<not> (CORS_ALLOW_ALL_ORIGINS (st_http s) \<and> CORS_ALLOW_CREDENTIALS (st_http s))
    \<and> (startswith (SESSION_COOKIE_NAME (st_http s)) ''__Host-'' \<longleftrightarrow> SESSION_COOKIE_SECURE (st_http s))
    \<and> (HOSTING_BACKEND (site_cfg s) = ''s3'' \<longrightarrow> AWS_STORAGE_BUCKET_NAME (st_storage s) \<noteq> [])
    \<and> (deploy_check_errors s = [] \<longleftrightarrow> (\<exists>url. CACHES (st_jobs s) = Redis_Cache url))"
proof -
  note p = load_parts[OF l]
  have k: "\<not> weak_secret_key (SECRET_KEY (st_core s))" "IDENTITY_ISSUER (id_auth (st_identity s)) \<noteq> None"
      "IDENTITY_AUDIENCE (id_auth (st_identity s)) \<noteq> None" "id_DOCUMENT (st_identity s) \<noteq> None"
    using p(7) d by (auto simp: production_config_errors_def split: if_splits)
  have s: "SECRET_KEY (st_core s) = strip (SECRET_KEY (st_core s))"
    using load_core_Inr[OF p(1)] by (simp add: env_text_def)
  have i: "load_identity be False = Inr (st_identity s)" "load_public be False = Inr (st_public s)" using p(3,4) d by simp_all
  have r: "deploy_check_errors s = [] \<longleftrightarrow> (\<exists>url. CACHES (st_jobs s) = Redis_Cache url)"
    using p(6) d strong_key_no_problem[OF k(1) s]
    by (auto simp: deploy_check_errors_def secret_key_refused_outside_debug_def redis_required_in_production_def load_jobs_def
        bind_res_Inr map_res_Inr caches_config_def env_text_def strip_Nil Let_def split: if_splits)
  show ?thesis
    using k strong_key_no_problem[OF k(1) s] load_identity_Inr[OF i(1)] load_public_Inr[OF i(2)] load_http_Inr[OF p(5)]
      load_storage_Inr[OF p(2)] r
    by (auto simp: site_cfg_def weak_secret_key_def)
qed

end
