(* ===== verification/Spec2Isabelle.thy ===== *)
theory Spec2Isabelle
  imports SemVer Hosts Emit Extract Redirects Auth Services Lifecycle Steps Company_Deletion Reachable Serve_Site Front Rate_Limits Identity_Auth Job_Tasks Api_Props Api_Reads Admin_Props Claims Access_Review Config_Checks
begin

text \<open>
  Verification library of the hosting service, a Django service that publishes microfrontends: a company
  gets access, creates apps, uploads archives, and the service serves their files on a host per app;
  it emits events, forwards them as webhooks and emails, retries failed deliveries, records its
  scheduled jobs and offers an admin API. The theories translate the Python code; file names below are
  those of the repository.

  The parts and how they interact.

  \<^item> Vocabulary. \<open>Prelude\<close> has results, exceptions, table rows and times (microseconds), \<open>Py_Strings\<close>, \<open>Py_Regex\<close> and
    \<open>Py_Sub\<close> the string methods and regular expressions of Python that the code uses, \<open>Net\<close> its URLs and
    addresses (words of 32 and 128 bits), \<open>Json\<close> its JSON values. \<open>Settings\<close> is the record of settings the operations read;
    \<open>Deploy_Config\<close> and \<open>Config_Checks\<close> are \<^verbatim>\<open>config/settings.py\<close>, which computes it from the environment, and the
    system checks, with what a production configuration that loads is sure to have.
  \<^item> Values. \<open>SemVer\<close>, \<open>Slug\<close>, \<open>Hosts\<close>, \<open>Paths\<close> are the files of the same names in \<^verbatim>\<open>apps/hosting\<close>; \<open>Events\<close> is the registry
    of domain events.
  \<^item> Data. \<open>Models\<close> has a record per model of \<^verbatim>\<open>apps/hosting/models.py\<close> and \<^verbatim>\<open>apps/actions/models.py\<close>, a list of rows per table
    and the constraints of the database as the operations on rows. \<open>Storage\<close> and \<open>Extract\<close> are the artifact store and
    the extraction of archives.
  \<^item> Services. \<open>Services\<close> is \<^verbatim>\<open>services.py\<close> over a world: database, stored objects, serve cache, scheduled deliveries and
    requests sent to the identity service. It calls \<open>Emit\<close> (events, outbox rows), \<open>Redirects\<close> and \<open>Auth\<close> (principals,
    permissions, deploy tokens). \<open>Company_Deletion\<close> is the deletion of companies.
  \<^item> Serving. \<open>Serve\<close> is \<^verbatim>\<open>serve.py\<close>, \<open>Front\<close> the middleware around it, \<open>Rate_Limits\<close> the client address and the throttle.
  \<^item> APIs. \<open>Identity_Auth\<close> is the authentication by JWT, \<open>Api\<close> the frame of REST framework, \<open>Api_Views\<close> the endpoints of
    \<^verbatim>\<open>/hosting/v1/\<close>, \<open>Admin_Api\<close> and \<open>Monitor_Api\<close> those of the admin API, \<open>Stats\<close> their numbers.
  \<^item> Delivery. \<open>Ssrf\<close>, \<open>Webhook\<close> and \<open>Email_Service\<close> are one outgoing request; \<open>Delivery\<close> is \<^verbatim>\<open>delivery.py\<close>, with every transaction
    an operation of its own; \<open>Retry_Pool\<close> is the retry run with its thread pool.
  \<^item> Jobs. \<open>Task_Lock\<close> is the Redis lock, \<open>Scheduled_Jobs\<close> and \<open>Job_Health\<close> the ledger of runs, \<open>Retention\<close> the purge,
    \<open>Job_Tasks\<close> the commands and Celery tasks that compose them.

  What the lemmas show.

  \<^item> \<open>Lifecycle\<close>, \<open>Steps\<close>, \<open>Reachable\<close>: the invariant \<open>wf_db\<close> of the tables, kept by every operation, and the reachable worlds:
    one active deployment per app and the edges of the status machine. A step is one operation that runs alone.
  \<^item> \<open>Service_Laws\<close>, \<open>Access_Review\<close>: what finalising, deleting, creating and reviewing promise, on every branch.
  \<^item> \<open>Serve_Site\<close>: visitors and the service together; the cached view refines the view without a cache on a
    database that was current less than the time to live ago. The cache is that of one process.
  \<^item> \<open>Tenants\<close>, \<open>Api_Laws\<close>, \<open>Api_Props\<close>, \<open>Api_Reads\<close>, \<open>Admin_Laws\<close>, \<open>Admin_Props\<close>, \<open>Admin_Secrets\<close>: isolation of companies for every
    route, method and body, the scope of deploy tokens, reads as functions of the rows of the own
    company, and what the reads of the admin API show of secrets.
  \<^item> \<open>Delivery_Steps\<close>, \<open>Claims\<close>: all writers of the outbox interleaved, transaction by transaction: the ledger of attempts,
    final states, and the lease of a claim. \<open>Retry_Run\<close> and \<open>Retry_Pool\<close>: what a run attempts, records and reports with one
    worker and with any number of them.
  \<^item> \<open>Job_Tasks\<close>, \<open>Job_Health\<close>, \<open>Retention\<close>: exclusion under the lock, the ledger of a run, the batched purge against
    the purge in one step.

  Interfaces are locales, interpreted on the definitions of the code: \<open>object_store\<close> (\<open>Storage\<close>), \<open>read_through\<close> (\<open>Serve\<close>),
  \<open>step_system\<close> (\<open>Delivery_Steps\<close>), \<open>lock_store\<close> (\<open>Task_Lock\<close>) and \<open>retention_table\<close> (\<open>Retention\<close>).

  Bounds. The retry run with one worker has the batch size plus one as its fuel, which is enough
  (\<^verbatim>\<open>retry_run_terminates\<close>); the recursive listing of an S3 store has the length of the longest key (\<open>depth_fuel\<close>,
  every level of the recursion is one segment of a key). The batched purge is a partial function, and
  \<^verbatim>\<open>purge_expired_correct\<close> shows that it ends. The retry run with several workers is a step relation whose property
  holds in every state it can reach. All other loops are structural recursions, on the attempts left, the
  rows or the characters, or functions with a termination proof.

  Parameters. Code that is not in the repository is an argument: JWT and JWK decoding, digests and random draws, the
  tar reader, name resolution, HTTP exchanges, the wall clock and the monotonic clock, MIME types, the field parsers of REST
  framework and the middleware of Django. Strings are lists of characters (bytes of UTF-8 beyond ASCII), floats of settings keep
  their canonical text.

  Not modelled. Requests of several clients that interleave inside one operation of \<open>Services\<close> (each is a transaction, but not
  serialisable), failures of the database except where a definition names them, conflicts between a file
  and a directory of one name in the store, the Django admin, pages of the platform host, schemas of the
  API documentation, the printed text of metrics, log lines and error reports, migrations, and the scripts
  that start processes.
\<close>

end
